(* ===== verification/Prelude.thy ===== *)
theory Prelude
  imports Complex_Main "HOL-Library.Word" "HOL-Library.AList"
begin

text \<open>
  Shared vocabulary of the development: the Go types and the parts of Go's standard library
  (\<^verbatim>\<open>time\<close>, \<^verbatim>\<open>strings\<close>, \<^verbatim>\<open>encoding/hex\<close>)
  that the components use, the script of faults by which an external call may fail, and the
  generic lemmas on lists, strings and association lists that the component proofs share.

  Conventions used by every theory:
  \<^item> a \<^verbatim>\<open>time.Time\<close> is the number of nanoseconds since the Unix epoch, a
    \<^verbatim>\<open>time.Duration\<close> a number of nanoseconds; \<open>time_sub\<close> saturates at the bounds of
    an \<^verbatim>\<open>int64\<close> as \<^verbatim>\<open>Time.Sub\<close> does;
  \<^item> \<^verbatim>\<open>uint64\<close> and \<^verbatim>\<open>uint32\<close> are words, \<^verbatim>\<open>int\<close> is \<^typ>\<open>int\<close>,
    \<^verbatim>\<open>float64\<close> is \<^typ>\<open>real\<close> (exact arithmetic: rounding, NaN and the infinities are
    outside the model);
  \<^item> a Go map is an association list with distinct keys whose order is the iteration order the
    runtime picks, or a HOL map where no code iterates over it.
\<close>

named_theorems go_defs \<open>definitions of Go's standard library\<close>

section \<open>Types\<close>

type_synonym time = int
type_synonym duration = int
type_synonym u64 = "64 word"
type_synonym u32 = "32 word"

abbreviation second :: duration where "second \<equiv> 1000000000"
abbreviation millisecond :: duration where "millisecond \<equiv> 1000000"

definition minDuration :: duration where
  "minDuration = - (2 ^ 63)"

definition maxDuration :: duration where
  "maxDuration = 2 ^ 63 - 1"

definition time_sub :: "time \<Rightarrow> time \<Rightarrow> duration" where
  "time_sub t u = max minDuration (min maxDuration (t - u))"

definition zeroTime :: time where
  "zeroTime = - 62135596800000000000"

definition IsZero :: "time \<Rightarrow> bool" where
  "IsZero t \<longleftrightarrow> t = zeroTime"

definition time_UnixMilli :: "int \<Rightarrow> time" where
  "time_UnixMilli ms = ms * 1000000"

definition UnixMilli :: "time \<Rightarrow> int" where
  "UnixMilli t = t div 1000000"

lemma UnixMilli_inverse [simp]: "UnixMilli (time_UnixMilli ms) = ms"
  by (simp add: UnixMilli_def time_UnixMilli_def)

lemma time_sub_gt_iff:
  assumes "minDuration \<le> d" and "d < maxDuration"
  shows "time_sub t u > d \<longleftrightarrow> t - u > d"
  using assms by (auto simp: time_sub_def)

lemma time_sub_self [simp]: "time_sub t t = 0"
  by (simp add: time_sub_def minDuration_def maxDuration_def)

lemma time_sub_mono: "t \<le> t' \<Longrightarrow> time_sub t u \<le> time_sub t' u"
  by (auto simp: time_sub_def)

lemma time_sub_antimono: "u \<le> u' \<Longrightarrow> time_sub t u' \<le> time_sub t u"
  by (auto simp: time_sub_def)

text \<open>Arithmetic on \<^verbatim>\<open>int64\<close> wraps around. \<open>scaled d n\<close> is \<^verbatim>\<open>time.Duration(n) * d\<close>.\<close>

definition int64_wrap :: "int \<Rightarrow> int" where
  [go_defs]: "int64_wrap i = (i + 2 ^ 63) mod 2 ^ 64 - 2 ^ 63"

definition scaled :: "duration \<Rightarrow> int \<Rightarrow> duration" where
  "scaled d n = int64_wrap (n * d)"

lemma int64_wrap_id: "- (2 ^ 63) \<le> i \<Longrightarrow> i < 2 ^ 63 \<Longrightarrow> int64_wrap i = i"
  by (simp add: int64_wrap_def)

lemma int64_wrap_bounds: "- (2 ^ 63) \<le> int64_wrap i" "int64_wrap i < 2 ^ 63"
  using pos_mod_bound [of "2 ^ 64" "i + 2 ^ 63"] pos_mod_sign [of "2 ^ 64" "i + 2 ^ 63"] by (simp_all add: int64_wrap_def)

section \<open>Strings\<close>

definition HasPrefix :: "string \<Rightarrow> string \<Rightarrow> bool" where
  [go_defs]: "HasPrefix s p \<longleftrightarrow> take (length p) s = p"

definition HasSuffix :: "string \<Rightarrow> string \<Rightarrow> bool" where
  [go_defs]: "HasSuffix s p \<longleftrightarrow> length p \<le> length s \<and> drop (length s - length p) s = p"

definition TrimSuffix :: "string \<Rightarrow> string \<Rightarrow> string" where
  [go_defs]: "TrimSuffix s p = (if HasSuffix s p then take (length s - length p) s else s)"

definition CutPrefix :: "string \<Rightarrow> string \<Rightarrow> string \<times> bool" where
  [go_defs]: "CutPrefix s p = (if HasPrefix s p then (drop (length p) s, True) else (s, False))"

text \<open>\<^verbatim>\<open>strings.Split\<close> with a separator of one character.\<close>

fun splitOn :: "char \<Rightarrow> string \<Rightarrow> string list" where
  "splitOn c [] = [[]]"
| "splitOn c (x # xs) =
     (if x = c then [] # splitOn c xs
      else (case splitOn c xs of [] \<Rightarrow> [[x]] | y # ys \<Rightarrow> (x # y) # ys))"

fun joinWith :: "char \<Rightarrow> string list \<Rightarrow> string" where
  "joinWith c [] = []"
| "joinWith c [x] = x"
| "joinWith c (x # y # ys) = x @ c # joinWith c (y # ys)"

lemma splitOn_nonempty [simp]: "splitOn c s \<noteq> []"
  by (cases s) (auto split: list.splits)

lemma splitOn_no_sep: "c \<notin> set s \<Longrightarrow> splitOn c s = [s]"
  by (induction s) auto

lemma splitOn_append: "c \<notin> set p \<Longrightarrow> splitOn c (p @ c # q) = p # splitOn c q"
  by (induction p) auto

lemma joinWith_splitOn: "joinWith c (splitOn c s) = s"
proof (induction s)
  case Nil
  then show ?case by simp
next
  case (Cons x xs)
  obtain y ys where "splitOn c xs = y # ys" by (cases "splitOn c xs") auto
  with Cons show ?case by (cases ys) auto
qed

lemma splitOn_parts: "p \<in> set (splitOn c s) \<Longrightarrow> c \<notin> set p"
proof (induction s arbitrary: p)
  case Nil
  then show ?case by simp
next
  case (Cons x xs)
  then show ?case
    by (cases "splitOn c xs") (auto split: if_splits)
qed

lemma splitOn_append_sep: "splitOn c (a @ c # b) = splitOn c a @ splitOn c b"
proof (induction a)
  case (Cons x a)
  then show ?case by (cases "splitOn c a") (auto dest: arg_cong [of _ _ length])
qed simp

lemma joinWith_snoc: "xs \<noteq> [] \<Longrightarrow> joinWith c (xs @ ys) = joinWith c xs @ (if ys = [] then [] else c # joinWith c ys)"
proof (induction xs)
  case (Cons x xs)
  then show ?case by (cases xs; cases ys) auto
qed simp

lemma HasPrefix_append [simp]: "HasPrefix (p @ s) p"
  by (simp add: HasPrefix_def)

lemma HasPrefix_iff: "HasPrefix s p \<longleftrightarrow> (\<exists>t. s = p @ t)"
  by (metis HasPrefix_def HasPrefix_append append_take_drop_id)

lemma HasSuffix_append [simp]: "HasSuffix (s @ p) p"
  by (simp add: HasSuffix_def)

lemma HasSuffix_iff: "HasSuffix s p \<longleftrightarrow> (\<exists>t. s = t @ p)"
  by (metis HasSuffix_def HasSuffix_append append_take_drop_id)

lemma TrimSuffix_append [simp]: "TrimSuffix (s @ p) p = s"
  by (simp add: TrimSuffix_def)

lemma CutPrefix_append [simp]: "CutPrefix (p @ s) p = (s, True)"
  by (simp add: CutPrefix_def)

text \<open>\<^verbatim>\<open>strings.TrimSpace\<close>: the runes \<^verbatim>\<open>unicode.IsSpace\<close> accepts, in UTF-8, are taken off both ends.\<close>

definition spaceRunes :: "string list" where
  "spaceRunes = [
    [CHR 0x09], [CHR 0x0A], [CHR 0x0B], [CHR 0x0C], [CHR 0x0D],
    [CHR 0x20], [CHR 0xC2, CHR 0x85], [CHR 0xC2, CHR 0xA0], [CHR 0xE1, CHR 0x9A, CHR 0x80], [CHR 0xE2, CHR 0x80, CHR 0x80],
    [CHR 0xE2, CHR 0x80, CHR 0x81], [CHR 0xE2, CHR 0x80, CHR 0x82], [CHR 0xE2, CHR 0x80, CHR 0x83], [CHR 0xE2, CHR 0x80, CHR 0x84], [CHR 0xE2, CHR 0x80, CHR 0x85],
    [CHR 0xE2, CHR 0x80, CHR 0x86], [CHR 0xE2, CHR 0x80, CHR 0x87], [CHR 0xE2, CHR 0x80, CHR 0x88], [CHR 0xE2, CHR 0x80, CHR 0x89], [CHR 0xE2, CHR 0x80, CHR 0x8A],
    [CHR 0xE2, CHR 0x80, CHR 0xA8], [CHR 0xE2, CHR 0x80, CHR 0xA9], [CHR 0xE2, CHR 0x80, CHR 0xAF], [CHR 0xE2, CHR 0x81, CHR 0x9F], [CHR 0xE3, CHR 0x80, CHR 0x80]]"

function trimWith :: "string list \<Rightarrow> string \<Rightarrow> string" where
  "trimWith ps s =
     (case find (\<lambda>p. p \<noteq> [] \<and> HasPrefix s p) ps of None \<Rightarrow> s | Some p \<Rightarrow> trimWith ps (drop (length p) s))"
  by pat_completeness auto
termination
  by (relation "measure (\<lambda>(ps, s). length s)") (auto simp: find_Some_iff HasPrefix_iff)

declare trimWith.simps [simp del]

definition TrimSpace :: "string \<Rightarrow> string" where
  "TrimSpace s = rev (trimWith (map rev spaceRunes) (rev (trimWith spaceRunes s)))"

lemma trimWith_drops: "\<exists>pre. s = pre @ trimWith ps s \<and> set pre \<subseteq> \<Union> (set ` set ps)"
proof (induction ps s rule: trimWith.induct)
  case (1 ps s)
  show ?case
  proof (cases "find (\<lambda>p. p \<noteq> [] \<and> HasPrefix s p) ps")
    case None
    then show ?thesis by (simp add: trimWith.simps [of ps s])
  next
    case (Some p)
    from 1 [OF Some] obtain pre where pre: "drop (length p) s = pre @ trimWith ps (drop (length p) s)" "set pre \<subseteq> \<Union> (set ` set ps)" by blast
    have p: "s = p @ drop (length p) s" "p \<in> set ps" using Some by (auto simp: find_Some_iff HasPrefix_iff)
    have "s = (p @ pre) @ trimWith ps s" using pre(1) p(1) by (simp add: trimWith.simps [of ps s] Some)
    moreover have "set (p @ pre) \<subseteq> \<Union> (set ` set ps)" using pre(2) p(2) by auto
    ultimately show ?thesis by blast
  qed
qed

text \<open>\<^verbatim>\<open>hex.EncodeToString\<close>.\<close>

definition hexDigit :: "nat \<Rightarrow> char" where
  "hexDigit n = ''0123456789abcdef'' ! (n mod 16)"

definition EncodeToString :: "8 word list \<Rightarrow> string" where
  "EncodeToString bs = concat (map (\<lambda>b. [hexDigit (unat b div 16), hexDigit (unat b)]) bs)"

lemma length_EncodeToString [simp]: "length (EncodeToString bs) = 2 * length bs"
  by (induction bs) (auto simp: EncodeToString_def)

section \<open>Faults of external calls\<close>

text \<open>
  Every call that leaves the process (a database statement, a publish) may fail. A script holds one
  entry per call, in the order of the calls: \<open>Some (Lost e)\<close> makes that call fail with the error
  \<open>e\<close> before it takes effect, \<open>Some (LostReply e)\<close> lets it take effect and loses the reply, so
  that the caller sees the error all the same, \<open>None\<close> lets it through, and past the end of the
  script every call succeeds. A statement about every script is a statement about every pattern of
  failures.
\<close>

type_synonym io_error = string

datatype fault = Lost io_error | LostReply io_error

type_synonym faults = "fault option list"

fun next_fault :: "faults \<Rightarrow> fault option \<times> faults" where
  "next_fault [] = (None, [])"
| "next_fault (f # fs) = (f, fs)"

section \<open>Lists\<close>

lemma map_map_same: "(\<And>x. g (f x) = g x) \<Longrightarrow> map g (map f xs) = map g xs"
  by simp

lemma filter_eq_single:
  assumes "distinct xs" and "x \<in> set xs" and "\<And>y. y \<in> set xs \<Longrightarrow> P y \<longleftrightarrow> y = x"
  shows "filter P xs = [x]"
proof -
  have "filter P xs = filter (\<lambda>y. y = x) xs"
    using assms(3) by (auto intro: filter_cong)
  also have "\<dots> = [x]"
    using assms(1,2) by (induction xs) (auto simp: filter_empty_conv)
  finally show ?thesis .
qed

lemma length_filter_key_le_1:
  assumes "distinct (map f xs)"
  shows "length (filter (\<lambda>x. f x = k) xs) \<le> 1"
  using assms
proof (induction xs)
  case Nil
  then show ?case by simp
next
  case (Cons x xs)
  have "filter (\<lambda>x. f x = k) xs = []" if "f x = k"
    using Cons.prems that by (auto simp: filter_empty_conv) (metis image_eqI)
  with Cons show ?case by simp
qed

lemma length_filter_le_1_iff:
  "length (filter P xs) \<le> 1 \<longleftrightarrow>
   (\<forall>i j. i < length xs \<longrightarrow> j < length xs \<longrightarrow> P (xs ! i) \<longrightarrow> P (xs ! j) \<longrightarrow> i = j)"
proof -
  have len: "length (filter P xs) = card {i. i < length xs \<and> P (xs ! i)}"
    by (rule length_filter_conv_card)
  have fin: "finite {i. i < length xs \<and> P (xs ! i)}" by simp
  show ?thesis
    unfolding len One_nat_def card_le_Suc0_iff_eq [OF fin] by auto
qed

end
