(* ===== verification/Json.thy ===== *)
theory Json
  imports Prelude
begin

text \<open>
  Go's \<^verbatim>\<open>encoding/json\<close> at the level of JSON values: how \<^verbatim>\<open>Marshal\<close> turns a
  struct into an object (field order, \<^verbatim>\<open>omitempty\<close>) and how \<^verbatim>\<open>Unmarshal\<close> fills a
  struct from one (member order, case-insensitive keys, \<^verbatim>\<open>null\<close>, type errors). The text
  of a document is outside the model: a message body is a \<open>json option\<close>, with \<open>None\<close> for
  bytes that are not valid JSON. A number literal is \<open>JInt\<close> when it has integer syntax and
  \<open>JFloat\<close> when it has a fraction or an exponent, which \<^verbatim>\<open>Unmarshal\<close> treats
  differently for integer fields.
\<close>

section \<open>Values\<close>

datatype json =
    JNull
  | JBool bool
  | JInt int
  | JFloat real
  | JString string
  | JArray "json list"
  | JObject "(string \<times> json) list"

type_synonym body = "json option"

datatype json_error = JsonSyntaxError | UnmarshalTypeError string

section \<open>Unmarshal\<close>

text \<open>
  Object keys match field names under simple case folding: ASCII letters without case, and the
  two code points outside ASCII that fold to an ASCII letter (U+017F to s, U+212A to k), which in
  UTF-8 are two and three bytes.
\<close>

definition lowerChar :: "char \<Rightarrow> char" where
  "lowerChar c =
     (if 65 \<le> (of_char c :: nat) \<and> (of_char c :: nat) \<le> 90 then char_of ((of_char c :: nat) + 32) else c)"

fun foldName :: "string \<Rightarrow> string" where
  "foldName [] = []"
| "foldName (a # cs) =
     (if a = CHR 0xC5 \<and> take 1 cs = [CHR 0xBF] then CHR ''s'' # foldName (drop 1 cs)
      else if a = CHR 0xE2 \<and> take 2 cs = [CHR 0x84, CHR 0xAA] then CHR ''k'' # foldName (drop 2 cs)
      else lowerChar a # foldName cs)"

text \<open>A decoder takes the value the field holds: \<^verbatim>\<open>null\<close> leaves a scalar unchanged.\<close>

type_synonym 'a decoder = "json \<Rightarrow> 'a \<Rightarrow> json_error + 'a"

fun dec_string :: "string decoder" where
  "dec_string (JString s) cur = Inr s"
| "dec_string JNull cur = Inr cur"
| "dec_string _ cur = Inl (UnmarshalTypeError ''string'')"

fun dec_bool :: "bool decoder" where
  "dec_bool (JBool b) cur = Inr b"
| "dec_bool JNull cur = Inr cur"
| "dec_bool _ cur = Inl (UnmarshalTypeError ''bool'')"

fun dec_int :: "int decoder" where
  "dec_int (JInt i) cur =
     (if - (2 ^ 63) \<le> i \<and> i < 2 ^ 63 then Inr i else Inl (UnmarshalTypeError ''int''))"
| "dec_int JNull cur = Inr cur"
| "dec_int _ cur = Inl (UnmarshalTypeError ''int'')"

fun dec_uint64 :: "u64 decoder" where
  "dec_uint64 (JInt i) cur =
     (if 0 \<le> i \<and> i < 2 ^ 64 then Inr (word_of_int i) else Inl (UnmarshalTypeError ''uint64''))"
| "dec_uint64 JNull cur = Inr cur"
| "dec_uint64 _ cur = Inl (UnmarshalTypeError ''uint64'')"

fun dec_float :: "real decoder" where
  "dec_float (JInt i) cur = Inr (real_of_int i)"
| "dec_float (JFloat r) cur = Inr r"
| "dec_float JNull cur = Inr cur"
| "dec_float _ cur = Inl (UnmarshalTypeError ''float64'')"

text \<open>A pointer field: \<^verbatim>\<open>null\<close> sets it to nil, another value allocates if it was nil.\<close>

definition dec_ptr :: "'a decoder \<Rightarrow> 'a \<Rightarrow> 'a option decoder" where
  "dec_ptr dec zero j cur =
     (case j of JNull \<Rightarrow> Inr None
      | _ \<Rightarrow> (case dec j (case cur of None \<Rightarrow> zero | Some c \<Rightarrow> c) of
                Inl e \<Rightarrow> Inl e | Inr a \<Rightarrow> Inr (Some a)))"

text \<open>A slice field, \<open>None\<close> for nil: elements are decoded into the slots the slice had.\<close>

fun dec_elems :: "'a decoder \<Rightarrow> 'a \<Rightarrow> json list \<Rightarrow> 'a list \<Rightarrow> json_error + 'a list" where
  "dec_elems dec zero [] cur = Inr []"
| "dec_elems dec zero (j # js) cur =
     (case dec j (case cur of [] \<Rightarrow> zero | c # _ \<Rightarrow> c) of
        Inl e \<Rightarrow> Inl e
      | Inr a \<Rightarrow> (case dec_elems dec zero js (tl cur) of
                    Inl e \<Rightarrow> Inl e | Inr as \<Rightarrow> Inr (a # as)))"

fun dec_slice :: "'a decoder \<Rightarrow> 'a \<Rightarrow> 'a list option decoder" where
  "dec_slice dec zero JNull cur = Inr None"
| "dec_slice dec zero (JArray js) cur =
     (case dec_elems dec zero js (case cur of None \<Rightarrow> [] | Some c \<Rightarrow> c) of
        Inl e \<Rightarrow> Inl e | Inr as \<Rightarrow> Inr (Some as))"
| "dec_slice dec zero _ cur = Inl (UnmarshalTypeError ''slice'')"

text \<open>A \<^verbatim>\<open>map[string]T\<close> field: members are added to the map the field holds.\<close>

fun dec_entries :: "'a decoder \<Rightarrow> 'a \<Rightarrow> (string \<times> json) list \<Rightarrow> (string \<times> 'a) list
    \<Rightarrow> json_error + (string \<times> 'a) list" where
  "dec_entries dec zero [] m = Inr m"
| "dec_entries dec zero ((k, j) # ms) m =
     (case dec j zero of Inl e \<Rightarrow> Inl e | Inr a \<Rightarrow> dec_entries dec zero ms (AList.update k a m))"

fun dec_map :: "'a decoder \<Rightarrow> 'a \<Rightarrow> (string \<times> 'a) list option decoder" where
  "dec_map dec zero JNull cur = Inr None"
| "dec_map dec zero (JObject ms) cur =
     (case dec_entries dec zero ms (case cur of None \<Rightarrow> [] | Some m \<Rightarrow> m) of
        Inl e \<Rightarrow> Inl e | Inr m \<Rightarrow> Inr (Some m))"
| "dec_map dec zero _ cur = Inl (UnmarshalTypeError ''map'')"

text \<open>
  A struct: each member whose folded key names a field is decoded into it, in the order of the
  document. \<open>set_field k j a\<close> is the struct's own table of fields.
\<close>

fun dec_members :: "(string \<Rightarrow> 'a decoder) \<Rightarrow> (string \<times> json) list \<Rightarrow> 'a \<Rightarrow> json_error + 'a" where
  "dec_members set_field [] a = Inr a"
| "dec_members set_field ((k, j) # ms) a =
     (case set_field (foldName k) j a of
        Inl e \<Rightarrow> Inl e | Inr a' \<Rightarrow> dec_members set_field ms a')"

fun dec_struct :: "(string \<Rightarrow> 'a decoder) \<Rightarrow> 'a decoder" where
  "dec_struct set_field JNull cur = Inr cur"
| "dec_struct set_field (JObject ms) cur = dec_members set_field ms cur"
| "dec_struct set_field _ cur = Inl (UnmarshalTypeError ''struct'')"

definition Unmarshal :: "'a decoder \<Rightarrow> 'a \<Rightarrow> body \<Rightarrow> json_error + 'a" where
  "Unmarshal dec zero b = (case b of None \<Rightarrow> Inl JsonSyntaxError | Some j \<Rightarrow> dec j zero)"

text \<open>Storing a decoded field back into its struct.\<close>

definition field :: "'b decoder \<Rightarrow> ('a \<Rightarrow> 'b) \<Rightarrow> ('b \<Rightarrow> 'a \<Rightarrow> 'a) \<Rightarrow> 'a decoder" where
  "field dec get put j a = (case dec j (get a) of Inl e \<Rightarrow> Inl e | Inr b \<Rightarrow> Inr (put b a))"

section \<open>Marshal\<close>

definition enc_float :: "real \<Rightarrow> json" where
  "enc_float r = (if r = of_int \<lfloor>r\<rfloor> \<and> \<bar>r\<bar> < 10 ^ 21 then JInt \<lfloor>r\<rfloor> else JFloat r)"

definition enc_uint64 :: "u64 \<Rightarrow> json" where
  "enc_uint64 w = JInt (uint w)"

text \<open>\<^verbatim>\<open>omitempty\<close> on a pointer, a slice and a map: nil is left out, and so are an empty
  slice and an empty map.\<close>

definition omit_ptr :: "string \<Rightarrow> ('a \<Rightarrow> json) \<Rightarrow> 'a option \<Rightarrow> (string \<times> json) list" where
  "omit_ptr k enc v = (case v of None \<Rightarrow> [] | Some a \<Rightarrow> [(k, enc a)])"

definition omit_list :: "string \<Rightarrow> ('a list \<Rightarrow> json) \<Rightarrow> 'a list option \<Rightarrow> (string \<times> json) list" where
  "omit_list k enc v = (case v of None \<Rightarrow> [] | Some [] \<Rightarrow> [] | Some xs \<Rightarrow> [(k, enc xs)])"

definition omit_if :: "bool \<Rightarrow> string \<Rightarrow> json \<Rightarrow> (string \<times> json) list" where
  "omit_if isEmpty k j = (if isEmpty then [] else [(k, j)])"

text \<open>What a slice or a map field is after it went through \<^verbatim>\<open>omitempty\<close> and back.\<close>

definition drop_empty :: "'a list option \<Rightarrow> 'a list option" where
  "drop_empty v = (if v = Some [] then None else v)"

section \<open>Lemmas\<close>

declare foldName.simps [simp del]

lemma dec_members_append:
  "dec_members f (xs @ ys) a =
     (case dec_members f xs a of Inl e \<Rightarrow> Inl e | Inr b \<Rightarrow> dec_members f ys b)"
  by (induction xs arbitrary: a) (auto split: sum.splits)

lemma dec_float_enc [simp]: "dec_float (enc_float r) cur = Inr r"
  by (auto simp: enc_float_def)

lemma dec_uint64_enc [simp]: "dec_uint64 (enc_uint64 w) cur = Inr w"
  using uint_lt2p [of w] by (simp add: enc_uint64_def)

lemma dec_elems_strings [simp]:
  "dec_elems dec_string [] (map JString xs) cur = Inr xs"
  by (induction xs arbitrary: cur) auto

lemma dec_entries_floats:
  "distinct (map fst (m @ xs)) \<Longrightarrow>
   dec_entries dec_float 0 (map (\<lambda>(k, r). (k, enc_float r)) xs) m = Inr (m @ xs)"
proof (induction xs arbitrary: m)
  case Nil
  then show ?case by simp
next
  case (Cons x xs)
  obtain k r where x: "x = (k, r)" by fastforce
  have "k \<notin> fst ` set m" using Cons.prems x by auto
  then have "AList.update k r m = m @ [(k, r)]"
    by (induction m) auto
  with Cons.IH [of "m @ [(k, r)]"] Cons.prems x show ?case by simp
qed

lemma enc_float_not_null [simp]: "enc_float r \<noteq> JNull"
  by (simp add: enc_float_def)

lemma dec_ptr_enc:
  "enc a \<noteq> JNull \<Longrightarrow> (\<And>cur. dec (enc a) cur = Inr a) \<Longrightarrow> dec_ptr dec zero (enc a) cur = Inr (Some a)"
  by (cases "enc a") (simp_all add: dec_ptr_def)

lemmas omit_defs = omit_ptr_def omit_list_def omit_if_def drop_empty_def

text \<open>Reading back one optional member: the step of every struct round trip.\<close>

lemma dec_omit_ptr:
  assumes "f (foldName k) = field (dec_ptr dec z) get put"
    and "\<And>a. v = Some a \<Longrightarrow> enc a \<noteq> JNull"
    and "\<And>a cur. v = Some a \<Longrightarrow> dec (enc a) cur = Inr a"
    and "put None a0 = a0"
  shows "dec_members f (omit_ptr k enc v) a0 = Inr (put v a0)"
proof (cases v)
  case None
  then show ?thesis using assms(4) by (simp add: omit_ptr_def)
next
  case (Some a)
  then have "dec_ptr dec z (enc a) cur = Inr (Some a)" for cur
    by (intro dec_ptr_enc assms(2,3)) simp_all
  then show ?thesis using assms(1) Some by (simp add: omit_ptr_def field_def)
qed

lemma dec_omit_if:
  assumes "f (foldName k) = field dec get put"
    and "\<not> isEmpty \<Longrightarrow> dec j (get a0) = Inr v"
    and "isEmpty \<Longrightarrow> put v a0 = a0"
  shows "dec_members f (omit_if isEmpty k j) a0 = Inr (put v a0)"
  using assms by (auto simp: omit_if_def field_def)

lemma dec_omit_list:
  assumes "f (foldName k) = field dec get put"
    and "\<And>xs. v = Some xs \<Longrightarrow> xs \<noteq> [] \<Longrightarrow> dec (enc xs) (get a0) = Inr (Some xs)"
    and "put None a0 = a0"
  shows "dec_members f (omit_list k enc v) a0 = Inr (put (drop_empty v) a0)"
  using assms
  by (cases v) (auto simp: omit_list_def drop_empty_def field_def split: list.splits)

lemma dec_struct_object:
  "dec_members f ms zero = Inr a \<Longrightarrow> Unmarshal (dec_struct f) zero (Some (JObject ms)) = Inr a"
  by (simp add: Unmarshal_def)

text \<open>A property of a struct that every field decoder keeps holds of whatever is decoded.\<close>

lemma dec_members_keeps:
  assumes "P a" and "\<And>k j a b. P a \<Longrightarrow> f k j a = Inr b \<Longrightarrow> P b" and "dec_members f ms a = Inr b"
  shows "P b"
  using assms(1,3)
proof (induction ms arbitrary: a)
  case (Cons m ms)
  obtain k j where "m = (k, j)" by (cases m)
  with Cons.prems obtain c where "f (foldName k) j a = Inr c" "dec_members f ms c = Inr b"
    by (auto split: sum.splits)
  with Cons.IH Cons.prems(1) assms(2) show ?case by blast
qed simp

lemma dec_struct_keeps:
  assumes "dec_struct f j a = Inr b" and "P a" and "\<And>k j a b. P a \<Longrightarrow> f k j a = Inr b \<Longrightarrow> P b"
  shows "P b"
  using assms(1,2) dec_members_keeps [of P, OF assms(2) assms(3)] by (cases j) auto

lemma dec_elems_keeps:
  assumes "dec_elems dec zero js cur = Inr as" and "P zero" and "list_all P cur" and "\<And>j a b. P a \<Longrightarrow> dec j a = Inr b \<Longrightarrow> P b"
  shows "list_all P as"
  using assms(1,3)
proof (induction js arbitrary: cur as)
  case (Cons j js)
  let ?c = "case cur of [] \<Rightarrow> zero | c # _ \<Rightarrow> c"
  have "P ?c" using Cons.prems(2) assms(2) by (cases cur) auto
  moreover have "list_all P (tl cur)" using Cons.prems(2) by (cases cur) auto
  ultimately show ?case using Cons.prems(1) Cons.IH [of "tl cur"] assms(4) [of ?c j] by (auto split: sum.splits)
qed simp

lemma Unmarshal_struct_keeps:
  assumes "Unmarshal (dec_struct f) zero body = Inr b"
    and "P zero" and "\<And>k j a b. P a \<Longrightarrow> f k j a = Inr b \<Longrightarrow> P b"
  shows "P b"
proof -
  obtain j where j: "dec_struct f j zero = Inr b"
    using assms(1) by (auto simp: Unmarshal_def split: option.splits)
  then show ?thesis using assms(2,3) by (rule dec_struct_keeps)
qed

end
