(* ===== verification/Database.thy ===== *)
theory Database
  imports Json
begin

text \<open>
  The Postgres database the services share: the tables of \<^verbatim>\<open>deploy/migrations\<close> with their
  keys and constraints, and how a statement issued through \<^verbatim>\<open>pgx\<close> runs. The statements
  themselves are translated in the theories of the stores that issue them.

  A table is the list of its rows. A statement maps the database to an error or to a result and the
  database after it, so a statement that fails changes nothing; \<open>pg_run\<close> runs it against the next
  entry of the fault script. \<open>pg_uuid\<close> stands for the driver's conversion of a string argument to a
  \<^verbatim>\<open>uuid\<close> column: \<open>None\<close> for a string it refuses, otherwise the canonical form the
  database stores and compares. Timestamps keep microseconds.
\<close>

section \<open>Rows\<close>

record DeviceRow =
  dr_id :: string
  dr_name :: string
  dr_type :: string
  dr_registered_at :: time
  dr_last_seen :: "time option"
  dr_status :: string
  dr_metadata :: json

record AlertRow =
  al_id :: string
  al_device_id :: string
  al_sensor_type :: string
  al_rule_name :: string
  al_severity :: string
  al_state :: string
  al_detail :: json
  al_fired_at :: time
  al_acknowledged_at :: "time option"
  al_resolved_at :: "time option"
  al_updated_at :: time

record ReadingRow =
  rd_time :: time
  rd_device_id :: string
  rd_sensor_type :: string
  rd_value :: real
  rd_device_time :: time
  rd_ingest_time :: time
  rd_seq :: int

record HistoryRow =
  hi_id :: string
  hi_device_id :: string
  hi_direction :: string
  hi_revision :: int
  hi_payload :: json

record RolloutRow =
  rr_id :: string
  rr_name :: string
  rr_cohort :: json
  rr_desired_config :: json
  rr_stages :: json
  rr_health_criteria :: json
  rr_state :: string
  rr_current_stage_index :: int
  rr_current_stage_started_at :: time
  rr_created_at :: time
  rr_updated_at :: time

record TargetRow =
  tr_rollout_id :: string
  tr_device_id :: string
  tr_included_at_stage :: int
  tr_pre_rollout_desired :: "json option"
  tr_pre_rollout_revision :: int
  tr_pushed_revision :: int

record UserRow =
  us_id :: string
  us_username :: string
  us_password_hash :: string
  us_role :: string
  us_created_at :: time

record pg =
  pg_faults :: faults
  pg_uuid :: "string \<Rightarrow> string option"
  pg_devices :: "DeviceRow list"
  pg_readings :: "ReadingRow list"
  pg_alerts :: "AlertRow list"
  pg_shadow_history :: "HistoryRow list"
  pg_rollouts :: "RolloutRow list"
  pg_rollout_targets :: "TargetRow list"
  pg_users :: "UserRow list"

section \<open>Statements\<close>

datatype pg_error =
    PgCode string
  | PgArg string
  | PgIO io_error
  | NoRows
  | PgScan json_error

abbreviation unique_violation :: pg_error where "unique_violation \<equiv> PgCode ''23505''"
abbreviation foreign_key_violation :: pg_error where "foreign_key_violation \<equiv> PgCode ''23503''"
abbreviation check_violation :: pg_error where "check_violation \<equiv> PgCode ''23514''"

type_synonym 'a statement = "pg \<Rightarrow> pg_error + 'a \<times> pg"

definition pg_run :: "'a statement \<Rightarrow> pg \<Rightarrow> (pg_error + 'a) \<times> pg" where
  "pg_run stmt d =
     (let (f, fs) = next_fault (pg_faults d); d0 = d\<lparr>pg_faults := fs\<rparr> in
      case f of
        None \<Rightarrow> (case stmt d0 of Inl e \<Rightarrow> (Inl e, d0) | Inr (a, d1) \<Rightarrow> (Inr a, d1))
      | Some (Lost e) \<Rightarrow> (Inl (PgIO e), d0)
      | Some (LostReply e) \<Rightarrow> (case stmt d0 of Inl _ \<Rightarrow> (Inl (PgIO e), d0) | Inr (a, d1) \<Rightarrow> (Inl (PgIO e), d1)))"

text \<open>\<^verbatim>\<open>pool.Exec\<close>: the caller only learns of an error.\<close>

definition pg_exec :: "unit statement \<Rightarrow> pg \<Rightarrow> pg_error option \<times> pg" where
  "pg_exec stmt d =
     (case pg_run stmt d of (Inl e, d') \<Rightarrow> (Some e, d') | (Inr _, d') \<Rightarrow> (None, d'))"

text \<open>A \<^verbatim>\<open>uuid\<close> argument.\<close>

definition uuid_arg :: "pg \<Rightarrow> string \<Rightarrow> (string \<Rightarrow> pg_error + 'a) \<Rightarrow> pg_error + 'a" where
  "uuid_arg d s k = (case pg_uuid d s of None \<Rightarrow> Inl (PgArg s) | Some u \<Rightarrow> k u)"

definition pg_ts :: "time \<Rightarrow> time" where
  "pg_ts t = t div 1000 * 1000"

text \<open>\<^verbatim>\<open>QueryRow\<close> takes the first row of the result.\<close>

definition first_row :: "'a list \<Rightarrow> pg_error + 'a" where
  "first_row rows = (case rows of [] \<Rightarrow> Inl NoRows | r # _ \<Rightarrow> Inr r)"

definition device_exists :: "pg \<Rightarrow> string \<Rightarrow> bool" where
  "device_exists d u \<longleftrightarrow> u \<in> dr_id ` set (pg_devices d)"

section \<open>Lemmas\<close>

lemma pg_run_preserves:
  assumes "P d"
    and "\<And>d fs. P d \<Longrightarrow> P (d\<lparr>pg_faults := fs\<rparr>)"
    and "\<And>d a d'. P d \<Longrightarrow> stmt d = Inr (a, d') \<Longrightarrow> P d'"
  shows "P (snd (pg_run stmt d))"
  using assms(1) assms(2) [OF assms(1)] assms(3) [OF assms(2) [OF assms(1)]]
  by (auto simp: pg_run_def Let_def split: prod.splits option.splits sum.splits fault.splits)

lemma pg_run_cases:
  assumes "pg_run stmt d = (r, d')"
  obtains (unchanged) fs e where "d' = d\<lparr>pg_faults := fs\<rparr>" and "r = Inl e"
  | (ok) fs a where "stmt (d\<lparr>pg_faults := fs\<rparr>) = Inr (a, d')" and "r = Inr a"
  | (lost_reply) fs a e where "stmt (d\<lparr>pg_faults := fs\<rparr>) = Inr (a, d')" and "r = Inl (PgIO e)"
  using assms
  by (auto simp: pg_run_def Let_def split: prod.splits option.splits sum.splits fault.splits)

lemma pg_run_ok:
  assumes "pg_run stmt d = (Inr a, d')"
  obtains fs where "stmt (d\<lparr>pg_faults := fs\<rparr>) = Inr (a, d')"
  using assms by (rule pg_run_cases) auto

lemma pg_exec_preserves:
  assumes "P d"
    and "\<And>d fs. P d \<Longrightarrow> P (d\<lparr>pg_faults := fs\<rparr>)"
    and "\<And>d a d'. P d \<Longrightarrow> stmt d = Inr (a, d') \<Longrightarrow> P d'"
  shows "P (snd (pg_exec stmt d))"
  using pg_run_preserves [of P d stmt, OF assms(1)] assms(2,3)
  by (auto simp: pg_exec_def split: prod.splits sum.splits)

lemma pg_exec_ok:
  assumes "pg_exec stmt d = (None, d')"
  obtains fs where "stmt (d\<lparr>pg_faults := fs\<rparr>) = Inr ((), d')"
  using assms by (auto simp: pg_exec_def elim!: pg_run_ok split: prod.splits sum.splits)

lemma pg_run_no_faults [simp]:
  "pg_faults d = [] \<Longrightarrow>
   pg_run stmt d = (case stmt d of Inl e \<Rightarrow> (Inl e, d) | Inr (a, d1) \<Rightarrow> (Inr a, d1))"
  by (cases d) (auto simp: pg_run_def Let_def split: sum.splits)

lemma pg_ts_mono: "s \<le> t \<Longrightarrow> pg_ts s \<le> pg_ts t"
  by (simp add: pg_ts_def zdiv_mono1)

lemma pg_ts_idem [simp]: "pg_ts (pg_ts t) = pg_ts t"
  by (simp add: pg_ts_def)

lemma uuid_arg_Inr:
  "uuid_arg d s k = Inr x \<longleftrightarrow> (\<exists>u. pg_uuid d s = Some u \<and> k u = Inr x)"
  by (auto simp: uuid_arg_def split: option.splits)

lemma device_exists_faults [simp]: "device_exists (d\<lparr>pg_faults := fs\<rparr>) u = device_exists d u"
  by (simp add: device_exists_def)

end
