(* ===== verification/Messaging.thy ===== *)
theory Messaging
  imports Json
begin

text \<open>
  The outgoing side of a message broker connection (NATS JetStream, MQTT): what was handed to the
  broker, in order, and the script of faults its publishes meet. A publish that returns an error may
  still have reached the broker.
\<close>

record 'm bus =
  bus_faults :: faults
  bus_sent :: "(string \<times> 'm) list"

definition bus_publish :: "string \<Rightarrow> 'm \<Rightarrow> 'm bus \<Rightarrow> io_error option \<times> 'm bus" where
  "bus_publish topic m b =
     (let (f, fs) = next_fault (bus_faults b); b0 = b\<lparr>bus_faults := fs\<rparr>;
          b1 = b0\<lparr>bus_sent := bus_sent b0 @ [(topic, m)]\<rparr> in
      case f of
        None \<Rightarrow> (None, b1)
      | Some (Lost e) \<Rightarrow> (Some e, b0)
      | Some (LostReply e) \<Rightarrow> (Some e, b1))"

lemma bus_publish_cases:
  assumes "bus_publish topic m b = (r, b')"
  obtains (sent) "bus_sent b' = bus_sent b @ [(topic, m)]"
  | (lost) e where "r = Some e" and "bus_sent b' = bus_sent b"
  using assms by (auto simp: bus_publish_def Let_def split: prod.splits option.splits fault.splits)

lemma bus_publish_ok:
  "bus_publish topic m b = (None, b') \<Longrightarrow> bus_sent b' = bus_sent b @ [(topic, m)]"
  by (erule bus_publish_cases) auto

lemma bus_publish_no_faults [simp]:
  "bus_faults b = [] \<Longrightarrow> bus_publish topic m b = (None, b\<lparr>bus_sent := bus_sent b @ [(topic, m)]\<rparr>)"
  by (cases b) (simp add: bus_publish_def)

end
