(* ===== verification/World.thy ===== *)
theory World
  imports Database Messaging
begin

text \<open>
  The outside of a service as its code sees it: the Postgres database, the JetStream KV bucket, the
  connections to the MQTT broker and to JetStream, the clock and the source of fresh uuids. The clock
  and the uuids are arbitrary sequences: each call takes the next element, and nothing is assumed about
  them unless a statement says so.

  The KV bucket is the client library's: its operations are a parameter (\<open>kvops\<close>), and the locale
  \<open>kv_bucket\<close> states the behaviour its documentation promises. A value is a message body.
\<close>

section \<open>State\<close>

record mqtt_msg =
  m_qos :: nat
  m_retained :: bool
  m_payload :: json

record 'kv world =
  w_pg :: pg
  w_kv :: 'kv
  w_mqtt :: "mqtt_msg bus"
  w_js :: "json bus"
  w_clock :: "nat \<Rightarrow> time"
  w_ticks :: nat
  w_uuids :: "nat \<Rightarrow> string"
  w_issued :: nat

definition time_Now :: "'kv world \<Rightarrow> time \<times> 'kv world" where
  "time_Now w = (w_clock w (w_ticks w), w\<lparr>w_ticks := Suc (w_ticks w)\<rparr>)"

definition uuid_NewString :: "'kv world \<Rightarrow> string \<times> 'kv world" where
  "uuid_NewString w = (w_uuids w (w_issued w), w\<lparr>w_issued := Suc (w_issued w)\<rparr>)"

text \<open>A call on the database, one on the database that reads its clock, and a publish.\<close>

definition on_pg :: "(pg \<Rightarrow> 'a \<times> pg) \<Rightarrow> 'kv world \<Rightarrow> 'a \<times> 'kv world" where
  "on_pg f w = (case f (w_pg w) of (a, d) \<Rightarrow> (a, w\<lparr>w_pg := d\<rparr>))"

definition on_pg_now :: "(time \<Rightarrow> pg \<Rightarrow> 'a \<times> pg) \<Rightarrow> 'kv world \<Rightarrow> 'a \<times> 'kv world" where
  "on_pg_now f w = (case time_Now w of (t, w1) \<Rightarrow> on_pg (f t) w1)"

definition on_js :: "(json bus \<Rightarrow> 'a \<times> json bus) \<Rightarrow> 'kv world \<Rightarrow> 'a \<times> 'kv world" where
  "on_js f w = (case f (w_js w) of (a, b) \<Rightarrow> (a, w\<lparr>w_js := b\<rparr>))"

definition on_mqtt :: "(mqtt_msg bus \<Rightarrow> 'a \<times> mqtt_msg bus) \<Rightarrow> 'kv world \<Rightarrow> 'a \<times> 'kv world" where
  "on_mqtt f w = (case f (w_mqtt w) of (a, b) \<Rightarrow> (a, w\<lparr>w_mqtt := b\<rparr>))"

lemmas world_defs = time_Now_def uuid_NewString_def on_pg_def on_pg_now_def on_js_def on_mqtt_def

datatype svc_error =
    SvcPg pg_error
  | SvcKv io_error
  | SvcJson json_error
  | SvcPub io_error

section \<open>The KV bucket\<close>

datatype kv_error = ErrKeyNotFound | KvIO io_error

record 'kv kvops =
  kv_Put :: "string \<Rightarrow> body \<Rightarrow> 'kv \<Rightarrow> (kv_error + u64) \<times> 'kv"
  kv_Get :: "string \<Rightarrow> 'kv \<Rightarrow> (kv_error + body \<times> u64) \<times> 'kv"

text \<open>
  The promises of the bucket, for an abstract view \<open>content\<close> of what it holds: a successful
  \<^verbatim>\<open>Put\<close> stores the value under a revision that is positive and larger than any other in
  the bucket (the sequence number of the stream) and leaves other keys alone; a \<^verbatim>\<open>Put\<close> that
  returns an error did either that or nothing; \<^verbatim>\<open>Get\<close> changes nothing and reports what is
  there.
\<close>

locale kv_bucket =
  fixes kv :: "'kv kvops"
    and content :: "'kv \<Rightarrow> string \<Rightarrow> (body \<times> u64) option"
  assumes put_ok: "kv_Put kv k v s = (Inr rv, s') \<Longrightarrow>
      content s' = (content s)(k \<mapsto> (v, rv)) \<and> (\<forall>k' v' rv'. content s k' = Some (v', rv') \<longrightarrow> rv' < rv)"
    and put_err: "kv_Put kv k v s = (Inl e, s') \<Longrightarrow>
      content s' = content s \<or>
      (\<exists>rv. content s' = (content s)(k \<mapsto> (v, rv)) \<and> (\<forall>k' v' rv'. content s k' = Some (v', rv') \<longrightarrow> rv' < rv))"
    and get_state: "kv_Get kv k s = (r, s') \<Longrightarrow> content s' = content s"
    and get_ok: "kv_Get kv k s = (Inr en, s') \<Longrightarrow> content s k = Some en"
    and get_none: "kv_Get kv k s = (Inl ErrKeyNotFound, s') \<Longrightarrow> content s k = None"
    and content_pos: "content s k = Some (v, rv) \<Longrightarrow> rv > 0"

text \<open>A bucket in memory with a script of faults keeps these promises while sequence numbers last:
  past the largest one a \<^verbatim>\<open>Put\<close> fails.\<close>

record memkv =
  mk_faults :: faults
  mk_entries :: "string \<Rightarrow> (body \<times> u64) option"
  mk_seq :: u64

definition mem_content :: "memkv \<Rightarrow> string \<Rightarrow> (body \<times> u64) option" where
  "mem_content s k =
     (case mk_entries s k of None \<Rightarrow> None
      | Some (v, rv) \<Rightarrow> if 0 < rv \<and> rv \<le> mk_seq s then Some (v, rv) else None)"

definition mem_store :: "string \<Rightarrow> body \<Rightarrow> memkv \<Rightarrow> memkv" where
  "mem_store k v s =
     s\<lparr>mk_entries := (mem_content s)(k \<mapsto> (v, mk_seq s + 1)), mk_seq := mk_seq s + 1\<rparr>"

definition memPut :: "string \<Rightarrow> body \<Rightarrow> memkv \<Rightarrow> (kv_error + u64) \<times> memkv" where
  "memPut k v s =
     (let (f, fs) = next_fault (mk_faults s); s0 = s\<lparr>mk_faults := fs\<rparr> in
      if mk_seq s = - 1 then (Inl (KvIO ''sequence exhausted''), s0)
      else case f of
        None \<Rightarrow> (Inr (mk_seq s + 1), mem_store k v s0)
      | Some (Lost e) \<Rightarrow> (Inl (KvIO e), s0)
      | Some (LostReply e) \<Rightarrow> (Inl (KvIO e), mem_store k v s0))"

definition memGet :: "string \<Rightarrow> memkv \<Rightarrow> (kv_error + body \<times> u64) \<times> memkv" where
  "memGet k s =
     (let (f, fs) = next_fault (mk_faults s); s0 = s\<lparr>mk_faults := fs\<rparr> in
      case f of
        Some (Lost e) \<Rightarrow> (Inl (KvIO e), s0)
      | Some (LostReply e) \<Rightarrow> (Inl (KvIO e), s0)
      | None \<Rightarrow> (case mem_content s k of None \<Rightarrow> (Inl ErrKeyNotFound, s0) | Some en \<Rightarrow> (Inr en, s0)))"

definition memkv_ops :: "memkv kvops" where
  "memkv_ops = \<lparr>kv_Put = memPut, kv_Get = memGet\<rparr>"

lemma word_succ_gt: "n \<noteq> - 1 \<Longrightarrow> n < n + (1 :: u64)"
proof -
  assume "n \<noteq> - 1"
  then have "uint n \<noteq> uint (- 1 :: u64)" by (metis word_of_int_uint)
  moreover have "uint (- 1 :: u64) = 2 ^ 64 - 1" by (simp add: unsigned_minus_1_eq_mask mask_eq_exp_minus_1)
  ultimately have "uint n \<noteq> 2 ^ 64 - 1" by simp
  with uint_lt2p [of n] have "uint n + 1 < 2 ^ 64" by simp
  then have "uint (n + 1) = uint n + 1" by (simp add: uint_word_ariths)
  then show "n < n + 1" by (simp add: word_less_def)
qed

lemma mem_content_faults [simp]: "mem_content (s\<lparr>mk_faults := fs\<rparr>) = mem_content s"
  by (rule ext) (simp add: mem_content_def cong: option.case_cong)

lemma mem_content_bounds: "mem_content s k = Some (v, rv) \<Longrightarrow> 0 < rv \<and> rv \<le> mk_seq s"
  by (auto simp: mem_content_def split: option.splits if_splits)

lemma mem_content_seq_less: "mem_content s k = Some (v, rv) \<Longrightarrow> mk_seq s \<noteq> - 1 \<Longrightarrow> rv < mk_seq s + 1"
  using mem_content_bounds [of s k v rv] word_succ_gt [of "mk_seq s"] by (auto intro: order_le_less_trans)

lemma mem_content_store:
  assumes "mk_seq s \<noteq> - 1"
  shows "mem_content (mem_store k v s) = (mem_content s)(k \<mapsto> (v, mk_seq s + 1))"
proof
  fix k'
  have lt: "mk_seq s < mk_seq s + 1" using assms by (rule word_succ_gt)
  then have pos: "0 < mk_seq s + 1" using word_zero_le order_le_less_trans by blast
  have "mem_content (mem_store k v s) k' =
      (case ((mem_content s)(k \<mapsto> (v, mk_seq s + 1))) k' of None \<Rightarrow> None
       | Some (v, rv) \<Rightarrow> if 0 < rv \<and> rv \<le> mk_seq s + 1 then Some (v, rv) else None)"
    unfolding mem_content_def [of "mem_store k v s"] by (auto simp: mem_store_def split: option.splits)
  also have "\<dots> = ((mem_content s)(k \<mapsto> (v, mk_seq s + 1))) k'"
    using pos mem_content_bounds [of s k'] lt
    by (auto split: option.splits dest: order_le_less_trans order_less_imp_le)
  finally show "mem_content (mem_store k v s) k' = ((mem_content s)(k \<mapsto> (v, mk_seq s + 1))) k'" .
qed

interpretation mem: kv_bucket memkv_ops mem_content
proof
  fix k v s rv s'
  assume "kv_Put memkv_ops k v s = (Inr rv, s')"
  then have "mk_seq s \<noteq> - 1" "rv = mk_seq s + 1" "\<exists>fs. s' = mem_store k v (s\<lparr>mk_faults := fs\<rparr>)"
    by (auto simp: memkv_ops_def memPut_def Let_def split: prod.splits if_splits option.splits fault.splits)
  then show "mem_content s' = (mem_content s)(k \<mapsto> (v, rv)) \<and>
      (\<forall>k' v' rv'. mem_content s k' = Some (v', rv') \<longrightarrow> rv' < rv)"
    using mem_content_seq_less by (auto simp: mem_content_store)
next
  fix k v s e s'
  assume "kv_Put memkv_ops k v s = (Inl e, s')"
  then consider fs where "s' = s\<lparr>mk_faults := fs\<rparr>" | fs where "mk_seq s \<noteq> - 1" "s' = mem_store k v (s\<lparr>mk_faults := fs\<rparr>)"
    by (auto simp: memkv_ops_def memPut_def Let_def split: prod.splits if_splits option.splits fault.splits)
  then show "mem_content s' = mem_content s \<or> (\<exists>rv. mem_content s' = (mem_content s)(k \<mapsto> (v, rv)) \<and>
      (\<forall>k' v' rv'. mem_content s k' = Some (v', rv') \<longrightarrow> rv' < rv))"
  proof cases
    case 2
    then show ?thesis
      using mem_content_seq_less [of s] by (intro disjI2 exI [of _ "mk_seq s + 1"]) (auto simp: mem_content_store)
  qed simp
qed (auto simp: memkv_ops_def memGet_def Let_def mem_content_bounds
    split: prod.splits option.splits fault.splits)

end
