(* ===== verification/Devices.thy ===== *)
theory Devices
  imports Database
begin

text \<open>
  \<^verbatim>\<open>internal/devices/devices.go\<close>: the registry of claimed devices in Postgres.
\<close>

section \<open>Model\<close>

record Device =
  de_ID :: string
  de_Name :: string
  de_Type :: string
  de_RegisteredAt :: time
  de_LastSeen :: "time option"
  de_Status :: string
  de_Metadata :: "(string \<times> json) list option"

text \<open>\<^verbatim>\<open>map[string]any\<close> members keep their JSON value.\<close>

definition dec_any :: "json decoder" where
  "dec_any j cur = Inr j"

definition scanDevice :: "DeviceRow \<Rightarrow> pg_error + Device" where
  "scanDevice r =
     (case dec_map dec_any JNull (dr_metadata r) None of
        Inl e \<Rightarrow> Inl (PgScan e)
      | Inr m \<Rightarrow> Inr \<lparr>de_ID = dr_id r, de_Name = dr_name r, de_Type = dr_type r,
          de_RegisteredAt = dr_registered_at r, de_LastSeen = dr_last_seen r,
          de_Status = dr_status r, de_Metadata = m\<rparr>)"

definition sql_insert_device :: "time \<Rightarrow> string \<Rightarrow> string \<Rightarrow> string \<Rightarrow> unit statement" where
  "sql_insert_device dbNow id' name typ d =
     uuid_arg d id' (\<lambda>u.
       if device_exists d u then Inl unique_violation
       else Inr ((), d\<lparr>pg_devices := pg_devices d @
         [\<lparr>dr_id = u, dr_name = name, dr_type = typ, dr_registered_at = pg_ts dbNow, dr_last_seen = None,
           dr_status = ''claimed'', dr_metadata = JObject []\<rparr>]\<rparr>))"

definition Devices_Create :: "time \<Rightarrow> string \<Rightarrow> string \<Rightarrow> string \<Rightarrow> pg \<Rightarrow> pg_error option \<times> pg" where
  "Devices_Create dbNow id' name typ d = pg_exec (sql_insert_device dbNow id' name typ) d"

definition sql_select_device :: "string \<Rightarrow> DeviceRow list statement" where
  "sql_select_device id' d = uuid_arg d id' (\<lambda>u. Inr (filter (\<lambda>r. dr_id r = u) (pg_devices d), d))"

definition Devices_Get :: "string \<Rightarrow> pg \<Rightarrow> (pg_error + Device option) \<times> pg" where
  "Devices_Get id' d =
     (case pg_run (sql_select_device id') d of
        (Inl e, d') \<Rightarrow> (Inl e, d')
      | (Inr [], d') \<Rightarrow> (Inr None, d')
      | (Inr (r # _), d') \<Rightarrow> (case scanDevice r of Inl e \<Rightarrow> (Inl e, d') | Inr v \<Rightarrow> (Inr (Some v), d')))"

text \<open>The loop over a result set stops at the first row that does not scan.\<close>

fun scanAll :: "('r \<Rightarrow> pg_error + 'a) \<Rightarrow> 'r list \<Rightarrow> pg_error + 'a list" where
  "scanAll scan [] = Inr []"
| "scanAll scan (r # rs) =
     (case scan r of Inl e \<Rightarrow> Inl e
      | Inr a \<Rightarrow> (case scanAll scan rs of Inl e \<Rightarrow> Inl e | Inr as \<Rightarrow> Inr (a # as)))"

text \<open>\<^verbatim>\<open>ORDER BY registered_at DESC\<close>; rows with equal times come in the order of the table,
  one of the orders SQL allows.\<close>

definition sql_list_devices :: "DeviceRow list statement" where
  "sql_list_devices d = Inr (sort_key (\<lambda>r. - dr_registered_at r) (pg_devices d), d)"

definition Devices_List :: "pg \<Rightarrow> (pg_error + Device list) \<times> pg" where
  "Devices_List d =
     (case pg_run sql_list_devices d of
        (Inl e, d') \<Rightarrow> (Inl e, d') | (Inr rows, d') \<Rightarrow> (scanAll scanDevice rows, d'))"

definition sql_update_last_seen :: "string \<Rightarrow> time \<Rightarrow> unit statement" where
  "sql_update_last_seen id' t d =
     uuid_arg d id' (\<lambda>u. Inr ((), d\<lparr>pg_devices :=
       map (\<lambda>r. if dr_id r = u then r\<lparr>dr_last_seen := Some (pg_ts t)\<rparr> else r) (pg_devices d)\<rparr>))"

definition UpdateLastSeen :: "string \<Rightarrow> time \<Rightarrow> pg \<Rightarrow> pg_error option \<times> pg" where
  "UpdateLastSeen id' t d = pg_exec (sql_update_last_seen id' t) d"

section \<open>Lemmas\<close>

lemmas sql_devices_defs = sql_insert_device_def sql_select_device_def sql_list_devices_def
  sql_update_last_seen_def

text \<open>Ids are the primary key and metadata is a JSON object.\<close>

definition devices_inv :: "pg \<Rightarrow> bool" where
  "devices_inv d \<longleftrightarrow> distinct (map dr_id (pg_devices d)) \<and>
     list_all (\<lambda>r. case dr_metadata r of JObject _ \<Rightarrow> True | _ \<Rightarrow> False) (pg_devices d)"

lemma devices_inv_faults: "devices_inv d \<Longrightarrow> devices_inv (d\<lparr>pg_faults := fs\<rparr>)"
  by (simp add: devices_inv_def)

lemma sql_insert_device_inv:
  "devices_inv d \<Longrightarrow> sql_insert_device n i a b d = Inr (x, d') \<Longrightarrow> devices_inv d'"
  by (auto simp: sql_insert_device_def uuid_arg_Inr devices_inv_def device_exists_def split: if_splits)

lemma sql_update_last_seen_inv:
  assumes "devices_inv d" and "sql_update_last_seen i t d = Inr (x, d')"
  shows "devices_inv d'"
proof -
  obtain u where d': "d' = d\<lparr>pg_devices :=
      map (\<lambda>r. if dr_id r = u then r\<lparr>dr_last_seen := Some (pg_ts t)\<rparr> else r) (pg_devices d)\<rparr>"
    using assms(2) by (auto simp: sql_update_last_seen_def uuid_arg_Inr)
  then have "map dr_id (pg_devices d') = map dr_id (pg_devices d)"
    using map_map_same [of dr_id "\<lambda>r. if dr_id r = u then r\<lparr>dr_last_seen := Some (pg_ts t)\<rparr> else r"] by simp
  with assms(1) d' show ?thesis
    by (auto simp del: map_map simp: devices_inv_def list_all_iff)
qed

lemma Devices_Create_inv: "devices_inv d \<Longrightarrow> devices_inv (snd (Devices_Create n i a b d))"
  unfolding Devices_Create_def
  by (rule pg_exec_preserves) (auto intro: devices_inv_faults sql_insert_device_inv)

lemma UpdateLastSeen_inv: "devices_inv d \<Longrightarrow> devices_inv (snd (UpdateLastSeen i t d))"
  unfolding UpdateLastSeen_def
  by (rule pg_exec_preserves) (auto intro: devices_inv_faults sql_update_last_seen_inv)

lemma dec_entries_any_ok: "\<exists>m'. dec_entries dec_any z ms m = Inr m'"
  by (induction ms arbitrary: m) (auto simp: dec_any_def)

lemma scanDevice_ok:
  assumes "dr_metadata r = JObject ms"
  shows "\<exists>v. scanDevice r = Inr v \<and> de_ID v = dr_id r"
  using assms dec_entries_any_ok [of JNull ms "[]"] by (auto simp: scanDevice_def)

lemma scanAll_ok:
  assumes "\<And>r. r \<in> set rs \<Longrightarrow> \<exists>v. scan r = Inr v \<and> f v = g r"
  shows "\<exists>vs. scanAll scan rs = Inr vs \<and> map f vs = map g rs"
  using assms
proof (induction rs)
  case Nil
  then show ?case by simp
next
  case (Cons r rs)
  obtain v where "scan r = Inr v" "f v = g r" using Cons.prems [of r] by auto
  moreover obtain vs where "scanAll scan rs = Inr vs" "map f vs = map g rs"
    using Cons.IH Cons.prems by auto
  ultimately show ?case by simp
qed

lemma devices_scan_all:
  assumes "devices_inv d" and "set rows \<subseteq> set (pg_devices d)"
  shows "\<exists>vs. scanAll scanDevice rows = Inr vs \<and> map de_ID vs = map dr_id rows"
proof (rule scanAll_ok)
  fix r assume "r \<in> set rows"
  with assms have "case dr_metadata r of JObject _ \<Rightarrow> True | _ \<Rightarrow> False"
    by (auto simp: devices_inv_def list_all_iff)
  then show "\<exists>v. scanDevice r = Inr v \<and> de_ID v = dr_id r"
    using scanDevice_ok by (auto split: json.splits)
qed

lemma Devices_List_unchanged:
  "Devices_List d = (r, d') \<Longrightarrow> \<exists>fs. d' = d\<lparr>pg_faults := fs\<rparr>"
  by (auto simp: Devices_List_def sql_list_devices_def elim!: pg_run_cases split: prod.splits sum.splits)

section \<open>Properties\<close>

text \<open>A created device is found under its id, with the name and type it was claimed with, and a
  second \<^verbatim>\<open>Create\<close> with the same id is refused and leaves the table as it was: a device id is
  claimed at most once.\<close>

theorem device_create_once:
  assumes "devices_inv d" and "Devices_Create now' i name typ d = (None, d')"
  shows "(\<forall>d'' :: pg. pg_devices d'' = pg_devices d' \<longrightarrow> pg_uuid d'' = pg_uuid d \<longrightarrow> pg_faults d'' = [] \<longrightarrow>
      (\<exists>v. Devices_Get i d'' = (Inr (Some v), d'') \<and> de_Name v = name \<and> de_Type v = typ) \<and>
      Devices_Create later i name' typ' d'' = (Some unique_violation, d''))"
proof (intro allI impI)
  fix d'' :: pg assume d'': "pg_devices d'' = pg_devices d'" "pg_uuid d'' = pg_uuid d" "pg_faults d'' = []"
  obtain fs u where u: "pg_uuid d i = Some u" and new: "\<not> device_exists d u"
    and rows: "pg_devices d' = pg_devices d @ [\<lparr>dr_id = u, dr_name = name, dr_type = typ,
      dr_registered_at = pg_ts now', dr_last_seen = None, dr_status = ''claimed'', dr_metadata = JObject []\<rparr>]"
    using assms(2) unfolding Devices_Create_def
    by (rule pg_exec_ok) (auto simp: sql_insert_device_def uuid_arg_Inr split: if_splits)
  from new have "filter (\<lambda>r. dr_id r = u) (pg_devices d) = []"
    by (auto simp: filter_empty_conv device_exists_def)
  with u rows d'' show "(\<exists>v. Devices_Get i d'' = (Inr (Some v), d'') \<and> de_Name v = name \<and> de_Type v = typ) \<and>
      Devices_Create later i name' typ' d'' = (Some unique_violation, d'')"
    by (simp add: Devices_Get_def Devices_Create_def pg_exec_def sql_devices_defs uuid_arg_def scanDevice_def device_exists_def)
qed

definition emptyPg :: pg where
  "emptyPg = \<lparr>pg_faults = [], pg_uuid = Some, pg_devices = [], pg_readings = [], pg_alerts = [],
     pg_shadow_history = [], pg_rollouts = [], pg_rollout_targets = [], pg_users = []\<rparr>"

theorem device_create_once_witness:
  "Devices_Create 9 ''d1'' ''x'' ''y'' (snd (Devices_Create 5 ''d1'' ''lamp'' ''esp32'' emptyPg))
     = (Some unique_violation, snd (Devices_Create 5 ''d1'' ''lamp'' ''esp32'' emptyPg))"
proof -
  let ?d = "snd (Devices_Create 5 ''d1'' ''lamp'' ''esp32'' emptyPg)"
  have 1: "Devices_Create 5 ''d1'' ''lamp'' ''esp32'' emptyPg = (None, ?d)"
    by (simp add: Devices_Create_def pg_exec_def emptyPg_def sql_insert_device_def uuid_arg_def device_exists_def)
  have "devices_inv emptyPg" by (simp add: devices_inv_def emptyPg_def)
  moreover have "pg_uuid ?d = pg_uuid emptyPg" "pg_faults ?d = []"
    by (simp_all add: Devices_Create_def pg_exec_def emptyPg_def sql_insert_device_def uuid_arg_def device_exists_def)
  ultimately show ?thesis using device_create_once [OF _ 1, of 9 "''x''" "''y''"] by blast
qed

end
