(* ===== verification/Telemetry.thy ===== *)
theory Telemetry
  imports Json
begin

text \<open>
  \<^verbatim>\<open>internal/telemetry/schema.go\<close>: the reading every publisher sends, its validation, its
  JSON form, and the topic and subject names that connect the services.
  \<^verbatim>\<open>uuid.Parse\<close> is the parameter \<open>uuid_ok\<close> (it only decides success here) and the random
  bytes of \<^verbatim>\<open>uuid.New\<close> are the argument of \<open>NewTraceID\<close>.
\<close>

section \<open>Readings\<close>

definition SchemaVersion :: string where
  "SchemaVersion = ''1.0''"

record Reading =
  rSchemaVersion :: string
  rDeviceID :: string
  rSensorType :: string
  rValue :: "real option"
  rValues :: "(string \<times> real) list option"
  rDeviceTimeMS :: int
  rSeq :: u64
  rTraceID :: string

datatype validate_error =
    UnsupportedSchemaVersion string
  | InvalidDeviceID
  | SensorTypeRequired
  | NoValueSet
  | BothValuesSet
  | DeviceTimeNotPositive
  | TraceIDLength

definition Validate :: "(string \<Rightarrow> bool) \<Rightarrow> Reading \<Rightarrow> validate_error option" where
  "Validate uuid_ok r =
     (if rSchemaVersion r \<noteq> SchemaVersion then Some (UnsupportedSchemaVersion (rSchemaVersion r))
      else if \<not> uuid_ok (rDeviceID r) then Some InvalidDeviceID
      else if rSensorType r = [] then Some SensorTypeRequired
      else if rValue r = None \<and> rValues r = None then Some NoValueSet
      else if rValue r \<noteq> None \<and> rValues r \<noteq> None then Some BothValuesSet
      else if rDeviceTimeMS r \<le> 0 then Some DeviceTimeNotPositive
      else if length (rTraceID r) \<noteq> 32 then Some TraceIDLength
      else None)"

record StampedReading =
  srReading :: Reading
  srIngestTimeMS :: int

section \<open>Topics and subjects\<close>

definition TelemetryTopic :: "string \<Rightarrow> string" where
  "TelemetryTopic deviceID = ''sensegrid/v1/'' @ deviceID @ ''/telemetry''"

definition ConfigTopic :: "string \<Rightarrow> string" where
  "ConfigTopic deviceID = ''sensegrid/v1/'' @ deviceID @ ''/config''"

definition StateTopic :: "string \<Rightarrow> string" where
  "StateTopic deviceID = ''sensegrid/v1/'' @ deviceID @ ''/state''"

definition DeviceIDFromStateTopic :: "string \<Rightarrow> string \<times> bool" where
  "DeviceIDFromStateTopic topic =
     (let parts = splitOn (CHR ''/'') topic in
      if length parts \<noteq> 4 \<or> parts ! 0 \<noteq> ''sensegrid'' \<or> parts ! 1 \<noteq> ''v1'' \<or> parts ! 3 \<noteq> ''state''
      then ([], False) else (parts ! 2, True))"

definition JetStreamSubject :: "string \<Rightarrow> string" where
  "JetStreamSubject deviceID = ''telemetry.'' @ deviceID"

definition MetricsSubject :: "string \<Rightarrow> string" where
  "MetricsSubject deviceID = ''metrics.'' @ deviceID"

definition AlertsSubject :: "string \<Rightarrow> string" where
  "AlertsSubject deviceID = ''alerts.'' @ deviceID"

definition RolloutEventsSubject :: "string \<Rightarrow> string" where
  "RolloutEventsSubject rolloutID = ''rollout.'' @ rolloutID @ ''.events''"

definition DLQSubject :: string where
  "DLQSubject = ''dlq.telemetry''"

definition NewTraceID :: "8 word list \<Rightarrow> string" where
  "NewTraceID uuidBytes = EncodeToString uuidBytes"

section \<open>JSON form\<close>

text \<open>The struct tags of \<^verbatim>\<open>Reading\<close> and \<^verbatim>\<open>StampedReading\<close>, for writing and reading.\<close>

definition reading_members :: "Reading \<Rightarrow> (string \<times> json) list" where
  "reading_members r =
     [(''schema_version'', JString (rSchemaVersion r)),
      (''device_id'', JString (rDeviceID r)),
      (''sensor_type'', JString (rSensorType r))] @
     omit_ptr ''value'' enc_float (rValue r) @
     omit_list ''values'' (\<lambda>m. JObject (map (\<lambda>(k, v). (k, enc_float v)) m)) (rValues r) @
     [(''device_time_ms'', JInt (rDeviceTimeMS r)),
      (''seq'', enc_uint64 (rSeq r)),
      (''trace_id'', JString (rTraceID r))]"

definition marshal_Reading :: "Reading \<Rightarrow> json" where
  "marshal_Reading r = JObject (reading_members r)"

definition marshal_StampedReading :: "StampedReading \<Rightarrow> json" where
  "marshal_StampedReading sr =
     JObject (reading_members (srReading sr) @ [(''ingest_time_ms'', JInt (srIngestTimeMS sr))])"

definition zeroReading :: Reading where
  "zeroReading = \<lparr>rSchemaVersion = [], rDeviceID = [], rSensorType = [], rValue = None, rValues = None,
     rDeviceTimeMS = 0, rSeq = 0, rTraceID = []\<rparr>"

definition set_Reading :: "string \<Rightarrow> Reading decoder" where
  "set_Reading k =
     (if k = ''schema_version'' then field dec_string rSchemaVersion (\<lambda>v r. r\<lparr>rSchemaVersion := v\<rparr>)
      else if k = ''device_id'' then field dec_string rDeviceID (\<lambda>v r. r\<lparr>rDeviceID := v\<rparr>)
      else if k = ''sensor_type'' then field dec_string rSensorType (\<lambda>v r. r\<lparr>rSensorType := v\<rparr>)
      else if k = ''value'' then field (dec_ptr dec_float 0) rValue (\<lambda>v r. r\<lparr>rValue := v\<rparr>)
      else if k = ''values'' then field (dec_map dec_float 0) rValues (\<lambda>v r. r\<lparr>rValues := v\<rparr>)
      else if k = ''device_time_ms'' then field dec_int rDeviceTimeMS (\<lambda>v r. r\<lparr>rDeviceTimeMS := v\<rparr>)
      else if k = ''seq'' then field dec_uint64 rSeq (\<lambda>v r. r\<lparr>rSeq := v\<rparr>)
      else if k = ''trace_id'' then field dec_string rTraceID (\<lambda>v r. r\<lparr>rTraceID := v\<rparr>)
      else (\<lambda>_ r. Inr r))"

definition unmarshal_Reading :: "body \<Rightarrow> json_error + Reading" where
  "unmarshal_Reading = Unmarshal (dec_struct set_Reading) zeroReading"

definition zeroStamped :: StampedReading where
  "zeroStamped = \<lparr>srReading = zeroReading, srIngestTimeMS = 0\<rparr>"

definition set_StampedReading :: "string \<Rightarrow> StampedReading decoder" where
  "set_StampedReading k =
     (if k = ''ingest_time_ms''
      then field dec_int srIngestTimeMS (\<lambda>v sr. sr\<lparr>srIngestTimeMS := v\<rparr>)
      else field (set_Reading k) srReading (\<lambda>v sr. sr\<lparr>srReading := v\<rparr>))"

definition unmarshal_StampedReading :: "body \<Rightarrow> json_error + StampedReading" where
  "unmarshal_StampedReading = Unmarshal (dec_struct set_StampedReading) zeroStamped"

section \<open>Lemmas\<close>

lemmas topic_defs = TelemetryTopic_def ConfigTopic_def StateTopic_def

lemma Validate_None_iff:
  "Validate uuid_ok r = None \<longleftrightarrow>
     rSchemaVersion r = SchemaVersion \<and> uuid_ok (rDeviceID r) \<and> rSensorType r \<noteq> [] \<and>
     (rValue r = None) \<noteq> (rValues r = None) \<and> rDeviceTimeMS r > 0 \<and> length (rTraceID r) = 32"
  by (auto simp: Validate_def)

text \<open>A topic of four parts with a fixed first, second and last part: used for both filters.\<close>

lemma splitOn_topic:
  assumes "CHR ''/'' \<notin> set d" and "CHR ''/'' \<notin> set kind"
  shows "splitOn (CHR ''/'') (''sensegrid/v1/'' @ d @ CHR ''/'' # kind) =
           [''sensegrid'', ''v1'', d, kind]"
proof -
  have "''sensegrid/v1/'' @ d @ CHR ''/'' # kind =
        ''sensegrid'' @ CHR ''/'' # ''v1'' @ CHR ''/'' # d @ CHR ''/'' # kind" by simp
  then show ?thesis
    using assms by (simp only: splitOn_append splitOn_no_sep) (simp add: splitOn_append splitOn_no_sep)
qed

lemma split_topic_inverse:
  assumes "length (splitOn (CHR ''/'') topic) = 4"
    and "splitOn (CHR ''/'') topic ! 0 = ''sensegrid''"
    and "splitOn (CHR ''/'') topic ! 1 = ''v1''"
    and "splitOn (CHR ''/'') topic ! 3 = kind"
  shows "topic = ''sensegrid/v1/'' @ splitOn (CHR ''/'') topic ! 2 @ CHR ''/'' # kind"
    and "CHR ''/'' \<notin> set (splitOn (CHR ''/'') topic ! 2)"
proof -
  obtain a b c d where parts: "splitOn (CHR ''/'') topic = [a, b, c, d]"
    using assms(1) by (auto simp: numeral_eq_Suc length_Suc_conv)
  have "topic = joinWith (CHR ''/'') [a, b, c, d]"
    using joinWith_splitOn [of "CHR ''/''" topic] parts by simp
  then show "topic = ''sensegrid/v1/'' @ splitOn (CHR ''/'') topic ! 2 @ CHR ''/'' # kind"
    using assms parts by simp
  show "CHR ''/'' \<notin> set (splitOn (CHR ''/'') topic ! 2)"
    using splitOn_parts [of c "CHR ''/''" topic] parts by simp
qed

lemma reading_tags [simp]:
  "foldName ''schema_version'' = ''schema_version''"
  "foldName ''device_id'' = ''device_id''"
  "foldName ''sensor_type'' = ''sensor_type''"
  "foldName ''value'' = ''value''"
  "foldName ''values'' = ''values''"
  "foldName ''device_time_ms'' = ''device_time_ms''"
  "foldName ''seq'' = ''seq''"
  "foldName ''trace_id'' = ''trace_id''"
  "foldName ''ingest_time_ms'' = ''ingest_time_ms''"
  by code_simp+

lemma set_Reading_fields [simp]:
  "set_Reading ''schema_version'' = field dec_string rSchemaVersion (\<lambda>v r. r\<lparr>rSchemaVersion := v\<rparr>)"
  "set_Reading ''device_id'' = field dec_string rDeviceID (\<lambda>v r. r\<lparr>rDeviceID := v\<rparr>)"
  "set_Reading ''sensor_type'' = field dec_string rSensorType (\<lambda>v r. r\<lparr>rSensorType := v\<rparr>)"
  "set_Reading ''value'' = field (dec_ptr dec_float 0) rValue (\<lambda>v r. r\<lparr>rValue := v\<rparr>)"
  "set_Reading ''values'' = field (dec_map dec_float 0) rValues (\<lambda>v r. r\<lparr>rValues := v\<rparr>)"
  "set_Reading ''device_time_ms'' = field dec_int rDeviceTimeMS (\<lambda>v r. r\<lparr>rDeviceTimeMS := v\<rparr>)"
  "set_Reading ''seq'' = field dec_uint64 rSeq (\<lambda>v r. r\<lparr>rSeq := v\<rparr>)"
  "set_Reading ''trace_id'' = field dec_string rTraceID (\<lambda>v r. r\<lparr>rTraceID := v\<rparr>)"
  by (simp_all add: set_Reading_def)

lemma dec_ptr_float [simp]: "dec_ptr dec_float 0 (enc_float v) cur = Inr (Some v)"
  by (rule dec_ptr_enc) simp_all

lemma dec_entries_floats_Nil [simp]:
  "distinct (map fst m) \<Longrightarrow>
   dec_entries dec_float 0 (map (\<lambda>(k, v). (k, enc_float v)) m) [] = Inr m"
  using dec_entries_floats [of "[]" m] by simp

lemma dec_value_member:
  "rValue r = None \<Longrightarrow>
   dec_members set_Reading (omit_ptr ''value'' enc_float v) r = Inr (r\<lparr>rValue := v\<rparr>)"
  by (cases v) (simp_all add: omit_ptr_def field_def)

lemma dec_values_member:
  assumes "rValues r = None" and "\<And>m. vs = Some m \<Longrightarrow> distinct (map fst m)"
  shows "dec_members set_Reading
           (omit_list ''values'' (\<lambda>m. JObject (map (\<lambda>(k, v). (k, enc_float v)) m)) vs) r =
         Inr (r\<lparr>rValues := drop_empty vs\<rparr>)"
proof (cases "drop_empty vs")
  case None
  then show ?thesis using assms
    by (auto simp: omit_list_def drop_empty_def split: option.splits if_splits)
next
  case (Some m)
  then have vs: "vs = Some m" "m \<noteq> []" by (auto simp: drop_empty_def split: if_splits)
  then have "omit_list ''values'' (\<lambda>m. JObject (map (\<lambda>(k, v). (k, enc_float v)) m)) vs =
      [(''values'', JObject (map (\<lambda>(k, v). (k, enc_float v)) m))]"
    by (simp add: omit_list_def split: list.splits)
  with vs assms Some show ?thesis by (simp add: field_def)
qed

lemma dec_reading_members:
  assumes "- (2 ^ 63) \<le> rDeviceTimeMS r" and "rDeviceTimeMS r < 2 ^ 63"
    and "\<And>m. rValues r = Some m \<Longrightarrow> distinct (map fst m)"
  shows "dec_members set_Reading (reading_members r) zeroReading =
           Inr (r\<lparr>rValues := drop_empty (rValues r)\<rparr>)"
  unfolding reading_members_def dec_members_append
  using assms(1,2)
  by (simp add: field_def zeroReading_def dec_value_member dec_values_member assms(3))

lemma dec_stamped_members:
  assumes "list_all (\<lambda>(k, _). foldName k \<noteq> ''ingest_time_ms'') ms"
  shows "dec_members set_StampedReading ms sr =
           (case dec_members set_Reading ms (srReading sr) of
              Inl e \<Rightarrow> Inl e | Inr r \<Rightarrow> Inr (sr\<lparr>srReading := r\<rparr>))"
  using assms
proof (induction ms arbitrary: sr)
  case Nil
  then show ?case by simp
next
  case (Cons m ms)
  then show ?case
    by (cases m) (auto simp: set_StampedReading_def field_def split: sum.splits)
qed

lemma reading_members_keys:
  "list_all (\<lambda>(k, _). foldName k \<noteq> ''ingest_time_ms'') (reading_members r)"
  by (auto simp: reading_members_def omit_ptr_def omit_list_def split: option.splits list.splits)

lemma unmarshal_marshal_Stamped:
  assumes "- (2 ^ 63) \<le> rDeviceTimeMS (srReading sr)" and "rDeviceTimeMS (srReading sr) < 2 ^ 63"
    and "- (2 ^ 63) \<le> srIngestTimeMS sr" and "srIngestTimeMS sr < 2 ^ 63"
    and "\<And>m. rValues (srReading sr) = Some m \<Longrightarrow> distinct (map fst m)"
  shows "unmarshal_StampedReading (Some (marshal_StampedReading sr)) =
           Inr (sr\<lparr>srReading := (srReading sr)\<lparr>rValues := drop_empty (rValues (srReading sr))\<rparr>\<rparr>)"
proof -
  have "dec_members set_StampedReading (reading_members (srReading sr)) zeroStamped =
     Inr (zeroStamped\<lparr>srReading := (srReading sr)\<lparr>rValues := drop_empty (rValues (srReading sr))\<rparr>\<rparr>)"
    using dec_reading_members [of "srReading sr"] assms
    by (simp add: dec_stamped_members reading_members_keys zeroStamped_def)
  with assms(3,4) show ?thesis
    by (simp add: unmarshal_StampedReading_def Unmarshal_def marshal_StampedReading_def
        dec_members_append set_StampedReading_def field_def zeroStamped_def)
qed

section \<open>Properties\<close>

text \<open>The wildcard subscription on state topics recovers a device id from a topic exactly when the
  topic is the one that device reports on: \<^verbatim>\<open>DeviceIDFromStateTopic\<close> succeeds with \<open>d\<close> if and only
  if the topic is \<open>StateTopic d\<close> and \<open>d\<close> holds no slash.\<close>

theorem state_topic_roundtrip:
  "DeviceIDFromStateTopic t = (d, True) \<longleftrightarrow> t = StateTopic d \<and> CHR ''/'' \<notin> set d"
proof
  assume "DeviceIDFromStateTopic t = (d, True)"
  then have "length (splitOn (CHR ''/'') t) = 4" "splitOn (CHR ''/'') t ! 0 = ''sensegrid''"
    "splitOn (CHR ''/'') t ! 1 = ''v1''" "splitOn (CHR ''/'') t ! 3 = ''state''"
    and "d = splitOn (CHR ''/'') t ! 2"
    by (auto simp: DeviceIDFromStateTopic_def Let_def split: if_splits)
  with split_topic_inverse [of t "''state''"]
  show "t = StateTopic d \<and> CHR ''/'' \<notin> set d" by (simp add: StateTopic_def)
next
  assume "t = StateTopic d \<and> CHR ''/'' \<notin> set d"
  then have "splitOn (CHR ''/'') t = [''sensegrid'', ''v1'', d, ''state'']"
    using splitOn_topic [of d "''state''"] by (simp add: StateTopic_def)
  then show "DeviceIDFromStateTopic t = (d, True)"
    by (simp add: DeviceIDFromStateTopic_def numeral_eq_Suc)
qed

text \<open>A stamped reading that ingest publishes to JetStream is decoded by the processor to the same
  reading, except that an empty \<^verbatim>\<open>values\<close> map is lost on the way (\<^verbatim>\<open>omitempty\<close>).\<close>

theorem stamped_reading_roundtrip:
  assumes "- (2 ^ 63) \<le> rDeviceTimeMS (srReading sr)" and "rDeviceTimeMS (srReading sr) < 2 ^ 63"
    and "- (2 ^ 63) \<le> srIngestTimeMS sr" and "srIngestTimeMS sr < 2 ^ 63"
    and "\<And>m. rValues (srReading sr) = Some m \<Longrightarrow> distinct (map fst m)"
  shows "unmarshal_StampedReading (Some (marshal_StampedReading sr)) =
           Inr (sr\<lparr>srReading := (srReading sr)\<lparr>rValues := drop_empty (rValues (srReading sr))\<rparr>\<rparr>)"
  using assms by (rule unmarshal_marshal_Stamped)

definition sampleStamped :: StampedReading where
  "sampleStamped = \<lparr>srReading = \<lparr>rSchemaVersion = ''1.0'', rDeviceID = ''d1'', rSensorType = ''accel'',
     rValue = None, rValues = Some [(''x'', 1), (''y'', 2.5)], rDeviceTimeMS = 1700000000000, rSeq = 7,
     rTraceID = ''0123456789abcdef0123456789abcdef''\<rparr>, srIngestTimeMS = 1700000000123\<rparr>"

theorem stamped_reading_roundtrip_witness:
  "unmarshal_StampedReading (Some (marshal_StampedReading sampleStamped)) = Inr sampleStamped"
  using stamped_reading_roundtrip [of sampleStamped] by (simp add: sampleStamped_def drop_empty_def)

end
