(* ===== verification/Shadow.thy ===== *)
theory Shadow
  imports World Devices Telemetry
begin

text \<open>
  \<^verbatim>\<open>internal/shadow\<close>: the desired and reported configuration of a device
  (\<^verbatim>\<open>types.go\<close>) and their JSON form, drift detection (\<^verbatim>\<open>drift.go\<close>), the store in
  the KV bucket with its audit trail in Postgres (\<^verbatim>\<open>store.go\<close>), the retained publish to the
  device (\<^verbatim>\<open>publisher.go\<close>) and the reconciler of reports (\<^verbatim>\<open>reconciler.go\<close>).
\<close>

section \<open>Types\<close>

definition shadow_SchemaVersion :: string where "shadow_SchemaVersion = ''1.0''"
definition ReportingContinuous :: string where "ReportingContinuous = ''continuous''"
definition ReportingBatched :: string where "ReportingBatched = ''batched''"

record Desired =
  d_SchemaVersion :: string
  d_Revision :: u64
  d_SampleRateHz :: "real option"
  d_EnabledSensors :: "string list option"
  d_BatchSize :: "int option"
  d_FlushIntervalMS :: "int option"
  d_ReportingMode :: "string option"

record Reported =
  r_SchemaVersion :: string
  r_AppliedRevision :: u64
  r_Rejected :: bool
  r_RejectedRevision :: u64
  r_RejectReason :: string
  r_SampleRateHz :: "real option"
  r_EnabledSensors :: "string list option"
  r_BatchSize :: "int option"
  r_FlushIntervalMS :: "int option"
  r_ReportingMode :: "string option"
  r_ReportedAtMS :: int

definition zeroDesired :: Desired where
  "zeroDesired = \<lparr>d_SchemaVersion = [], d_Revision = 0, d_SampleRateHz = None, d_EnabledSensors = None,
     d_BatchSize = None, d_FlushIntervalMS = None, d_ReportingMode = None\<rparr>"

definition zeroReported :: Reported where
  "zeroReported = \<lparr>r_SchemaVersion = [], r_AppliedRevision = 0, r_Rejected = False, r_RejectedRevision = 0,
     r_RejectReason = [], r_SampleRateHz = None, r_EnabledSensors = None, r_BatchSize = None,
     r_FlushIntervalMS = None, r_ReportingMode = None, r_ReportedAtMS = 0\<rparr>"

definition enc_strings :: "string list \<Rightarrow> json" where
  "enc_strings xs = JArray (map JString xs)"

definition marshal_Desired :: "Desired \<Rightarrow> json" where
  "marshal_Desired d = JObject (
     [(''schema_version'', JString (d_SchemaVersion d))]
     @ omit_if (d_Revision d = 0) ''revision'' (enc_uint64 (d_Revision d))
     @ omit_ptr ''sample_rate_hz'' enc_float (d_SampleRateHz d)
     @ omit_list ''enabled_sensors'' enc_strings (d_EnabledSensors d)
     @ omit_ptr ''batch_size'' JInt (d_BatchSize d)
     @ omit_ptr ''flush_interval_ms'' JInt (d_FlushIntervalMS d)
     @ omit_ptr ''reporting_mode'' JString (d_ReportingMode d))"

definition set_Desired :: "string \<Rightarrow> Desired decoder" where
  "set_Desired k =
     (if k = ''schema_version'' then field dec_string d_SchemaVersion (\<lambda>v d. d\<lparr>d_SchemaVersion := v\<rparr>)
      else if k = ''revision'' then field dec_uint64 d_Revision (\<lambda>v d. d\<lparr>d_Revision := v\<rparr>)
      else if k = ''sample_rate_hz'' then field (dec_ptr dec_float 0) d_SampleRateHz (\<lambda>v d. d\<lparr>d_SampleRateHz := v\<rparr>)
      else if k = ''enabled_sensors'' then field (dec_slice dec_string []) d_EnabledSensors (\<lambda>v d. d\<lparr>d_EnabledSensors := v\<rparr>)
      else if k = ''batch_size'' then field (dec_ptr dec_int 0) d_BatchSize (\<lambda>v d. d\<lparr>d_BatchSize := v\<rparr>)
      else if k = ''flush_interval_ms'' then field (dec_ptr dec_int 0) d_FlushIntervalMS (\<lambda>v d. d\<lparr>d_FlushIntervalMS := v\<rparr>)
      else if k = ''reporting_mode'' then field (dec_ptr dec_string []) d_ReportingMode (\<lambda>v d. d\<lparr>d_ReportingMode := v\<rparr>)
      else (\<lambda>_ d. Inr d))"

definition unmarshal_Desired :: "body \<Rightarrow> json_error + Desired" where
  "unmarshal_Desired = Unmarshal (dec_struct set_Desired) zeroDesired"

definition marshal_Reported :: "Reported \<Rightarrow> json" where
  "marshal_Reported r = JObject (
     [(''schema_version'', JString (r_SchemaVersion r)),
      (''applied_revision'', enc_uint64 (r_AppliedRevision r))]
     @ omit_if (\<not> r_Rejected r) ''rejected'' (JBool (r_Rejected r))
     @ omit_if (r_RejectedRevision r = 0) ''rejected_revision'' (enc_uint64 (r_RejectedRevision r))
     @ omit_if (r_RejectReason r = []) ''reject_reason'' (JString (r_RejectReason r))
     @ omit_ptr ''sample_rate_hz'' enc_float (r_SampleRateHz r)
     @ omit_list ''enabled_sensors'' enc_strings (r_EnabledSensors r)
     @ omit_ptr ''batch_size'' JInt (r_BatchSize r)
     @ omit_ptr ''flush_interval_ms'' JInt (r_FlushIntervalMS r)
     @ omit_ptr ''reporting_mode'' JString (r_ReportingMode r)
     @ [(''reported_at_ms'', JInt (r_ReportedAtMS r))])"

definition set_Reported :: "string \<Rightarrow> Reported decoder" where
  "set_Reported k =
     (if k = ''schema_version'' then field dec_string r_SchemaVersion (\<lambda>v r. r\<lparr>r_SchemaVersion := v\<rparr>)
      else if k = ''applied_revision'' then field dec_uint64 r_AppliedRevision (\<lambda>v r. r\<lparr>r_AppliedRevision := v\<rparr>)
      else if k = ''rejected'' then field dec_bool r_Rejected (\<lambda>v r. r\<lparr>r_Rejected := v\<rparr>)
      else if k = ''rejected_revision'' then field dec_uint64 r_RejectedRevision (\<lambda>v r. r\<lparr>r_RejectedRevision := v\<rparr>)
      else if k = ''reject_reason'' then field dec_string r_RejectReason (\<lambda>v r. r\<lparr>r_RejectReason := v\<rparr>)
      else if k = ''sample_rate_hz'' then field (dec_ptr dec_float 0) r_SampleRateHz (\<lambda>v r. r\<lparr>r_SampleRateHz := v\<rparr>)
      else if k = ''enabled_sensors'' then field (dec_slice dec_string []) r_EnabledSensors (\<lambda>v r. r\<lparr>r_EnabledSensors := v\<rparr>)
      else if k = ''batch_size'' then field (dec_ptr dec_int 0) r_BatchSize (\<lambda>v r. r\<lparr>r_BatchSize := v\<rparr>)
      else if k = ''flush_interval_ms'' then field (dec_ptr dec_int 0) r_FlushIntervalMS (\<lambda>v r. r\<lparr>r_FlushIntervalMS := v\<rparr>)
      else if k = ''reporting_mode'' then field (dec_ptr dec_string []) r_ReportingMode (\<lambda>v r. r\<lparr>r_ReportingMode := v\<rparr>)
      else if k = ''reported_at_ms'' then field dec_int r_ReportedAtMS (\<lambda>v r. r\<lparr>r_ReportedAtMS := v\<rparr>)
      else (\<lambda>_ r. Inr r))"

definition unmarshal_Reported :: "body \<Rightarrow> json_error + Reported" where
  "unmarshal_Reported = Unmarshal (dec_struct set_Reported) zeroReported"

section \<open>Drift\<close>

definition Drift :: "u64 \<Rightarrow> Reported option \<Rightarrow> time \<Rightarrow> duration \<Rightarrow> bool" where
  "Drift desiredRev reported now staleAfter =
     (case reported of
        None \<Rightarrow> True
      | Some r \<Rightarrow>
          if r_AppliedRevision r \<noteq> desiredRev then True
          else time_sub now (time_UnixMilli (r_ReportedAtMS r)) > staleAfter)"

section \<open>Store\<close>

definition desiredKey :: "string \<Rightarrow> string" where "desiredKey deviceID = deviceID @ ''.desired''"
definition reportedKey :: "string \<Rightarrow> string" where "reportedKey deviceID = deviceID @ ''.reported''"

definition sql_insert_history :: "string \<Rightarrow> string \<Rightarrow> string \<Rightarrow> u64 \<Rightarrow> json \<Rightarrow> unit statement" where
  "sql_insert_history id' deviceID direction revision payload d =
     uuid_arg d id' (\<lambda>u. uuid_arg d deviceID (\<lambda>dev.
       if uint revision \<ge> 2 ^ 63 then Inl (PgArg ''revision'')
       else if direction \<notin> {''desired'', ''reported''} then Inl check_violation
       else if u \<in> hi_id ` set (pg_shadow_history d) then Inl unique_violation
       else if \<not> device_exists d dev then Inl foreign_key_violation
       else Inr ((), d\<lparr>pg_shadow_history := pg_shadow_history d @
         [\<lparr>hi_id = u, hi_device_id = dev, hi_direction = direction, hi_revision = uint revision,
           hi_payload = payload\<rparr>]\<rparr>)))"

definition audit :: "string \<Rightarrow> string \<Rightarrow> u64 \<Rightarrow> json \<Rightarrow> 'kv world \<Rightarrow> svc_error option \<times> 'kv world" where
  "audit deviceID direction revision payload w =
     (let (u, w1) = uuid_NewString w in
      case on_pg (pg_exec (sql_insert_history u deviceID direction revision payload)) w1 of
        (None, w2) \<Rightarrow> (None, w2) | (Some e, w2) \<Rightarrow> (Some (SvcPg e), w2))"

definition kv_fail :: "kv_error \<Rightarrow> svc_error" where
  "kv_fail e = SvcKv (case e of ErrKeyNotFound \<Rightarrow> ''key not found'' | KvIO s \<Rightarrow> s)"

definition SetDesired :: "'kv kvops \<Rightarrow> string \<Rightarrow> Desired \<Rightarrow> 'kv world \<Rightarrow> (svc_error + Desired) \<times> 'kv world" where
  "SetDesired kv deviceID d w =
     (let d1 = d\<lparr>d_SchemaVersion := shadow_SchemaVersion, d_Revision := 0\<rparr>;
          body = marshal_Desired d1 in
      case kv_Put kv (desiredKey deviceID) (Some body) (w_kv w) of
        (Inl e, s) \<Rightarrow> (Inl (kv_fail e), w\<lparr>w_kv := s\<rparr>)
      | (Inr rv, s) \<Rightarrow>
          (case audit deviceID ''desired'' rv body (w\<lparr>w_kv := s\<rparr>) of
             (Some e, w2) \<Rightarrow> (Inl e, w2)
           | (None, w2) \<Rightarrow> (Inr (d1\<lparr>d_Revision := rv\<rparr>), w2)))"

definition GetDesired :: "'kv kvops \<Rightarrow> string \<Rightarrow> 'kv world \<Rightarrow> (svc_error + Desired \<times> u64) \<times> 'kv world" where
  "GetDesired kv deviceID w =
     (case kv_Get kv (desiredKey deviceID) (w_kv w) of
        (Inl e, s) \<Rightarrow>
          (if e = ErrKeyNotFound then Inr (zeroDesired, 0) else Inl (kv_fail e), w\<lparr>w_kv := s\<rparr>)
      | (Inr (val, rv), s) \<Rightarrow>
          (case unmarshal_Desired val of
             Inl e \<Rightarrow> (Inl (SvcJson e), w\<lparr>w_kv := s\<rparr>)
           | Inr d \<Rightarrow> (Inr (d\<lparr>d_Revision := rv\<rparr>, rv), w\<lparr>w_kv := s\<rparr>)))"

definition PutReported :: "'kv kvops \<Rightarrow> string \<Rightarrow> Reported \<Rightarrow> 'kv world \<Rightarrow> svc_error option \<times> 'kv world" where
  "PutReported kv deviceID r w =
     (let body = marshal_Reported (r\<lparr>r_SchemaVersion := shadow_SchemaVersion\<rparr>) in
      case kv_Put kv (reportedKey deviceID) (Some body) (w_kv w) of
        (Inl e, s) \<Rightarrow> (Some (kv_fail e), w\<lparr>w_kv := s\<rparr>)
      | (Inr rv, s) \<Rightarrow> audit deviceID ''reported'' rv body (w\<lparr>w_kv := s\<rparr>))"

definition GetReported :: "'kv kvops \<Rightarrow> string \<Rightarrow> 'kv world \<Rightarrow> (svc_error + Reported option) \<times> 'kv world" where
  "GetReported kv deviceID w =
     (case kv_Get kv (reportedKey deviceID) (w_kv w) of
        (Inl e, s) \<Rightarrow> (if e = ErrKeyNotFound then Inr None else Inl (kv_fail e), w\<lparr>w_kv := s\<rparr>)
      | (Inr (val, rv), s) \<Rightarrow>
          (case unmarshal_Reported val of
             Inl e \<Rightarrow> (Inl (SvcJson e), w\<lparr>w_kv := s\<rparr>)
           | Inr r \<Rightarrow> (Inr (Some r), w\<lparr>w_kv := s\<rparr>)))"

section \<open>Publisher and reconciler\<close>

definition PublishDesired :: "string \<Rightarrow> Desired \<Rightarrow> 'kv world \<Rightarrow> svc_error option \<times> 'kv world" where
  "PublishDesired deviceID d w =
     (case on_mqtt (bus_publish (ConfigTopic deviceID)
              \<lparr>m_qos = 1, m_retained = True, m_payload = marshal_Desired d\<rparr>) w of
        (None, w1) \<Rightarrow> (None, w1) | (Some e, w1) \<Rightarrow> (Some (SvcPub e), w1))"

definition Reconciler_onMessage :: "'kv kvops \<Rightarrow> string \<Rightarrow> body \<Rightarrow> 'kv world \<Rightarrow> 'kv world" where
  "Reconciler_onMessage kv topic payload w =
     (case DeviceIDFromStateTopic topic of
        (deviceID, False) \<Rightarrow> w
      | (deviceID, True) \<Rightarrow>
          (case unmarshal_Reported payload of
             Inl e \<Rightarrow> w
           | Inr rep \<Rightarrow>
               (case PutReported kv deviceID rep w of
                  (Some e, w1) \<Rightarrow> w1
                | (None, w1) \<Rightarrow>
                    (case time_Now w1 of (now, w2) \<Rightarrow> snd (on_pg (UpdateLastSeen deviceID now) w2)))))"

section \<open>Lemmas\<close>

subsection \<open>JSON\<close>

text \<open>A Go \<^verbatim>\<open>int\<close> is 64 bits wide.\<close>

definition int64_ok :: "int \<Rightarrow> bool" where
  "int64_ok i \<longleftrightarrow> - (2 ^ 63) \<le> i \<and> i < 2 ^ 63"

definition desired_ok :: "Desired \<Rightarrow> bool" where
  "desired_ok d \<longleftrightarrow> pred_option int64_ok (d_BatchSize d) \<and> pred_option int64_ok (d_FlushIntervalMS d)"

definition reported_ok :: "Reported \<Rightarrow> bool" where
  "reported_ok r \<longleftrightarrow> pred_option int64_ok (r_BatchSize r) \<and> pred_option int64_ok (r_FlushIntervalMS r) \<and>
     int64_ok (r_ReportedAtMS r)"

lemma shadow_tags [simp]:
  "foldName ''revision'' = ''revision''"
  "foldName ''sample_rate_hz'' = ''sample_rate_hz''"
  "foldName ''enabled_sensors'' = ''enabled_sensors''"
  "foldName ''batch_size'' = ''batch_size''"
  "foldName ''flush_interval_ms'' = ''flush_interval_ms''"
  "foldName ''reporting_mode'' = ''reporting_mode''"
  "foldName ''applied_revision'' = ''applied_revision''"
  "foldName ''rejected'' = ''rejected''"
  "foldName ''rejected_revision'' = ''rejected_revision''"
  "foldName ''reject_reason'' = ''reject_reason''"
  "foldName ''reported_at_ms'' = ''reported_at_ms''"
  by code_simp+

lemma dec_int_ok: "int64_ok i \<Longrightarrow> dec_int (JInt i) cur = Inr i"
  by (simp add: int64_ok_def)

lemma dec_strings_enc: "dec_slice dec_string [] (enc_strings xs) cur = Inr (Some xs)"
  by (simp add: enc_strings_def)

lemma des_revision [simp]:
  "d_Revision x = 0 \<Longrightarrow> dec_members set_Desired (omit_if (v = 0) ''revision'' (enc_uint64 v)) x = Inr (x\<lparr>d_Revision := v\<rparr>)"
  by (auto simp: omit_if_def set_Desired_def field_def)

lemma des_sample_rate [simp]:
  "d_SampleRateHz x = None \<Longrightarrow> dec_members set_Desired (omit_ptr ''sample_rate_hz'' enc_float v) x = Inr (x\<lparr>d_SampleRateHz := v\<rparr>)"
  by (rule dec_omit_ptr [where put = "\<lambda>v x. x\<lparr>d_SampleRateHz := v\<rparr>"]) (auto simp: set_Desired_def dec_int_ok simp del: dec_int.simps)

lemma des_sensors [simp]:
  "d_EnabledSensors x = None \<Longrightarrow> dec_members set_Desired (omit_list ''enabled_sensors'' enc_strings v) x = Inr (x\<lparr>d_EnabledSensors := drop_empty v\<rparr>)"
  by (rule dec_omit_list [where put = "\<lambda>v x. x\<lparr>d_EnabledSensors := v\<rparr>"]) (auto simp: set_Desired_def dec_strings_enc)

lemma des_batch [simp]:
  "d_BatchSize x = None \<Longrightarrow> pred_option int64_ok v \<Longrightarrow> dec_members set_Desired (omit_ptr ''batch_size'' JInt v) x = Inr (x\<lparr>d_BatchSize := v\<rparr>)"
  by (rule dec_omit_ptr [where put = "\<lambda>v x. x\<lparr>d_BatchSize := v\<rparr>"]) (auto simp: set_Desired_def dec_int_ok simp del: dec_int.simps)

lemma des_flush [simp]:
  "d_FlushIntervalMS x = None \<Longrightarrow> pred_option int64_ok v \<Longrightarrow> dec_members set_Desired (omit_ptr ''flush_interval_ms'' JInt v) x = Inr (x\<lparr>d_FlushIntervalMS := v\<rparr>)"
  by (rule dec_omit_ptr [where put = "\<lambda>v x. x\<lparr>d_FlushIntervalMS := v\<rparr>"]) (auto simp: set_Desired_def dec_int_ok simp del: dec_int.simps)

lemma des_mode [simp]:
  "d_ReportingMode x = None \<Longrightarrow> dec_members set_Desired (omit_ptr ''reporting_mode'' JString v) x = Inr (x\<lparr>d_ReportingMode := v\<rparr>)"
  by (rule dec_omit_ptr [where put = "\<lambda>v x. x\<lparr>d_ReportingMode := v\<rparr>"]) (auto simp: set_Desired_def dec_int_ok simp del: dec_int.simps)

lemma rep_rejected [simp]:
  "r_Rejected x = False \<Longrightarrow> dec_members set_Reported (omit_if (\<not> v) ''rejected'' (JBool v)) x = Inr (x\<lparr>r_Rejected := v\<rparr>)"
  by (auto simp: omit_if_def set_Reported_def field_def)

lemma rep_rejrev [simp]:
  "r_RejectedRevision x = 0 \<Longrightarrow> dec_members set_Reported (omit_if (v = 0) ''rejected_revision'' (enc_uint64 v)) x = Inr (x\<lparr>r_RejectedRevision := v\<rparr>)"
  by (auto simp: omit_if_def set_Reported_def field_def)

lemma rep_reason [simp]:
  "r_RejectReason x = [] \<Longrightarrow> dec_members set_Reported (omit_if (v = []) ''reject_reason'' (JString v)) x = Inr (x\<lparr>r_RejectReason := v\<rparr>)"
  by (auto simp: omit_if_def set_Reported_def field_def)

lemma rep_sample_rate [simp]:
  "r_SampleRateHz x = None \<Longrightarrow> dec_members set_Reported (omit_ptr ''sample_rate_hz'' enc_float v) x = Inr (x\<lparr>r_SampleRateHz := v\<rparr>)"
  by (rule dec_omit_ptr [where put = "\<lambda>v x. x\<lparr>r_SampleRateHz := v\<rparr>"]) (auto simp: set_Reported_def dec_int_ok simp del: dec_int.simps)

lemma rep_sensors [simp]:
  "r_EnabledSensors x = None \<Longrightarrow> dec_members set_Reported (omit_list ''enabled_sensors'' enc_strings v) x = Inr (x\<lparr>r_EnabledSensors := drop_empty v\<rparr>)"
  by (rule dec_omit_list [where put = "\<lambda>v x. x\<lparr>r_EnabledSensors := v\<rparr>"]) (auto simp: set_Reported_def dec_strings_enc)

lemma rep_batch [simp]:
  "r_BatchSize x = None \<Longrightarrow> pred_option int64_ok v \<Longrightarrow> dec_members set_Reported (omit_ptr ''batch_size'' JInt v) x = Inr (x\<lparr>r_BatchSize := v\<rparr>)"
  by (rule dec_omit_ptr [where put = "\<lambda>v x. x\<lparr>r_BatchSize := v\<rparr>"]) (auto simp: set_Reported_def dec_int_ok simp del: dec_int.simps)

lemma rep_flush [simp]:
  "r_FlushIntervalMS x = None \<Longrightarrow> pred_option int64_ok v \<Longrightarrow> dec_members set_Reported (omit_ptr ''flush_interval_ms'' JInt v) x = Inr (x\<lparr>r_FlushIntervalMS := v\<rparr>)"
  by (rule dec_omit_ptr [where put = "\<lambda>v x. x\<lparr>r_FlushIntervalMS := v\<rparr>"]) (auto simp: set_Reported_def dec_int_ok simp del: dec_int.simps)

lemma rep_mode [simp]:
  "r_ReportingMode x = None \<Longrightarrow> dec_members set_Reported (omit_ptr ''reporting_mode'' JString v) x = Inr (x\<lparr>r_ReportingMode := v\<rparr>)"
  by (rule dec_omit_ptr [where put = "\<lambda>v x. x\<lparr>r_ReportingMode := v\<rparr>"]) (auto simp: set_Reported_def dec_int_ok simp del: dec_int.simps)

lemma Desired_roundtrip:
  assumes "desired_ok d"
  shows "unmarshal_Desired (Some (marshal_Desired d)) = Inr (d\<lparr>d_EnabledSensors := drop_empty (d_EnabledSensors d)\<rparr>)"
  unfolding unmarshal_Desired_def marshal_Desired_def
  by (rule dec_struct_object)
    (use assms in \<open>simp add: desired_ok_def dec_members_append zeroDesired_def set_Desired_def [of "''schema_version''"]
      field_def\<close>)

lemma Reported_roundtrip:
  assumes "reported_ok r"
  shows "unmarshal_Reported (Some (marshal_Reported r)) = Inr (r\<lparr>r_EnabledSensors := drop_empty (r_EnabledSensors r)\<rparr>)"
  unfolding unmarshal_Reported_def marshal_Reported_def
  by (rule dec_struct_object)
    (use assms in \<open>simp add: reported_ok_def dec_members_append zeroReported_def set_Reported_def [of "''schema_version''"]
      set_Reported_def [of "''applied_revision''"] set_Reported_def [of "''reported_at_ms''"] field_def dec_int_ok
      del: dec_int.simps\<close>)

text \<open>What the store keeps of a desired configuration.\<close>

definition normD :: "Desired \<Rightarrow> Desired" where
  "normD d = d\<lparr>d_SchemaVersion := shadow_SchemaVersion, d_Revision := 0,
     d_EnabledSensors := drop_empty (d_EnabledSensors d)\<rparr>"

lemma normD_idem [simp]: "normD (normD d) = normD d"
  by (simp add: normD_def drop_empty_def)

lemma normD_revision [simp]: "normD (d\<lparr>d_Revision := rv\<rparr>) = normD d"
  "normD (d\<lparr>d_SchemaVersion := sv\<rparr>) = normD d"
  by (simp_all add: normD_def)

lemma desired_ok_upd [simp]:
  "desired_ok (d\<lparr>d_Revision := rv\<rparr>) = desired_ok d"
  "desired_ok (d\<lparr>d_SchemaVersion := sv\<rparr>) = desired_ok d"
  "desired_ok (d\<lparr>d_EnabledSensors := es\<rparr>) = desired_ok d"
  by (simp_all add: desired_ok_def)

lemma dec_ptr_int_ok:
  "dec_ptr dec_int 0 j cur = Inr v \<Longrightarrow> pred_option int64_ok cur \<Longrightarrow> pred_option int64_ok v"
  by (cases j) (auto simp: dec_ptr_def int64_ok_def split: sum.splits if_splits option.splits)

text \<open>Whatever decodes as a desired configuration fits the Go types.\<close>

lemma unmarshal_Desired_ok: "unmarshal_Desired b = Inr d \<Longrightarrow> desired_ok d"
  unfolding unmarshal_Desired_def
  by (erule Unmarshal_struct_keeps [where P = desired_ok])
    (auto simp: zeroDesired_def desired_ok_def set_Desired_def field_def dec_ptr_int_ok split: if_splits sum.splits)

subsection \<open>Store\<close>

lemma keys_inject [simp]:
  "desiredKey a = desiredKey b \<longleftrightarrow> a = b" "reportedKey a = reportedKey b \<longleftrightarrow> a = b"
  by (simp_all add: desiredKey_def reportedKey_def)

lemma keys_differ [simp]: "desiredKey a \<noteq> reportedKey b" "reportedKey b \<noteq> desiredKey a"
proof -
  have "rev (desiredKey a) ! 2 = CHR ''r''" "rev (reportedKey b) ! 2 = CHR ''t''"
    by (simp_all add: desiredKey_def reportedKey_def)
  then show "desiredKey a \<noteq> reportedKey b" by auto
  then show "reportedKey b \<noteq> desiredKey a" by simp
qed

text \<open>The audit trail is the only table the shadow store writes.\<close>

definition shadow_frame :: "'kv world \<Rightarrow> 'kv world" where
  "shadow_frame w = w\<lparr>w_pg := (w_pg w)\<lparr>pg_faults := [], pg_shadow_history := []\<rparr>, w_issued := 0,
     w_kv := undefined\<rparr>"

lemma audit_frame: "audit i dir rv b w = (r, w') \<Longrightarrow> shadow_frame w' = shadow_frame w \<and> w_kv w' = w_kv w"
  by (auto simp: audit_def world_defs pg_exec_def sql_insert_history_def uuid_arg_Inr shadow_frame_def Let_def
      elim!: pg_run_cases split: prod.splits option.splits sum.splits if_splits)

lemma SetDesired_frame: "shadow_frame (snd (SetDesired kv i d w)) = shadow_frame w"
  by (auto simp: SetDesired_def Let_def dest!: audit_frame split: prod.splits sum.splits option.splits)
    (auto simp: shadow_frame_def)

lemma GetDesired_frame: "shadow_frame (snd (GetDesired kv i w)) = shadow_frame w"
  by (auto simp: GetDesired_def shadow_frame_def split: prod.splits sum.splits)

lemma GetReported_frame: "shadow_frame (snd (GetReported kv i w)) = shadow_frame w"
  by (auto simp: GetReported_def shadow_frame_def split: prod.splits sum.splits)

text \<open>The configuration and the revision the store holds for a device.\<close>

definition shadow_config :: "('kv \<Rightarrow> string \<Rightarrow> (body \<times> u64) option) \<Rightarrow> 'kv world \<Rightarrow> string \<Rightarrow> Desired option" where
  "shadow_config content w i =
     (case content (w_kv w) (desiredKey i) of None \<Rightarrow> None
      | Some (b, rv) \<Rightarrow> (case unmarshal_Desired b of Inl _ \<Rightarrow> None | Inr d \<Rightarrow> Some (normD d)))"

definition shadow_revision :: "('kv \<Rightarrow> string \<Rightarrow> (body \<times> u64) option) \<Rightarrow> 'kv world \<Rightarrow> string \<Rightarrow> u64" where
  "shadow_revision content w i = (case content (w_kv w) (desiredKey i) of None \<Rightarrow> 0 | Some (b, rv) \<Rightarrow> rv)"

text \<open>
  The interface \<^verbatim>\<open>ShadowSetter\<close> of the rollout engine: setting a device's configuration
  stores exactly that configuration under a revision above every other, touches no other device, and a
  failed set either did that or nothing; reading returns what is stored and changes nothing. \<open>frame\<close>
  stands for the state outside the shadow.
\<close>

locale shadow_setter =
  fixes SetD :: "string \<Rightarrow> Desired \<Rightarrow> 'w \<Rightarrow> (svc_error + Desired) \<times> 'w"
    and GetD :: "string \<Rightarrow> 'w \<Rightarrow> (svc_error + Desired \<times> u64) \<times> 'w"
    and GetR :: "string \<Rightarrow> 'w \<Rightarrow> (svc_error + Reported option) \<times> 'w"
    and config :: "'w \<Rightarrow> string \<Rightarrow> Desired option"
    and revision :: "'w \<Rightarrow> string \<Rightarrow> u64"
    and frame :: "'w \<Rightarrow> 'r"
  assumes set_ok: "desired_ok d \<Longrightarrow> SetD i d w = (Inr p, w') \<Longrightarrow>
      config w' = (config w)(i \<mapsto> normD d) \<and> revision w' = (revision w)(i := d_Revision p) \<and>
      (\<forall>j. revision w j < d_Revision p) \<and> normD p = normD d \<and> desired_ok p"
    and set_err: "desired_ok d \<Longrightarrow> SetD i d w = (Inl e, w') \<Longrightarrow>
      config w' = config w \<or> config w' = (config w)(i \<mapsto> normD d)"
    and set_frame: "frame (snd (SetD i d w)) = frame w"
    and get_ok: "GetD i w = (Inr (d, rv), w') \<Longrightarrow>
      rv = revision w i \<and> (rv = 0 \<and> config w i = None \<or> rv > 0 \<and> desired_ok d \<and> config w i = Some (normD d))"
    and get_state: "config (snd (GetD i w)) = config w" "revision (snd (GetD i w)) = revision w"
      "frame (snd (GetD i w)) = frame w"
    and getr_state: "config (snd (GetR i w)) = config w" "revision (snd (GetR i w)) = revision w"
      "frame (snd (GetR i w)) = frame w"
begin

lemma set_other: "desired_ok d \<Longrightarrow> j \<noteq> i \<Longrightarrow> config (snd (SetD i d w)) j = config w j"
  using set_ok [of d i w] set_err [of d i w] by (cases "SetD i d w"; cases "fst (SetD i d w)") fastforce+

lemma set_get:
  assumes "desired_ok d" and "SetD i d w = (Inr p, w')" and "GetD i w' = (Inr (d', rv), w'')"
  shows "rv = d_Revision p \<and> normD d' = normD d"
  using set_ok [OF assms(1,2)] get_ok [OF assms(3)] by auto

lemma set_twice_last_wins:
  assumes "desired_ok d" and "desired_ok e" and "SetD i d w = (Inr p, w1)" and "SetD i e w1 = (Inr q, w2)"
  shows "config w2 i = Some (normD e)" and "d_Revision p < d_Revision q"
  using set_ok [OF assms(1,3)] set_ok [OF assms(2,4)] by (auto dest: spec [of _ i])

end

text \<open>The shadow store provides it on any bucket that keeps its promises.\<close>

lemma SetDesired_kv:
  "SetDesired kv i d w = (r, w') \<Longrightarrow>
   (\<exists>pr s. kv_Put kv (desiredKey i) (Some (marshal_Desired (d\<lparr>d_SchemaVersion := shadow_SchemaVersion, d_Revision := 0\<rparr>))) (w_kv w)
      = (pr, s) \<and> w_kv w' = s \<and>
      (case r of Inr p \<Rightarrow> \<exists>rv. pr = Inr rv \<and> p = d\<lparr>d_SchemaVersion := shadow_SchemaVersion, d_Revision := rv\<rparr>
       | Inl _ \<Rightarrow> True))"
  by (auto simp: SetDesired_def Let_def dest!: audit_frame split: prod.splits sum.splits option.splits)

lemma config_set:
  assumes "desired_ok d"
    and "content (w_kv w') = (content (w_kv w))(desiredKey i \<mapsto>
      (Some (marshal_Desired (d\<lparr>d_SchemaVersion := shadow_SchemaVersion, d_Revision := 0\<rparr>)), rv))"
  shows "shadow_config content w' = (shadow_config content w)(i \<mapsto> normD d)"
    and "shadow_revision content w' = (shadow_revision content w)(i := rv)"
  using assms
  by (auto simp: fun_eq_iff shadow_config_def shadow_revision_def Desired_roundtrip normD_def drop_empty_def)

lemma config_kv: "content (w_kv w') = content (w_kv w) \<Longrightarrow> shadow_config content w' = shadow_config content w"
  and revision_kv: "content (w_kv w') = content (w_kv w) \<Longrightarrow> shadow_revision content w' = shadow_revision content w"
  by (auto simp: fun_eq_iff shadow_config_def shadow_revision_def)

sublocale kv_bucket \<subseteq> shadow: shadow_setter "SetDesired kv" "GetDesired kv" "GetReported kv"
  "shadow_config content" "shadow_revision content" shadow_frame
proof
  fix d i w p w'
  assume d: "desired_ok d" and s: "SetDesired kv i d w = (Inr p, w')"
  from SetDesired_kv [OF s] obtain rv where put: "kv_Put kv (desiredKey i)
      (Some (marshal_Desired (d\<lparr>d_SchemaVersion := shadow_SchemaVersion, d_Revision := 0\<rparr>))) (w_kv w) = (Inr rv, w_kv w')"
    and p: "p = d\<lparr>d_SchemaVersion := shadow_SchemaVersion, d_Revision := rv\<rparr>"
    by auto
  from put_ok [OF put] have c: "content (w_kv w') = (content (w_kv w))(desiredKey i \<mapsto>
      (Some (marshal_Desired (d\<lparr>d_SchemaVersion := shadow_SchemaVersion, d_Revision := 0\<rparr>)), rv))"
    and new: "\<And>k v r. content (w_kv w) k = Some (v, r) \<Longrightarrow> r < rv" by auto
  have "rv > 0" using content_pos [of "w_kv w'" "desiredKey i"] c by simp
  then have "shadow_revision content w j < rv" for j
    using new by (auto simp: shadow_revision_def split: option.splits)
  with config_set [OF d c] d p show "shadow_config content w' = (shadow_config content w)(i \<mapsto> normD d) \<and>
      shadow_revision content w' = (shadow_revision content w)(i := d_Revision p) \<and>
      (\<forall>j. shadow_revision content w j < d_Revision p) \<and> normD p = normD d \<and> desired_ok p"
    by (simp add: normD_def)
next
  fix d i w e w'
  assume d: "desired_ok d" and s: "SetDesired kv i d w = (Inl e, w')"
  from SetDesired_kv [OF s] obtain pr where put: "kv_Put kv (desiredKey i)
      (Some (marshal_Desired (d\<lparr>d_SchemaVersion := shadow_SchemaVersion, d_Revision := 0\<rparr>))) (w_kv w) = (pr, w_kv w')"
    by auto
  let ?b = "Some (marshal_Desired (d\<lparr>d_SchemaVersion := shadow_SchemaVersion, d_Revision := 0\<rparr>))"
  from put have "content (w_kv w') = content (w_kv w) \<or>
      (\<exists>rv. content (w_kv w') = (content (w_kv w))(desiredKey i \<mapsto> (?b, rv)))"
    using put_ok [of "desiredKey i" ?b "w_kv w" _ "w_kv w'"] put_err [of "desiredKey i" ?b "w_kv w" _ "w_kv w'"]
    by (cases pr) blast+
  then show "shadow_config content w' = shadow_config content w \<or>
      shadow_config content w' = (shadow_config content w)(i \<mapsto> normD d)"
  proof
    assume "content (w_kv w') = content (w_kv w)"
    then show ?thesis by (intro disjI1 config_kv)
  next
    assume "\<exists>rv. content (w_kv w') = (content (w_kv w))(desiredKey i \<mapsto> (?b, rv))"
    then obtain rv where "content (w_kv w') = (content (w_kv w))(desiredKey i \<mapsto> (?b, rv))" ..
    then show ?thesis by (intro disjI2 config_set(1) [OF d])
  qed
next
  fix i w d rv w'
  assume g: "GetDesired kv i w = (Inr (d, rv), w')"
  then consider s where "kv_Get kv (desiredKey i) (w_kv w) = (Inl ErrKeyNotFound, s)" "rv = 0"
    | b s d0 where "kv_Get kv (desiredKey i) (w_kv w) = (Inr (b, rv), s)" "unmarshal_Desired b = Inr d0"
      "d = d0\<lparr>d_Revision := rv\<rparr>"
    by (auto simp: GetDesired_def split: prod.splits sum.splits if_splits)
  then show "rv = shadow_revision content w i \<and> (rv = 0 \<and> shadow_config content w i = None \<or>
      rv > 0 \<and> desired_ok d \<and> shadow_config content w i = Some (normD d))"
  proof cases
    case 1
    then show ?thesis using get_none by (simp add: shadow_config_def shadow_revision_def)
  next
    case (2 b s d0)
    with get_ok [OF 2(1)] content_pos show ?thesis
      by (auto simp: shadow_config_def shadow_revision_def dest: unmarshal_Desired_ok)
  qed
next
  fix i :: string and w :: "'kv world"
  show "shadow_config content (snd (GetDesired kv i w)) = shadow_config content w"
    "shadow_revision content (snd (GetDesired kv i w)) = shadow_revision content w"
    by (auto simp: GetDesired_def intro!: config_kv revision_kv split: prod.splits sum.splits dest: get_state)
  show "shadow_config content (snd (GetReported kv i w)) = shadow_config content w"
    "shadow_revision content (snd (GetReported kv i w)) = shadow_revision content w"
    by (auto simp: GetReported_def intro!: config_kv revision_kv split: prod.splits sum.splits dest: get_state)
qed (simp_all add: SetDesired_frame GetDesired_frame GetReported_frame)

lemma PutReported_kv:
  assumes "PutReported kv i r w = (None, w')"
  shows "\<exists>rv. kv_Put kv (reportedKey i)
      (Some (marshal_Reported (r\<lparr>r_SchemaVersion := shadow_SchemaVersion\<rparr>))) (w_kv w) = (Inr rv, w_kv w')"
  using assms by (auto simp: PutReported_def Let_def dest!: audit_frame split: prod.splits sum.splits)

text \<open>What the store holds as the last report of a device.\<close>

definition shadow_reported :: "('kv \<Rightarrow> string \<Rightarrow> (body \<times> u64) option) \<Rightarrow> 'kv world \<Rightarrow> string \<Rightarrow> Reported option" where
  "shadow_reported content w i =
     (case content (w_kv w) (reportedKey i) of None \<Rightarrow> None
      | Some (b, rv) \<Rightarrow> (case unmarshal_Reported b of Inl _ \<Rightarrow> None | Inr r \<Rightarrow> Some r))"

definition normR :: "Reported \<Rightarrow> Reported" where
  "normR r = r\<lparr>r_SchemaVersion := shadow_SchemaVersion, r_EnabledSensors := drop_empty (r_EnabledSensors r)\<rparr>"

lemma dec_int_range: "dec_int j cur = Inr v \<Longrightarrow> int64_ok cur \<Longrightarrow> int64_ok v"
  by (cases j) (auto simp: int64_ok_def split: if_splits)

lemma unmarshal_Reported_ok: "unmarshal_Reported b = Inr r \<Longrightarrow> reported_ok r"
  unfolding unmarshal_Reported_def
  by (erule Unmarshal_struct_keeps [where P = reported_ok])
    (auto simp: zeroReported_def reported_ok_def set_Reported_def field_def dec_ptr_int_ok dec_int_range
      simp: int64_ok_def [of 0] split: if_splits sum.splits)

context kv_bucket
begin

lemma put_reported:
  assumes "reported_ok r" and "PutReported kv i r w = (None, w')"
  shows "shadow_reported content w' = (shadow_reported content w)(i \<mapsto> normR r)"
    and "shadow_config content w' = shadow_config content w"
proof -
  obtain rv where put: "kv_Put kv (reportedKey i)
      (Some (marshal_Reported (r\<lparr>r_SchemaVersion := shadow_SchemaVersion\<rparr>))) (w_kv w) = (Inr rv, w_kv w')"
    using PutReported_kv [OF assms(2)] ..
  have ok: "reported_ok (r\<lparr>r_SchemaVersion := shadow_SchemaVersion\<rparr>)" using assms(1) by (simp add: reported_ok_def)
  show "shadow_reported content w' = (shadow_reported content w)(i \<mapsto> normR r)"
    using put_ok [OF put] Reported_roundtrip [OF ok] by (auto simp: fun_eq_iff shadow_reported_def normR_def)
  show "shadow_config content w' = shadow_config content w"
    using put_ok [OF put] by (auto simp: fun_eq_iff shadow_config_def)
qed

lemma get_reported: "GetReported kv i w = (Inr r, w') \<Longrightarrow> r = shadow_reported content w i"
  by (auto simp: GetReported_def shadow_reported_def dest: get_ok get_none split: prod.splits sum.splits if_splits)

lemma on_state_message:
  assumes "CHR ''/'' \<notin> set i" and "unmarshal_Reported b = Inr r" and "PutReported kv i r w = (None, w')"
  shows "shadow_reported content (Reconciler_onMessage kv (StateTopic i) b w) = (shadow_reported content w)(i \<mapsto> normR r)"
    and "shadow_config content (Reconciler_onMessage kv (StateTopic i) b w) = shadow_config content w"
proof -
  have topic: "DeviceIDFromStateTopic (StateTopic i) = (i, True)"
    using splitOn_topic [of i "''state''"] assms(1)
    by (simp add: DeviceIDFromStateTopic_def StateTopic_def numeral_eq_Suc)
  have kv: "w_kv (Reconciler_onMessage kv (StateTopic i) b w) = w_kv w'"
    using assms(2,3) topic by (simp add: Reconciler_onMessage_def world_defs split: prod.splits)
  note put = put_reported [OF unmarshal_Reported_ok [OF assms(2)] assms(3)]
  show "shadow_reported content (Reconciler_onMessage kv (StateTopic i) b w) = (shadow_reported content w)(i \<mapsto> normR r)"
    using put(1) kv by (simp add: shadow_reported_def fun_eq_iff)
  show "shadow_config content (Reconciler_onMessage kv (StateTopic i) b w) = shadow_config content w"
    using put(2) kv by (simp add: shadow_config_def fun_eq_iff)
qed

lemma set_get_desired:
  assumes "desired_ok d" and "SetDesired kv i d w = (Inr p, w1)" and "GetDesired kv i w1 = (Inr (d', rv), w2)"
  shows "normD d' = normD d \<and> rv = d_Revision p \<and> (\<forall>j. shadow_revision content w j < rv) \<and>
    (\<forall>j. j \<noteq> i \<longrightarrow> shadow_config content w1 j = shadow_config content w j)"
  using shadow.set_get [OF assms] shadow.set_ok [OF assms(1,2)] by auto

lemma set_desired_revision:
  assumes "desired_ok d" and "SetDesired kv i d w = (Inr p, w1)"
  shows "(\<forall>j. shadow_revision content w j < d_Revision p) \<and> shadow_revision content w1 i = d_Revision p"
  using shadow.set_ok [OF assms] by auto

lemma ignored_message:
  assumes "(\<forall>i. topic = StateTopic i \<longrightarrow> CHR ''/'' \<in> set i) \<or> (\<exists>e. unmarshal_Reported b = Inl e)"
  shows "Reconciler_onMessage kv topic b w = w"
proof (cases "DeviceIDFromStateTopic topic")
  case (Pair i ok)
  show ?thesis
  proof (cases ok)
    case True
    then have "topic = StateTopic i" "CHR ''/'' \<notin> set i"
      using Pair split_topic_inverse [of topic "''state''"]
      by (auto simp: DeviceIDFromStateTopic_def StateTopic_def Let_def split: if_splits)
    with assms Pair True show ?thesis by (auto simp: Reconciler_onMessage_def)
  qed (simp add: Reconciler_onMessage_def Pair)
qed

end

text \<open>An environment for witnesses: one claimed device, an empty bucket, no faults.\<close>

definition sampleWorld :: "memkv world" where
  "sampleWorld = \<lparr>w_pg = snd (Devices_Create 5 ''d1'' ''lamp'' ''esp32'' emptyPg),
     w_kv = \<lparr>mk_faults = [], mk_entries = Map.empty, mk_seq = 0\<rparr>,
     w_mqtt = \<lparr>bus_faults = [], bus_sent = []\<rparr>, w_js = \<lparr>bus_faults = [], bus_sent = []\<rparr>,
     w_clock = (\<lambda>n. 1000000 * int n), w_ticks = 0, w_uuids = (\<lambda>n. replicate n CHR ''u''), w_issued = 0\<rparr>"

definition sampleDesired :: Desired where
  "sampleDesired = zeroDesired\<lparr>d_SampleRateHz := Some 10\<rparr>"

lemmas sample_defs = sampleWorld_def sampleDesired_def emptyPg_def Devices_Create_def pg_exec_def
  sql_insert_device_def uuid_arg_def device_exists_def

section \<open>Properties\<close>

text \<open>C15: what an operator sets is what is stored. After a successful \<^verbatim>\<open>SetDesired\<close>, a read returns
  that configuration with the revision the set returned, which is larger than every revision any device
  had before, and no other device's configuration changed.\<close>

theorem set_then_get_desired:
  assumes "kv_bucket kv content" and "desired_ok d" and "SetDesired kv i d w = (Inr p, w1)"
    and "GetDesired kv i w1 = (Inr (d', rv), w2)"
  shows "normD d' = normD d \<and> rv = d_Revision p \<and> (\<forall>j. shadow_revision content w j < rv) \<and>
    (\<forall>j. j \<noteq> i \<longrightarrow> shadow_config content w1 j = shadow_config content w j)"
  using kv_bucket.set_get_desired [OF assms] .

lemma sampleSet:
  "SetDesired memkv_ops ''d1'' sampleDesired sampleWorld
     = (Inr (sampleDesired\<lparr>d_SchemaVersion := ''1.0'', d_Revision := 1\<rparr>),
        snd (SetDesired memkv_ops ''d1'' sampleDesired sampleWorld))"
  by (simp add: SetDesired_def memkv_ops_def memPut_def audit_def world_defs sql_insert_history_def sample_defs
      shadow_SchemaVersion_def Let_def)

lemma sampleGet:
  "GetDesired memkv_ops ''d1'' (snd (SetDesired memkv_ops ''d1'' sampleDesired sampleWorld))
     = (Inr (sampleDesired\<lparr>d_SchemaVersion := ''1.0'', d_Revision := 1\<rparr>, 1),
        snd (SetDesired memkv_ops ''d1'' sampleDesired sampleWorld))"
proof -
  have "unmarshal_Desired (Some (marshal_Desired (sampleDesired\<lparr>d_SchemaVersion := ''1.0'', d_Revision := 0\<rparr>)))
      = Inr (sampleDesired\<lparr>d_SchemaVersion := ''1.0'', d_Revision := 0\<rparr>)"
    using Desired_roundtrip [of "sampleDesired\<lparr>d_SchemaVersion := ''1.0'', d_Revision := 0\<rparr>"]
    by (simp add: sampleDesired_def zeroDesired_def drop_empty_def desired_ok_def)
  then show ?thesis
    by (simp add: GetDesired_def SetDesired_def memkv_ops_def memPut_def memGet_def mem_content_def mem_store_def
        audit_def world_defs sql_insert_history_def sample_defs shadow_SchemaVersion_def Let_def)
qed

theorem set_then_get_desired_witness:
  "GetDesired memkv_ops ''d1'' (snd (SetDesired memkv_ops ''d1'' sampleDesired sampleWorld))
     = (Inr (sampleDesired\<lparr>d_SchemaVersion := ''1.0'', d_Revision := 1\<rparr>, 1),
        snd (SetDesired memkv_ops ''d1'' sampleDesired sampleWorld)) \<and>
   shadow_revision mem_content sampleWorld ''d1'' < 1"
  using set_then_get_desired [OF mem.kv_bucket_axioms _ sampleSet sampleGet] sampleGet
  by (simp add: sampleDesired_def desired_ok_def zeroDesired_def)

text \<open>Drift compares revisions. Once a new configuration is set, a device that echoes any revision that
  existed before (its own previous configuration, or another device's) shows as drifted, however fresh its
  report; and a device shows as in sync only if its last report echoes exactly the new revision and is not
  older than \<^verbatim>\<open>staleAfter\<close>.\<close>

theorem old_revision_is_drift:
  assumes "kv_bucket kv content" and "desired_ok d" and "SetDesired kv i d w = (Inr p, w1)"
  shows "(r_AppliedRevision r = shadow_revision content w j \<longrightarrow> Drift (d_Revision p) (Some r) now stale) \<and>
    (\<not> Drift (shadow_revision content w1 i) rep now stale \<longleftrightarrow>
      (\<exists>r. rep = Some r \<and> r_AppliedRevision r = d_Revision p \<and>
         time_sub now (time_UnixMilli (r_ReportedAtMS r)) \<le> stale))"
proof -
  have "shadow_revision content w j \<noteq> d_Revision p" "shadow_revision content w1 i = d_Revision p"
    using kv_bucket.set_desired_revision [OF assms] by (auto dest: spec [of _ j])
  then show ?thesis by (auto simp: Drift_def not_less split: option.splits)
qed

theorem old_revision_is_drift_witness:
  "Drift 1 (Some zeroReported) 0 (30 * second)"
proof -
  have "shadow_revision mem_content sampleWorld ''d1'' = 0"
    by (simp add: shadow_revision_def mem_content_def sampleWorld_def)
  then show ?thesis
    using old_revision_is_drift [OF mem.kv_bucket_axioms _ sampleSet, of zeroReported "''d1''" 0 "30 * second" None]
    by (simp add: sampleDesired_def desired_ok_def zeroDesired_def zeroReported_def)
qed

text \<open>The reconciler records what a device reported. A well-formed report on a device's state topic
  becomes that device's stored report (whatever revision it carries: the last one to arrive is kept), no
  other device's report and no desired configuration changes; a message on another topic, or one that does
  not parse, changes nothing at all.\<close>

theorem reconciler_records_report:
  assumes "kv_bucket kv content"
  shows "(CHR ''/'' \<notin> set i \<longrightarrow> unmarshal_Reported b = Inr r \<longrightarrow> PutReported kv i r w = (None, w') \<longrightarrow>
       shadow_reported content (Reconciler_onMessage kv (StateTopic i) b w)
         = (shadow_reported content w)(i \<mapsto> normR r) \<and>
       shadow_config content (Reconciler_onMessage kv (StateTopic i) b w) = shadow_config content w) \<and>
    ((\<forall>i. topic = StateTopic i \<longrightarrow> CHR ''/'' \<in> set i) \<or> (\<exists>e. unmarshal_Reported b = Inl e) \<longrightarrow>
       Reconciler_onMessage kv topic b w = w)"
  using kv_bucket.on_state_message [OF assms] kv_bucket.ignored_message [OF assms] by blast

theorem reconciler_records_report_witness:
  "Reconciler_onMessage memkv_ops ''sensegrid/v1/d1/state'' None sampleWorld = sampleWorld"
  using reconciler_records_report [OF mem.kv_bucket_axioms, of "''d1''" None zeroReported sampleWorld sampleWorld
      "''sensegrid/v1/d1/state''"]
  by (simp add: unmarshal_Reported_def Unmarshal_def)

text \<open>Arrival order matters. If the report of an older revision reaches the reconciler after the report
  of the current one, the device is shown as drifted although it applied the current configuration.\<close>

theorem late_report_shows_drift:
  assumes "kv_bucket kv content" and "CHR ''/'' \<notin> set i"
    and "unmarshal_Reported b1 = Inr new" and "unmarshal_Reported b2 = Inr old"
    and "PutReported kv i new w = (None, w1)"
    and "PutReported kv i old (Reconciler_onMessage kv (StateTopic i) b1 w) = (None, w2)"
    and "r_AppliedRevision old \<noteq> r_AppliedRevision new"
  shows "Drift (r_AppliedRevision new)
    (shadow_reported content (Reconciler_onMessage kv (StateTopic i) b2
       (Reconciler_onMessage kv (StateTopic i) b1 w)) i) now stale"
  using kv_bucket.on_state_message(1) [OF assms(1,2,4,6)] assms(7) by (simp add: Drift_def normR_def)

definition reportAt :: "u64 \<Rightarrow> json" where
  "reportAt rv = JObject [(''applied_revision'', enc_uint64 rv)]"

lemma unmarshal_reportAt: "unmarshal_Reported (Some (reportAt rv)) = Inr (zeroReported\<lparr>r_AppliedRevision := rv\<rparr>)"
  by (simp add: unmarshal_Reported_def Unmarshal_def reportAt_def set_Reported_def field_def)

theorem late_report_shows_drift_witness:
  "Drift 2 (shadow_reported mem_content
     (Reconciler_onMessage memkv_ops (StateTopic ''d1'') (Some (reportAt 1))
       (Reconciler_onMessage memkv_ops (StateTopic ''d1'') (Some (reportAt 2)) sampleWorld)) ''d1'') 0 (30 * second)"
proof -
  have topic: "DeviceIDFromStateTopic (StateTopic ''d1'') = (''d1'', True)"
    by (simp add: DeviceIDFromStateTopic_def StateTopic_def)
  have 1: "PutReported memkv_ops ''d1'' (zeroReported\<lparr>r_AppliedRevision := 2\<rparr>) sampleWorld
      = (None, snd (PutReported memkv_ops ''d1'' (zeroReported\<lparr>r_AppliedRevision := 2\<rparr>) sampleWorld))"
    by (simp add: PutReported_def memkv_ops_def memPut_def audit_def world_defs sql_insert_history_def sample_defs Let_def)
  let ?w = "Reconciler_onMessage memkv_ops (StateTopic ''d1'') (Some (reportAt 2)) sampleWorld"
  have 2: "PutReported memkv_ops ''d1'' (zeroReported\<lparr>r_AppliedRevision := 1\<rparr>) ?w
      = (None, snd (PutReported memkv_ops ''d1'' (zeroReported\<lparr>r_AppliedRevision := 1\<rparr>) ?w))"
    by (simp add: Reconciler_onMessage_def topic unmarshal_reportAt PutReported_def memkv_ops_def memPut_def mem_store_def
        audit_def world_defs sql_insert_history_def sample_defs UpdateLastSeen_def sql_update_last_seen_def Let_def)
  show ?thesis
    using late_report_shows_drift [OF mem.kv_bucket_axioms _ unmarshal_reportAt unmarshal_reportAt 1 2]
    by (simp add: zeroReported_def)
qed

end
