(* ===== verification/AgentConfig.thy ===== *)
theory AgentConfig
  imports Shadow
begin

text \<open>
  The device side of the configuration protocol: how an edge client resolves a desired configuration into
  the one it runs and reports back, \<^verbatim>\<open>cmd/hostagent/config.go\<close> with the config handler of
  \<^verbatim>\<open>cmd/hostagent/main.go\<close>, and the same code in \<^verbatim>\<open>cmd/fleet/device.go\<close>. The two clients
  differ in the sensors they know: the common text is written once with that set as an argument, and each
  client has its own instance.

  A conversion of a float out of range to \<^verbatim>\<open>int\<close> is left to the implementation by Go; here it has the
  value it has on amd64. The order in which a report lists the enabled sensors is that of the list (in Go it
  is random). Error texts are the parameter \<open>etext\<close>.
\<close>

section \<open>Applied configuration\<close>

definition float_to_int :: "real \<Rightarrow> int" where
  "float_to_int x =
     (let i = (if 0 \<le> x then \<lfloor>x\<rfloor> else \<lceil>x\<rceil>) in if - (2 ^ 63) \<le> i \<and> i < 2 ^ 63 then i else - (2 ^ 63))"

record appliedConfig =
  ac_desired :: Desired
  ac_sampleIntervalMS :: int
  ac_enabledSensors :: "string list"
  ac_batchSize :: int
  ac_flushIntervalMS :: int
  ac_mode :: string

definition defaultAppliedConfig :: "int \<Rightarrow> appliedConfig" where
  "defaultAppliedConfig sampleIntervalMS =
     \<lparr>ac_desired = zeroDesired\<lparr>d_SchemaVersion := shadow_SchemaVersion\<rparr>, ac_sampleIntervalMS = sampleIntervalMS,
      ac_enabledSensors = [], ac_batchSize = 0, ac_flushIntervalMS = 0, ac_mode = ReportingContinuous\<rparr>"

datatype config_error =
    SampleRateNotPositive real
  | EnabledSensorsEmpty
  | UnknownSensor string
  | BatchSizeTooSmall int
  | FlushIntervalNegative int
  | UnknownReportingMode string
  | BatchedNeedsTrigger

definition andThen :: "'e + 'a \<Rightarrow> ('a \<Rightarrow> 'e + 'b) \<Rightarrow> 'e + 'b" where
  "andThen x f = (case x of Inl e \<Rightarrow> Inl e | Inr a \<Rightarrow> f a)"

definition applyRate :: "Desired \<Rightarrow> appliedConfig \<Rightarrow> config_error + appliedConfig" where
  "applyRate d c =
     (case d_SampleRateHz d of
        None \<Rightarrow> Inr c
      | Some hz \<Rightarrow>
          if hz \<le> 0 then Inl (SampleRateNotPositive hz)
          else (let ms = float_to_int (1000 / hz) in Inr (c\<lparr>ac_sampleIntervalMS := if ms < 1 then 1 else ms\<rparr>)))"

fun checkSensors :: "string list \<Rightarrow> string list \<Rightarrow> config_error option" where
  "checkSensors known [] = None"
| "checkSensors known (s # ss) = (if s \<notin> set known then Some (UnknownSensor s) else checkSensors known ss)"

definition applySensors :: "string list \<Rightarrow> Desired \<Rightarrow> appliedConfig \<Rightarrow> config_error + appliedConfig" where
  "applySensors known d c =
     (case d_EnabledSensors d of
        None \<Rightarrow> Inr c
      | Some ss \<Rightarrow>
          if ss = [] then Inl EnabledSensorsEmpty
          else (case checkSensors known ss of
                  Some e \<Rightarrow> Inl e | None \<Rightarrow> Inr (c\<lparr>ac_enabledSensors := remdups ss\<rparr>)))"

definition applyBatch :: "Desired \<Rightarrow> appliedConfig \<Rightarrow> config_error + appliedConfig" where
  "applyBatch d c =
     (case d_BatchSize d of
        None \<Rightarrow> Inr c | Some n \<Rightarrow> if n < 1 then Inl (BatchSizeTooSmall n) else Inr (c\<lparr>ac_batchSize := n\<rparr>))"

definition applyFlush :: "Desired \<Rightarrow> appliedConfig \<Rightarrow> config_error + appliedConfig" where
  "applyFlush d c =
     (case d_FlushIntervalMS d of
        None \<Rightarrow> Inr c | Some n \<Rightarrow> if n < 0 then Inl (FlushIntervalNegative n) else Inr (c\<lparr>ac_flushIntervalMS := n\<rparr>))"

definition applyMode :: "Desired \<Rightarrow> appliedConfig \<Rightarrow> config_error + appliedConfig" where
  "applyMode d c =
     (case d_ReportingMode d of
        None \<Rightarrow> Inr c
      | Some m \<Rightarrow> if m = ReportingContinuous \<or> m = ReportingBatched then Inr (c\<lparr>ac_mode := m\<rparr>)
                 else Inl (UnknownReportingMode m))"

definition checkTrigger :: "appliedConfig \<Rightarrow> config_error + appliedConfig" where
  "checkTrigger c =
     (if ac_mode c = ReportingBatched \<and> ac_batchSize c = 0 \<and> ac_flushIntervalMS c = 0 then Inl BatchedNeedsTrigger else Inr c)"

definition applyPartialWith :: "string list \<Rightarrow> appliedConfig \<Rightarrow> Desired \<Rightarrow> config_error + appliedConfig" where
  "applyPartialWith known current d =
     andThen (applyRate d (current\<lparr>ac_desired := d\<rparr>)) (\<lambda>c.
     andThen (applySensors known d c) (\<lambda>c.
     andThen (applyBatch d c) (\<lambda>c.
     andThen (applyFlush d c) (\<lambda>c.
     andThen (applyMode d c) checkTrigger))))"

definition hostagentSensors :: "string list" where
  "hostagentSensors = [''cpu'', ''cpu_temp'', ''mem'', ''battery'', ''wifi_signal'']"

definition fleetSensors :: "string list" where
  "fleetSensors = [''temperature'', ''humidity'', ''accel'']"

definition hostagent_applyPartial :: "appliedConfig \<Rightarrow> Desired \<Rightarrow> config_error + appliedConfig" where
  "hostagent_applyPartial = applyPartialWith hostagentSensors"

definition fleet_applyPartial :: "appliedConfig \<Rightarrow> Desired \<Rightarrow> config_error + appliedConfig" where
  "fleet_applyPartial = applyPartialWith fleetSensors"

definition sensorEnabled :: "appliedConfig \<Rightarrow> string \<Rightarrow> bool" where
  "sensorEnabled c sensorType = (if ac_enabledSensors c = [] then True else sensorType \<in> set (ac_enabledSensors c))"

definition nonZeroIntPtr :: "int \<Rightarrow> int option" where
  "nonZeroIntPtr v = (if v = 0 then None else Some v)"

definition toReported :: "appliedConfig \<Rightarrow> Reported" where
  "toReported c = zeroReported\<lparr>r_SchemaVersion := shadow_SchemaVersion, r_AppliedRevision := d_Revision (ac_desired c),
     r_SampleRateHz := Some (1000 / real_of_int (ac_sampleIntervalMS c)),
     r_EnabledSensors := (if ac_enabledSensors c = [] then None else Some (ac_enabledSensors c)),
     r_BatchSize := nonZeroIntPtr (ac_batchSize c), r_FlushIntervalMS := nonZeroIntPtr (ac_flushIntervalMS c),
     r_ReportingMode := Some (ac_mode c)\<rparr>"

definition toRejectedReported :: "appliedConfig \<Rightarrow> u64 \<Rightarrow> string \<Rightarrow> Reported" where
  "toRejectedReported c rejectedRevision reason =
     (toReported c)\<lparr>r_Rejected := True, r_RejectedRevision := rejectedRevision, r_RejectReason := reason\<rparr>"

section \<open>Config messages\<close>

text \<open>The report as it goes to the broker, at time \<open>now\<close>.\<close>

definition publishReportedValue :: "string \<Rightarrow> time \<Rightarrow> Reported \<Rightarrow> string \<times> mqtt_msg" where
  "publishReportedValue deviceID now rep =
     (StateTopic deviceID, \<lparr>m_qos = 0, m_retained = False, m_payload = marshal_Reported (rep\<lparr>r_ReportedAtMS := UnixMilli now\<rparr>)\<rparr>)"

text \<open>The handler's effect: the new configuration if one was stored, and the report it publishes.\<close>

definition configHandlerWith :: "string list \<Rightarrow> (config_error \<Rightarrow> string) \<Rightarrow> string \<Rightarrow> time \<Rightarrow> body \<Rightarrow> appliedConfig
    \<Rightarrow> appliedConfig option \<times> (string \<times> mqtt_msg) list" where
  "configHandlerWith known etext deviceID now payload current =
     (case unmarshal_Desired payload of
        Inl err \<Rightarrow> (None, [])
      | Inr d \<Rightarrow>
          (case applyPartialWith known current d of
             Inl err \<Rightarrow> (None, [publishReportedValue deviceID now (toRejectedReported current (d_Revision d) (etext err))])
           | Inr next \<Rightarrow> (Some next, [publishReportedValue deviceID now (toReported next)])))"

text \<open>In hostagent the new interval is also offered to the sampling loop through a channel with room for one
  value: it is dropped when the channel is full.\<close>

definition hostagent_configHandler :: "(config_error \<Rightarrow> string) \<Rightarrow> string \<Rightarrow> time \<Rightarrow> body
    \<Rightarrow> appliedConfig \<times> int option \<Rightarrow> (appliedConfig \<times> int option) \<times> (string \<times> mqtt_msg) list" where
  "hostagent_configHandler etext deviceID now payload s =
     (let (cfgState, intervalChanged) = s in
      case configHandlerWith hostagentSensors etext deviceID now payload cfgState of
        (None, out) \<Rightarrow> (s, out)
      | (Some next, out) \<Rightarrow>
          ((next, case intervalChanged of None \<Rightarrow> Some (ac_sampleIntervalMS next) | Some ms \<Rightarrow> Some ms), out))"

definition fleet_configHandler :: "(config_error \<Rightarrow> string) \<Rightarrow> string \<Rightarrow> time \<Rightarrow> body \<Rightarrow> appliedConfig
    \<Rightarrow> appliedConfig \<times> (string \<times> mqtt_msg) list" where
  "fleet_configHandler etext deviceID now payload cfgState =
     (case configHandlerWith fleetSensors etext deviceID now payload cfgState of
        (None, out) \<Rightarrow> (cfgState, out) | (Some next, out) \<Rightarrow> (next, out))"

section \<open>Invariant\<close>

definition config_ok :: "string list \<Rightarrow> appliedConfig \<Rightarrow> bool" where
  "config_ok known c \<longleftrightarrow> 1 \<le> ac_sampleIntervalMS c \<and> int64_ok (ac_sampleIntervalMS c) \<and> set (ac_enabledSensors c) \<subseteq> set known \<and>
     0 \<le> ac_batchSize c \<and> int64_ok (ac_batchSize c) \<and> 0 \<le> ac_flushIntervalMS c \<and> int64_ok (ac_flushIntervalMS c) \<and>
     (ac_mode c = ReportingContinuous \<or> ac_mode c = ReportingBatched \<and> (ac_batchSize c \<noteq> 0 \<or> ac_flushIntervalMS c \<noteq> 0))"

lemma andThen_Inr: "andThen x f = Inr b \<longleftrightarrow> (\<exists>a. x = Inr a \<and> f a = Inr b)"
  by (auto simp: andThen_def split: sum.splits)

lemma checkSensors_None: "checkSensors known ss = None \<longleftrightarrow> set ss \<subseteq> set known"
  by (induction ss) auto

lemma float_to_int_ok [simp]: "int64_ok (float_to_int x)"
  by (simp add: float_to_int_def Let_def int64_ok_def)

lemma int64_ok_small [simp]: "int64_ok 0" "int64_ok 1"
  by (simp_all add: int64_ok_def)

text \<open>Each step, as a condition on the field and an update of it.\<close>

definition keep :: "'a \<Rightarrow> 'a option \<Rightarrow> 'a" where
  "keep v x = (case x of None \<Rightarrow> v | Some y \<Rightarrow> y)"

lemma keep_simps [simp]: "keep v None = v" "keep v (Some y) = y"
  by (simp_all add: keep_def)

lemma applyRate_Inr:
  "applyRate d c = Inr c' \<longleftrightarrow> (\<forall>hz. d_SampleRateHz d = Some hz \<longrightarrow> hz > 0) \<and> c' = c\<lparr>ac_sampleIntervalMS :=
     keep (ac_sampleIntervalMS c) (map_option (\<lambda>hz. max 1 (float_to_int (1000 / hz))) (d_SampleRateHz d))\<rparr>"
  by (auto simp: applyRate_def Let_def max_def split: option.splits)

lemma applySensors_Inr:
  "applySensors known d c = Inr c' \<longleftrightarrow> (\<forall>ss. d_EnabledSensors d = Some ss \<longrightarrow> ss \<noteq> [] \<and> set ss \<subseteq> set known) \<and>
     c' = c\<lparr>ac_enabledSensors := keep (ac_enabledSensors c) (map_option remdups (d_EnabledSensors d))\<rparr>"
  by (auto simp: applySensors_def checkSensors_None [symmetric] split: option.splits)

lemma applyBatch_Inr:
  "applyBatch d c = Inr c' \<longleftrightarrow> (\<forall>n. d_BatchSize d = Some n \<longrightarrow> n \<ge> 1) \<and>
     c' = c\<lparr>ac_batchSize := keep (ac_batchSize c) (d_BatchSize d)\<rparr>"
  by (auto simp: applyBatch_def split: option.splits)

lemma applyFlush_Inr:
  "applyFlush d c = Inr c' \<longleftrightarrow> (\<forall>n. d_FlushIntervalMS d = Some n \<longrightarrow> n \<ge> 0) \<and>
     c' = c\<lparr>ac_flushIntervalMS := keep (ac_flushIntervalMS c) (d_FlushIntervalMS d)\<rparr>"
  by (auto simp: applyFlush_def split: option.splits)

lemma applyMode_Inr:
  "applyMode d c = Inr c' \<longleftrightarrow> (\<forall>m. d_ReportingMode d = Some m \<longrightarrow> m = ReportingContinuous \<or> m = ReportingBatched) \<and>
     c' = c\<lparr>ac_mode := keep (ac_mode c) (d_ReportingMode d)\<rparr>"
  by (auto simp: applyMode_def split: option.splits)

lemma checkTrigger_Inr:
  "checkTrigger c = Inr c' \<longleftrightarrow> c' = c \<and> \<not> (ac_mode c = ReportingBatched \<and> ac_batchSize c = 0 \<and> ac_flushIntervalMS c = 0)"
  by (auto simp: checkTrigger_def)

lemmas apply_steps = applyRate_Inr applySensors_Inr applyBatch_Inr applyFlush_Inr applyMode_Inr checkTrigger_Inr

text \<open>The update as a whole: a field that is not mentioned keeps its value.\<close>

definition merged :: "appliedConfig \<Rightarrow> Desired \<Rightarrow> appliedConfig" where
  "merged c d = \<lparr>ac_desired = d,
     ac_sampleIntervalMS = keep (ac_sampleIntervalMS c) (map_option (\<lambda>hz. max 1 (float_to_int (1000 / hz))) (d_SampleRateHz d)),
     ac_enabledSensors = keep (ac_enabledSensors c) (map_option remdups (d_EnabledSensors d)),
     ac_batchSize = keep (ac_batchSize c) (d_BatchSize d),
     ac_flushIntervalMS = keep (ac_flushIntervalMS c) (d_FlushIntervalMS d),
     ac_mode = keep (ac_mode c) (d_ReportingMode d)\<rparr>"

definition acceptable :: "string list \<Rightarrow> Desired \<Rightarrow> appliedConfig \<Rightarrow> bool" where
  "acceptable known d c' \<longleftrightarrow> (\<forall>hz. d_SampleRateHz d = Some hz \<longrightarrow> hz > 0) \<and>
    (\<forall>ss. d_EnabledSensors d = Some ss \<longrightarrow> ss \<noteq> [] \<and> set ss \<subseteq> set known) \<and>
    (\<forall>n. d_BatchSize d = Some n \<longrightarrow> n \<ge> 1) \<and> (\<forall>n. d_FlushIntervalMS d = Some n \<longrightarrow> n \<ge> 0) \<and>
    (\<forall>m. d_ReportingMode d = Some m \<longrightarrow> m = ReportingContinuous \<or> m = ReportingBatched) \<and>
    \<not> (ac_mode c' = ReportingBatched \<and> ac_batchSize c' = 0 \<and> ac_flushIntervalMS c' = 0)"

lemma applyPartial_Inr:
  "applyPartialWith known c d = Inr c' \<longleftrightarrow> c' = merged c d \<and> acceptable known d c'"
proof -
  have "applyPartialWith known c d = Inr c' \<longleftrightarrow> (\<exists>a1 a2 a3 a4 a5. applyRate d (c\<lparr>ac_desired := d\<rparr>) = Inr a1 \<and> applySensors known d a1 = Inr a2 \<and>
      applyBatch d a2 = Inr a3 \<and> applyFlush d a3 = Inr a4 \<and> applyMode d a4 = Inr a5 \<and> checkTrigger a5 = Inr c')"
    unfolding applyPartialWith_def andThen_Inr by blast
  also have "\<dots> \<longleftrightarrow> c' = merged c d \<and> acceptable known d c'"
    unfolding apply_steps acceptable_def merged_def by (cases c) auto
  finally show ?thesis .
qed

lemma applyPartial_ok:
  assumes "config_ok known c" and "desired_ok d" and "applyPartialWith known c d = Inr c'"
  shows "config_ok known c'"
proof -
  have "int64_ok (max 1 (float_to_int x))" for x by (simp add: max_def)
  then show ?thesis
    using assms(3) assms(1,2) unfolding applyPartial_Inr
    by (auto simp: config_ok_def desired_ok_def merged_def acceptable_def keep_def split: option.splits)
qed

section \<open>The loop through broker and store\<close>

lemma toReported_ok: "config_ok known c \<Longrightarrow> int64_ok t \<Longrightarrow> reported_ok ((toReported c)\<lparr>r_ReportedAtMS := t\<rparr>)"
  by (simp add: reported_ok_def toReported_def zeroReported_def config_ok_def nonZeroIntPtr_def)

lemma toRejected_ok:
  "config_ok known c \<Longrightarrow> int64_ok t \<Longrightarrow> reported_ok ((toRejectedReported c rv reason)\<lparr>r_ReportedAtMS := t\<rparr>)"
  by (simp add: reported_ok_def toRejectedReported_def toReported_def zeroReported_def config_ok_def nonZeroIntPtr_def)

lemma UnixMilli_ok: "0 \<le> t \<Longrightarrow> t < 2 ^ 63 \<Longrightarrow> int64_ok (UnixMilli t)"
  by (auto simp: int64_ok_def UnixMilli_def)

context kv_bucket
begin

lemma reconcile_report:
  assumes "CHR ''/'' \<notin> set i" and "reported_ok r" and "\<forall>r. fst (PutReported kv i r w) = None"
  shows "shadow_reported content (Reconciler_onMessage kv (StateTopic i) (Some (marshal_Reported r)) w) i = Some (normR r)"
    and "shadow_revision content (Reconciler_onMessage kv (StateTopic i) (Some (marshal_Reported r)) w) i = shadow_revision content w i"
proof -
  define r' where "r' = r\<lparr>r_EnabledSensors := drop_empty (r_EnabledSensors r)\<rparr>"
  have dec: "unmarshal_Reported (Some (marshal_Reported r)) = Inr r'" unfolding r'_def using assms(2) by (rule Reported_roundtrip)
  obtain w' where put: "PutReported kv i r' w = (None, w')" using assms(3) by (metis prod.collapse)
  show "shadow_reported content (Reconciler_onMessage kv (StateTopic i) (Some (marshal_Reported r)) w) i = Some (normR r)"
    using on_state_message(1) [OF assms(1) dec put] by (simp add: normR_def r'_def drop_empty_def)
  obtain rv where "kv_Put kv (reportedKey i)
      (Some (marshal_Reported (r'\<lparr>r_SchemaVersion := shadow_SchemaVersion\<rparr>))) (w_kv w) = (Inr rv, w_kv w')"
    using PutReported_kv [OF put] ..
  from put_ok [OF this] have "content (w_kv w') (desiredKey i) = content (w_kv w) (desiredKey i)" by simp
  moreover have "DeviceIDFromStateTopic (StateTopic i) = (i, True)"
    using splitOn_topic [of i "''state''"] assms(1) by (simp add: DeviceIDFromStateTopic_def StateTopic_def numeral_eq_Suc)
  then have "w_kv (Reconciler_onMessage kv (StateTopic i) (Some (marshal_Reported r)) w) = w_kv w'"
    using dec put by (simp add: Reconciler_onMessage_def world_defs split: prod.splits)
  ultimately show "shadow_revision content (Reconciler_onMessage kv (StateTopic i) (Some (marshal_Reported r)) w) i = shadow_revision content w i"
    by (simp add: shadow_revision_def)
qed

lemma set_desired_sent:
  assumes "desired_ok d" and "SetDesired kv i d w = (Inr p, w1)"
  shows "unmarshal_Desired (Some (marshal_Desired p)) = Inr (p\<lparr>d_EnabledSensors := drop_empty (d_EnabledSensors p)\<rparr>)" and "desired_ok p"
  using shadow.set_ok [OF assms] Desired_roundtrip by auto

end

section \<open>Properties\<close>

text \<open>C16: the configuration loop closes. When a desired configuration was set and published and the device's
  handler gets the published message, then, if no newer configuration was set and the reconciler can store the
  device's answer: a device that accepts the configuration shows as in sync for as long as its report is fresh,
  and for a device that refuses it the store has a rejection of exactly that revision, which is what a rollout counts.\<close>

theorem config_loop_closes:
  assumes bucket: "kv_bucket kv content" and d: "desired_ok d" and i: "CHR ''/'' \<notin> set i" and c: "config_ok known c"
    and set: "SetDesired kv i d w = (Inr p, w1)" and pub: "PublishDesired i p w1 = (None, w2)"
    and t: "0 \<le> t" "t < 2 ^ 63" and handled: "configHandlerWith known etext i t (Some (marshal_Desired p)) c = (res, out)"
    and later: "shadow_revision content w3 i = d_Revision p" and put: "\<forall>r. fst (PutReported kv i r w3) = None"
    and fresh: "time_sub now (time_UnixMilli (UnixMilli t)) \<le> staleAfter"
  shows "last (bus_sent (w_mqtt w2)) = (ConfigTopic i, \<lparr>m_qos = 1, m_retained = True, m_payload = marshal_Desired p\<rparr>) \<and>
    (\<exists>m. out = [(StateTopic i, m)] \<and>
      (let w5 = Reconciler_onMessage kv (StateTopic i) (Some (m_payload m)) w3 in
       case res of
         Some c' \<Rightarrow> \<not> Drift (shadow_revision content w5 i) (shadow_reported content w5 i) now staleAfter
       | None \<Rightarrow> \<exists>r. shadow_reported content w5 i = Some r \<and> r_Rejected r \<and> r_RejectedRevision r = d_Revision p))"
proof -
  have sent: "last (bus_sent (w_mqtt w2)) = (ConfigTopic i, \<lparr>m_qos = 1, m_retained = True, m_payload = marshal_Desired p\<rparr>)"
    using pub by (auto simp: PublishDesired_def world_defs dest!: bus_publish_ok split: prod.splits option.splits)
  define p' where "p' = p\<lparr>d_EnabledSensors := drop_empty (d_EnabledSensors p)\<rparr>"
  have dec: "unmarshal_Desired (Some (marshal_Desired p)) = Inr p'" and ok: "desired_ok p'"
    using kv_bucket.set_desired_sent [OF bucket d set] by (simp_all add: p'_def)
  have rv: "d_Revision p' = d_Revision p" by (simp add: p'_def)
  note ms = UnixMilli_ok [OF t]
  show ?thesis
  proof (cases "applyPartialWith known c p'")
    case (Inl err)
    let ?r = "(toRejectedReported c (d_Revision p') (etext err))\<lparr>r_ReportedAtMS := UnixMilli t\<rparr>"
    from Inl dec handled have "res = None" "out = [publishReportedValue i t (toRejectedReported c (d_Revision p') (etext err))]"
      by (simp_all add: configHandlerWith_def)
    then show ?thesis
      using sent kv_bucket.reconcile_report(1) [OF bucket i toRejected_ok [OF c ms] put]
      by (simp add: publishReportedValue_def Let_def normR_def toRejectedReported_def rv)
  next
    case (Inr c')
    from Inr dec handled have "res = Some c'" "out = [publishReportedValue i t (toReported c')]"
      by (simp_all add: configHandlerWith_def)
    moreover have d': "d_Revision (ac_desired c') = d_Revision p" using Inr rv by (auto simp: applyPartial_Inr merged_def)
    define r where "r = (toReported c')\<lparr>r_ReportedAtMS := UnixMilli t\<rparr>"
    have "reported_ok r" unfolding r_def using applyPartial_ok [OF c ok Inr] ms by (rule toReported_ok)
    note stored = kv_bucket.reconcile_report [OF bucket i this put]
    have "r_AppliedRevision (normR r) = d_Revision p" "r_ReportedAtMS (normR r) = UnixMilli t" "\<not> r_Rejected (normR r)"
      using d' by (simp_all add: r_def normR_def toReported_def zeroReported_def)
    ultimately show ?thesis
      using sent later fresh stored
      by (simp add: publishReportedValue_def r_def [symmetric] Drift_def Let_def not_less)
  qed
qed

lemma default_config_ok: "1 \<le> ms \<Longrightarrow> int64_ok ms \<Longrightarrow> config_ok known (defaultAppliedConfig ms)"
  by (simp add: config_ok_def defaultAppliedConfig_def)

definition sampleSent :: Desired where
  "sampleSent = sampleDesired\<lparr>d_SchemaVersion := ''1.0'', d_Revision := 1\<rparr>"

definition sampleServed :: "memkv world" where
  "sampleServed = snd (PublishDesired ''d1'' sampleSent (snd (SetDesired memkv_ops ''d1'' sampleDesired sampleWorld)))"

lemmas served_defs = sampleServed_def PublishDesired_def bus_publish_def SetDesired_def memkv_ops_def memPut_def audit_def world_defs
  sql_insert_history_def sample_defs Let_def

theorem config_loop_closes_witness:
  "\<exists>m. snd (configHandlerWith hostagentSensors (\<lambda>_. ''refused'') ''d1'' 0 (Some (marshal_Desired sampleSent)) (defaultAppliedConfig 5000))
       = [(StateTopic ''d1'', m)] \<and>
     (let w5 = Reconciler_onMessage memkv_ops (StateTopic ''d1'') (Some (m_payload m)) sampleServed in
      \<not> Drift (shadow_revision mem_content w5 ''d1'') (shadow_reported mem_content w5 ''d1'') 0 (30 * second))"
proof -
  have d: "desired_ok sampleDesired" by (simp add: sampleDesired_def desired_ok_def zeroDesired_def)
  note set = sampleSet [folded sampleSent_def]
  have pub: "PublishDesired ''d1'' sampleSent (snd (SetDesired memkv_ops ''d1'' sampleDesired sampleWorld)) = (None, sampleServed)"
    by (simp add: served_defs)
  have rev: "shadow_revision mem_content sampleServed ''d1'' = d_Revision sampleSent"
    by (simp add: served_defs shadow_revision_def mem_content_def mem_store_def sampleSent_def)
  have put: "\<forall>r. fst (PutReported memkv_ops ''d1'' r sampleServed) = None"
    by (simp add: PutReported_def served_defs mem_store_def)
  have accepted: "applyPartialWith hostagentSensors (defaultAppliedConfig 5000) (sampleSent\<lparr>d_EnabledSensors := drop_empty (d_EnabledSensors sampleSent)\<rparr>)
      = Inr (merged (defaultAppliedConfig 5000) sampleSent)"
    by (simp add: applyPartial_Inr acceptable_def sampleSent_def sampleDesired_def zeroDesired_def merged_def defaultAppliedConfig_def
        drop_empty_def ReportingContinuous_def ReportingBatched_def)
  have "unmarshal_Desired (Some (marshal_Desired sampleSent)) = Inr (sampleSent\<lparr>d_EnabledSensors := drop_empty (d_EnabledSensors sampleSent)\<rparr>)"
    using kv_bucket.set_desired_sent(1) [OF mem.kv_bucket_axioms d set] .
  then obtain c' out where h: "configHandlerWith hostagentSensors (\<lambda>_. ''refused'') ''d1'' 0 (Some (marshal_Desired sampleSent)) (defaultAppliedConfig 5000)
      = (Some c', out)"
    using accepted by (simp add: configHandlerWith_def)
  have "config_ok hostagentSensors (defaultAppliedConfig 5000)" by (rule default_config_ok) (simp_all add: int64_ok_def)
  then show ?thesis
    using config_loop_closes [OF mem.kv_bucket_axioms d _ _ set pub _ _ h rev put, of 0 "30 * second"] h
    by (simp add: UnixMilli_def time_UnixMilli_def time_sub_def)
qed

text \<open>An update merges. A client accepts a desired configuration exactly when every field it mentions is valid
  for its sensors and batched reporting has a trigger; it then runs the merge of what it ran with the fields
  mentioned, keeps every other field, and stays well formed; what it refuses changes nothing.\<close>

theorem apply_partial_exact:
  "(hostagent_applyPartial c d = Inr c' \<longleftrightarrow> c' = merged c d \<and> acceptable hostagentSensors d c') \<and>
   (fleet_applyPartial c d = Inr c' \<longleftrightarrow> c' = merged c d \<and> acceptable fleetSensors d c') \<and>
   (config_ok hostagentSensors c \<and> desired_ok d \<and> hostagent_applyPartial c d = Inr c' \<longrightarrow> config_ok hostagentSensors c') \<and>
   fst (fst (hostagent_configHandler etext i t b (c, ch))) =
     (case unmarshal_Desired b of Inl _ \<Rightarrow> c
      | Inr d \<Rightarrow> (if acceptable hostagentSensors d (merged c d) then merged c d else c))"
proof -
  have "fst (fst (hostagent_configHandler etext i t b (c, ch))) =
     (case unmarshal_Desired b of Inl _ \<Rightarrow> c
      | Inr d \<Rightarrow> (if acceptable hostagentSensors d (merged c d) then merged c d else c))"
  proof (cases "unmarshal_Desired b")
    case (Inr d)
    show ?thesis
    proof (cases "acceptable hostagentSensors d (merged c d)")
      case True
      then have "applyPartialWith hostagentSensors c d = Inr (merged c d)" by (simp add: applyPartial_Inr)
      with Inr True show ?thesis by (simp add: hostagent_configHandler_def configHandlerWith_def)
    next
      case False
      then have "\<forall>c'. applyPartialWith hostagentSensors c d \<noteq> Inr c'" by (auto simp: applyPartial_Inr)
      then obtain e where "applyPartialWith hostagentSensors c d = Inl e" by (cases "applyPartialWith hostagentSensors c d") auto
      with Inr False show ?thesis by (simp add: hostagent_configHandler_def configHandlerWith_def)
    qed
  qed (simp add: hostagent_configHandler_def configHandlerWith_def)
  then show ?thesis by (auto simp: hostagent_applyPartial_def fleet_applyPartial_def applyPartial_Inr intro: applyPartial_ok)
qed

theorem apply_partial_exact_witness:
  "config_ok hostagentSensors (merged (defaultAppliedConfig 5000) sampleDesired)"
proof -
  have "config_ok hostagentSensors (defaultAppliedConfig 5000)" by (rule default_config_ok) (simp_all add: int64_ok_def)
  moreover have "desired_ok sampleDesired" by (simp add: sampleDesired_def desired_ok_def zeroDesired_def)
  moreover have "acceptable hostagentSensors sampleDesired (merged (defaultAppliedConfig 5000) sampleDesired)"
    by (simp add: acceptable_def sampleDesired_def zeroDesired_def merged_def defaultAppliedConfig_def ReportingContinuous_def ReportingBatched_def)
  ultimately show ?thesis
    using apply_partial_exact [of "defaultAppliedConfig 5000" sampleDesired "merged (defaultAppliedConfig 5000) sampleDesired"
        "\<lambda>_. ''refused''" "''d1''" 0 None None] by simp
qed

text \<open>A rollback by configuration is not a rollback of the device. If a rollout set the reporting mode and the
  configuration restored afterwards does not mention it, the device accepts the restored configuration, reports its
  revision as applied, and goes on in the rollout's mode.\<close>

theorem rollback_keeps_unmentioned:
  assumes "hostagent_applyPartial c0 d1 = Inr c1" and "d_ReportingMode d1 = Some m"
    and "hostagent_applyPartial c1 d0 = Inr c2" and "d_ReportingMode d0 = None"
  shows "ac_mode c2 = m \<and> r_AppliedRevision (toReported c2) = d_Revision d0 \<and> r_ReportingMode (toReported c2) = Some m"
  using assms by (auto simp: hostagent_applyPartial_def applyPartial_Inr merged_def toReported_def zeroReported_def)

theorem rollback_keeps_unmentioned_witness:
  "\<exists>c0 c1 c2. hostagent_applyPartial (defaultAppliedConfig 5000) sampleDesired = Inr c0 \<and> ac_mode c0 = ReportingContinuous \<and>
     hostagent_applyPartial c0 (zeroDesired\<lparr>d_ReportingMode := Some ReportingBatched, d_BatchSize := Some 5\<rparr>) = Inr c1 \<and>
     hostagent_applyPartial c1 sampleDesired = Inr c2 \<and> ac_mode c2 = ReportingBatched"
proof -
  let ?d1 = "zeroDesired\<lparr>d_ReportingMode := Some ReportingBatched, d_BatchSize := Some 5\<rparr>"
  let ?c0 = "merged (defaultAppliedConfig 5000) sampleDesired"
  note defs = hostagent_applyPartial_def applyPartial_Inr acceptable_def merged_def sampleDesired_def zeroDesired_def
    defaultAppliedConfig_def ReportingContinuous_def ReportingBatched_def
  have 0: "hostagent_applyPartial (defaultAppliedConfig 5000) sampleDesired = Inr ?c0" by (simp add: defs)
  have 1: "hostagent_applyPartial ?c0 ?d1 = Inr (merged ?c0 ?d1)" by (simp add: defs)
  have 2: "hostagent_applyPartial (merged ?c0 ?d1) sampleDesired = Inr (merged (merged ?c0 ?d1) sampleDesired)" by (simp add: defs)
  have "ac_mode (merged (merged ?c0 ?d1) sampleDesired) = ReportingBatched"
    using rollback_keeps_unmentioned [OF 1 _ 2, of ReportingBatched] by (simp add: sampleDesired_def zeroDesired_def)
  moreover have "ac_mode ?c0 = ReportingContinuous" by (simp add: merged_def defaultAppliedConfig_def sampleDesired_def zeroDesired_def)
  ultimately show ?thesis using 0 1 2 by blast
qed

end
