(* ===== verification/Ingest.thy ===== *)
theory Ingest
  imports World Telemetry
begin

text \<open>
  The ingest bridge, \<^verbatim>\<open>cmd/ingest/handler.go\<close> and \<^verbatim>\<open>ratelimit.go\<close>: the MQTT
  callback that checks a device's message, sheds what exceeds the device's rate, stamps the rest with
  the time of receipt and publishes it to JetStream, and the dead-letter subject for what it refuses.

  A received message has its topic, its bytes and the JSON value they denote (\<open>None\<close> if they are
  not JSON). The handler returns whether it acknowledged the message; what becomes of one it did not is in the theory
  \<open>MqttClient\<close>. The counters are in the theory \<open>Metrics\<close>, the trace spans in \<open>Tracing\<close>; logs are not modelled.
  \<^verbatim>\<open>golang.org/x/time/rate\<close> is the parameter \<open>limops\<close>; the texts of error values and
  timestamps are the parameter \<open>texts\<close>.
\<close>

section \<open>Rate limiter\<close>

record 'l limops =
  rl_New :: "real \<Rightarrow> int \<Rightarrow> 'l"
  rl_Allow :: "time \<Rightarrow> 'l \<Rightarrow> bool \<times> 'l"

record 'l perDeviceLimiter =
  pl_limiters :: "string \<Rightarrow> 'l option"
  pl_r :: real
  pl_burst :: int

definition newPerDeviceLimiter :: "real \<Rightarrow> int \<Rightarrow> 'l perDeviceLimiter" where
  "newPerDeviceLimiter perSecond burst = \<lparr>pl_limiters = Map.empty, pl_r = perSecond, pl_burst = burst\<rparr>"

text \<open>\<open>now\<close> is the time \<^verbatim>\<open>lim.Allow\<close> reads.\<close>

definition Limiter_Allow :: "'l limops \<Rightarrow> string \<Rightarrow> time \<Rightarrow> 'l perDeviceLimiter \<Rightarrow> bool \<times> 'l perDeviceLimiter" where
  "Limiter_Allow ops deviceID now l =
     (let lm = (case pl_limiters l deviceID of None \<Rightarrow> rl_New ops (pl_r l) (pl_burst l) | Some lm \<Rightarrow> lm);
          (ok, lm') = rl_Allow ops now lm in
      (ok, l\<lparr>pl_limiters := (pl_limiters l)(deviceID \<mapsto> lm')\<rparr>))"

section \<open>Handler\<close>

record mqtt_in =
  mi_topic :: string
  mi_bytes :: string
  mi_json :: body

record texts =
  tx_json :: "json_error \<Rightarrow> string"
  tx_validate :: "validate_error \<Rightarrow> string"
  tx_time :: "time \<Rightarrow> string"

definition deviceIDFromTopic :: "string \<Rightarrow> string \<times> bool" where
  "deviceIDFromTopic topic =
     (let parts = splitOn (CHR ''/'') topic in
      if length parts \<noteq> 4 \<or> parts ! 0 \<noteq> ''sensegrid'' \<or> parts ! 1 \<noteq> ''v1'' \<or> parts ! 3 \<noteq> ''telemetry''
      then ([], False) else (parts ! 2, True))"

text \<open>\<^verbatim>\<open>json.Marshal\<close> writes the keys of a map in sorted order.\<close>

definition dlqRecord :: "texts \<Rightarrow> string \<Rightarrow> string \<Rightarrow> string \<Rightarrow> time \<Rightarrow> json" where
  "dlqRecord tx topic payload reason receivedAt =
     JObject [(''payload'', JString payload), (''reason'', JString reason),
              (''received_at'', JString (tx_time tx receivedAt)), (''topic'', JString topic)]"

definition publishDLQ :: "texts \<Rightarrow> string \<Rightarrow> string \<Rightarrow> string \<Rightarrow> 'kv world \<Rightarrow> 'kv world" where
  "publishDLQ tx topic payload reason w =
     (let (t, w1) = time_Now w in
      snd (on_js (bus_publish DLQSubject (dlqRecord tx topic payload reason t)) w1))"

definition handle :: "texts \<Rightarrow> (string \<Rightarrow> bool) \<Rightarrow> 'l limops \<Rightarrow> mqtt_in \<Rightarrow> 'l perDeviceLimiter \<Rightarrow> 'kv world
    \<Rightarrow> bool \<times> 'l perDeviceLimiter \<times> 'kv world" where
  "handle tx uuid_ok ops msg l w =
     (let (ingestTime, w1) = time_Now w; dlq = publishDLQ tx (mi_topic msg) (mi_bytes msg) in
      case deviceIDFromTopic (mi_topic msg) of
        (deviceID, False) \<Rightarrow> (True, l, dlq ''unrecognized topic'' w1)
      | (deviceID, True) \<Rightarrow>
      (case unmarshal_Reading (mi_json msg) of
         Inl err \<Rightarrow> (True, l, dlq (''invalid json: '' @ tx_json tx err) w1)
       | Inr reading \<Rightarrow>
      (case Validate uuid_ok reading of
         Some err \<Rightarrow> (True, l, dlq (''schema validation: '' @ tx_validate tx err) w1)
       | None \<Rightarrow>
      if rDeviceID reading \<noteq> deviceID then (True, l, dlq ''payload device_id does not match topic'' w1)
      else
        (let (now, w2) = time_Now w1; (allowed, l') = Limiter_Allow ops deviceID now l in
         if \<not> allowed then (True, l', w2)
         else
           (case on_js (bus_publish (JetStreamSubject deviceID)
                  (marshal_StampedReading \<lparr>srReading = reading, srIngestTimeMS = UnixMilli ingestTime\<rparr>)) w2 of
              (Some err, w3) \<Rightarrow> (False, l', w3)
            | (None, w3) \<Rightarrow> (True, l', w3))))))"

section \<open>Lemmas\<close>

lemma deviceIDFromTopic_iff:
  "deviceIDFromTopic t = (d, True) \<longleftrightarrow> t = TelemetryTopic d \<and> CHR ''/'' \<notin> set d"
proof
  assume "deviceIDFromTopic t = (d, True)"
  then have "length (splitOn (CHR ''/'') t) = 4" "splitOn (CHR ''/'') t ! 0 = ''sensegrid''"
    "splitOn (CHR ''/'') t ! 1 = ''v1''" "splitOn (CHR ''/'') t ! 3 = ''telemetry''"
    and "d = splitOn (CHR ''/'') t ! 2"
    by (auto simp: deviceIDFromTopic_def Let_def split: if_splits)
  with split_topic_inverse [of t "''telemetry''"]
  show "t = TelemetryTopic d \<and> CHR ''/'' \<notin> set d" by (simp add: TelemetryTopic_def)
next
  assume "t = TelemetryTopic d \<and> CHR ''/'' \<notin> set d"
  then have "splitOn (CHR ''/'') t = [''sensegrid'', ''v1'', d, ''telemetry'']"
    using splitOn_topic [of d "''telemetry''"] by (simp add: TelemetryTopic_def)
  then show "deviceIDFromTopic t = (d, True)"
    by (simp add: deviceIDFromTopic_def numeral_eq_Suc)
qed

lemma deviceIDFromTopic_False: "snd (deviceIDFromTopic t) = False \<Longrightarrow> deviceIDFromTopic t = ([], False)"
  by (auto simp: deviceIDFromTopic_def Let_def split: if_splits)

text \<open>The readings the handler lets through, and the reading as the processor will see it.\<close>

definition accepted :: "(string \<Rightarrow> bool) \<Rightarrow> mqtt_in \<Rightarrow> Reading option" where
  "accepted uuid_ok msg =
     (case unmarshal_Reading (mi_json msg) of
        Inl _ \<Rightarrow> None
      | Inr r \<Rightarrow> if deviceIDFromTopic (mi_topic msg) = (rDeviceID r, True) \<and> Validate uuid_ok r = None
                then Some r else None)"

lemma accepted_Some:
  "accepted uuid_ok msg = Some r \<longleftrightarrow>
     unmarshal_Reading (mi_json msg) = Inr r \<and> Validate uuid_ok r = None \<and>
     mi_topic msg = TelemetryTopic (rDeviceID r) \<and> CHR ''/'' \<notin> set (rDeviceID r)"
  by (auto simp: accepted_def deviceIDFromTopic_iff split: sum.splits if_splits)

lemma handle_accepted:
  assumes "accepted uuid_ok msg = Some r"
  shows "handle tx uuid_ok ops msg l w =
     (let (ingestTime, w1) = time_Now w; (now, w2) = time_Now w1;
          (allowed, l') = Limiter_Allow ops (rDeviceID r) now l in
      if \<not> allowed then (True, l', w2)
      else case on_js (bus_publish (JetStreamSubject (rDeviceID r))
                (marshal_StampedReading \<lparr>srReading = r, srIngestTimeMS = UnixMilli ingestTime\<rparr>)) w2 of
             (Some err, w3) \<Rightarrow> (False, l', w3) | (None, w3) \<Rightarrow> (True, l', w3))"
proof -
  have "deviceIDFromTopic (mi_topic msg) = (rDeviceID r, True)"
    using assms accepted_Some deviceIDFromTopic_iff by blast
  with assms show ?thesis
    by (auto simp: accepted_Some handle_def Let_def split: prod.splits option.splits)
qed

lemma handle_refused:
  assumes "accepted uuid_ok msg = None"
  shows "\<exists>reason w1. handle tx uuid_ok ops msg l w = (True, l, publishDLQ tx (mi_topic msg) (mi_bytes msg) reason w1) \<and>
     w1 = snd (time_Now w)"
proof -
  obtain t w1 where t: "time_Now w = (t, w1)" by (cases "time_Now w")
  obtain d b where d: "deviceIDFromTopic (mi_topic msg) = (d, b)" by (cases "deviceIDFromTopic (mi_topic msg)")
  consider "\<not> b" | err where "b" "unmarshal_Reading (mi_json msg) = Inl err"
    | r where "b" "unmarshal_Reading (mi_json msg) = Inr r" by (cases "unmarshal_Reading (mi_json msg)") auto
  then show ?thesis
  proof cases
    case (3 r)
    with assms d have "Validate uuid_ok r = None \<Longrightarrow> rDeviceID r \<noteq> d" by (auto simp: accepted_def)
    with 3 d show ?thesis by (cases "Validate uuid_ok r"; simp add: handle_def t Let_def; blast)
  next
    case (2 err)
    with d show ?thesis by (simp add: handle_def t Let_def) blast
  qed (use d in \<open>simp add: handle_def t Let_def, blast\<close>)
qed

text \<open>What \<^verbatim>\<open>Unmarshal\<close> yields satisfies the bounds of the Go types.\<close>

definition reading_ok :: "Reading \<Rightarrow> bool" where
  "reading_ok r \<longleftrightarrow> - (2 ^ 63) \<le> rDeviceTimeMS r \<and> rDeviceTimeMS r < 2 ^ 63 \<and>
     (\<forall>m. rValues r = Some m \<longrightarrow> distinct (map fst m))"

lemma dec_int_bounds: "dec_int j cur = Inr i \<Longrightarrow> - (2 ^ 63) \<le> cur \<Longrightarrow> cur < 2 ^ 63 \<Longrightarrow> - (2 ^ 63) \<le> i \<and> i < 2 ^ 63"
  by (cases j) (auto split: if_splits)

lemma dec_entries_distinct: "dec_entries dec z ms m = Inr m' \<Longrightarrow> distinct (map fst m) \<Longrightarrow> distinct (map fst m')"
proof (induction ms arbitrary: m)
  case (Cons e ms)
  then show ?case by (cases e) (auto split: sum.splits simp: distinct_update)
qed simp

lemma dec_map_distinct:
  "dec_map dec z j cur = Inr v \<Longrightarrow> (\<And>m. cur = Some m \<Longrightarrow> distinct (map fst m)) \<Longrightarrow> v = Some m' \<Longrightarrow> distinct (map fst m')"
  by (cases j) (auto split: sum.splits option.splits dest: dec_entries_distinct)

lemma unmarshal_Reading_ok:
  assumes "unmarshal_Reading b = Inr r"
  shows "reading_ok r"
  using assms unfolding unmarshal_Reading_def
proof (rule Unmarshal_struct_keeps)
  show "reading_ok zeroReading" by (simp add: reading_ok_def zeroReading_def)
next
  fix k j a c
  assume "reading_ok a" and "set_Reading k j a = Inr c"
  then show "reading_ok c"
    using dec_map_distinct [of dec_float 0 j "rValues a"]
    by (auto simp: set_Reading_def field_def reading_ok_def dest: dec_int_bounds split: if_splits sum.splits)
qed

lemma published_decodes:
  assumes "accepted uuid_ok msg = Some r" and "0 \<le> t" and "t < 2 ^ 63"
  shows "unmarshal_StampedReading (Some (marshal_StampedReading \<lparr>srReading = r, srIngestTimeMS = UnixMilli t\<rparr>)) =
     Inr \<lparr>srReading = r\<lparr>rValues := drop_empty (rValues r)\<rparr>, srIngestTimeMS = UnixMilli t\<rparr>"
proof -
  have "reading_ok r" using assms(1) unmarshal_Reading_ok by (auto simp: accepted_Some)
  moreover have "0 \<le> UnixMilli t" "UnixMilli t < 2 ^ 63"
    using assms(2,3) by (auto simp: UnixMilli_def)
  ultimately have "- (2 ^ 63) \<le> rDeviceTimeMS r \<and> rDeviceTimeMS r < 2 ^ 63 \<and> - (2 ^ 63) \<le> UnixMilli t \<and> UnixMilli t < 2 ^ 63 \<and>
      (\<forall>m. rValues r = Some m \<longrightarrow> distinct (map fst m))"
    by (simp add: reading_ok_def)
  then show ?thesis
    using unmarshal_marshal_Stamped [of "\<lparr>srReading = r, srIngestTimeMS = UnixMilli t\<rparr>"] by simp
qed

section \<open>Properties\<close>

text \<open>C18: ingest acknowledges only what it handled. A message that parses, validates and names the device whose
  topic it came on, and that is within the device's rate, is acknowledged only if it was stored in
  JetStream on the device's subject, where the processor decodes it to the same reading (an empty
  \<^verbatim>\<open>values\<close> map aside) with the time of receipt; if the publish fails it stays unacknowledged. Over
  the rate it is acknowledged and dropped. Any other message is acknowledged, leaves the limiter alone, and reaches nothing but the dead-letter subject.\<close>

theorem ingest_acks_handled:
  assumes run: "handle tx uuid_ok ops msg l w = (acked, l', w')"
    and clock: "0 \<le> fst (time_Now w)" "fst (time_Now w) < 2 ^ 63"
  shows "case accepted uuid_ok msg of
      None \<Rightarrow> acked \<and> l' = l \<and>
        (\<exists>sent. bus_sent (w_js w') = bus_sent (w_js w) @ sent \<and> set (map fst sent) \<subseteq> {DLQSubject} \<and> length sent \<le> 1)
    | Some r \<Rightarrow>
        (\<exists>ok sr body now. Limiter_Allow ops (rDeviceID r) now l = (ok, l') \<and>
          unmarshal_StampedReading (Some body) = Inr sr \<and>
          srReading sr = r\<lparr>rValues := drop_empty (rValues r)\<rparr> \<and> srIngestTimeMS sr = UnixMilli (fst (time_Now w)) \<and>
          (\<not> ok \<longrightarrow> acked \<and> bus_sent (w_js w') = bus_sent (w_js w)) \<and>
          (ok \<and> acked \<longrightarrow> bus_sent (w_js w') = bus_sent (w_js w) @ [(JetStreamSubject (rDeviceID r), body)]) \<and>
          (\<not> acked \<longrightarrow> fst (bus_publish (JetStreamSubject (rDeviceID r)) body (w_js w)) \<noteq> None))"
proof (cases "accepted uuid_ok msg")
  case None
  then obtain reason where "(acked, l', w') = (True, l, publishDLQ tx (mi_topic msg) (mi_bytes msg) reason (snd (time_Now w)))"
    using run handle_refused [of uuid_ok msg tx ops l w] by auto
  then have "acked \<and> l' = l \<and> (bus_sent (w_js w') = bus_sent (w_js w) \<or>
      (\<exists>m. bus_sent (w_js w') = bus_sent (w_js w) @ [(DLQSubject, m)]))"
    by (auto simp: publishDLQ_def world_defs Let_def split: prod.splits elim: bus_publish_cases)
  with None show ?thesis by fastforce
next
  case (Some r)
  define body where "body = marshal_StampedReading \<lparr>srReading = r, srIngestTimeMS = UnixMilli (fst (time_Now w))\<rparr>"
  have dec: "unmarshal_StampedReading (Some body) =
      Inr \<lparr>srReading = r\<lparr>rValues := drop_empty (rValues r)\<rparr>, srIngestTimeMS = UnixMilli (fst (time_Now w))\<rparr>"
    unfolding body_def using Some clock by (rule published_decodes)
  define now where "now = fst (time_Now (snd (time_Now w)))"
  obtain ok l1 where lim: "Limiter_Allow ops (rDeviceID r) now l = (ok, l1)" by (cases "Limiter_Allow ops (rDeviceID r) now l")
  obtain e b where pub: "bus_publish (JetStreamSubject (rDeviceID r)) body (w_js w) = (e, b)"
    by (cases "bus_publish (JetStreamSubject (rDeviceID r)) body (w_js w)")
  have "l' = l1 \<and> (if ok then acked = (e = None) \<and> w_js w' = b else acked \<and> w_js w' = w_js w)"
    using run lim pub unfolding handle_accepted [OF Some] body_def now_def
    by (auto simp: world_defs Let_def split: prod.splits option.splits if_splits)
  then show ?thesis
    using Some lim dec pub bus_publish_ok [of "JetStreamSubject (rDeviceID r)" body "w_js w" b]
    by (cases ok; cases e; fastforce)
qed

definition tokenLimiter :: "int limops" where
  "tokenLimiter = \<lparr>rl_New = (\<lambda>_ b. b), rl_Allow = (\<lambda>_ n. (n > 0, n - 1))\<rparr>"

definition plainTexts :: texts where
  "plainTexts = \<lparr>tx_json = (\<lambda>_. ''bad''), tx_validate = (\<lambda>_. ''bad''), tx_time = (\<lambda>_. ''now'')\<rparr>"

definition ingestWorld :: "faults \<Rightarrow> unit world" where
  "ingestWorld fs = \<lparr>w_pg = \<lparr>pg_faults = [], pg_uuid = Some, pg_devices = [], pg_readings = [], pg_alerts = [],
     pg_shadow_history = [], pg_rollouts = [], pg_rollout_targets = [], pg_users = []\<rparr>, w_kv = (),
     w_mqtt = \<lparr>bus_faults = [], bus_sent = []\<rparr>, w_js = \<lparr>bus_faults = fs, bus_sent = []\<rparr>,
     w_clock = (\<lambda>n. 1700000000123000000 + int n), w_ticks = 0, w_uuids = (\<lambda>_. []), w_issued = 0\<rparr>"

definition sampleMsg :: mqtt_in where
  "sampleMsg = \<lparr>mi_topic = ''sensegrid/v1/d1/telemetry'', mi_bytes = ''{...}'',
     mi_json = Some (marshal_Reading (srReading sampleStamped))\<rparr>"

lemma sampleMsg_accepted: "accepted (\<lambda>_. True) sampleMsg = Some (srReading sampleStamped)"
proof -
  have "unmarshal_Reading (mi_json sampleMsg) = Inr (srReading sampleStamped)"
    using dec_reading_members [of "srReading sampleStamped"]
    by (simp add: sampleMsg_def sampleStamped_def unmarshal_Reading_def Unmarshal_def marshal_Reading_def drop_empty_def)
  moreover have "Validate (\<lambda>_. True) (srReading sampleStamped) = None"
    by (simp add: Validate_None_iff sampleStamped_def SchemaVersion_def)
  ultimately show ?thesis
    unfolding accepted_Some by (simp add: sampleMsg_def sampleStamped_def TelemetryTopic_def)
qed

theorem ingest_acks_handled_witness:
  "\<exists>l' w' body. handle plainTexts (\<lambda>_. True) tokenLimiter sampleMsg (newPerDeviceLimiter 10 1) (ingestWorld []) = (True, l', w') \<and>
     bus_sent (w_js w') = [(''telemetry.d1'', body)] \<and> unmarshal_StampedReading (Some body) = Inr sampleStamped"
proof -
  obtain acked l' w' where run:
    "handle plainTexts (\<lambda>_. True) tokenLimiter sampleMsg (newPerDeviceLimiter 10 1) (ingestWorld []) = (acked, l', w')"
    by (cases "handle plainTexts (\<lambda>_. True) tokenLimiter sampleMsg (newPerDeviceLimiter 10 1) (ingestWorld [])") auto
  have ok: "fst (Limiter_Allow tokenLimiter d now (newPerDeviceLimiter 10 1))" for d now
    by (simp add: Limiter_Allow_def tokenLimiter_def newPerDeviceLimiter_def)
  have clock: "fst (time_Now (ingestWorld [])) = 1700000000123000000" by (simp add: time_Now_def ingestWorld_def)
  have "w_js (ingestWorld []) = \<lparr>bus_faults = [], bus_sent = []\<rparr>" by (simp add: ingestWorld_def)
  with ingest_acks_handled [OF run] clock ok obtain sr body where
    "acked" "bus_sent (w_js w') = [(JetStreamSubject ''d1'', body)]" "unmarshal_StampedReading (Some body) = Inr sr"
    "srReading sr = srReading sampleStamped" "srIngestTimeMS sr = 1700000000123"
    by (auto simp: sampleMsg_accepted sampleStamped_def drop_empty_def UnixMilli_def) (metis fst_conv)+
  moreover from this have "sr = sampleStamped" by (cases sr) (simp add: sampleStamped_def)
  ultimately show ?thesis using run by (auto simp: JetStreamSubject_def)
qed

text \<open>Calls of the limiter, each a device and the time of its message, in any interleaving.\<close>

fun allowRun :: "'l limops \<Rightarrow> (string \<times> time) list \<Rightarrow> 'l perDeviceLimiter \<Rightarrow> (string \<times> bool) list" where
  "allowRun ops [] l = []"
| "allowRun ops ((d, t) # cs) l = (let (ok, l') = Limiter_Allow ops d t l in (d, ok) # allowRun ops cs l')"

fun bucketRun :: "'l limops \<Rightarrow> time list \<Rightarrow> 'l \<Rightarrow> bool list" where
  "bucketRun ops [] b = []"
| "bucketRun ops (t # ts) b = (let (ok, b') = rl_Allow ops t b in ok # bucketRun ops ts b')"

abbreviation calls_of :: "string \<Rightarrow> (string \<times> 'a) list \<Rightarrow> 'a list" where
  "calls_of d cs \<equiv> map snd (filter (\<lambda>c. fst c = d) cs)"

lemma allowRun_bucket:
  "calls_of d (allowRun ops cs l) =
     bucketRun ops (calls_of d cs) (case pl_limiters l d of None \<Rightarrow> rl_New ops (pl_r l) (pl_burst l) | Some b \<Rightarrow> b)"
proof (induction cs arbitrary: l)
  case (Cons c cs)
  obtain d' t where "c = (d', t)" by (cases c)
  with Cons.IH show ?case
    by (cases "d' = d") (auto simp: Limiter_Allow_def Let_def split: prod.splits cong: option.case_cong)
qed simp

text \<open>C19: a runaway device cannot starve another. Whatever messages of other devices come in between, the
  messages of a device are let through or shed exactly as if it had a token bucket of its own, fresh when its
  first message arrives.\<close>

theorem limiter_isolates_devices:
  "calls_of d (allowRun ops cs (newPerDeviceLimiter r b)) = bucketRun ops (calls_of d cs) (rl_New ops r b)"
  by (simp add: allowRun_bucket newPerDeviceLimiter_def)

text \<open>A refused message is lost when the dead-letter publish fails: the handler acknowledges it all the same,
  so the broker does not redeliver it and nothing of it is kept.\<close>

theorem dlq_failure_loses_message:
  assumes "accepted uuid_ok msg = None" and "bus_faults (w_js w) = Some (Lost e) # fs"
  shows "\<exists>w'. handle tx uuid_ok ops msg l w = (True, l, w') \<and> bus_sent (w_js w') = bus_sent (w_js w)"
  using handle_refused [OF assms(1), of tx ops l w] assms(2)
  by (auto simp: publishDLQ_def world_defs bus_publish_def Let_def)

theorem dlq_failure_loses_message_witness:
  "\<exists>w'. handle plainTexts (\<lambda>_. True) tokenLimiter (sampleMsg\<lparr>mi_json := None\<rparr>) (newPerDeviceLimiter 10 1)
      (ingestWorld [Some (Lost ''down'')]) = (True, newPerDeviceLimiter 10 1, w') \<and> bus_sent (w_js w') = []"
  using dlq_failure_loses_message [of "\<lambda>_. True" "sampleMsg\<lparr>mi_json := None\<rparr>" "ingestWorld [Some (Lost ''down'')]" "''down''" "[]"]
  by (simp add: accepted_def unmarshal_Reading_def Unmarshal_def ingestWorld_def)

end
