(* ===== verification/HostAgent.thy ===== *)
theory HostAgent
  imports AgentConfig Ingest
begin

text \<open>
  The host agent, \<^verbatim>\<open>cmd/hostagent/main.go\<close> and \<^verbatim>\<open>cmd/hostagent/metrics.go\<close>: how the readings of
  the machine are collected, and the sampling loop that numbers, buffers and publishes them while the config
  handler (theory \<open>AgentConfig\<close>) changes the configuration under it.

  What the metrics libraries return is the record \<open>probes\<close>. One event is one arm of the loop's
  \<^verbatim>\<open>select\<close>, or a callback of the MQTT client; the callbacks run in their own goroutine but touch the loop
  only through an atomic pointer and the channel, so that every execution is a sequence of such events. A publish
  is handed to the MQTT client, which is the list \<open>ag_out\<close>. A step that panics returns \<open>None\<close>.
\<close>

section \<open>Readers\<close>

record hostReading =
  hr_sensorType :: string
  hr_value :: "real option"
  hr_values :: "(string \<times> real) list option"

record batteryInfo =
  bat_Full :: real
  bat_Current :: real
  bat_State :: string

record 'e probes =
  pr_percents :: "'e + real list"
  pr_temps :: "'e + real list"
  pr_usedPercent :: "'e + real"
  pr_batteries :: "'e + batteryInfo list"
  pr_windows :: bool
  pr_netsh :: "'e + string"

definition readCPUPercent :: "'e probes \<Rightarrow> 'e + hostReading option" where
  "readCPUPercent p =
     (case pr_percents p of
        Inl e \<Rightarrow> Inl e
      | Inr [] \<Rightarrow> Inr None
      | Inr (x # _) \<Rightarrow> Inr (Some \<lparr>hr_sensorType = ''cpu'', hr_value = Some x, hr_values = None\<rparr>))"

definition readCPUTemperature :: "'e probes \<Rightarrow> 'e + hostReading option" where
  "readCPUTemperature p =
     (case pr_temps p of
        Inl e \<Rightarrow> Inl e
      | Inr [] \<Rightarrow> Inr None
      | Inr (t # ts) \<Rightarrow>
          (let mx = fold (\<lambda>t mx. if t > mx then t else mx) ts t in
           if mx \<le> 0 then Inr None
           else Inr (Some \<lparr>hr_sensorType = ''cpu_temp'', hr_value = Some mx, hr_values = None\<rparr>)))"

definition readMemory :: "'e probes \<Rightarrow> 'e + hostReading option" where
  "readMemory p =
     (case pr_usedPercent p of
        Inl e \<Rightarrow> Inl e
      | Inr x \<Rightarrow> Inr (Some \<lparr>hr_sensorType = ''mem'', hr_value = Some x, hr_values = None\<rparr>))"

definition readBattery :: "'e probes \<Rightarrow> 'e + hostReading option" where
  "readBattery p =
     (case pr_batteries p of
        Inl e \<Rightarrow> Inl e
      | Inr [] \<Rightarrow> Inr None
      | Inr (b # _) \<Rightarrow>
          if bat_Full b \<le> 0 then Inr None
          else
            (let charging = (if bat_State b = ''Charging'' \<or> bat_State b = ''Full'' then 1 else 0) in
             Inr (Some \<lparr>hr_sensorType = ''battery'', hr_value = None,
               hr_values = Some [(''level'', bat_Current b / bat_Full b), (''charging'', charging)]\<rparr>)))"

text \<open>The match of \<^verbatim>\<open>Signal\s*:\s*(\d+)%\<close>: the text of its group, at the leftmost position. The character
  classes that follow one another are disjoint, so that each repetition takes all it can.\<close>

definition isSpace :: "char \<Rightarrow> bool" where
  "isSpace c \<longleftrightarrow> c \<in> {CHR '' '', CHR 0x09, CHR 0x0A, CHR 0x0C, CHR 0x0D}"

definition isDigit :: "char \<Rightarrow> bool" where
  "isDigit c \<longleftrightarrow> c \<in> set ''0123456789''"

definition matchSignal :: "string \<Rightarrow> string option" where
  "matchSignal s =
     (if \<not> HasPrefix s ''Signal'' then None
      else
        (case dropWhile isSpace (drop 6 s) of
           [] \<Rightarrow> None
         | c # rest \<Rightarrow>
             if c \<noteq> CHR '':'' then None
             else
               (let body = dropWhile isSpace rest; digits = takeWhile isDigit body in
                if digits \<noteq> [] \<and> take 1 (dropWhile isDigit body) = ''%'' then Some digits else None)))"

fun findSignal :: "string \<Rightarrow> string option" where
  "findSignal [] = None"
| "findSignal (c # s) = (case matchSignal (c # s) of Some d \<Rightarrow> Some d | None \<Rightarrow> findSignal s)"

definition parseDigits :: "string \<Rightarrow> real" where
  "parseDigits ds = fold (\<lambda>c v. 10 * v + real (of_char c - of_char CHR ''0'' :: nat)) ds 0"

text \<open>\<^verbatim>\<open>strconv.ParseFloat\<close> fails on digits beyond the range of a \<^verbatim>\<open>float64\<close>, which begins half a unit in the
  last place above the largest one.\<close>

definition readWiFiRSSI :: "'e probes \<Rightarrow> 'e + hostReading option" where
  "readWiFiRSSI p =
     (if \<not> pr_windows p then Inr None
      else
        (case pr_netsh p of
           Inl e \<Rightarrow> Inr None
         | Inr out \<Rightarrow>
             (case findSignal out of
                None \<Rightarrow> Inr None
              | Some ds \<Rightarrow>
                  if parseDigits ds \<ge> 2 ^ 1024 - 2 ^ 970 then Inr None
                  else Inr (Some \<lparr>hr_sensorType = ''wifi_signal'', hr_value = Some (parseDigits ds), hr_values = None\<rparr>))))"

definition readers :: "'e probes \<Rightarrow> (string \<times> ('e + hostReading option)) list" where
  "readers p =
     [(''cpu'', readCPUPercent p), (''cpu_temp'', readCPUTemperature p), (''mem'', readMemory p),
      (''battery'', readBattery p), (''wifi_signal'', readWiFiRSSI p)]"

text \<open>\<open>warnOnce\<close> holds the readers that were reported as failing.\<close>

fun collectFrom :: "(string \<times> ('e + hostReading option)) list \<Rightarrow> string list \<Rightarrow> hostReading list \<times> string list" where
  "collectFrom [] warnOnce = ([], warnOnce)"
| "collectFrom ((name, res) # rs) warnOnce =
     (case res of
        Inl err \<Rightarrow> collectFrom rs (if name \<in> set warnOnce then warnOnce else name # warnOnce)
      | Inr None \<Rightarrow> collectFrom rs warnOnce
      | Inr (Some r) \<Rightarrow> (let (out, warnOnce') = collectFrom rs warnOnce in (r # out, warnOnce')))"

definition collect :: "'e probes \<Rightarrow> string list \<Rightarrow> hostReading list \<times> string list" where
  "collect p warnOnce = collectFrom (readers p) warnOnce"

section \<open>Sampling loop\<close>

record agent =
  ag_cfgState :: appliedConfig
  ag_intervalChanged :: "int option"
  ag_ticker :: duration
  ag_seq :: u64
  ag_warnOnce :: "string list"
  ag_pending :: "Reading list"
  ag_lastFlush :: time
  ag_out :: "(string \<times> mqtt_msg) list"

text \<open>\<^verbatim>\<open>time.NewTicker\<close> and \<^verbatim>\<open>Ticker.Reset\<close> panic on a duration that is not positive.\<close>

definition ticker_every :: "int \<Rightarrow> duration option" where
  "ticker_every ms = (let d = scaled millisecond ms in if d \<le> 0 then None else Some d)"

text \<open>The interval the agent starts with comes from a duration. \<^verbatim>\<open>Duration.Milliseconds\<close>: Go's division truncates.\<close>

definition Milliseconds :: "duration \<Rightarrow> int" where
  "Milliseconds d = sgn d * (abs d div millisecond)"

definition startLoop :: "appliedConfig \<Rightarrow> time \<Rightarrow> agent option" where
  "startLoop cfg now =
     (case ticker_every (ac_sampleIntervalMS cfg) of
        None \<Rightarrow> None
      | Some d \<Rightarrow> Some \<lparr>ag_cfgState = cfg, ag_intervalChanged = None, ag_ticker = d, ag_seq = 0, ag_warnOnce = [],
          ag_pending = [], ag_lastFlush = now, ag_out = []\<rparr>)"

definition telemetry_msg :: "string \<Rightarrow> Reading \<Rightarrow> string \<times> mqtt_msg" where
  "telemetry_msg deviceID r = (TelemetryTopic deviceID, \<lparr>m_qos = 1, m_retained = False, m_payload = marshal_Reading r\<rparr>)"

definition agent_flush :: "string \<Rightarrow> time \<Rightarrow> agent \<Rightarrow> agent" where
  "agent_flush deviceID now a =
     a\<lparr>ag_out := ag_out a @ map (telemetry_msg deviceID) (ag_pending a), ag_pending := [], ag_lastFlush := now\<rparr>"

text \<open>A tick sees whether the client is connected, what the probes return, the times it reads (one for each
  reading, one for \<^verbatim>\<open>time.Since\<close>, one in \<^verbatim>\<open>flush\<close>) and the random bytes of the trace ids.\<close>

record 'e tick_env =
  te_connected :: bool
  te_probes :: "'e probes"
  te_now :: "nat \<Rightarrow> time"
  te_trace :: "nat \<Rightarrow> 8 word list"
  te_since :: time
  te_flush :: time

fun enqueue :: "string \<Rightarrow> appliedConfig \<Rightarrow> 'e tick_env \<Rightarrow> nat \<Rightarrow> hostReading list \<Rightarrow> agent \<Rightarrow> agent" where
  "enqueue deviceID cfg e n [] a = a"
| "enqueue deviceID cfg e n (r # rs) a =
     (if \<not> sensorEnabled cfg (hr_sensorType r) then enqueue deviceID cfg e n rs a
      else
        (let seq = ag_seq a + 1 in
         enqueue deviceID cfg e (Suc n) rs
           (a\<lparr>ag_seq := seq, ag_pending := ag_pending a @
               [\<lparr>rSchemaVersion = SchemaVersion, rDeviceID = deviceID, rSensorType = hr_sensorType r,
                 rValue = hr_value r, rValues = hr_values r, rDeviceTimeMS = UnixMilli (te_now e n), rSeq = seq,
                 rTraceID = NewTraceID (te_trace e n)\<rparr>]\<rparr>)))"

definition agent_tick :: "string \<Rightarrow> 'e tick_env \<Rightarrow> agent \<Rightarrow> agent" where
  "agent_tick deviceID e a =
     (let cfg = ag_cfgState a in
      if \<not> te_connected e then a
      else
        (let (rs, warnOnce) = collect (te_probes e) (ag_warnOnce a);
             a1 = enqueue deviceID cfg e 0 rs (a\<lparr>ag_warnOnce := warnOnce\<rparr>) in
         if ac_mode cfg \<noteq> ReportingBatched then agent_flush deviceID (te_flush e) a1
         else
           (let sizeHit = ac_batchSize cfg > 0 \<and> int (length (ag_pending a1)) \<ge> ac_batchSize cfg;
                timeHit = ac_flushIntervalMS cfg > 0 \<and>
                  time_sub (te_since e) (ag_lastFlush a1) \<ge> scaled millisecond (ac_flushIntervalMS cfg) in
            if sizeHit \<or> timeHit then agent_flush deviceID (te_flush e) a1 else a1)))"

datatype 'e agent_event =
    IntervalChanged
  | Tick "'e tick_env"
  | ConfigMsg time body
  | Subscribed time

fun agent_step :: "(config_error \<Rightarrow> string) \<Rightarrow> string \<Rightarrow> 'e agent_event \<Rightarrow> agent \<Rightarrow> agent option" where
  "agent_step etext deviceID IntervalChanged a =
     (case ag_intervalChanged a of
        None \<Rightarrow> Some a
      | Some ms \<Rightarrow>
          (case ticker_every ms of None \<Rightarrow> None | Some d \<Rightarrow> Some (a\<lparr>ag_intervalChanged := None, ag_ticker := d\<rparr>)))"
| "agent_step etext deviceID (Tick e) a = Some (agent_tick deviceID e a)"
| "agent_step etext deviceID (ConfigMsg now payload) a =
     (let ((cfg, ch), out) = hostagent_configHandler etext deviceID now payload (ag_cfgState a, ag_intervalChanged a) in
      Some (a\<lparr>ag_cfgState := cfg, ag_intervalChanged := ch, ag_out := ag_out a @ out\<rparr>))"
| "agent_step etext deviceID (Subscribed now) a =
     Some (a\<lparr>ag_out := ag_out a @ [publishReportedValue deviceID now (toReported (ag_cfgState a))]\<rparr>)"

fun runSamplingLoop :: "(config_error \<Rightarrow> string) \<Rightarrow> string \<Rightarrow> 'e agent_event list \<Rightarrow> agent \<Rightarrow> agent option" where
  "runSamplingLoop etext deviceID [] a = Some a"
| "runSamplingLoop etext deviceID (ev # evs) a =
     (case agent_step etext deviceID ev a of None \<Rightarrow> None | Some a' \<Rightarrow> runSamplingLoop etext deviceID evs a')"

text \<open>The agent from its start to the cancelled context, whose arm flushes what is pending and ends the loop.\<close>

definition agent_session :: "(config_error \<Rightarrow> string) \<Rightarrow> string \<Rightarrow> appliedConfig \<Rightarrow> time \<Rightarrow> 'e agent_event list \<Rightarrow> time \<Rightarrow> agent option" where
  "agent_session etext deviceID cfg t0 evs t1 =
     (case startLoop cfg t0 of
        None \<Rightarrow> None
      | Some a \<Rightarrow> map_option (agent_flush deviceID t1) (runSamplingLoop etext deviceID evs a))"

section \<open>Lemmas\<close>

text \<open>What a reader can produce: one scalar or a map with distinct keys, under a name.\<close>

definition hostReading_ok :: "hostReading \<Rightarrow> bool" where
  "hostReading_ok r \<longleftrightarrow> hr_sensorType r \<noteq> [] \<and> (hr_value r = None) \<noteq> (hr_values r = None) \<and>
     (\<forall>m. hr_values r = Some m \<longrightarrow> m \<noteq> [] \<and> length m \<le> 2 \<and> distinct (map fst m))"

lemmas reader_defs = readCPUPercent_def readCPUTemperature_def readMemory_def readBattery_def readWiFiRSSI_def

lemma collectFrom_set: "set (fst (collectFrom rs w)) = {r. \<exists>name. (name, Inr (Some r)) \<in> set rs}"
  by (induction rs w rule: collectFrom.induct) (auto split: sum.splits option.splits prod.splits simp: Let_def)

lemma reader_ok:
  "readCPUPercent p = Inr (Some r) \<Longrightarrow> hostReading_ok r"
  "readCPUTemperature p = Inr (Some r) \<Longrightarrow> hostReading_ok r"
  "readMemory p = Inr (Some r) \<Longrightarrow> hostReading_ok r"
  "readBattery p = Inr (Some r) \<Longrightarrow> hostReading_ok r"
  "readWiFiRSSI p = Inr (Some r) \<Longrightarrow> hostReading_ok r"
  unfolding reader_defs Let_def
  by (auto simp: hostReading_ok_def split: sum.splits list.splits option.splits if_splits)

lemma collect_ok:
  assumes "r \<in> set (fst (collect p w))"
  shows "hostReading_ok r"
proof -
  obtain name where "(name, Inr (Some r)) \<in> set (readers p)" using assms by (auto simp: collect_def collectFrom_set)
  then have "Inr (Some r) \<in> {readCPUPercent p, readCPUTemperature p, readMemory p, readBattery p, readWiFiRSSI p}"
    by (auto simp: readers_def)
  then consider "readCPUPercent p = Inr (Some r)" | "readCPUTemperature p = Inr (Some r)" | "readMemory p = Inr (Some r)"
    | "readBattery p = Inr (Some r)" | "readWiFiRSSI p = Inr (Some r)" by (auto dest: sym)
  then show ?thesis by cases (auto simp: reader_ok)
qed

text \<open>Readings as ingest wants them, and ticks whose clock and random source are sane.\<close>

definition sound_reading :: "(string \<Rightarrow> bool) \<Rightarrow> string \<Rightarrow> Reading \<Rightarrow> bool" where
  "sound_reading uuid_ok deviceID r \<longleftrightarrow> rDeviceID r = deviceID \<and> Validate uuid_ok r = None \<and> reading_ok r \<and> rValues r \<noteq> Some [] \<and>
     (\<forall>m. rValues r = Some m \<longrightarrow> length m \<le> 2)"

definition tick_ok :: "'e tick_env \<Rightarrow> bool" where
  "tick_ok e \<longleftrightarrow> (\<forall>n. 0 < UnixMilli (te_now e n) \<and> UnixMilli (te_now e n) < 2 ^ 63 \<and> length (te_trace e n) = 16)"

lemma enqueue_frame [simp]:
  "ag_out (enqueue dev cfg e n rs a) = ag_out a"
  "ag_cfgState (enqueue dev cfg e n rs a) = ag_cfgState a"
  "ag_lastFlush (enqueue dev cfg e n rs a) = ag_lastFlush a"
  "ag_intervalChanged (enqueue dev cfg e n rs a) = ag_intervalChanged a"
  "ag_ticker (enqueue dev cfg e n rs a) = ag_ticker a"
  by (induction dev cfg e n rs a rule: enqueue.induct) (auto simp: Let_def)

lemma sound_enqueued:
  assumes "uuid_ok dev" and "tick_ok e" and "hostReading_ok r"
  shows "sound_reading uuid_ok dev \<lparr>rSchemaVersion = SchemaVersion, rDeviceID = dev, rSensorType = hr_sensorType r,
     rValue = hr_value r, rValues = hr_values r, rDeviceTimeMS = UnixMilli (te_now e n), rSeq = seq, rTraceID = NewTraceID (te_trace e n)\<rparr>"
proof -
  from assms(2) have t: "0 < UnixMilli (te_now e n)" "UnixMilli (te_now e n) < 2 ^ 63" "length (te_trace e n) = 16"
    by (auto simp: tick_ok_def)
  then show ?thesis
    using assms(1,3) by (auto simp: sound_reading_def Validate_None_iff reading_ok_def hostReading_ok_def NewTraceID_def)
qed

text \<open>The numbering: published and pending readings together carry the numbers from 1 to \<open>ag_seq\<close>.\<close>

definition numbered :: "Reading list \<Rightarrow> u64 \<Rightarrow> bool" where
  "numbered rs seq \<longleftrightarrow> map rSeq rs = map of_nat [1..<Suc (length rs)] \<and> seq = of_nat (length rs)"

lemma numbered_snoc: "numbered rs seq \<Longrightarrow> rSeq r = seq + 1 \<Longrightarrow> numbered (rs @ [r]) (seq + 1)"
  by (simp add: numbered_def add.commute)

lemma enqueue_numbered:
  assumes "numbered (sent @ ag_pending a) (ag_seq a)" and "\<forall>r \<in> set (ag_pending a). sound_reading uuid_ok dev r"
    and "uuid_ok dev" and "tick_ok e" and "\<forall>r \<in> set rs. hostReading_ok r"
  shows "numbered (sent @ ag_pending (enqueue dev cfg e n rs a)) (ag_seq (enqueue dev cfg e n rs a)) \<and>
     (\<forall>r \<in> set (ag_pending (enqueue dev cfg e n rs a)). sound_reading uuid_ok dev r)"
  using assms
proof (induction dev cfg e n rs a rule: enqueue.induct)
  case (2 dev cfg e n r rs a)
  show ?case
  proof (cases "sensorEnabled cfg (hr_sensorType r)")
    case True
    let ?r = "\<lparr>rSchemaVersion = SchemaVersion, rDeviceID = dev, rSensorType = hr_sensorType r,
       rValue = hr_value r, rValues = hr_values r, rDeviceTimeMS = UnixMilli (te_now e n), rSeq = ag_seq a + 1,
       rTraceID = NewTraceID (te_trace e n)\<rparr>"
    let ?a = "a\<lparr>ag_seq := ag_seq a + 1, ag_pending := ag_pending a @ [?r]\<rparr>"
    have "hostReading_ok r" "\<forall>r \<in> set rs. hostReading_ok r" using 2(7) by simp_all
    then have "\<forall>r \<in> set (ag_pending ?a). sound_reading uuid_ok dev r"
      using 2(4) sound_enqueued [of uuid_ok dev e r n "ag_seq a + 1"] 2(5,6) by simp
    moreover have "numbered (sent @ ag_pending ?a) (ag_seq ?a)"
      using numbered_snoc [OF 2(3), of ?r] by simp
    ultimately have "numbered (sent @ ag_pending (enqueue dev cfg e (Suc n) rs ?a)) (ag_seq (enqueue dev cfg e (Suc n) rs ?a)) \<and>
        (\<forall>r \<in> set (ag_pending (enqueue dev cfg e (Suc n) rs ?a)). sound_reading uuid_ok dev r)"
      using 2(2) [OF _ refl] True 2(5,6) \<open>\<forall>r \<in> set rs. hostReading_ok r\<close> by blast
    with True show ?thesis by (simp add: Let_def)
  qed (use 2 in simp)
qed simp

definition telemetry_of :: "string \<Rightarrow> agent \<Rightarrow> (string \<times> mqtt_msg) list" where
  "telemetry_of deviceID a = filter (\<lambda>m. fst m = TelemetryTopic deviceID) (ag_out a)"

definition agent_inv :: "(string \<Rightarrow> bool) \<Rightarrow> string \<Rightarrow> agent \<Rightarrow> Reading list \<Rightarrow> bool" where
  "agent_inv uuid_ok dev a sent \<longleftrightarrow> telemetry_of dev a = map (telemetry_msg dev) sent \<and>
     numbered (sent @ ag_pending a) (ag_seq a) \<and> (\<forall>r \<in> set (sent @ ag_pending a). sound_reading uuid_ok dev r)"

lemma filter_telemetry [simp]:
  "filter (\<lambda>m. fst m = TelemetryTopic dev) (map (telemetry_msg dev) rs) = map (telemetry_msg dev) rs"
  by (induction rs) (simp_all add: telemetry_msg_def)

lemma state_not_telemetry [simp]: "StateTopic dev \<noteq> TelemetryTopic dev"
  by (simp add: topic_defs)

lemma agent_flush_inv: "agent_inv uuid_ok dev a sent \<Longrightarrow> agent_inv uuid_ok dev (agent_flush dev t a) (sent @ ag_pending a)"
  by (simp add: agent_inv_def agent_flush_def telemetry_of_def)

lemma agent_tick_inv:
  assumes "agent_inv uuid_ok dev a sent" and "uuid_ok dev" and "tick_ok e"
  shows "\<exists>sent'. agent_inv uuid_ok dev (agent_tick dev e a) sent'"
proof (cases "te_connected e")
  case True
  obtain rs w where c: "collect (te_probes e) (ag_warnOnce a) = (rs, w)" by (cases "collect (te_probes e) (ag_warnOnce a)")
  then have "\<forall>r \<in> set rs. hostReading_ok r" using collect_ok by (metis fst_conv)
  define a1 where "a1 = enqueue dev (ag_cfgState a) e 0 rs (a\<lparr>ag_warnOnce := w\<rparr>)"
  from \<open>\<forall>r \<in> set rs. hostReading_ok r\<close> assms have inv: "agent_inv uuid_ok dev a1 sent"
    using enqueue_numbered [of sent "a\<lparr>ag_warnOnce := w\<rparr>" uuid_ok dev e rs]
    by (auto simp: agent_inv_def telemetry_of_def a1_def)
  have "agent_tick dev e a = a1 \<or> agent_tick dev e a = agent_flush dev (te_flush e) a1"
    using c True by (simp add: agent_tick_def a1_def Let_def)
  with inv agent_flush_inv [OF inv] show ?thesis by metis
qed (use assms in \<open>auto simp: agent_tick_def\<close>)

lemma config_out_state: "m \<in> set (snd (hostagent_configHandler etext dev t b s)) \<Longrightarrow> fst m = StateTopic dev"
  by (auto simp: hostagent_configHandler_def configHandlerWith_def publishReportedValue_def
      split: prod.splits sum.splits option.splits)

lemma agent_step_inv:
  assumes "agent_inv uuid_ok dev a sent" and "uuid_ok dev" and "\<forall>e. ev = Tick e \<longrightarrow> tick_ok e"
    and "agent_step etext dev ev a = Some a'"
  shows "\<exists>sent'. agent_inv uuid_ok dev a' sent'"
proof (cases ev)
  case (Tick e)
  with assms agent_tick_inv show ?thesis by auto
next
  case (ConfigMsg t b)
  obtain cfg ch out where h: "hostagent_configHandler etext dev t b (ag_cfgState a, ag_intervalChanged a) = ((cfg, ch), out)"
    by (metis prod.collapse)
  have "filter (\<lambda>m. fst m = TelemetryTopic dev) out = []"
    using config_out_state [of _ etext dev t b "(ag_cfgState a, ag_intervalChanged a)"] h by (auto simp: filter_empty_conv)
  with assms ConfigMsg h show ?thesis by (auto simp: agent_inv_def telemetry_of_def)
next
  case IntervalChanged
  then have "telemetry_of dev a' = telemetry_of dev a \<and> ag_pending a' = ag_pending a \<and> ag_seq a' = ag_seq a"
    using assms(4) by (auto simp: telemetry_of_def split: option.splits)
  with assms(1) show ?thesis by (auto simp: agent_inv_def)
qed (use assms in \<open>auto simp: agent_inv_def telemetry_of_def publishReportedValue_def\<close>)

lemma run_inv:
  assumes "agent_inv uuid_ok dev a sent" and "uuid_ok dev" and "\<forall>e. Tick e \<in> set evs \<longrightarrow> tick_ok e"
    and "runSamplingLoop etext dev evs a = Some a'"
  shows "\<exists>sent'. agent_inv uuid_ok dev a' sent'"
  using assms
proof (induction evs arbitrary: a sent)
  case (Cons ev evs)
  then obtain a1 where step: "agent_step etext dev ev a = Some a1" and run: "runSamplingLoop etext dev evs a1 = Some a'"
    by (auto split: option.splits)
  then obtain s1 where "agent_inv uuid_ok dev a1 s1" using agent_step_inv [OF Cons.prems(1,2) _ step] Cons.prems(3) by auto
  with Cons.IH Cons.prems run show ?case by auto
qed auto

lemma sound_accepted:
  assumes "sound_reading uuid_ok dev r" and "CHR ''/'' \<notin> set dev"
  shows "accepted uuid_ok \<lparr>mi_topic = TelemetryTopic dev, mi_bytes = bytes, mi_json = Some (marshal_Reading r)\<rparr> = Some r"
proof -
  have "drop_empty (rValues r) = rValues r" using assms(1) by (auto simp: sound_reading_def drop_empty_def split: option.splits list.splits)
  then have "unmarshal_Reading (Some (marshal_Reading r)) = Inr r"
    using dec_reading_members [of r] assms(1)
    by (simp add: sound_reading_def reading_ok_def unmarshal_Reading_def Unmarshal_def marshal_Reading_def)
  with assms show ?thesis by (simp add: accepted_Some sound_reading_def)
qed

lemma agent_session_inv:
  assumes session: "agent_session etext dev cfg t0 evs t1 = Some a"
    and dev: "uuid_ok dev" and ticks: "\<forall>e. Tick e \<in> set evs \<longrightarrow> tick_ok e"
  shows "\<exists>rs. agent_inv uuid_ok dev a rs \<and> ag_pending a = []"
proof -
  obtain s a1 where start: "startLoop cfg t0 = Some s" and run: "runSamplingLoop etext dev evs s = Some a1"
    and a: "a = agent_flush dev t1 a1"
    using session by (auto simp: agent_session_def split: option.splits)
  have "agent_inv uuid_ok dev s []"
    using start by (auto simp: startLoop_def agent_inv_def telemetry_of_def numbered_def split: option.splits)
  with run_inv [of uuid_ok dev s "[]" evs etext a1] dev ticks run agent_flush_inv obtain rs where "agent_inv uuid_ok dev a rs" unfolding a by blast
  then show ?thesis by (auto simp: a agent_flush_def)
qed

section \<open>Properties\<close>

text \<open>C27: the agent numbers its readings without gaps and ingest takes each of them. Whatever ticks, configuration
  messages and reconnects a session of the agent goes through, the readings it handed to the broker by the end
  carry the sequence numbers 1, 2, 3, ... in that order, none is left behind in the buffer, and each, when it reaches
  ingest, is accepted as the very reading that was sent.\<close>

theorem agent_publishes_gap_free:
  assumes session: "agent_session etext dev cfg t0 evs t1 = Some a"
    and dev: "uuid_ok dev" "CHR ''/'' \<notin> set dev" and ticks: "\<forall>e. Tick e \<in> set evs \<longrightarrow> tick_ok e"
  shows "\<exists>rs. filter (\<lambda>m. fst m = TelemetryTopic dev) (ag_out a) = map (telemetry_msg dev) rs \<and>
     map rSeq rs = map of_nat [1..<Suc (length rs)] \<and> ag_pending a = [] \<and>
     (\<forall>r \<in> set rs. \<forall>bytes. accepted uuid_ok
        \<lparr>mi_topic = TelemetryTopic dev, mi_bytes = bytes, mi_json = Some (marshal_Reading r)\<rparr> = Some r)"
proof -
  obtain rs where "agent_inv uuid_ok dev a rs" "ag_pending a = []" using agent_session_inv [where uuid_ok = uuid_ok, OF session dev(1) ticks] by blast
  then show ?thesis
    using sound_accepted [OF _ dev(2)]
    by (intro exI [of _ rs]) (auto simp: agent_inv_def telemetry_of_def numbered_def)
qed

definition sampleProbes :: "unit probes" where
  "sampleProbes = \<lparr>pr_percents = Inr [12], pr_temps = Inl (), pr_usedPercent = Inr 40,
     pr_batteries = Inr [\<lparr>bat_Full = 50, bat_Current = 25, bat_State = ''Charging''\<rparr>], pr_windows = False, pr_netsh = Inl ()\<rparr>"

definition sampleTick :: "unit tick_env" where
  "sampleTick = \<lparr>te_connected = True, te_probes = sampleProbes, te_now = (\<lambda>_. 1700000000000 * millisecond),
     te_trace = (\<lambda>_. replicate 16 0), te_since = 0, te_flush = 0\<rparr>"

lemma sampleTick_ok: "tick_ok sampleTick"
  by (simp add: tick_ok_def sampleTick_def UnixMilli_def)

lemma sampleCollect:
  "collect sampleProbes [] = ([\<lparr>hr_sensorType = ''cpu'', hr_value = Some 12, hr_values = None\<rparr>,
     \<lparr>hr_sensorType = ''mem'', hr_value = Some 40, hr_values = None\<rparr>,
     \<lparr>hr_sensorType = ''battery'', hr_value = None, hr_values = Some [(''level'', 1 / 2), (''charging'', 1)]\<rparr>], [''cpu_temp''])"
  by (simp add: collect_def readers_def reader_defs sampleProbes_def)

theorem agent_publishes_gap_free_witness:
  "\<exists>a rs. agent_session (\<lambda>_. []) ''d1'' (defaultAppliedConfig 5000) 0 [Tick sampleTick] 1 = Some a \<and>
     filter (\<lambda>m. fst m = TelemetryTopic ''d1'') (ag_out a) = map (telemetry_msg ''d1'') rs \<and> map rSeq rs = [1, 2, 3]"
proof -
  have mode: "ac_mode (defaultAppliedConfig 5000) \<noteq> ReportingBatched" "ac_enabledSensors (defaultAppliedConfig 5000) = []"
    by (simp_all add: defaultAppliedConfig_def ReportingContinuous_def ReportingBatched_def)
  have "ticker_every (ac_sampleIntervalMS (defaultAppliedConfig 5000)) = Some (5 * second)"
    by (simp add: ticker_every_def scaled_def int64_wrap_def defaultAppliedConfig_def)
  then obtain a where a: "agent_session (\<lambda>_. []) ''d1'' (defaultAppliedConfig 5000) 0 [Tick sampleTick] 1 = Some a"
    and n: "length (ag_out a) = 3" "\<forall>m \<in> set (ag_out a). fst m = TelemetryTopic ''d1''"
    using mode
    by (auto simp: agent_session_def startLoop_def agent_tick_def Let_def agent_flush_def sampleTick_def sensorEnabled_def
        telemetry_msg_def sampleCollect)
  from agent_publishes_gap_free [OF a, of "\<lambda>_. True"] sampleTick_ok obtain rs where
    rs: "filter (\<lambda>m. fst m = TelemetryTopic ''d1'') (ag_out a) = map (telemetry_msg ''d1'') rs" "map rSeq rs = map of_nat [1..<Suc (length rs)]"
    by auto
  have "filter (\<lambda>m. fst m = TelemetryTopic ''d1'') (ag_out a) = ag_out a" using n(2) by simp
  then have "length rs = 3" using rs(1) n(1) by (metis length_map)
  then have "map rSeq rs = [1, 2, 3]" using rs(2) by (simp add: upt_rec)
  with a rs(1) show ?thesis by (intro exI [of _ a] exI [of _ rs]) simp
qed

text \<open>Batching is bounded. After a tick of a connected agent the buffer is empty, unless reporting is batched
  and neither trigger is reached: fewer readings than the batch size wait, and the flush interval has not
  passed since the last flush.\<close>

theorem agent_batches_bounded:
  assumes "te_connected e" and "ag_pending (agent_tick dev e a) \<noteq> []"
  shows "ac_mode (ag_cfgState a) = ReportingBatched \<and>
     (ac_batchSize (ag_cfgState a) > 0 \<longrightarrow> int (length (ag_pending (agent_tick dev e a))) < ac_batchSize (ag_cfgState a)) \<and>
     (ac_flushIntervalMS (ag_cfgState a) > 0 \<longrightarrow>
        time_sub (te_since e) (ag_lastFlush a) < scaled millisecond (ac_flushIntervalMS (ag_cfgState a)))"
proof -
  obtain rs w where "collect (te_probes e) (ag_warnOnce a) = (rs, w)" by (cases "collect (te_probes e) (ag_warnOnce a)")
  with assms show ?thesis by (auto simp: agent_tick_def Let_def agent_flush_def split: if_splits)
qed

definition batchedAgent :: agent where
  "batchedAgent = \<lparr>ag_cfgState = (defaultAppliedConfig 5000)\<lparr>ac_mode := ReportingBatched, ac_batchSize := 10\<rparr>,
     ag_intervalChanged = None, ag_ticker = 5 * second, ag_seq = 0, ag_warnOnce = [], ag_pending = [], ag_lastFlush = 0, ag_out = []\<rparr>"

theorem agent_batches_bounded_witness:
  "int (length (ag_pending (agent_tick ''d1'' sampleTick batchedAgent))) < 10 \<and>
   ag_pending (agent_tick ''d1'' sampleTick batchedAgent) \<noteq> []"
proof -
  have "ag_pending (agent_tick ''d1'' sampleTick batchedAgent) \<noteq> []"
    by (simp add: agent_tick_def batchedAgent_def sampleTick_def sampleCollect sensorEnabled_def defaultAppliedConfig_def
        agent_flush_def)
  moreover have "te_connected sampleTick" by (simp add: sampleTick_def)
  ultimately show ?thesis using agent_batches_bounded [of sampleTick "''d1''" batchedAgent] by (simp add: batchedAgent_def)
qed

text \<open>Intervals up to \<open>maxInterval\<close> milliseconds (about 292 years) make a positive number of nanoseconds.\<close>

definition maxInterval :: int where "maxInterval = 9223372036854"

lemma ticker_every_Some: "1 \<le> ms \<Longrightarrow> ms \<le> maxInterval \<Longrightarrow> ticker_every ms = Some (ms * millisecond)"
  by (simp add: ticker_every_def scaled_def int64_wrap_id maxInterval_def)

definition interval_ok :: "agent \<Rightarrow> bool" where
  "interval_ok a \<longleftrightarrow> 1 \<le> ac_sampleIntervalMS (ag_cfgState a) \<and> ac_sampleIntervalMS (ag_cfgState a) \<le> maxInterval \<and>
     (\<forall>ms. ag_intervalChanged a = Some ms \<longrightarrow> 1 \<le> ms \<and> ms \<le> maxInterval)"

definition rates_ok :: "body \<Rightarrow> bool" where
  "rates_ok b \<longleftrightarrow> (case unmarshal_Desired b of Inl _ \<Rightarrow> True
     | Inr d \<Rightarrow> (case d_SampleRateHz d of None \<Rightarrow> True | Some hz \<Rightarrow> 1000 / hz \<le> real_of_int maxInterval))"

lemma float_to_int_le: "x \<le> real_of_int n \<Longrightarrow> 0 \<le> n \<Longrightarrow> float_to_int x \<le> n"
  by (auto simp: float_to_int_def Let_def) linarith+

lemma configHandler_interval:
  assumes "rates_ok b" and "1 \<le> ac_sampleIntervalMS cfg" and "ac_sampleIntervalMS cfg \<le> maxInterval"
    and "\<forall>ms. ch = Some ms \<longrightarrow> 1 \<le> ms \<and> ms \<le> maxInterval"
    and "hostagent_configHandler etext dev t b (cfg, ch) = ((cfg', ch'), out)"
  shows "1 \<le> ac_sampleIntervalMS cfg' \<and> ac_sampleIntervalMS cfg' \<le> maxInterval \<and>
     (\<forall>ms. ch' = Some ms \<longrightarrow> 1 \<le> ms \<and> ms \<le> maxInterval)"
proof (cases "unmarshal_Desired b")
  case (Inr d)
  show ?thesis
  proof (cases "applyPartialWith hostagentSensors cfg d")
    case (Inr c)
    then have "1 \<le> ac_sampleIntervalMS c \<and> ac_sampleIntervalMS c \<le> maxInterval"
      using assms(1-3) \<open>unmarshal_Desired b = Inr d\<close>
      by (auto simp: applyPartial_Inr merged_def rates_ok_def maxInterval_def split: option.splits intro!: float_to_int_le)
    moreover have "cfg' = c" "ch' = (case ch of None \<Rightarrow> Some (ac_sampleIntervalMS c) | Some ms \<Rightarrow> Some ms)"
      using assms(5) Inr \<open>unmarshal_Desired b = Inr d\<close> by (auto simp: hostagent_configHandler_def configHandlerWith_def)
    ultimately show ?thesis using assms(4) by (auto split: option.splits)
  qed (use assms(2-5) Inr in \<open>auto simp: hostagent_configHandler_def configHandlerWith_def\<close>)
qed (use assms(2-5) in \<open>auto simp: hostagent_configHandler_def configHandlerWith_def\<close>)

lemma agent_step_interval:
  assumes "interval_ok a" and "\<forall>t b. ev = ConfigMsg t b \<longrightarrow> rates_ok b"
  shows "\<exists>a'. agent_step etext dev ev a = Some a' \<and> interval_ok a'"
proof (cases ev)
  case (Tick e)
  have "ag_cfgState (agent_tick dev e a) = ag_cfgState a" "ag_intervalChanged (agent_tick dev e a) = ag_intervalChanged a"
    by (simp_all add: agent_tick_def Let_def agent_flush_def split: prod.splits)
  with Tick assms(1) show ?thesis by (simp add: interval_ok_def)
next
  case (ConfigMsg t b)
  obtain cfg ch out where h: "hostagent_configHandler etext dev t b (ag_cfgState a, ag_intervalChanged a) = ((cfg, ch), out)"
    by (metis prod.collapse)
  with assms ConfigMsg show ?thesis
    using configHandler_interval [OF _ _ _ _ h] by (simp add: interval_ok_def)
qed (use assms in \<open>auto simp: interval_ok_def ticker_every_Some split: option.splits\<close>)

lemma agent_run_interval:
  "interval_ok a \<Longrightarrow> (\<forall>t b. ConfigMsg t b \<in> set evs \<longrightarrow> rates_ok b) \<Longrightarrow> \<exists>a'. runSamplingLoop etext dev evs a = Some a'"
proof (induction evs arbitrary: a)
  case (Cons ev evs)
  then obtain a1 where "agent_step etext dev ev a = Some a1" "interval_ok a1"
    using agent_step_interval [of a ev etext dev] by auto
  with Cons show ?case by simp
qed simp

text \<open>C28: the agent runs on. Whatever duration the environment gives for its interval, as long as no configuration message it gets asks
  for a slower rate than one reading in 292 years, it panics exactly if that duration is shorter than a millisecond, at its start; from a
  millisecond on no sequence of events makes it panic, what it cannot parse or refuses included.\<close>

theorem agent_runs_on:
  assumes "int64_ok d" and "\<forall>t b. ConfigMsg t b \<in> set evs \<longrightarrow> rates_ok b"
  shows "(\<exists>a. agent_session etext dev (defaultAppliedConfig (Milliseconds d)) t0 evs t1 = Some a) \<longleftrightarrow> millisecond \<le> d"
proof (cases "millisecond \<le> d")
  case True
  then have "1 \<le> Milliseconds d" "Milliseconds d \<le> maxInterval"
    using assms(1) by (auto simp: Milliseconds_def maxInterval_def int64_ok_def)
  then obtain s where "startLoop (defaultAppliedConfig (Milliseconds d)) t0 = Some s" "interval_ok s"
    by (simp add: startLoop_def ticker_every_Some interval_ok_def defaultAppliedConfig_def)
  with True agent_run_interval [of s evs etext dev] assms(2) show ?thesis by (auto simp: agent_session_def)
next
  case False
  have "- maxInterval \<le> Milliseconds d" "Milliseconds d \<le> 0"
    using assms(1) False by (auto simp: Milliseconds_def maxInterval_def int64_ok_def sgn_if)
  then have "ticker_every (Milliseconds d) = None"
    by (simp add: ticker_every_def scaled_def int64_wrap_id maxInterval_def)
  with False show ?thesis by (simp add: agent_session_def startLoop_def defaultAppliedConfig_def)
qed

theorem agent_runs_on_witness:
  "(\<exists>a. agent_session (\<lambda>_. []) ''d1'' (defaultAppliedConfig (Milliseconds (5 * second))) 0 [ConfigMsg 0 None, Tick sampleTick, IntervalChanged] 1 = Some a) \<and>
   (\<nexists>a. agent_session (\<lambda>_. []) ''d1'' (defaultAppliedConfig (Milliseconds 500000)) 0 [ConfigMsg 0 None, Tick sampleTick, IntervalChanged] 1 = Some a)"
proof -
  have "\<forall>t b. ConfigMsg t b \<in> set [ConfigMsg 0 None, Tick sampleTick, IntervalChanged] \<longrightarrow> rates_ok b"
    by (simp add: rates_ok_def unmarshal_Desired_def Unmarshal_def)
  from agent_runs_on [OF _ this] show ?thesis by (simp add: int64_ok_def)
qed

text \<open>A slower rate brings it down. If a configuration is valid and its interval, in nanoseconds, exceeds an
  \<^verbatim>\<open>int64\<close> and wraps around to a negative number, the handler stores it and reports it as applied, and the
  next thing the sampling loop does with it is to panic; as does, since the message is retained, the restarted agent.\<close>

theorem slow_rate_crashes_agent:
  assumes "unmarshal_Desired b = Inr d" and "acceptable hostagentSensors d (merged (ag_cfgState a) d)"
    and "ag_intervalChanged a = None" and "scaled millisecond (ac_sampleIntervalMS (merged (ag_cfgState a) d)) \<le> 0"
  shows "\<exists>a1. agent_step etext dev (ConfigMsg t b) a = Some a1 \<and>
      last (ag_out a1) = publishReportedValue dev t (toReported (merged (ag_cfgState a) d)) \<and>
      agent_step etext dev IntervalChanged a1 = None"
proof -
  have "applyPartialWith hostagentSensors (ag_cfgState a) d = Inr (merged (ag_cfgState a) d)" using assms(2) by (simp add: applyPartial_Inr)
  with assms show ?thesis
    by (auto simp: hostagent_configHandler_def configHandlerWith_def ticker_every_def Let_def)
qed

definition slowDesired :: Desired where
  "slowDesired = zeroDesired\<lparr>d_Revision := 3, d_SampleRateHz := Some (1 / 10 ^ 10)\<rparr>"

lemma slowDesired_decodes: "unmarshal_Desired (Some (marshal_Desired slowDesired)) = Inr slowDesired"
  using Desired_roundtrip [of slowDesired] by (simp add: slowDesired_def zeroDesired_def desired_ok_def drop_empty_def)

theorem slow_rate_crashes_agent_witness:
  "runSamplingLoop (\<lambda>_. []) ''d1'' [ConfigMsg 0 (Some (marshal_Desired slowDesired)), IntervalChanged]
     (batchedAgent\<lparr>ag_cfgState := defaultAppliedConfig 5000\<rparr>) = None"
proof -
  let ?a = "batchedAgent\<lparr>ag_cfgState := defaultAppliedConfig 5000\<rparr>"
  have "float_to_int (10 ^ 13) = 10 ^ 13" by (simp add: float_to_int_def)
  then have "ac_sampleIntervalMS (merged (ag_cfgState ?a) slowDesired) = 10 ^ 13" by (simp add: merged_def slowDesired_def)
  then have "scaled millisecond (ac_sampleIntervalMS (merged (ag_cfgState ?a) slowDesired)) \<le> 0"
    by (simp add: scaled_def int64_wrap_def)
  moreover have "acceptable hostagentSensors slowDesired (merged (ag_cfgState ?a) slowDesired)"
    by (simp add: acceptable_def slowDesired_def zeroDesired_def merged_def defaultAppliedConfig_def ReportingContinuous_def ReportingBatched_def)
  moreover have "ag_intervalChanged ?a = None" by (simp add: batchedAgent_def)
  ultimately show ?thesis
    using slow_rate_crashes_agent [OF slowDesired_decodes, of ?a "\<lambda>_. []" "''d1''" 0] by auto
qed

text \<open>Two quick updates leave the loop at the first one's pace. If a second configuration is applied before the
  loop took the first one's interval from the channel, the second interval is dropped: the loop ticks at the
  first interval with the channel empty, while the agent holds, and reports, the second.\<close>

theorem second_update_keeps_first_ticker:
  assumes "unmarshal_Desired b1 = Inr d1" and "acceptable hostagentSensors d1 (merged (ag_cfgState a) d1)"
    and "unmarshal_Desired b2 = Inr d2" and "acceptable hostagentSensors d2 (merged (merged (ag_cfgState a) d1) d2)"
    and "ag_intervalChanged a = None" and "ticker_every (ac_sampleIntervalMS (merged (ag_cfgState a) d1)) = Some dur"
  shows "\<exists>a'. runSamplingLoop etext dev [ConfigMsg t1 b1, ConfigMsg t2 b2, IntervalChanged] a = Some a' \<and>
      ag_ticker a' = dur \<and> ag_intervalChanged a' = None \<and> ag_cfgState a' = merged (merged (ag_cfgState a) d1) d2 \<and>
      last (ag_out a') = publishReportedValue dev t2 (toReported (merged (merged (ag_cfgState a) d1) d2))"
proof -
  have "applyPartialWith hostagentSensors (ag_cfgState a) d1 = Inr (merged (ag_cfgState a) d1)"
    "applyPartialWith hostagentSensors (merged (ag_cfgState a) d1) d2 = Inr (merged (merged (ag_cfgState a) d1) d2)"
    using assms(2,4) by (simp_all add: applyPartial_Inr)
  with assms show ?thesis by (simp add: hostagent_configHandler_def configHandlerWith_def)
qed

theorem second_update_keeps_first_ticker_witness:
  "\<exists>a'. runSamplingLoop (\<lambda>_. []) ''d1''
      [ConfigMsg 0 (Some (marshal_Desired sampleSent)), ConfigMsg 1 (Some (marshal_Desired (sampleSent\<lparr>d_SampleRateHz := Some 1\<rparr>))), IntervalChanged]
      (batchedAgent\<lparr>ag_cfgState := defaultAppliedConfig 5000\<rparr>) = Some a' \<and>
    ag_ticker a' = 100 * millisecond \<and> ac_sampleIntervalMS (ag_cfgState a') = 1000"
proof -
  let ?a = "batchedAgent\<lparr>ag_cfgState := defaultAppliedConfig 5000\<rparr>"
  let ?d = "sampleSent\<lparr>d_SampleRateHz := Some 1\<rparr>"
  have dec: "unmarshal_Desired (Some (marshal_Desired sampleSent)) = Inr sampleSent" "unmarshal_Desired (Some (marshal_Desired ?d)) = Inr ?d"
    using Desired_roundtrip [of sampleSent] Desired_roundtrip [of ?d]
    by (simp_all add: sampleSent_def sampleDesired_def zeroDesired_def desired_ok_def drop_empty_def)
  have ms: "ac_sampleIntervalMS (merged (ag_cfgState ?a) sampleSent) = 100" "ac_sampleIntervalMS (merged c ?d) = 1000" for c
    by (simp_all add: merged_def sampleSent_def sampleDesired_def float_to_int_def)
  have "acceptable hostagentSensors sampleSent (merged (ag_cfgState ?a) sampleSent)"
    "acceptable hostagentSensors ?d (merged (merged (ag_cfgState ?a) sampleSent) ?d)"
    by (simp_all add: acceptable_def sampleSent_def sampleDesired_def zeroDesired_def merged_def defaultAppliedConfig_def
        ReportingContinuous_def ReportingBatched_def)
  moreover have "ticker_every (ac_sampleIntervalMS (merged (ag_cfgState ?a) sampleSent)) = Some (100 * millisecond)"
    unfolding ms by (subst ticker_every_Some) (simp_all add: maxInterval_def)
  moreover have "ag_intervalChanged ?a = None" by (simp add: batchedAgent_def)
  ultimately show ?thesis
    using second_update_keeps_first_ticker [OF dec(1) _ dec(2), of ?a "100 * millisecond" "\<lambda>_. []" "''d1''" 0 1] ms(2) by auto
qed

end
