(* ===== verification/Fleet.thy ===== *)
theory Fleet
  imports HostAgent
begin

text \<open>
  A virtual device of the simulated fleet, \<^verbatim>\<open>cmd/fleet/device.go\<close>, with its signals
  (\<^verbatim>\<open>signal.go\<close>) and the misbehaviour dial (\<^verbatim>\<open>runtime_config.go\<close>).

  A random source of \<^verbatim>\<open>math/rand\<close> is a stream of draws, about which nothing is assumed but their range. One
  event is an arm of the loop's \<^verbatim>\<open>select\<close> or a callback of the MQTT client; the client's
  \<^verbatim>\<open>OnConnect\<close> callback runs concurrently with \<^verbatim>\<open>connect\<close>, so a connection attempt says whether it ran
  before \<^verbatim>\<open>connect\<close> returned, and otherwise it is an event of its own. The answer of
  \<^verbatim>\<open>IsConnected\<close> is an input of each publish. A step that panics returns \<open>None\<close>. The configuration
  handling is shared with the host agent (theory \<open>AgentConfig\<close>).
\<close>

section \<open>Random sources\<close>

record rng =
  rg_float :: "nat \<Rightarrow> real"
  rg_norm :: "nat \<Rightarrow> real"
  rg_int :: "nat \<Rightarrow> nat"
  rg_pos :: nat

definition rng_ok :: "rng \<Rightarrow> bool" where
  "rng_ok g \<longleftrightarrow> (\<forall>n. 0 \<le> rg_float g n \<and> rg_float g n < 1)"

definition advance :: "rng \<Rightarrow> rng" where
  "advance g = g\<lparr>rg_pos := Suc (rg_pos g)\<rparr>"

definition Float64 :: "rng \<Rightarrow> real \<times> rng" where
  "Float64 g = (rg_float g (rg_pos g), advance g)"

definition NormFloat64 :: "rng \<Rightarrow> real \<times> rng" where
  "NormFloat64 g = (rg_norm g (rg_pos g), advance g)"

text \<open>\<^verbatim>\<open>Intn\<close> panics on an argument that is not positive.\<close>

definition Intn :: "int \<Rightarrow> rng \<Rightarrow> (int \<times> rng) option" where
  "Intn n g = (if n \<le> 0 then None else Some (int (rg_int g (rg_pos g)) mod n, advance g))"

text \<open>\<^verbatim>\<open>rate > 0 && rnd.Float64() < rate\<close>: a draw is made only for a positive rate.\<close>

definition chance :: "real \<Rightarrow> rng \<Rightarrow> bool \<times> rng" where
  "chance rate g = (if rate > 0 then (let (f, g') = Float64 g in (f < rate, g')) else (False, g))"

section \<open>Runtime configuration\<close>

record runtimeConfig =
  rt_MalformedRate :: real
  rt_LatencyJitterMS :: int
  rt_ClockSkewJitterMS :: int
  rt_DisconnectRate :: real
  rt_StepRate :: real
  rt_AnomalyRate :: real

record configPatch =
  cp_MalformedRate :: "real option"
  cp_LatencyJitterMS :: "int option"
  cp_ClockSkewJitterMS :: "int option"
  cp_DisconnectRate :: "real option"
  cp_StepRate :: "real option"
  cp_AnomalyRate :: "real option"

definition configPatch_apply :: "configPatch \<Rightarrow> runtimeConfig \<Rightarrow> runtimeConfig" where
  "configPatch_apply p cur =
     cur\<lparr>rt_MalformedRate := keep (rt_MalformedRate cur) (cp_MalformedRate p),
       rt_LatencyJitterMS := keep (rt_LatencyJitterMS cur) (cp_LatencyJitterMS p),
       rt_ClockSkewJitterMS := keep (rt_ClockSkewJitterMS cur) (cp_ClockSkewJitterMS p),
       rt_DisconnectRate := keep (rt_DisconnectRate cur) (cp_DisconnectRate p),
       rt_StepRate := keep (rt_StepRate cur) (cp_StepRate p),
       rt_AnomalyRate := keep (rt_AnomalyRate cur) (cp_AnomalyRate p)\<rparr>"

section \<open>Signals\<close>

record sensorSignal =
  sg_rnd :: rng
  sg_base :: real
  sg_amplitude :: real
  sg_periodMS :: real
  sg_phase :: real
  sg_driftPerHour :: real
  sg_noiseStdDev :: real
  sg_startMS :: int
  sg_stepOffset :: real

definition newSensorSignal :: "rng \<Rightarrow> real \<Rightarrow> real \<Rightarrow> real \<Rightarrow> real \<Rightarrow> real \<Rightarrow> sensorSignal" where
  "newSensorSignal rnd base amplitude periodMS driftPerHour noiseStdDev =
     (let (f, rnd') = Float64 rnd in
      \<lparr>sg_rnd = rnd', sg_base = base, sg_amplitude = amplitude, sg_periodMS = periodMS, sg_phase = f * 2 * pi,
       sg_driftPerHour = driftPerHour, sg_noiseStdDev = noiseStdDev, sg_startMS = 0, sg_stepOffset = 0\<rparr>)"

definition signal_sample :: "int \<Rightarrow> real \<Rightarrow> real \<Rightarrow> sensorSignal \<Rightarrow> (real \<times> bool) \<times> sensorSignal" where
  "signal_sample nowMS stepRate anomalyRate s0 =
     (let s = (if sg_startMS s0 = 0 then s0\<lparr>sg_startMS := nowMS\<rparr> else s0);
          elapsedMS = real_of_int (int64_wrap (nowMS - sg_startMS s));
          elapsedHours = elapsedMS / 3600000;
          angle = 2 * pi * elapsedMS / sg_periodMS s + sg_phase s;
          (step, g1) = chance stepRate (sg_rnd s);
          (offset, g2) =
            (if step then (let (f, g) = Float64 g1 in (sg_stepOffset s + (f * 2 - 1) * sg_amplitude s * 0.5, g))
             else (sg_stepOffset s, g1));
          (noise, g3) = NormFloat64 g2;
          v = sg_base s + sg_amplitude s * sin angle + sg_driftPerHour s * elapsedHours + noise * sg_noiseStdDev s + offset;
          (anomaly, g4) = chance anomalyRate g3 in
      if anomaly then
        (let (f1, g5) = Float64 g4; (f2, g6) = Float64 g5;
             size = sg_amplitude s * (3 + f1 * 4);
             spike = (if f2 < 0.5 then - size else size) in
         ((v + spike, True), s\<lparr>sg_stepOffset := offset, sg_rnd := g6\<rparr>))
      else ((v, False), s\<lparr>sg_stepOffset := offset, sg_rnd := g4\<rparr>))"

section \<open>Device\<close>

record deviceStats =
  ds_connected :: bool
  ds_partitioned :: bool
  ds_published :: u64
  ds_publishErrors :: u64
  ds_malformedSent :: u64
  ds_anomaliesSent :: u64
  ds_reconnects :: u64
  ds_lastSeq :: u64

text \<open>The device's struct and, after it, the local variables of its loop and what it handed to the client.\<close>

record virtualDevice =
  vd_idx :: int
  vd_deviceID :: string
  vd_cfgState :: appliedConfig
  vd_stats :: deviceStats
  vd_temperature :: sensorSignal
  vd_humidity :: sensorSignal
  vd_accelX :: sensorSignal
  vd_accelY :: sensorSignal
  vd_accelZ :: sensorSignal
  vd_partitionCh :: "duration option"
  vd_rnd :: rng
  vd_seq :: u64
  vd_pending :: "Reading list"
  vd_lastFlush :: time
  vd_partitioned :: bool
  vd_healAt :: time
  vd_lastReconnectAttempt :: time
  vd_out :: "(string \<times> body) list"

definition zeroStats :: deviceStats where
  "zeroStats = \<lparr>ds_connected = False, ds_partitioned = False, ds_published = 0, ds_publishErrors = 0, ds_malformedSent = 0,
     ds_anomaliesSent = 0, ds_reconnects = 0, ds_lastSeq = 0\<rparr>"

text \<open>\<open>src seed\<close> is \<^verbatim>\<open>rand.New(rand.NewSource(seed))\<close>; the loop starts at time \<open>now\<close>.\<close>

definition newVirtualDevice :: "(int \<Rightarrow> rng) \<Rightarrow> int \<Rightarrow> string \<Rightarrow> int \<Rightarrow> time \<Rightarrow> virtualDevice" where
  "newVirtualDevice src idx deviceID sampleIntervalMS now =
     \<lparr>vd_idx = idx, vd_deviceID = deviceID, vd_cfgState = defaultAppliedConfig sampleIntervalMS, vd_stats = zeroStats,
      vd_temperature = newSensorSignal (src (idx * 10 + 1)) 22 3 60000 0.05 0.3,
      vd_humidity = newSensorSignal (src (idx * 10 + 2)) 45 10 90000 (- 0.02) 1,
      vd_accelX = newSensorSignal (src (idx * 10 + 3)) 0 0.3 5000 0 0.05,
      vd_accelY = newSensorSignal (src (idx * 10 + 4)) 0 0.3 6000 0 0.05,
      vd_accelZ = newSensorSignal (src (idx * 10 + 5)) 9.8 0.1 7000 0 0.03,
      vd_partitionCh = None, vd_rnd = src (idx * 7919 + 13), vd_seq = 0, vd_pending = [], vd_lastFlush = now,
      vd_partitioned = False, vd_healAt = zeroTime, vd_lastReconnectAttempt = zeroTime, vd_out = []\<rparr>"

definition upd_stats :: "(deviceStats \<Rightarrow> deviceStats) \<Rightarrow> virtualDevice \<Rightarrow> virtualDevice" where
  "upd_stats f d = d\<lparr>vd_stats := f (vd_stats d)\<rparr>"

definition recordAnomaly :: "virtualDevice \<Rightarrow> virtualDevice" where
  "recordAnomaly = upd_stats (\<lambda>s. s\<lparr>ds_anomaliesSent := ds_anomaliesSent s + 1\<rparr>)"

definition recordPublishError :: "virtualDevice \<Rightarrow> virtualDevice" where
  "recordPublishError = upd_stats (\<lambda>s. s\<lparr>ds_publishErrors := ds_publishErrors s + 1\<rparr>)"

subsection \<open>Connecting\<close>

text \<open>The result of \<^verbatim>\<open>connect\<close>: whether it returned an error, and the time of its callback if that subscribed
  and reported before the return.\<close>

record conn =
  cr_err :: bool
  cr_sub :: "time option"

definition onSubscribed :: "time \<Rightarrow> virtualDevice \<Rightarrow> virtualDevice" where
  "onSubscribed t d =
     (let (topic, m) = publishReportedValue (vd_deviceID d) t (toReported (vd_cfgState d)) in
      upd_stats (\<lambda>s. s\<lparr>ds_connected := True\<rparr>) (d\<lparr>vd_out := vd_out d @ [(topic, Some (m_payload m))]\<rparr>))"

definition device_connect :: "conn \<Rightarrow> virtualDevice \<Rightarrow> virtualDevice" where
  "device_connect c d = (case cr_sub c of None \<Rightarrow> d | Some t \<Rightarrow> onSubscribed t d)"

text \<open>The loop of \<^verbatim>\<open>run\<close> that connects for the first time: the waits between its attempts, the device
  it leaves and whether an attempt succeeded; if none did, the context ended in the last wait. The callback of a
  failed attempt is one that ran before the next attempt or the end.\<close>

fun connectLoop :: "conn list \<Rightarrow> duration \<Rightarrow> virtualDevice \<Rightarrow> duration list \<times> virtualDevice \<times> bool" where
  "connectLoop [] backoff d = ([], d, False)"
| "connectLoop (c # cs) backoff d =
     (let d1 = device_connect c d in
      if cr_err c then
        (let (ws, res) = connectLoop cs (if backoff < 30 * second then backoff * 2 else backoff) d1 in (backoff # ws, res))
      else ([], d1, True))"

subsection \<open>Collecting and publishing\<close>

definition fleetReading :: "string \<Rightarrow> string \<Rightarrow> real option \<Rightarrow> (string \<times> real) list option \<Rightarrow> int \<Rightarrow> 8 word list \<Rightarrow> Reading" where
  "fleetReading deviceID sensorType v vs nowMS trace =
     \<lparr>rSchemaVersion = SchemaVersion, rDeviceID = deviceID, rSensorType = sensorType, rValue = v, rValues = vs,
      rDeviceTimeMS = nowMS, rSeq = 0, rTraceID = NewTraceID trace\<rparr>"

definition collectTemperature :: "int \<Rightarrow> (nat \<Rightarrow> 8 word list) \<Rightarrow> appliedConfig \<Rightarrow> runtimeConfig \<Rightarrow> virtualDevice \<Rightarrow> Reading list \<times> virtualDevice" where
  "collectTemperature nowMS trace cfg rt d =
     (if sensorEnabled cfg ''temperature'' then
        (let ((v, anomaly), s) = signal_sample nowMS (rt_StepRate rt) (rt_AnomalyRate rt) (vd_temperature d);
             d1 = d\<lparr>vd_temperature := s\<rparr>;
             d2 = (if anomaly then recordAnomaly d1 else d1) in
         ([fleetReading (vd_deviceID d) ''temperature'' (Some v) None nowMS (trace 0)], d2))
      else ([], d))"

definition collectHumidity :: "int \<Rightarrow> (nat \<Rightarrow> 8 word list) \<Rightarrow> appliedConfig \<Rightarrow> runtimeConfig \<Rightarrow> virtualDevice \<Rightarrow> Reading list \<times> virtualDevice" where
  "collectHumidity nowMS trace cfg rt d =
     (if sensorEnabled cfg ''humidity'' then
        (let ((v, anomaly), s) = signal_sample nowMS (rt_StepRate rt) (rt_AnomalyRate rt) (vd_humidity d);
             d1 = d\<lparr>vd_humidity := s\<rparr>;
             d2 = (if anomaly then recordAnomaly d1 else d1) in
         ([fleetReading (vd_deviceID d) ''humidity'' (Some v) None nowMS (trace 1)], d2))
      else ([], d))"

definition collectAccel :: "int \<Rightarrow> (nat \<Rightarrow> 8 word list) \<Rightarrow> appliedConfig \<Rightarrow> runtimeConfig \<Rightarrow> virtualDevice \<Rightarrow> Reading list \<times> virtualDevice" where
  "collectAccel nowMS trace cfg rt d =
     (if sensorEnabled cfg ''accel'' then
        (let ((x, ax), sx) = signal_sample nowMS (rt_StepRate rt) (rt_AnomalyRate rt) (vd_accelX d);
             ((y, ay), sy) = signal_sample nowMS (rt_StepRate rt) (rt_AnomalyRate rt) (vd_accelY d);
             ((z, az), sz) = signal_sample nowMS (rt_StepRate rt) (rt_AnomalyRate rt) (vd_accelZ d);
             d1 = d\<lparr>vd_accelX := sx, vd_accelY := sy, vd_accelZ := sz\<rparr>;
             d2 = (if ax \<or> ay \<or> az then recordAnomaly d1 else d1) in
         ([fleetReading (vd_deviceID d) ''accel'' None (Some [(''x'', x), (''y'', y), (''z'', z)]) nowMS (trace 2)], d2))
      else ([], d))"

definition fleet_collect :: "int \<Rightarrow> (nat \<Rightarrow> 8 word list) \<Rightarrow> appliedConfig \<Rightarrow> runtimeConfig \<Rightarrow> virtualDevice \<Rightarrow> Reading list \<times> virtualDevice" where
  "fleet_collect nowMS trace cfg rt d =
     (let (r1, d1) = collectTemperature nowMS trace cfg rt d;
          (r2, d2) = collectHumidity nowMS trace cfg rt d1;
          (r3, d3) = collectAccel nowMS trace cfg rt d2 in
      (r1 @ r2 @ r3, d3))"

text \<open>A strict prefix of an object's text is not JSON.\<close>

definition malformedPayload :: "Reading \<Rightarrow> rng \<Rightarrow> (body \<times> rng) option" where
  "malformedPayload r rnd =
     (case Intn 3 rnd of
        None \<Rightarrow> None
      | Some (k, rnd') \<Rightarrow>
          Some (if k = 0 then None
                else if k = 1 then Some (marshal_Reading (r\<lparr>rSchemaVersion := ''0.9''\<rparr>))
                else Some (marshal_Reading (r\<lparr>rDeviceID := []\<rparr>)), rnd'))"

definition publishOne :: "runtimeConfig \<Rightarrow> bool \<Rightarrow> Reading \<Rightarrow> virtualDevice \<Rightarrow> virtualDevice option" where
  "publishOne rt isConnected r d =
     (case (if rt_LatencyJitterMS rt > 0 then Intn (int64_wrap (rt_LatencyJitterMS rt + 1)) (vd_rnd d) else Some (0, vd_rnd d)) of
        None \<Rightarrow> None
      | Some (_, g1) \<Rightarrow>
          (let (bad, g2) = chance (rt_MalformedRate rt) g1 in
           case (if bad then malformedPayload r g2 else Some (Some (marshal_Reading r), g2)) of
             None \<Rightarrow> None
           | Some (body, g3) \<Rightarrow>
               (let d1 = d\<lparr>vd_rnd := g3\<rparr>;
                    d2 = (if bad then upd_stats (\<lambda>s. s\<lparr>ds_malformedSent := ds_malformedSent s + 1\<rparr>) d1 else d1) in
                Some (if \<not> isConnected then recordPublishError d2
                      else upd_stats (\<lambda>s. s\<lparr>ds_published := ds_published s + 1\<rparr>)
                             (d2\<lparr>vd_out := vd_out d2 @ [(TelemetryTopic (vd_deviceID d), body)]\<rparr>)))))"

text \<open>\<open>up n\<close> is what \<^verbatim>\<open>IsConnected\<close> answers for the \<open>n\<close>-th reading.\<close>

fun publishAll :: "runtimeConfig \<Rightarrow> (nat \<Rightarrow> bool) \<Rightarrow> nat \<Rightarrow> Reading list \<Rightarrow> virtualDevice \<Rightarrow> virtualDevice option" where
  "publishAll rt up n [] d = Some d"
| "publishAll rt up n (r # rs) d =
     (case publishOne rt (up n) r d of None \<Rightarrow> None | Some d' \<Rightarrow> publishAll rt up (Suc n) rs d')"

definition fleet_flush :: "runtimeConfig \<Rightarrow> (nat \<Rightarrow> bool) \<Rightarrow> time \<Rightarrow> virtualDevice \<Rightarrow> virtualDevice option" where
  "fleet_flush rt up now d =
     (case publishAll rt up 0 (vd_pending d) d of
        None \<Rightarrow> None | Some d' \<Rightarrow> Some (d'\<lparr>vd_pending := [], vd_lastFlush := now\<rparr>))"

subsection \<open>The loop\<close>

fun numberReadings :: "Reading list \<Rightarrow> virtualDevice \<Rightarrow> virtualDevice" where
  "numberReadings [] d = d"
| "numberReadings (r # rs) d =
     (let seq = vd_seq d + 1 in
      numberReadings rs (d\<lparr>vd_seq := seq, vd_pending := vd_pending d @ [r\<lparr>rSeq := seq\<rparr>]\<rparr>))"

record fleet_env =
  fe_rt :: runtimeConfig
  fe_flushRt :: runtimeConfig
  fe_beforeHeal :: time
  fe_retryFrom :: time
  fe_heal :: conn
  fe_flaky :: conn
  fe_sinceAttempt :: time
  fe_attempt :: time
  fe_reconn :: conn
  fe_sample :: time
  fe_trace :: "nat \<Rightarrow> 8 word list"
  fe_sinceFlush :: time
  fe_flush :: time
  fe_up :: "nat \<Rightarrow> bool"

definition countReconnect :: "virtualDevice \<Rightarrow> virtualDevice" where
  "countReconnect = upd_stats (\<lambda>s. s\<lparr>ds_reconnects := ds_reconnects s + 1\<rparr>)"

definition reconnectBackoff :: duration where
  "reconnectBackoff = 3 * second"

text \<open>The tick of a partitioned device.\<close>

definition tick_partitioned :: "fleet_env \<Rightarrow> virtualDevice \<Rightarrow> virtualDevice" where
  "tick_partitioned e d =
     (if fe_beforeHeal e < vd_healAt d then d
      else
        (let d1 = device_connect (fe_heal e) d in
         if cr_err (fe_heal e) then d1\<lparr>vd_healAt := fe_retryFrom e + second\<rparr>
         else countReconnect (upd_stats (\<lambda>s. s\<lparr>ds_partitioned := False\<rparr>) (d1\<lparr>vd_partitioned := False\<rparr>))))"

text \<open>The voluntary disconnect: whether the tick goes on.\<close>

definition tick_flaky :: "fleet_env \<Rightarrow> virtualDevice \<Rightarrow> bool \<times> virtualDevice" where
  "tick_flaky e d =
     (let (flaky, g) = chance (rt_DisconnectRate (fe_rt e)) (vd_rnd d); d0 = d\<lparr>vd_rnd := g\<rparr> in
      if flaky then
        (let d1 = device_connect (fe_flaky e) (upd_stats (\<lambda>s. s\<lparr>ds_connected := False\<rparr>) d0) in
         if cr_err (fe_flaky e) then (False, d1) else (True, countReconnect d1))
      else (True, d0))"

definition tick_reconnect :: "fleet_env \<Rightarrow> virtualDevice \<Rightarrow> virtualDevice" where
  "tick_reconnect e d =
     (if time_sub (fe_sinceAttempt e) (vd_lastReconnectAttempt d) \<ge> reconnectBackoff then
        (let d1 = device_connect (fe_reconn e) (d\<lparr>vd_lastReconnectAttempt := fe_attempt e\<rparr>) in
         if cr_err (fe_reconn e) then d1 else countReconnect d1)
      else d)"

definition skewedNow :: "fleet_env \<Rightarrow> rng \<Rightarrow> (int \<times> rng) option" where
  "skewedNow e g =
     (let nowMS = UnixMilli (fe_sample e); j = rt_ClockSkewJitterMS (fe_rt e) in
      if j > 0 then
        (case Intn (int64_wrap (2 * j)) g of
           None \<Rightarrow> None | Some (k, g') \<Rightarrow> Some (int64_wrap (nowMS + int64_wrap (k - j)), g'))
      else Some (nowMS, g))"

definition tick_sample :: "fleet_env \<Rightarrow> appliedConfig \<Rightarrow> virtualDevice \<Rightarrow> virtualDevice option" where
  "tick_sample e cfg d =
     (case skewedNow e (vd_rnd d) of
        None \<Rightarrow> None
      | Some (nowMS, g) \<Rightarrow>
          (let (rs, d1) = fleet_collect nowMS (fe_trace e) cfg (fe_rt e) (d\<lparr>vd_rnd := g\<rparr>);
               d2 = numberReadings rs d1;
               d3 = upd_stats (\<lambda>s. s\<lparr>ds_lastSeq := vd_seq d2\<rparr>) d2;
               sizeHit = ac_batchSize cfg > 0 \<and> int (length (vd_pending d3)) \<ge> ac_batchSize cfg;
               timeHit = ac_flushIntervalMS cfg > 0 \<and>
                 time_sub (fe_sinceFlush e) (vd_lastFlush d3) \<ge> scaled millisecond (ac_flushIntervalMS cfg) in
           if ac_mode cfg \<noteq> ReportingBatched \<or> sizeHit \<or> timeHit then fleet_flush (fe_flushRt e) (fe_up e) (fe_flush e) d3
           else Some d3))"

text \<open>The whole tick: the ticker is reset to the current interval first.\<close>

definition fleet_tick :: "fleet_env \<Rightarrow> virtualDevice \<Rightarrow> virtualDevice option" where
  "fleet_tick e d =
     (let cfg = vd_cfgState d in
      case ticker_every (ac_sampleIntervalMS cfg) of
        None \<Rightarrow> None
      | Some _ \<Rightarrow>
          if vd_partitioned d then Some (tick_partitioned e d)
          else
            (let (goon, d1) = tick_flaky e d in
             if \<not> goon then Some d1
             else if \<not> ds_connected (vd_stats d1) then Some (tick_reconnect e d1)
             else tick_sample e cfg d1))"

datatype fleet_event =
    FleetTick fleet_env
  | PartitionSignal time
  | ConfigMessage time body
  | OnConnect time
  | ConnectionLost

fun fleet_step :: "(config_error \<Rightarrow> string) \<Rightarrow> fleet_event \<Rightarrow> virtualDevice \<Rightarrow> virtualDevice option" where
  "fleet_step etext (FleetTick e) d = fleet_tick e d"
| "fleet_step etext (PartitionSignal now) d =
     (case vd_partitionCh d of
        None \<Rightarrow> Some d
      | Some dur \<Rightarrow>
          (let d1 = d\<lparr>vd_partitionCh := None\<rparr> in
           Some (if vd_partitioned d then d1
                 else upd_stats (\<lambda>s. s\<lparr>ds_partitioned := True, ds_connected := False\<rparr>)
                        (d1\<lparr>vd_partitioned := True, vd_healAt := now + dur\<rparr>))))"
| "fleet_step etext (ConfigMessage now payload) d =
     (let (cfg, out) = fleet_configHandler etext (vd_deviceID d) now payload (vd_cfgState d) in
      Some (d\<lparr>vd_cfgState := cfg, vd_out := vd_out d @ map (\<lambda>(t, m). (t, Some (m_payload m))) out\<rparr>))"
| "fleet_step etext (OnConnect now) d = Some (onSubscribed now d)"
| "fleet_step etext ConnectionLost d = Some (upd_stats (\<lambda>s. s\<lparr>ds_connected := False\<rparr>) d)"

fun sampleEvents :: "(config_error \<Rightarrow> string) \<Rightarrow> fleet_event list \<Rightarrow> virtualDevice \<Rightarrow> virtualDevice option" where
  "sampleEvents etext [] d = Some d"
| "sampleEvents etext (ev # evs) d =
     (case fleet_step etext ev d of None \<Rightarrow> None | Some d' \<Rightarrow> sampleEvents etext evs d')"

text \<open>The arm of the cancelled context returns at once: what is pending is dropped.\<close>

definition sampleLoop :: "(config_error \<Rightarrow> string) \<Rightarrow> fleet_event list \<Rightarrow> virtualDevice \<Rightarrow> virtualDevice option" where
  "sampleLoop etext evs d =
     (case ticker_every (ac_sampleIntervalMS (vd_cfgState d)) of None \<Rightarrow> None | Some _ \<Rightarrow> sampleEvents etext evs d)"

text \<open>What \<^verbatim>\<open>run\<close> does when the loop has returned.\<close>

definition stopDevice :: "virtualDevice \<Rightarrow> virtualDevice" where
  "stopDevice d = upd_stats (\<lambda>s. s\<lparr>ds_connected := False\<rparr>) d"

text \<open>A device's life. \<open>delayOver\<close> says that the start delay ended before the context did; the deferred
  function is registered only after the first successful attempt.\<close>

definition device_run :: "(config_error \<Rightarrow> string) \<Rightarrow> bool \<Rightarrow> conn list \<Rightarrow> fleet_event list \<Rightarrow> virtualDevice
    \<Rightarrow> duration list \<times> virtualDevice option" where
  "device_run etext delayOver conns evs d =
     (if \<not> delayOver then ([], Some d)
      else
        (case connectLoop conns second d of
           (ws, d1, False) \<Rightarrow> (ws, Some d1)
         | (ws, d1, True) \<Rightarrow> (ws, map_option stopDevice (sampleLoop etext evs d1))))"

section \<open>Lemmas\<close>

lemmas stats_defs = upd_stats_def recordAnomaly_def recordPublishError_def countReconnect_def

text \<open>The account of the readings: each was published, failed, or is pending.\<close>

definition telemetry_sent :: "virtualDevice \<Rightarrow> nat" where
  "telemetry_sent d = length (filter (\<lambda>m. fst m = TelemetryTopic (vd_deviceID d)) (vd_out d))"

definition accounted :: "virtualDevice \<Rightarrow> bool" where
  "accounted d \<longleftrightarrow> ds_published (vd_stats d) + ds_publishErrors (vd_stats d) + of_nat (length (vd_pending d)) = vd_seq d \<and>
     ds_lastSeq (vd_stats d) = vd_seq d \<and> ds_published (vd_stats d) = of_nat (telemetry_sent d)"

lemmas account_defs = accounted_def telemetry_sent_def stats_defs

text \<open>Steps that leave the account alone.\<close>

definition same_account :: "virtualDevice \<Rightarrow> virtualDevice \<Rightarrow> bool" where
  "same_account d d' \<longleftrightarrow> vd_pending d' = vd_pending d \<and> vd_seq d' = vd_seq d \<and> vd_deviceID d' = vd_deviceID d \<and>
     ds_published (vd_stats d') = ds_published (vd_stats d) \<and> ds_publishErrors (vd_stats d') = ds_publishErrors (vd_stats d) \<and>
     ds_lastSeq (vd_stats d') = ds_lastSeq (vd_stats d) \<and> telemetry_sent d' = telemetry_sent d"

lemma same_account_accounted: "same_account d d' \<Longrightarrow> accounted d \<Longrightarrow> accounted d'"
  by (auto simp: same_account_def accounted_def)

lemma same_account_refl [simp]: "same_account d d"
  by (simp add: same_account_def)

lemma same_account_trans: "same_account a b \<Longrightarrow> same_account b c \<Longrightarrow> same_account a c"
  by (simp add: same_account_def)

lemma same_account_onSubscribed [simp]: "same_account d (onSubscribed t d)"
  by (simp add: same_account_def onSubscribed_def publishReportedValue_def account_defs)

lemma same_account_connect [simp]: "same_account d (device_connect c d)"
  by (simp add: device_connect_def split: option.split)

lemma same_account_upd:
  "same_account d (upd_stats (\<lambda>s. s\<lparr>ds_connected := b\<rparr>) d)" "same_account d (countReconnect d)"
  "same_account d (upd_stats (\<lambda>s. s\<lparr>ds_partitioned := b\<rparr>) d)" "same_account d (d\<lparr>vd_rnd := g\<rparr>)"
  "same_account d (d\<lparr>vd_partitioned := b\<rparr>)" "same_account d (d\<lparr>vd_healAt := t\<rparr>)" "same_account d (d\<lparr>vd_lastReconnectAttempt := t\<rparr>)"
  by (simp_all add: same_account_def account_defs)

lemma same_account_partitioned: "same_account d (tick_partitioned e d)"
  unfolding tick_partitioned_def Let_def
  by (auto intro: same_account_upd same_account_trans [OF same_account_connect]
      same_account_trans [OF same_account_trans [OF same_account_connect same_account_upd(5)] same_account_trans [OF same_account_upd(3) same_account_upd(2)]])

lemma same_account_flaky: "same_account d (snd (tick_flaky e d))"
proof -
  have "same_account d (device_connect (fe_flaky e) (upd_stats (\<lambda>s. s\<lparr>ds_connected := False\<rparr>) (d\<lparr>vd_rnd := g\<rparr>)))" for g
    by (rule same_account_trans [OF same_account_upd(4) same_account_trans [OF same_account_upd(1) same_account_connect]])
  then show ?thesis
    by (auto simp: tick_flaky_def Let_def split: prod.splits intro: same_account_upd same_account_trans [OF _ same_account_upd(2)])
qed

lemma same_account_reconnect: "same_account d (tick_reconnect e d)"
proof -
  have "same_account d (device_connect (fe_reconn e) (d\<lparr>vd_lastReconnectAttempt := fe_attempt e\<rparr>))"
    by (rule same_account_trans [OF same_account_upd(7) same_account_connect])
  then show ?thesis by (auto simp: tick_reconnect_def Let_def intro: same_account_trans [OF _ same_account_upd(2)])
qed

lemma same_account_collect: "same_account d (snd (fleet_collect nowMS trace cfg rt d))"
proof -
  have t: "same_account d (snd (collectTemperature nowMS trace cfg rt d))" for d
    by (simp add: collectTemperature_def same_account_def account_defs Let_def split: prod.splits)
  have h: "same_account d (snd (collectHumidity nowMS trace cfg rt d))" for d
    by (simp add: collectHumidity_def same_account_def account_defs Let_def split: prod.splits)
  have a: "same_account d (snd (collectAccel nowMS trace cfg rt d))" for d
    by (simp add: collectAccel_def same_account_def account_defs Let_def split: prod.splits)
  have "snd (fleet_collect nowMS trace cfg rt d) =
      snd (collectAccel nowMS trace cfg rt (snd (collectHumidity nowMS trace cfg rt (snd (collectTemperature nowMS trace cfg rt d)))))"
    by (simp add: fleet_collect_def split: prod.splits)
  with same_account_trans [OF t same_account_trans [OF h a]] show ?thesis by simp
qed

lemma numberReadings_frame:
  "vd_stats (numberReadings rs d) = vd_stats d" "vd_out (numberReadings rs d) = vd_out d"
  "vd_deviceID (numberReadings rs d) = vd_deviceID d"
  "length (vd_pending (numberReadings rs d)) = length (vd_pending d) + length rs"
  "vd_seq (numberReadings rs d) = vd_seq d + of_nat (length rs)"
  by (induction rs d rule: numberReadings.induct) (auto simp: Let_def algebra_simps)

lemma publishOne_account:
  assumes "publishOne rt up r d = Some d'"
  shows "vd_pending d' = vd_pending d \<and> vd_seq d' = vd_seq d \<and> vd_deviceID d' = vd_deviceID d \<and>
     ds_lastSeq (vd_stats d') = ds_lastSeq (vd_stats d) \<and>
     ds_published (vd_stats d') + ds_publishErrors (vd_stats d') = ds_published (vd_stats d) + ds_publishErrors (vd_stats d) + 1 \<and>
     (ds_published (vd_stats d) = of_nat (telemetry_sent d) \<longrightarrow> ds_published (vd_stats d') = of_nat (telemetry_sent d'))"
  using assms by (auto simp: publishOne_def telemetry_sent_def stats_defs Let_def split: option.splits prod.splits if_splits)

lemma publishAll_account:
  assumes "publishAll rt up n rs d = Some d'"
  shows "vd_pending d' = vd_pending d \<and> vd_seq d' = vd_seq d \<and> vd_deviceID d' = vd_deviceID d \<and>
     ds_lastSeq (vd_stats d') = ds_lastSeq (vd_stats d) \<and>
     ds_published (vd_stats d') + ds_publishErrors (vd_stats d') =
       ds_published (vd_stats d) + ds_publishErrors (vd_stats d) + of_nat (length rs) \<and>
     (ds_published (vd_stats d) = of_nat (telemetry_sent d) \<longrightarrow> ds_published (vd_stats d') = of_nat (telemetry_sent d'))"
  using assms
proof (induction rs arbitrary: n d)
  case (Cons r rs)
  then obtain d1 where one: "publishOne rt (up n) r d = Some d1" and all: "publishAll rt up (Suc n) rs d1 = Some d'"
    by (auto split: option.splits)
  from Cons.IH [OF all] publishOne_account [OF one] show ?case by (simp add: add.commute add.left_commute)
qed simp

lemma fleet_flush_account:
  assumes "accounted d" and "fleet_flush rt up t d = Some d'"
  shows "accounted d'"
proof -
  obtain d1 where all: "publishAll rt up 0 (vd_pending d) d = Some d1" and d': "d' = d1\<lparr>vd_pending := [], vd_lastFlush := t\<rparr>"
    using assms(2) by (auto simp: fleet_flush_def split: option.splits)
  show ?thesis using publishAll_account [OF all] assms(1) by (auto simp: accounted_def d' telemetry_sent_def)
qed

lemma tick_sample_account:
  assumes "accounted d" and "tick_sample e cfg d = Some d'"
  shows "accounted d'"
proof -
  obtain nowMS g where skew: "skewedNow e (vd_rnd d) = Some (nowMS, g)"
    using assms(2) by (auto simp: tick_sample_def split: option.splits)
  obtain rs d1 where c: "fleet_collect nowMS (fe_trace e) cfg (fe_rt e) (d\<lparr>vd_rnd := g\<rparr>) = (rs, d1)"
    by (cases "fleet_collect nowMS (fe_trace e) cfg (fe_rt e) (d\<lparr>vd_rnd := g\<rparr>)")
  have "accounted d1"
    using assms(1) same_account_collect [of "d\<lparr>vd_rnd := g\<rparr>" nowMS "fe_trace e" cfg "fe_rt e"] c
      same_account_accounted same_account_trans [OF same_account_upd(4)] by (metis snd_conv)
  define d3 where "d3 = upd_stats (\<lambda>s. s\<lparr>ds_lastSeq := vd_seq (numberReadings rs d1)\<rparr>) (numberReadings rs d1)"
  have "accounted d3"
    using \<open>accounted d1\<close> numberReadings_frame [of rs d1] by (auto simp: d3_def account_defs algebra_simps)
  moreover have "d' = d3 \<or> fleet_flush (fe_flushRt e) (fe_up e) (fe_flush e) d3 = Some d'"
    using assms(2) skew c by (auto simp: tick_sample_def d3_def Let_def split: if_splits)
  ultimately show ?thesis using fleet_flush_account by blast
qed

lemma fleet_tick_account:
  assumes "accounted d" and "fleet_tick e d = Some d'"
  shows "accounted d'"
proof -
  obtain goon d1 where f: "tick_flaky e d = (goon, d1)" by (cases "tick_flaky e d")
  then have "accounted d1" using assms(1) same_account_flaky [of d e] same_account_accounted by (metis snd_conv)
  have "d' = tick_partitioned e d \<or> d' = d1 \<or> d' = tick_reconnect e d1 \<or> tick_sample e (vd_cfgState d) d1 = Some d'"
    using assms(2) f by (auto simp: fleet_tick_def Let_def split: option.splits if_splits)
  then show ?thesis
    using assms(1) \<open>accounted d1\<close> same_account_partitioned same_account_reconnect same_account_accounted tick_sample_account by blast
qed

lemma fleet_config_state: "m \<in> set (snd (fleet_configHandler etext dev t b c)) \<Longrightarrow> fst m = StateTopic dev"
  by (auto simp: fleet_configHandler_def configHandlerWith_def publishReportedValue_def split: prod.splits sum.splits option.splits)

lemma fleet_step_account:
  assumes "accounted d" and "fleet_step etext ev d = Some d'"
  shows "accounted d'"
proof (cases ev)
  case (ConfigMessage t b)
  obtain cfg out where h: "fleet_configHandler etext (vd_deviceID d) t b (vd_cfgState d) = (cfg, out)"
    by (cases "fleet_configHandler etext (vd_deviceID d) t b (vd_cfgState d)")
  have "filter (\<lambda>m. fst m = TelemetryTopic (vd_deviceID d)) (map (\<lambda>(t, m). (t, Some (m_payload m))) out) = []"
    using fleet_config_state [of _ etext "vd_deviceID d" t b "vd_cfgState d"] h by (force simp: filter_empty_conv)
  then have "same_account d d'" using assms(2) ConfigMessage h by (auto simp: same_account_def telemetry_sent_def)
  then show ?thesis using assms(1) same_account_accounted by blast
next
  case (FleetTick e)
  with assms fleet_tick_account show ?thesis by simp
next
  case (OnConnect t)
  with assms show ?thesis using same_account_accounted [OF same_account_onSubscribed] by auto
next
  case ConnectionLost
  with assms show ?thesis using same_account_accounted [OF same_account_upd(1)] by auto
qed (use assms in \<open>auto simp: account_defs Let_def split: option.splits\<close>)

lemma sampleEvents_account: "accounted d \<Longrightarrow> sampleEvents etext evs d = Some d' \<Longrightarrow> accounted d'"
proof (induction evs arbitrary: d)
  case (Cons ev evs)
  then obtain d1 where "fleet_step etext ev d = Some d1" "sampleEvents etext evs d1 = Some d'" by (auto split: option.splits)
  with Cons fleet_step_account show ?case by blast
qed simp

lemma same_account_stop [simp]: "same_account d (stopDevice d)"
  unfolding stopDevice_def by (rule same_account_upd)

lemma connectLoop_account: "same_account d (fst (snd (connectLoop cs b d)))"
proof (induction cs arbitrary: b d)
  case (Cons c cs)
  show ?case using same_account_trans [OF same_account_connect Cons.IH]
    by (simp add: Let_def case_prod_unfold)
qed simp

lemma device_run_account:
  assumes "accounted d" and "device_run etext delayOver conns evs d = (ws, Some d')"
  shows "accounted d'"
proof -
  obtain ws1 d1 ok where c: "connectLoop conns second d = (ws1, d1, ok)" by (rule prod_cases3)
  have acc: "accounted d1" using connectLoop_account [of d conns second] assms(1) same_account_accounted by (simp add: c)
  have run: "accounted d2" if "sampleLoop etext evs d1 = Some d2" for d2
    using sampleEvents_account [OF acc] that by (simp add: sampleLoop_def split: option.splits)
  consider "d' = d" | "d' = d1" | d2 where "sampleLoop etext evs d1 = Some d2" "d' = stopDevice d2"
    using assms(2) c by (auto simp: device_run_def split: if_splits bool.splits)
  then show ?thesis using assms(1) acc run same_account_accounted [OF same_account_stop] by cases auto
qed

text \<open>While a partition lasts.\<close>

definition quiet :: "time \<Rightarrow> fleet_event \<Rightarrow> bool" where
  "quiet healAt ev \<longleftrightarrow> (case ev of FleetTick e \<Rightarrow> fe_beforeHeal e < healAt | PartitionSignal _ \<Rightarrow> True | ConnectionLost \<Rightarrow> True | _ \<Rightarrow> False)"

lemma quiet_step:
  assumes "vd_partitioned d" and "quiet (vd_healAt d) ev" and "fleet_step etext ev d = Some d'"
  shows "vd_partitioned d' \<and> vd_healAt d' = vd_healAt d \<and> vd_out d' = vd_out d \<and> vd_seq d' = vd_seq d"
  using assms
  by (cases ev) (auto simp: quiet_def fleet_tick_def tick_partitioned_def upd_stats_def Let_def split: option.splits)

lemma quiet_run:
  "vd_partitioned d \<Longrightarrow> list_all (quiet (vd_healAt d)) evs \<Longrightarrow> sampleEvents etext evs d = Some d' \<Longrightarrow>
   vd_partitioned d' \<and> vd_healAt d' = vd_healAt d \<and> vd_out d' = vd_out d \<and> vd_seq d' = vd_seq d"
proof (induction evs arbitrary: d)
  case (Cons ev evs)
  then obtain d1 where step: "fleet_step etext ev d = Some d1" and run: "sampleEvents etext evs d1 = Some d'"
    by (auto split: option.splits)
  have "quiet (vd_healAt d) ev" "list_all (quiet (vd_healAt d)) evs" using Cons.prems(2) by simp_all
  with quiet_step [OF Cons.prems(1) _ step] Cons.IH [OF _ _ run] show ?case by simp
qed simp

lemma marshal_decodes:
  assumes "reading_ok r"
  shows "unmarshal_Reading (Some (marshal_Reading r)) = Inr (r\<lparr>rValues := drop_empty (rValues r)\<rparr>)"
  using dec_reading_members [of r] assms
  by (simp add: reading_ok_def unmarshal_Reading_def Unmarshal_def marshal_Reading_def)

lemma malformed_refused:
  assumes "malformedPayload r g = Some (b, g')" and "\<not> uuid_ok []" and "reading_ok r"
  shows "accepted uuid_ok \<lparr>mi_topic = topic, mi_bytes = bytes, mi_json = b\<rparr> = None"
proof -
  consider "b = None" | "b = Some (marshal_Reading (r\<lparr>rSchemaVersion := ''0.9''\<rparr>))" | "b = Some (marshal_Reading (r\<lparr>rDeviceID := []\<rparr>))"
    using assms(1) by (auto simp: malformedPayload_def split: option.splits if_splits)
  then show ?thesis
  proof cases
    case 1
    then show ?thesis by (simp add: accepted_def unmarshal_Reading_def Unmarshal_def)
  next
    case 2
    have "reading_ok (r\<lparr>rSchemaVersion := ''0.9''\<rparr>)" using assms(3) by (simp add: reading_ok_def)
    from marshal_decodes [OF this] 2 show ?thesis by (simp add: accepted_def Validate_def SchemaVersion_def)
  next
    case 3
    have "reading_ok (r\<lparr>rDeviceID := []\<rparr>)" using assms(3) by (simp add: reading_ok_def)
    from marshal_decodes [OF this] 3 assms(2) show ?thesis by (simp add: accepted_def Validate_def)
  qed
qed

section \<open>Properties\<close>

text \<open>C29: no reading of a virtual device goes missing in the books. Over a device's whole life, from its first attempt to connect
  to its stop and whatever the broker connection, partitions and configuration did, the sequence number the device
  reports is the number of readings it made, each of which was counted as published, counted as a publish error or is
  still pending, and the count of published ones is the number of telemetry messages handed to the broker (all modulo
  the width of the counters).\<close>

theorem fleet_accounts_readings:
  assumes "device_run etext delayOver conns evs (newVirtualDevice src idx dev ms t0) = (ws, Some d)"
  shows "ds_published (vd_stats d) + ds_publishErrors (vd_stats d) + of_nat (length (vd_pending d)) = vd_seq d \<and>
     ds_lastSeq (vd_stats d) = vd_seq d \<and>
     ds_published (vd_stats d) = of_nat (length (filter (\<lambda>m. fst m = TelemetryTopic (vd_deviceID d)) (vd_out d)))"
proof -
  have "accounted (newVirtualDevice src idx dev ms t0)"
    by (simp add: newVirtualDevice_def accounted_def telemetry_sent_def zeroStats_def)
  from device_run_account [OF this assms] show ?thesis unfolding accounted_def telemetry_sent_def .
qed

definition steadyRng :: rng where
  "steadyRng = \<lparr>rg_float = (\<lambda>_. 0), rg_norm = (\<lambda>_. 0), rg_int = (\<lambda>_. 0), rg_pos = 0\<rparr>"

definition calmRt :: runtimeConfig where
  "calmRt = \<lparr>rt_MalformedRate = 0, rt_LatencyJitterMS = 0, rt_ClockSkewJitterMS = 0, rt_DisconnectRate = 0, rt_StepRate = 0, rt_AnomalyRate = 0\<rparr>"

definition calmTick :: fleet_env where
  "calmTick = \<lparr>fe_rt = calmRt, fe_flushRt = calmRt, fe_beforeHeal = 0, fe_retryFrom = 0, fe_heal = \<lparr>cr_err = False, cr_sub = None\<rparr>,
     fe_flaky = \<lparr>cr_err = False, cr_sub = None\<rparr>, fe_sinceAttempt = 0, fe_attempt = 0, fe_reconn = \<lparr>cr_err = False, cr_sub = None\<rparr>,
     fe_sample = 1700000000000000000, fe_trace = (\<lambda>_. []), fe_sinceFlush = 0, fe_flush = 0, fe_up = (\<lambda>n. n < 2)\<rparr>"

definition calmDevice :: virtualDevice where
  "calmDevice = newVirtualDevice (\<lambda>_. steadyRng) 0 ''d1'' 1000 0"

lemma calm_ticker: "ticker_every 1000 = Some second"
  by (simp add: ticker_every_def scaled_def int64_wrap_def)

lemma calm_run:
  "\<exists>d. sampleLoop (\<lambda>_. []) [OnConnect 1, FleetTick calmTick] calmDevice = Some d \<and> vd_seq d = 3 \<and>
     ds_publishErrors (vd_stats d) = 1 \<and> vd_pending d = []"
proof -
  obtain rs d1 where c: "fleet_collect 1700000000000 (\<lambda>_. []) (defaultAppliedConfig 1000) calmRt (onSubscribed 1 calmDevice) = (rs, d1)"
    by (cases "fleet_collect 1700000000000 (\<lambda>_. []) (defaultAppliedConfig 1000) calmRt (onSubscribed 1 calmDevice)")
  have "length rs = 3"
    using c by (auto simp: fleet_collect_def collectTemperature_def collectHumidity_def collectAccel_def sensorEnabled_def
        defaultAppliedConfig_def Let_def split: prod.splits)
  then obtain r1 r2 r3 where rs: "rs = [r1, r2, r3]" by (auto simp: numeral_eq_Suc length_Suc_conv)
  have "same_account calmDevice d1"
    using same_account_trans [OF same_account_onSubscribed [of calmDevice 1]
        same_account_collect [of _ 1700000000000 "\<lambda>_. []" "defaultAppliedConfig 1000" calmRt]] c by simp
  then have "vd_seq d1 = 0" "vd_pending d1 = []" "ds_publishErrors (vd_stats d1) = 0"
    by (simp_all add: same_account_def calmDevice_def newVirtualDevice_def zeroStats_def)
  moreover have "ds_connected (vd_stats (onSubscribed 1 calmDevice))" "vd_cfgState (onSubscribed 1 calmDevice) = defaultAppliedConfig 1000" "vd_cfgState calmDevice = defaultAppliedConfig 1000"
    "\<not> vd_partitioned (onSubscribed 1 calmDevice)"
    by (simp_all add: onSubscribed_def publishReportedValue_def calmDevice_def newVirtualDevice_def stats_defs)
  moreover have "ac_mode (defaultAppliedConfig 1000) \<noteq> ReportingBatched" "ac_sampleIntervalMS (defaultAppliedConfig 1000) = 1000"
    by (simp_all add: defaultAppliedConfig_def ReportingContinuous_def ReportingBatched_def)
  moreover have "fe_rt calmTick = calmRt" "rt_DisconnectRate calmRt = 0" "rt_ClockSkewJitterMS calmRt = 0" "rt_LatencyJitterMS calmRt = 0"
    "rt_MalformedRate calmRt = 0" "fe_flushRt calmTick = calmRt" "UnixMilli (fe_sample calmTick) = 1700000000000" "fe_trace calmTick = (\<lambda>_. [])"
    "fe_up calmTick = (\<lambda>n. n < 2)"
    by (simp_all add: calmTick_def calmRt_def UnixMilli_def)
  ultimately show ?thesis
    using c rs calm_ticker
    by (simp add: sampleLoop_def fleet_tick_def tick_flaky_def chance_def tick_sample_def skewedNow_def fleet_flush_def publishOne_def stats_defs)
qed

theorem fleet_accounts_readings_witness:
  "\<exists>d. device_run (\<lambda>_. []) True [\<lparr>cr_err = True, cr_sub = None\<rparr>, \<lparr>cr_err = False, cr_sub = None\<rparr>] [OnConnect 1, FleetTick calmTick] calmDevice
       = ([second], Some d) \<and>
     ds_published (vd_stats d) = 2 \<and> ds_publishErrors (vd_stats d) = 1 \<and> ds_lastSeq (vd_stats d) = 3"
proof -
  obtain d where "sampleLoop (\<lambda>_. []) [OnConnect 1, FleetTick calmTick] calmDevice = Some d"
    and seq: "vd_seq d = 3" "ds_publishErrors (vd_stats d) = 1" "vd_pending d = []"
    using calm_run by blast
  then have run: "device_run (\<lambda>_. []) True [\<lparr>cr_err = True, cr_sub = None\<rparr>, \<lparr>cr_err = False, cr_sub = None\<rparr>] [OnConnect 1, FleetTick calmTick] calmDevice
      = ([second], Some (stopDevice d))"
    by (simp add: device_run_def device_connect_def)
  from fleet_accounts_readings [OF run [unfolded calmDevice_def]] seq
  have "ds_published (vd_stats (stopDevice d)) + 1 = 3" "ds_lastSeq (vd_stats (stopDevice d)) = 3"
    by (simp_all add: stopDevice_def upd_stats_def)
  then have "ds_published (vd_stats (stopDevice d)) = 2" by (simp add: eq_diff_eq [symmetric])
  with run seq \<open>ds_lastSeq (vd_stats (stopDevice d)) = 3\<close> show ?thesis by (simp add: stopDevice_def upd_stats_def)
qed

text \<open>What the fleet corrupts, ingest dead-letters. Every payload that \<^verbatim>\<open>malformedPayload\<close> makes of a
  reading is refused by the ingest handler, whichever corruption was drawn: the message is acknowledged, the
  rate limiter does not see it, and if JetStream takes the publish it is on the dead-letter subject.\<close>

theorem malformed_is_dead_lettered:
  assumes "malformedPayload r g = Some (b, g')" and "\<not> uuid_ok []" and "reading_ok r" and "bus_faults (w_js w) = []"
  shows "\<exists>w' m. handle tx uuid_ok ops \<lparr>mi_topic = TelemetryTopic dev, mi_bytes = bytes, mi_json = b\<rparr> l w = (True, l, w') \<and>
     bus_sent (w_js w') = bus_sent (w_js w) @ [(DLQSubject, m)]"
proof -
  have "accepted uuid_ok \<lparr>mi_topic = TelemetryTopic dev, mi_bytes = bytes, mi_json = b\<rparr> = None"
    using malformed_refused [of r g b g' uuid_ok] assms(1-3) by blast
  from handle_refused [OF this, of tx ops l w] assms(4) show ?thesis
    by (auto simp: publishDLQ_def world_defs bus_publish_def Let_def)
qed

theorem malformed_is_dead_lettered_witness:
  "\<exists>b g'. malformedPayload (srReading sampleStamped) steadyRng = Some (b, g') \<and>
    (\<exists>w' m. handle plainTexts (\<lambda>s. s \<noteq> []) tokenLimiter \<lparr>mi_topic = TelemetryTopic ''d1'', mi_bytes = [], mi_json = b\<rparr>
        (newPerDeviceLimiter 10 1) (ingestWorld []) = (True, newPerDeviceLimiter 10 1, w') \<and>
      bus_sent (w_js w') = bus_sent (w_js (ingestWorld [])) @ [(DLQSubject, m)])"
proof -
  obtain b g' where m: "malformedPayload (srReading sampleStamped) steadyRng = Some (b, g')"
    by (auto simp: malformedPayload_def Intn_def)
  have "reading_ok (srReading sampleStamped)" by (simp add: reading_ok_def sampleStamped_def)
  moreover have "bus_faults (w_js (ingestWorld [])) = []" by (simp add: ingestWorld_def)
  ultimately show ?thesis
    using malformed_is_dead_lettered [OF m, of "\<lambda>s. s \<noteq> []" "ingestWorld []" plainTexts tokenLimiter "''d1''" "[]" "newPerDeviceLimiter 10 1"] m
    by blast
qed

text \<open>A partitioned device is silent until it heals. Whatever ticks before the time set for it, further
  partition commands and lost connections come, the device publishes nothing, makes no reading and stays
  partitioned until the same time; the first tick after that time on which it can connect ends the partition.\<close>

theorem partition_until_heal:
  assumes "vd_partitioned d" and "list_all (quiet (vd_healAt d)) evs" and "sampleEvents etext evs d = Some d1"
    and "vd_healAt d \<le> fe_beforeHeal e" and "\<not> cr_err (fe_heal e)" and "fleet_step etext (FleetTick e) d1 = Some d2"
  shows "vd_out d1 = vd_out d \<and> vd_seq d1 = vd_seq d \<and> vd_partitioned d1 \<and>
     \<not> vd_partitioned d2 \<and> \<not> ds_partitioned (vd_stats d2)"
proof -
  note q = quiet_run [OF assms(1-3)]
  have "d2 = tick_partitioned e d1" using assms(6) q by (auto simp: fleet_tick_def Let_def split: option.splits)
  then have "\<not> vd_partitioned d2 \<and> \<not> ds_partitioned (vd_stats d2)"
    using assms(4,5) q by (simp add: tick_partitioned_def Let_def stats_defs)
  with q show ?thesis by simp
qed

definition cutDevice :: virtualDevice where
  "cutDevice = calmDevice\<lparr>vd_partitioned := True, vd_healAt := 10\<rparr>"

theorem partition_until_heal_witness:
  "\<exists>d1 d2. sampleEvents (\<lambda>_. []) [FleetTick calmTick, ConnectionLost] cutDevice = Some d1 \<and>
     fleet_step (\<lambda>_. []) (FleetTick (calmTick\<lparr>fe_beforeHeal := 20\<rparr>)) d1 = Some d2 \<and> vd_out d1 = [] \<and> \<not> vd_partitioned d2"
proof -
  have cut: "vd_partitioned cutDevice" "vd_healAt cutDevice = 10" "vd_out cutDevice = []"
    "vd_cfgState cutDevice = defaultAppliedConfig 1000" "ac_sampleIntervalMS (defaultAppliedConfig 1000) = 1000"
    by (simp_all add: cutDevice_def calmDevice_def newVirtualDevice_def defaultAppliedConfig_def)
  have tick: "fe_beforeHeal calmTick = 0" "\<not> cr_err (fe_heal calmTick)" by (simp_all add: calmTick_def)
  obtain d1 where d1: "sampleEvents (\<lambda>_. []) [FleetTick calmTick, ConnectionLost] cutDevice = Some d1"
    and same: "vd_partitioned d1" "vd_cfgState d1 = defaultAppliedConfig 1000"
    using cut tick calm_ticker by (simp add: fleet_tick_def tick_partitioned_def upd_stats_def)
  obtain d2 where d2: "fleet_step (\<lambda>_. []) (FleetTick (calmTick\<lparr>fe_beforeHeal := 20\<rparr>)) d1 = Some d2"
    using same cut calm_ticker by (simp add: fleet_tick_def)
  have "list_all (quiet (vd_healAt cutDevice)) [FleetTick calmTick, ConnectionLost]" using cut tick by (simp add: quiet_def)
  from partition_until_heal [OF cut(1) this d1 _ _ d2] cut tick have "vd_out d1 = []" "\<not> vd_partitioned d2" by simp_all
  with d1 d2 show ?thesis by blast
qed

text \<open>The sample without the wave: base, drift, noise and the step offset it ends with.\<close>

definition baseline :: "int \<Rightarrow> real \<Rightarrow> sensorSignal \<Rightarrow> real" where
  "baseline nowMS noise s' = sg_base s' + sg_driftPerHour s' * (real_of_int (int64_wrap (nowMS - sg_startMS s')) / 3600000) +
     noise * sg_noiseStdDev s' + sg_stepOffset s'"

lemma rng_ok_advance [simp]: "rng_ok (advance g) = rng_ok g" "rg_float (advance g) = rg_float g"
  by (simp_all add: rng_ok_def advance_def)

lemma chance_ok: "chance r g = (b, g') \<Longrightarrow> rng_ok g' = rng_ok g"
  by (auto simp: chance_def Float64_def split: if_splits)

lemma wave_bound: "0 \<le> a \<Longrightarrow> \<bar>a * sin x\<bar> \<le> (a :: real)"
  by (simp add: abs_mult mult_left_le)

lemma spike_bounds:
  assumes "0 \<le> a" and "0 \<le> f" and "f < (1 :: real)"
  shows "3 * a \<le> a * (3 + f * 4)" and "a * (3 + f * 4) \<le> 7 * a"
proof -
  have "0 \<le> a * f" "a * f \<le> a" using assms by (simp_all add: mult_left_le)
  then show "3 * a \<le> a * (3 + f * 4)" "a * (3 + f * 4) \<le> 7 * a" by (simp_all add: algebra_simps)
qed

lemma step_bound:
  assumes "0 \<le> a" and "0 \<le> f" and "f < (1 :: real)"
  shows "\<bar>(f * 2 - 1) * a * 0.5\<bar> \<le> a / 2"
proof -
  have "\<bar>f * 2 - 1\<bar> \<le> 1" using assms by (simp add: abs_le_iff)
  then have "\<bar>f * 2 - 1\<bar> * a \<le> a" using assms(1) by (simp add: mult_left_le_one_le)
  then show ?thesis using assms(1) by (simp add: abs_mult)
qed

text \<open>The simulated signals keep their shape. A sample lies within one amplitude of its baseline, an injected
  anomaly between two and eight amplitudes away from it, and a step moves the baseline by at most half an
  amplitude: with thresholds in between, the anomalies are exactly the samples that stand out.\<close>

theorem signal_bounds:
  assumes "signal_sample nowMS stepRate anomalyRate s = ((v, anomaly), s')" and "rng_ok (sg_rnd s)" and "0 \<le> sg_amplitude s"
  shows "\<exists>noise. (\<not> anomaly \<longrightarrow> \<bar>v - baseline nowMS noise s'\<bar> \<le> sg_amplitude s) \<and>
     (anomaly \<longrightarrow> 2 * sg_amplitude s \<le> \<bar>v - baseline nowMS noise s'\<bar> \<and> \<bar>v - baseline nowMS noise s'\<bar> \<le> 8 * sg_amplitude s) \<and>
     \<bar>sg_stepOffset s' - sg_stepOffset s\<bar> \<le> sg_amplitude s / 2"
proof -
  define s1 where "s1 = (if sg_startMS s = 0 then s\<lparr>sg_startMS := nowMS\<rparr> else s)"
  have s1: "sg_amplitude s1 = sg_amplitude s" "sg_stepOffset s1 = sg_stepOffset s" "sg_rnd s1 = sg_rnd s" by (simp_all add: s1_def)
  define el where "el = real_of_int (int64_wrap (nowMS - sg_startMS s1))"
  define wave where "wave = sg_amplitude s1 * sin (2 * pi * el / sg_periodMS s1 + sg_phase s1)"
  obtain st g1 where c1: "chance stepRate (sg_rnd s1) = (st, g1)" by (cases "chance stepRate (sg_rnd s1)")
  define off where "off = (if st then sg_stepOffset s1 + (fst (Float64 g1) * 2 - 1) * sg_amplitude s1 * 0.5 else sg_stepOffset s1)"
  define g2 where "g2 = (if st then snd (Float64 g1) else g1)"
  define noise where "noise = fst (NormFloat64 g2)"
  obtain an g4 where c2: "chance anomalyRate (snd (NormFloat64 g2)) = (an, g4)" by (cases "chance anomalyRate (snd (NormFloat64 g2))")
  define size where "size = sg_amplitude s1 * (3 + fst (Float64 g4) * 4)"
  define spike where "spike = (if \<not> an then 0 else if fst (Float64 (snd (Float64 g4))) < 0.5 then - size else size)"
  have ok: "rng_ok g1" "rng_ok g4"
    using assms(2) chance_ok [OF c1] chance_ok [OF c2] s1(3) by (simp_all add: g2_def NormFloat64_def Float64_def split: if_splits)
  have v: "anomaly = an" "v = sg_base s1 + wave + sg_driftPerHour s1 * (el / 3600000) + noise * sg_noiseStdDev s1 + off + spike"
    and s': "sg_stepOffset s' = off" "sg_base s' = sg_base s1" "sg_driftPerHour s' = sg_driftPerHour s1" "sg_noiseStdDev s' = sg_noiseStdDev s1"
      "sg_startMS s' = sg_startMS s1"
    using assms(1) c1 c2
    by (auto simp: signal_sample_def Let_def s1_def [symmetric] el_def wave_def off_def g2_def noise_def size_def spike_def
        split: prod.splits if_splits)
  have dev: "v - baseline nowMS noise s' = wave + spike" unfolding v(2) baseline_def s' el_def by simp
  have "\<bar>wave\<bar> \<le> sg_amplitude s" unfolding wave_def s1(1) using assms(3) by (rule wave_bound)
  moreover have "3 * sg_amplitude s \<le> size" "size \<le> 7 * sg_amplitude s"
    unfolding size_def s1(1) using assms(3) ok(2) by (auto intro!: spike_bounds simp: Float64_def rng_ok_def)
  moreover have "\<bar>off - sg_stepOffset s\<bar> \<le> sg_amplitude s / 2"
    using step_bound [OF assms(3), of "fst (Float64 g1)"] ok(1) assms(3) by (auto simp: off_def s1 Float64_def rng_ok_def)
  ultimately show ?thesis
    using assms(3) by (intro exI [of _ noise]) (auto simp: dev s'(1) v(1) spike_def)
qed

definition plainSignal :: sensorSignal where
  "plainSignal = newSensorSignal steadyRng 22 3 60000 0.05 0.3"

theorem signal_bounds_witness:
  "\<exists>v s' noise. signal_sample 1000 0 1 plainSignal = ((v, True), s') \<and> 6 \<le> \<bar>v - baseline 1000 noise s'\<bar>"
proof -
  obtain v an s' where run: "signal_sample 1000 0 1 plainSignal = ((v, an), s')" by (metis prod.collapse)
  have "rng_ok (sg_rnd plainSignal)" "sg_amplitude plainSignal = 3"
    by (simp_all add: plainSignal_def newSensorSignal_def Float64_def rng_ok_def steadyRng_def advance_def)
  moreover have "an"
    using run by (auto simp: signal_sample_def plainSignal_def newSensorSignal_def steadyRng_def chance_def Float64_def
        NormFloat64_def advance_def Let_def)
  ultimately show ?thesis using signal_bounds [OF run] run by fastforce
qed

text \<open>
  A device never gives up connecting: while attempts fail it waits 1, 2, 4, 8, 16 and then always 32 seconds,
  one wait for each failure, and the first attempt that succeeds starts its loop. The two seconds over the cap of
  thirty come from comparing before doubling.
\<close>

definition connectWait :: "nat \<Rightarrow> duration" where
  "connectWait k = 2 ^ min k 5 * second"

lemma connectWait_Suc:
  "(if connectWait k < 30 * second then connectWait k * 2 else connectWait k) = connectWait (Suc k)"
proof (cases "k < 5")
  case True
  then have "k \<in> {0, 1, 2, 3, 4}" by auto
  then show ?thesis by (auto simp: connectWait_def)
qed (simp add: connectWait_def)

lemma connectLoop_waits:
  "fst (connectLoop cs (connectWait k) d) = map connectWait [k..<k + length (takeWhile cr_err cs)]"
proof (induction cs arbitrary: k d)
  case (Cons c cs)
  show ?case using Cons.IH [of "Suc k" "device_connect c d"]
    by (cases "connectWait k < 30 * second")
      (simp_all add: Let_def connectWait_Suc [symmetric] case_prod_unfold upt_conv_Cons del: upt_Suc)
qed simp

lemma connectLoop_succeeds: "snd (snd (connectLoop cs b d)) \<longleftrightarrow> (\<exists>c \<in> set cs. \<not> cr_err c)"
  by (induction cs arbitrary: b d) (simp_all add: Let_def case_prod_unfold)

theorem device_keeps_trying:
  "fst (device_run etext True conns evs d) = map connectWait [0..<length (takeWhile cr_err conns)] \<and>
   ((\<exists>c \<in> set conns. \<not> cr_err c) \<longrightarrow> snd (device_run etext True conns evs d) =
      map_option stopDevice (sampleLoop etext evs (fst (snd (connectLoop conns second d)))))"
proof -
  obtain ws d1 ok where c: "connectLoop conns second d = (ws, d1, ok)" by (rule prod_cases3)
  show ?thesis
    using connectLoop_waits [of conns 0 d] connectLoop_succeeds [of conns second d] c
    by (cases ok) (auto simp: device_run_def connectWait_def)
qed

theorem device_keeps_trying_witness:
  "fst (device_run (\<lambda>_. []) True [\<lparr>cr_err = True, cr_sub = None\<rparr>, \<lparr>cr_err = False, cr_sub = Some 0\<rparr>] [] calmDevice) = [second] \<and>
   snd (device_run (\<lambda>_. []) True [\<lparr>cr_err = True, cr_sub = None\<rparr>, \<lparr>cr_err = False, cr_sub = Some 0\<rparr>] [] calmDevice) =
     map_option stopDevice (sampleLoop (\<lambda>_. []) [] (onSubscribed 0 calmDevice))"
  using device_keeps_trying [of "\<lambda>_. []" "[\<lparr>cr_err = True, cr_sub = None\<rparr>, \<lparr>cr_err = False, cr_sub = Some 0\<rparr>]" "[]" calmDevice]
  by (simp add: device_connect_def connectWait_def)

text \<open>A device stopped while it waits to try again, after an attempt that timed out but whose session came up all
  the same, stays connected: the function that would disconnect it is not registered yet.\<close>

theorem stopped_in_backoff_stays_connected:
  "snd (device_run etext True [\<lparr>cr_err = True, cr_sub = Some t\<rparr>] evs d) = Some (onSubscribed t d) \<and>
   ds_connected (vd_stats (onSubscribed t d))"
  by (simp add: device_run_def device_connect_def onSubscribed_def upd_stats_def Let_def split: prod.splits)

text \<open>The dial has no upper bound: from 2 to the 62 milliseconds of clock skew on, doubling it wraps around and
  the next sampling tick of any device panics.\<close>

lemma huge_skew_panics:
  assumes "2 ^ 62 \<le> rt_ClockSkewJitterMS (fe_rt e)" and "rt_ClockSkewJitterMS (fe_rt e) < 2 ^ 63"
  shows "tick_sample e cfg d = None"
proof -
  let ?j = "rt_ClockSkewJitterMS (fe_rt e)"
  have "int64_wrap (2 * ?j) = (2 * ?j + 2 ^ 63 - 2 ^ 64) mod 2 ^ 64 - 2 ^ 63"
    unfolding int64_wrap_def by (metis mod_diff_right_eq mod_self diff_zero)
  also have "\<dots> = 2 * ?j - 2 ^ 64" using assms by simp
  finally have "int64_wrap (2 * ?j) \<le> 0" using assms(2) by simp
  then show ?thesis using assms(1) by (simp add: tick_sample_def skewedNow_def Intn_def)
qed

end
