(* ===== verification/Provisioning.thy ===== *)
theory Provisioning
  imports World
begin

text \<open>
  \<^verbatim>\<open>internal/provisioning/provisioning.go\<close>: how a native client gets its identity. It reads the
  credentials cached in its state file or, failing that, exchanges a registration token for new ones at the
  control plane and caches those.

  The control plane is the parameter \<open>rpc\<close>, which answers the claim request for a token and a device id with a
  status and a body or fails. A file is missing (\<open>None\<close>) or holds a body; a write may fail before or after it
  emptied the file.
\<close>

section \<open>Credentials\<close>

record Credentials =
  cd_DeviceID :: string
  cd_Name :: string
  cd_Type :: string
  cd_MQTTUsername :: string
  cd_MQTTPassword :: string

definition zeroCredentials :: Credentials where
  "zeroCredentials = \<lparr>cd_DeviceID = [], cd_Name = [], cd_Type = [], cd_MQTTUsername = [], cd_MQTTPassword = []\<rparr>"

definition marshal_Credentials :: "Credentials \<Rightarrow> json" where
  "marshal_Credentials c =
     JObject [(''device_id'', JString (cd_DeviceID c)), (''name'', JString (cd_Name c)), (''type'', JString (cd_Type c)),
       (''mqtt_username'', JString (cd_MQTTUsername c)), (''mqtt_password'', JString (cd_MQTTPassword c))]"

definition set_Credentials :: "string \<Rightarrow> Credentials decoder" where
  "set_Credentials k =
     (if k = ''device_id'' then field dec_string cd_DeviceID (\<lambda>v c. c\<lparr>cd_DeviceID := v\<rparr>)
      else if k = ''name'' then field dec_string cd_Name (\<lambda>v c. c\<lparr>cd_Name := v\<rparr>)
      else if k = ''type'' then field dec_string cd_Type (\<lambda>v c. c\<lparr>cd_Type := v\<rparr>)
      else if k = ''mqtt_username'' then field dec_string cd_MQTTUsername (\<lambda>v c. c\<lparr>cd_MQTTUsername := v\<rparr>)
      else if k = ''mqtt_password'' then field dec_string cd_MQTTPassword (\<lambda>v c. c\<lparr>cd_MQTTPassword := v\<rparr>)
      else (\<lambda>_ c. Inr c))"

definition unmarshal_Credentials :: "body \<Rightarrow> json_error + Credentials" where
  "unmarshal_Credentials = Unmarshal (dec_struct set_Credentials) zeroCredentials"

section \<open>Files and the control plane\<close>

datatype write_fault = NotWritten | Emptied

record 'srv pworld =
  pw_files :: "string \<Rightarrow> body option"
  pw_writes :: "write_fault option list"
  pw_srv :: 'srv
  pw_uuids :: "nat \<Rightarrow> string"
  pw_issued :: nat

datatype prov_error =
    NoFile
  | BadFile json_error
  | NoCredentialsNoToken
  | ClaimRequestFailed io_error
  | ClaimRejected nat
  | ClaimUndecodable json_error
  | NotCached string

definition load :: "string \<Rightarrow> 'srv pworld \<Rightarrow> prov_error + Credentials" where
  "load path w =
     (case pw_files w path of
        None \<Rightarrow> Inl NoFile
      | Some raw \<Rightarrow> (case unmarshal_Credentials raw of Inl e \<Rightarrow> Inl (BadFile e) | Inr c \<Rightarrow> Inr c))"

definition save :: "string \<Rightarrow> Credentials \<Rightarrow> 'srv pworld \<Rightarrow> bool \<times> 'srv pworld" where
  "save path creds w =
     (let f = (case pw_writes w of [] \<Rightarrow> None | f # _ \<Rightarrow> f); w0 = w\<lparr>pw_writes := tl (pw_writes w)\<rparr> in
      case f of
        None \<Rightarrow> (True, w0\<lparr>pw_files := (pw_files w0)(path \<mapsto> Some (marshal_Credentials creds))\<rparr>)
      | Some NotWritten \<Rightarrow> (False, w0)
      | Some Emptied \<Rightarrow> (False, w0\<lparr>pw_files := (pw_files w0)(path \<mapsto> None)\<rparr>))"

type_synonym 'srv claim_rpc = "string \<Rightarrow> string \<Rightarrow> 'srv \<Rightarrow> (io_error + nat \<times> body) \<times> 'srv"

definition claim :: "'srv claim_rpc \<Rightarrow> string \<Rightarrow> 'srv pworld \<Rightarrow> (prov_error + Credentials) \<times> 'srv pworld" where
  "claim rpc token w =
     (let deviceID = pw_uuids w (pw_issued w); w1 = w\<lparr>pw_issued := Suc (pw_issued w)\<rparr>;
          (resp, srv) = rpc token deviceID (pw_srv w1); w2 = w1\<lparr>pw_srv := srv\<rparr> in
      case resp of
        Inl e \<Rightarrow> (Inl (ClaimRequestFailed e), w2)
      | Inr (status, b) \<Rightarrow>
          if status \<noteq> 200 then (Inl (ClaimRejected status), w2)
          else (case unmarshal_Credentials b of Inl e \<Rightarrow> (Inl (ClaimUndecodable e), w2) | Inr c \<Rightarrow> (Inr c, w2)))"

definition LoadOrClaim :: "'srv claim_rpc \<Rightarrow> string \<Rightarrow> string \<Rightarrow> 'srv pworld \<Rightarrow> (prov_error + Credentials) \<times> 'srv pworld" where
  "LoadOrClaim rpc stateFile token w =
     (case load stateFile w of
        Inr creds \<Rightarrow> (Inr creds, w)
      | Inl _ \<Rightarrow>
          if token = [] then (Inl NoCredentialsNoToken, w)
          else
            (case claim rpc token w of
               (Inl e, w1) \<Rightarrow> (Inl e, w1)
             | (Inr creds, w1) \<Rightarrow>
                 (let (ok, w2) = save stateFile creds w1 in
                  if ok then (Inr creds, w2) else (Inl (NotCached (cd_DeviceID creds)), w2))))"

section \<open>Lemmas\<close>

lemma credentials_tags [simp]:
  "foldName ''device_id'' = ''device_id''" "foldName ''name'' = ''name''" "foldName ''type'' = ''type''"
  "foldName ''mqtt_username'' = ''mqtt_username''" "foldName ''mqtt_password'' = ''mqtt_password''"
  by code_simp+

lemma Credentials_roundtrip: "unmarshal_Credentials (Some (marshal_Credentials c)) = Inr c"
  by (simp add: unmarshal_Credentials_def Unmarshal_def marshal_Credentials_def set_Credentials_def field_def zeroCredentials_def)

lemma claim_files [simp]:
  "claim rpc token w = (r, w') \<Longrightarrow> pw_files w' = pw_files w"
  by (auto simp: claim_def Let_def split: prod.splits sum.splits if_splits)

lemma LoadOrClaim_other_files:
  "LoadOrClaim rpc path token w = (r, w') \<Longrightarrow> p \<noteq> path \<Longrightarrow> pw_files w' p = pw_files w p"
  by (auto simp: LoadOrClaim_def save_def Let_def dest: claim_files
      split: prod.splits sum.splits if_splits option.splits write_fault.splits)

section \<open>Properties\<close>

text \<open>C30: an identity is claimed once. When a client has its credentials, from the cache or from a claim, every
  later start with the same state file returns those credentials without asking the control plane again, with any
  token or none.\<close>

theorem provisioned_once:
  assumes "LoadOrClaim rpc path token w = (Inr creds, w1)"
  shows "LoadOrClaim rpc' path token' w1 = (Inr creds, w1) \<and> (load path w = Inr creds \<longrightarrow> pw_srv w1 = pw_srv w)"
proof -
  consider "load path w = Inr creds" "w1 = w"
    | w2 where "claim rpc token w = (Inr creds, w2)" "save path creds w2 = (True, w1)" "\<forall>c. load path w \<noteq> Inr c"
    using assms by (auto simp: LoadOrClaim_def split: sum.splits if_splits prod.splits)
  then show ?thesis
  proof cases
    case 2
    then have "pw_files w1 path = Some (Some (marshal_Credentials creds))"
      by (auto simp: save_def Let_def split: option.splits write_fault.splits)
    with 2(3) show ?thesis by (simp add: LoadOrClaim_def load_def Credentials_roundtrip)
  qed (simp add: LoadOrClaim_def)
qed

definition grantRpc :: "nat claim_rpc" where
  "grantRpc token deviceID n = (Inr (200, Some (marshal_Credentials \<lparr>cd_DeviceID = deviceID, cd_Name = ''lamp'', cd_Type = ''esp32'',
     cd_MQTTUsername = deviceID, cd_MQTTPassword = ''pw''\<rparr>)), Suc n)"

definition freshHost :: "nat pworld" where
  "freshHost = \<lparr>pw_files = Map.empty, pw_writes = [], pw_srv = 0, pw_uuids = (\<lambda>_. ''d1''), pw_issued = 0\<rparr>"

theorem provisioned_once_witness:
  "\<exists>creds w1. LoadOrClaim grantRpc ''state'' ''t0'' freshHost = (Inr creds, w1) \<and> pw_srv w1 = 1 \<and>
     LoadOrClaim grantRpc ''state'' [] w1 = (Inr creds, w1)"
proof -
  obtain creds w1 where run: "LoadOrClaim grantRpc ''state'' ''t0'' freshHost = (Inr creds, w1)" and "pw_srv w1 = 1"
    by (simp add: LoadOrClaim_def load_def claim_def save_def grantRpc_def freshHost_def Credentials_roundtrip Let_def)
  with provisioned_once [OF run, of grantRpc "[]"] show ?thesis by blast
qed

text \<open>A claim whose cache write fails is lost. The control plane registered the device and spent the token,
  the client reports an error, and a retry with the same token asks for a second device.\<close>

theorem uncached_claim_is_lost:
  assumes "\<forall>c. load path w \<noteq> Inr c" and "token \<noteq> []" and "claim rpc token w = (Inr creds, w1)" and "pw_writes w1 = Some f # fs"
  shows "\<exists>w2. LoadOrClaim rpc path token w = (Inl (NotCached (cd_DeviceID creds)), w2) \<and> pw_srv w2 = pw_srv w1 \<and>
     (\<forall>c. load path w2 \<noteq> Inr c)"
proof -
  obtain e where e: "load path w = Inl e" using assms(1) by (cases "load path w") auto
  have "pw_files w1 = pw_files w" using assms(3) by simp
  then show ?thesis
    using assms(1-4) e
    by (cases f) (auto simp: LoadOrClaim_def save_def load_def unmarshal_Credentials_def Unmarshal_def Let_def)
qed

theorem uncached_claim_is_lost_witness:
  "\<exists>w2. LoadOrClaim grantRpc ''state'' ''t0'' (freshHost\<lparr>pw_writes := [Some Emptied]\<rparr>) = (Inl (NotCached ''d1''), w2) \<and> pw_srv w2 = 1"
proof -
  let ?w = "freshHost\<lparr>pw_writes := [Some Emptied]\<rparr>"
  obtain creds w1 where c: "claim grantRpc ''t0'' ?w = (Inr creds, w1)" "cd_DeviceID creds = ''d1''" "pw_writes w1 = [Some Emptied]" "pw_srv w1 = 1"
    by (simp add: claim_def grantRpc_def freshHost_def Credentials_roundtrip Let_def)
  have "\<forall>c. load ''state'' ?w \<noteq> Inr c" by (simp add: load_def freshHost_def)
  from uncached_claim_is_lost [OF this _ c(1,3)] c show ?thesis by auto
qed

end
