(* ===== verification/FleetManager.thy ===== *)
theory FleetManager
  imports Fleet Provisioning
begin

text \<open>
  The manager of the simulated fleet, \<^verbatim>\<open>cmd/fleet/manager.go\<close>, and the HTTP calls that drive it,
  \<^verbatim>\<open>cmd/fleet/controlapi.go\<close>: the pool of registration tokens, scaling the number of running devices,
  partitions and the runtime configuration.

  \<^verbatim>\<open>Scale\<close> decides under its lock what to stop and start, stops, and then starts the slots from a pool of
  goroutines; the order they run in is the argument \<open>sched\<close>. Each running loop has a number, and a slot's
  \<^verbatim>\<open>cancel\<close> ends the loop it was made for: \<open>fm_loops\<close> lists the loops not yet ended. What a device's loop does while it runs is
  theory \<open>Fleet\<close>; stopping a slot has the effect of its deferred function (a device that is stopped before its first
  connection never ran it, see \<open>stopped_in_backoff_stays_connected\<close> there).
\<close>

section \<open>Token pool\<close>

record tokenPool =
  tp_tokens :: "string list"
  tp_next :: nat

text \<open>The lines of a \<^verbatim>\<open>bufio.Scanner\<close>: an empty last line is not one, and a line of 64 KiB or more is an error.\<close>

definition scanLines :: "string \<Rightarrow> string list option" where
  "scanLines content =
     (let ls = splitOn (CHR 0x0A) content; ls' = (if last ls = [] then butlast ls else ls) in
      if list_all (\<lambda>l. length l < 65536) ls' then Some ls' else None)"

datatype file_content = NoSuchFile | Unreadable | Content string

definition loadTokenPool :: "string \<Rightarrow> file_content \<Rightarrow> tokenPool option" where
  "loadTokenPool path f =
     (if path = [] then Some \<lparr>tp_tokens = [], tp_next = 0\<rparr>
      else
        (case f of
           NoSuchFile \<Rightarrow> Some \<lparr>tp_tokens = [], tp_next = 0\<rparr>
         | Unreadable \<Rightarrow> None
         | Content s \<Rightarrow>
             (case scanLines s of
                None \<Rightarrow> None
              | Some ls \<Rightarrow> Some \<lparr>tp_tokens = filter (\<lambda>l. l \<noteq> [] \<and> \<not> HasPrefix l ''#'') (map TrimSpace ls), tp_next = 0\<rparr>)))"

definition pool_take :: "tokenPool \<Rightarrow> string option \<times> tokenPool" where
  "pool_take p =
     (if tp_next p \<ge> length (tp_tokens p) then (None, p)
      else (Some (tp_tokens p ! tp_next p), p\<lparr>tp_next := Suc (tp_next p)\<rparr>))"

definition pool_remaining :: "tokenPool \<Rightarrow> int" where
  "pool_remaining p = int (length (tp_tokens p)) - int (tp_next p)"

section \<open>Manager\<close>

record deviceSlot =
  sl_dev :: "(Credentials \<times> virtualDevice) option"
  sl_cancel :: "nat option"
  sl_running :: bool

record 'srv FleetManager =
  fm_devices :: "deviceSlot list"
  fm_target :: int
  fm_tokens :: tokenPool
  fm_rtCfg :: runtimeConfig
  fm_host :: "'srv pworld"
  fm_loops :: "nat list"
  fm_nextLoop :: nat

text \<open>What the manager was built with and what is around it.\<close>

record 'srv fleetEnv =
  fc_stateFile :: "nat \<Rightarrow> string"
  fc_sampleIntervalMS :: int
  fc_rampWindow :: duration
  fc_rpc :: "'srv claim_rpc"
  fc_src :: "int \<Rightarrow> rng"
  fc_now :: "nat \<Rightarrow> time"

definition emptySlot :: deviceSlot where
  "emptySlot = \<lparr>sl_dev = None, sl_cancel = None, sl_running = False\<rparr>"

definition NewFleetManager :: "tokenPool \<Rightarrow> runtimeConfig \<Rightarrow> 'srv pworld \<Rightarrow> 'srv FleetManager" where
  "NewFleetManager tokens rt host =
     \<lparr>fm_devices = [], fm_target = 0, fm_tokens = tokens, fm_rtCfg = rt, fm_host = host, fm_loops = [], fm_nextLoop = 0\<rparr>"

definition upd_slot :: "nat \<Rightarrow> (deviceSlot \<Rightarrow> deviceSlot) \<Rightarrow> 'srv FleetManager \<Rightarrow> 'srv FleetManager" where
  "upd_slot i f m = m\<lparr>fm_devices := (fm_devices m)[i := f (fm_devices m ! i)]\<rparr>"

text \<open>The identity of a slot: its own, or the one in its state file, or a new one for a token.\<close>

definition slotCredentials :: "'srv fleetEnv \<Rightarrow> nat \<Rightarrow> 'srv FleetManager \<Rightarrow> (prov_error + Credentials) \<times> 'srv FleetManager" where
  "slotCredentials fc i m =
     (case sl_dev (fm_devices m ! i) of
        Some (creds, _) \<Rightarrow> (Inr creds, m)
      | None \<Rightarrow>
          (let path = fc_stateFile fc i;
               (token, tokens) = (if pw_files (fm_host m) path = None then
                   (case pool_take (fm_tokens m) of (None, p) \<Rightarrow> ([], p) | (Some t, p) \<Rightarrow> (t, p))
                 else ([], fm_tokens m));
               (c, host) = LoadOrClaim (fc_rpc fc) path token (fm_host m) in
           (c, m\<lparr>fm_tokens := tokens, fm_host := host\<rparr>)))"

definition startSlot :: "'srv fleetEnv \<Rightarrow> nat \<Rightarrow> 'srv FleetManager \<Rightarrow> 'srv FleetManager" where
  "startSlot fc i m =
     (case slotCredentials fc i m of
        (Inl err, m1) \<Rightarrow> m1
      | (Inr creds, m1) \<Rightarrow>
          (let dev = newVirtualDevice (fc_src fc) (int i) (cd_DeviceID creds) (fc_sampleIntervalMS fc) (fc_now fc i);
               k = fm_nextLoop m1 in
           (upd_slot i (\<lambda>s. \<lparr>sl_dev = Some (creds, dev), sl_cancel = Some k, sl_running = True\<rparr>) m1)
             \<lparr>fm_loops := fm_loops m1 @ [k], fm_nextLoop := Suc k\<rparr>))"

definition stopSlot :: "nat \<Rightarrow> 'srv FleetManager \<Rightarrow> 'srv FleetManager" where
  "stopSlot i m =
     (let m1 = (case sl_cancel (fm_devices m ! i) of None \<Rightarrow> m | Some k \<Rightarrow> m\<lparr>fm_loops := removeAll k (fm_loops m)\<rparr>) in
      upd_slot i (\<lambda>s. s\<lparr>sl_dev := map_option (map_prod id stopDevice) (sl_dev s), sl_running := False\<rparr>) m1)"

text \<open>The part of \<^verbatim>\<open>Scale\<close> under the lock: the slots to start and to stop.\<close>

definition scalePlan :: "int \<Rightarrow> 'srv FleetManager \<Rightarrow> (nat list \<times> nat list) \<times> 'srv FleetManager" where
  "scalePlan target0 m =
     (let target = (if target0 < 0 then 0 else target0);
          devs = fm_devices m @ replicate (nat target - length (fm_devices m)) emptySlot;
          toStart = filter (\<lambda>i. int i < target \<and> \<not> sl_running (devs ! i)) [0..<length devs];
          toStop = filter (\<lambda>i. \<not> int i < target \<and> sl_running (devs ! i)) [0..<length devs] in
      ((toStart, toStop), m\<lparr>fm_devices := devs, fm_target := target\<rparr>))"

definition Scale :: "(nat list \<Rightarrow> nat list) \<Rightarrow> 'srv fleetEnv \<Rightarrow> int \<Rightarrow> 'srv FleetManager \<Rightarrow> 'srv FleetManager" where
  "Scale sched fc target m =
     (let ((toStart, toStop), m1) = scalePlan target m in
      fold (startSlot fc) (sched toStart) (fold stopSlot toStop m1))"

text \<open>The delays between the connections of one step.\<close>

definition stagger :: "duration \<Rightarrow> int \<Rightarrow> duration" where
  "stagger rampWindow n =
     (let s = rampWindow div n in if s < 2 * millisecond then 2 * millisecond else if s > 200 * millisecond then 200 * millisecond else s)"

definition candidates :: "'srv FleetManager \<Rightarrow> nat list" where
  "candidates m =
     filter (\<lambda>i. sl_running (fm_devices m ! i) \<and>
       (case sl_dev (fm_devices m ! i) of None \<Rightarrow> False | Some (_, d) \<Rightarrow> \<not> ds_partitioned (vd_stats d))) [0..<length (fm_devices m)]"

text \<open>Sending on a device's partition channel, which holds one value.\<close>

definition sendPartition :: "duration \<Rightarrow> nat \<Rightarrow> string list \<times> 'srv FleetManager \<Rightarrow> string list \<times> 'srv FleetManager" where
  "sendPartition dur i st =
     (case st of (ids, m) \<Rightarrow>
       (case sl_dev (fm_devices m ! i) of
          None \<Rightarrow> (ids, m)
        | Some (creds, d) \<Rightarrow>
            (case vd_partitionCh d of
               Some _ \<Rightarrow> (ids, m)
             | None \<Rightarrow> (ids @ [cd_DeviceID creds], upd_slot i (\<lambda>s. s\<lparr>sl_dev := Some (creds, d\<lparr>vd_partitionCh := Some dur\<rparr>)\<rparr>) m))))"

text \<open>\<open>shuffle\<close> is \<^verbatim>\<open>rand.Shuffle\<close>; a negative count panics when the result slice is made.\<close>

definition Partition :: "(nat list \<Rightarrow> nat list) \<Rightarrow> int \<Rightarrow> duration \<Rightarrow> 'srv FleetManager \<Rightarrow> (string list \<times> 'srv FleetManager) option" where
  "Partition shuffle count dur m =
     (let cs = shuffle (candidates m); n = (if count > int (length cs) then int (length cs) else count) in
      if n < 0 then None else Some (fold (sendPartition dur) (take (nat n) cs) ([], m)))"

definition UpdateRuntimeConfig :: "configPatch \<Rightarrow> 'srv FleetManager \<Rightarrow> runtimeConfig \<times> 'srv FleetManager" where
  "UpdateRuntimeConfig patch m =
     (let next = configPatch_apply patch (fm_rtCfg m) in (next, m\<lparr>fm_rtCfg := next\<rparr>))"

section \<open>Status\<close>

record deviceStatus =
  dv_DeviceID :: string
  dv_Connected :: bool
  dv_Partitioned :: bool
  dv_Seq :: u64

record fleetStatus =
  fs_Target :: int
  fs_Running :: nat
  fs_Connected :: nat
  fs_Partitioned :: nat
  fs_ClaimedTotal :: nat
  fs_TokensRemaining :: int
  fs_PublishedTotal :: u64
  fs_PublishErrorsTotal :: u64
  fs_MalformedSentTotal :: u64
  fs_AnomaliesSentTotal :: u64
  fs_ReconnectsTotal :: u64
  fs_RuntimeConfig :: runtimeConfig
  fs_Devices :: "deviceStatus list"

definition addSlot :: "fleetStatus \<Rightarrow> deviceSlot \<Rightarrow> fleetStatus" where
  "addSlot st slot =
     (case sl_dev slot of
        None \<Rightarrow> st
      | Some (creds, d) \<Rightarrow>
          (let s = vd_stats d in
           st\<lparr>fs_ClaimedTotal := fs_ClaimedTotal st + 1,
             fs_Running := fs_Running st + (if sl_running slot then 1 else 0),
             fs_Connected := fs_Connected st + (if ds_connected s then 1 else 0),
             fs_Partitioned := fs_Partitioned st + (if ds_partitioned s then 1 else 0),
             fs_PublishedTotal := fs_PublishedTotal st + ds_published s,
             fs_PublishErrorsTotal := fs_PublishErrorsTotal st + ds_publishErrors s,
             fs_MalformedSentTotal := fs_MalformedSentTotal st + ds_malformedSent s,
             fs_AnomaliesSentTotal := fs_AnomaliesSentTotal st + ds_anomaliesSent s,
             fs_ReconnectsTotal := fs_ReconnectsTotal st + ds_reconnects s,
             fs_Devices := fs_Devices st @ [\<lparr>dv_DeviceID = cd_DeviceID creds, dv_Connected = ds_connected s,
               dv_Partitioned = ds_partitioned s, dv_Seq = ds_lastSeq s\<rparr>]\<rparr>))"

definition Status :: "'srv FleetManager \<Rightarrow> fleetStatus" where
  "Status m =
     foldl addSlot \<lparr>fs_Target = fm_target m, fs_Running = 0, fs_Connected = 0, fs_Partitioned = 0, fs_ClaimedTotal = 0,
       fs_TokensRemaining = pool_remaining (fm_tokens m), fs_PublishedTotal = 0, fs_PublishErrorsTotal = 0,
       fs_MalformedSentTotal = 0, fs_AnomaliesSentTotal = 0, fs_ReconnectsTotal = 0, fs_RuntimeConfig = fm_rtCfg m,
       fs_Devices = []\<rparr> (fm_devices m)"

section \<open>Control API\<close>

text \<open>A request body is the first JSON value of its first 4096 bytes.\<close>

record scaleRequest =
  sq_Count :: int

definition set_scaleRequest :: "string \<Rightarrow> scaleRequest decoder" where
  "set_scaleRequest k = (if k = ''count'' then field dec_int sq_Count (\<lambda>v r. r\<lparr>sq_Count := v\<rparr>) else (\<lambda>_ r. Inr r))"

record partitionRequest =
  pq_Count :: int
  pq_DurationMS :: int

definition set_partitionRequest :: "string \<Rightarrow> partitionRequest decoder" where
  "set_partitionRequest k =
     (if k = ''count'' then field dec_int pq_Count (\<lambda>v r. r\<lparr>pq_Count := v\<rparr>)
      else if k = ''duration_ms'' then field dec_int pq_DurationMS (\<lambda>v r. r\<lparr>pq_DurationMS := v\<rparr>)
      else (\<lambda>_ r. Inr r))"

definition zeroPatch :: configPatch where
  "zeroPatch = \<lparr>cp_MalformedRate = None, cp_LatencyJitterMS = None, cp_ClockSkewJitterMS = None, cp_DisconnectRate = None,
     cp_StepRate = None, cp_AnomalyRate = None\<rparr>"

definition set_configPatch :: "string \<Rightarrow> configPatch decoder" where
  "set_configPatch k =
     (if k = ''malformed_rate'' then field (dec_ptr dec_float 0) cp_MalformedRate (\<lambda>v p. p\<lparr>cp_MalformedRate := v\<rparr>)
      else if k = ''latency_jitter_ms'' then field (dec_ptr dec_int 0) cp_LatencyJitterMS (\<lambda>v p. p\<lparr>cp_LatencyJitterMS := v\<rparr>)
      else if k = ''clock_skew_jitter_ms'' then field (dec_ptr dec_int 0) cp_ClockSkewJitterMS (\<lambda>v p. p\<lparr>cp_ClockSkewJitterMS := v\<rparr>)
      else if k = ''disconnect_rate'' then field (dec_ptr dec_float 0) cp_DisconnectRate (\<lambda>v p. p\<lparr>cp_DisconnectRate := v\<rparr>)
      else if k = ''step_rate'' then field (dec_ptr dec_float 0) cp_StepRate (\<lambda>v p. p\<lparr>cp_StepRate := v\<rparr>)
      else if k = ''anomaly_rate'' then field (dec_ptr dec_float 0) cp_AnomalyRate (\<lambda>v p. p\<lparr>cp_AnomalyRate := v\<rparr>)
      else (\<lambda>_ p. Inr p))"

datatype fleet_reply =
    FleetError nat string
  | StatusReply fleetStatus
  | PartitionReply "string list" int
  | ConfigReply runtimeConfig

definition post_scale :: "(nat list \<Rightarrow> nat list) \<Rightarrow> 'srv fleetEnv \<Rightarrow> body \<Rightarrow> 'srv FleetManager \<Rightarrow> fleet_reply \<times> 'srv FleetManager" where
  "post_scale sched fc b m =
     (case Unmarshal (dec_struct set_scaleRequest) \<lparr>sq_Count = 0\<rparr> b of
        Inl _ \<Rightarrow> (FleetError 400 ''invalid request body'', m)
      | Inr req \<Rightarrow>
          if sq_Count req < 0 then (FleetError 400 ''count must be >= 0'', m)
          else (let m' = Scale sched fc (sq_Count req) m in (StatusReply (Status m'), m')))"

definition post_partition :: "(nat list \<Rightarrow> nat list) \<Rightarrow> body \<Rightarrow> 'srv FleetManager \<Rightarrow> (fleet_reply \<times> 'srv FleetManager) option" where
  "post_partition shuffle b m =
     (case Unmarshal (dec_struct set_partitionRequest) \<lparr>pq_Count = 0, pq_DurationMS = 0\<rparr> b of
        Inl _ \<Rightarrow> Some (FleetError 400 ''invalid request body'', m)
      | Inr req \<Rightarrow>
          if pq_Count req \<le> 0 \<or> pq_DurationMS req \<le> 0
          then Some (FleetError 400 ''count and duration_ms must be positive'', m)
          else
            (case Partition shuffle (pq_Count req) (scaled millisecond (pq_DurationMS req)) m of
               None \<Rightarrow> None
             | Some (ids, m') \<Rightarrow> Some (PartitionReply ids (pq_DurationMS req), m')))"

definition post_config :: "body \<Rightarrow> 'srv FleetManager \<Rightarrow> fleet_reply \<times> 'srv FleetManager" where
  "post_config b m =
     (case Unmarshal (dec_struct set_configPatch) zeroPatch b of
        Inl _ \<Rightarrow> (FleetError 400 ''invalid request body'', m)
      | Inr patch \<Rightarrow> (case UpdateRuntimeConfig patch m of (next, m') \<Rightarrow> (ConfigReply next, m')))"

section \<open>Lemmas\<close>

abbreviation slot :: "'srv FleetManager \<Rightarrow> nat \<Rightarrow> deviceSlot" where
  "slot m i \<equiv> fm_devices m ! i"

abbreviation slots :: "'srv FleetManager \<Rightarrow> nat" where
  "slots m \<equiv> length (fm_devices m)"

text \<open>A loop runs for each running slot, which can cancel it, and for nothing else.\<close>

definition fleet_inv :: "'srv FleetManager \<Rightarrow> bool" where
  "fleet_inv m \<longleftrightarrow>
     (\<forall>i < slots m. sl_running (slot m i) \<longrightarrow> sl_dev (slot m i) \<noteq> None \<and> sl_cancel (slot m i) \<noteq> None) \<and>
     (\<forall>i < slots m. \<forall>k. sl_cancel (slot m i) = Some k \<longrightarrow> k < fm_nextLoop m) \<and>
     (\<forall>i < slots m. \<forall>j < slots m. \<forall>k. sl_cancel (slot m i) = Some k \<longrightarrow> sl_cancel (slot m j) = Some k \<longrightarrow> i = j) \<and>
     distinct (fm_loops m) \<and>
     (\<forall>k. k \<in> set (fm_loops m) \<longleftrightarrow> (\<exists>i < slots m. sl_running (slot m i) \<and> sl_cancel (slot m i) = Some k))"

lemma slotCredentials_frame:
  assumes "slotCredentials fc i m = (r, m1)"
  shows "fm_devices m1 = fm_devices m \<and> fm_loops m1 = fm_loops m \<and> fm_nextLoop m1 = fm_nextLoop m \<and> fm_target m1 = fm_target m"
  using assms by (auto simp: slotCredentials_def Let_def split: option.splits prod.splits)

lemma slotCredentials_own: "sl_dev (slot m i) = Some (c, d) \<Longrightarrow> slotCredentials fc i m = (Inr c, m)"
  by (simp add: slotCredentials_def)

text \<open>Starting a slot: either nothing about the slots changes, and it has no identity, or it runs a new loop, under
  the identity it had if it had one.\<close>

lemma startSlot_cases:
  obtains (failed) "fm_devices (startSlot fc i m) = fm_devices m" "fm_loops (startSlot fc i m) = fm_loops m"
      "fm_nextLoop (startSlot fc i m) = fm_nextLoop m" "sl_dev (slot m i) = None"
  | (started) c d where "fm_devices (startSlot fc i m) =
        (fm_devices m)[i := \<lparr>sl_dev = Some (c, d), sl_cancel = Some (fm_nextLoop m), sl_running = True\<rparr>]"
      "fm_loops (startSlot fc i m) = fm_loops m @ [fm_nextLoop m]" "fm_nextLoop (startSlot fc i m) = Suc (fm_nextLoop m)"
      "\<forall>c0 d0. sl_dev (slot m i) = Some (c0, d0) \<longrightarrow> c0 = c"
proof -
  obtain r m1 where cr: "slotCredentials fc i m = (r, m1)" by (cases "slotCredentials fc i m")
  note fr = slotCredentials_frame [OF cr]
  show thesis
  proof (cases r)
    case (Inl e)
    have "sl_dev (slot m i) = None"
      using slotCredentials_own [of m i _ _ fc] cr Inl by (cases "sl_dev (slot m i)") auto
    with Inl cr fr show thesis by (intro failed) (simp_all add: startSlot_def)
  next
    case (Inr c)
    have "\<forall>c0 d0. sl_dev (slot m i) = Some (c0, d0) \<longrightarrow> c0 = c" using slotCredentials_own [of m i _ _ fc] cr Inr by auto
    with Inr cr fr show thesis by (intro started) (auto simp: startSlot_def Let_def upd_slot_def)
  qed
qed

lemma startSlot_inv:
  assumes "fleet_inv m" and "i < slots m" and "\<not> sl_running (slot m i)"
  shows "fleet_inv (startSlot fc i m)"
proof (rule startSlot_cases [of fc i m])
  assume "fm_devices (startSlot fc i m) = fm_devices m" "fm_loops (startSlot fc i m) = fm_loops m"
    "fm_nextLoop (startSlot fc i m) = fm_nextLoop m"
  with assms(1) show ?thesis by (simp add: fleet_inv_def)
next
  fix c d
  assume new: "fm_devices (startSlot fc i m) =
        (fm_devices m)[i := \<lparr>sl_dev = Some (c, d), sl_cancel = Some (fm_nextLoop m), sl_running = True\<rparr>]"
      "fm_loops (startSlot fc i m) = fm_loops m @ [fm_nextLoop m]" "fm_nextLoop (startSlot fc i m) = Suc (fm_nextLoop m)"
  have fresh: "\<forall>j < slots m. sl_cancel (slot m j) \<noteq> Some (fm_nextLoop m)" "fm_nextLoop m \<notin> set (fm_loops m)"
    using assms(1) unfolding fleet_inv_def by (metis less_irrefl)+
  show ?thesis
    unfolding fleet_inv_def new
    using assms fresh unfolding fleet_inv_def by (auto simp: nth_list_update less_Suc_eq split: if_splits)
qed

lemma startSlot_slot:
  assumes "i < slots m"
  shows "slots (startSlot fc i m) = slots m" and "j \<noteq> i \<Longrightarrow> slot (startSlot fc i m) j = slot m j"
    and "sl_running (slot (startSlot fc i m) i) \<or> slot (startSlot fc i m) i = slot m i \<and> sl_dev (slot m i) = None"
    and "sl_dev (slot m i) = Some (c, d) \<Longrightarrow> \<exists>d'. sl_dev (slot (startSlot fc i m) i) = Some (c, d')"
  using assms by (auto intro: startSlot_cases [of fc i m])

lemma stopSlot_slot:
  assumes "i < slots m"
  shows "slots (stopSlot i m) = slots m" and "j \<noteq> i \<Longrightarrow> slot (stopSlot i m) j = slot m j"
    and "\<not> sl_running (slot (stopSlot i m) i)" and "sl_cancel (slot (stopSlot i m) i) = sl_cancel (slot m i)"
    and "sl_dev (slot m i) = Some (c, d) \<Longrightarrow> \<exists>d'. sl_dev (slot (stopSlot i m) i) = Some (c, d')"
    and "fm_nextLoop (stopSlot i m) = fm_nextLoop m"
    and "fm_loops (stopSlot i m) = (case sl_cancel (slot m i) of None \<Rightarrow> fm_loops m | Some k \<Rightarrow> removeAll k (fm_loops m))"
  using assms by (auto simp: stopSlot_def upd_slot_def Let_def split: option.splits)

lemma stopSlot_inv:
  assumes inv: "fleet_inv m" and i: "i < slots m"
  shows "fleet_inv (stopSlot i m)"
proof -
  note s = stopSlot_slot [OF i]
  have can: "sl_cancel (slot (stopSlot i m) j) = sl_cancel (slot m j)" for j by (cases "j = i") (simp_all add: s)
  have run: "sl_running (slot (stopSlot i m) j) \<longleftrightarrow> sl_running (slot m j) \<and> j \<noteq> i" for j by (cases "j = i") (simp_all add: s)
  have loops: "k \<in> set (fm_loops (stopSlot i m)) \<longleftrightarrow> k \<in> set (fm_loops m) \<and> sl_cancel (slot m i) \<noteq> Some k" for k
    by (auto simp: s(7) split: option.splits)
  have "distinct (fm_loops (stopSlot i m))" using inv by (auto simp: s(7) fleet_inv_def distinct_removeAll split: option.splits)
  with inv show ?thesis
    unfolding fleet_inv_def can run loops s(1,6) using i s(2)
    by (intro conjI) (metis+)
qed

text \<open>What starting or stopping a list of slots does to each slot.\<close>

lemma start_all:
  assumes "fleet_inv m" and "distinct xs" and "\<forall>i \<in> set xs. i < slots m \<and> \<not> sl_running (slot m i)"
  shows "fleet_inv (fold (startSlot fc) xs m) \<and> slots (fold (startSlot fc) xs m) = slots m \<and>
     (\<forall>j. j \<notin> set xs \<longrightarrow> slot (fold (startSlot fc) xs m) j = slot m j) \<and>
     (\<forall>j \<in> set xs. sl_running (slot (fold (startSlot fc) xs m) j) \<or> sl_dev (slot (fold (startSlot fc) xs m) j) = None) \<and>
     (\<forall>j c d. j < slots m \<longrightarrow> sl_dev (slot m j) = Some (c, d) \<longrightarrow> (\<exists>d'. sl_dev (slot (fold (startSlot fc) xs m) j) = Some (c, d')))"
  using assms
proof (induction xs arbitrary: m)
  case (Cons i xs)
  then have i: "i < slots m" "\<not> sl_running (slot m i)" and d: "i \<notin> set xs" "distinct xs" by simp_all
  note s = startSlot_slot [OF i(1), where fc = fc]
  let ?m1 = "startSlot fc i m"
  have pre: "\<forall>j \<in> set xs. j < slots ?m1 \<and> \<not> sl_running (slot ?m1 j)"
  proof
    fix j assume "j \<in> set xs"
    then have "j \<noteq> i" "j < slots m" "\<not> sl_running (slot m j)" using Cons.prems(3) d(1) by auto
    with s(1) s(2) [of j] show "j < slots ?m1 \<and> \<not> sl_running (slot ?m1 j)" by simp
  qed
  from Cons.IH [OF startSlot_inv [OF Cons.prems(1) i] d(2) pre]
  have IH: "fleet_inv (fold (startSlot fc) xs ?m1)" "slots (fold (startSlot fc) xs ?m1) = slots m"
    "\<And>j. j \<notin> set xs \<Longrightarrow> slot (fold (startSlot fc) xs ?m1) j = slot ?m1 j"
    "\<And>j. j \<in> set xs \<Longrightarrow> sl_running (slot (fold (startSlot fc) xs ?m1) j) \<or> sl_dev (slot (fold (startSlot fc) xs ?m1) j) = None"
    "\<And>j c d. j < slots m \<Longrightarrow> sl_dev (slot ?m1 j) = Some (c, d) \<Longrightarrow> \<exists>d'. sl_dev (slot (fold (startSlot fc) xs ?m1) j) = Some (c, d')"
    by (simp_all add: s(1))
  have kept: "\<exists>d'. sl_dev (slot ?m1 j) = Some (c, d')" if "sl_dev (slot m j) = Some (c, d)" for j c d
    using that s(2,4) by (cases "j = i") auto
  have here: "sl_running (slot ?m1 i) \<or> sl_dev (slot ?m1 i) = None" using s(3) by auto
  show ?case
    unfolding fold_Cons o_def
  proof (intro conjI allI impI ballI)
    fix j assume "j \<in> set (i # xs)"
    then show "sl_running (slot (fold (startSlot fc) xs ?m1) j) \<or> sl_dev (slot (fold (startSlot fc) xs ?m1) j) = None"
      using IH(3) [OF d(1)] IH(4) here by (cases "j = i") (simp_all add: d(1))
  next
    fix j c d assume "j < slots m" "sl_dev (slot m j) = Some (c, d)"
    with kept IH(5) show "\<exists>d'. sl_dev (slot (fold (startSlot fc) xs ?m1) j) = Some (c, d')" by blast
  qed (use IH s(2) in \<open>simp_all\<close>)
qed auto

lemma stop_all:
  assumes "fleet_inv m" and "\<forall>i \<in> set xs. i < slots m"
  shows "fleet_inv (fold stopSlot xs m) \<and> slots (fold stopSlot xs m) = slots m \<and>
     (\<forall>j. j \<notin> set xs \<longrightarrow> slot (fold stopSlot xs m) j = slot m j) \<and> (\<forall>j \<in> set xs. \<not> sl_running (slot (fold stopSlot xs m) j)) \<and>
     (\<forall>j c d. j < slots m \<longrightarrow> sl_dev (slot m j) = Some (c, d) \<longrightarrow> (\<exists>d'. sl_dev (slot (fold stopSlot xs m) j) = Some (c, d')))"
  using assms
proof (induction xs arbitrary: m)
  case (Cons i xs)
  then have i: "i < slots m" by simp
  note s = stopSlot_slot [OF i]
  let ?m1 = "stopSlot i m"
  have "\<forall>j \<in> set xs. j < slots ?m1" using Cons.prems(2) s(1) by simp
  from Cons.IH [OF stopSlot_inv [OF Cons.prems(1) i] this]
  have IH: "fleet_inv (fold stopSlot xs ?m1)" "slots (fold stopSlot xs ?m1) = slots m"
    "\<And>j. j \<notin> set xs \<Longrightarrow> slot (fold stopSlot xs ?m1) j = slot ?m1 j" "\<And>j. j \<in> set xs \<Longrightarrow> \<not> sl_running (slot (fold stopSlot xs ?m1) j)"
    "\<And>j c d. j < slots m \<Longrightarrow> sl_dev (slot ?m1 j) = Some (c, d) \<Longrightarrow> \<exists>d'. sl_dev (slot (fold stopSlot xs ?m1) j) = Some (c, d')"
    by (simp_all add: s(1))
  have kept: "\<exists>d'. sl_dev (slot ?m1 j) = Some (c, d')" if "sl_dev (slot m j) = Some (c, d)" for j c d
    using that s(2,5) by (cases "j = i") auto
  show ?case
    unfolding fold_Cons o_def
  proof (intro conjI allI impI ballI)
    fix j assume "j \<in> set (i # xs)"
    then show "\<not> sl_running (slot (fold stopSlot xs ?m1) j)" using IH(3,4) s(3) by (cases "j \<in> set xs") auto
  next
    fix j c d assume "j < slots m" "sl_dev (slot m j) = Some (c, d)"
    with kept IH(5) show "\<exists>d'. sl_dev (slot (fold stopSlot xs ?m1) j) = Some (c, d')" by blast
  qed (use IH s(2) in \<open>simp_all\<close>)
qed auto

lemma scalePlan_slots:
  assumes "fleet_inv m" and "scalePlan target m = ((toStart, toStop), m1)"
  shows "fleet_inv m1" and "slots m1 = max (slots m) (nat target)"
    and "set toStart = {i. i < slots m1 \<and> int i < target \<and> \<not> sl_running (slot m1 i)}"
    and "set toStop = {i. i < slots m1 \<and> \<not> int i < target \<and> sl_running (slot m1 i)}"
    and "distinct toStart" and "j < slots m \<Longrightarrow> slot m1 j = slot m j" and "fm_loops m1 = fm_loops m"
proof -
  have m1: "m1 = m\<lparr>fm_devices := fm_devices m @ replicate (nat target - slots m) emptySlot, fm_target := max 0 target\<rparr>"
    using assms(2) by (auto simp: scalePlan_def Let_def max_def split: if_splits)
  have old: "slot m1 j = (if j < slots m then slot m j else emptySlot)" if "j < slots m1" for j
    using that by (auto simp: m1 nth_append)
  show "slots m1 = max (slots m) (nat target)" by (simp add: m1)
  have len: "slots m \<le> slots m1" "fm_nextLoop m1 = fm_nextLoop m" "fm_loops m1 = fm_loops m" by (simp_all add: m1)
  have can: "j < slots m1 \<and> sl_cancel (slot m1 j) = Some k \<longleftrightarrow> j < slots m \<and> sl_cancel (slot m j) = Some k" for j k
    using old [of j] len(1) by (auto simp: emptySlot_def split: if_splits)
  have run: "j < slots m1 \<and> sl_running (slot m1 j) \<longleftrightarrow> j < slots m \<and> sl_running (slot m j)" for j
    using old [of j] len(1) by (auto simp: emptySlot_def split: if_splits)
  have both: "(\<exists>i < slots m1. sl_running (slot m1 i) \<and> sl_cancel (slot m1 i) = Some k) \<longleftrightarrow>
      (\<exists>i < slots m. sl_running (slot m i) \<and> sl_cancel (slot m i) = Some k)" for k
    using can [of _ k] run by blast
  have dev: "sl_dev (slot m1 j) \<noteq> None \<and> sl_cancel (slot m1 j) \<noteq> None" if "j < slots m1" "sl_running (slot m1 j)" for j
    using that run [of j] old [of j] assms(1) by (simp add: fleet_inv_def)
  show "fleet_inv m1"
    unfolding fleet_inv_def both len(2,3)
  proof (intro conjI)
    show "\<forall>i < slots m1. sl_running (slot m1 i) \<longrightarrow> sl_dev (slot m1 i) \<noteq> None \<and> sl_cancel (slot m1 i) \<noteq> None" using dev by blast
    have I: "\<And>i k. i < slots m \<Longrightarrow> sl_cancel (slot m i) = Some k \<Longrightarrow> k < fm_nextLoop m"
      "\<And>i j k. i < slots m \<Longrightarrow> j < slots m \<Longrightarrow> sl_cancel (slot m i) = Some k \<Longrightarrow> sl_cancel (slot m j) = Some k \<Longrightarrow> i = j"
      using assms(1) by (simp_all add: fleet_inv_def)
    show "\<forall>i < slots m1. \<forall>k. sl_cancel (slot m1 i) = Some k \<longrightarrow> k < fm_nextLoop m" using can I(1) by meson
    show "\<forall>i < slots m1. \<forall>j < slots m1. \<forall>k. sl_cancel (slot m1 i) = Some k \<longrightarrow> sl_cancel (slot m1 j) = Some k \<longrightarrow> i = j"
      using can I(2) by meson
  qed (use assms(1) in \<open>simp_all add: fleet_inv_def\<close>)
  show "j < slots m \<Longrightarrow> slot m1 j = slot m j" "fm_loops m1 = fm_loops m" by (simp_all add: m1 nth_append)
  show "set toStart = {i. i < slots m1 \<and> int i < target \<and> \<not> sl_running (slot m1 i)}"
    "set toStop = {i. i < slots m1 \<and> \<not> int i < target \<and> sl_running (slot m1 i)}" "distinct toStart"
    using assms(2) unfolding m1 by (cases "target < 0"; auto simp: scalePlan_def Let_def)+
qed

lemma Status_running: "\<forall>s \<in> set ss. sl_running s \<longrightarrow> sl_dev s \<noteq> None \<Longrightarrow>
    fs_Running (foldl addSlot st ss) = fs_Running st + length (filter sl_running ss)"
  by (induction ss arbitrary: st) (auto simp: addSlot_def Let_def split: option.splits prod.splits)

section \<open>Properties\<close>

text \<open>Scaling reaches its target. Whatever order the starts run in, afterwards exactly the first \<open>target\<close>
  slots run, except those that have no identity and could not claim one; each running slot has one loop, which it
  can cancel, and no other loop is left; no slot loses the identity it had; and the status counts the running ones.\<close>

theorem scale_reaches_target:
  assumes "fleet_inv m" and sched: "\<forall>is. set (sched is) = set is \<and> (distinct is \<longrightarrow> distinct (sched is))"
    and m': "m' = Scale sched fc target m"
  shows "fleet_inv m' \<and> slots m' = max (slots m) (nat target) \<and>
     (\<forall>i < slots m'. if int i < target then sl_running (slot m' i) \<or> sl_dev (slot m' i) = None else \<not> sl_running (slot m' i)) \<and>
     (\<forall>i c d. i < slots m \<longrightarrow> sl_dev (slot m i) = Some (c, d) \<longrightarrow> (\<exists>d'. sl_dev (slot m' i) = Some (c, d'))) \<and>
     fs_Running (Status m') = length (filter sl_running (fm_devices m'))"
proof -
  obtain toStart toStop m1 where plan: "scalePlan target m = ((toStart, toStop), m1)" by (metis prod.collapse)
  note p = scalePlan_slots [OF assms(1) plan]
  define m2 where "m2 = fold stopSlot toStop m1"
  have "\<forall>i \<in> set toStop. i < slots m1" using p(4) by simp
  note st = stop_all [OF p(1) this, folded m2_def]
  have m'2: "m' = fold (startSlot fc) (sched toStart) m2" by (simp add: m' Scale_def plan m2_def)
  have "\<forall>i \<in> set (sched toStart). i < slots m2 \<and> \<not> sl_running (slot m2 i)"
    using st p(3,4) sched by auto
  note up = start_all [where fc = fc, OF conjunct1 [OF st] _ this]
  have d: "distinct (sched toStart)" using sched p(5) by simp
  note up = up [OF d, folded m'2]
  have sets: "set (sched toStart) = set toStart" using sched by simp
  have len: "slots m' = slots m1" using up st by simp
  have run: "if int i < target then sl_running (slot m' i) \<or> sl_dev (slot m' i) = None else \<not> sl_running (slot m' i)" if "i < slots m'" for i
  proof (cases "i \<in> set toStart")
    case True
    then show ?thesis using up p(3) sets by simp
  next
    case False
    then have same: "slot m' i = slot m2 i" using up sets by blast
    show ?thesis
    proof (cases "i \<in> set toStop")
      case True
      then show ?thesis using st p(4) same by auto
    next
      case no: False
      then have "slot m' i = slot m1 i" using st same by simp
      with False no that show ?thesis using p(3,4) len by auto
    qed
  qed
  have own: "\<exists>d'. sl_dev (slot m' i) = Some (c, d')" if "i < slots m" "sl_dev (slot m i) = Some (c, d)" for i c d
    using that up st p(2,6) by (metis max.strict_coboundedI1)
  have inv: "fleet_inv m'" using up by simp
  then have "\<forall>s \<in> set (fm_devices m'). sl_running s \<longrightarrow> sl_dev s \<noteq> None" by (auto simp: fleet_inv_def in_set_conv_nth)
  from Status_running [OF this] have "fs_Running (Status m') = length (filter sl_running (fm_devices m'))"
    by (simp add: Status_def)
  with inv len p(2) run own show ?thesis by auto
qed

definition fleetCfg :: "nat fleetEnv" where
  "fleetCfg = \<lparr>fc_stateFile = (\<lambda>i. replicate i CHR ''x''), fc_sampleIntervalMS = 1000, fc_rampWindow = 3 * second, fc_rpc = grantRpc,
     fc_src = (\<lambda>_. steadyRng), fc_now = (\<lambda>_. 0)\<rparr>"

definition newFleet :: "nat FleetManager" where
  "newFleet = NewFleetManager \<lparr>tp_tokens = [''t0''], tp_next = 0\<rparr> calmRt freshHost"

lemma newFleet_inv: "fleet_inv newFleet"
  by (simp add: fleet_inv_def newFleet_def NewFleetManager_def)

theorem scale_reaches_target_witness:
  "\<exists>m'. m' = Scale id fleetCfg 1 newFleet \<and> slots m' = 1 \<and> sl_running (slot m' 0) \<and> fs_Running (Status m') = 1"
proof -
  define m' where "m' = Scale id fleetCfg 1 newFleet"
  have "sl_dev (slot m' 0) \<noteq> None"
    by (simp add: m'_def Scale_def scalePlan_def newFleet_def NewFleetManager_def emptySlot_def startSlot_def slotCredentials_def
        fleetCfg_def pool_take_def LoadOrClaim_def load_def claim_def save_def grantRpc_def freshHost_def Credentials_roundtrip
        upd_slot_def Let_def)
  moreover have "slots newFleet = 0" by (simp add: newFleet_def NewFleetManager_def)
  ultimately have 1: "slots m' = 1" "sl_running (slot m' 0)" "fs_Running (Status m') = length (filter sl_running (fm_devices m'))"
    using scale_reaches_target [OF newFleet_inv _ m'_def] by auto
  then obtain s where "fm_devices m' = [s]" by (cases "fm_devices m'") auto
  with 1 have "fs_Running (Status m') = 1" by simp
  with 1 show ?thesis unfolding m'_def by blast
qed

text \<open>Overlapping calls of \<^verbatim>\<open>Scale\<close> leak devices. Two calls that plan before either has started anything
  plan the same starts; a slot started twice runs two loops and can cancel only the second, so that after it is
  stopped the first goes on publishing as a device nobody can stop.\<close>

theorem overlapping_scales_leak:
  assumes inv: "fleet_inv m" and plan1: "scalePlan target m = ((start1, stop1), m1)" and plan2: "scalePlan target m1 = ((start2, stop2), m2)"
    and i: "i \<in> set start1" and own: "sl_dev (slot m2 i) = Some (c, d)"
    and m3: "m3 = stopSlot i (startSlot fc i (startSlot fc i m2))"
  shows "start2 = start1 \<and> \<not> sl_running (slot m3 i) \<and> fm_nextLoop m2 \<in> set (fm_loops m3) \<and>
     (\<forall>j < slots m3. sl_cancel (slot m3 j) \<noteq> Some (fm_nextLoop m2))"
proof -
  note p1 = scalePlan_slots [OF inv plan1] and p2 = scalePlan_slots [OF scalePlan_slots(1) [OF inv plan1] plan2]
  have devs: "fm_devices m2 = fm_devices m1" "start2 = start1"
    using plan1 plan2 by (auto simp: scalePlan_def Let_def split: if_splits)
  have lt: "i < slots m2" using i p1(3) devs(1) by simp
  obtain d1 where a: "fm_devices (startSlot fc i m2) = (fm_devices m2)[i := \<lparr>sl_dev = Some (c, d1), sl_cancel = Some (fm_nextLoop m2), sl_running = True\<rparr>]"
    "fm_loops (startSlot fc i m2) = fm_loops m2 @ [fm_nextLoop m2]" "fm_nextLoop (startSlot fc i m2) = Suc (fm_nextLoop m2)"
    using own by (auto intro: startSlot_cases [of fc i m2])
  let ?a = "startSlot fc i m2"
  have own2: "sl_dev (slot ?a i) = Some (c, d1)" using a(1) lt by simp
  obtain d2 where b: "fm_devices (startSlot fc i ?a) = (fm_devices ?a)[i := \<lparr>sl_dev = Some (c, d2), sl_cancel = Some (fm_nextLoop ?a), sl_running = True\<rparr>]"
    "fm_loops (startSlot fc i ?a) = fm_loops ?a @ [fm_nextLoop ?a]"
    using own2 by (auto intro: startSlot_cases [of fc i ?a])
  have lt2: "i < slots (startSlot fc i ?a)" using a(1) b(1) lt by simp
  have fresh: "sl_cancel (slot m2 j) \<noteq> Some (fm_nextLoop m2)" if "j < slots m2" for j
    using that p2(1) by (auto simp: fleet_inv_def)
  have "fm_loops m3 = removeAll (Suc (fm_nextLoop m2)) (fm_loops m2 @ [fm_nextLoop m2, Suc (fm_nextLoop m2)])"
    using stopSlot_slot(7) [OF lt2] lt by (simp add: m3 a b)
  moreover have "\<forall>j < slots m3. sl_cancel (slot m3 j) \<noteq> Some (fm_nextLoop m2)"
  proof (intro allI impI)
    fix j assume "j < slots m3"
    then have j: "j < slots m2" using stopSlot_slot(1) [OF lt2] by (simp add: m3 a(1) b(1))
    show "sl_cancel (slot m3 j) \<noteq> Some (fm_nextLoop m2)"
    proof (cases "j = i")
      case True
      then have "sl_cancel (slot m3 j) = Some (Suc (fm_nextLoop m2))" using stopSlot_slot(4) [OF lt2] lt by (simp add: m3 a b)
      then show ?thesis by simp
    next
      case False
      then have "slot m3 j = slot m2 j" using stopSlot_slot(2) [OF lt2 False] by (simp add: m3 a(1) b(1))
      with fresh [OF j] show ?thesis by simp
    qed
  qed
  moreover have "\<not> sl_running (slot m3 i)" using stopSlot_slot(3) [OF lt2] by (simp add: m3)
  ultimately show ?thesis using devs(2) by simp
qed

definition idleFleet :: "nat FleetManager" where
  "idleFleet = newFleet\<lparr>fm_devices := [\<lparr>sl_dev = Some (zeroCredentials, calmDevice), sl_cancel = None, sl_running = False\<rparr>]\<rparr>"

theorem overlapping_scales_leak_witness:
  "\<exists>m2 m3. m3 = stopSlot 0 (startSlot fleetCfg 0 (startSlot fleetCfg 0 m2)) \<and> \<not> sl_running (slot m3 0) \<and> fm_loops m3 \<noteq> []"
proof -
  have inv: "fleet_inv idleFleet" by (simp add: fleet_inv_def idleFleet_def newFleet_def NewFleetManager_def)
  obtain m1 where p1: "scalePlan 1 idleFleet = (([0], []), m1)" and m1: "slots m1 = 1" "sl_dev (slot m1 0) = Some (zeroCredentials, calmDevice)" "\<not> sl_running (slot m1 0)"
    by (simp add: scalePlan_def idleFleet_def)
  then obtain m2 where p2: "scalePlan 1 m1 = (([0], []), m2)" and "sl_dev (slot m2 0) = Some (zeroCredentials, calmDevice)"
    by (simp add: scalePlan_def)
  from overlapping_scales_leak [OF inv p1 p2 _ this(2) refl, of fleetCfg] show ?thesis by (auto simp del: One_nat_def)
qed

text \<open>A device stopped during a partition counts as partitioned in the status from then on: stopping resets only
  the flag of the connection.\<close>

theorem stopped_still_partitioned:
  assumes "i < slots m" and "sl_dev (slot m i) = Some (c, d)" and "ds_partitioned (vd_stats d)"
  shows "\<not> sl_running (slot (stopSlot i m) i) \<and>
     (\<exists>d'. sl_dev (slot (stopSlot i m) i) = Some (c, d') \<and> ds_partitioned (vd_stats d') \<and> \<not> ds_connected (vd_stats d'))"
  using assms by (auto simp: stopSlot_def upd_slot_def stopDevice_def upd_stats_def Let_def split: option.splits)

definition cutSlot :: deviceSlot where
  "cutSlot = \<lparr>sl_dev = Some (zeroCredentials, upd_stats (\<lambda>s. s\<lparr>ds_partitioned := True\<rparr>) calmDevice), sl_cancel = Some 0, sl_running = True\<rparr>"

theorem stopped_still_partitioned_witness:
  "sl_running cutSlot \<and> \<not> sl_running (slot (stopSlot 0 (idleFleet\<lparr>fm_devices := [cutSlot]\<rparr>)) 0)"
  using stopped_still_partitioned [of 0 "idleFleet\<lparr>fm_devices := [cutSlot]\<rparr>" zeroCredentials "upd_stats (\<lambda>s. s\<lparr>ds_partitioned := True\<rparr>) calmDevice"]
  by (simp add: cutSlot_def upd_stats_def)

text \<open>An unreadable state file takes its slot out. If the file exists and does not parse, no token is taken for the slot, the
  claim is refused for want of one, and every attempt to start the slot leaves everything as it was.\<close>

theorem corrupt_state_blocks_slot:
  assumes "sl_dev (slot m i) = None" and "pw_files (fm_host m) (fc_stateFile fc i) = Some raw" and "unmarshal_Credentials raw = Inl e"
  shows "startSlot fc i m = m"
  using assms by (cases m) (simp add: startSlot_def slotCredentials_def LoadOrClaim_def load_def Let_def)

theorem corrupt_state_blocks_slot_witness:
  "startSlot fleetCfg 0 (newFleet\<lparr>fm_devices := [emptySlot], fm_host := freshHost\<lparr>pw_files := (\<lambda>_. Some None)\<rparr>\<rparr>)
     = newFleet\<lparr>fm_devices := [emptySlot], fm_host := freshHost\<lparr>pw_files := (\<lambda>_. Some None)\<rparr>\<rparr> \<and> tp_tokens (fm_tokens newFleet) \<noteq> []"
  using corrupt_state_blocks_slot [of "newFleet\<lparr>fm_devices := [emptySlot], fm_host := freshHost\<lparr>pw_files := (\<lambda>_. Some None)\<rparr>\<rparr>" 0 fleetCfg None JsonSyntaxError]
  by (simp add: emptySlot_def unmarshal_Credentials_def Unmarshal_def newFleet_def NewFleetManager_def)

end
