(* ===== verification/Tokens.thy ===== *)
theory Tokens
  imports World
begin

text \<open>
  \<^verbatim>\<open>internal/devicestore/store.go\<close>: one-time registration tokens in Redis. Redis is a parameter (\<open>redisops\<close>)
  and the locale \<open>redis_store\<close> states what its documentation promises of \<^verbatim>\<open>SET\<close> with an expiry and of
  \<^verbatim>\<open>GETDEL\<close>; the random bytes of a token are an argument.
\<close>

section \<open>Redis\<close>

datatype redis_error = RedisNil | RedisIO io_error

text \<open>Each call happens at a time. A \<^verbatim>\<open>ttl\<close> of zero sets no expiry.\<close>

record 'r redisops =
  rd_Set :: "string \<Rightarrow> body \<Rightarrow> duration \<Rightarrow> time \<Rightarrow> 'r \<Rightarrow> io_error option \<times> 'r"
  rd_GetDel :: "string \<Rightarrow> time \<Rightarrow> 'r \<Rightarrow> (redis_error + body) \<times> 'r"

text \<open>\<open>view s t k\<close> is what a reader finds at key \<open>k\<close> at time \<open>t\<close> if nobody writes until then. \<^verbatim>\<open>GETDEL\<close>
  takes a value out for good; one that returns an error took it out or did not; a value is not there before it was
  written and does not come back once it expired.\<close>

locale redis_store =
  fixes ops :: "'r redisops" and view :: "'r \<Rightarrow> time \<Rightarrow> string \<Rightarrow> body option"
  assumes set_ok: "rd_Set ops k v ttl t s = (None, s') \<Longrightarrow> t \<le> t' \<Longrightarrow>
      view s' t' = (view s t')(k := if ttl = 0 \<or> t' < t + ttl then Some v else None)"
    and set_err: "rd_Set ops k v ttl t s = (Some e, s') \<Longrightarrow> t \<le> t' \<Longrightarrow> k' \<noteq> k \<Longrightarrow> view s' t' k' = view s t' k'"
    and getdel_ok: "rd_GetDel ops k t s = (Inr v, s') \<Longrightarrow> view s t k = Some v \<and> (\<forall>t' \<ge> t. view s' t' = (view s t')(k := None))"
    and getdel_nil: "rd_GetDel ops k t s = (Inl RedisNil, s') \<Longrightarrow> view s t k = None \<and> (\<forall>t' \<ge> t. view s' t' = view s t')"
    and getdel_err: "rd_GetDel ops k t s = (Inl (RedisIO e), s') \<Longrightarrow> t \<le> t' \<Longrightarrow>
      view s' t' = view s t' \<or> view s' t' = (view s t')(k := None)"
    and expires: "view s t' k = Some v \<Longrightarrow> t \<le> t' \<Longrightarrow> view s t k = Some v"

section \<open>Tokens\<close>

record TokenRecord =
  tk_Name :: string
  tk_Type :: string

definition marshal_TokenRecord :: "TokenRecord \<Rightarrow> json" where
  "marshal_TokenRecord r = JObject [(''name'', JString (tk_Name r)), (''type'', JString (tk_Type r))]"

definition set_TokenRecord :: "string \<Rightarrow> TokenRecord decoder" where
  "set_TokenRecord k =
     (if k = ''name'' then field dec_string tk_Name (\<lambda>v r. r\<lparr>tk_Name := v\<rparr>)
      else if k = ''type'' then field dec_string tk_Type (\<lambda>v r. r\<lparr>tk_Type := v\<rparr>)
      else (\<lambda>_ r. Inr r))"

definition unmarshal_TokenRecord :: "body \<Rightarrow> json_error + TokenRecord" where
  "unmarshal_TokenRecord = Unmarshal (dec_struct set_TokenRecord) \<lparr>tk_Name = [], tk_Type = []\<rparr>"

datatype token_error = ErrTokenNotFound | TokenIO io_error | TokenDecode json_error

definition tokenKey :: "string \<Rightarrow> string" where
  "tokenKey token = ''sensegrid:regtoken:'' @ token"

definition randomToken :: "8 word list \<Rightarrow> string" where
  "randomToken b = EncodeToString b"

definition CreateToken :: "'r redisops \<Rightarrow> string \<Rightarrow> string \<Rightarrow> duration \<Rightarrow> 8 word list \<Rightarrow> time \<Rightarrow> 'r \<Rightarrow> (token_error + string) \<times> 'r" where
  "CreateToken ops name typ ttl b now s =
     (let token = randomToken b in
      case rd_Set ops (tokenKey token) (Some (marshal_TokenRecord \<lparr>tk_Name = name, tk_Type = typ\<rparr>)) ttl now s of
        (Some e, s') \<Rightarrow> (Inl (TokenIO e), s') | (None, s') \<Rightarrow> (Inr token, s'))"

definition ConsumeToken :: "'r redisops \<Rightarrow> string \<Rightarrow> time \<Rightarrow> 'r \<Rightarrow> (token_error + TokenRecord) \<times> 'r" where
  "ConsumeToken ops token now s =
     (case rd_GetDel ops (tokenKey token) now s of
        (Inl RedisNil, s') \<Rightarrow> (Inl ErrTokenNotFound, s')
      | (Inl (RedisIO e), s') \<Rightarrow> (Inl (TokenIO e), s')
      | (Inr raw, s') \<Rightarrow> (case unmarshal_TokenRecord raw of Inl e \<Rightarrow> (Inl (TokenDecode e), s') | Inr rec \<Rightarrow> (Inr rec, s')))"

section \<open>Lemmas\<close>

lemma token_tags [simp]: "foldName ''name'' = ''name''" "foldName ''type'' = ''type''"
  by code_simp+

lemma TokenRecord_roundtrip: "unmarshal_TokenRecord (Some (marshal_TokenRecord r)) = Inr r"
  by (simp add: unmarshal_TokenRecord_def Unmarshal_def marshal_TokenRecord_def set_TokenRecord_def field_def)

lemma tokenKey_inject [simp]: "tokenKey a = tokenKey b \<longleftrightarrow> a = b"
  by (simp add: tokenKey_def)

text \<open>A token that is not there at some time and after is gone: no later consume finds it or brings it back.\<close>

definition token_gone :: "('r \<Rightarrow> time \<Rightarrow> string \<Rightarrow> body option) \<Rightarrow> string \<Rightarrow> time \<Rightarrow> 'r \<Rightarrow> bool" where
  "token_gone view token t s \<longleftrightarrow> (\<forall>t' \<ge> t. view s t' (tokenKey token) = None)"

lemma token_gone_later: "token_gone view token t s \<Longrightarrow> t \<le> t' \<Longrightarrow> token_gone view token t' s"
  by (auto simp: token_gone_def)

context redis_store
begin

lemma consume_gone:
  assumes "ConsumeToken ops token t s = (r, s')" and "\<forall>e. r \<noteq> Inl (TokenIO e)"
  shows "token_gone view token t s'"
proof -
  obtain x s1 where g: "rd_GetDel ops (tokenKey token) t s = (x, s1)" by (cases "rd_GetDel ops (tokenKey token) t s")
  have s': "s' = s1" using assms(1) g by (auto simp: ConsumeToken_def split: sum.splits redis_error.splits)
  show ?thesis
  proof (cases x)
    case (Inr v)
    with getdel_ok [of "tokenKey token" t s v s1] g show ?thesis by (simp add: token_gone_def s')
  next
    case (Inl e)
    with assms g have e: "e = RedisNil" by (cases e) (auto simp: ConsumeToken_def)
    have "view s t' (tokenKey token) = None" if "t \<le> t'" for t'
      using getdel_nil [of "tokenKey token" t s s1] expires [of s t' "tokenKey token" _ t] that g Inl e
      by (cases "view s t' (tokenKey token)") auto
    with getdel_nil [of "tokenKey token" t s s1] g Inl e show ?thesis by (simp add: token_gone_def s')
  qed
qed

lemma consume_keeps_gone:
  assumes "ConsumeToken ops token' t s = (r, s')" and "token_gone view token t0 s" and "t0 \<le> t"
  shows "token_gone view token t s'"
proof -
  obtain x s1 where g: "rd_GetDel ops (tokenKey token') t s = (x, s1)" by (cases "rd_GetDel ops (tokenKey token') t s")
  have s': "s' = s1" using assms(1) g by (auto simp: ConsumeToken_def split: sum.splits redis_error.splits)
  have "view s1 t' (tokenKey token) = None" if "t \<le> t'" for t'
  proof -
    have none: "view s t' (tokenKey token) = None" using assms(2,3) that by (simp add: token_gone_def)
    have "view s1 t' = view s t' \<or> view s1 t' = (view s t')(tokenKey token' := None)"
      using g getdel_ok [of "tokenKey token'" t s _ s1] getdel_nil [of "tokenKey token'" t s s1]
        getdel_err [of "tokenKey token'" t s _ s1 t'] that
      by (cases x; cases "\<exists>e. x = Inl (RedisIO e)") (auto, metis redis_error.exhaust)
    with none show ?thesis by auto
  qed
  then show ?thesis by (simp add: token_gone_def s')
qed

lemma gone_not_found:
  assumes "token_gone view token t0 s" and "t0 \<le> t" and "ConsumeToken ops token t s = (r, s')"
  shows "\<nexists>rec. r = Inr rec"
proof -
  have "view s t (tokenKey token) = None" using assms(1,2) by (simp add: token_gone_def)
  then show ?thesis
    using assms(3) getdel_ok [of "tokenKey token" t s] by (auto simp: ConsumeToken_def split: prod.splits sum.splits redis_error.splits)
qed

lemma create_then_consume:
  assumes "CreateToken ops name typ ttl b t s = (Inr token, s1)" and "t \<le> t'" and "ttl = 0 \<or> t' < t + ttl"
    and "ConsumeToken ops token t' s1 = (r, s2)"
  shows "r = Inr \<lparr>tk_Name = name, tk_Type = typ\<rparr> \<or> (\<exists>e. r = Inl (TokenIO e))"
proof -
  have tok: "token = randomToken b"
    and set: "rd_Set ops (tokenKey token) (Some (marshal_TokenRecord \<lparr>tk_Name = name, tk_Type = typ\<rparr>)) ttl t s = (None, s1)"
    using assms(1) by (auto simp: CreateToken_def Let_def split: prod.splits option.splits)
  have v: "view s1 t' (tokenKey token) = Some (Some (marshal_TokenRecord \<lparr>tk_Name = name, tk_Type = typ\<rparr>))"
    using set_ok [OF set assms(2)] assms(3) by simp
  obtain x s3 where g: "rd_GetDel ops (tokenKey token) t' s1 = (x, s3)" by (cases "rd_GetDel ops (tokenKey token) t' s1")
  show ?thesis
  proof (cases x)
    case (Inr raw)
    with getdel_ok [of "tokenKey token" t' s1 raw s3] g v assms(4) show ?thesis
      by (auto simp: ConsumeToken_def TokenRecord_roundtrip)
  next
    case (Inl e)
    with getdel_nil [of "tokenKey token" t' s1 s3] g v have "e \<noteq> RedisNil" by auto
    with Inl g assms(4) show ?thesis by (cases e) (auto simp: ConsumeToken_def)
  qed
qed

end

section \<open>Redis in memory\<close>

text \<open>Values with the time they expire at, and a script of faults.\<close>

record memredis =
  mr_faults :: faults
  mr_vals :: "string \<Rightarrow> (body \<times> time option) option"

definition mr_view :: "memredis \<Rightarrow> time \<Rightarrow> string \<Rightarrow> body option" where
  "mr_view s t k =
     (case mr_vals s k of None \<Rightarrow> None | Some (v, None) \<Rightarrow> Some v | Some (v, Some x) \<Rightarrow> if t < x then Some v else None)"

definition mr_Set :: "string \<Rightarrow> body \<Rightarrow> duration \<Rightarrow> time \<Rightarrow> memredis \<Rightarrow> io_error option \<times> memredis" where
  "mr_Set k v ttl t s =
     (let (f, fs) = next_fault (mr_faults s); s0 = s\<lparr>mr_faults := fs\<rparr>;
          s1 = s0\<lparr>mr_vals := (mr_vals s)(k \<mapsto> (v, if ttl = 0 then None else Some (t + ttl)))\<rparr> in
      case f of None \<Rightarrow> (None, s1) | Some (Lost e) \<Rightarrow> (Some e, s0) | Some (LostReply e) \<Rightarrow> (Some e, s1))"

definition mr_GetDel :: "string \<Rightarrow> time \<Rightarrow> memredis \<Rightarrow> (redis_error + body) \<times> memredis" where
  "mr_GetDel k t s =
     (let (f, fs) = next_fault (mr_faults s); s0 = s\<lparr>mr_faults := fs\<rparr>; s1 = s0\<lparr>mr_vals := (mr_vals s)(k := None)\<rparr> in
      case f of
        Some (Lost e) \<Rightarrow> (Inl (RedisIO e), s0)
      | Some (LostReply e) \<Rightarrow> (Inl (RedisIO e), s1)
      | None \<Rightarrow> (case mr_view s t k of None \<Rightarrow> (Inl RedisNil, s0) | Some v \<Rightarrow> (Inr v, s1)))"

definition memredis_ops :: "memredis redisops" where
  "memredis_ops = \<lparr>rd_Set = mr_Set, rd_GetDel = mr_GetDel\<rparr>"

lemma mr_view_upd [simp]:
  "mr_view (s\<lparr>mr_faults := fs\<rparr>) = mr_view s"
  "mr_view (s\<lparr>mr_vals := (mr_vals s)(k := None)\<rparr>) t = (mr_view s t)(k := None)"
  "mr_view (s\<lparr>mr_vals := (mr_vals s)(k \<mapsto> (v, x))\<rparr>) t = (mr_view s t)(k := case x of None \<Rightarrow> Some v | Some x \<Rightarrow> if t < x then Some v else None)"
  by (auto simp: mr_view_def fun_eq_iff split: option.splits)

lemma mr_view_both [simp]:
  "mr_view (s\<lparr>mr_faults := fs, mr_vals := (mr_vals s)(k := None)\<rparr>) t = (mr_view s t)(k := None)"
  "mr_view (s\<lparr>mr_faults := fs, mr_vals := (mr_vals s)(k \<mapsto> (v, x))\<rparr>) t
     = (mr_view s t)(k := case x of None \<Rightarrow> Some v | Some x \<Rightarrow> if t < x then Some v else None)"
  by (auto simp: mr_view_def fun_eq_iff split: option.splits)

interpretation memredis: redis_store memredis_ops mr_view
proof
  fix k v ttl t s s' t'
  assume "rd_Set memredis_ops k v ttl t s = (None, s')" "t \<le> t'"
  then show "mr_view s' t' = (mr_view s t')(k := if ttl = 0 \<or> t' < t + ttl then Some v else None)"
    by (auto simp: memredis_ops_def mr_Set_def Let_def split: prod.splits option.splits fault.splits)
next
  fix s t' k v t
  assume "mr_view s t' k = Some v" "t \<le> t'"
  then show "mr_view s t k = Some v" by (auto simp: mr_view_def split: option.splits if_splits)
qed (auto simp: memredis_ops_def mr_Set_def mr_GetDel_def Let_def split: prod.splits option.splits fault.splits)

end
