(* ===== verification/Dynsec.thy ===== *)
theory Dynsec
  imports World
begin

text \<open>
  \<^verbatim>\<open>internal/dynsec/client.go\<close>: the client of Mosquitto's dynamic-security plugin, an RPC over MQTT in which
  a response is matched to its command by a correlation id.

  The broker with its plugin is a parameter: for a published command it says whether the publish was
  confirmed and which messages reach the response topic before the caller gives up (\<open>exchange\<close>). The locale
  \<open>dynsec_plugin\<close> states what the plugin's protocol promises of the answer to \<^verbatim>\<open>createClient\<close>.
\<close>

section \<open>Messages\<close>

definition commandTopic :: string where "commandTopic = ''$CONTROL/dynamic-security/v1''"
definition errRoleExists :: string where "errRoleExists = ''Role already exists''"
definition errClientExists :: string where "errClientExists = ''Client already exists''"

record ACL =
  acl_ACLType :: string
  acl_Topic :: string
  acl_Priority :: int
  acl_Allow :: bool

definition marshal_ACL :: "ACL \<Rightarrow> json" where
  "marshal_ACL a = JObject [(''acltype'', JString (acl_ACLType a)), (''topic'', JString (acl_Topic a)),
     (''priority'', JInt (acl_Priority a)), (''allow'', JBool (acl_Allow a))]"

record response =
  re_Command :: string
  re_CorrelationData :: string
  re_Error :: string

definition zeroResponse :: response where
  "zeroResponse = \<lparr>re_Command = [], re_CorrelationData = [], re_Error = []\<rparr>"

definition set_response :: "string \<Rightarrow> response decoder" where
  "set_response k =
     (if k = ''command'' then field dec_string re_Command (\<lambda>v r. r\<lparr>re_Command := v\<rparr>)
      else if k = ''correlationdata'' then field dec_string re_CorrelationData (\<lambda>v r. r\<lparr>re_CorrelationData := v\<rparr>)
      else if k = ''error'' then field dec_string re_Error (\<lambda>v r. r\<lparr>re_Error := v\<rparr>)
      else (\<lambda>_ r. Inr r))"

record responseEnvelope =
  en_Responses :: "response list option"

definition set_responseEnvelope :: "string \<Rightarrow> responseEnvelope decoder" where
  "set_responseEnvelope k =
     (if k = ''responses'' then field (dec_slice (dec_struct set_response) zeroResponse) en_Responses (\<lambda>v e. e\<lparr>en_Responses := v\<rparr>)
      else (\<lambda>_ e. Inr e))"

definition responses_of :: "body \<Rightarrow> response list" where
  "responses_of payload =
     (case Unmarshal (dec_struct set_responseEnvelope) \<lparr>en_Responses = None\<rparr> payload of
        Inl _ \<Rightarrow> [] | Inr env \<Rightarrow> (case en_Responses env of None \<Rightarrow> [] | Some rs \<Rightarrow> rs))"

section \<open>Correlation\<close>

text \<open>The commands in flight, each with the contents of its channel of one element.\<close>

record dynsecClient =
  dc_pending :: "string \<Rightarrow> bool"
  dc_chans :: "string \<Rightarrow> response option"

definition deliver :: "response \<Rightarrow> dynsecClient \<Rightarrow> dynsecClient" where
  "deliver r c =
     (if dc_pending c (re_CorrelationData r)
      then c\<lparr>dc_chans := (dc_chans c)(re_CorrelationData r \<mapsto> r), dc_pending := (dc_pending c)(re_CorrelationData r := False)\<rparr>
      else c)"

definition handleResponse :: "body \<Rightarrow> dynsecClient \<Rightarrow> dynsecClient" where
  "handleResponse payload c = fold deliver (responses_of payload) c"

record exchange =
  ex_pubErr :: "io_error option"
  ex_msgs :: "body list"

datatype dynsec_error = DynsecPublish io_error | DynsecNoResponse | DynsecRefused string

text \<open>\<^verbatim>\<open>json.Marshal\<close> writes the keys of a command, a map, in sorted order; a command here is the sorted list of
  its members, given its correlation id.\<close>

type_synonym command = "string \<Rightarrow> (string \<times> json) list"

definition command_payload :: "string \<Rightarrow> command \<Rightarrow> json" where
  "command_payload correlationID command = JObject [(''commands'', JArray [JObject (command correlationID)])]"

definition dynsec_do :: "string \<Rightarrow> command \<Rightarrow> (json \<Rightarrow> 'b \<Rightarrow> exchange \<times> 'b) \<Rightarrow> dynsecClient \<Rightarrow> 'b
    \<Rightarrow> (dynsec_error + response) \<times> dynsecClient \<times> 'b" where
  "dynsec_do correlationID command broker c b =
     (let payload = command_payload correlationID command;
          c1 = c\<lparr>dc_pending := (dc_pending c)(correlationID := True), dc_chans := (dc_chans c)(correlationID := None)\<rparr>;
          (x, b') = broker payload b;
          c2 = (case ex_pubErr x of Some _ \<Rightarrow> c1 | None \<Rightarrow> fold handleResponse (ex_msgs x) c1);
          c3 = c2\<lparr>dc_pending := (dc_pending c2)(correlationID := False)\<rparr> in
      (case ex_pubErr x of
         Some e \<Rightarrow> (Inl (DynsecPublish e), c3, b')
       | None \<Rightarrow> (case dc_chans c2 correlationID of None \<Rightarrow> (Inl DynsecNoResponse, c3, b') | Some r \<Rightarrow> (Inr r, c3, b'))))"

definition EnsureRole :: "string \<Rightarrow> string \<Rightarrow> string \<Rightarrow> ACL list \<Rightarrow> (json \<Rightarrow> 'b \<Rightarrow> exchange \<times> 'b) \<Rightarrow> dynsecClient \<Rightarrow> 'b
    \<Rightarrow> dynsec_error option \<times> dynsecClient \<times> 'b" where
  "EnsureRole correlationID rolename textname acls broker c b =
     (case dynsec_do correlationID (\<lambda>k. [(''acls'', JArray (map marshal_ACL acls)), (''command'', JString ''createRole''),
             (''correlationData'', JString k), (''rolename'', JString rolename), (''textname'', JString textname)]) broker c b of
        (Inl e, c', b') \<Rightarrow> (Some e, c', b')
      | (Inr resp, c', b') \<Rightarrow>
          if re_Error resp \<noteq> [] \<and> re_Error resp \<noteq> errRoleExists then (Some (DynsecRefused (re_Error resp)), c', b')
          else (None, c', b'))"

definition createClientCommand :: "string \<Rightarrow> string \<Rightarrow> string \<Rightarrow> string \<Rightarrow> command" where
  "createClientCommand deviceID password textname rolename k =
     [(''clientid'', JString deviceID), (''command'', JString ''createClient''), (''correlationData'', JString k),
      (''password'', JString password), (''roles'', JArray [JObject [(''rolename'', JString rolename), (''priority'', JInt (- 1))]]),
      (''textname'', JString textname), (''username'', JString deviceID)]"

definition CreateClient :: "string \<Rightarrow> string \<Rightarrow> string \<Rightarrow> string \<Rightarrow> string \<Rightarrow> (json \<Rightarrow> 'b \<Rightarrow> exchange \<times> 'b) \<Rightarrow> dynsecClient \<Rightarrow> 'b
    \<Rightarrow> dynsec_error option \<times> dynsecClient \<times> 'b" where
  "CreateClient correlationID deviceID password textname rolename broker c b =
     (case dynsec_do correlationID (createClientCommand deviceID password textname rolename) broker c b of
        (Inl e, c', b') \<Rightarrow> (Some e, c', b')
      | (Inr resp, c', b') \<Rightarrow>
          if re_Error resp \<noteq> [] \<and> re_Error resp \<noteq> errClientExists then (Some (DynsecRefused (re_Error resp)), c', b')
          else (None, c', b'))"

section \<open>Lemmas\<close>

text \<open>The response a command gets: the first one that carries its correlation id.\<close>

definition response_to :: "string \<Rightarrow> body list \<Rightarrow> response option" where
  "response_to correlationID msgs = find (\<lambda>r. re_CorrelationData r = correlationID) (concat (map responses_of msgs))"

lemma deliver_chan:
  "dc_chans (fold deliver rs c) k =
     (if dc_pending c k then (case find (\<lambda>r. re_CorrelationData r = k) rs of None \<Rightarrow> dc_chans c k | Some r \<Rightarrow> Some r) else dc_chans c k)"
  by (induction rs arbitrary: c) (auto simp: deliver_def split: option.splits)

lemma handleResponses: "fold handleResponse msgs c = fold deliver (concat (map responses_of msgs)) c"
  by (induction msgs arbitrary: c) (simp_all add: handleResponse_def)

lemma find_Some_pred: "find P xs = Some x \<Longrightarrow> P x"
  by (induction xs) (auto split: if_splits)

lemma dynsec_do_result:
  assumes "broker (command_payload k cmd) b = (x, b')"
  shows "dynsec_do k cmd broker c b =
     (case ex_pubErr x of Some e \<Rightarrow> Inl (DynsecPublish e)
      | None \<Rightarrow> (case response_to k (ex_msgs x) of None \<Rightarrow> Inl DynsecNoResponse | Some r \<Rightarrow> Inr r),
      fst (snd (dynsec_do k cmd broker c b)), b')"
  using assms
  by (auto simp: dynsec_do_def Let_def handleResponses deliver_chan response_to_def split: option.splits)

text \<open>What the plugin promises of \<^verbatim>\<open>createClient\<close>: an answer without an error means that the client now exists
  with that password, one that says it exists already that nothing changed. Without an answer either may be.\<close>

locale dynsec_plugin =
  fixes broker :: "json \<Rightarrow> 'b \<Rightarrow> exchange \<times> 'b" and clients :: "'b \<Rightarrow> string \<Rightarrow> string option"
  assumes created: "broker (command_payload k (createClientCommand u pw tn role)) b = (x, b') \<Longrightarrow>
      ex_pubErr x = None \<Longrightarrow> response_to k (ex_msgs x) = Some r \<Longrightarrow> re_Error r = [] \<Longrightarrow> clients b' = (clients b)(u \<mapsto> pw)"
    and present: "broker (command_payload k (createClientCommand u pw tn role)) b = (x, b') \<Longrightarrow>
      ex_pubErr x = None \<Longrightarrow> response_to k (ex_msgs x) = Some r \<Longrightarrow> re_Error r = errClientExists \<Longrightarrow>
      clients b' = clients b \<and> clients b u \<noteq> None"
begin

lemma CreateClient_ok:
  assumes "CreateClient k u pw tn role broker c b = (None, c', b')"
  shows "clients b' u \<noteq> None" and "clients b u = None \<Longrightarrow> clients b' = (clients b)(u \<mapsto> pw)"
    and "clients b u \<noteq> None \<Longrightarrow> clients b' u = Some pw \<or> clients b' = clients b"
proof -
  obtain x b1 where br: "broker (command_payload k (createClientCommand u pw tn role)) b = (x, b1)"
    by (cases "broker (command_payload k (createClientCommand u pw tn role)) b")
  have res: "ex_pubErr x = None \<and> b' = b1 \<and> (\<exists>r. response_to k (ex_msgs x) = Some r \<and> (re_Error r = [] \<or> re_Error r = errClientExists))"
    using assms unfolding CreateClient_def
    by (subst (asm) dynsec_do_result [where broker = broker and k = k and cmd = "createClientCommand u pw tn role" and b = b, OF br])
      (auto split: option.splits if_splits)
  then obtain r where r: "ex_pubErr x = None" "b' = b1" "response_to k (ex_msgs x) = Some r"
    "re_Error r = [] \<or> re_Error r = errClientExists" by blast
  have "clients b' = (clients b)(u \<mapsto> pw) \<or> clients b' = clients b \<and> clients b u \<noteq> None"
    using r created [OF br r(1,3)] present [OF br r(1,3)] by auto
  then show "clients b' u \<noteq> None" "clients b u = None \<Longrightarrow> clients b' = (clients b)(u \<mapsto> pw)"
    "clients b u \<noteq> None \<Longrightarrow> clients b' u = Some pw \<or> clients b' = clients b" by auto
qed

end

section \<open>A plugin in memory\<close>

text \<open>It answers every command with one message, after a script of lost answers.\<close>

record memplugin =
  mp_faults :: faults
  mp_clients :: "string \<Rightarrow> string option"

fun command_of :: "json \<Rightarrow> (string \<times> string \<times> string) option" where
  "command_of (JObject [(_, JArray [JObject ((_, JString u) # (_, JString name) # (_, JString k) # (_, JString pw) # _)])])
     = (if name = ''createClient'' then Some (k, u, pw) else None)"
| "command_of _ = None"

definition answer :: "string \<Rightarrow> string \<Rightarrow> body" where
  "answer k err = Some (JObject [(''responses'', JArray [JObject ([(''command'', JString ''createClient''),
     (''correlationData'', JString k)] @ omit_if (err = []) ''error'' (JString err))])])"

definition memBroker :: "json \<Rightarrow> memplugin \<Rightarrow> exchange \<times> memplugin" where
  "memBroker payload b =
     (let (f, fs) = next_fault (mp_faults b); b0 = b\<lparr>mp_faults := fs\<rparr> in
      case f of
        Some (Lost e) \<Rightarrow> (\<lparr>ex_pubErr = Some e, ex_msgs = []\<rparr>, b0)
      | _ \<Rightarrow>
        (case command_of payload of
           None \<Rightarrow> (\<lparr>ex_pubErr = None, ex_msgs = []\<rparr>, b0)
         | Some (k, u, pw) \<Rightarrow>
             if mp_clients b u \<noteq> None
             then (\<lparr>ex_pubErr = None, ex_msgs = (if f = None then [answer k errClientExists] else [])\<rparr>, b0)
             else (\<lparr>ex_pubErr = None, ex_msgs = (if f = None then [answer k []] else [])\<rparr>,
                   b0\<lparr>mp_clients := (mp_clients b)(u \<mapsto> pw)\<rparr>)))"

lemma dynsec_tags [simp]:
  "foldName ''responses'' = ''responses''" "foldName ''command'' = ''command''"
  "foldName ''correlationData'' = ''correlationdata''" "foldName ''error'' = ''error''"
  by code_simp+

lemma response_to_answer: "response_to k [answer k err] = Some \<lparr>re_Command = ''createClient'', re_CorrelationData = k, re_Error = err\<rparr>"
  by (simp add: response_to_def responses_of_def answer_def Unmarshal_def set_responseEnvelope_def set_response_def field_def
      zeroResponse_def omit_if_def)

lemma response_to_Nil [simp]: "response_to k [] = None"
  by (simp add: response_to_def)

interpretation memplugin: dynsec_plugin memBroker mp_clients
proof
  fix k u pw tn role b x b' r
  assume br: "memBroker (command_payload k (createClientCommand u pw tn role)) b = (x, b')"
    and "ex_pubErr x = None" and r: "response_to k (ex_msgs x) = Some r"
  have cmd: "command_of (command_payload k (createClientCommand u pw tn role)) = Some (k, u, pw)"
    by (simp add: command_payload_def createClientCommand_def)
  from br cmd r show "re_Error r = [] \<Longrightarrow> mp_clients b' = (mp_clients b)(u \<mapsto> pw)"
    and "re_Error r = errClientExists \<Longrightarrow> mp_clients b' = mp_clients b \<and> mp_clients b u \<noteq> None"
    by (auto simp: memBroker_def Let_def response_to_answer errClientExists_def
        split: prod.splits option.splits fault.splits if_splits)
qed

section \<open>Properties\<close>

text \<open>A command gets its own answer. Whatever messages arrive on the response topic, malformed ones and
  answers to other commands included, a command that was published returns the first response that carries its
  correlation id, or times out if there is none; and the commands in flight besides it get their answers just the same.\<close>

theorem dynsec_correlates:
  assumes "broker (command_payload k cmd) b = (x, b')" and "ex_pubErr x = None" and "j \<noteq> k" and "dc_pending c j" and "dc_chans c j = None"
  shows "fst (dynsec_do k cmd broker c b) =
      (case find (\<lambda>r. re_CorrelationData r = k) (concat (map responses_of (ex_msgs x))) of None \<Rightarrow> Inl DynsecNoResponse | Some r \<Rightarrow> Inr r) \<and>
    dc_chans (fst (snd (dynsec_do k cmd broker c b))) j =
      find (\<lambda>r. re_CorrelationData r = j) (concat (map responses_of (ex_msgs x))) \<and>
    \<not> dc_pending (fst (snd (dynsec_do k cmd broker c b))) k"
  using assms
  by (auto simp: dynsec_do_def Let_def handleResponses deliver_chan split: option.splits)

theorem dynsec_correlates_witness:
  "fst (dynsec_do ''k'' (createClientCommand ''d1'' ''pw'' ''lamp'' ''device'') memBroker
      \<lparr>dc_pending = (\<lambda>j. j = ''other''), dc_chans = (\<lambda>_. None)\<rparr> \<lparr>mp_faults = [], mp_clients = Map.empty\<rparr>)
    = Inr \<lparr>re_Command = ''createClient'', re_CorrelationData = ''k'', re_Error = []\<rparr>"
proof -
  let ?b = "\<lparr>mp_faults = [], mp_clients = Map.empty\<rparr>"
  let ?c = "\<lparr>dc_pending = (\<lambda>j. j = ''other''), dc_chans = (\<lambda>_. None)\<rparr>"
  let ?cmd = "createClientCommand ''d1'' ''pw'' ''lamp'' ''device''"
  have "command_of (command_payload ''k'' ?cmd) = Some (''k'', ''d1'', ''pw'')"
    by (simp add: command_payload_def createClientCommand_def)
  then obtain b' where "memBroker (command_payload ''k'' ?cmd) ?b = (\<lparr>ex_pubErr = None, ex_msgs = [answer ''k'' []]\<rparr>, b')"
    by (simp add: memBroker_def)
  from dynsec_correlates [where broker = memBroker and k = "''k''" and cmd = ?cmd and b = ?b, OF this, of "''other''" ?c] response_to_answer [of "''k''" "[]"]
  show ?thesis by (simp add: response_to_def)
qed

end
