(* ===== verification/Claim.thy ===== *)
theory Claim
  imports Tokens Dynsec Devices Provisioning
begin

text \<open>
  \<^verbatim>\<open>cmd/control/claim.go\<close>: the endpoint where a device exchanges its registration token for broker
  credentials. It calls the token store (theory \<open>Tokens\<close>), the device registry (\<open>Devices\<close>) and the broker's
  security plugin (\<open>Dynsec\<close>); what a client does with the answer is theory \<open>Provisioning\<close>.

  \<^verbatim>\<open>uuid.Parse\<close> is the parameter \<open>uuid_ok\<close>. A request carries the times and random values its
  handling reads; a request body is the first JSON value of its first 4096 bytes.
\<close>

section \<open>Messages\<close>

record claimRequest =
  cq_Token :: string
  cq_DeviceID :: string

definition set_claimRequest :: "string \<Rightarrow> claimRequest decoder" where
  "set_claimRequest k =
     (if k = ''token'' then field dec_string cq_Token (\<lambda>v r. r\<lparr>cq_Token := v\<rparr>)
      else if k = ''device_id'' then field dec_string cq_DeviceID (\<lambda>v r. r\<lparr>cq_DeviceID := v\<rparr>)
      else (\<lambda>_ r. Inr r))"

definition unmarshal_claimRequest :: "body \<Rightarrow> json_error + claimRequest" where
  "unmarshal_claimRequest = Unmarshal (dec_struct set_claimRequest) \<lparr>cq_Token = [], cq_DeviceID = []\<rparr>"

record claimResponse =
  cs_DeviceID :: string
  cs_Name :: string
  cs_Type :: string
  cs_MQTTUsername :: string
  cs_MQTTPassword :: string
  cs_MQTTWSURL :: string

definition marshal_claimResponse :: "claimResponse \<Rightarrow> json" where
  "marshal_claimResponse r =
     JObject [(''device_id'', JString (cs_DeviceID r)), (''name'', JString (cs_Name r)), (''type'', JString (cs_Type r)),
       (''mqtt_username'', JString (cs_MQTTUsername r)), (''mqtt_password'', JString (cs_MQTTPassword r)),
       (''mqtt_ws_url'', JString (cs_MQTTWSURL r))]"

record http_reply =
  hr_status :: nat
  hr_body :: json

definition writeJSONError :: "nat \<Rightarrow> string \<Rightarrow> http_reply" where
  "writeJSONError status message = \<lparr>hr_status = status, hr_body = JObject [(''error'', JString message)]\<rparr>"

text \<open>\<^verbatim>\<open>net.SplitHostPort\<close>: the host, or nothing if there is an error.\<close>

definition lastColon :: "string \<Rightarrow> nat option" where
  "lastColon s = (case rev (filter (\<lambda>i. s ! i = CHR '':'') [0..<length s]) of [] \<Rightarrow> None | i # _ \<Rightarrow> Some i)"

definition firstClose :: "string \<Rightarrow> nat option" where
  "firstClose s = (case filter (\<lambda>i. s ! i = CHR '']'') [0..<length s] of [] \<Rightarrow> None | i # _ \<Rightarrow> Some i)"

definition SplitHost :: "string \<Rightarrow> string option" where
  "SplitHost s =
     (case lastColon s of
        None \<Rightarrow> None
      | Some i \<Rightarrow>
          if s ! 0 = CHR ''['' then
            (case firstClose s of
               None \<Rightarrow> None
             | Some e \<Rightarrow>
                 if Suc e \<noteq> i then None
                 else if CHR ''['' \<in> set (drop 1 s) \<or> CHR '']'' \<in> set (drop (Suc e) s) then None
                 else Some (take (e - 1) (drop 1 s)))
          else if CHR '':'' \<in> set (take i s) then None
          else if CHR ''['' \<in> set s \<or> CHR '']'' \<in> set s then None
          else Some (take i s))"

definition hostOnly :: "string \<Rightarrow> string" where
  "hostOnly hostport = (case SplitHost hostport of Some h \<Rightarrow> h | None \<Rightarrow> hostport)"

text \<open>\<^verbatim>\<open>base64.RawURLEncoding\<close>.\<close>

definition b64char :: "nat \<Rightarrow> char" where
  "b64char n = ''ABCDEFGHIJKLMNOPQRSTUVWXYZabcdefghijklmnopqrstuvwxyz0123456789-_'' ! (n mod 64)"

fun RawURLEncode :: "8 word list \<Rightarrow> string" where
  "RawURLEncode [] = []"
| "RawURLEncode [a] = [b64char (unat a div 4), b64char (unat a * 16)]"
| "RawURLEncode [a, b] = [b64char (unat a div 4), b64char (unat a * 16 + unat b div 16), b64char (unat b * 4)]"
| "RawURLEncode (a # b # c # rest) =
     [b64char (unat a div 4), b64char (unat a * 16 + unat b div 16), b64char (unat b * 4 + unat c div 64), b64char (unat c)] @ RawURLEncode rest"

definition randomPassword :: "8 word list option \<Rightarrow> string option" where
  "randomPassword b = map_option RawURLEncode b"

section \<open>Handler\<close>

definition deviceRoleName :: string where
  "deviceRoleName = ''device''"

text \<open>The stores the handler works on, and what one request brings: its body and host, the times of the two
  store calls, the random bytes (unless reading them fails) and a correlation id. \<open>ca_provisioning\<close> is whether the
  connection to the plugin was made at start.\<close>

record ('r, 'b) claim_stores =
  ct_redis :: 'r
  ct_pg :: pg
  ct_dynsec :: dynsecClient
  ct_broker :: 'b

record claim_call =
  ca_provisioning :: bool
  ca_body :: body
  ca_host :: string
  ca_now :: time
  ca_dbNow :: time
  ca_bytes :: "8 word list option"
  ca_correlationID :: string

definition handleClaim :: "(string \<Rightarrow> bool) \<Rightarrow> 'r redisops \<Rightarrow> (json \<Rightarrow> 'b \<Rightarrow> exchange \<times> 'b) \<Rightarrow> claim_call
    \<Rightarrow> ('r, 'b) claim_stores \<Rightarrow> http_reply \<times> ('r, 'b) claim_stores" where
  "handleClaim uuid_ok ops broker a s =
     (if \<not> ca_provisioning a then (writeJSONError 503 ''device provisioning is temporarily unavailable'', s)
      else
      (case unmarshal_claimRequest (ca_body a) of
         Inl _ \<Rightarrow> (writeJSONError 400 ''invalid request body'', s)
       | Inr req \<Rightarrow>
      if cq_Token req = [] \<or> cq_DeviceID req = [] then (writeJSONError 400 ''token and device_id are required'', s)
      else if \<not> uuid_ok (cq_DeviceID req) then (writeJSONError 400 ''device_id must be a uuid'', s)
      else
      (case ConsumeToken ops (cq_Token req) (ca_now a) (ct_redis s) of
         (Inl ErrTokenNotFound, rd) \<Rightarrow> (writeJSONError 401 ''invalid or expired token'', s\<lparr>ct_redis := rd\<rparr>)
       | (Inl _, rd) \<Rightarrow> (writeJSONError 500 ''internal error'', s\<lparr>ct_redis := rd\<rparr>)
       | (Inr rec, rd) \<Rightarrow>
      (case randomPassword (ca_bytes a) of
         None \<Rightarrow> (writeJSONError 500 ''internal error'', s\<lparr>ct_redis := rd\<rparr>)
       | Some password \<Rightarrow>
      (case Devices_Create (ca_dbNow a) (cq_DeviceID req) (tk_Name rec) (tk_Type rec) (ct_pg s) of
         (Some _, d) \<Rightarrow> (writeJSONError 500 ''internal error'', s\<lparr>ct_redis := rd, ct_pg := d\<rparr>)
       | (None, d) \<Rightarrow>
      (case CreateClient (ca_correlationID a) (cq_DeviceID req) password (tk_Name rec) deviceRoleName broker (ct_dynsec s) (ct_broker s) of
         (Some _, c, b) \<Rightarrow> (writeJSONError 500 ''failed to provision broker credentials'', \<lparr>ct_redis = rd, ct_pg = d, ct_dynsec = c, ct_broker = b\<rparr>)
       | (None, c, b) \<Rightarrow>
           (\<lparr>hr_status = 200, hr_body = marshal_claimResponse \<lparr>cs_DeviceID = cq_DeviceID req, cs_Name = tk_Name rec, cs_Type = tk_Type rec,
               cs_MQTTUsername = cq_DeviceID req, cs_MQTTPassword = password, cs_MQTTWSURL = ''wss://'' @ hostOnly (ca_host a) @ '':9001''\<rparr>\<rparr>,
            \<lparr>ct_redis = rd, ct_pg = d, ct_dynsec = c, ct_broker = b\<rparr>)))))))"

section \<open>Lemmas\<close>

lemma claim_tags [simp]: "foldName ''token'' = ''token''" "foldName ''mqtt_ws_url'' = ''mqtt_ws_url''"
  by code_simp+

lemma claimResponse_decodes:
  "unmarshal_Credentials (Some (marshal_claimResponse r)) =
     Inr \<lparr>cd_DeviceID = cs_DeviceID r, cd_Name = cs_Name r, cd_Type = cs_Type r, cd_MQTTUsername = cs_MQTTUsername r,
       cd_MQTTPassword = cs_MQTTPassword r\<rparr>"
  by (simp add: unmarshal_Credentials_def Unmarshal_def marshal_claimResponse_def set_Credentials_def field_def zeroCredentials_def)

text \<open>A password of 24 bytes has 32 characters.\<close>

lemma length_RawURLEncode: "length bs mod 3 = 0 \<Longrightarrow> 3 * length (RawURLEncode bs) = 4 * length bs"
  by (induction bs rule: RawURLEncode.induct) (auto simp: mod_Suc split: if_splits)

lemma handleClaim_ok:
  assumes "handleClaim uuid_ok ops broker a s = (rep, s')" and "hr_status rep = 200"
  obtains req rec pw rd d c b where "unmarshal_claimRequest (ca_body a) = Inr req"
    "ConsumeToken ops (cq_Token req) (ca_now a) (ct_redis s) = (Inr rec, rd)" "randomPassword (ca_bytes a) = Some pw"
    "Devices_Create (ca_dbNow a) (cq_DeviceID req) (tk_Name rec) (tk_Type rec) (ct_pg s) = (None, d)"
    "CreateClient (ca_correlationID a) (cq_DeviceID req) pw (tk_Name rec) deviceRoleName broker (ct_dynsec s) (ct_broker s) = (None, c, b)"
    "s' = \<lparr>ct_redis = rd, ct_pg = d, ct_dynsec = c, ct_broker = b\<rparr>"
    "hr_body rep = marshal_claimResponse \<lparr>cs_DeviceID = cq_DeviceID req, cs_Name = tk_Name rec, cs_Type = tk_Type rec,
       cs_MQTTUsername = cq_DeviceID req, cs_MQTTPassword = pw, cs_MQTTWSURL = ''wss://'' @ hostOnly (ca_host a) @ '':9001''\<rparr>"
  using assms
  by (auto simp: handleClaim_def writeJSONError_def split: if_splits sum.splits prod.splits option.splits token_error.splits)

definition claim_token :: "claim_call \<Rightarrow> string option" where
  "claim_token a = (case unmarshal_claimRequest (ca_body a) of Inl _ \<Rightarrow> None | Inr req \<Rightarrow> Some (cq_Token req))"

text \<open>A request leaves the token store alone or consumes its token.\<close>

lemma handleClaim_redis:
  assumes "handleClaim uuid_ok ops broker a s = (rep, s')"
  shows "ct_redis s' = ct_redis s \<or>
    (\<exists>tok r. claim_token a = Some tok \<and> ConsumeToken ops tok (ca_now a) (ct_redis s) = (r, ct_redis s'))"
proof (cases "unmarshal_claimRequest (ca_body a)")
  case (Inr req)
  obtain r rd where c: "ConsumeToken ops (cq_Token req) (ca_now a) (ct_redis s) = (r, rd)"
    by (cases "ConsumeToken ops (cq_Token req) (ca_now a) (ct_redis s)")
  have "s' = s \<or> ct_redis s' = rd"
    using assms Inr c
    by (auto simp: handleClaim_def split: if_splits sum.splits prod.splits option.splits token_error.splits)
  with Inr c show ?thesis by (auto simp: claim_token_def)
qed (use assms in \<open>auto simp: handleClaim_def split: if_splits\<close>)

context redis_store
begin

lemma claim_gone:
  assumes "handleClaim uuid_ok ops broker a s = (rep, s')" and "token_gone view tok t0 (ct_redis s)" and "t0 \<le> ca_now a"
  shows "token_gone view tok (ca_now a) (ct_redis s') \<and> \<not> (hr_status rep = 200 \<and> claim_token a = Some tok)"
proof
  show "token_gone view tok (ca_now a) (ct_redis s')"
    using handleClaim_redis [OF assms(1)] token_gone_later [OF assms(2,3)] consume_keeps_gone [OF _ assms(2,3)] by auto
  show "\<not> (hr_status rep = 200 \<and> claim_token a = Some tok)"
  proof
    assume ok: "hr_status rep = 200 \<and> claim_token a = Some tok"
    then obtain req rec rd where "unmarshal_claimRequest (ca_body a) = Inr req"
      "ConsumeToken ops (cq_Token req) (ca_now a) (ct_redis s) = (Inr rec, rd)"
      using handleClaim_ok [OF assms(1)] by metis
    with ok gone_not_found [OF assms(2,3)] show False by (auto simp: claim_token_def)
  qed
qed

lemma claim_success_gone:
  assumes "handleClaim uuid_ok ops broker a s = (rep, s')" and "hr_status rep = 200" and "claim_token a = Some tok"
  shows "token_gone view tok (ca_now a) (ct_redis s')"
proof (rule handleClaim_ok [OF assms(1,2)])
  fix req rec rd d c b
  assume "unmarshal_claimRequest (ca_body a) = Inr req" "ConsumeToken ops (cq_Token req) (ca_now a) (ct_redis s) = (Inr rec, rd)"
    "s' = \<lparr>ct_redis = rd, ct_pg = d, ct_dynsec = c, ct_broker = b\<rparr>"
  with assms(3) consume_gone [of "cq_Token req" "ca_now a" "ct_redis s" "Inr rec" rd] show ?thesis
    by (simp add: claim_token_def)
qed

end

text \<open>A sequence of requests, with their replies.\<close>

fun claim_run :: "(string \<Rightarrow> bool) \<Rightarrow> 'r redisops \<Rightarrow> (json \<Rightarrow> 'b \<Rightarrow> exchange \<times> 'b) \<Rightarrow> claim_call list
    \<Rightarrow> ('r, 'b) claim_stores \<Rightarrow> (claim_call \<times> http_reply) list" where
  "claim_run uuid_ok ops broker [] s = []"
| "claim_run uuid_ok ops broker (a # as) s =
     (let (rep, s') = handleClaim uuid_ok ops broker a s in (a, rep) # claim_run uuid_ok ops broker as s')"

abbreviation granted :: "string \<Rightarrow> claim_call \<times> http_reply \<Rightarrow> bool" where
  "granted tok ar \<equiv> claim_token (fst ar) = Some tok \<and> hr_status (snd ar) = 200"

context redis_store
begin

lemma gone_run:
  "token_gone view tok t0 (ct_redis s) \<Longrightarrow> list_all (\<lambda>a. t0 \<le> ca_now a) as \<Longrightarrow> sorted (map ca_now as) \<Longrightarrow>
   filter (granted tok) (claim_run uuid_ok ops broker as s) = []"
proof (induction as arbitrary: s t0)
  case (Cons a as)
  obtain rep s' where h: "handleClaim uuid_ok ops broker a s = (rep, s')" by (cases "handleClaim uuid_ok ops broker a s")
  have "t0 \<le> ca_now a" using Cons.prems(2) by simp
  note g = claim_gone [OF h Cons.prems(1) this]
  have "list_all (\<lambda>b. ca_now a \<le> ca_now b) as" "sorted (map ca_now as)" using Cons.prems(3) by (auto simp: list_all_iff)
  from Cons.IH [OF conjunct1 [OF g] this] g h show ?case by auto
qed simp

lemma granted_once:
  "sorted (map ca_now as) \<Longrightarrow> length (filter (granted tok) (claim_run uuid_ok ops broker as s)) \<le> 1"
proof (induction as arbitrary: s)
  case (Cons a as)
  obtain rep s' where h: "handleClaim uuid_ok ops broker a s = (rep, s')" by (cases "handleClaim uuid_ok ops broker a s")
  have later: "list_all (\<lambda>b. ca_now a \<le> ca_now b) as" "sorted (map ca_now as)" using Cons.prems by (auto simp: list_all_iff)
  show ?case
  proof (cases "granted tok (a, rep)")
    case True
    with claim_success_gone [OF h] have "token_gone view tok (ca_now a) (ct_redis s')" by simp
    from gone_run [OF this later] True h show ?thesis by simp
  next
    case False
    then have "filter (granted tok) (claim_run uuid_ok ops broker (a # as) s) = filter (granted tok) (claim_run uuid_ok ops broker as s')"
      using h by auto
    with Cons.IH [OF later(2), of s'] show ?thesis by simp
  qed
qed simp

end

section \<open>Properties\<close>

definition claimBody :: json where
  "claimBody = JObject [(''token'', JString ''t1''), (''device_id'', JString ''d1'')]"

definition claimAt :: "time \<Rightarrow> claim_call" where
  "claimAt t = \<lparr>ca_provisioning = True, ca_body = Some claimBody, ca_host = ''control:8080'', ca_now = t, ca_dbNow = t,
     ca_bytes = Some [], ca_correlationID = ''k''\<rparr>"

definition claimStores :: "faults \<Rightarrow> (memredis, memplugin) claim_stores" where
  "claimStores fs = \<lparr>ct_redis = \<lparr>mr_faults = [], mr_vals = [tokenKey ''t1'' \<mapsto> (Some (marshal_TokenRecord \<lparr>tk_Name = ''lamp'', tk_Type = ''esp32''\<rparr>), None)]\<rparr>,
     ct_pg = emptyPg\<lparr>pg_faults := fs\<rparr>, ct_dynsec = \<lparr>dc_pending = (\<lambda>_. False), dc_chans = (\<lambda>_. None)\<rparr>,
     ct_broker = \<lparr>mp_faults = [], mp_clients = Map.empty\<rparr>\<rparr>"

lemma claimAt_token: "claim_token (claimAt t) = Some ''t1''" "unmarshal_claimRequest (ca_body (claimAt t)) = Inr \<lparr>cq_Token = ''t1'', cq_DeviceID = ''d1''\<rparr>"
  by (simp_all add: claim_token_def claimAt_def claimBody_def unmarshal_claimRequest_def Unmarshal_def set_claimRequest_def field_def)

lemma claimStores_consume:
  "\<exists>rd. ConsumeToken memredis_ops ''t1'' t (ct_redis (claimStores fs)) = (Inr \<lparr>tk_Name = ''lamp'', tk_Type = ''esp32''\<rparr>, rd)"
  by (simp add: ConsumeToken_def memredis_ops_def mr_GetDel_def claimStores_def mr_view_def TokenRecord_roundtrip)

lemma claimStores_create:
  "\<exists>c b. CreateClient ''k'' ''d1'' pw tn role memBroker (ct_dynsec (claimStores fs)) (ct_broker (claimStores fs)) = (None, c, b)"
proof -
  let ?b = "ct_broker (claimStores fs)" and ?cmd = "createClientCommand ''d1'' pw tn role"
  have "command_of (command_payload ''k'' ?cmd) = Some (''k'', ''d1'', pw)" by (simp add: command_payload_def createClientCommand_def)
  then obtain b' where br: "memBroker (command_payload ''k'' ?cmd) ?b = (\<lparr>ex_pubErr = None, ex_msgs = [answer ''k'' []]\<rparr>, b')"
    by (simp add: memBroker_def claimStores_def)
  show ?thesis
    unfolding CreateClient_def
    by (subst dynsec_do_result [where broker = memBroker and k = "''k''" and cmd = ?cmd and b = ?b, OF br]) (simp add: response_to_answer)
qed

lemma claimStores_granted:
  "\<exists>rep s'. handleClaim (\<lambda>_. True) memredis_ops memBroker (claimAt t) (claimStores []) = (rep, s') \<and> hr_status rep = 200"
proof -
  obtain rd where rd: "ConsumeToken memredis_ops ''t1'' t (ct_redis (claimStores [])) = (Inr \<lparr>tk_Name = ''lamp'', tk_Type = ''esp32''\<rparr>, rd)"
    using claimStores_consume by blast
  obtain c b where cl: "CreateClient ''k'' ''d1'' [] ''lamp'' deviceRoleName memBroker (ct_dynsec (claimStores [])) (ct_broker (claimStores [])) = (None, c, b)"
    using claimStores_create by blast
  have "Devices_Create t ''d1'' ''lamp'' ''esp32'' (ct_pg (claimStores [])) = (None, snd (Devices_Create t ''d1'' ''lamp'' ''esp32'' (ct_pg (claimStores []))))"
    by (simp add: Devices_Create_def pg_exec_def claimStores_def emptyPg_def sql_insert_device_def uuid_arg_def device_exists_def)
  then obtain d where d: "Devices_Create t ''d1'' ''lamp'' ''esp32'' (ct_pg (claimStores [])) = (None, d)" by blast
  have a: "ca_provisioning (claimAt t)" "ca_now (claimAt t) = t" "ca_dbNow (claimAt t) = t" "randomPassword (ca_bytes (claimAt t)) = Some []"
    "ca_correlationID (claimAt t) = ''k''" by (simp_all add: claimAt_def randomPassword_def)
  show ?thesis by (simp add: handleClaim_def a claimAt_token rd d cl)
qed

text \<open>C25: a registration token registers one device. Whatever requests reach the endpoint, in whatever order and with
  whatever failures of the stores, at most one of those that present a given token is answered with credentials.\<close>

theorem token_claims_once:
  assumes "redis_store ops view" and "sorted (map ca_now as)"
  shows "length (filter (\<lambda>(a, rep). claim_token a = Some tok \<and> hr_status rep = 200) (claim_run uuid_ok ops broker as s)) \<le> 1"
proof -
  have "(\<lambda>(a, rep). claim_token a = Some tok \<and> hr_status rep = 200) = granted tok" by (auto simp: fun_eq_iff)
  with redis_store.granted_once [OF assms] show ?thesis by simp
qed

theorem token_claims_once_witness:
  "length (filter (\<lambda>(a, rep). claim_token a = Some ''t1'' \<and> hr_status rep = 200)
     (claim_run (\<lambda>_. True) memredis_ops memBroker [claimAt 1, claimAt 2] (claimStores []))) = 1"
proof -
  let ?P = "\<lambda>(a, rep). claim_token a = Some ''t1'' \<and> hr_status rep = 200"
  let ?run = "claim_run (\<lambda>_. True) memredis_ops memBroker [claimAt 1, claimAt 2] (claimStores [])"
  obtain rep s' where h: "handleClaim (\<lambda>_. True) memredis_ops memBroker (claimAt 1) (claimStores []) = (rep, s')" "hr_status rep = 200"
    using claimStores_granted by blast
  then have "length (filter ?P ?run) \<ge> 1" by (simp add: claimAt_token split: prod.splits)
  moreover have "sorted (map ca_now [claimAt 1, claimAt 2])" by (simp add: claimAt_def)
  from token_claims_once [OF memredis.redis_store_axioms this, of "''t1''" "\<lambda>_. True" memBroker "claimStores []"]
  have "length (filter ?P ?run) \<le> 1" .
  ultimately show ?thesis by simp
qed

text \<open>C26: credentials come only for a registered device. An answer with credentials means that the token was in the
  store, and is gone for good; that the answer, as the client decodes it, names the requested device id as id and as
  user; that the registry holds that device with the name and type the token was issued for; and that the broker
  knows the user, with the password of the answer if it did not know it before.\<close>

theorem claim_grants_registered:
  assumes "redis_store ops view" and "dynsec_plugin broker clients"
    and h: "handleClaim uuid_ok ops broker a s = (rep, s')" and ok: "hr_status rep = 200"
  shows "\<exists>req raw rec creds u. unmarshal_claimRequest (ca_body a) = Inr req \<and>
     view (ct_redis s) (ca_now a) (tokenKey (cq_Token req)) = Some raw \<and> unmarshal_TokenRecord raw = Inr rec \<and>
     token_gone view (cq_Token req) (ca_now a) (ct_redis s') \<and>
     unmarshal_Credentials (Some (hr_body rep)) = Inr creds \<and> cd_DeviceID creds = cq_DeviceID req \<and> cd_MQTTUsername creds = cq_DeviceID req \<and>
     pg_uuid (ct_pg s) (cq_DeviceID req) = Some u \<and>
     (\<exists>row \<in> set (pg_devices (ct_pg s')). dr_id row = u \<and> dr_name row = tk_Name rec \<and> dr_type row = tk_Type rec) \<and>
     clients (ct_broker s') (cq_DeviceID req) \<noteq> None \<and>
     (clients (ct_broker s) (cq_DeviceID req) = None \<longrightarrow> clients (ct_broker s') (cq_DeviceID req) = Some (cd_MQTTPassword creds))"
proof (rule handleClaim_ok [OF h ok])
  fix req rec pw rd d c b
  assume req: "unmarshal_claimRequest (ca_body a) = Inr req"
    and tok: "ConsumeToken ops (cq_Token req) (ca_now a) (ct_redis s) = (Inr rec, rd)"
    and dev: "Devices_Create (ca_dbNow a) (cq_DeviceID req) (tk_Name rec) (tk_Type rec) (ct_pg s) = (None, d)"
    and cl: "CreateClient (ca_correlationID a) (cq_DeviceID req) pw (tk_Name rec) deviceRoleName broker (ct_dynsec s) (ct_broker s) = (None, c, b)"
    and s': "s' = \<lparr>ct_redis = rd, ct_pg = d, ct_dynsec = c, ct_broker = b\<rparr>"
    and body: "hr_body rep = marshal_claimResponse \<lparr>cs_DeviceID = cq_DeviceID req, cs_Name = tk_Name rec, cs_Type = tk_Type rec,
       cs_MQTTUsername = cq_DeviceID req, cs_MQTTPassword = pw, cs_MQTTWSURL = ''wss://'' @ hostOnly (ca_host a) @ '':9001''\<rparr>"
  obtain raw where raw: "rd_GetDel ops (tokenKey (cq_Token req)) (ca_now a) (ct_redis s) = (Inr raw, rd)" "unmarshal_TokenRecord raw = Inr rec"
    using tok by (auto simp: ConsumeToken_def split: prod.splits sum.splits redis_error.splits)
  have "view (ct_redis s) (ca_now a) (tokenKey (cq_Token req)) = Some raw" using redis_store.getdel_ok [OF assms(1) raw(1)] by simp
  moreover have "token_gone view (cq_Token req) (ca_now a) (ct_redis s')" using redis_store.consume_gone [OF assms(1) tok] by (simp add: s')
  moreover obtain u where "pg_uuid (ct_pg s) (cq_DeviceID req) = Some u"
    "\<exists>row \<in> set (pg_devices d). dr_id row = u \<and> dr_name row = tk_Name rec \<and> dr_type row = tk_Type rec"
    using dev unfolding Devices_Create_def
    by (rule pg_exec_ok) (auto simp: sql_insert_device_def uuid_arg_Inr split: if_splits)
  ultimately show ?thesis
    using req raw(2) dynsec_plugin.CreateClient_ok [OF assms(2) cl] by (auto simp: body claimResponse_decodes s')
qed

theorem claim_grants_registered_witness:
  "\<exists>rep s' creds. handleClaim (\<lambda>_. True) memredis_ops memBroker (claimAt 1) (claimStores []) = (rep, s') \<and> hr_status rep = 200 \<and>
     unmarshal_Credentials (Some (hr_body rep)) = Inr creds \<and> mp_clients (ct_broker s') ''d1'' = Some (cd_MQTTPassword creds)"
proof -
  obtain rep s' where h: "handleClaim (\<lambda>_. True) memredis_ops memBroker (claimAt 1) (claimStores []) = (rep, s')" and ok: "hr_status rep = 200"
    using claimStores_granted by blast
  have "mp_clients (ct_broker (claimStores [])) ''d1'' = None" by (simp add: claimStores_def)
  with claim_grants_registered [OF memredis.redis_store_axioms memplugin.dynsec_plugin_axioms h ok] h ok show ?thesis
    unfolding claimAt_token by auto
qed

text \<open>A claim that fails after its token was consumed cannot be repeated. If the device row or the broker
  credential could not be made, no later request with that token is answered with credentials: the device needs a
  new token, not just a new id.\<close>

theorem failed_claim_burns_token:
  assumes "redis_store ops view" and h: "handleClaim uuid_ok ops broker a s = (rep, s')"
    and "claim_token a = Some tok" and "ConsumeToken ops tok (ca_now a) (ct_redis s) = (Inr rec, ct_redis s')"
    and "ca_now a \<le> ca_now a'" and "claim_token a' = Some tok"
  shows "hr_status (fst (handleClaim uuid_ok ops broker a' s')) \<noteq> 200"
proof -
  have g: "token_gone view tok (ca_now a) (ct_redis s')" using redis_store.consume_gone [OF assms(1,4)] by simp
  obtain rep' s'' where "handleClaim uuid_ok ops broker a' s' = (rep', s'')" by (cases "handleClaim uuid_ok ops broker a' s'")
  with redis_store.claim_gone [OF assms(1) _ g assms(5)] assms(6) show ?thesis by auto
qed

theorem failed_claim_burns_token_witness:
  "\<exists>rep s'. handleClaim (\<lambda>_. True) memredis_ops memBroker (claimAt 1) (claimStores [Some (Lost ''down'')]) = (rep, s') \<and> hr_status rep = 500 \<and>
     hr_status (fst (handleClaim (\<lambda>_. True) memredis_ops memBroker (claimAt 2) s')) \<noteq> 200"
proof -
  let ?s = "claimStores [Some (Lost ''down'')]"
  obtain rd where rd: "ConsumeToken memredis_ops ''t1'' 1 (ct_redis ?s) = (Inr \<lparr>tk_Name = ''lamp'', tk_Type = ''esp32''\<rparr>, rd)"
    using claimStores_consume by blast
  obtain d where d: "Devices_Create 1 ''d1'' ''lamp'' ''esp32'' (ct_pg ?s) = (Some (PgIO ''down''), d)"
    by (simp add: Devices_Create_def pg_exec_def pg_run_def claimStores_def)
  have a: "ca_provisioning (claimAt 1)" "ca_now (claimAt 1) = 1" "ca_dbNow (claimAt 1) = 1" "randomPassword (ca_bytes (claimAt 1)) = Some []"
    by (simp_all add: claimAt_def randomPassword_def)
  let ?s' = "?s\<lparr>ct_redis := rd, ct_pg := d\<rparr>"
  have h: "handleClaim (\<lambda>_. True) memredis_ops memBroker (claimAt 1) ?s = (writeJSONError 500 ''internal error'', ?s')"
    by (simp add: handleClaim_def a claimAt_token rd d)
  have "ConsumeToken memredis_ops ''t1'' (ca_now (claimAt 1)) (ct_redis ?s) = (Inr \<lparr>tk_Name = ''lamp'', tk_Type = ''esp32''\<rparr>, ct_redis ?s')"
    using rd a by simp
  from failed_claim_burns_token [OF memredis.redis_store_axioms h claimAt_token(1) this, of "claimAt 2"]
  have "hr_status (fst (handleClaim (\<lambda>_. True) memredis_ops memBroker (claimAt 2) ?s')) \<noteq> 200" by (simp add: claimAt_token a, simp add: claimAt_def)
  with h show ?thesis by (simp add: writeJSONError_def)
qed

end
