(* ===== verification/TokenCli.thy ===== *)
theory TokenCli
  imports FleetManager Claim Config
begin

text \<open>
  \<^verbatim>\<open>cmd/control/token.go\<close>: issuing registration tokens from the command line, one or a batch for the
  simulated fleet, and what the fleet reads of the file it writes.
\<close>

section \<open>Model\<close>

text \<open>\<^verbatim>\<open>%05d\<close> of a number that is not negative.\<close>

definition pad5 :: "nat \<Rightarrow> string" where
  "pad5 n = replicate (5 - length (decimal n)) (CHR ''0'') @ decimal n"

record token_flags =
  tf_name :: string
  tf_type :: string
  tf_ttl :: duration
  tf_count :: int
  tf_out :: string

datatype token_cli_error =
    TokenNameRequired
  | CountTooSmall
  | RedisUnreachable io_error
  | TokenNotIssued nat token_error
  | TokensNotWritten io_error

datatype token_output = Stdout string | File string string

text \<open>What the command meets outside: the ping of Redis, the random bytes and the clock of each token, and the write of the
  file. \<open>te_banner\<close> is the line printed before a single token.\<close>

record token_env =
  te_ping :: "io_error option"
  te_random :: "nat \<Rightarrow> 8 word list"
  te_now :: "nat \<Rightarrow> time"
  te_write :: "string \<Rightarrow> io_error option"
  te_banner :: string

definition deviceName :: "string \<Rightarrow> nat \<Rightarrow> string" where
  "deviceName name i = name @ ''-'' @ pad5 i"

fun issueTokens :: "'r redisops \<Rightarrow> token_env \<Rightarrow> token_flags \<Rightarrow> nat list \<Rightarrow> 'r \<Rightarrow> (token_cli_error + string list) \<times> 'r" where
  "issueTokens ops env fl [] s = (Inr [], s)"
| "issueTokens ops env fl (i # is) s =
     (case CreateToken ops (deviceName (tf_name fl) i) (tf_type fl) (tf_ttl fl) (te_random env i) (te_now env i) s of
        (Inl e, s1) \<Rightarrow> (Inl (TokenNotIssued i e), s1)
      | (Inr token, s1) \<Rightarrow>
          (case issueTokens ops env fl is s1 of
             (Inl e, s2) \<Rightarrow> (Inl e, s2) | (Inr tokens, s2) \<Rightarrow> (Inr (token # tokens), s2)))"

definition tokenLines :: "string list \<Rightarrow> string" where
  "tokenLines tokens = concat (map (\<lambda>t. t @ [CHR 0x0A]) tokens)"

definition writeTokens :: "token_env \<Rightarrow> token_flags \<Rightarrow> string \<Rightarrow> token_cli_error + token_output" where
  "writeTokens env fl body = (case te_write env (tf_out fl) of Some e \<Rightarrow> Inl (TokensNotWritten e) | None \<Rightarrow> Inr (File (tf_out fl) body))"

definition runTokenCLI :: "'r redisops \<Rightarrow> token_env \<Rightarrow> token_flags \<Rightarrow> 'r \<Rightarrow> (token_cli_error + token_output) \<times> 'r" where
  "runTokenCLI ops env fl s =
     (if tf_name fl = [] then (Inl TokenNameRequired, s)
      else if tf_count fl < 1 then (Inl CountTooSmall, s)
      else
        (case te_ping env of
           Some e \<Rightarrow> (Inl (RedisUnreachable e), s)
         | None \<Rightarrow>
             if tf_count fl = 1 then
               (case CreateToken ops (tf_name fl) (tf_type fl) (tf_ttl fl) (te_random env 0) (te_now env 0) s of
                  (Inl e, s1) \<Rightarrow> (Inl (TokenNotIssued 0 e), s1)
                | (Inr token, s1) \<Rightarrow>
                    (if tf_out fl = [] then Inr (Stdout (te_banner env @ tokenLines [token])) else writeTokens env fl (tokenLines [token]), s1))
             else
               (case issueTokens ops env fl [0..<nat (tf_count fl)] s of
                  (Inl e, s1) \<Rightarrow> (Inl e, s1)
                | (Inr tokens, s1) \<Rightarrow>
                    (if tf_out fl = [] then Inr (Stdout (tokenLines tokens)) else writeTokens env fl (tokenLines tokens), s1))))"

section \<open>Lemmas\<close>

definition issued_name :: "token_flags \<Rightarrow> nat \<Rightarrow> string" where
  "issued_name fl i = (if tf_count fl = 1 then tf_name fl else deviceName (tf_name fl) i)"

lemma issueTokens_tokens: "issueTokens ops env fl is s = (Inr tokens, s') \<Longrightarrow> tokens = map (\<lambda>i. randomToken (te_random env i)) is"
  by (induction "is" arbitrary: s tokens) (auto simp: CreateToken_def Let_def split: prod.splits sum.splits option.splits)

definition hexChars :: string where "hexChars = ''0123456789abcdef''"

lemma hexDigit_in: "hexDigit n \<in> set hexChars"
  unfolding hexDigit_def hexChars_def by (rule nth_mem) simp

lemma hexChars_plain: "set hexChars \<inter> insert (CHR ''#'') (\<Union> (set ` set spaceRunes)) = {}"
  by code_simp

lemma randomToken_chars: "set (randomToken b) \<subseteq> set hexChars"
  using hexDigit_in by (induction b) (auto simp: randomToken_def EncodeToString_def)

lemma TrimSpace_plain:
  assumes "set s \<inter> \<Union> (set ` set spaceRunes) = {}"
  shows "TrimSpace s = s"
proof -
  have stop: "trimWith ps t = t" if "set t \<inter> \<Union> (set ` set ps) = {}" for ps t
  proof -
    have "\<not> HasPrefix t p" if p: "p \<in> set ps" "p \<noteq> []" for p
    proof
      assume "HasPrefix t p"
      then have "hd p \<in> set t \<inter> set p" using p(2) by (cases p) (auto simp: HasPrefix_iff)
      with \<open>set t \<inter> \<Union> (set ` set ps) = {}\<close> p(1) show False by blast
    qed
    then have "find (\<lambda>p. p \<noteq> [] \<and> HasPrefix t p) ps = None" by (auto simp: find_None_iff)
    then show ?thesis by (subst trimWith.simps) simp
  qed
  have "set (rev s) \<inter> \<Union> (set ` set (map rev spaceRunes)) = {}" using assms by auto
  from stop [OF this] stop [OF assms] show ?thesis by (simp add: TrimSpace_def)
qed

lemma hexDigit_inj: "hexDigit m = hexDigit n \<Longrightarrow> m mod 16 = n mod 16"
proof -
  assume "hexDigit m = hexDigit n"
  moreover have "distinct ''0123456789abcdef''" by simp
  moreover have "m mod 16 < length ''0123456789abcdef''" "n mod 16 < length ''0123456789abcdef''" by simp_all
  ultimately show ?thesis unfolding hexDigit_def by (metis nth_eq_iff_index_eq)
qed

lemma EncodeToString_inj: "EncodeToString a = EncodeToString b \<Longrightarrow> a = b"
proof (induction a arbitrary: b)
  case Nil
  then show ?case by (cases b) (auto simp: EncodeToString_def)
next
  case (Cons x a)
  obtain y c where b: "b = y # c" using Cons.prems by (cases b) (auto simp: EncodeToString_def)
  have "hexDigit (unat x div 16) = hexDigit (unat y div 16)" "hexDigit (unat x) = hexDigit (unat y)" "EncodeToString a = EncodeToString c"
    using Cons.prems b by (auto simp: EncodeToString_def)
  then have d: "unat x div 16 mod 16 = unat y div 16 mod 16" and m: "unat x mod 16 = unat y mod 16" and "a = c"
    using hexDigit_inj Cons.IH by blast+
  have "unat x < 256" "unat y < 256" using unsigned_less [of x] unsigned_less [of y] by simp_all
  with d have "unat x div 16 = unat y div 16" by simp
  with m have "unat x = unat y" by (metis div_mult_mod_eq)
  with b \<open>a = c\<close> show ?case by (simp add: unsigned_word_eqI)
qed

lemma randomToken_inj: "randomToken a = randomToken b \<Longrightarrow> a = b"
  by (auto simp: randomToken_def dest: EncodeToString_inj)

text \<open>The file of a batch is read back as its tokens.\<close>

lemma tokenLines_scan:
  assumes "list_all (\<lambda>t. CHR 0x0A \<notin> set t \<and> length t < 65536) tokens"
  shows "scanLines (tokenLines tokens) = Some tokens"
proof -
  have "splitOn (CHR 0x0A) (tokenLines tokens) = tokens @ [[]]"
    using assms
  proof (induction tokens)
    case (Cons t tokens)
    with splitOn_append [of "CHR 0x0A" t "tokenLines tokens"] show ?case by (simp add: tokenLines_def)
  qed (simp add: tokenLines_def)
  with assms show ?thesis by (simp add: scanLines_def Let_def list_all_iff)
qed

lemma tokenLines_load:
  assumes "\<forall>t \<in> set tokens. set t \<subseteq> set hexChars \<and> t \<noteq> [] \<and> length t < 65536" and "path \<noteq> []"
  shows "loadTokenPool path (Content (tokenLines tokens)) = Some \<lparr>tp_tokens = tokens, tp_next = 0\<rparr>"
proof -
  have plain: "set t \<inter> insert (CHR ''#'') (\<Union> (set ` set spaceRunes)) = {}" if "t \<in> set tokens" for t
  proof -
    have "set t \<subseteq> set hexChars" using assms(1) that by simp
    then have "set t \<inter> insert (CHR ''#'') (\<Union> (set ` set spaceRunes)) \<subseteq> set hexChars \<inter> insert (CHR ''#'') (\<Union> (set ` set spaceRunes))"
      by (rule Int_mono) simp
    then show ?thesis by (simp only: hexChars_plain subset_empty)
  qed
  have nl: "CHR 0x0A \<in> \<Union> (set ` set spaceRunes)" by (simp add: spaceRunes_def)
  have hash: "CHR ''#'' \<notin> set t" and space: "set t \<inter> \<Union> (set ` set spaceRunes) = {}" if "t \<in> set tokens" for t
    using plain [OF that] unfolding disjoint_insert by (rule conjunct1, rule conjunct2)
  have size: "t \<noteq> []" "length t < 65536" if "t \<in> set tokens" for t using assms(1) that by simp_all
  have "CHR 0x0A \<notin> set t" if "t \<in> set tokens" for t
    using disjoint_iff [THEN iffD1, OF space [OF that]] nl by metis
  then have "list_all (\<lambda>t. CHR 0x0A \<notin> set t \<and> length t < 65536) tokens" using size by (simp add: list_all_iff)
  note scan = tokenLines_scan [OF this]
  have trim: "map TrimSpace tokens = tokens" by (intro map_idI TrimSpace_plain space)
  have "\<not> HasPrefix t ''#''" if "t \<in> set tokens" for t
    using hash [OF that] size [OF that] by (cases t) (auto simp: HasPrefix_def)
  then have "filter (\<lambda>l. l \<noteq> [] \<and> \<not> HasPrefix l ''#'') tokens = tokens" using size by (intro filter_True) simp
  with scan trim assms(2) show ?thesis by (simp add: loadTokenPool_def)
qed

context redis_store
begin

lemma create_view:
  assumes "CreateToken ops nm typ ttl b t s = (Inr token, s')" and "t \<le> t'"
  shows "view s' t' = (view s t')(tokenKey (randomToken b) := if ttl = 0 \<or> t' < t + ttl then Some (Some (marshal_TokenRecord \<lparr>tk_Name = nm, tk_Type = typ\<rparr>)) else None)"
  using assms set_ok by (auto simp: CreateToken_def Let_def split: prod.splits option.splits)

lemma issue_view:
  assumes "issueTokens ops env fl is s = (Inr tokens, s')" and "distinct is" and "inj_on (\<lambda>i. randomToken (te_random env i)) (insert i (set is))" and "\<And>i. te_now env i \<le> t"
  shows "view s' t (tokenKey (randomToken (te_random env i))) =
    (if i \<in> set is
     then if tf_ttl fl = 0 \<or> t < te_now env i + tf_ttl fl then Some (Some (marshal_TokenRecord \<lparr>tk_Name = deviceName (tf_name fl) i, tk_Type = tf_type fl\<rparr>)) else None
     else view s t (tokenKey (randomToken (te_random env i))))"
  using assms(1-3)
proof (induction "is" arbitrary: s tokens)
  case (Cons j js)
  obtain tok s1 toks where c: "CreateToken ops (deviceName (tf_name fl) j) (tf_type fl) (tf_ttl fl) (te_random env j) (te_now env j) s = (Inr tok, s1)"
    and r: "issueTokens ops env fl js s1 = (Inr toks, s')"
    using Cons.prems(1) by (auto split: prod.splits sum.splits)
  have "inj_on (\<lambda>i. randomToken (te_random env i)) (insert i (set js))" by (rule inj_on_subset [OF Cons.prems(3)]) auto
  moreover have "i \<noteq> j \<Longrightarrow> randomToken (te_random env i) \<noteq> randomToken (te_random env j)"
    using Cons.prems(3) by (meson inj_onD insertCI list.set_intros(1))
  ultimately show ?case using Cons.IH [OF r] Cons.prems(2) create_view [OF c assms(4) [of j]] by auto
qed simp

end

section \<open>Properties\<close>

text \<open>The file the command writes is what the fleet starts from: reading it gives a pool of exactly the tokens asked for, all
  different, and until it expires the store holds for the i-th of them the record of the i-th device, with its name and
  type. The hypotheses are that the random bytes of the tokens differ and that the clock does not run past the reader.
\<close>

theorem token_file_feeds_fleet:
  assumes "redis_store ops view" and "runTokenCLI ops env fl s = (Inr (File path content), s')" and "inj_on (te_random env) {..<nat (tf_count fl)}" and "\<And>i. length (te_random env i) = 20"
    and "\<And>i. te_now env i \<le> t"
  shows "\<exists>pool. loadTokenPool path (Content content) = Some pool \<and> pool_remaining pool = tf_count fl \<and> distinct (tp_tokens pool) \<and>
    (\<forall>i < length (tp_tokens pool). tf_ttl fl = 0 \<or> t < te_now env i + tf_ttl fl \<longrightarrow>
      view s' t (tokenKey (tp_tokens pool ! i)) = Some (Some (marshal_TokenRecord \<lparr>tk_Name = issued_name fl i, tk_Type = tf_type fl\<rparr>)))"
proof -
  let ?tok = "\<lambda>i. randomToken (te_random env i)"
  have inj: "inj_on ?tok (set [0..<nat (tf_count fl)])" using assms(3) randomToken_inj by (auto simp: inj_on_def)
  have count: "1 \<le> tf_count fl" and path: "path \<noteq> []"
    using assms(2) by (auto simp: runTokenCLI_def writeTokens_def split: if_splits prod.splits sum.splits option.splits)
  have issued: "content = tokenLines (map ?tok [0..<nat (tf_count fl)]) \<and> (\<forall>i < nat (tf_count fl). tf_ttl fl = 0 \<or> t < te_now env i + tf_ttl fl \<longrightarrow>
      view s' t (tokenKey (?tok i)) = Some (Some (marshal_TokenRecord \<lparr>tk_Name = issued_name fl i, tk_Type = tf_type fl\<rparr>)))"
  proof (cases "tf_count fl = 1")
    case True
    obtain token where c: "CreateToken ops (tf_name fl) (tf_type fl) (tf_ttl fl) (te_random env 0) (te_now env 0) s = (Inr token, s')"
      and "content = tokenLines [token]"
      using assms(2) True by (auto simp: runTokenCLI_def writeTokens_def split: if_splits prod.splits sum.splits option.splits)
    moreover have "token = ?tok 0" using c by (auto simp: CreateToken_def Let_def split: prod.splits option.splits)
    ultimately show ?thesis
      using redis_store.create_view [OF assms(1) c assms(5) [of 0]] True by (auto simp: issued_name_def)
  next
    case False
    obtain tokens where c: "issueTokens ops env fl [0..<nat (tf_count fl)] s = (Inr tokens, s')" and "content = tokenLines tokens"
      using assms(2) False by (auto simp: runTokenCLI_def writeTokens_def split: if_splits prod.splits sum.splits option.splits)
    moreover have "view s' t (tokenKey (?tok i)) = Some (Some (marshal_TokenRecord \<lparr>tk_Name = issued_name fl i, tk_Type = tf_type fl\<rparr>))"
      if "i < nat (tf_count fl)" "tf_ttl fl = 0 \<or> t < te_now env i + tf_ttl fl" for i
    proof -
      have "insert i (set [0..<nat (tf_count fl)]) = set [0..<nat (tf_count fl)]" using that(1) by auto
      with inj have "inj_on ?tok (insert i (set [0..<nat (tf_count fl)]))" by (simp only:)
      from redis_store.issue_view [OF assms(1) c _ this assms(5)] that False show ?thesis by (simp add: issued_name_def)
    qed
    ultimately show ?thesis using issueTokens_tokens [OF c] by simp
  qed
  let ?tokens = "map ?tok [0..<nat (tf_count fl)]"
  have len: "length (?tok i) = 40" for i by (simp add: randomToken_def assms(4))
  have "\<forall>tk \<in> set ?tokens. set tk \<subseteq> set hexChars \<and> tk \<noteq> [] \<and> length tk < 65536"
    using randomToken_chars len by (auto simp: len) (metis len list.size(3) zero_neq_numeral)
  from tokenLines_load [OF this path] have load: "loadTokenPool path (Content content) = Some \<lparr>tp_tokens = ?tokens, tp_next = 0\<rparr>"
    using issued by simp
  have "distinct ?tokens" using inj by (simp add: distinct_map)
  with load issued count show ?thesis by (auto simp: pool_remaining_def)
qed

definition twoTokens :: token_env where
  "twoTokens = \<lparr>te_ping = None, te_random = (\<lambda>i. replicate 20 (word_of_nat i)), te_now = (\<lambda>_. 0), te_write = (\<lambda>_. None), te_banner = []\<rparr>"

definition twoFlags :: token_flags where
  "twoFlags = \<lparr>tf_name = ''fleet'', tf_type = ''esp32'', tf_ttl = second, tf_count = 2, tf_out = ''tokens.txt''\<rparr>"

theorem token_file_feeds_fleet_witness:
  "\<exists>content s' pool. runTokenCLI memredis_ops twoTokens twoFlags \<lparr>mr_faults = [], mr_vals = Map.empty\<rparr> = (Inr (File ''tokens.txt'' content), s') \<and>
     loadTokenPool ''tokens.txt'' (Content content) = Some pool \<and> pool_remaining pool = 2 \<and> distinct (tp_tokens pool)"
proof -
  obtain content s' where run: "runTokenCLI memredis_ops twoTokens twoFlags \<lparr>mr_faults = [], mr_vals = Map.empty\<rparr> = (Inr (File ''tokens.txt'' content), s')"
    by (simp add: runTokenCLI_def twoFlags_def twoTokens_def CreateToken_def memredis_ops_def mr_Set_def writeTokens_def Let_def numeral_2_eq_2)
  have "inj_on (te_random twoTokens) {..<nat (tf_count twoFlags)}"
    by (auto simp: inj_on_def twoTokens_def twoFlags_def less_Suc_eq numeral_2_eq_2)
  from token_file_feeds_fleet [OF memredis.redis_store_axioms run this, of 0] run show ?thesis
    by (auto simp: twoTokens_def twoFlags_def)
qed

end
