(* ===== verification/Auth.thy ===== *)
theory Auth
  imports Claim
begin

text \<open>
  Who may call the control plane: \<^verbatim>\<open>cmd/control/auth.go\<close> (roles, tokens, the guard of every protected
  endpoint), \<^verbatim>\<open>cmd/control/auth_login.go\<close> (the console's login) and \<^verbatim>\<open>internal/users/store.go\<close> (its
  accounts).

  The JWT library is a parameter (\<open>jwtops\<close>) and the locale \<open>jwt_hs256\<close> states its documented behaviour for
  tokens signed by the program; bcrypt's comparison is the parameter \<open>bcrypt_ok\<close>. A protected handler is a
  function on the state it works on.
\<close>

section \<open>Roles\<close>

definition roleViewer :: string where "roleViewer = ''viewer''"
definition roleOperator :: string where "roleOperator = ''operator''"
definition roleAdmin :: string where "roleAdmin = ''admin''"

definition roleRank :: "string \<Rightarrow> int option" where
  "roleRank = [roleViewer \<mapsto> 0, roleOperator \<mapsto> 1, roleAdmin \<mapsto> 2]"

definition roleAllows :: "string \<Rightarrow> string \<Rightarrow> bool" where
  "roleAllows have need =
     (case roleRank have of
        None \<Rightarrow> False
      | Some haveRank \<Rightarrow> (case roleRank need of None \<Rightarrow> False | Some needRank \<Rightarrow> haveRank \<ge> needRank))"

lemmas role_defs = roleViewer_def roleOperator_def roleAdmin_def

section \<open>Tokens\<close>

record claims =
  jc_Role :: string
  jc_Subject :: string
  jc_Issuer :: string
  jc_IssuedAt :: "time option"
  jc_ExpiresAt :: "time option"

record jwtops =
  jw_Sign :: "claims \<Rightarrow> string \<Rightarrow> io_error + string"
  jw_Parse :: "time \<Rightarrow> string \<Rightarrow> string \<Rightarrow> string \<Rightarrow> io_error + claims"

text \<open>\<^verbatim>\<open>jwt.NewNumericDate\<close> keeps whole seconds.\<close>

definition NewNumericDate :: "time \<Rightarrow> time" where
  "NewNumericDate t = t div second * second"

datatype auth_error = UnknownRole string | SigningFailed io_error | EmptyToken | InvalidToken io_error | MissingHeader

definition signToken :: "jwtops \<Rightarrow> string \<Rightarrow> string \<Rightarrow> duration \<Rightarrow> string \<Rightarrow> string \<Rightarrow> time \<Rightarrow> auth_error + string" where
  "signToken jwt role issuer ttl signingKey subject now =
     (if roleRank role = None then Inl (UnknownRole role)
      else
        (case jw_Sign jwt \<lparr>jc_Role = role, jc_Subject = subject, jc_Issuer = issuer, jc_IssuedAt = Some (NewNumericDate now),
             jc_ExpiresAt = Some (NewNumericDate (now + ttl))\<rparr> signingKey of
           Inl e \<Rightarrow> Inl (SigningFailed e) | Inr tok \<Rightarrow> Inr tok))"

definition verifyToken :: "jwtops \<Rightarrow> time \<Rightarrow> string \<Rightarrow> string \<Rightarrow> string \<Rightarrow> auth_error + string \<times> string" where
  "verifyToken jwt now tokenStr issuer signingKey =
     (if tokenStr = [] then Inl EmptyToken
      else
        (case jw_Parse jwt now tokenStr signingKey issuer of
           Inl e \<Rightarrow> Inl (InvalidToken e)
         | Inr c \<Rightarrow> if roleRank (jc_Role c) = None then Inl (UnknownRole (jc_Role c)) else Inr (jc_Role c, jc_Subject c)))"

definition verifyBearer :: "jwtops \<Rightarrow> time \<Rightarrow> string \<Rightarrow> string \<Rightarrow> string \<Rightarrow> auth_error + string" where
  "verifyBearer jwt now header issuer signingKey =
     (case CutPrefix header ''Bearer '' of
        (tokenStr, ok) \<Rightarrow>
          if \<not> ok \<or> tokenStr = [] then Inl MissingHeader
          else (case verifyToken jwt now tokenStr issuer signingKey of Inl e \<Rightarrow> Inl e | Inr (role, _) \<Rightarrow> Inr role))"

definition requireRole :: "jwtops \<Rightarrow> string \<Rightarrow> string \<Rightarrow> string \<Rightarrow> (string \<Rightarrow> 's \<Rightarrow> http_reply \<times> 's) \<Rightarrow> time \<Rightarrow> string \<Rightarrow> 's \<Rightarrow> http_reply \<times> 's" where
  "requireRole jwt minRole issuer signingKey handler now header s =
     (case verifyBearer jwt now header issuer signingKey of
        Inl err \<Rightarrow> (writeJSONError 401 ''invalid or missing bearer token'', s)
      | Inr role \<Rightarrow>
          if \<not> roleAllows role minRole then (writeJSONError 403 ''insufficient role'', s) else handler role s)"

section \<open>Users\<close>

record User =
  u_ID :: string
  u_Username :: string
  u_PasswordHash :: string
  u_Role :: string
  u_CreatedAt :: time

definition scanUser :: "UserRow \<Rightarrow> User" where
  "scanUser r = \<lparr>u_ID = us_id r, u_Username = us_username r, u_PasswordHash = us_password_hash r, u_Role = us_role r,
     u_CreatedAt = us_created_at r\<rparr>"

definition sql_insert_user :: "time \<Rightarrow> string \<Rightarrow> string \<Rightarrow> string \<Rightarrow> string \<Rightarrow> UserRow statement" where
  "sql_insert_user dbNow id' username hash role d =
     uuid_arg d id' (\<lambda>u.
       if u \<in> us_id ` set (pg_users d) \<or> username \<in> us_username ` set (pg_users d) then Inl unique_violation
       else if role \<notin> {''viewer'', ''operator'', ''admin''} then Inl check_violation
       else
         (let row = \<lparr>us_id = u, us_username = username, us_password_hash = hash, us_role = role, us_created_at = pg_ts dbNow\<rparr> in
          Inr (row, d\<lparr>pg_users := pg_users d @ [row]\<rparr>)))"

definition Users_Create :: "time \<Rightarrow> string \<Rightarrow> string \<Rightarrow> string \<Rightarrow> string \<Rightarrow> pg \<Rightarrow> (pg_error + User) \<times> pg" where
  "Users_Create dbNow newID username passwordHash role d =
     (case pg_run (sql_insert_user dbNow newID username passwordHash role) d of
        (Inl e, d') \<Rightarrow> (Inl e, d') | (Inr r, d') \<Rightarrow> (Inr (scanUser r), d'))"

definition sql_select_user :: "string \<Rightarrow> UserRow list statement" where
  "sql_select_user username d = Inr (filter (\<lambda>r. us_username r = username) (pg_users d), d)"

definition GetByUsername :: "string \<Rightarrow> pg \<Rightarrow> (pg_error + User option) \<times> pg" where
  "GetByUsername username d =
     (case pg_run (sql_select_user username) d of
        (Inl e, d') \<Rightarrow> (Inl e, d')
      | (Inr [], d') \<Rightarrow> (Inr None, d')
      | (Inr (r # _), d') \<Rightarrow> (Inr (Some (scanUser r)), d'))"

text \<open>\<^verbatim>\<open>control user create\<close> after its flags are parsed; \<open>hash\<close> is the result of bcrypt.\<close>

datatype user_cli_error = UsernameRequired | RoleInvalid | PasswordRequired | HashFailed io_error | UserStore pg_error

definition runUserCLI :: "time \<Rightarrow> string \<Rightarrow> (string \<Rightarrow> io_error + string) \<Rightarrow> string \<Rightarrow> string \<Rightarrow> string \<Rightarrow> pg \<Rightarrow> (user_cli_error + User) \<times> pg" where
  "runUserCLI dbNow newID hash username role password d =
     (if username = [] then (Inl UsernameRequired, d)
      else if roleRank role = None then (Inl RoleInvalid, d)
      else if password = [] then (Inl PasswordRequired, d)
      else
        (case hash password of
           Inl e \<Rightarrow> (Inl (HashFailed e), d)
         | Inr h \<Rightarrow> (case Users_Create dbNow newID username h role d of (Inl e, d') \<Rightarrow> (Inl (UserStore e), d') | (Inr u, d') \<Rightarrow> (Inr u, d'))))"

text \<open>\<^verbatim>\<open>control jwt create\<close> after its flags are parsed.\<close>

datatype jwt_cli_error = JwtRoleInvalid | SigningKeyUnset | JwtSign auth_error

definition runJWTCLI :: "jwtops \<Rightarrow> string \<Rightarrow> duration \<Rightarrow> string \<Rightarrow> string \<Rightarrow> time \<Rightarrow> jwt_cli_error + string" where
  "runJWTCLI jwt role ttl issuer signingKey now =
     (if roleRank role = None then Inl JwtRoleInvalid
      else if signingKey = [] then Inl SigningKeyUnset
      else (case signToken jwt role issuer ttl signingKey [] now of Inl e \<Rightarrow> Inl (JwtSign e) | Inr tok \<Rightarrow> Inr tok))"

section \<open>Login\<close>

record loginRequest =
  lq_Username :: string
  lq_Password :: string

definition set_loginRequest :: "string \<Rightarrow> loginRequest decoder" where
  "set_loginRequest k =
     (if k = ''username'' then field dec_string lq_Username (\<lambda>v r. r\<lparr>lq_Username := v\<rparr>)
      else if k = ''password'' then field dec_string lq_Password (\<lambda>v r. r\<lparr>lq_Password := v\<rparr>)
      else (\<lambda>_ r. Inr r))"

definition unmarshal_loginRequest :: "body \<Rightarrow> json_error + loginRequest" where
  "unmarshal_loginRequest = Unmarshal (dec_struct set_loginRequest) \<lparr>lq_Username = [], lq_Password = []\<rparr>"

record loginResponse =
  lr_AccessToken :: string
  lr_Role :: string
  lr_Username :: string
  lr_ExpiresAt :: time

text \<open>A \<^verbatim>\<open>time.Time\<close> is written as text, the parameter \<open>fmt\<close>.\<close>

definition marshal_loginResponse :: "(time \<Rightarrow> string) \<Rightarrow> loginResponse \<Rightarrow> json" where
  "marshal_loginResponse fmt r = JObject [(''access_token'', JString (lr_AccessToken r)), (''role'', JString (lr_Role r)),
     (''username'', JString (lr_Username r)), (''expires_at'', JString (fmt (lr_ExpiresAt r)))]"

definition fixedHash :: string where
  "fixedHash = ''$2a$10$CwTycUXWue0Thq9StjUM0uJ8vGaJ07k4PQXHt5cJ1G0/PkQ8p2p3O''"

text \<open>\<open>t1\<close> and \<open>t2\<close> are the times of the handler's and of \<^verbatim>\<open>signToken\<close>'s \<^verbatim>\<open>time.Now\<close>.\<close>

definition login :: "jwtops \<Rightarrow> (string \<Rightarrow> string \<Rightarrow> bool) \<Rightarrow> (time \<Rightarrow> string) \<Rightarrow> string \<Rightarrow> string \<Rightarrow> duration \<Rightarrow> body \<Rightarrow> time \<Rightarrow> time
    \<Rightarrow> pg \<Rightarrow> http_reply \<times> pg" where
  "login jwt bcrypt_ok fmt issuer signingKey consoleTTL b t1 t2 d =
     (case unmarshal_loginRequest b of
        Inl _ \<Rightarrow> (writeJSONError 400 ''invalid request body'', d)
      | Inr req \<Rightarrow>
      if lq_Username req = [] \<or> lq_Password req = [] then (writeJSONError 400 ''username and password are required'', d)
      else
      (case GetByUsername (lq_Username req) d of
         (Inl _, d') \<Rightarrow> (writeJSONError 500 ''internal error'', d')
       | (Inr u, d') \<Rightarrow>
           (let hash = (case u of None \<Rightarrow> fixedHash | Some v \<Rightarrow> u_PasswordHash v) in
            if \<not> bcrypt_ok hash (lq_Password req) \<or> u = None then (writeJSONError 401 ''invalid username or password'', d')
            else
              (let v = the u; expiresAt = t1 + consoleTTL in
               case signToken jwt (u_Role v) issuer consoleTTL signingKey (u_Username v) t2 of
                 Inl _ \<Rightarrow> (writeJSONError 500 ''internal error'', d')
               | Inr token \<Rightarrow>
                   (\<lparr>hr_status = 200, hr_body = marshal_loginResponse fmt \<lparr>lr_AccessToken = token, lr_Role = u_Role v,
                      lr_Username = u_Username v, lr_ExpiresAt = expiresAt\<rparr>\<rparr>, d')))))"

section \<open>What the JWT library promises\<close>

definition whole_seconds :: "claims \<Rightarrow> bool" where
  "whole_seconds c \<longleftrightarrow> (\<forall>t. jc_IssuedAt c = Some t \<or> jc_ExpiresAt c = Some t \<longrightarrow> t mod second = 0)"

text \<open>A token signed with a key is read back with that key as the claims that were signed, if it names the expected
  issuer (an empty one is not checked) and its expiry is in the future, and is refused otherwise; with another key
  it is refused.\<close>

locale jwt_hs256 =
  fixes jwt :: jwtops
  assumes parse_valid: "jw_Sign jwt c key = Inr tok \<Longrightarrow> whole_seconds c \<Longrightarrow> iss = [] \<or> jc_Issuer c = iss \<Longrightarrow>
      (\<forall>x. jc_ExpiresAt c = Some x \<longrightarrow> t < x) \<Longrightarrow> jw_Parse jwt t tok key iss = Inr c"
    and parse_expired: "jw_Sign jwt c key = Inr tok \<Longrightarrow> jc_ExpiresAt c = Some x \<Longrightarrow> x \<le> t \<Longrightarrow> \<exists>e. jw_Parse jwt t tok key iss = Inl e"
    and parse_issuer: "jw_Sign jwt c key = Inr tok \<Longrightarrow> iss \<noteq> [] \<Longrightarrow> jc_Issuer c \<noteq> iss \<Longrightarrow> \<exists>e. jw_Parse jwt t tok key iss = Inl e"
    and parse_key: "jw_Sign jwt c key = Inr tok \<Longrightarrow> key' \<noteq> key \<Longrightarrow> \<exists>e. jw_Parse jwt t tok key' iss = Inl e"
    and sign_nonempty: "jw_Sign jwt c key \<noteq> Inr []"

section \<open>Lemmas\<close>

lemma roleRank_Some: "roleRank r = Some n \<longleftrightarrow> r = roleViewer \<and> n = 0 \<or> r = roleOperator \<and> n = 1 \<or> r = roleAdmin \<and> n = 2"
  by (auto simp: roleRank_def role_defs)

lemma roleAllows_trans: "roleAllows a b \<Longrightarrow> roleAllows b c \<Longrightarrow> roleAllows a c"
  by (auto simp: roleAllows_def split: option.splits)

lemma roleAllows_total: "roleRank a \<noteq> None \<Longrightarrow> roleRank b \<noteq> None \<Longrightarrow> roleAllows a b \<or> roleAllows b a"
  by (auto simp: roleAllows_def split: option.splits)

lemma requireRole_refuses:
  "(\<forall>role. verifyBearer jwt now header issuer key = Inr role \<longrightarrow> \<not> roleAllows role minRole) \<Longrightarrow>
   snd (requireRole jwt minRole issuer key handler now header s) = s \<and>
   hr_status (fst (requireRole jwt minRole issuer key handler now header s)) \<in> {401, 403}"
  by (auto simp: requireRole_def writeJSONError_def split: sum.splits)

lemma find_filter: "find P xs = (case filter P xs of [] \<Rightarrow> None | r # _ \<Rightarrow> Some r)"
  by (induction xs) auto

lemma GetByUsername_no_faults:
  "pg_faults d = [] \<Longrightarrow> GetByUsername name d = (Inr (map_option scanUser (find (\<lambda>r. us_username r = name) (pg_users d))), d)"
  by (cases "filter (\<lambda>r. us_username r = name) (pg_users d)") (simp_all add: GetByUsername_def sql_select_user_def find_filter)

lemma GetByUsername_rows:
  assumes "GetByUsername name d = (Inr u, d')"
  shows "pg_users d' = pg_users d" and "u = map_option scanUser (find (\<lambda>r. us_username r = name) (pg_users d))"
proof -
  obtain rows where run: "pg_run (sql_select_user name) d = (Inr rows, d')" and u: "u = (case rows of [] \<Rightarrow> None | r # _ \<Rightarrow> Some (scanUser r))"
    using assms by (auto simp: GetByUsername_def split: prod.splits sum.splits list.splits)
  obtain fs where stmt: "sql_select_user name (d\<lparr>pg_faults := fs\<rparr>) = Inr (rows, d')" using run by (rule pg_run_ok)
  then have rows: "rows = filter (\<lambda>r. us_username r = name) (pg_users d)" and d': "d' = d\<lparr>pg_faults := fs\<rparr>"
    by (auto simp: sql_select_user_def)
  show "pg_users d' = pg_users d" by (simp add: d')
  show "u = map_option scanUser (find (\<lambda>r. us_username r = name) (pg_users d))"
    unfolding u rows find_filter by (auto split: list.splits)
qed

context jwt_hs256
begin

text \<open>What verifying a token that was signed gives, and the header that carries it.\<close>

lemma signed_token:
  assumes "signToken jwt role issuer ttl key subject now = Inr tok"
  shows "t < NewNumericDate (now + ttl) \<Longrightarrow> verifyToken jwt t tok issuer key = Inr (role, subject)"
    and "NewNumericDate (now + ttl) \<le> t \<Longrightarrow> \<exists>e. verifyToken jwt t tok issuer key = Inl e"
    and "key' \<noteq> key \<Longrightarrow> \<exists>e. verifyToken jwt t tok issuer key' = Inl e"
    and "issuer' \<noteq> [] \<Longrightarrow> issuer' \<noteq> issuer \<Longrightarrow> \<exists>e. verifyToken jwt t tok issuer' key = Inl e"
    and "tok \<noteq> []"
proof -
  let ?c = "\<lparr>jc_Role = role, jc_Subject = subject, jc_Issuer = issuer, jc_IssuedAt = Some (NewNumericDate now),
     jc_ExpiresAt = Some (NewNumericDate (now + ttl))\<rparr>"
  have role: "roleRank role \<noteq> None" and sign: "jw_Sign jwt ?c key = Inr tok"
    using assms by (auto simp: signToken_def split: if_splits sum.splits)
  show tok: "tok \<noteq> []" using sign sign_nonempty by metis
  have "whole_seconds ?c" by (auto simp: whole_seconds_def NewNumericDate_def)
  from parse_valid [OF sign this, of issuer t] tok role
  show "t < NewNumericDate (now + ttl) \<Longrightarrow> verifyToken jwt t tok issuer key = Inr (role, subject)" by (simp add: verifyToken_def)
  from parse_expired [OF sign, of "NewNumericDate (now + ttl)" t issuer] tok
  show "NewNumericDate (now + ttl) \<le> t \<Longrightarrow> \<exists>e. verifyToken jwt t tok issuer key = Inl e" by (auto simp: verifyToken_def)
  from parse_key [OF sign, of key' t issuer] tok
  show "key' \<noteq> key \<Longrightarrow> \<exists>e. verifyToken jwt t tok issuer key' = Inl e" by (auto simp: verifyToken_def)
  from parse_issuer [OF sign, of issuer' t] tok
  show "issuer' \<noteq> [] \<Longrightarrow> issuer' \<noteq> issuer \<Longrightarrow> \<exists>e. verifyToken jwt t tok issuer' key = Inl e" by (auto simp: verifyToken_def)
qed

lemma signed_bearer:
  assumes "signToken jwt role issuer ttl key subject now = Inr tok"
  shows "t < NewNumericDate (now + ttl) \<Longrightarrow> verifyBearer jwt t (''Bearer '' @ tok) issuer key = Inr role"
    and "NewNumericDate (now + ttl) \<le> t \<Longrightarrow> \<exists>e. verifyBearer jwt t (''Bearer '' @ tok) issuer key = Inl e"
    and "key' \<noteq> key \<Longrightarrow> \<exists>e. verifyBearer jwt t (''Bearer '' @ tok) issuer key' = Inl e"
    and "issuer' \<noteq> [] \<Longrightarrow> issuer' \<noteq> issuer \<Longrightarrow> \<exists>e. verifyBearer jwt t (''Bearer '' @ tok) issuer' key = Inl e"
proof -
  have bearer: "CutPrefix (''Bearer '' @ tok) ''Bearer '' = (tok, True)" by (rule CutPrefix_append)
  have header: "verifyBearer jwt t (''Bearer '' @ tok) iss k =
      (case verifyToken jwt t tok iss k of Inl e \<Rightarrow> Inl e | Inr (role, _) \<Rightarrow> Inr role)" for t iss k
    unfolding verifyBearer_def bearer using signed_token(5) [OF assms] by simp
  note signed = signed_token [OF assms]
  show "t < NewNumericDate (now + ttl) \<Longrightarrow> verifyBearer jwt t (''Bearer '' @ tok) issuer key = Inr role"
    using signed(1) [of t] unfolding header by simp
  show "NewNumericDate (now + ttl) \<le> t \<Longrightarrow> \<exists>e. verifyBearer jwt t (''Bearer '' @ tok) issuer key = Inl e"
    using signed(2) [of t] unfolding header by fastforce
  show "key' \<noteq> key \<Longrightarrow> \<exists>e. verifyBearer jwt t (''Bearer '' @ tok) issuer key' = Inl e"
    using signed(3) [of key' t] unfolding header by fastforce
  show "issuer' \<noteq> [] \<Longrightarrow> issuer' \<noteq> issuer \<Longrightarrow> \<exists>e. verifyBearer jwt t (''Bearer '' @ tok) issuer' key = Inl e"
    using signed(4) [of issuer' t] unfolding header by fastforce
qed

end

lemma login_ok:
  assumes "login jwt bcrypt_ok fmt issuer key ttl b t1 t2 d = (rep, d')" and "hr_status rep = 200"
  obtains req row tok where "unmarshal_loginRequest b = Inr req" "find (\<lambda>r. us_username r = lq_Username req) (pg_users d) = Some row"
    "bcrypt_ok (us_password_hash row) (lq_Password req)" "signToken jwt (us_role row) issuer ttl key (us_username row) t2 = Inr tok"
    "hr_body rep = marshal_loginResponse fmt \<lparr>lr_AccessToken = tok, lr_Role = us_role row, lr_Username = us_username row, lr_ExpiresAt = t1 + ttl\<rparr>"
proof -
  obtain req u v tok where req: "unmarshal_loginRequest b = Inr req" "GetByUsername (lq_Username req) d = (Inr u, d')" "u = Some v"
    and rest: "bcrypt_ok (u_PasswordHash v) (lq_Password req)" "signToken jwt (u_Role v) issuer ttl key (u_Username v) t2 = Inr tok"
      "hr_body rep = marshal_loginResponse fmt \<lparr>lr_AccessToken = tok, lr_Role = u_Role v, lr_Username = u_Username v, lr_ExpiresAt = t1 + ttl\<rparr>"
    using assms unfolding login_def writeJSONError_def Let_def
    by (cases "unmarshal_loginRequest b"; cases "GetByUsername (lq_Username (projr (unmarshal_loginRequest b))) d")
      (auto split: sum.splits if_splits option.splits)
  obtain row where "find (\<lambda>r. us_username r = lq_Username req) (pg_users d) = Some row" "v = scanUser row"
    using GetByUsername_rows(2) [OF req(2)] req(3)
    by (cases "find (\<lambda>r. us_username r = lq_Username req) (pg_users d)") auto
  with req(1) rest that show thesis by (simp add: scanUser_def)
qed

lemma find_append: "find P (xs @ ys) = (case find P xs of None \<Rightarrow> find P ys | Some x \<Rightarrow> Some x)"
  by (induction xs) auto

lemma Users_Create_ok:
  assumes "Users_Create dbNow newID name h role d = (Inr u, d')"
  obtains row where "u = scanUser row" "us_username row = name" "us_password_hash row = h" "us_role row = role"
    "find (\<lambda>r. us_username r = name) (pg_users d') = Some row"
proof -
  obtain row where run: "pg_run (sql_insert_user dbNow newID name h role) d = (Inr row, d')" and u: "u = scanUser row"
    using assms by (auto simp: Users_Create_def split: prod.splits sum.splits)
  obtain fs where stmt: "sql_insert_user dbNow newID name h role (d\<lparr>pg_faults := fs\<rparr>) = Inr (row, d')" using run by (rule pg_run_ok)
  then have fresh: "name \<notin> us_username ` set (pg_users d)" and row: "us_username row = name" "us_password_hash row = h" "us_role row = role"
    and d': "pg_users d' = pg_users d @ [row]"
    by (auto simp: sql_insert_user_def uuid_arg_Inr Let_def split: if_splits)
  have "find (\<lambda>r. us_username r = name) (pg_users d) = None" using fresh by (auto simp: find_None_iff)
  with row d' u that show thesis by (simp add: find_append)
qed

lemma login_row:
  assumes "unmarshal_loginRequest b = Inr \<lparr>lq_Username = name, lq_Password = pw\<rparr>" and "name \<noteq> []" "pw \<noteq> []" "pg_faults d = []"
    and "find (\<lambda>r. us_username r = name) (pg_users d) = Some row" and "bcrypt_ok (us_password_hash row) pw"
    and "signToken jwt (us_role row) issuer ttl key (us_username row) t2 = Inr tok"
  shows "login jwt bcrypt_ok fmt issuer key ttl b t1 t2 d = (\<lparr>hr_status = 200, hr_body = marshal_loginResponse fmt
     \<lparr>lr_AccessToken = tok, lr_Role = us_role row, lr_Username = us_username row, lr_ExpiresAt = t1 + ttl\<rparr>\<rparr>, d)"
proof -
  have "GetByUsername name d = (Inr (Some (scanUser row)), d)" using GetByUsername_no_faults [OF assms(4)] assms(5) by simp
  with assms show ?thesis by (simp add: login_def scanUser_def)
qed

lemma login_refused:
  assumes "unmarshal_loginRequest b = Inr req" and "lq_Username req \<noteq> []" "lq_Password req \<noteq> []" "pg_faults d = []"
    and "\<And>row. find (\<lambda>r. us_username r = lq_Username req) (pg_users d) = Some row \<Longrightarrow> \<not> bcrypt_ok (us_password_hash row) (lq_Password req)"
  shows "login jwt bcrypt_ok fmt issuer key ttl b t1 t2 d = (writeJSONError 401 ''invalid username or password'', d)"
  using assms GetByUsername_no_faults [OF assms(4), of "lq_Username req"]
  by (cases "find (\<lambda>r. us_username r = lq_Username req) (pg_users d)") (simp_all add: login_def scanUser_def)

context jwt_hs256
begin

lemma signed_guard:
  assumes "signToken jwt role issuer ttl key subject now = Inr tok"
  shows "requireRole jwt minRole issuer key handler t (''Bearer '' @ tok) s =
    (if t < NewNumericDate (now + ttl)
     then if roleAllows role minRole then handler role s else (writeJSONError 403 ''insufficient role'', s)
     else (writeJSONError 401 ''invalid or missing bearer token'', s))"
proof (cases "t < NewNumericDate (now + ttl)")
  case True
  then show ?thesis unfolding requireRole_def signed_bearer(1) [OF assms True] by simp
next
  case False
  then obtain e where "verifyBearer jwt t (''Bearer '' @ tok) issuer key = Inl e" using signed_bearer(2) [OF assms, of t] by auto
  with False show ?thesis unfolding requireRole_def by simp
qed

end

section \<open>An implementation of the interface\<close>

text \<open>A token holds its claims and its key as text: every character of a field behind a mark, and a full stop after
  it. Times are written in binary.\<close>

primrec put_field :: "string \<Rightarrow> string" where
  "put_field [] = ''.''"
| "put_field (c # s) = CHR ''x'' # c # put_field s"

fun get_field :: "string \<Rightarrow> string \<times> string" where
  "get_field (m # c # s) = (if m = CHR ''x'' then (let (f, r) = get_field s in (c # f, r)) else ([], c # s))"
| "get_field s = ([], [])"

fun bits :: "nat \<Rightarrow> string" where
  "bits n = (if n = 0 then [] else (if odd n then CHR ''1'' else CHR ''0'') # bits (n div 2))"

declare bits.simps [simp del]

primrec unbits :: "string \<Rightarrow> nat" where
  "unbits [] = 0"
| "unbits (c # s) = (if c = CHR ''1'' then 1 else 0) + 2 * unbits s"

definition put_time :: "time option \<Rightarrow> string" where
  "put_time t = (case t of None \<Rightarrow> [] | Some i \<Rightarrow> (if i < 0 then CHR ''-'' else CHR ''+'') # bits (nat \<bar>i\<bar>))"

definition get_time :: "string \<Rightarrow> time option" where
  "get_time s = (case s of [] \<Rightarrow> None | c # s' \<Rightarrow> Some ((if c = CHR ''-'' then - 1 else 1) * int (unbits s')))"

definition mj_Sign :: "claims \<Rightarrow> string \<Rightarrow> io_error + string" where
  "mj_Sign c key = Inr (concat (map put_field
     [key, jc_Role c, jc_Subject c, jc_Issuer c, put_time (jc_IssuedAt c), put_time (jc_ExpiresAt c)]))"

definition mj_Parse :: "time \<Rightarrow> string \<Rightarrow> string \<Rightarrow> string \<Rightarrow> io_error + claims" where
  "mj_Parse now tok key iss =
     (let (k, r1) = get_field tok; (role, r2) = get_field r1; (sub, r3) = get_field r2; (issuer, r4) = get_field r3;
          (iat, r5) = get_field r4; (ex, _) = get_field r5 in
      if k \<noteq> key then Inl ''signature is invalid''
      else if iss \<noteq> [] \<and> issuer \<noteq> iss then Inl ''token has invalid issuer''
      else if (case get_time ex of None \<Rightarrow> False | Some x \<Rightarrow> x \<le> now) then Inl ''token is expired''
      else Inr \<lparr>jc_Role = role, jc_Subject = sub, jc_Issuer = issuer, jc_IssuedAt = get_time iat, jc_ExpiresAt = get_time ex\<rparr>)"

definition memjwt :: jwtops where
  "memjwt = \<lparr>jw_Sign = mj_Sign, jw_Parse = mj_Parse\<rparr>"

lemma put_field_nonempty [simp]: "put_field s \<noteq> []"
  by (cases s) auto

lemma get_put_field [simp]: "r \<noteq> [] \<Longrightarrow> get_field (put_field s @ r) = (s, r)" "get_field (put_field s) = (s, [])"
proof -
  show "r \<noteq> [] \<Longrightarrow> get_field (put_field s @ r) = (s, r)"
    by (induction s) (auto simp: neq_Nil_conv)
  show "get_field (put_field s) = (s, [])" by (induction s) auto
qed

lemma unbits_bits [simp]: "unbits (bits n) = n"
  by (induction n rule: bits.induct) (subst bits.simps, auto)

lemma get_put_time [simp]: "get_time (put_time t) = t"
  by (auto simp: get_time_def put_time_def split: option.splits)

lemma mj_roundtrip:
  "mj_Sign c key = Inr tok \<Longrightarrow> mj_Parse now tok key' iss =
     (if key \<noteq> key' then Inl ''signature is invalid''
      else if iss \<noteq> [] \<and> jc_Issuer c \<noteq> iss then Inl ''token has invalid issuer''
      else if (case jc_ExpiresAt c of None \<Rightarrow> False | Some x \<Rightarrow> x \<le> now) then Inl ''token is expired'' else Inr c)"
  by (auto simp: mj_Sign_def mj_Parse_def)

interpretation memjwt: jwt_hs256 memjwt
  by unfold_locales (auto simp: memjwt_def mj_roundtrip split: option.splits, simp add: mj_Sign_def)

section \<open>Properties\<close>

definition loginBody :: json where
  "loginBody = JObject [(''username'', JString ''ann''), (''password'', JString ''s3'')]"

lemma login_keys [simp]: "foldName ''username'' = ''username''" "foldName ''password'' = ''password''"
  by code_simp+

lemma loginBody_request: "unmarshal_loginRequest (Some loginBody) = Inr \<lparr>lq_Username = ''ann'', lq_Password = ''s3''\<rparr>"
  by (simp add: unmarshal_loginRequest_def Unmarshal_def loginBody_def set_loginRequest_def field_def)

definition annRow :: UserRow where
  "annRow = \<lparr>us_id = ''u1'', us_username = ''ann'', us_password_hash = ''h-s3'', us_role = ''operator'', us_created_at = 0\<rparr>"

abbreviation plainHash :: "string \<Rightarrow> string \<Rightarrow> bool" where
  "plainHash h p \<equiv> h = ''h-'' @ p"

lemma memjwt_signs: "roleRank role \<noteq> None \<Longrightarrow> \<exists>tok. signToken memjwt role issuer ttl key subject now = Inr tok"
  by (auto simp: signToken_def memjwt_def mj_Sign_def)

text \<open>C32: a login is answered 200 only for a stored account whose password hash matches the password that was sent. The
  token it returns verifies, before the expiry written into it, to the user name and the role of exactly that account, and after it or
  with another key not at all; and it opens exactly the endpoints the stored role may use, before the expiry.
\<close>

theorem login_grants_stored_role:
  assumes "jwt_hs256 jwt" and "login jwt bcrypt_ok fmt issuer key ttl b t1 t2 d = (rep, d')" and "hr_status rep = 200"
  shows "\<exists>req row tok. unmarshal_loginRequest b = Inr req \<and> row \<in> set (pg_users d) \<and> us_username row = lq_Username req \<and>
    bcrypt_ok (us_password_hash row) (lq_Password req) \<and>
    hr_body rep = marshal_loginResponse fmt \<lparr>lr_AccessToken = tok, lr_Role = us_role row, lr_Username = us_username row, lr_ExpiresAt = t1 + ttl\<rparr> \<and>
    (\<forall>t. if t < NewNumericDate (t2 + ttl) then verifyToken jwt t tok issuer key = Inr (us_role row, us_username row)
         else \<exists>e. verifyToken jwt t tok issuer key = Inl e) \<and>
    (\<forall>t key'. key' \<noteq> key \<longrightarrow> (\<exists>e. verifyToken jwt t tok issuer key' = Inl e)) \<and>
    (\<forall>minRole handler t (s :: 's). requireRole jwt minRole issuer key handler t (''Bearer '' @ tok) s =
      (if t < NewNumericDate (t2 + ttl)
       then if roleAllows (us_role row) minRole then handler (us_role row) s else (writeJSONError 403 ''insufficient role'', s)
       else (writeJSONError 401 ''invalid or missing bearer token'', s)))"
proof (rule login_ok [OF assms(2,3)])
  fix req row tok
  assume a: "unmarshal_loginRequest b = Inr req" "find (\<lambda>r. us_username r = lq_Username req) (pg_users d) = Some row"
    "bcrypt_ok (us_password_hash row) (lq_Password req)" "signToken jwt (us_role row) issuer ttl key (us_username row) t2 = Inr tok"
    "hr_body rep = marshal_loginResponse fmt \<lparr>lr_AccessToken = tok, lr_Role = us_role row, lr_Username = us_username row, lr_ExpiresAt = t1 + ttl\<rparr>"
  have row: "row \<in> set (pg_users d)" "us_username row = lq_Username req"
    using a(2) by (auto simp: find_Some_iff)
  note signed = jwt_hs256.signed_token [OF assms(1) a(4)]
  have account: "if t < NewNumericDate (t2 + ttl) then verifyToken jwt t tok issuer key = Inr (us_role row, us_username row)
         else \<exists>e. verifyToken jwt t tok issuer key = Inl e" for t
    using signed(1) [of t] signed(2) [of t] by simp
  have other: "key' \<noteq> key \<longrightarrow> (\<exists>e. verifyToken jwt t tok issuer key' = Inl e)" for t key' using signed(3) by blast
  note guard = jwt_hs256.signed_guard [OF assms(1) a(4)]
  show ?thesis
    by (intro exI [of _ req] exI [of _ row] exI [of _ tok] conjI allI) (fact a row account other guard)+
qed

theorem login_grants_stored_role_witness:
  "\<exists>rep d' tok. login memjwt plainHash (\<lambda>_. []) ''sg'' ''key'' second (Some loginBody) 0 0 (emptyPg\<lparr>pg_users := [annRow]\<rparr>) = (rep, d') \<and>
     hr_status rep = 200 \<and> verifyToken memjwt 5 tok ''sg'' ''key'' = Inr (''operator'', ''ann'') \<and>
     requireRole memjwt roleOperator ''sg'' ''key'' (\<lambda>role n. (writeJSONError 200 role, n + 1)) 5 (''Bearer '' @ tok) (0 :: nat) = (writeJSONError 200 ''operator'', 1)"
proof -
  let ?d = "emptyPg\<lparr>pg_users := [annRow]\<rparr>"
  obtain tok where "signToken memjwt ''operator'' ''sg'' second ''key'' ''ann'' 0 = Inr tok"
    using memjwt_signs [of "''operator''" "''sg''" second "''key''" "''ann''" 0] by (auto simp: roleRank_def role_defs)
  then obtain rep where l: "login memjwt plainHash (\<lambda>_. []) ''sg'' ''key'' second (Some loginBody) 0 0 ?d = (rep, ?d)" and ok: "hr_status rep = 200"
    using login_row [OF loginBody_request, of ?d annRow plainHash memjwt "''sg''" second "''key''" 0 tok "\<lambda>_. []" 0]
    by (simp add: annRow_def emptyPg_def)
  obtain row tok' where "row \<in> set (pg_users ?d)" and
    v: "\<And>t. if t < NewNumericDate (0 + second) then verifyToken memjwt t tok' ''sg'' ''key'' = Inr (us_role row, us_username row)
         else \<exists>e. verifyToken memjwt t tok' ''sg'' ''key'' = Inl e" and
    g: "\<And>minRole handler t (s :: nat). requireRole memjwt minRole ''sg'' ''key'' handler t (''Bearer '' @ tok') s =
      (if t < NewNumericDate (0 + second)
       then if roleAllows (us_role row) minRole then handler (us_role row) s else (writeJSONError 403 ''insufficient role'', s)
       else (writeJSONError 401 ''invalid or missing bearer token'', s))"
    using login_grants_stored_role [OF memjwt.jwt_hs256_axioms l ok, where ?'s = nat] by (elim exE conjE) (rule that; blast)
  then have row: "us_role row = ''operator''" "us_username row = ''ann''" by (simp_all add: annRow_def)
  then have "verifyToken memjwt 5 tok' ''sg'' ''key'' = Inr (''operator'', ''ann'')" using v [of 5] by (simp add: NewNumericDate_def)
  moreover have "requireRole memjwt roleOperator ''sg'' ''key'' (\<lambda>role n. (writeJSONError 200 role, n + 1)) 5 (''Bearer '' @ tok') (0 :: nat) = (writeJSONError 200 ''operator'', 1)"
    unfolding g by (simp add: row NewNumericDate_def roleAllows_def roleRank_def role_defs)
  ultimately show ?thesis using l ok by blast
qed

text \<open>An account made with \<^verbatim>\<open>control user create\<close> can log in: with the password it was made with, and a hash
  that bcrypt accepts for it, the login answers 200 with the role that was asked for and a token for that role; with a
  password the hash does not match, the answer is the same 401 that an unknown user name gets.
\<close>

theorem created_user_logs_in:
  assumes "runUserCLI dbNow newID hash name role pw d = (Inr u, d')" and "pg_faults d' = []" and "\<And>h. hash pw = Inr h \<Longrightarrow> bcrypt_ok h pw"
    and "signToken jwt role issuer ttl key name t2 = Inr tok"
    and "unmarshal_loginRequest b = Inr \<lparr>lq_Username = name, lq_Password = pw'\<rparr>" and "pw' \<noteq> []"
  shows "login jwt bcrypt_ok fmt issuer key ttl b t1 t2 d' =
    (if pw' = pw \<or> bcrypt_ok (projr (hash pw)) pw'
     then \<lparr>hr_status = 200, hr_body = marshal_loginResponse fmt \<lparr>lr_AccessToken = tok, lr_Role = role, lr_Username = name, lr_ExpiresAt = t1 + ttl\<rparr>\<rparr>
     else writeJSONError 401 ''invalid username or password'', d')"
proof -
  obtain h where h: "hash pw = Inr h" and create: "Users_Create dbNow newID name h role d = (Inr u, d')" and "name \<noteq> []"
    using assms(1) by (auto simp: runUserCLI_def split: if_splits sum.splits prod.splits)
  obtain row where row: "us_username row = name" "us_password_hash row = h" "us_role row = role"
    "find (\<lambda>r. us_username r = name) (pg_users d') = Some row"
    using create by (rule Users_Create_ok)
  note b = assms(5) \<open>name \<noteq> []\<close> assms(6) assms(2)
  show ?thesis
  proof (cases "bcrypt_ok h pw'")
    case True
    with login_row [OF b, of row bcrypt_ok jwt issuer ttl key t2 tok fmt t1] row assms(4) h show ?thesis by simp
  next
    case False
    with assms(3) h have "pw' \<noteq> pw" by auto
    with False login_refused [OF assms(5), of d' bcrypt_ok jwt fmt issuer key ttl t1 t2] b row h show ?thesis by simp
  qed
qed

theorem created_user_logs_in_witness:
  "\<exists>u d' tok. runUserCLI 0 ''u1'' (\<lambda>p. Inr (''h-'' @ p)) ''ann'' ''admin'' ''s3'' (emptyPg\<lparr>pg_uuid := Some\<rparr>) = (Inr u, d') \<and>
     login memjwt plainHash (\<lambda>_. []) ''sg'' ''key'' second (Some loginBody) 0 0 d' =
       (\<lparr>hr_status = 200, hr_body = marshal_loginResponse (\<lambda>_. []) \<lparr>lr_AccessToken = tok, lr_Role = ''admin'', lr_Username = ''ann'', lr_ExpiresAt = second\<rparr>\<rparr>, d')"
proof -
  obtain tok where tok: "signToken memjwt ''admin'' ''sg'' second ''key'' ''ann'' 0 = Inr tok"
    using memjwt_signs [of "''admin''" "''sg''" second "''key''" "''ann''" 0] by (auto simp: roleRank_def role_defs)
  obtain u d' where c: "runUserCLI 0 ''u1'' (\<lambda>p. Inr (''h-'' @ p)) ''ann'' ''admin'' ''s3'' (emptyPg\<lparr>pg_uuid := Some\<rparr>) = (Inr u, d')" and "pg_faults d' = []"
    by (simp add: runUserCLI_def roleRank_def role_defs Users_Create_def sql_insert_user_def uuid_arg_def emptyPg_def Let_def)
  with created_user_logs_in [OF c _ _ tok loginBody_request, of plainHash "\<lambda>_. []" 0] show ?thesis by auto
qed

end
