(* ===== verification/Rollout.thy ===== *)
theory Rollout
  imports Shadow
begin

unbundle bit_operations_syntax

text \<open>
  The data of \<^verbatim>\<open>internal/rollout\<close>: cohorts, stages and health criteria
  (\<^verbatim>\<open>types.go\<close>), which devices a stage includes (\<^verbatim>\<open>cohort.go\<close>), when a stage is
  unhealthy (\<^verbatim>\<open>health.go\<close>), what a rollout must satisfy to be created (\<^verbatim>\<open>validate\<close>
  in \<^verbatim>\<open>engine.go\<close>), and the JSON the store keeps of them.
\<close>

section \<open>Types\<close>

record Cohort =
  co_DeviceType :: string
  co_DeviceIDs :: "string list option"

record Stage =
  sg_Percent :: int
  sg_BakeDuration :: duration

record HealthCriteria =
  hc_MaxErrorRate :: real
  hc_MaxDisconnectRate :: real
  hc_MaxRejectionRate :: real

definition Running :: string where "Running = ''running''"
definition Paused :: string where "Paused = ''paused''"
definition Completed :: string where "Completed = ''completed''"
definition Aborted :: string where "Aborted = ''aborted''"

lemmas rollout_states = Running_def Paused_def Completed_def Aborted_def

record Rollout =
  ro_ID :: string
  ro_Name :: string
  ro_Cohort :: Cohort
  ro_DesiredConfig :: Desired
  ro_Stages :: "Stage list option"
  ro_HealthCriteria :: HealthCriteria
  ro_State :: string
  ro_CurrentStageIndex :: int
  ro_CurrentStageStartedAt :: time
  ro_CreatedAt :: time
  ro_UpdatedAt :: time

definition EventStageStarted :: string where "EventStageStarted = ''stage_started''"
definition EventStageAdvanced :: string where "EventStageAdvanced = ''stage_advanced''"
definition EventHealthBreached :: string where "EventHealthBreached = ''health_breached''"
definition EventPaused :: string where "EventPaused = ''paused''"
definition EventResumed :: string where "EventResumed = ''resumed''"
definition EventCompleted :: string where "EventCompleted = ''completed''"
definition EventAborted :: string where "EventAborted = ''aborted''"

record RolloutEvent =
  re_SchemaVersion :: string
  re_RolloutID :: string
  re_Type :: string
  re_StageIndex :: int
  re_Detail :: "(string \<times> json) list option"
  re_TimestampMS :: int

text \<open>\<^verbatim>\<open>r.Stages\<close> as a list: nil and empty are alike to the code.\<close>

abbreviation stages_of :: "Rollout \<Rightarrow> Stage list" where
  "stages_of r \<equiv> (case ro_Stages r of None \<Rightarrow> [] | Some s \<Rightarrow> s)"

section \<open>Cohorts\<close>

definition SelectCohort :: "Device list \<Rightarrow> Cohort \<Rightarrow> string list" where
  "SelectCohort all c =
     (case co_DeviceIDs c of
        Some (i # is) \<Rightarrow> i # is
      | _ \<Rightarrow> map de_ID (filter (\<lambda>d. co_DeviceType c = [] \<or> de_Type d = co_DeviceType c) all))"

text \<open>\<^verbatim>\<open>hash/fnv\<close>: FNV-1a on 32 bits.\<close>

definition fnv32a_step :: "u32 \<Rightarrow> char \<Rightarrow> u32" where
  "fnv32a_step h c = (h XOR of_nat (of_char c)) * 16777619"

definition fnv32a :: "string \<Rightarrow> u32" where
  "fnv32a s = foldl fnv32a_step 2166136261 s"

definition bucket :: "string \<Rightarrow> int" where
  "bucket deviceID = uint (fnv32a deviceID mod 100)"

definition StageTargets :: "string list \<Rightarrow> int \<Rightarrow> string list" where
  "StageTargets cohortDeviceIDs percent0 =
     (if percent0 \<le> 0 then []
      else let percent = (if percent0 > 100 then 100 else percent0)
           in filter (\<lambda>i. bucket i < percent) cohortDeviceIDs)"

section \<open>Health\<close>

text \<open>\<open>fmt\<close> stands for \<^verbatim>\<open>fmt.Sprintf\<close> with the format of the reason: label, rate, maximum,
  count and number of targets.\<close>

type_synonym reason_format = "string \<Rightarrow> real \<Rightarrow> real \<Rightarrow> int \<Rightarrow> int \<Rightarrow> string"

definition health_check :: "reason_format \<Rightarrow> int \<Rightarrow> int \<Rightarrow> real \<Rightarrow> string \<Rightarrow> bool \<times> string list \<Rightarrow> bool \<times> string list" where
  "health_check fmt targeted count max' label acc =
     (let rate = real_of_int count / real_of_int targeted in
      if max' > 0 \<and> rate > max' then (True, snd acc @ [fmt label rate max' count targeted]) else acc)"

definition EvaluateHealth :: "reason_format \<Rightarrow> HealthCriteria \<Rightarrow> int \<Rightarrow> int \<Rightarrow> int \<Rightarrow> int \<Rightarrow> bool \<times> string list" where
  "EvaluateHealth fmt criteria targeted rejected disconnected errored =
     (if targeted = 0 then (False, [])
      else health_check fmt targeted errored (hc_MaxErrorRate criteria) ''error''
            (health_check fmt targeted disconnected (hc_MaxDisconnectRate criteria) ''disconnect''
              (health_check fmt targeted rejected (hc_MaxRejectionRate criteria) ''rejection'' (False, []))))"

section \<open>Validation\<close>

datatype validate_rollout_error = NameRequired | StageRequired | BadPercent nat int int

fun validateStages :: "nat \<Rightarrow> int \<Rightarrow> Stage list \<Rightarrow> validate_rollout_error option" where
  "validateStages i prev [] = None"
| "validateStages i prev (s # ss) =
     (if sg_Percent s \<le> prev \<or> sg_Percent s > 100 then Some (BadPercent i (sg_Percent s) prev)
      else validateStages (i + 1) (sg_Percent s) ss)"

definition validateRollout :: "Rollout \<Rightarrow> validate_rollout_error option" where
  "validateRollout r =
     (if ro_Name r = [] then Some NameRequired
      else if stages_of r = [] then Some StageRequired
      else validateStages 0 0 (stages_of r))"

section \<open>JSON\<close>

definition marshal_Cohort :: "Cohort \<Rightarrow> json" where
  "marshal_Cohort c = JObject (
     omit_if (co_DeviceType c = []) ''device_type'' (JString (co_DeviceType c))
     @ omit_list ''device_ids'' enc_strings (co_DeviceIDs c))"

definition zeroCohort :: Cohort where "zeroCohort = \<lparr>co_DeviceType = [], co_DeviceIDs = None\<rparr>"

definition set_Cohort :: "string \<Rightarrow> Cohort decoder" where
  "set_Cohort k =
     (if k = ''device_type'' then field dec_string co_DeviceType (\<lambda>v c. c\<lparr>co_DeviceType := v\<rparr>)
      else if k = ''device_ids'' then field (dec_slice dec_string []) co_DeviceIDs (\<lambda>v c. c\<lparr>co_DeviceIDs := v\<rparr>)
      else (\<lambda>_ c. Inr c))"

definition unmarshal_Cohort :: "body \<Rightarrow> json_error + Cohort" where
  "unmarshal_Cohort = Unmarshal (dec_struct set_Cohort) zeroCohort"

definition marshal_Stage :: "Stage \<Rightarrow> json" where
  "marshal_Stage s = JObject [(''percent'', JInt (sg_Percent s)), (''bake_duration'', JInt (sg_BakeDuration s))]"

definition zeroStage :: Stage where "zeroStage = \<lparr>sg_Percent = 0, sg_BakeDuration = 0\<rparr>"

definition set_Stage :: "string \<Rightarrow> Stage decoder" where
  "set_Stage k =
     (if k = ''percent'' then field dec_int sg_Percent (\<lambda>v s. s\<lparr>sg_Percent := v\<rparr>)
      else if k = ''bake_duration'' then field dec_int sg_BakeDuration (\<lambda>v s. s\<lparr>sg_BakeDuration := v\<rparr>)
      else (\<lambda>_ s. Inr s))"

definition marshal_Stages :: "Stage list option \<Rightarrow> json" where
  "marshal_Stages ss = (case ss of None \<Rightarrow> JNull | Some xs \<Rightarrow> JArray (map marshal_Stage xs))"

definition unmarshal_Stages :: "body \<Rightarrow> json_error + Stage list option" where
  "unmarshal_Stages = Unmarshal (dec_slice (dec_struct set_Stage) zeroStage) None"

definition marshal_HealthCriteria :: "HealthCriteria \<Rightarrow> json" where
  "marshal_HealthCriteria h = JObject [(''max_error_rate'', enc_float (hc_MaxErrorRate h)),
     (''max_disconnect_rate'', enc_float (hc_MaxDisconnectRate h)),
     (''max_rejection_rate'', enc_float (hc_MaxRejectionRate h))]"

definition zeroHealth :: HealthCriteria where
  "zeroHealth = \<lparr>hc_MaxErrorRate = 0, hc_MaxDisconnectRate = 0, hc_MaxRejectionRate = 0\<rparr>"

definition set_HealthCriteria :: "string \<Rightarrow> HealthCriteria decoder" where
  "set_HealthCriteria k =
     (if k = ''max_error_rate'' then field dec_float hc_MaxErrorRate (\<lambda>v h. h\<lparr>hc_MaxErrorRate := v\<rparr>)
      else if k = ''max_disconnect_rate'' then field dec_float hc_MaxDisconnectRate (\<lambda>v h. h\<lparr>hc_MaxDisconnectRate := v\<rparr>)
      else if k = ''max_rejection_rate'' then field dec_float hc_MaxRejectionRate (\<lambda>v h. h\<lparr>hc_MaxRejectionRate := v\<rparr>)
      else (\<lambda>_ h. Inr h))"

definition unmarshal_HealthCriteria :: "body \<Rightarrow> json_error + HealthCriteria" where
  "unmarshal_HealthCriteria = Unmarshal (dec_struct set_HealthCriteria) zeroHealth"

section \<open>Lemmas\<close>

lemma bucket_range: "0 \<le> bucket i \<and> bucket i < 100"
  by (simp add: bucket_def uint_mod)

lemma StageTargets_clamp:
  "StageTargets ids p = filter (\<lambda>i. bucket i < p) ids"
proof -
  have "\<not> bucket i < p" if "p \<le> 0" for i using that bucket_range [of i] by simp
  moreover have "(bucket i < 100) = (bucket i < p)" if "100 < p" for i using that bucket_range [of i] by simp
  ultimately show ?thesis by (simp add: StageTargets_def)
qed

lemma validateStages_None:
  "validateStages i prev ss = None \<longleftrightarrow>
     sorted_wrt (<) (map sg_Percent ss) \<and> (\<forall>s \<in> set ss. prev < sg_Percent s \<and> sg_Percent s \<le> 100)"
  by (induction ss arbitrary: i prev) force+

lemma rollout_tags [simp]:
  "foldName ''device_type'' = ''device_type''"
  "foldName ''device_ids'' = ''device_ids''"
  "foldName ''percent'' = ''percent''"
  "foldName ''bake_duration'' = ''bake_duration''"
  "foldName ''max_error_rate'' = ''max_error_rate''"
  "foldName ''max_disconnect_rate'' = ''max_disconnect_rate''"
  "foldName ''max_rejection_rate'' = ''max_rejection_rate''"
  by code_simp+

definition stage_ok :: "Stage \<Rightarrow> bool" where
  "stage_ok s \<longleftrightarrow> int64_ok (sg_Percent s) \<and> int64_ok (sg_BakeDuration s)"

lemma Cohort_roundtrip:
  "unmarshal_Cohort (Some (marshal_Cohort c)) = Inr (c\<lparr>co_DeviceIDs := drop_empty (co_DeviceIDs c)\<rparr>)"
proof -
  have t: "dec_members set_Cohort (omit_if (v = []) ''device_type'' (JString v)) x = Inr (x\<lparr>co_DeviceType := v\<rparr>)"
    if "co_DeviceType x = []" for v x
    using that by (auto simp: omit_if_def set_Cohort_def field_def)
  have i: "dec_members set_Cohort (omit_list ''device_ids'' enc_strings v) x = Inr (x\<lparr>co_DeviceIDs := drop_empty v\<rparr>)"
    if "co_DeviceIDs x = None" for v x
    using that by (intro dec_omit_list [where put = "\<lambda>v x. x\<lparr>co_DeviceIDs := v\<rparr>"])
      (auto simp: set_Cohort_def dec_strings_enc)
  show ?thesis
    unfolding unmarshal_Cohort_def marshal_Cohort_def
    by (rule dec_struct_object) (simp add: dec_members_append zeroCohort_def t i)
qed

lemma dec_Stage_enc: "stage_ok s \<Longrightarrow> dec_struct set_Stage (marshal_Stage s) cur = Inr s"
  by (simp add: marshal_Stage_def set_Stage_def field_def stage_ok_def dec_int_ok del: dec_int.simps)

lemma Stages_roundtrip:
  assumes "\<And>xs. ss = Some xs \<Longrightarrow> list_all stage_ok xs"
  shows "unmarshal_Stages (Some (marshal_Stages ss)) = Inr ss"
proof -
  have "dec_elems (dec_struct set_Stage) zeroStage (map marshal_Stage xs) cur = Inr xs" if "list_all stage_ok xs" for xs cur
    using that by (induction xs arbitrary: cur) (auto simp: dec_Stage_enc)
  with assms show ?thesis
    by (simp add: unmarshal_Stages_def Unmarshal_def marshal_Stages_def split: option.splits)
qed

lemma HealthCriteria_roundtrip: "unmarshal_HealthCriteria (Some (marshal_HealthCriteria h)) = Inr h"
  by (simp add: unmarshal_HealthCriteria_def marshal_HealthCriteria_def Unmarshal_def set_HealthCriteria_def field_def)

section \<open>Properties\<close>

text \<open>Stage membership only grows. A device in a stage of some percentage is in every later stage of a
  larger percentage, order and multiplicity included; stage 100 is the whole cohort; and membership of a
  device depends on its id alone, not on the rest of the cohort.\<close>

theorem stage_membership_grows:
  assumes "p \<le> q"
  shows "StageTargets ids p = filter (\<lambda>i. i \<in> set (StageTargets ids p)) (StageTargets ids q) \<and>
    set (StageTargets ids p) \<subseteq> set (StageTargets ids q) \<and>
    StageTargets ids 100 = ids \<and>
    (i \<in> set (StageTargets ids p) \<longleftrightarrow> i \<in> set ids \<and> StageTargets [i] p = [i])"
  using assms bucket_range
  by (auto simp: StageTargets_clamp intro!: filter_cong)

theorem stage_membership_grows_witness:
  "set (StageTargets [''d1'', ''d2'', ''d3''] 10) \<subseteq> set (StageTargets [''d1'', ''d2'', ''d3''] 50)"
  using stage_membership_grows [of 10 50 "[''d1'', ''d2'', ''d3'']" "''d1''"] by simp

text \<open>A rollout that passes validation has a name and at least one stage, and its stages' percentages
  are strictly increasing between 1 and 100, so each stage can only add devices.\<close>

theorem validate_rollout_exact:
  "validateRollout r = None \<longleftrightarrow>
     ro_Name r \<noteq> [] \<and> stages_of r \<noteq> [] \<and> sorted_wrt (<) (map sg_Percent (stages_of r)) \<and>
     (\<forall>s \<in> set (stages_of r). 1 \<le> sg_Percent s \<and> sg_Percent s \<le> 100)"
  by (auto simp: validateRollout_def validateStages_None)

theorem validate_rollout_exact_witness:
  "validateRollout \<lparr>ro_ID = ''r1'', ro_Name = ''fw'', ro_Cohort = zeroCohort, ro_DesiredConfig = zeroDesired,
     ro_Stages = Some [\<lparr>sg_Percent = 10, sg_BakeDuration = 60\<rparr>, \<lparr>sg_Percent = 100, sg_BakeDuration = 0\<rparr>],
     ro_HealthCriteria = zeroHealth, ro_State = ''running'', ro_CurrentStageIndex = 0, ro_CurrentStageStartedAt = 0,
     ro_CreatedAt = 0, ro_UpdatedAt = 0\<rparr> = None"
  by (simp add: validate_rollout_exact)

text \<open>A stage is breached exactly when it has targets and one of the three rates exceeds its maximum,
  where a maximum that is not positive switches that check off; and a breach always comes with a reason.\<close>

theorem health_breach_exact:
  "(fst (EvaluateHealth fmt c n rj dc er) \<longleftrightarrow>
      n \<noteq> 0 \<and> (hc_MaxRejectionRate c > 0 \<and> real_of_int rj / real_of_int n > hc_MaxRejectionRate c \<or>
        hc_MaxDisconnectRate c > 0 \<and> real_of_int dc / real_of_int n > hc_MaxDisconnectRate c \<or>
        hc_MaxErrorRate c > 0 \<and> real_of_int er / real_of_int n > hc_MaxErrorRate c)) \<and>
   (fst (EvaluateHealth fmt c n rj dc er) \<longleftrightarrow> snd (EvaluateHealth fmt c n rj dc er) \<noteq> [])"
  by (simp add: EvaluateHealth_def health_check_def Let_def)

end
