(* ===== verification/RolloutStore.thy ===== *)
theory RolloutStore
  imports Rollout
begin

text \<open>
  \<^verbatim>\<open>internal/rollout/store.go\<close>: rollouts and their targets in Postgres, the SQL translated
  statement by statement. The locale \<open>rollout_store\<close> is the part of the Go interface
  \<^verbatim>\<open>RolloutStore\<close> the engine's guarantees rest on; the Postgres store is its interpretation.
\<close>

section \<open>Model\<close>

record Target =
  ta_DeviceID :: string
  ta_IncludedAtStage :: int
  ta_PreDesired :: "Desired option"
  ta_PreRevision :: u64
  ta_PushedRevision :: u64

definition int4_ok :: "int \<Rightarrow> bool" where
  "int4_ok i \<longleftrightarrow> - (2 ^ 31) \<le> i \<and> i < 2 ^ 31"

definition sql_insert_rollout :: "time \<Rightarrow> Rollout \<Rightarrow> unit statement" where
  "sql_insert_rollout dbNow r d =
     uuid_arg d (ro_ID r) (\<lambda>u.
       if \<not> int4_ok (ro_CurrentStageIndex r) then Inl (PgArg ''current_stage_index'')
       else if u \<in> rr_id ` set (pg_rollouts d) then Inl unique_violation
       else Inr ((), d\<lparr>pg_rollouts := pg_rollouts d @
         [\<lparr>rr_id = u, rr_name = ro_Name r, rr_cohort = marshal_Cohort (ro_Cohort r),
           rr_desired_config = marshal_Desired (ro_DesiredConfig r), rr_stages = marshal_Stages (ro_Stages r),
           rr_health_criteria = marshal_HealthCriteria (ro_HealthCriteria r), rr_state = ro_State r,
           rr_current_stage_index = ro_CurrentStageIndex r,
           rr_current_stage_started_at = pg_ts (ro_CurrentStageStartedAt r),
           rr_created_at = pg_ts dbNow, rr_updated_at = pg_ts dbNow\<rparr>]\<rparr>))"

definition Rollouts_Create :: "time \<Rightarrow> Rollout \<Rightarrow> pg \<Rightarrow> pg_error option \<times> pg" where
  "Rollouts_Create dbNow r d = pg_exec (sql_insert_rollout dbNow r) d"

definition scanRollout :: "RolloutRow \<Rightarrow> pg_error + Rollout" where
  "scanRollout row =
     (case unmarshal_Cohort (Some (rr_cohort row)) of
        Inl e \<Rightarrow> Inl (PgScan e)
      | Inr cohort \<Rightarrow>
          (case unmarshal_Desired (Some (rr_desired_config row)) of
             Inl e \<Rightarrow> Inl (PgScan e)
           | Inr desired \<Rightarrow>
               (case unmarshal_Stages (Some (rr_stages row)) of
                  Inl e \<Rightarrow> Inl (PgScan e)
                | Inr stages \<Rightarrow>
                    (case unmarshal_HealthCriteria (Some (rr_health_criteria row)) of
                       Inl e \<Rightarrow> Inl (PgScan e)
                     | Inr criteria \<Rightarrow>
                         Inr \<lparr>ro_ID = rr_id row, ro_Name = rr_name row, ro_Cohort = cohort,
                           ro_DesiredConfig = desired, ro_Stages = stages, ro_HealthCriteria = criteria,
                           ro_State = rr_state row, ro_CurrentStageIndex = rr_current_stage_index row,
                           ro_CurrentStageStartedAt = rr_current_stage_started_at row,
                           ro_CreatedAt = rr_created_at row, ro_UpdatedAt = rr_updated_at row\<rparr>))))"

definition sql_get_rollout :: "string \<Rightarrow> RolloutRow list statement" where
  "sql_get_rollout id' d = uuid_arg d id' (\<lambda>u. Inr (filter (\<lambda>r. rr_id r = u) (pg_rollouts d), d))"

definition Rollouts_Get :: "string \<Rightarrow> pg \<Rightarrow> (pg_error + Rollout option) \<times> pg" where
  "Rollouts_Get id' d =
     (case pg_run (sql_get_rollout id') d of
        (Inl e, d') \<Rightarrow> (Inl e, d')
      | (Inr [], d') \<Rightarrow> (Inr None, d')
      | (Inr (r # _), d') \<Rightarrow> (case scanRollout r of Inl e \<Rightarrow> (Inl e, d') | Inr v \<Rightarrow> (Inr (Some v), d')))"

definition sql_list_rollouts :: "RolloutRow list statement" where
  "sql_list_rollouts d = Inr (sort_key (\<lambda>r. - rr_created_at r) (pg_rollouts d), d)"

definition sql_list_non_terminal :: "RolloutRow list statement" where
  "sql_list_non_terminal d =
     Inr (sort_key rr_created_at (filter (\<lambda>r. rr_state r \<in> {''running'', ''paused''}) (pg_rollouts d)), d)"

definition rollouts_query :: "RolloutRow list statement \<Rightarrow> pg \<Rightarrow> (pg_error + Rollout list) \<times> pg" where
  "rollouts_query sql d =
     (case pg_run sql d of (Inl e, d') \<Rightarrow> (Inl e, d') | (Inr rows, d') \<Rightarrow> (scanAll scanRollout rows, d'))"

definition Rollouts_List :: "pg \<Rightarrow> (pg_error + Rollout list) \<times> pg" where
  "Rollouts_List d = rollouts_query sql_list_rollouts d"

definition ListNonTerminal :: "pg \<Rightarrow> (pg_error + Rollout list) \<times> pg" where
  "ListNonTerminal d = rollouts_query sql_list_non_terminal d"

definition sql_update_state :: "time \<Rightarrow> string \<Rightarrow> string \<Rightarrow> unit statement" where
  "sql_update_state dbNow id' state d =
     uuid_arg d id' (\<lambda>u. Inr ((), d\<lparr>pg_rollouts :=
       map (\<lambda>r. if rr_id r = u then r\<lparr>rr_state := state, rr_updated_at := pg_ts dbNow\<rparr> else r) (pg_rollouts d)\<rparr>))"

definition UpdateState :: "time \<Rightarrow> string \<Rightarrow> string \<Rightarrow> pg \<Rightarrow> pg_error option \<times> pg" where
  "UpdateState dbNow id' state d = pg_exec (sql_update_state dbNow id' state) d"

definition sql_advance_stage :: "time \<Rightarrow> string \<Rightarrow> int \<Rightarrow> time \<Rightarrow> unit statement" where
  "sql_advance_stage dbNow id' stageIndex startedAt d =
     uuid_arg d id' (\<lambda>u.
       if \<not> int4_ok stageIndex then Inl (PgArg ''current_stage_index'')
       else Inr ((), d\<lparr>pg_rollouts :=
         map (\<lambda>r. if rr_id r = u then r\<lparr>rr_current_stage_index := stageIndex,
           rr_current_stage_started_at := pg_ts startedAt, rr_updated_at := pg_ts dbNow\<rparr> else r) (pg_rollouts d)\<rparr>))"

definition AdvanceStage :: "time \<Rightarrow> string \<Rightarrow> int \<Rightarrow> time \<Rightarrow> pg \<Rightarrow> pg_error option \<times> pg" where
  "AdvanceStage dbNow id' stageIndex startedAt d = pg_exec (sql_advance_stage dbNow id' stageIndex startedAt) d"

definition sql_insert_target :: "string \<Rightarrow> Target \<Rightarrow> unit statement" where
  "sql_insert_target rolloutID t d =
     uuid_arg d rolloutID (\<lambda>rid. uuid_arg d (ta_DeviceID t) (\<lambda>dev.
       if uint (ta_PreRevision t) \<ge> 2 ^ 63 \<or> uint (ta_PushedRevision t) \<ge> 2 ^ 63 \<or> \<not> int4_ok (ta_IncludedAtStage t)
       then Inl (PgArg ''rollout_targets'')
       else if list_ex (\<lambda>r. tr_rollout_id r = rid \<and> tr_device_id r = dev) (pg_rollout_targets d) then Inr ((), d)
       else if rid \<notin> rr_id ` set (pg_rollouts d) \<or> \<not> device_exists d dev then Inl foreign_key_violation
       else Inr ((), d\<lparr>pg_rollout_targets := pg_rollout_targets d @
         [\<lparr>tr_rollout_id = rid, tr_device_id = dev, tr_included_at_stage = ta_IncludedAtStage t,
           tr_pre_rollout_desired = map_option marshal_Desired (ta_PreDesired t),
           tr_pre_rollout_revision = uint (ta_PreRevision t), tr_pushed_revision = uint (ta_PushedRevision t)\<rparr>]\<rparr>)))"

definition RecordTarget :: "string \<Rightarrow> Target \<Rightarrow> pg \<Rightarrow> pg_error option \<times> pg" where
  "RecordTarget rolloutID t d = pg_exec (sql_insert_target rolloutID t) d"

definition scanTarget :: "TargetRow \<Rightarrow> pg_error + Target" where
  "scanTarget r =
     (let t = \<lparr>ta_DeviceID = tr_device_id r, ta_IncludedAtStage = tr_included_at_stage r, ta_PreDesired = None,
               ta_PreRevision = word_of_int (tr_pre_rollout_revision r),
               ta_PushedRevision = word_of_int (tr_pushed_revision r)\<rparr> in
      case tr_pre_rollout_desired r of
        None \<Rightarrow> Inr t
      | Some j \<Rightarrow> (case unmarshal_Desired (Some j) of
                     Inl e \<Rightarrow> Inl (PgScan e) | Inr pre \<Rightarrow> Inr (t\<lparr>ta_PreDesired := Some pre\<rparr>)))"

definition sql_list_targets :: "string \<Rightarrow> TargetRow list statement" where
  "sql_list_targets rolloutID d =
     uuid_arg d rolloutID (\<lambda>u. Inr (filter (\<lambda>r. tr_rollout_id r = u) (pg_rollout_targets d), d))"

definition ListTargets :: "string \<Rightarrow> pg \<Rightarrow> (pg_error + Target list) \<times> pg" where
  "ListTargets rolloutID d =
     (case pg_run (sql_list_targets rolloutID) d of
        (Inl e, d') \<Rightarrow> (Inl e, d') | (Inr rows, d') \<Rightarrow> (scanAll scanTarget rows, d'))"

section \<open>Interface\<close>

text \<open>The targets recorded for a rollout, as a listing returns them.\<close>

definition targetView :: "TargetRow \<Rightarrow> Target" where
  "targetView r =
     \<lparr>ta_DeviceID = tr_device_id r, ta_IncludedAtStage = tr_included_at_stage r,
      ta_PreDesired = (case tr_pre_rollout_desired r of None \<Rightarrow> None
        | Some j \<Rightarrow> (case unmarshal_Desired (Some j) of Inl _ \<Rightarrow> None | Inr d \<Rightarrow> Some d)),
      ta_PreRevision = word_of_int (tr_pre_rollout_revision r), ta_PushedRevision = word_of_int (tr_pushed_revision r)\<rparr>"

definition pg_targets :: "pg \<Rightarrow> string \<Rightarrow> Target list" where
  "pg_targets d rid = map targetView (filter (\<lambda>r. tr_rollout_id r = rid) (pg_rollout_targets d))"

definition canonical :: "pg \<Rightarrow> string \<Rightarrow> bool" where
  "canonical d s \<longleftrightarrow> pg_uuid d s = Some s"

definition normT :: "Target \<Rightarrow> Target" where
  "normT t = t\<lparr>ta_PreDesired := map_option (\<lambda>d. d\<lparr>d_EnabledSensors := drop_empty (d_EnabledSensors d)\<rparr>) (ta_PreDesired t)\<rparr>"

definition target_ok :: "Target \<Rightarrow> bool" where
  "target_ok t \<longleftrightarrow> pred_option desired_ok (ta_PreDesired t)"

text \<open>
  What the engine relies on: the first record of a device for a rollout is kept and listed, a second one
  is ignored, a failed record did that or nothing, and no other call touches the targets.
\<close>

locale rollout_store =
  fixes Cre :: "time \<Rightarrow> Rollout \<Rightarrow> 's \<Rightarrow> 'e option \<times> 's"
    and Upd :: "time \<Rightarrow> string \<Rightarrow> string \<Rightarrow> 's \<Rightarrow> 'e option \<times> 's"
    and Adv :: "time \<Rightarrow> string \<Rightarrow> int \<Rightarrow> time \<Rightarrow> 's \<Rightarrow> 'e option \<times> 's"
    and Rec :: "string \<Rightarrow> Target \<Rightarrow> 's \<Rightarrow> 'e option \<times> 's"
    and Lst :: "string \<Rightarrow> 's \<Rightarrow> ('e + Target list) \<times> 's"
    and tgts :: "'s \<Rightarrow> string \<Rightarrow> Target list"
    and canon :: "'s \<Rightarrow> string \<Rightarrow> bool"
  assumes list_ok: "Lst rid s = (Inr ts, s') \<Longrightarrow> canon s rid \<Longrightarrow> ts = tgts s rid"
    and list_state: "tgts (snd (Lst rid s)) = tgts s"
    and record_step: "Rec rid t s = (r, s') \<Longrightarrow> target_ok t \<Longrightarrow> canon s rid \<Longrightarrow> canon s (ta_DeviceID t) \<Longrightarrow>
      tgts s' = tgts s \<and> (r = None \<longrightarrow> ta_DeviceID t \<in> ta_DeviceID ` set (tgts s rid)) \<or>
      tgts s' = (tgts s)(rid := tgts s rid @ [normT t]) \<and> ta_DeviceID t \<notin> ta_DeviceID ` set (tgts s rid)"
    and create_state: "tgts (snd (Cre n ro s)) = tgts s"
    and update_state: "tgts (snd (Upd n rid st s)) = tgts s"
    and advance_state: "tgts (snd (Adv n rid i t' s)) = tgts s"
    and canon_state: "canon (snd (Lst rid s)) = canon s" "canon (snd (Rec rid t s)) = canon s"
      "canon (snd (Cre n ro s)) = canon s" "canon (snd (Upd n rid st s)) = canon s"
      "canon (snd (Adv n rid i t' s)) = canon s"
begin

lemma first_record_wins:
  assumes "target_ok t" and "target_ok u" and "canon s rid" and "canon s (ta_DeviceID t)"
    and "ta_DeviceID u = ta_DeviceID t" and "ta_DeviceID t \<notin> ta_DeviceID ` set (tgts s rid)"
    and "Rec rid t s = (None, s1)" and "Rec rid u s1 = (r, s2)"
  shows "tgts s2 rid = tgts s rid @ [normT t]"
proof -
  have 1: "tgts s1 = (tgts s)(rid := tgts s rid @ [normT t])"
    using record_step [OF assms(7,1,3,4)] assms(6) by auto
  have c: "canon s1 = canon s" using canon_state(2) [of rid t s] assms(7) by simp
  have "ta_DeviceID (normT t) = ta_DeviceID t" by (simp add: normT_def)
  then have "tgts s2 = tgts s1"
    using record_step [OF assms(8,2)] 1 c assms(3,4,5) by auto
  then show ?thesis using 1 by simp
qed

end

section \<open>Lemmas\<close>

lemma scanTarget_view: "scanTarget r = Inr t \<Longrightarrow> t = targetView r"
  by (auto simp: scanTarget_def targetView_def Let_def split: option.splits sum.splits)

lemma scanAll_views: "scanAll scanTarget rows = Inr ts \<Longrightarrow> ts = map targetView rows"
proof (induction rows arbitrary: ts)
  case (Cons r rows)
  then show ?case by (auto split: sum.splits dest: scanTarget_view)
qed simp

lemma targetView_row:
  assumes "target_ok t" and "uint (ta_PreRevision t) < 2 ^ 63" and "uint (ta_PushedRevision t) < 2 ^ 63"
  shows "targetView \<lparr>tr_rollout_id = rid, tr_device_id = ta_DeviceID t, tr_included_at_stage = ta_IncludedAtStage t,
      tr_pre_rollout_desired = map_option marshal_Desired (ta_PreDesired t),
      tr_pre_rollout_revision = uint (ta_PreRevision t), tr_pushed_revision = uint (ta_PushedRevision t)\<rparr> = normT t"
  using assms(1)
  by (cases "ta_PreDesired t") (auto simp: targetView_def normT_def target_ok_def Desired_roundtrip)

lemma targetView_id: "ta_DeviceID (targetView r) = tr_device_id r"
  by (simp add: targetView_def)

lemma pg_exec_frame:
  assumes "\<And>d a d'. stmt d = Inr (a, d') \<Longrightarrow> f d' = f d" and "\<And>d fs. f (d\<lparr>pg_faults := fs\<rparr>) = f d"
  shows "f (snd (pg_exec stmt d)) = f d"
  by (rule pg_exec_preserves [where P = "\<lambda>d'. f d' = f d"]) (auto simp: assms)

lemma pg_targets_faults [simp]: "pg_targets (d\<lparr>pg_faults := fs\<rparr>) = pg_targets d"
  "pg_targets (d\<lparr>pg_rollouts := rs\<rparr>) = pg_targets d"
  by (simp_all add: pg_targets_def fun_eq_iff)

lemma canonical_simps [simp]: "canonical (d\<lparr>pg_faults := fs\<rparr>) = canonical d"
  "canonical (d\<lparr>pg_rollouts := rs\<rparr>) = canonical d" "canonical (d\<lparr>pg_rollout_targets := ts\<rparr>) = canonical d"
  by (simp_all add: canonical_def fun_eq_iff)

lemmas rollout_sql_defs = sql_insert_rollout_def sql_update_state_def sql_advance_stage_def sql_insert_target_def
  sql_list_targets_def

lemmas rollout_op_defs = Rollouts_Create_def UpdateState_def AdvanceStage_def RecordTarget_def

lemma ListTargets_run:
  "ListTargets rid d = (r, d') \<Longrightarrow> \<exists>fs. d' = d\<lparr>pg_faults := fs\<rparr>"
  by (auto simp: ListTargets_def sql_list_targets_def uuid_arg_Inr elim!: pg_run_cases split: prod.splits sum.splits)

lemma ListTargets_ok:
  assumes "ListTargets rid d = (Inr ts, d')" and "canonical d rid"
  shows "ts = pg_targets d rid"
proof -
  obtain rows where run: "pg_run (sql_list_targets rid) d = (Inr rows, d')" and scan: "scanAll scanTarget rows = Inr ts"
    using assms(1) by (auto simp: ListTargets_def split: prod.splits sum.splits)
  from run obtain fs where "sql_list_targets rid (d\<lparr>pg_faults := fs\<rparr>) = Inr (rows, d')" by (rule pg_run_ok)
  with assms(2) have "rows = filter (\<lambda>r. tr_rollout_id r = rid) (pg_rollout_targets d)"
    by (auto simp: sql_list_targets_def uuid_arg_def canonical_def)
  with scanAll_views [OF scan] show ?thesis by (simp add: pg_targets_def)
qed

lemma sql_insert_target_step:
  assumes "sql_insert_target rid t d = Inr ((), d')" and "target_ok t" and "canonical d rid" and "canonical d (ta_DeviceID t)"
  shows "pg_targets d' = pg_targets d \<and> ta_DeviceID t \<in> ta_DeviceID ` set (pg_targets d rid) \<or>
    pg_targets d' = (pg_targets d)(rid := pg_targets d rid @ [normT t]) \<and>
    ta_DeviceID t \<notin> ta_DeviceID ` set (pg_targets d rid)"
proof -
  let ?row = "\<lparr>tr_rollout_id = rid, tr_device_id = ta_DeviceID t, tr_included_at_stage = ta_IncludedAtStage t,
      tr_pre_rollout_desired = map_option marshal_Desired (ta_PreDesired t),
      tr_pre_rollout_revision = uint (ta_PreRevision t), tr_pushed_revision = uint (ta_PushedRevision t)\<rparr>"
  have ex: "list_ex (\<lambda>r. tr_rollout_id r = rid \<and> tr_device_id r = ta_DeviceID t) (pg_rollout_targets d) \<longleftrightarrow>
      ta_DeviceID t \<in> ta_DeviceID ` set (pg_targets d rid)"
    by (auto simp: list_ex_iff pg_targets_def image_image targetView_id) force
  from assms(1,3,4) have b: "uint (ta_PreRevision t) < 2 ^ 63" "uint (ta_PushedRevision t) < 2 ^ 63"
    and d': "if ta_DeviceID t \<in> ta_DeviceID ` set (pg_targets d rid) then d' = d
      else d' = d\<lparr>pg_rollout_targets := pg_rollout_targets d @ [?row]\<rparr>"
    by (auto simp: sql_insert_target_def uuid_arg_def canonical_def ex split: if_splits)
  have "pg_targets (d\<lparr>pg_rollout_targets := pg_rollout_targets d @ [?row]\<rparr>)
      = (pg_targets d)(rid := pg_targets d rid @ [normT t])"
    using targetView_row [OF assms(2) b, of rid] by (auto simp: pg_targets_def fun_eq_iff)
  with d' show ?thesis by (auto split: if_splits)
qed

lemma pg_exec_step:
  assumes "pg_exec stmt d = (r, d')"
    and "\<And>d'. stmt d = Inr ((), d') \<Longrightarrow> Q d'"
    and "\<And>fs. stmt (d\<lparr>pg_faults := fs\<rparr>) = (case stmt d of Inl e \<Rightarrow> Inl e | Inr (a, e) \<Rightarrow> Inr (a, e\<lparr>pg_faults := fs\<rparr>))"
    and "\<And>e fs. Q (e\<lparr>pg_faults := fs\<rparr>) = Q e"
  shows "r \<noteq> None \<and> (\<exists>fs. d' = d\<lparr>pg_faults := fs\<rparr>) \<or> Q d'"
  using assms(1)
  by (auto simp: pg_exec_def assms(2,3,4) elim!: pg_run_cases split: prod.splits sum.splits)

lemma sql_insert_target_faults:
  "sql_insert_target rid t (d\<lparr>pg_faults := fs\<rparr>)
     = (case sql_insert_target rid t d of Inl e \<Rightarrow> Inl e | Inr (a, e) \<Rightarrow> Inr (a, e\<lparr>pg_faults := fs\<rparr>))"
  by (simp add: sql_insert_target_def uuid_arg_def split: option.splits)

interpretation pgstore: rollout_store Rollouts_Create UpdateState AdvanceStage RecordTarget ListTargets
  pg_targets canonical
proof
  fix rid t s r s'
  assume "RecordTarget rid t s = (r, s')" and ok: "target_ok t" "canonical s rid" "canonical s (ta_DeviceID t)"
  then have run: "pg_exec (sql_insert_target rid t) s = (r, s')" by (simp add: RecordTarget_def)
  let ?Q = "\<lambda>e. pg_targets e = pg_targets s \<and> ta_DeviceID t \<in> ta_DeviceID ` set (pg_targets s rid) \<or>
      pg_targets e = (pg_targets s)(rid := pg_targets s rid @ [normT t]) \<and>
      ta_DeviceID t \<notin> ta_DeviceID ` set (pg_targets s rid)"
  have "r \<noteq> None \<and> (\<exists>fs. s' = s\<lparr>pg_faults := fs\<rparr>) \<or> ?Q s'"
    using run by (rule pg_exec_step) (auto simp: sql_insert_target_faults dest: sql_insert_target_step [OF _ ok])
  then show "pg_targets s' = pg_targets s \<and> (r = None \<longrightarrow> ta_DeviceID t \<in> ta_DeviceID ` set (pg_targets s rid)) \<or>
      pg_targets s' = (pg_targets s)(rid := pg_targets s rid @ [normT t]) \<and>
      ta_DeviceID t \<notin> ta_DeviceID ` set (pg_targets s rid)"
    by auto
qed (auto simp: rollout_op_defs ListTargets_ok rollout_sql_defs uuid_arg_Inr
    intro!: pg_exec_frame split: if_splits dest: ListTargets_run, (metis ListTargets_run canonical_simps(1)
    pg_targets_faults(1) prod.collapse)+)

end
