(* ===== verification/Alerts.thy ===== *)
theory Alerts
  imports Devices Messaging Telemetry
begin

text \<open>
  \<^verbatim>\<open>internal/alerts\<close>: the transition table of an alert (\<^verbatim>\<open>machine.go\<close>), the store
  that keeps alerts in Postgres (\<^verbatim>\<open>store.go\<close>, its SQL translated statement by statement), and
  the publisher of lifecycle events (\<^verbatim>\<open>publisher.go\<close>).
\<close>

section \<open>Machine\<close>

definition Firing :: string where "Firing = ''firing''"
definition Acknowledged :: string where "Acknowledged = ''acknowledged''"
definition Resolved :: string where "Resolved = ''resolved''"
definition EventAcknowledge :: string where "EventAcknowledge = ''acknowledge''"
definition EventClear :: string where "EventClear = ''clear''"

lemmas state_consts = Firing_def Acknowledged_def Resolved_def EventAcknowledge_def EventClear_def

datatype machine_error = InvalidTransition string string

definition Machine_Next :: "string \<Rightarrow> string \<Rightarrow> string \<times> machine_error option" where
  "Machine_Next current event =
     (if current = Firing \<and> event = EventAcknowledge then (Acknowledged, None)
      else if current = Firing \<and> event = EventClear then (Resolved, None)
      else if current = Acknowledged \<and> event = EventClear then (Resolved, None)
      else (current, Some (InvalidTransition current event)))"

section \<open>Store\<close>

record Alert =
  a_ID :: string
  a_DeviceID :: string
  a_SensorType :: string
  a_RuleName :: string
  a_Severity :: string
  a_State :: string
  a_Detail :: "(string \<times> json) list option"
  a_FiredAt :: time
  a_AcknowledgedAt :: "time option"
  a_ResolvedAt :: "time option"
  a_UpdatedAt :: time

definition scanAlert :: "AlertRow \<Rightarrow> pg_error + Alert" where
  "scanAlert r =
     (case dec_map dec_any JNull (al_detail r) None of
        Inl e \<Rightarrow> Inl (PgScan e)
      | Inr m \<Rightarrow> Inr \<lparr>a_ID = al_id r, a_DeviceID = al_device_id r, a_SensorType = al_sensor_type r,
          a_RuleName = al_rule_name r, a_Severity = al_severity r, a_State = al_state r, a_Detail = m,
          a_FiredAt = al_fired_at r, a_AcknowledgedAt = al_acknowledged_at r,
          a_ResolvedAt = al_resolved_at r, a_UpdatedAt = al_updated_at r\<rparr>)"

definition scanFirst :: "AlertRow list \<Rightarrow> pg_error + Alert" where
  "scanFirst rows = (case first_row rows of Inl e \<Rightarrow> Inl e | Inr r \<Rightarrow> scanAlert r)"

text \<open>\<^verbatim>\<open>json.Marshal\<close> of a \<^verbatim>\<open>map[string]any\<close>: \<^verbatim>\<open>null\<close> for a nil map.\<close>

definition marshal_map :: "(string \<times> json) list option \<Rightarrow> json" where
  "marshal_map m = (case m of None \<Rightarrow> JNull | Some ms \<Rightarrow> JObject ms)"

text \<open>The rows of the partial index \<^verbatim>\<open>alerts_open_idx\<close> with a given key.\<close>

definition open_for :: "string \<Rightarrow> string \<Rightarrow> string \<Rightarrow> AlertRow \<Rightarrow> bool" where
  "open_for dev sensorType ruleName r \<longleftrightarrow>
     al_device_id r = dev \<and> al_sensor_type r = sensorType \<and> al_rule_name r = ruleName \<and> al_state r \<noteq> Resolved"

definition sql_insert_alert :: "time \<Rightarrow> string \<Rightarrow> string \<Rightarrow> string \<Rightarrow> string \<Rightarrow> string \<Rightarrow> json \<Rightarrow> time
    \<Rightarrow> AlertRow list statement" where
  "sql_insert_alert dbNow id' deviceID sensorType ruleName severity detail firedAt d =
     uuid_arg d id' (\<lambda>u. uuid_arg d deviceID (\<lambda>dev.
       if u \<in> al_id ` set (pg_alerts d) \<or> list_ex (open_for dev sensorType ruleName) (pg_alerts d)
       then Inl unique_violation
       else if \<not> device_exists d dev then Inl foreign_key_violation
       else let r = \<lparr>al_id = u, al_device_id = dev, al_sensor_type = sensorType, al_rule_name = ruleName,
                al_severity = severity, al_state = Firing, al_detail = detail, al_fired_at = pg_ts firedAt,
                al_acknowledged_at = None, al_resolved_at = None, al_updated_at = pg_ts dbNow\<rparr>
            in Inr ([r], d\<lparr>pg_alerts := pg_alerts d @ [r]\<rparr>)))"

definition sql_get_open :: "string \<Rightarrow> string \<Rightarrow> string \<Rightarrow> AlertRow list statement" where
  "sql_get_open deviceID sensorType ruleName d =
     uuid_arg d deviceID (\<lambda>dev. Inr (filter (open_for dev sensorType ruleName) (pg_alerts d), d))"

definition getOpen :: "string \<Rightarrow> string \<Rightarrow> string \<Rightarrow> pg \<Rightarrow> (pg_error + Alert) \<times> pg" where
  "getOpen deviceID sensorType ruleName d =
     (case pg_run (sql_get_open deviceID sensorType ruleName) d of
        (Inl e, d') \<Rightarrow> (Inl e, d') | (Inr rows, d') \<Rightarrow> (scanFirst rows, d'))"

definition Alerts_Open :: "time \<Rightarrow> string \<Rightarrow> string \<Rightarrow> string \<Rightarrow> string \<Rightarrow> string
    \<Rightarrow> (string \<times> json) list option \<Rightarrow> time \<Rightarrow> pg \<Rightarrow> (pg_error + Alert \<times> bool) \<times> pg" where
  "Alerts_Open dbNow id' deviceID sensorType ruleName severity detail firedAt d =
     (case pg_run (sql_insert_alert dbNow id' deviceID sensorType ruleName severity (marshal_map detail) firedAt) d of
        (Inr rows, d1) \<Rightarrow>
          (case scanFirst rows of Inl e \<Rightarrow> (Inl e, d1) | Inr a \<Rightarrow> (Inr (a, True), d1))
      | (Inl e, d1) \<Rightarrow>
          if e = unique_violation
          then (case getOpen deviceID sensorType ruleName d1 of
                  (Inl fe, d2) \<Rightarrow> (Inl fe, d2) | (Inr a, d2) \<Rightarrow> (Inr (a, False), d2))
          else (Inl e, d1))"

text \<open>\<^verbatim>\<open>UPDATE alerts SET ... WHERE ... RETURNING\<close>: the updated rows.\<close>

definition update_alerts :: "(AlertRow \<Rightarrow> bool) \<Rightarrow> (AlertRow \<Rightarrow> AlertRow) \<Rightarrow> AlertRow list statement" where
  "update_alerts P f d =
     Inr (map f (filter P (pg_alerts d)), d\<lparr>pg_alerts := map (\<lambda>r. if P r then f r else r) (pg_alerts d)\<rparr>)"

definition resolveRow :: "time \<Rightarrow> time \<Rightarrow> AlertRow \<Rightarrow> AlertRow" where
  "resolveRow dbNow resolvedAt r =
     r\<lparr>al_state := Resolved, al_resolved_at := Some (pg_ts resolvedAt), al_updated_at := pg_ts dbNow\<rparr>"

definition ackRow :: "time \<Rightarrow> AlertRow \<Rightarrow> AlertRow" where
  "ackRow dbNow r =
     r\<lparr>al_state := Acknowledged, al_acknowledged_at := Some (pg_ts dbNow), al_updated_at := pg_ts dbNow\<rparr>"

definition sql_resolve :: "time \<Rightarrow> string \<Rightarrow> string \<Rightarrow> string \<Rightarrow> time \<Rightarrow> AlertRow list statement" where
  "sql_resolve dbNow deviceID sensorType ruleName resolvedAt d =
     uuid_arg d deviceID (\<lambda>dev.
       update_alerts (open_for dev sensorType ruleName) (resolveRow dbNow resolvedAt) d)"

definition Alerts_Resolve :: "time \<Rightarrow> string \<Rightarrow> string \<Rightarrow> string \<Rightarrow> time \<Rightarrow> pg
    \<Rightarrow> (pg_error + Alert option) \<times> pg" where
  "Alerts_Resolve dbNow deviceID sensorType ruleName resolvedAt d =
     (case pg_run (sql_resolve dbNow deviceID sensorType ruleName resolvedAt) d of
        (Inl e, d') \<Rightarrow> (Inl e, d')
      | (Inr [], d') \<Rightarrow> (Inr None, d')
      | (Inr (r # _), d') \<Rightarrow> (case scanAlert r of Inl e \<Rightarrow> (Inl e, d') | Inr a \<Rightarrow> (Inr (Some a), d')))"

datatype alert_error = NotOpen string | NotFiring string | AlertPg pg_error

definition sql_resolve_by_id :: "time \<Rightarrow> string \<Rightarrow> time \<Rightarrow> AlertRow list statement" where
  "sql_resolve_by_id dbNow id' resolvedAt d =
     uuid_arg d id' (\<lambda>u.
       update_alerts (\<lambda>r. al_id r = u \<and> al_state r \<noteq> Resolved) (resolveRow dbNow resolvedAt) d)"

definition ResolveByID :: "time \<Rightarrow> string \<Rightarrow> time \<Rightarrow> pg \<Rightarrow> (alert_error + Alert) \<times> pg" where
  "ResolveByID dbNow id' resolvedAt d =
     (case pg_run (sql_resolve_by_id dbNow id' resolvedAt) d of
        (Inl e, d') \<Rightarrow> (Inl (AlertPg e), d')
      | (Inr [], d') \<Rightarrow> (Inl (NotOpen id'), d')
      | (Inr (r # _), d') \<Rightarrow> (case scanAlert r of Inl e \<Rightarrow> (Inl (AlertPg e), d') | Inr a \<Rightarrow> (Inr a, d')))"

definition sql_acknowledge :: "time \<Rightarrow> string \<Rightarrow> AlertRow list statement" where
  "sql_acknowledge dbNow id' d =
     uuid_arg d id' (\<lambda>u. update_alerts (\<lambda>r. al_id r = u \<and> al_state r = Firing) (ackRow dbNow) d)"

definition Acknowledge :: "time \<Rightarrow> string \<Rightarrow> pg \<Rightarrow> (alert_error + Alert) \<times> pg" where
  "Acknowledge dbNow id' d =
     (case pg_run (sql_acknowledge dbNow id') d of
        (Inl e, d') \<Rightarrow> (Inl (AlertPg e), d')
      | (Inr [], d') \<Rightarrow> (Inl (NotFiring id'), d')
      | (Inr (r # _), d') \<Rightarrow> (case scanAlert r of Inl e \<Rightarrow> (Inl (AlertPg e), d') | Inr a \<Rightarrow> (Inr a, d')))"

text \<open>\<^verbatim>\<open>$1::uuid[]\<close>.\<close>

fun uuid_args :: "pg \<Rightarrow> string list \<Rightarrow> pg_error + string list" where
  "uuid_args d [] = Inr []"
| "uuid_args d (s # ss) =
     uuid_arg d s (\<lambda>u. case uuid_args d ss of Inl e \<Rightarrow> Inl e | Inr us \<Rightarrow> Inr (u # us))"

definition sql_firing_count :: "string list \<Rightarrow> time \<Rightarrow> int statement" where
  "sql_firing_count deviceIDs since d =
     (case uuid_args d deviceIDs of
        Inl e \<Rightarrow> Inl e
      | Inr us \<Rightarrow>
          Inr (int (length (remdups (map al_device_id (filter (\<lambda>r. al_device_id r \<in> set us \<and>
                 al_state r = Firing \<and> al_fired_at r \<ge> pg_ts since) (pg_alerts d))))), d))"

definition FiringCountForDevices :: "string list \<Rightarrow> time \<Rightarrow> pg \<Rightarrow> (pg_error + int) \<times> pg" where
  "FiringCountForDevices deviceIDs since d =
     (if deviceIDs = [] then (Inr 0, d) else pg_run (sql_firing_count deviceIDs since) d)"

record Filter =
  fi_State :: string
  fi_DeviceID :: string
  fi_Limit :: int

definition defaultListLimit :: int where "defaultListLimit = 200"

text \<open>\<^verbatim>\<open>ORDER BY fired_at DESC LIMIT n\<close>; rows with equal times come in table order, one of the
  orders SQL allows.\<close>

definition sql_list_alerts :: "string \<Rightarrow> string \<Rightarrow> int \<Rightarrow> AlertRow list statement" where
  "sql_list_alerts state deviceID limit d =
     (let rows = (\<lambda>P. Inr (take (nat limit) (sort_key (\<lambda>r. - al_fired_at r)
                    (filter (\<lambda>r. (state = [] \<or> al_state r = state) \<and> P r) (pg_alerts d))), d))
      in if deviceID = [] then rows (\<lambda>_. True)
         else uuid_arg d deviceID (\<lambda>dev. rows (\<lambda>r. al_device_id r = dev)))"

text \<open>A result set that breaks off midway (\<^verbatim>\<open>rows.Err()\<close>) is, in the model, a query that failed. The Go function then
  returns the rows read so far beside the error, and its callers look at the error first and drop them.\<close>

definition Alerts_List :: "Filter \<Rightarrow> pg \<Rightarrow> (pg_error + Alert list) \<times> pg" where
  "Alerts_List flt d =
     (let limit = (if fi_Limit flt \<le> 0 then defaultListLimit else fi_Limit flt) in
      case pg_run (sql_list_alerts (fi_State flt) (fi_DeviceID flt) limit) d of
        (Inl e, d') \<Rightarrow> (Inl e, d')
      | (Inr rows, d') \<Rightarrow> (scanAll scanAlert rows, d'))"

section \<open>Publisher\<close>

definition AlertEventSchemaVersion :: string where "AlertEventSchemaVersion = ''1.0''"

record AlertEvent =
  ae_SchemaVersion :: string
  ae_AlertID :: string
  ae_DeviceID :: string
  ae_SensorType :: string
  ae_RuleName :: string
  ae_Severity :: string
  ae_State :: string
  ae_Detail :: "(string \<times> json) list option"
  ae_TimestampMS :: int

definition marshal_AlertEvent :: "AlertEvent \<Rightarrow> json" where
  "marshal_AlertEvent e = JObject (
     [(''schema_version'', JString (ae_SchemaVersion e)), (''alert_id'', JString (ae_AlertID e)),
      (''device_id'', JString (ae_DeviceID e)), (''sensor_type'', JString (ae_SensorType e)),
      (''rule_name'', JString (ae_RuleName e)), (''severity'', JString (ae_Severity e)),
      (''state'', JString (ae_State e))]
     @ omit_list ''detail'' JObject (ae_Detail e)
     @ [(''timestamp_ms'', JInt (ae_TimestampMS e))])"

definition Alerts_Publish :: "Alert \<Rightarrow> time \<Rightarrow> json bus \<Rightarrow> io_error option \<times> json bus" where
  "Alerts_Publish a at' js =
     bus_publish (AlertsSubject (a_DeviceID a))
       (marshal_AlertEvent \<lparr>ae_SchemaVersion = AlertEventSchemaVersion, ae_AlertID = a_ID a,
          ae_DeviceID = a_DeviceID a, ae_SensorType = a_SensorType a, ae_RuleName = a_RuleName a,
          ae_Severity = a_Severity a, ae_State = a_State a, ae_Detail = a_Detail a,
          ae_TimestampMS = UnixMilli at'\<rparr>) js"

section \<open>Specification\<close>

text \<open>States reachable in the transition table.\<close>

inductive machine_reach :: "string \<Rightarrow> string \<Rightarrow> bool" where
  reach_refl: "machine_reach s s"
| reach_step: "Machine_Next s ev = (s', None) \<Longrightarrow> machine_reach s' s'' \<Longrightarrow> machine_reach s s''"

lemma machine_reach_trans: "machine_reach s t \<Longrightarrow> machine_reach t u \<Longrightarrow> machine_reach s u"
  by (induction rule: machine_reach.induct) (auto intro: reach_step)

lemma machine_one_step: "Machine_Next s ev = (s', None) \<Longrightarrow> machine_reach s s'"
  by (rule reach_step [OF _ reach_refl])

lemma Resolved_terminal: "machine_reach Resolved s \<longleftrightarrow> s = Resolved"
proof
  have "machine_reach t s \<Longrightarrow> t = Resolved \<Longrightarrow> s = Resolved" for t
    by (induction rule: machine_reach.induct) (auto simp: Machine_Next_def state_consts split: if_splits)
  then show "machine_reach Resolved s \<Longrightarrow> s = Resolved" by blast
qed (auto intro: reach_refl)

text \<open>The calls that write the table, from the processor and from the operators' handlers.\<close>

datatype alert_op =
    OpOpen time string string string string string "(string \<times> json) list option" time
  | OpResolve time string string string time
  | OpResolveByID time string time
  | OpAcknowledge time string

fun alert_op_step :: "alert_op \<Rightarrow> pg \<Rightarrow> pg" where
  "alert_op_step (OpOpen n i dev st rn sv dt fa) d = snd (Alerts_Open n i dev st rn sv dt fa d)"
| "alert_op_step (OpResolve n dev st rn ra) d = snd (Alerts_Resolve n dev st rn ra d)"
| "alert_op_step (OpResolveByID n i ra) d = snd (ResolveByID n i ra d)"
| "alert_op_step (OpAcknowledge n i) d = snd (Acknowledge n i d)"

definition alert_key :: "AlertRow \<Rightarrow> string \<times> string \<times> string" where
  "alert_key r = (al_device_id r, al_sensor_type r, al_rule_name r)"

definition isOpenRow :: "AlertRow \<Rightarrow> bool" where
  "isOpenRow r \<longleftrightarrow> al_state r \<noteq> Resolved"

text \<open>The state of a row agrees with its timestamps.\<close>

definition alert_row_ok :: "AlertRow \<Rightarrow> bool" where
  "alert_row_ok r \<longleftrightarrow>
     (al_state r = Firing \<and> al_acknowledged_at r = None \<and> al_resolved_at r = None \<or>
      al_state r = Acknowledged \<and> al_acknowledged_at r \<noteq> None \<and> al_resolved_at r = None \<or>
      al_state r = Resolved \<and> al_resolved_at r \<noteq> None) \<and>
     (case al_detail r of JNull \<Rightarrow> True | JObject _ \<Rightarrow> True | _ \<Rightarrow> False)"

definition alerts_inv :: "pg \<Rightarrow> bool" where
  "alerts_inv d \<longleftrightarrow>
     distinct (map al_id (pg_alerts d)) \<and>
     distinct (map alert_key (filter isOpenRow (pg_alerts d))) \<and>
     list_all alert_row_ok (pg_alerts d) \<and>
     list_all (\<lambda>r. device_exists d (al_device_id r)) (pg_alerts d)"

text \<open>How the table may change: rows are never removed, a row keeps its identity and moves along the
  transition table, and a resolved row is frozen.\<close>

definition row_evolves :: "AlertRow \<Rightarrow> AlertRow \<Rightarrow> bool" where
  "row_evolves r r' \<longleftrightarrow>
     al_id r' = al_id r \<and> alert_key r' = alert_key r \<and> al_fired_at r' = al_fired_at r \<and>
     al_severity r' = al_severity r \<and> al_detail r' = al_detail r \<and>
     machine_reach (al_state r) (al_state r') \<and> (al_state r = Resolved \<longrightarrow> r' = r)"

definition table_evolves :: "AlertRow list \<Rightarrow> AlertRow list \<Rightarrow> bool" where
  "table_evolves rs rs' \<longleftrightarrow> length rs \<le> length rs' \<and> list_all2 row_evolves rs (take (length rs) rs')"

section \<open>Lemmas\<close>

lemma row_evolves_refl [simp]: "row_evolves r r"
  by (simp add: row_evolves_def reach_refl)

lemma row_evolves_trans: "row_evolves r s \<Longrightarrow> row_evolves s t \<Longrightarrow> row_evolves r t"
  by (auto simp: row_evolves_def Resolved_terminal intro: machine_reach_trans)

lemma table_evolves_refl [simp]: "table_evolves rs rs"
  by (simp add: table_evolves_def list.rel_refl)

lemma table_evolves_append [simp]: "table_evolves rs (rs @ xs)"
  by (simp add: table_evolves_def list.rel_refl)

lemma table_evolves_trans:
  assumes "table_evolves a b" and "table_evolves b c"
  shows "table_evolves a c"
  using assms by (auto simp: table_evolves_def list_all2_conv_all_nth intro: row_evolves_trans)

lemma table_evolves_map: "(\<And>r. row_evolves r (f r)) \<Longrightarrow> table_evolves rs (map f rs)"
  by (auto simp: table_evolves_def list_all2_conv_all_nth)

lemma machine_steps:
  "Machine_Next Firing EventAcknowledge = (Acknowledged, None)"
  "Machine_Next Firing EventClear = (Resolved, None)"
  "Machine_Next Acknowledged EventClear = (Resolved, None)"
  by (simp_all add: Machine_Next_def state_consts)

lemma row_evolves_ack: "al_state r = Firing \<Longrightarrow> row_evolves r (ackRow n r)"
  using machine_one_step [OF machine_steps(1)]
  by (auto simp: row_evolves_def ackRow_def alert_key_def state_consts)

lemma row_evolves_resolve:
  "alert_row_ok r \<Longrightarrow> isOpenRow r \<Longrightarrow> row_evolves r (resolveRow n t r)"
  using machine_one_step [OF machine_steps(2)] machine_one_step [OF machine_steps(3)]
  by (auto simp: row_evolves_def resolveRow_def alert_key_def alert_row_ok_def isOpenRow_def)

lemma row_ok_ack: "alert_row_ok r \<Longrightarrow> al_state r = Firing \<Longrightarrow> alert_row_ok (ackRow n r)"
  by (auto simp: alert_row_ok_def ackRow_def state_consts)

lemma row_ok_resolve: "alert_row_ok r \<Longrightarrow> alert_row_ok (resolveRow n t r)"
  by (auto simp: alert_row_ok_def resolveRow_def state_consts)

lemma distinct_open_update:
  assumes "distinct (map g (filter Q xs))" and "\<And>x. g (u x) = g x" and "\<And>x. Q (u x) \<Longrightarrow> Q x"
  shows "distinct (map g (filter Q (map u xs)))"
  using assms(1)
proof (induction xs)
  case Nil
  then show ?case by simp
next
  case (Cons x xs)
  have "g ` {y \<in> u ` set xs. Q y} \<subseteq> g ` {y \<in> set xs. Q y}" using assms(2,3) by force
  with Cons show ?case using assms(2,3) by (auto split: if_splits)
qed

text \<open>One update statement whose rows stay well formed and evolve.\<close>

lemma update_alerts_inv:
  assumes "alerts_inv d" and "update_alerts P f d = Inr (rows, d')"
    and ev: "\<And>r. alert_row_ok r \<Longrightarrow> P r \<Longrightarrow> row_evolves r (f r) \<and> alert_row_ok (f r)"
    and keep: "\<And>r. al_id (f r) = al_id r \<and> alert_key (f r) = alert_key r"
    and op: "\<And>r. P r \<Longrightarrow> isOpenRow r"
  shows "alerts_inv d'" and "table_evolves (pg_alerts d) (pg_alerts d')"
proof -
  let ?u = "\<lambda>r. if P r then f r else r"
  have d': "pg_alerts d' = map ?u (pg_alerts d)" and dev: "pg_devices d' = pg_devices d"
    using assms(2) by (auto simp: update_alerts_def)
  have ids: "map al_id (pg_alerts d') = map al_id (pg_alerts d)"
    unfolding d' by (rule map_map_same) (simp add: keep)
  have opn: "distinct (map alert_key (filter isOpenRow (pg_alerts d')))"
    unfolding d' using assms(1) by (intro distinct_open_update) (auto simp: alerts_inv_def keep op split: if_splits)
  have "al_device_id (f r) = al_device_id r" for r using keep [of r] by (simp add: alert_key_def)
  then have devs: "list_all (\<lambda>r. device_exists d' (al_device_id r)) (pg_alerts d')"
    using assms(1) by (auto simp: alerts_inv_def list_all_iff d' device_exists_def dev)
  have "list_all alert_row_ok (pg_alerts d')"
    using assms(1) ev by (auto simp: alerts_inv_def list_all_iff d')
  with ids opn devs assms(1) show "alerts_inv d'" by (simp add: alerts_inv_def)
  show "table_evolves (pg_alerts d) (pg_alerts d')"
    using assms(1) ev by (auto simp: d' table_evolves_def list_all2_conv_all_nth alerts_inv_def list_all_iff)
qed

lemma alerts_inv_faults: "alerts_inv (d\<lparr>pg_faults := fs\<rparr>) = alerts_inv d"
  by (simp add: alerts_inv_def)

definition alerts_good :: "pg \<Rightarrow> pg \<Rightarrow> bool" where
  "alerts_good d0 d \<longleftrightarrow> alerts_inv d \<and> table_evolves (pg_alerts d0) (pg_alerts d)"

lemma alerts_good_faults: "alerts_good d0 d \<Longrightarrow> alerts_good d0 (d\<lparr>pg_faults := fs\<rparr>)"
  by (simp add: alerts_good_def alerts_inv_faults)

lemma open_for_alert_key:
  "open_for dev st rn r \<longleftrightarrow> isOpenRow r \<and> alert_key r = (dev, st, rn)"
  by (auto simp: open_for_def isOpenRow_def alert_key_def)

lemma marshal_map_ok: "case marshal_map m of JNull \<Rightarrow> True | JObject _ \<Rightarrow> True | _ \<Rightarrow> False"
  by (simp add: marshal_map_def split: option.splits)

lemma sql_insert_alert_good:
  assumes "alerts_good d0 d" and "sql_insert_alert n i dev st rn sv (marshal_map m) fa d = Inr (x, d')"
  shows "alerts_good d0 d'"
proof -
  from assms(2) obtain u v where new: "u \<notin> al_id ` set (pg_alerts d)"
      "\<not> list_ex (open_for v st rn) (pg_alerts d)" "device_exists d v"
    and d': "d' = d\<lparr>pg_alerts := pg_alerts d @ [\<lparr>al_id = u, al_device_id = v, al_sensor_type = st,
        al_rule_name = rn, al_severity = sv, al_state = Firing, al_detail = marshal_map m,
        al_fired_at = pg_ts fa, al_acknowledged_at = None, al_resolved_at = None,
        al_updated_at = pg_ts n\<rparr>]\<rparr>"
    by (auto simp: sql_insert_alert_def uuid_arg_Inr Let_def split: if_splits)
  have "(v, st, rn) \<notin> alert_key ` set (filter isOpenRow (pg_alerts d))"
    using new(2) by (auto simp: list_ex_iff open_for_alert_key)
  then have "alerts_inv d'"
    using assms(1) new(1,3) marshal_map_ok [of m]
    by (simp add: alerts_good_def alerts_inv_def d' alert_row_ok_def isOpenRow_def state_consts
        device_exists_def) (simp add: alert_key_def)
  moreover have "table_evolves (pg_alerts d0) (pg_alerts d')"
    using assms(1) table_evolves_trans by (auto simp: alerts_good_def d')
  ultimately show ?thesis by (simp add: alerts_good_def)
qed

lemma update_alerts_good:
  assumes "alerts_good d0 d" and "update_alerts P f d = Inr (rows, d')"
    and "\<And>r. alert_row_ok r \<Longrightarrow> P r \<Longrightarrow> row_evolves r (f r) \<and> alert_row_ok (f r)"
    and "\<And>r. al_id (f r) = al_id r \<and> alert_key (f r) = alert_key r"
    and "\<And>r. P r \<Longrightarrow> isOpenRow r"
  shows "alerts_good d0 d'"
proof -
  have "alerts_inv d" using assms(1) by (simp add: alerts_good_def)
  note u = update_alerts_inv [OF this assms(2-5)]
  show ?thesis
    using u(1) table_evolves_trans [OF _ u(2)] assms(1) by (simp add: alerts_good_def)
qed

lemma resolveRow_keeps: "al_id (resolveRow n t r) = al_id r \<and> alert_key (resolveRow n t r) = alert_key r"
  by (simp add: resolveRow_def alert_key_def)

lemma ackRow_keeps: "al_id (ackRow n r) = al_id r \<and> alert_key (ackRow n r) = alert_key r"
  by (simp add: ackRow_def alert_key_def)

lemma sql_resolve_good:
  assumes "alerts_good d0 d" and "sql_resolve n dev st rn t d = Inr (x, d')"
  shows "alerts_good d0 d'"
proof -
  from assms(2) obtain v where "update_alerts (open_for v st rn) (resolveRow n t) d = Inr (x, d')"
    by (auto simp: sql_resolve_def uuid_arg_Inr)
  with assms(1) show ?thesis
    by (rule update_alerts_good)
      (auto simp: open_for_alert_key resolveRow_keeps intro: row_evolves_resolve row_ok_resolve)
qed

lemma sql_resolve_by_id_good:
  assumes "alerts_good d0 d" and "sql_resolve_by_id n i t d = Inr (x, d')"
  shows "alerts_good d0 d'"
proof -
  from assms(2) obtain u where
    "update_alerts (\<lambda>r. al_id r = u \<and> al_state r \<noteq> Resolved) (resolveRow n t) d = Inr (x, d')"
    by (auto simp: sql_resolve_by_id_def uuid_arg_Inr)
  with assms(1) show ?thesis
    by (rule update_alerts_good)
      (auto simp: isOpenRow_def resolveRow_keeps intro: row_evolves_resolve row_ok_resolve)
qed

lemma sql_acknowledge_good:
  assumes "alerts_good d0 d" and "sql_acknowledge n i d = Inr (x, d')"
  shows "alerts_good d0 d'"
proof -
  from assms(2) obtain u where
    "update_alerts (\<lambda>r. al_id r = u \<and> al_state r = Firing) (ackRow n) d = Inr (x, d')"
    by (auto simp: sql_acknowledge_def uuid_arg_Inr)
  with assms(1) show ?thesis
    by (rule update_alerts_good)
      (auto simp: isOpenRow_def ackRow_keeps state_consts intro: row_evolves_ack row_ok_ack)
qed

lemma getOpen_good: "alerts_good d0 d \<Longrightarrow> alerts_good d0 (snd (getOpen dev st rn d))"
proof -
  assume "alerts_good d0 d"
  then have "alerts_good d0 (snd (pg_run (sql_get_open dev st rn) d))"
    by (rule pg_run_preserves) (auto intro: alerts_good_faults simp: sql_get_open_def uuid_arg_Inr)
  then show "alerts_good d0 (snd (getOpen dev st rn d))"
    by (auto simp: getOpen_def split: prod.splits sum.splits)
qed

lemma Alerts_Open_good:
  assumes "alerts_good d0 d"
  shows "alerts_good d0 (snd (Alerts_Open n i dev st rn sv dt fa d))"
proof -
  have "alerts_good d0 (snd (pg_run (sql_insert_alert n i dev st rn sv (marshal_map dt) fa) d))"
    using assms by (rule pg_run_preserves) (auto intro: alerts_good_faults sql_insert_alert_good)
  then show ?thesis
    by (auto simp: Alerts_Open_def dest: getOpen_good [of _ _ dev st rn] split: prod.splits sum.splits)
qed

lemma alert_op_good: "alerts_good d0 d \<Longrightarrow> alerts_good d0 (alert_op_step op d)"
proof (induction op d rule: alert_op_step.induct)
  case (1 n i dev st rn sv dt fa d)
  then show ?case by (simp add: Alerts_Open_good)
next
  case (2 n dev st rn ra d)
  then have "alerts_good d0 (snd (pg_run (sql_resolve n dev st rn ra) d))"
    by (rule pg_run_preserves) (auto intro: alerts_good_faults sql_resolve_good)
  then show ?case by (auto simp: Alerts_Resolve_def split: prod.splits sum.splits list.splits)
next
  case (3 n i ra d)
  then have "alerts_good d0 (snd (pg_run (sql_resolve_by_id n i ra) d))"
    by (rule pg_run_preserves) (auto intro: alerts_good_faults sql_resolve_by_id_good)
  then show ?case by (auto simp: ResolveByID_def split: prod.splits sum.splits list.splits)
next
  case (4 n i d)
  then have "alerts_good d0 (snd (pg_run (sql_acknowledge n i) d))"
    by (rule pg_run_preserves) (auto intro: alerts_good_faults sql_acknowledge_good)
  then show ?case by (auto simp: Acknowledge_def split: prod.splits sum.splits list.splits)
qed

lemma alert_ops_good: "alerts_good d0 d \<Longrightarrow> alerts_good d0 (fold alert_op_step ops d)"
  by (induction ops arbitrary: d) (auto intro: alert_op_good)

lemma open_rows_le_1:
  assumes "alerts_inv d"
  shows "length (filter (open_for dev st rn) (pg_alerts d)) \<le> 1"
proof -
  have "filter (open_for dev st rn) (pg_alerts d) =
      filter (\<lambda>r. alert_key r = (dev, st, rn)) (filter isOpenRow (pg_alerts d))"
    by (auto intro: filter_cong simp: open_for_alert_key)
  then show ?thesis
    using assms length_filter_key_le_1 [of alert_key "filter isOpenRow (pg_alerts d)"] by (simp add: alerts_inv_def)
qed

lemma scanAlert_ok:
  assumes "alert_row_ok r"
  shows "\<exists>a. scanAlert r = Inr a \<and> a_ID a = al_id r \<and> a_DeviceID a = al_device_id r \<and> a_State a = al_state r \<and>
    a_SensorType a = al_sensor_type r \<and> a_RuleName a = al_rule_name r \<and> a_Severity a = al_severity r \<and>
    a_FiredAt a = al_fired_at r"
proof -
  have "case al_detail r of JNull \<Rightarrow> True | JObject _ \<Rightarrow> True | _ \<Rightarrow> False"
    using assms by (simp add: alert_row_ok_def)
  then have "\<exists>m. dec_map dec_any JNull (al_detail r) None = Inr m"
  proof (cases "al_detail r")
    case (JObject ms)
    then show ?thesis using dec_entries_any_ok [of JNull ms "[]"] by auto
  qed simp_all
  then obtain m where "dec_map dec_any JNull (al_detail r) None = Inr m" ..
  then show ?thesis by (simp add: scanAlert_def)
qed

text \<open>A database with one device, on which the witnesses run.\<close>

definition samplePg :: pg where
  "samplePg = snd (Devices_Create 5 ''d1'' ''lamp'' ''esp32'' emptyPg)"

lemma samplePg_facts:
  "pg_alerts samplePg = []" "pg_faults samplePg = []" "pg_uuid samplePg = Some"
  "device_exists samplePg v \<longleftrightarrow> v = ''d1''" "alerts_inv samplePg"
  by (simp_all add: samplePg_def Devices_Create_def pg_exec_def emptyPg_def sql_insert_device_def uuid_arg_def
      device_exists_def alerts_inv_def)

section \<open>Properties\<close>

text \<open>C2: never two open alerts for the same condition. From an empty table, whatever calls the
  processor and the operators make, in whatever order and whichever of their statements fail or lose
  their reply, at most one alert per (device, sensor, rule) is not resolved; ids are unique, every
  row's state agrees with its timestamps and every alert belongs to a device.\<close>

theorem alert_store_invariant:
  assumes "pg_alerts d = []"
  shows "alerts_inv (fold alert_op_step ops d) \<and>
    length (filter (open_for dev st rn) (pg_alerts (fold alert_op_step ops d))) \<le> 1"
proof -
  have "alerts_good d d" using assms by (simp add: alerts_good_def alerts_inv_def)
  then have "alerts_good d (fold alert_op_step ops d)" by (rule alert_ops_good)
  then have "alerts_inv (fold alert_op_step ops d)" by (simp add: alerts_good_def)
  then show ?thesis using open_rows_le_1 by blast
qed

theorem alert_store_invariant_witness:
  "length (filter (open_for ''d1'' ''temp'' ''hot'') (pg_alerts (fold alert_op_step
     [OpOpen 9 ''a1'' ''d1'' ''temp'' ''hot'' ''warning'' None 8000,
      OpOpen 9 ''a2'' ''d1'' ''temp'' ''hot'' ''warning'' None 9000] samplePg))) \<le> 1"
  using alert_store_invariant [OF samplePg_facts(1)] by blast

text \<open>C13: the store implements the transition table, although its SQL never calls it. Whatever sequence
  of calls runs against a well-formed table, no row is removed, each row keeps its identity, its state
  only moves along \<^verbatim>\<open>Machine.Next\<close>, and a resolved alert never changes again: the history is
  append-only.\<close>

theorem alert_store_refines_machine:
  assumes "alerts_inv d"
  shows "table_evolves (pg_alerts d) (pg_alerts (fold alert_op_step ops d))"
  using alert_ops_good [of d d ops] assms by (simp add: alerts_good_def)

theorem alert_store_refines_machine_witness:
  "table_evolves (pg_alerts samplePg) (pg_alerts (fold alert_op_step
     [OpOpen 9 ''a1'' ''d1'' ''temp'' ''hot'' ''warning'' None 8000, OpAcknowledge 10 ''a1''] samplePg))"
  by (rule alert_store_refines_machine) (rule samplePg_facts)

text \<open>\<^verbatim>\<open>Open\<close> never re-fires. With the database reachable and a fresh id, a condition
  with no open alert gets a new firing row, reported as opened; a condition that already has one gets
  that row back, reported as not opened, and the table is unchanged.\<close>

theorem open_never_refires:
  assumes "alerts_inv d" and "pg_faults d = []" and "pg_uuid d i = Some u" and "pg_uuid d dev = Some v"
    and "u \<notin> al_id ` set (pg_alerts d)" and "device_exists d v"
  shows "case filter (open_for v st rn) (pg_alerts d) of
      [] \<Rightarrow> (\<exists>a r d'. Alerts_Open n i dev st rn sv dt fa d = (Inr (a, True), d') \<and>
              pg_alerts d' = pg_alerts d @ [r] \<and> filter (open_for v st rn) (pg_alerts d') = [r] \<and>
              al_state r = Firing \<and> al_fired_at r = pg_ts fa \<and> al_id r = u \<and> a_ID a = u \<and> a_State a = Firing)
    | r # _ \<Rightarrow> (\<exists>a. Alerts_Open n i dev st rn sv dt fa d = (Inr (a, False), d) \<and> a_ID a = al_id r \<and>
              a_State a = al_state r \<and> al_state r \<noteq> Resolved)"
proof (cases "filter (open_for v st rn) (pg_alerts d)")
  case Nil
  define r where "r = \<lparr>al_id = u, al_device_id = v, al_sensor_type = st, al_rule_name = rn,
      al_severity = sv, al_state = Firing, al_detail = marshal_map dt, al_fired_at = pg_ts fa,
      al_acknowledged_at = None, al_resolved_at = None, al_updated_at = pg_ts n\<rparr>"
  have "\<not> list_ex (open_for v st rn) (pg_alerts d)" using Nil by (auto simp: filter_empty_conv list_ex_iff)
  then have ins: "sql_insert_alert n i dev st rn sv (marshal_map dt) fa d
      = Inr ([r], d\<lparr>pg_alerts := pg_alerts d @ [r]\<rparr>)"
    using assms by (simp add: sql_insert_alert_def uuid_arg_def r_def Let_def)
  have "alert_row_ok r" using marshal_map_ok by (simp add: alert_row_ok_def r_def)
  from scanAlert_ok [OF this] obtain a where a: "scanAlert r = Inr a" "a_ID a = al_id r" "a_State a = al_state r"
    by auto
  have "open_for v st rn r" by (simp add: open_for_def r_def state_consts)
  with Nil ins a assms(2) show ?thesis
    by (simp add: Alerts_Open_def scanFirst_def first_row_def) (simp add: r_def)
next
  case (Cons r rs)
  then have r: "r \<in> set (pg_alerts d)" "open_for v st rn r"
    using Cons_eq_filterD [OF Cons [symmetric]] by auto
  then have "list_ex (open_for v st rn) (pg_alerts d)" by (auto simp: list_ex_iff)
  then have ins: "sql_insert_alert n i dev st rn sv (marshal_map dt) fa d = Inl unique_violation"
    using assms by (simp add: sql_insert_alert_def uuid_arg_def)
  have "alert_row_ok r" using r assms(1) by (auto simp: alerts_inv_def list_all_iff)
  from scanAlert_ok [OF this] obtain a where "scanAlert r = Inr a" "a_ID a = al_id r" "a_State a = al_state r"
    by auto
  with Cons ins assms(2,4) r(2) show ?thesis
    by (simp add: Alerts_Open_def getOpen_def sql_get_open_def uuid_arg_def scanFirst_def first_row_def open_for_def)
qed

theorem open_never_refires_witness:
  "\<exists>a r d'. Alerts_Open 9 ''a1'' ''d1'' ''temp'' ''hot'' ''warning'' None 8000 samplePg = (Inr (a, True), d') \<and>
     pg_alerts d' = [r] \<and> al_state r = Firing"
  using open_never_refires [where d = samplePg and i = "''a1''" and u = "''a1''" and dev = "''d1''" and v = "''d1''"
      and st = "''temp''" and rn = "''hot''" and n = 9 and sv = "''warning''" and dt = None and fa = 8000]
  by (auto simp: samplePg_facts)

text \<open>The error signal of a stage is the number of its devices with an alert that is still firing and
  fired at or after the given time; it never exceeds the number of devices asked about.\<close>

theorem firing_count_exact:
  assumes "FiringCountForDevices ids since d = (Inr k, d')"
  shows "k = int (card {v. v \<in> the ` pg_uuid d ` set ids \<and>
           (\<exists>r \<in> set (pg_alerts d). al_device_id r = v \<and> al_state r = Firing \<and> al_fired_at r \<ge> pg_ts since)}) \<and>
         0 \<le> k \<and> k \<le> int (length ids) \<and> (\<exists>fs. d' = d\<lparr>pg_faults := fs\<rparr>)"
proof (cases "ids = []")
  case True
  with assms have "k = 0" "d' = d" by (auto simp: FiringCountForDevices_def)
  with True show ?thesis by (auto intro!: exI [of _ "pg_faults d"])
next
  case False
  have us: "uuid_args e ids = Inr us \<Longrightarrow> us = map (\<lambda>s. the (pg_uuid e s)) ids" for e us
  proof (induction ids arbitrary: us)
    case (Cons i ids)
    then show ?case by (cases "uuid_args e ids") (auto simp: uuid_arg_Inr)
  qed simp
  from False assms have "pg_run (sql_firing_count ids since) d = (Inr k, d')"
    by (simp add: FiringCountForDevices_def)
  then obtain fs us where 1: "uuid_args (d\<lparr>pg_faults := fs\<rparr>) ids = Inr us" "d' = d\<lparr>pg_faults := fs\<rparr>"
    and k: "k = int (length (remdups (map al_device_id (filter (\<lambda>r. al_device_id r \<in> set us \<and>
                 al_state r = Firing \<and> al_fired_at r \<ge> pg_ts since) (pg_alerts d)))))"
    by (elim pg_run_ok) (auto simp: sql_firing_count_def split: sum.splits)
  let ?S = "{v. v \<in> the ` pg_uuid d ` set ids \<and>
      (\<exists>r \<in> set (pg_alerts d). al_device_id r = v \<and> al_state r = Firing \<and> al_fired_at r \<ge> pg_ts since)}"
  have seteq: "set us = the ` pg_uuid d ` set ids" using us [OF 1(1)] by auto
  have "k = int (card ?S)"
    unfolding k length_remdups_card_conv by (rule arg_cong [of _ _ "\<lambda>s. int (card s)"]) (force simp: seteq)
  moreover have "card ?S \<le> card (the ` pg_uuid d ` set ids)"
    by (rule card_mono) auto
  moreover have "\<dots> \<le> card (set ids)"
    by (metis List.finite_set card_image_le finite_imageI le_trans)
  moreover have "\<dots> \<le> length ids" by (rule card_length)
  ultimately show ?thesis using 1(2) by auto
qed

theorem firing_count_exact_witness:
  "FiringCountForDevices [''d1'', ''d1''] 0 samplePg = (Inr 0, samplePg) \<and> (0::int) \<le> int (length [''d1'', ''d1''])"
proof -
  have "FiringCountForDevices [''d1'', ''d1''] 0 samplePg = (Inr 0, samplePg)"
    by (simp add: FiringCountForDevices_def sql_firing_count_def samplePg_facts uuid_arg_def)
  with firing_count_exact [OF this] show ?thesis by blast
qed

end
