(* ===== verification/RolloutEngine.thy ===== *)
theory RolloutEngine
  imports RolloutStore Alerts
begin

text \<open>
  \<^verbatim>\<open>internal/rollout/engine.go\<close> and \<^verbatim>\<open>publisher.go\<close>: the staged rollout engine.
  As in the source the engine only knows interfaces: the record \<open>deps\<close> holds the operations
  it was built with, over an arbitrary state \<open>'w\<close> of the outside world; \<open>prodDeps\<close> are the ones
  \<^verbatim>\<open>cmd/control\<close> passes in. The mutex makes every exported method one step. Log lines are
  left out. An index out of range, which would panic, is the value \<open>None\<close>.
\<close>

section \<open>Model\<close>

record 'w deps =
  dp_Create :: "Rollout \<Rightarrow> 'w \<Rightarrow> svc_error option \<times> 'w"
  dp_Get :: "string \<Rightarrow> 'w \<Rightarrow> (svc_error + Rollout option) \<times> 'w"
  dp_List :: "'w \<Rightarrow> (svc_error + Rollout list) \<times> 'w"
  dp_ListNonTerminal :: "'w \<Rightarrow> (svc_error + Rollout list) \<times> 'w"
  dp_UpdateState :: "string \<Rightarrow> string \<Rightarrow> 'w \<Rightarrow> svc_error option \<times> 'w"
  dp_AdvanceStage :: "string \<Rightarrow> int \<Rightarrow> time \<Rightarrow> 'w \<Rightarrow> svc_error option \<times> 'w"
  dp_RecordTarget :: "string \<Rightarrow> Target \<Rightarrow> 'w \<Rightarrow> svc_error option \<times> 'w"
  dp_ListTargets :: "string \<Rightarrow> 'w \<Rightarrow> (svc_error + Target list) \<times> 'w"
  dp_SetDesired :: "string \<Rightarrow> Desired \<Rightarrow> 'w \<Rightarrow> (svc_error + Desired) \<times> 'w"
  dp_GetDesired :: "string \<Rightarrow> 'w \<Rightarrow> (svc_error + Desired \<times> u64) \<times> 'w"
  dp_GetReported :: "string \<Rightarrow> 'w \<Rightarrow> (svc_error + Reported option) \<times> 'w"
  dp_PublishDesired :: "(string \<Rightarrow> Desired \<Rightarrow> 'w \<Rightarrow> svc_error option \<times> 'w) option"
  dp_Devices :: "'w \<Rightarrow> (svc_error + Device list) \<times> 'w"
  dp_FiringCount :: "(string list \<Rightarrow> time \<Rightarrow> 'w \<Rightarrow> (svc_error + int) \<times> 'w) option"
  dp_PublishEvent :: "(RolloutEvent \<Rightarrow> 'w \<Rightarrow> svc_error option \<times> 'w) option"
  dp_Now :: "'w \<Rightarrow> time \<times> 'w"
  dp_NewString :: "'w \<Rightarrow> string \<times> 'w"
  dp_fmt :: reason_format

record Engine =
  en_active :: "(string \<times> Rollout) list"
  en_disconnectStaleAfter :: duration

definition NewEngine :: "duration \<Rightarrow> Engine" where
  "NewEngine disconnectStaleAfter = \<lparr>en_active = [], en_disconnectStaleAfter = disconnectStaleAfter\<rparr>"

abbreviation set_active :: "Rollout \<Rightarrow> Engine \<Rightarrow> Engine" where
  "set_active r e \<equiv> e\<lparr>en_active := AList.update (ro_ID r) r (en_active e)\<rparr>"

abbreviation del_active :: "Rollout \<Rightarrow> Engine \<Rightarrow> Engine" where
  "del_active r e \<equiv> e\<lparr>en_active := AList.delete (ro_ID r) (en_active e)\<rparr>"

definition ResumeAll :: "'w deps \<Rightarrow> Engine \<Rightarrow> 'w \<Rightarrow> svc_error option \<times> Engine \<times> 'w" where
  "ResumeAll dp e w =
     (case dp_ListNonTerminal dp w of
        (Inl err, w1) \<Rightarrow> (Some err, e, w1)
      | (Inr rollouts, w1) \<Rightarrow> (None, fold set_active rollouts e, w1))"

definition publish :: "'w deps \<Rightarrow> Rollout \<Rightarrow> string \<Rightarrow> (string \<times> json) list option \<Rightarrow> 'w \<Rightarrow> 'w" where
  "publish dp r evtType detail w =
     (case dp_PublishEvent dp of
        None \<Rightarrow> w
      | Some pub \<Rightarrow>
          (case dp_Now dp w of (now, w1) \<Rightarrow>
             snd (pub \<lparr>re_SchemaVersion = [], re_RolloutID = ro_ID r, re_Type = evtType,
                    re_StageIndex = ro_CurrentStageIndex r, re_Detail = detail, re_TimestampMS = UnixMilli now\<rparr> w1)))"

definition publishDesired :: "'w deps \<Rightarrow> string \<Rightarrow> Desired \<Rightarrow> 'w \<Rightarrow> 'w" where
  "publishDesired dp deviceID d w =
     (case dp_PublishDesired dp of None \<Rightarrow> w | Some pub \<Rightarrow> snd (pub deviceID d w))"

text \<open>The loop of \<^verbatim>\<open>evaluateStageHealth\<close> over the target ids: rejected and disconnected.\<close>

fun healthLoop :: "'w deps \<Rightarrow> (string \<Rightarrow> time option) \<Rightarrow> (string \<Rightarrow> u64) \<Rightarrow> duration \<Rightarrow> time \<Rightarrow> string list
    \<Rightarrow> int \<times> int \<Rightarrow> 'w \<Rightarrow> (int \<times> int) \<times> 'w" where
  "healthLoop dp lastSeen pushed stale now [] acc w = (acc, w)"
| "healthLoop dp lastSeen pushed stale now (i # is) (rejected, disconnected) w =
     (let disconnected' = (case lastSeen i of
            None \<Rightarrow> disconnected + 1
          | Some ls \<Rightarrow> if time_sub now ls > stale then disconnected + 1 else disconnected)
      in case dp_GetReported dp i w of
           (Inl err, w1) \<Rightarrow> healthLoop dp lastSeen pushed stale now is (rejected, disconnected') w1
         | (Inr rep, w1) \<Rightarrow>
             healthLoop dp lastSeen pushed stale now is
               (case rep of
                  None \<Rightarrow> rejected
                | Some r \<Rightarrow> if r_Rejected r \<and> r_RejectedRevision r = pushed i then rejected + 1 else rejected,
                disconnected') w1)"

definition lastSeenOf :: "Device list \<Rightarrow> string \<Rightarrow> time option" where
  "lastSeenOf all i = (case map_of (rev (map (\<lambda>d. (de_ID d, de_LastSeen d)) all)) i of None \<Rightarrow> None | Some ls \<Rightarrow> ls)"

definition pushedOf :: "Target list \<Rightarrow> string \<Rightarrow> u64" where
  "pushedOf targets i =
     (case map_of (rev (map (\<lambda>t. (ta_DeviceID t, ta_PushedRevision t)) targets)) i of None \<Rightarrow> 0 | Some rv \<Rightarrow> rv)"

definition evaluateStageHealth :: "'w deps \<Rightarrow> Engine \<Rightarrow> Rollout \<Rightarrow> Target list \<Rightarrow> 'w \<Rightarrow> (int \<times> int \<times> int) \<times> 'w" where
  "evaluateStageHealth dp e r targets w =
     (let targetIDs = map ta_DeviceID targets;
          (listed, w1) = dp_Devices dp w;
          all = (case listed of Inl _ \<Rightarrow> [] | Inr ds \<Rightarrow> ds);
          (now, w2) = dp_Now dp w1;
          ((rejected, disconnected), w3) =
            healthLoop dp (lastSeenOf all) (pushedOf targets) (en_disconnectStaleAfter e) now targetIDs (0, 0) w2
      in case dp_FiringCount dp of
           None \<Rightarrow> ((rejected, disconnected, 0), w3)
         | Some firing \<Rightarrow>
             (case firing targetIDs (ro_CurrentStageStartedAt r) w3 of
                (Inl _, w4) \<Rightarrow> ((rejected, disconnected, 0), w4)
              | (Inr n, w4) \<Rightarrow> ((rejected, disconnected, n), w4)))"

text \<open>The body of the loop of \<^verbatim>\<open>applyStage\<close>, and the loop over the stage's targets. The
  set of devices already targeted is not extended inside the loop.\<close>

definition applyTarget :: "'w deps \<Rightarrow> Rollout \<Rightarrow> string \<Rightarrow> 'w \<Rightarrow> 'w" where
  "applyTarget dp r i w =
     (case dp_GetDesired dp i w of
        (Inl err, w1) \<Rightarrow> w1
      | (Inr (preDesired, preRev), w1) \<Rightarrow>
          (case dp_SetDesired dp i (ro_DesiredConfig r) w1 of
             (Inl err, w2) \<Rightarrow> w2
           | (Inr pushed, w2) \<Rightarrow>
               (case dp_RecordTarget dp (ro_ID r)
                    \<lparr>ta_DeviceID = i, ta_IncludedAtStage = ro_CurrentStageIndex r,
                     ta_PreDesired = (if preRev > 0 then Some preDesired else None),
                     ta_PreRevision = preRev, ta_PushedRevision = d_Revision pushed\<rparr> w2 of
                  (err, w3) \<Rightarrow> publishDesired dp i pushed w3)))"

fun applyTargets :: "'w deps \<Rightarrow> Rollout \<Rightarrow> string set \<Rightarrow> string list \<Rightarrow> 'w \<Rightarrow> 'w" where
  "applyTargets dp r already [] w = w"
| "applyTargets dp r already (i # is) w =
     (if i \<in> already then applyTargets dp r already is w
      else applyTargets dp r already is (applyTarget dp r i w))"

definition stageAt :: "Rollout \<Rightarrow> Stage option" where
  "stageAt r =
     (if 0 \<le> ro_CurrentStageIndex r \<and> ro_CurrentStageIndex r < int (length (stages_of r))
      then Some (stages_of r ! nat (ro_CurrentStageIndex r)) else None)"

definition applyStage :: "'w deps \<Rightarrow> Rollout \<Rightarrow> 'w \<Rightarrow> 'w option" where
  "applyStage dp r w =
     (case dp_Devices dp w of
        (Inl err, w1) \<Rightarrow> Some w1
      | (Inr all, w1) \<Rightarrow>
          (case stageAt r of
             None \<Rightarrow> None
           | Some stage \<Rightarrow>
               (let targets = StageTargets (SelectCohort all (ro_Cohort r)) (sg_Percent stage) in
                case dp_ListTargets dp (ro_ID r) w1 of
                  (Inl err, w2) \<Rightarrow> Some w2
                | (Inr existing, w2) \<Rightarrow> Some (applyTargets dp r (ta_DeviceID ` set existing) targets w2))))"

definition advanceLocked :: "'w deps \<Rightarrow> Rollout \<Rightarrow> Engine \<Rightarrow> 'w \<Rightarrow> (Rollout \<times> Engine \<times> 'w) option" where
  "advanceLocked dp r e w =
     (let (now, w1) = dp_Now dp w;
          r1 = r\<lparr>ro_CurrentStageIndex := ro_CurrentStageIndex r + 1, ro_CurrentStageStartedAt := now\<rparr>;
          (_, w2) = dp_AdvanceStage dp (ro_ID r1) (ro_CurrentStageIndex r1) (ro_CurrentStageStartedAt r1) w1
      in case applyStage dp r1 w2 of
           None \<Rightarrow> None
         | Some w3 \<Rightarrow>
             Some (r1, set_active r1 e,
               publish dp r1 EventStageAdvanced (Some [(''stage_index'', JInt (ro_CurrentStageIndex r1))]) w3))"

definition completeLocked :: "'w deps \<Rightarrow> Rollout \<Rightarrow> Engine \<Rightarrow> 'w \<Rightarrow> Rollout \<times> Engine \<times> 'w" where
  "completeLocked dp r e w =
     (let r1 = r\<lparr>ro_State := Completed\<rparr>; (_, w1) = dp_UpdateState dp (ro_ID r1) Completed w
      in (r1, del_active r1 e, publish dp r1 EventCompleted None w1))"

fun rollbackTargets :: "'w deps \<Rightarrow> Target list \<Rightarrow> 'w \<Rightarrow> 'w" where
  "rollbackTargets dp [] w = w"
| "rollbackTargets dp (t # ts) w =
     (case ta_PreDesired t of
        None \<Rightarrow> rollbackTargets dp ts w
      | Some pre \<Rightarrow>
          (case dp_SetDesired dp (ta_DeviceID t) pre w of
             (Inl err, w1) \<Rightarrow> rollbackTargets dp ts w1
           | (Inr pushed, w1) \<Rightarrow> rollbackTargets dp ts (publishDesired dp (ta_DeviceID t) pushed w1)))"

definition rollbackLocked :: "'w deps \<Rightarrow> Rollout \<Rightarrow> Target list \<Rightarrow> string list \<Rightarrow> Engine \<Rightarrow> 'w \<Rightarrow> Rollout \<times> Engine \<times> 'w" where
  "rollbackLocked dp r targets reasons e w =
     (let w1 = rollbackTargets dp targets w;
          r1 = r\<lparr>ro_State := Aborted\<rparr>;
          (_, w2) = dp_UpdateState dp (ro_ID r1) Aborted w1;
          detail = Some [(''reasons'', JArray (map JString reasons))]
      in (r1, del_active r1 e, publish dp r1 EventAborted detail (publish dp r1 EventHealthBreached detail w2)))"

text \<open>\<^verbatim>\<open>tickOne\<close> in two parts: what to do (health first, then the bake time), and doing it.\<close>

datatype tick_decision = Keep | Breach "Target list" "string list" | Finish | Advance | OutOfRange

definition tickDecide :: "'w deps \<Rightarrow> Rollout \<Rightarrow> Engine \<Rightarrow> 'w \<Rightarrow> tick_decision \<times> 'w" where
  "tickDecide dp r e w =
     (if ro_State r \<noteq> Running then (Keep, w)
      else case dp_ListTargets dp (ro_ID r) w of
        (Inl err, w1) \<Rightarrow> (Keep, w1)
      | (Inr targets, w1) \<Rightarrow>
          (case evaluateStageHealth dp e r targets w1 of
             ((rejected, disconnected, errored), w2) \<Rightarrow>
               (case EvaluateHealth (dp_fmt dp) (ro_HealthCriteria r) (int (length targets)) rejected disconnected errored of
                  (True, reasons) \<Rightarrow> (Breach targets reasons, w2)
                | (False, _) \<Rightarrow>
                    (case stageAt r of
                       None \<Rightarrow> (OutOfRange, w2)
                     | Some stage \<Rightarrow>
                         (case dp_Now dp w2 of (now, w3) \<Rightarrow>
                            if time_sub now (ro_CurrentStageStartedAt r) < sg_BakeDuration stage then (Keep, w3)
                            else if ro_CurrentStageIndex r = int (length (stages_of r)) - 1 then (Finish, w3)
                            else (Advance, w3))))))"

definition tickOne :: "'w deps \<Rightarrow> Rollout \<Rightarrow> Engine \<Rightarrow> 'w \<Rightarrow> (Rollout \<times> Engine \<times> 'w) option" where
  "tickOne dp r e w =
     (case tickDecide dp r e w of
        (Keep, w1) \<Rightarrow> Some (r, e, w1)
      | (Breach targets reasons, w1) \<Rightarrow> Some (rollbackLocked dp r targets reasons e w1)
      | (Finish, w1) \<Rightarrow> Some (completeLocked dp r e w1)
      | (Advance, w1) \<Rightarrow> advanceLocked dp r e w1
      | (OutOfRange, w1) \<Rightarrow> None)"

fun tickEach :: "'w deps \<Rightarrow> Rollout list \<Rightarrow> Engine \<Rightarrow> 'w \<Rightarrow> (Engine \<times> 'w) option" where
  "tickEach dp [] e w = Some (e, w)"
| "tickEach dp (r # rs) e w =
     (case tickOne dp r e w of None \<Rightarrow> None | Some (_, e1, w1) \<Rightarrow> tickEach dp rs e1 w1)"

text \<open>The map's iteration order is the order of the list; \<^verbatim>\<open>tickOne\<close> only ever changes or
  removes the entry of the rollout it is given.\<close>

definition tickAll :: "'w deps \<Rightarrow> Engine \<Rightarrow> 'w \<Rightarrow> (Engine \<times> 'w) option" where
  "tickAll dp e w = tickEach dp (map snd (en_active e)) e w"

text \<open>\<^verbatim>\<open>Run\<close> up to the end of its context, after \<open>n\<close> ticks.\<close>

fun Engine_Run :: "'w deps \<Rightarrow> nat \<Rightarrow> Engine \<Rightarrow> 'w \<Rightarrow> (Engine \<times> 'w) option" where
  "Engine_Run dp 0 e w = Some (e, w)"
| "Engine_Run dp (Suc n) e w = (case tickAll dp e w of None \<Rightarrow> None | Some (e1, w1) \<Rightarrow> Engine_Run dp n e1 w1)"

datatype engine_error =
    InvalidRollout validate_rollout_error
  | NotRunning string
  | NotPaused string
  | NotActive string
  | EngineSvc svc_error

definition Engine_Create :: "'w deps \<Rightarrow> Rollout \<Rightarrow> Engine \<Rightarrow> 'w \<Rightarrow> ((engine_error + Rollout) \<times> Engine \<times> 'w) option" where
  "Engine_Create dp r e w =
     (case validateRollout r of
        Some err \<Rightarrow> Some (Inl (InvalidRollout err), e, w)
      | None \<Rightarrow>
          (let (u, w1) = dp_NewString dp w;
               (now, w2) = dp_Now dp w1;
               r1 = r\<lparr>ro_ID := u, ro_State := Running, ro_CurrentStageIndex := 0, ro_CurrentStageStartedAt := now\<rparr>
           in case dp_Create dp r1 w2 of
                (Some err, w3) \<Rightarrow> Some (Inl (EngineSvc err), e, w3)
              | (None, w3) \<Rightarrow>
                  (case applyStage dp r1 w3 of
                     None \<Rightarrow> None
                   | Some w4 \<Rightarrow>
                       Some (Inr r1, set_active r1 e,
                         publish dp r1 EventStageStarted (Some [(''stage_index'', JInt 0)]) w4))))"

definition Engine_Pause :: "'w deps \<Rightarrow> string \<Rightarrow> Engine \<Rightarrow> 'w \<Rightarrow> (engine_error + Rollout) \<times> Engine \<times> 'w" where
  "Engine_Pause dp id' e w =
     (case map_of (en_active e) id' of
        None \<Rightarrow> (Inl (NotRunning id'), e, w)
      | Some r \<Rightarrow>
          if ro_State r \<noteq> Running then (Inl (NotRunning id'), e, w)
          else let r1 = r\<lparr>ro_State := Paused\<rparr>; e1 = set_active r1 e in
            (case dp_UpdateState dp id' Paused w of
               (Some err, w1) \<Rightarrow> (Inl (EngineSvc err), e1, w1)
             | (None, w1) \<Rightarrow> (Inr r1, e1, publish dp r1 EventPaused None w1)))"

definition Engine_Resume :: "'w deps \<Rightarrow> string \<Rightarrow> Engine \<Rightarrow> 'w \<Rightarrow> (engine_error + Rollout) \<times> Engine \<times> 'w" where
  "Engine_Resume dp id' e w =
     (case map_of (en_active e) id' of
        None \<Rightarrow> (Inl (NotPaused id'), e, w)
      | Some r \<Rightarrow>
          if ro_State r \<noteq> Paused then (Inl (NotPaused id'), e, w)
          else let r1 = r\<lparr>ro_State := Running\<rparr>; e1 = set_active r1 e in
            (case dp_UpdateState dp id' Running w of
               (Some err, w1) \<Rightarrow> (Inl (EngineSvc err), e1, w1)
             | (None, w1) \<Rightarrow> (Inr r1, e1, publish dp r1 EventResumed None w1)))"

definition Engine_Abort :: "'w deps \<Rightarrow> string \<Rightarrow> Engine \<Rightarrow> 'w \<Rightarrow> (engine_error + Rollout) \<times> Engine \<times> 'w" where
  "Engine_Abort dp id' e w =
     (case map_of (en_active e) id' of
        None \<Rightarrow> (Inl (NotActive id'), e, w)
      | Some r \<Rightarrow>
          (case dp_ListTargets dp id' w of
             (Inl err, w1) \<Rightarrow> (Inl (EngineSvc err), e, w1)
           | (Inr targets, w1) \<Rightarrow>
               (case rollbackLocked dp r targets [''manually aborted''] e w1 of
                  (r1, e1, w2) \<Rightarrow> (Inr r1, e1, w2))))"

definition Engine_Get :: "'w deps \<Rightarrow> string \<Rightarrow> Engine \<Rightarrow> 'w \<Rightarrow> (svc_error + Rollout option) \<times> 'w" where
  "Engine_Get dp id' e w =
     (case map_of (en_active e) id' of Some r \<Rightarrow> (Inr (Some r), w) | None \<Rightarrow> dp_Get dp id' w)"

definition Engine_List :: "'w deps \<Rightarrow> 'w \<Rightarrow> (svc_error + Rollout list) \<times> 'w" where
  "Engine_List dp w = dp_List dp w"

text \<open>The publisher of lifecycle events, and the dependencies of the running service.\<close>

definition marshal_RolloutEvent :: "RolloutEvent \<Rightarrow> json" where
  "marshal_RolloutEvent e = JObject (
     [(''schema_version'', JString (re_SchemaVersion e)), (''rollout_id'', JString (re_RolloutID e)),
      (''type'', JString (re_Type e)), (''stage_index'', JInt (re_StageIndex e))]
     @ omit_list ''detail'' JObject (re_Detail e)
     @ [(''timestamp_ms'', JInt (re_TimestampMS e))])"

definition rollout_SchemaVersion :: string where "rollout_SchemaVersion = ''1.0''"

definition Publisher_Publish :: "RolloutEvent \<Rightarrow> 'kv world \<Rightarrow> svc_error option \<times> 'kv world" where
  "Publisher_Publish evt w =
     (case on_js (bus_publish (RolloutEventsSubject (re_RolloutID evt))
              (marshal_RolloutEvent (evt\<lparr>re_SchemaVersion := rollout_SchemaVersion\<rparr>))) w of
        (None, w1) \<Rightarrow> (None, w1) | (Some e, w1) \<Rightarrow> (Some (SvcPub e), w1))"

definition pg_res :: "(pg_error + 'a) \<times> 'w \<Rightarrow> (svc_error + 'a) \<times> 'w" where
  "pg_res x = (map_sum SvcPg id (fst x), snd x)"

definition pg_err :: "pg_error option \<times> 'w \<Rightarrow> svc_error option \<times> 'w" where
  "pg_err x = (map_option SvcPg (fst x), snd x)"

definition prodDeps :: "'kv kvops \<Rightarrow> reason_format \<Rightarrow> bool \<Rightarrow> 'kv world deps" where
  "prodDeps kv fmt mqttUp =
     \<lparr>dp_Create = (\<lambda>r w. pg_err (on_pg_now (\<lambda>t. Rollouts_Create t r) w)),
      dp_Get = (\<lambda>i w. pg_res (on_pg (Rollouts_Get i) w)),
      dp_List = (\<lambda>w. pg_res (on_pg Rollouts_List w)),
      dp_ListNonTerminal = (\<lambda>w. pg_res (on_pg ListNonTerminal w)),
      dp_UpdateState = (\<lambda>i s w. pg_err (on_pg_now (\<lambda>t. UpdateState t i s) w)),
      dp_AdvanceStage = (\<lambda>i k at' w. pg_err (on_pg_now (\<lambda>t. AdvanceStage t i k at') w)),
      dp_RecordTarget = (\<lambda>i t w. pg_err (on_pg (RecordTarget i t) w)),
      dp_ListTargets = (\<lambda>i w. pg_res (on_pg (ListTargets i) w)),
      dp_SetDesired = SetDesired kv,
      dp_GetDesired = GetDesired kv,
      dp_GetReported = GetReported kv,
      dp_PublishDesired = (if mqttUp then Some PublishDesired else None),
      dp_Devices = (\<lambda>w. pg_res (on_pg Devices_List w)),
      dp_FiringCount = Some (\<lambda>ids since w. pg_res (on_pg (FiringCountForDevices ids since) w)),
      dp_PublishEvent = Some Publisher_Publish,
      dp_Now = time_Now,
      dp_NewString = uuid_NewString,
      dp_fmt = fmt\<rparr>"

end
