(* ===== verification/RolloutSafety.thy ===== *)
theory RolloutSafety
  imports RolloutEngine
begin

text \<open>
  What the rollout engine guarantees. The locale \<open>engine_env\<close> collects the contracts of the
  interfaces the engine is built on; inside it the engine's snapshots and rollback are proved correct for
  any environment that keeps them. The stores of the running service are such an environment.
\<close>

section \<open>Ghost state\<close>

text \<open>The devices whose push was started but not both written and recorded, and those whose revert
  failed.\<close>

definition pushFailed :: "'w deps \<Rightarrow> Rollout \<Rightarrow> string \<Rightarrow> 'w \<Rightarrow> bool" where
  "pushFailed dp r i w =
     (case dp_GetDesired dp i w of
        (Inl err, w1) \<Rightarrow> False
      | (Inr (preDesired, preRev), w1) \<Rightarrow>
          (case dp_SetDesired dp i (ro_DesiredConfig r) w1 of
             (Inl err, w2) \<Rightarrow> True
           | (Inr pushed, w2) \<Rightarrow>
               fst (dp_RecordTarget dp (ro_ID r)
                    \<lparr>ta_DeviceID = i, ta_IncludedAtStage = ro_CurrentStageIndex r,
                     ta_PreDesired = (if preRev > 0 then Some preDesired else None),
                     ta_PreRevision = preRev, ta_PushedRevision = d_Revision pushed\<rparr> w2) \<noteq> None))"

fun applyFailures :: "'w deps \<Rightarrow> Rollout \<Rightarrow> string set \<Rightarrow> string list \<Rightarrow> 'w \<Rightarrow> string set" where
  "applyFailures dp r already [] w = {}"
| "applyFailures dp r already (i # is) w =
     (if i \<in> already then applyFailures dp r already is w
      else (if pushFailed dp r i w then {i} else {}) \<union> applyFailures dp r already is (applyTarget dp r i w))"

definition stageFailures :: "'w deps \<Rightarrow> Rollout \<Rightarrow> 'w \<Rightarrow> string set" where
  "stageFailures dp r w =
     (case dp_Devices dp w of
        (Inl err, w1) \<Rightarrow> {}
      | (Inr all, w1) \<Rightarrow>
          (case stageAt r of
             None \<Rightarrow> {}
           | Some stage \<Rightarrow>
               (case dp_ListTargets dp (ro_ID r) w1 of
                  (Inl err, w2) \<Rightarrow> {}
                | (Inr existing, w2) \<Rightarrow>
                    applyFailures dp r (ta_DeviceID ` set existing)
                      (StageTargets (SelectCohort all (ro_Cohort r)) (sg_Percent stage)) w2)))"

fun rollbackFailures :: "'w deps \<Rightarrow> Target list \<Rightarrow> 'w \<Rightarrow> string set" where
  "rollbackFailures dp [] w = {}"
| "rollbackFailures dp (t # ts) w =
     (case ta_PreDesired t of
        None \<Rightarrow> rollbackFailures dp ts w
      | Some pre \<Rightarrow>
          (case dp_SetDesired dp (ta_DeviceID t) pre w of
             (Inl err, w1) \<Rightarrow> insert (ta_DeviceID t) (rollbackFailures dp ts w1)
           | (Inr pushed, w1) \<Rightarrow> rollbackFailures dp ts (publishDesired dp (ta_DeviceID t) pushed w1)))"

definition advanceFailures :: "'w deps \<Rightarrow> Rollout \<Rightarrow> 'w \<Rightarrow> string set" where
  "advanceFailures dp r w =
     (let (now, w1) = dp_Now dp w;
          r1 = r\<lparr>ro_CurrentStageIndex := ro_CurrentStageIndex r + 1, ro_CurrentStageStartedAt := now\<rparr>;
          (_, w2) = dp_AdvanceStage dp (ro_ID r1) (ro_CurrentStageIndex r1) (ro_CurrentStageStartedAt r1) w1
      in stageFailures dp r1 w2)"

definition tickFailures :: "'w deps \<Rightarrow> Rollout \<Rightarrow> Engine \<Rightarrow> 'w \<Rightarrow> string set" where
  "tickFailures dp r e w = (case tickDecide dp r e w of (Advance, w1) \<Rightarrow> advanceFailures dp r w1 | _ \<Rightarrow> {})"

definition createFailures :: "'w deps \<Rightarrow> Rollout \<Rightarrow> 'w \<Rightarrow> string set" where
  "createFailures dp r w =
     (let (u, w1) = dp_NewString dp w;
          (now, w2) = dp_Now dp w1;
          r1 = r\<lparr>ro_ID := u, ro_State := Running, ro_CurrentStageIndex := 0, ro_CurrentStageStartedAt := now\<rparr>
      in stageFailures dp r1 (snd (dp_Create dp r1 w2)))"

text \<open>The life of one rollout while it is active: it is created, ticked, paused and resumed. \<open>c0\<close> is
  what the devices were configured with before, \<open>F\<close> the devices whose push failed on the way.\<close>

inductive rolloutRun :: "'w deps \<Rightarrow> ('w \<Rightarrow> string \<Rightarrow> Desired option) \<Rightarrow> (string \<Rightarrow> Desired option) \<Rightarrow> string set
    \<Rightarrow> Rollout \<Rightarrow> Engine \<Rightarrow> 'w \<Rightarrow> 'w \<Rightarrow> bool" for dp config where
  run_create: "Engine_Create dp r0 e0 w0 = Some (Inr r, e, w) \<Longrightarrow>
     rolloutRun dp config (config w0) (createFailures dp r0 w0) r e w0 w"
| run_tick: "rolloutRun dp config c0 F r e w0 w \<Longrightarrow> tickOne dp r e w = Some (r', e', w') \<Longrightarrow>
     map_of (en_active e') (ro_ID r) = Some r' \<Longrightarrow> rolloutRun dp config c0 (F \<union> tickFailures dp r e w) r' e' w0 w'"
| run_pause: "rolloutRun dp config c0 F r e w0 w \<Longrightarrow> Engine_Pause dp (ro_ID r) e w = (res, e', w') \<Longrightarrow>
     map_of (en_active e') (ro_ID r) = Some r' \<Longrightarrow> rolloutRun dp config c0 F r' e' w0 w'"
| run_resume: "rolloutRun dp config c0 F r e w0 w \<Longrightarrow> Engine_Resume dp (ro_ID r) e w = (res, e', w') \<Longrightarrow>
     map_of (en_active e') (ro_ID r) = Some r' \<Longrightarrow> rolloutRun dp config c0 F r' e' w0 w'"

definition abortFailures :: "'w deps \<Rightarrow> string \<Rightarrow> 'w \<Rightarrow> string set" where
  "abortFailures dp rid w =
     (case dp_ListTargets dp rid w of (Inl _, w1) \<Rightarrow> {} | (Inr ts, w1) \<Rightarrow> rollbackFailures dp ts w1)"

definition breachFailures :: "'w deps \<Rightarrow> Rollout \<Rightarrow> Engine \<Rightarrow> 'w \<Rightarrow> string set" where
  "breachFailures dp r e w =
     (case tickDecide dp r e w of (Breach ts rs, w1) \<Rightarrow> rollbackFailures dp ts w1 | _ \<Rightarrow> {})"

text \<open>The rollout's id, the registered devices and the devices named by the cohort are spelled the way
  the database spells them.\<close>

definition canonCohort :: "(string \<Rightarrow> bool) \<Rightarrow> string set \<Rightarrow> Rollout \<Rightarrow> bool" where
  "canonCohort canon devs r \<longleftrightarrow> canon (ro_ID r) \<and> (\<forall>i \<in> devs. canon i) \<and>
     (\<forall>is. co_DeviceIDs (ro_Cohort r) = Some is \<longrightarrow> (\<forall>i \<in> set is. canon i))"

text \<open>The devices a rollback sets back.\<close>

definition revertIDs :: "Target list \<Rightarrow> string list" where
  "revertIDs ts = map ta_DeviceID (filter (\<lambda>t. ta_PreDesired t \<noteq> None) ts)"

text \<open>A recorded target carries the configuration the device had at \<open>c0\<close>.\<close>

definition snapTarget :: "(string \<Rightarrow> Desired option) \<Rightarrow> Target \<Rightarrow> bool" where
  "snapTarget c0 t \<longleftrightarrow> map_option normD (ta_PreDesired t) = c0 (ta_DeviceID t) \<and> target_ok t"

definition snap :: "('w \<Rightarrow> string \<Rightarrow> Desired option) \<Rightarrow> ('w \<Rightarrow> string \<Rightarrow> Target list)
    \<Rightarrow> (string \<Rightarrow> Desired option) \<Rightarrow> string set \<Rightarrow> string \<Rightarrow> 'w \<Rightarrow> bool" where
  "snap config tgts c0 F rid w \<longleftrightarrow>
     distinct (map ta_DeviceID (tgts w rid)) \<and>
     (\<forall>t \<in> set (tgts w rid). target_ok t \<and> (ta_DeviceID t \<notin> F \<longrightarrow> snapTarget c0 t)) \<and>
     (\<forall>i. i \<notin> F \<longrightarrow> i \<notin> ta_DeviceID ` set (tgts w rid) \<longrightarrow> config w i = c0 i)"

section \<open>Steps of the engine on one rollout\<close>

definition same_rollout :: "Rollout \<Rightarrow> Rollout \<Rightarrow> bool" where
  "same_rollout r r' \<longleftrightarrow> ro_ID r' = ro_ID r \<and> ro_Cohort r' = ro_Cohort r \<and> ro_DesiredConfig r' = ro_DesiredConfig r \<and>
     ro_Stages r' = ro_Stages r \<and> ro_HealthCriteria r' = ro_HealthCriteria r"

lemma tickOne_same: "tickOne dp r e w = Some (r', e', w') \<Longrightarrow> same_rollout r r'"
  by (auto simp: tickOne_def advanceLocked_def completeLocked_def rollbackLocked_def Let_def same_rollout_def
      split: tick_decision.splits prod.splits option.splits)

lemma pause_same:
  assumes "Engine_Pause dp i e w = (res, e', w')" and "map_of (en_active e) i = Some r" and "ro_ID r = i"
    and "map_of (en_active e') i = Some r'"
  shows "same_rollout r r'"
  using assms
  by (auto simp: Engine_Pause_def Let_def same_rollout_def update_conv split: if_splits prod.splits option.splits)

lemma resume_same:
  assumes "Engine_Resume dp i e w = (res, e', w')" and "map_of (en_active e) i = Some r" and "ro_ID r = i"
    and "map_of (en_active e') i = Some r'"
  shows "same_rollout r r'"
  using assms
  by (auto simp: Engine_Resume_def Let_def same_rollout_def update_conv split: if_splits prod.splits option.splits)

lemma run_active: "rolloutRun dp config c0 F r e w0 w \<Longrightarrow> map_of (en_active e) (ro_ID r) = Some r"
proof (induction rule: rolloutRun.induct)
  case (run_create r0 e0 w0 r e w)
  then show ?case
    by (auto simp: Engine_Create_def Let_def update_conv split: option.splits prod.splits)
next
  case (run_tick c0 F r e w0 w r' e' w')
  then show ?case using tickOne_same [OF run_tick.hyps(2)] by (simp add: same_rollout_def)
next
  case (run_pause c0 F r e w0 w res e' w' r')
  then show ?case using pause_same [OF run_pause.hyps(2) run_pause.IH _ run_pause.hyps(3)] by (simp add: same_rollout_def)
next
  case (run_resume c0 F r e w0 w res e' w' r')
  then show ?case using resume_same [OF run_resume.hyps(2) run_resume.IH _ run_resume.hyps(3)] by (simp add: same_rollout_def)
qed

lemma run_state: "rolloutRun dp config c0 F r e w0 w \<Longrightarrow> ro_State r = Running \<or> ro_State r = Paused"
proof (induction rule: rolloutRun.induct)
  case (run_create r0 e0 w0 r e w)
  then show ?case by (auto simp: Engine_Create_def Let_def split: option.splits prod.splits)
next
  case (run_tick c0 F r e w0 w r' e' w')
  then show ?case
    by (auto simp: tickOne_def advanceLocked_def completeLocked_def rollbackLocked_def Let_def delete_conv
        split: tick_decision.splits prod.splits option.splits)
next
  case (run_pause c0 F r e w0 w res e' w' r')
  then show ?case using run_active [OF run_pause.hyps(1)]
    by (auto simp: Engine_Pause_def Let_def update_conv split: if_splits prod.splits option.splits)
next
  case (run_resume c0 F r e w0 w res e' w' r')
  then show ?case using run_active [OF run_resume.hyps(1)]
    by (auto simp: Engine_Resume_def Let_def update_conv split: if_splits prod.splits option.splits)
qed

section \<open>The contract of the environment\<close>

locale engine_env = shadow_setter "dp_SetDesired dp" "dp_GetDesired dp" "dp_GetReported dp" config revision
    "\<lambda>w. (tgts w, canon w, devs w)"
  for dp :: "'w deps" and config and revision and tgts :: "'w \<Rightarrow> string \<Rightarrow> Target list"
    and canon :: "'w \<Rightarrow> string \<Rightarrow> bool" and devs :: "'w \<Rightarrow> string set" +
  fixes view :: "'w \<Rightarrow> (string \<Rightarrow> Desired option) \<times> (string \<Rightarrow> Target list) \<times> (string \<Rightarrow> bool) \<times> string set"
  assumes view: "view w = (config w, tgts w, canon w, devs w)"
    and list_ok: "dp_ListTargets dp rid w = (Inr ts, w') \<Longrightarrow> canon w rid \<Longrightarrow> ts = tgts w rid"
    and devices_ok: "dp_Devices dp w = (Inr ds, w') \<Longrightarrow> de_ID ` set ds \<subseteq> devs w"
    and record_step: "dp_RecordTarget dp rid t w = (r, w') \<Longrightarrow> target_ok t \<Longrightarrow> canon w rid \<Longrightarrow> canon w (ta_DeviceID t) \<Longrightarrow>
      config w' = config w \<and> canon w' = canon w \<and> devs w' = devs w \<and>
      (tgts w' = tgts w \<and> (r = None \<longrightarrow> ta_DeviceID t \<in> ta_DeviceID ` set (tgts w rid)) \<or>
       tgts w' = (tgts w)(rid := tgts w rid @ [normT t]) \<and> ta_DeviceID t \<notin> ta_DeviceID ` set (tgts w rid))"
    and list_view: "view (snd (dp_ListTargets dp rid w)) = view w"
    and devices_view: "view (snd (dp_Devices dp w)) = view w"
    and create_view: "view (snd (dp_Create dp ro w)) = view w"
    and update_view: "view (snd (dp_UpdateState dp rid st w)) = view w"
    and advance_view: "view (snd (dp_AdvanceStage dp rid k t' w)) = view w"
    and firing_view: "dp_FiringCount dp = Some fc \<Longrightarrow> view (snd (fc ids since w)) = view w"
    and pub_view: "dp_PublishDesired dp = Some pub \<Longrightarrow> view (snd (pub i d w)) = view w"
    and event_view: "dp_PublishEvent dp = Some ev \<Longrightarrow> view (snd (ev evt w)) = view w"
    and now_view: "view (snd (dp_Now dp w)) = view w"
    and id_view: "view (snd (dp_NewString dp w)) = view w"
begin

abbreviation snapped where "snapped \<equiv> snap config tgts"

lemma snapped_view: "view w' = view w \<Longrightarrow> snapped c0 F rid w' = snapped c0 F rid w"
  by (simp add: view snap_def)

lemma publishDesired_view: "view (publishDesired dp i d w) = view w"
  by (simp add: publishDesired_def pub_view split: option.splits)

lemma publish_view: "view (publish dp r ty dt w) = view w"
  using now_view [of w] by (auto simp: publish_def event_view split: option.splits prod.splits)

lemma get_view: "view (snd (dp_GetDesired dp i w)) = view w"
  using get_state [of i w] by (simp add: view)

lemma getr_view: "view (snd (dp_GetReported dp i w)) = view w"
  using getr_state [of i w] by (simp add: view)

lemma set_tgts: "tgts (snd (dp_SetDesired dp i d w)) = tgts w" "canon (snd (dp_SetDesired dp i d w)) = canon w"
  "devs (snd (dp_SetDesired dp i d w)) = devs w"
  using set_frame [of i d w] by simp_all

lemma healthLoop_view: "view (snd (healthLoop dp ls ps st now is acc w)) = view w"
proof (induction "is" arbitrary: acc w)
  case (Cons i "is")
  obtain rj dc where acc: "acc = (rj, dc)" by (cases acc)
  obtain rep w1 where g: "dp_GetReported dp i w = (rep, w1)" by (cases "dp_GetReported dp i w")
  then have "view w1 = view w" using getr_view [of i w] by simp
  with Cons.IH show ?case by (cases rep) (simp_all add: acc g Let_def)
qed simp

lemma health_view: "view (snd (evaluateStageHealth dp e r ts w)) = view w"
proof -
  obtain ds w1 where d: "dp_Devices dp w = (ds, w1)" by (cases "dp_Devices dp w")
  obtain now w2 where n: "dp_Now dp w1 = (now, w2)" by (cases "dp_Now dp w1")
  have "view w2 = view w" using devices_view [of w] now_view [of w1] d n by simp
  then show ?thesis
    using healthLoop_view
    by (auto simp: evaluateStageHealth_def d n Let_def firing_view split: prod.splits option.splits sum.splits)
      (metis firing_view snd_conv)+
qed

lemma set_desired_effect:
  assumes "desired_ok d" and "dp_SetDesired dp i d w = (res, w')"
  shows "tgts w' = tgts w" and "canon w' = canon w" and "devs w' = devs w"
    and "j \<noteq> i \<Longrightarrow> config w' j = config w j"
    and "res = Inr p \<Longrightarrow> config w' i = Some (normD d)"
  using set_tgts [of i d w] set_other [OF assms(1), of j i w] set_ok [OF assms(1), of i w p w'] assms(2)
  by auto

text \<open>One push: a device outside the failures is snapshotted with the configuration it had.\<close>

lemma applyTarget_snapped:
  assumes inv: "snapped c0 F (ro_ID r) w" and cr: "canon w (ro_ID r)" and ci: "canon w i"
    and ok: "desired_ok (ro_DesiredConfig r)"
  shows "snapped c0 (F \<union> (if pushFailed dp r i w then {i} else {})) (ro_ID r) (applyTarget dp r i w)"
    and "canon (applyTarget dp r i w) = canon w" and "devs (applyTarget dp r i w) = devs w"
proof -
  let ?rid = "ro_ID r" and ?w' = "applyTarget dp r i w"
  obtain g w1 where g: "dp_GetDesired dp i w = (g, w1)" by (cases "dp_GetDesired dp i w")
  then have v1: "view w1 = view w" using get_view [of i w] by simp
  have goal: "snapped c0 (F \<union> (if pushFailed dp r i w then {i} else {})) ?rid ?w' \<and> canon ?w' = canon w \<and> devs ?w' = devs w"
  proof (cases g)
    case (Inl err)
    then have v: "view ?w' = view w" and "\<not> pushFailed dp r i w"
      using v1 by (simp_all add: applyTarget_def pushFailed_def g)
    with inv snapped_view [OF v] show ?thesis by (simp add: view)
  next
    case (Inr pr)
    obtain pre prv where pr: "pr = (pre, prv)" by (cases pr)
    obtain res w2 where s: "dp_SetDesired dp i (ro_DesiredConfig r) w1 = (res, w2)"
      by (cases "dp_SetDesired dp i (ro_DesiredConfig r) w1")
    note eff = set_desired_effect [OF ok s]
    have v2: "tgts w2 = tgts w" "canon w2 = canon w" "devs w2 = devs w" "\<And>j. j \<noteq> i \<Longrightarrow> config w2 j = config w j"
      using eff v1 by (auto simp: view)
    show ?thesis
    proof (cases res)
      case (Inl err)
      then have "?w' = w2" "pushFailed dp r i w" using Inr pr by (simp_all add: applyTarget_def pushFailed_def g s)
      with inv v2 show ?thesis by (auto simp: snap_def)
    next
      case (Inr pushed)
      define t where "t = \<lparr>ta_DeviceID = i, ta_IncludedAtStage = ro_CurrentStageIndex r,
          ta_PreDesired = (if prv > 0 then Some pre else None), ta_PreRevision = prv, ta_PushedRevision = d_Revision pushed\<rparr>"
      obtain err w3 where rec: "dp_RecordTarget dp ?rid t w2 = (err, w3)" by (cases "dp_RecordTarget dp ?rid t w2")
      have pf: "pushFailed dp r i w \<longleftrightarrow> err \<noteq> None"
        and w': "?w' = publishDesired dp i pushed w3"
        using \<open>g = Inr pr\<close> pr Inr rec by (simp_all add: applyTarget_def pushFailed_def g s t_def [symmetric])
      have got: "prv = 0 \<and> config w i = None \<or> prv > 0 \<and> desired_ok pre \<and> config w i = Some (normD pre)"
        using get_ok [of i w pre prv w1] g \<open>g = Inr pr\<close> pr by auto
      then have t: "target_ok t" "map_option normD (ta_PreDesired (normT t)) = config w i" "ta_DeviceID t = i"
        "ta_DeviceID (normT t) = i" "target_ok (normT t)"
        by (auto simp: target_ok_def t_def normT_def normD_def drop_empty_def)
      have step: "config w3 = config w2" "canon w3 = canon w" "devs w3 = devs w"
        "tgts w3 = tgts w \<and> (err = None \<longrightarrow> i \<in> ta_DeviceID ` set (tgts w ?rid)) \<or>
         tgts w3 = (tgts w)(?rid := tgts w ?rid @ [normT t]) \<and> i \<notin> ta_DeviceID ` set (tgts w ?rid)"
        using record_step [OF rec t(1)] cr ci v2 t(3) by auto
      have c: "config ?w' = config w2" "tgts ?w' = tgts w3" "canon ?w' = canon w" "devs ?w' = devs w"
        using publishDesired_view [of i pushed w3] step by (auto simp: w' view)
      from step(4) have "snapped c0 (F \<union> (if err \<noteq> None then {i} else {})) ?rid ?w'"
      proof
        assume k: "tgts w3 = tgts w \<and> (err = None \<longrightarrow> i \<in> ta_DeviceID ` set (tgts w ?rid))"
        have "config w2 j = config w j"
          if "j \<notin> F \<union> (if err \<noteq> None then {i} else {})" "j \<notin> ta_DeviceID ` set (tgts w ?rid)" for j
          using that k v2(4) [of j] by (cases err) auto
        with inv k show ?thesis by (auto simp: snap_def c)
      next
        assume n: "tgts w3 = (tgts w)(?rid := tgts w ?rid @ [normT t]) \<and> i \<notin> ta_DeviceID ` set (tgts w ?rid)"
        have "i \<notin> F \<Longrightarrow> snapTarget c0 (normT t)"
          using inv n t by (auto simp: snap_def snapTarget_def)
        with n inv v2(4) t show ?thesis by (auto simp: snap_def c)
      qed
      with c pf show ?thesis by simp
    qed
  qed
  then show "snapped c0 (F \<union> (if pushFailed dp r i w then {i} else {})) ?rid ?w'"
    "canon ?w' = canon w" "devs ?w' = devs w" by simp_all
qed

lemma applyTargets_snapped:
  assumes "snapped c0 F (ro_ID r) w" and "canon w (ro_ID r)" and "\<forall>i \<in> set is. canon w i"
    and "desired_ok (ro_DesiredConfig r)"
  shows "snapped c0 (F \<union> applyFailures dp r A is w) (ro_ID r) (applyTargets dp r A is w) \<and>
    canon (applyTargets dp r A is w) = canon w \<and> devs (applyTargets dp r A is w) = devs w"
  using assms
proof (induction "is" arbitrary: w F)
  case (Cons i "is")
  show ?case
  proof (cases "i \<in> A")
    case False
    have "canon w i" using Cons.prems by simp
    note st = applyTarget_snapped [OF Cons.prems(1,2) this Cons.prems(4)]
    have "snapped c0 (F \<union> (if pushFailed dp r i w then {i} else {}) \<union> applyFailures dp r A is (applyTarget dp r i w))
        (ro_ID r) (applyTargets dp r A is (applyTarget dp r i w)) \<and>
      canon (applyTargets dp r A is (applyTarget dp r i w)) = canon (applyTarget dp r i w) \<and>
      devs (applyTargets dp r A is (applyTarget dp r i w)) = devs (applyTarget dp r i w)"
      using st(2) Cons.prems by (intro Cons.IH st(1)) simp_all
    with False st(2,3) show ?thesis by (simp add: Un_assoc)
  qed (use Cons in simp)
qed simp

text \<open>A stage: the devices it may push to are those of the cohort.\<close>

abbreviation cohort_canon where "cohort_canon r w \<equiv> canonCohort (canon w) (devs w) r"

lemma SelectCohort_canon:
  assumes "cohort_canon r w" and "de_ID ` set ds \<subseteq> devs w" and "i \<in> set (StageTargets (SelectCohort ds (ro_Cohort r)) p)"
  shows "canon w i"
proof -
  have "i \<in> set (SelectCohort ds (ro_Cohort r))" using assms(3) by (simp add: StageTargets_clamp)
  with assms(1,2) show ?thesis
    by (auto simp: SelectCohort_def canonCohort_def split: option.splits list.splits)
qed

lemma applyStage_snapped:
  assumes "snapped c0 F (ro_ID r) w" and "cohort_canon r w" and "desired_ok (ro_DesiredConfig r)"
    and "applyStage dp r w = Some w'"
  shows "snapped c0 (F \<union> stageFailures dp r w) (ro_ID r) w' \<and> canon w' = canon w \<and> devs w' = devs w"
proof -
  obtain ds w1 where d: "dp_Devices dp w = (ds, w1)" by (cases "dp_Devices dp w")
  have v1: "view w1 = view w" using devices_view [of w] d by simp
  show ?thesis
  proof (cases ds)
    case (Inl err)
    then show ?thesis
      using assms(1,4) v1 snapped_view [OF v1] by (auto simp: applyStage_def stageFailures_def d view)
  next
    case (Inr all)
    obtain stage where st: "stageAt r = Some stage" using assms(4) Inr by (auto simp: applyStage_def d split: option.splits)
    obtain ex w2 where l: "dp_ListTargets dp (ro_ID r) w1 = (ex, w2)" by (cases "dp_ListTargets dp (ro_ID r) w1")
    have v2: "view w2 = view w" using list_view [of "ro_ID r" w1] l v1 by simp
    show ?thesis
    proof (cases ex)
      case (Inl err)
      then show ?thesis
        using assms(1,4) v2 snapped_view [OF v2] Inr by (auto simp: applyStage_def stageFailures_def d l st view)
    next
      case ex: (Inr existing)
      let ?is = "StageTargets (SelectCohort all (ro_Cohort r)) (sg_Percent stage)"
      have c: "canon w2 = canon w" "devs w2 = devs w" using v2 by (simp_all add: view)
      have "\<forall>i \<in> set ?is. canon w2 i"
        using SelectCohort_canon [OF assms(2)] devices_ok [of w all w1] d Inr c by simp
      moreover have "snapped c0 F (ro_ID r) w2" using snapped_view [OF v2] assms(1) by simp
      moreover have "canon w2 (ro_ID r)" using assms(2) c by (simp add: canonCohort_def)
      ultimately have "snapped c0 (F \<union> applyFailures dp r (ta_DeviceID ` set existing) ?is w2) (ro_ID r)
            (applyTargets dp r (ta_DeviceID ` set existing) ?is w2) \<and>
          canon (applyTargets dp r (ta_DeviceID ` set existing) ?is w2) = canon w2 \<and>
          devs (applyTargets dp r (ta_DeviceID ` set existing) ?is w2) = devs w2"
        by (intro applyTargets_snapped assms(3))
      then show ?thesis
        using assms(4) Inr ex c by (auto simp: applyStage_def stageFailures_def d l st Let_def)
    qed
  qed
qed

lemma rollback_effect:
  assumes "\<forall>t \<in> set ts. target_ok t" and "distinct (map ta_DeviceID ts)"
  shows "tgts (rollbackTargets dp ts w) = tgts w \<and> canon (rollbackTargets dp ts w) = canon w \<and>
    (\<forall>i. i \<notin> set (revertIDs ts) \<longrightarrow> config (rollbackTargets dp ts w) i = config w i) \<and>
    (\<forall>t \<in> set ts. \<forall>d. ta_PreDesired t = Some d \<longrightarrow> ta_DeviceID t \<notin> rollbackFailures dp ts w \<longrightarrow>
       config (rollbackTargets dp ts w) (ta_DeviceID t) = Some (normD d))"
  using assms
proof (induction ts arbitrary: w)
  case (Cons t ts)
  show ?case
  proof (cases "ta_PreDesired t")
    case None
    with Cons.IH [of w] Cons.prems show ?thesis by (simp add: revertIDs_def)
  next
    case (Some pre)
    have ok: "desired_ok pre" using Cons.prems Some by (simp add: target_ok_def)
    obtain res w1 where s: "dp_SetDesired dp (ta_DeviceID t) pre w = (res, w1)"
      by (cases "dp_SetDesired dp (ta_DeviceID t) pre w")
    note eff = set_desired_effect [OF ok s]
    have "ta_DeviceID t \<notin> ta_DeviceID ` set ts" using Cons.prems by simp
    then have fresh: "ta_DeviceID t \<notin> set (revertIDs ts)" "\<And>u. u \<in> set ts \<Longrightarrow> ta_DeviceID u \<noteq> ta_DeviceID t"
      by (auto simp: revertIDs_def image_iff)
    have ids: "revertIDs (t # ts) = ta_DeviceID t # revertIDs ts" using Some by (simp add: revertIDs_def)
    show ?thesis
    proof (cases res)
      case (Inl err)
      with Some s fresh eff Cons.IH [of w1] Cons.prems show ?thesis by (auto simp: ids)
    next
      case (Inr pushed)
      let ?w2 = "publishDesired dp (ta_DeviceID t) pushed w1"
      have v: "tgts ?w2 = tgts w1" "canon ?w2 = canon w1" "config ?w2 = config w1"
        using publishDesired_view [of "ta_DeviceID t" pushed w1] by (simp_all add: view)
      from Some s Inr fresh eff v Cons.IH [of ?w2] Cons.prems show ?thesis by (auto simp: ids)
    qed
  qed
qed simp

lemma rollback_restores:
  assumes "snapped c0 F rid w" and "i \<notin> F" and "i \<notin> rollbackFailures dp (tgts w rid) w" and "c0 i \<noteq> None"
  shows "config (rollbackTargets dp (tgts w rid) w) i = c0 i"
proof -
  have ok: "\<forall>t \<in> set (tgts w rid). target_ok t" "distinct (map ta_DeviceID (tgts w rid))"
    using assms(1) by (auto simp: snap_def)
  note eff = rollback_effect [OF ok, of w]
  show ?thesis
  proof (cases "i \<in> ta_DeviceID ` set (tgts w rid)")
    case True
    then obtain t where t: "t \<in> set (tgts w rid)" "ta_DeviceID t = i" by auto
    with assms(1,2) have "snapTarget c0 t" by (auto simp: snap_def)
    with t assms(4) obtain d where "ta_PreDesired t = Some d" "c0 i = Some (normD d)"
      by (auto simp: snapTarget_def)
    with eff t assms(3) show ?thesis by metis
  next
    case False
    then have "i \<notin> set (revertIDs (tgts w rid))" by (auto simp: revertIDs_def)
    with eff have "config (rollbackTargets dp (tgts w rid) w) i = config w i" by blast
    with assms(1,2) False show ?thesis by (auto simp: snap_def)
  qed
qed

lemma rollbackLocked_config:
  "rollbackLocked dp r ts rs e w = (r', e', w') \<Longrightarrow> config w' = config (rollbackTargets dp ts w)"
  using update_view [of "ro_ID r" Aborted "rollbackTargets dp ts w"] publish_view
  by (auto simp: rollbackLocked_def Let_def view split: prod.splits)

lemma decide_view: "view (snd (tickDecide dp r e w)) = view w"
proof (cases "ro_State r = Running")
  case True
  obtain l w1 where l: "dp_ListTargets dp (ro_ID r) w = (l, w1)" by (cases "dp_ListTargets dp (ro_ID r) w")
  have v1: "view w1 = view w" using list_view [of "ro_ID r" w] l by simp
  show ?thesis
  proof (cases l)
    case (Inr ts)
    obtain h w2 where h: "evaluateStageHealth dp e r ts w1 = (h, w2)" by (cases "evaluateStageHealth dp e r ts w1")
    have v2: "view w2 = view w" using health_view [of e r ts w1] h v1 by simp
    moreover have "view w3 = view w2" if "dp_Now dp w2 = (now, w3)" for now w3 using now_view [of w2] that by simp
    ultimately show ?thesis
      using True l Inr h by (auto simp: tickDecide_def split: prod.splits option.splits bool.splits)
  qed (use True l v1 in \<open>simp add: tickDecide_def\<close>)
qed (simp add: tickDecide_def)

lemma decide_breach:
  assumes "tickDecide dp r e w = (Breach ts rs, w1)" and "canon w (ro_ID r)"
  shows "ts = tgts w (ro_ID r)" and "ro_State r = Running"
  using assms(1) list_ok [of "ro_ID r" w ts] assms(2)
  by (auto simp: tickDecide_def split: if_splits prod.splits sum.splits option.splits bool.splits)

lemma cohort_canon_same:
  assumes "cohort_canon r w" and "ro_ID r' = ro_ID r" and "ro_Cohort r' = ro_Cohort r"
    and "canon w' = canon w" and "devs w' = devs w"
  shows "cohort_canon r' w'"
  using assms by (simp add: canonCohort_def)

lemma advance_snapped:
  assumes "snapped c0 F (ro_ID r) w" and "cohort_canon r w" and "desired_ok (ro_DesiredConfig r)"
    and "advanceLocked dp r e w = Some (r', e', w')"
  shows "snapped c0 (F \<union> advanceFailures dp r w) (ro_ID r) w' \<and> canon w' = canon w \<and> devs w' = devs w \<and>
    ro_ID r' = ro_ID r \<and> ro_Cohort r' = ro_Cohort r \<and> ro_DesiredConfig r' = ro_DesiredConfig r"
proof -
  obtain now w1 where n: "dp_Now dp w = (now, w1)" by (cases "dp_Now dp w")
  define r1 where "r1 = r\<lparr>ro_CurrentStageIndex := ro_CurrentStageIndex r + 1, ro_CurrentStageStartedAt := now\<rparr>"
  have r1: "ro_ID r1 = ro_ID r" "ro_Cohort r1 = ro_Cohort r" "ro_DesiredConfig r1 = ro_DesiredConfig r"
    by (simp_all add: r1_def)
  define w2 where "w2 = snd (dp_AdvanceStage dp (ro_ID r1) (ro_CurrentStageIndex r1) (ro_CurrentStageStartedAt r1) w1)"
  have v2: "view w2 = view w" using now_view [of w] n advance_view by (simp add: w2_def)
  then have c2: "canon w2 = canon w" "devs w2 = devs w" by (simp_all add: view)
  obtain w3 where ap: "applyStage dp r1 w2 = Some w3" and r': "r' = r1"
    and w': "w' = publish dp r1 EventStageAdvanced (Some [(''stage_index'', JInt (ro_CurrentStageIndex r1))]) w3"
    using assms(4) by (auto simp: advanceLocked_def n Let_def r1_def w2_def split: prod.splits option.splits)
  have "snapped c0 F (ro_ID r1) w2" using assms(1) snapped_view [OF v2] r1 by simp
  from applyStage_snapped [OF this cohort_canon_same [OF assms(2) r1(1,2) c2] _ ap] assms(3) r1
  have "snapped c0 (F \<union> stageFailures dp r1 w2) (ro_ID r) w3" "canon w3 = canon w" "devs w3 = devs w"
    using c2 by simp_all
  moreover have "view w' = view w3" by (simp add: w' publish_view)
  moreover have "advanceFailures dp r w = stageFailures dp r1 w2"
    by (simp add: advanceFailures_def n Let_def r1_def w2_def split: prod.splits)
  ultimately show ?thesis
    using snapped_view [of w' w3 c0 "F \<union> stageFailures dp r1 w2" "ro_ID r"] r' r1 by (simp add: view)
qed

lemma create_snapped:
  assumes "Engine_Create dp r0 e0 w0 = Some (Inr r, e, w)" and "cohort_canon r w0"
    and "desired_ok (ro_DesiredConfig r)" and "tgts w0 (ro_ID r) = []"
  shows "snapped (config w0) (createFailures dp r0 w0) (ro_ID r) w \<and> canon w = canon w0 \<and> devs w = devs w0 \<and>
    map_of (en_active e) (ro_ID r) = Some r"
proof -
  obtain u w1 where u: "dp_NewString dp w0 = (u, w1)" by (cases "dp_NewString dp w0")
  obtain now w2 where n: "dp_Now dp w1 = (now, w2)" by (cases "dp_Now dp w1")
  obtain cr w3 where c: "dp_Create dp (r0\<lparr>ro_ID := u, ro_State := Running, ro_CurrentStageIndex := 0,
      ro_CurrentStageStartedAt := now\<rparr>) w2 = (cr, w3)"
    by (cases "dp_Create dp (r0\<lparr>ro_ID := u, ro_State := Running, ro_CurrentStageIndex := 0,
      ro_CurrentStageStartedAt := now\<rparr>) w2")
  obtain w4 where ap: "applyStage dp r w3 = Some w4"
    and r: "r = r0\<lparr>ro_ID := u, ro_State := Running, ro_CurrentStageIndex := 0, ro_CurrentStageStartedAt := now\<rparr>"
    and w: "w = publish dp r EventStageStarted (Some [(''stage_index'', JInt 0)]) w4" and e: "e = set_active r e0"
    using assms(1) c by (auto simp: Engine_Create_def u n Let_def split: option.splits)
  have v3: "view w3 = view w0"
    using id_view [of w0] now_view [of w1] create_view [of r w2] u n c r by simp
  then have c3: "canon w3 = canon w0" "devs w3 = devs w0" "config w3 = config w0" "tgts w3 = tgts w0" by (simp_all add: view)
  have "snapped (config w0) {} (ro_ID r) w3" using assms(4) c3 by (simp add: snap_def)
  from applyStage_snapped [OF this cohort_canon_same [OF assms(2) _ _ c3(1,2)] assms(3) ap]
  have "snapped (config w0) (stageFailures dp r w3) (ro_ID r) w4" "canon w4 = canon w0" "devs w4 = devs w0"
    using c3 by simp_all
  moreover have "view w = view w4" by (simp add: w publish_view)
  moreover have "createFailures dp r0 w0 = stageFailures dp r w3"
    using c by (simp add: createFailures_def u n r Let_def)
  ultimately show ?thesis
    using snapped_view [of w w4 "config w0" "stageFailures dp r w3" "ro_ID r"] e
    by (simp add: view update_conv)
qed

lemma pause_view: "Engine_Pause dp i e w = (res, e', w') \<Longrightarrow> view w' = view w"
  using update_view [of i Paused w] publish_view
  by (auto simp: Engine_Pause_def Let_def split: option.splits if_splits prod.splits)

lemma resume_view: "Engine_Resume dp i e w = (res, e', w') \<Longrightarrow> view w' = view w"
  using update_view [of i Running w] publish_view
  by (auto simp: Engine_Resume_def Let_def split: option.splits if_splits prod.splits)

lemma run_inert:
  assumes "cohort_canon r w0 \<Longrightarrow> desired_ok (ro_DesiredConfig r) \<Longrightarrow> tgts w0 (ro_ID r) = [] \<Longrightarrow>
      snapped c0 F (ro_ID r) w \<and> canon w = canon w0 \<and> devs w = devs w0 \<and> Q"
    and "cohort_canon r' w0" and "desired_ok (ro_DesiredConfig r')" and "tgts w0 (ro_ID r') = []"
    and "same_rollout r r'" and "view w' = view w"
  shows "snapped c0 F (ro_ID r') w' \<and> canon w' = canon w0 \<and> devs w' = devs w0"
proof -
  have "cohort_canon r w0" using assms(2,5) cohort_canon_same [of w0 r' r w0] by (simp add: same_rollout_def)
  with assms(1,3,4,5) have "snapped c0 F (ro_ID r) w" "canon w = canon w0" "devs w = devs w0"
    by (simp_all add: same_rollout_def)
  with assms(5,6) snapped_view [OF assms(6), of c0 F "ro_ID r"] show ?thesis
    by (simp add: same_rollout_def view)
qed

lemma run_snapped:
  assumes "rolloutRun dp config c0 F r e w0 w" and "cohort_canon r w0"
    and "desired_ok (ro_DesiredConfig r)" and "tgts w0 (ro_ID r) = []"
  shows "snapped c0 F (ro_ID r) w \<and> canon w = canon w0 \<and> devs w = devs w0 \<and> map_of (en_active e) (ro_ID r) = Some r"
  using assms
proof (induction rule: rolloutRun.induct)
  case (run_create r0 e0 w0 r e w)
  then show ?case by (intro create_snapped)
next
  case (run_tick c0 F r e w0 w r' e' w')
  obtain dc w1 where d: "tickDecide dp r e w = (dc, w1)" by (cases "tickDecide dp r e w")
  have v1: "view w1 = view w" using decide_view [of r e w] d by simp
  show ?case
  proof (cases dc)
    case Keep
    then have "r' = r" "e' = e" "w' = w1" using run_tick.hyps(2) d by (auto simp: tickOne_def)
    with Keep run_tick d v1 snapped_view [OF v1, of c0 F "ro_ID r"] show ?thesis
      by (auto simp: tickFailures_def view)
  next
    case Advance
    then have adv: "advanceLocked dp r e w1 = Some (r', e', w')" using run_tick.hyps(2) d by (simp add: tickOne_def)
    then have same: "ro_ID r' = ro_ID r" "ro_Cohort r' = ro_Cohort r" "ro_DesiredConfig r' = ro_DesiredConfig r"
      by (auto simp: advanceLocked_def Let_def split: prod.splits option.splits)
    have "cohort_canon r w0" using run_tick.prems(1) cohort_canon_same [of w0 r' r w0] same by simp
    with run_tick.IH run_tick.prems same have ih: "snapped c0 F (ro_ID r) w" "canon w = canon w0" "devs w = devs w0"
      by simp_all
    have "cohort_canon r w1" using \<open>cohort_canon r w0\<close> cohort_canon_same [of w0 r r w1] ih v1 by (simp add: view)
    moreover have "snapped c0 F (ro_ID r) w1" using ih snapped_view [OF v1] by simp
    ultimately have "snapped c0 (F \<union> advanceFailures dp r w1) (ro_ID r) w' \<and> canon w' = canon w1 \<and> devs w' = devs w1"
      using advance_snapped [OF _ _ _ adv] run_tick.prems(2) same by simp
    with Advance d same ih v1 run_tick.hyps(3) show ?thesis by (simp add: tickFailures_def view)
  next
    case (Breach ts rs)
    then have "map_of (en_active e') (ro_ID r) = None" using run_tick.hyps(2) d
      by (auto simp: tickOne_def rollbackLocked_def Let_def delete_conv split: prod.splits)
    with run_tick.hyps(3) show ?thesis by simp
  next
    case Finish
    then have "map_of (en_active e') (ro_ID r) = None" using run_tick.hyps(2) d
      by (auto simp: tickOne_def completeLocked_def Let_def delete_conv split: prod.splits)
    with run_tick.hyps(3) show ?thesis by simp
  next
    case OutOfRange
    with run_tick.hyps(2) d show ?thesis by (simp add: tickOne_def)
  qed
next
  case (run_pause c0 F r e w0 w res e' w' r')
  have act: "map_of (en_active e) (ro_ID r) = Some r" using run_active [OF run_pause.hyps(1)] .
  have same: "same_rollout r r'" using pause_same [OF run_pause.hyps(2) act _ run_pause.hyps(3)] by simp
  have v: "view w' = view w" using pause_view [OF run_pause.hyps(2)] .
  have id: "ro_ID r' = ro_ID r" using same by (simp add: same_rollout_def)
  have "snapped c0 F (ro_ID r') w' \<and> canon w' = canon w0 \<and> devs w' = devs w0"
    by (rule run_inert [OF run_pause.IH run_pause.prems same v])
  then show ?case unfolding id using run_pause.hyps(3) by blast
next
  case (run_resume c0 F r e w0 w res e' w' r')
  have act: "map_of (en_active e) (ro_ID r) = Some r" using run_active [OF run_resume.hyps(1)] .
  have same: "same_rollout r r'" using resume_same [OF run_resume.hyps(2) act _ run_resume.hyps(3)] by simp
  have v: "view w' = view w" using resume_view [OF run_resume.hyps(2)] .
  have id: "ro_ID r' = ro_ID r" using same by (simp add: same_rollout_def)
  have "snapped c0 F (ro_ID r') w' \<and> canon w' = canon w0 \<and> devs w' = devs w0"
    by (rule run_inert [OF run_resume.IH run_resume.prems same v])
  then show ?case unfolding id using run_resume.hyps(3) by blast
qed

text \<open>Aborting a rollout, or breaching its health criteria, sets back every device whose push and revert
  went through.\<close>

lemma abort_restores:
  assumes run: "rolloutRun dp config c0 F r e w0 w" and "cohort_canon r w0"
    and "desired_ok (ro_DesiredConfig r)" and "tgts w0 (ro_ID r) = []"
    and abort: "Engine_Abort dp (ro_ID r) e w = (Inr r1, e1, w1)"
    and i: "i \<notin> F" "i \<notin> abortFailures dp (ro_ID r) w" "c0 i \<noteq> None"
  shows "config w1 i = c0 i"
proof -
  have inv: "snapped c0 F (ro_ID r) w" "canon w (ro_ID r)"
    using run_snapped [OF assms(1-4)] assms(2) by (auto simp: canonCohort_def)
  obtain ts w2 where l: "dp_ListTargets dp (ro_ID r) w = (Inr ts, w2)"
    using abort by (auto simp: Engine_Abort_def split: option.splits prod.splits sum.splits)
  have v2: "view w2 = view w" using list_view [of "ro_ID r" w] l by simp
  have ts: "ts = tgts w2 (ro_ID r)" using list_ok [OF l inv(2)] v2 by (simp add: view)
  have "config w1 = config (rollbackTargets dp ts w2)"
    using abort run_active [OF run] l
    by (auto simp: Engine_Abort_def dest: rollbackLocked_config split: prod.splits)
  moreover have "snapped c0 F (ro_ID r) w2" using inv(1) snapped_view [OF v2] by simp
  ultimately show ?thesis
    using rollback_restores [of c0 F "ro_ID r" w2 i] i l ts by (simp add: abortFailures_def)
qed

lemma breach_restores:
  assumes run: "rolloutRun dp config c0 F r e w0 w" and "cohort_canon r w0"
    and "desired_ok (ro_DesiredConfig r)" and "tgts w0 (ro_ID r) = []"
    and tick: "tickOne dp r e w = Some (r1, e1, w1)" "ro_State r1 = Aborted"
    and i: "i \<notin> F" "i \<notin> breachFailures dp r e w" "c0 i \<noteq> None"
  shows "config w1 i = c0 i"
proof -
  have inv: "snapped c0 F (ro_ID r) w" "canon w (ro_ID r)"
    using run_snapped [OF assms(1-4)] assms(2) by (auto simp: canonCohort_def)
  obtain ts rs w2 where d: "tickDecide dp r e w = (Breach ts rs, w2)"
  proof -
    obtain dc w2 where d: "tickDecide dp r e w = (dc, w2)" by (cases "tickDecide dp r e w")
    have run': "ro_State r = Running" if "dc \<noteq> Keep"
      using d that by (cases "ro_State r = Running") (auto simp: tickDecide_def)
    show ?thesis
    proof (cases dc)
      case Keep
      have "False" using tick d Keep run_state [OF run] by (auto simp: tickOne_def rollout_states)
      then show ?thesis ..
    next
      case (Breach ts rs)
      with d that show ?thesis by blast
    next
      case Finish
      with tick d show ?thesis by (auto simp: tickOne_def completeLocked_def Let_def rollout_states split: prod.splits)
    next
      case Advance
      with tick d run' show ?thesis
        by (auto simp: tickOne_def advanceLocked_def Let_def rollout_states split: prod.splits option.splits)
    next
      case OutOfRange
      with tick d show ?thesis by (simp add: tickOne_def)
    qed
  qed
  have v2: "view w2 = view w" using decide_view [of r e w] d by simp
  have ts: "ts = tgts w2 (ro_ID r)" using decide_breach(1) [OF d inv(2)] v2 by (simp add: view)
  have "config w1 = config (rollbackTargets dp ts w2)"
    using tick(1) d by (auto simp: tickOne_def dest: rollbackLocked_config)
  moreover have "snapped c0 F (ro_ID r) w2" using inv(1) snapped_view [OF v2] by simp
  ultimately show ?thesis
    using rollback_restores [of c0 F "ro_ID r" w2 i] i d ts by (simp add: breachFailures_def)
qed

end

section \<open>The running service provides it\<close>

definition pg_view :: "pg \<Rightarrow> (string \<Rightarrow> Target list) \<times> (string \<Rightarrow> bool) \<times> string set" where
  "pg_view d = (pg_targets d, canonical d, dr_id ` set (pg_devices d))"

definition prod_view :: "('kv \<Rightarrow> string \<Rightarrow> (body \<times> u64) option) \<Rightarrow> 'kv world
    \<Rightarrow> (string \<Rightarrow> Desired option) \<times> (string \<Rightarrow> Target list) \<times> (string \<Rightarrow> bool) \<times> string set" where
  "prod_view content w = (shadow_config content w, pg_view (w_pg w))"

lemma pg_view_faults: "pg_view (d\<lparr>pg_faults := fs\<rparr>) = pg_view d"
  by (simp add: pg_view_def)

lemma pg_view_exec:
  "pg_view (snd (Rollouts_Create n r d)) = pg_view d"
  "pg_view (snd (UpdateState n i st d)) = pg_view d"
  "pg_view (snd (AdvanceStage n i k t d)) = pg_view d"
  by (auto simp: rollout_op_defs rollout_sql_defs uuid_arg_Inr pg_view_def intro!: pg_exec_frame split: if_splits)

lemma pg_view_list: "pg_view (snd (ListTargets i d)) = pg_view d" "pg_view (snd (Devices_List d)) = pg_view d"
  using ListTargets_run [of i d] Devices_List_unchanged [of d]
  by (metis pg_view_faults prod.collapse)+

lemma pg_view_firing: "pg_view (snd (FiringCountForDevices ids since d)) = pg_view d"
proof (cases "ids = []")
  case False
  have "pg_view (snd (pg_run (sql_firing_count ids since) d)) = pg_view d"
    by (rule pg_run_preserves [where P = "\<lambda>d'. pg_view d' = pg_view d"])
      (auto simp: pg_view_faults sql_firing_count_def split: sum.splits)
  with False show ?thesis by (simp add: FiringCountForDevices_def)
qed (simp add: FiringCountForDevices_def)

lemma prod_view_pg: "(\<And>d. pg_view (snd (f d)) = pg_view d) \<Longrightarrow> prod_view content (snd (on_pg f w)) = prod_view content w"
  by (auto simp: prod_view_def on_pg_def shadow_config_def fun_eq_iff split: prod.splits) (metis snd_conv)

lemma prod_view_pg_now:
  "(\<And>t d. pg_view (snd (f t d)) = pg_view d) \<Longrightarrow> prod_view content (snd (on_pg_now f w)) = prod_view content w"
  using prod_view_pg [of "f (w_clock w (w_ticks w))" content "w\<lparr>w_ticks := Suc (w_ticks w)\<rparr>"]
  by (simp add: on_pg_now_def time_Now_def prod_view_def shadow_config_def fun_eq_iff)

lemma prod_view_other:
  "prod_view content (snd (time_Now w)) = prod_view content w"
  "prod_view content (snd (uuid_NewString w)) = prod_view content w"
  "prod_view content (snd (on_js g w)) = prod_view content w"
  "prod_view content (snd (on_mqtt h w)) = prod_view content w"
  by (auto simp: world_defs prod_view_def shadow_config_def split: prod.splits)

lemma prod_view_publish:
  "prod_view content (snd (PublishDesired i d w)) = prod_view content w"
  "prod_view content (snd (Publisher_Publish evt w)) = prod_view content w"
  by (auto simp: PublishDesired_def Publisher_Publish_def on_js_def on_mqtt_def prod_view_def shadow_config_def fun_eq_iff
      split: prod.splits option.splits)

lemma shadow_frame_view:
  assumes "shadow_frame w' = shadow_frame w"
  shows "pg_targets (w_pg w') = pg_targets (w_pg w)" "canonical (w_pg w') = canonical (w_pg w)"
    "dr_id ` set (pg_devices (w_pg w')) = dr_id ` set (pg_devices (w_pg w))"
proof -
  have e: "(w_pg w')\<lparr>pg_faults := [], pg_shadow_history := []\<rparr> = (w_pg w)\<lparr>pg_faults := [], pg_shadow_history := []\<rparr>"
    using arg_cong [OF assms, of w_pg] by (simp add: shadow_frame_def)
  have "pg_rollout_targets (w_pg w') = pg_rollout_targets (w_pg w)" "pg_uuid (w_pg w') = pg_uuid (w_pg w)"
    "pg_devices (w_pg w') = pg_devices (w_pg w)"
    using arg_cong [OF e, of pg_rollout_targets] arg_cong [OF e, of pg_uuid] arg_cong [OF e, of pg_devices] by simp_all
  then show "pg_targets (w_pg w') = pg_targets (w_pg w)" "canonical (w_pg w') = canonical (w_pg w)"
    "dr_id ` set (pg_devices (w_pg w')) = dr_id ` set (pg_devices (w_pg w))"
    by (simp_all add: pg_targets_def canonical_def fun_eq_iff)
qed

lemma scanAll_ids: "scanAll scanDevice rows = Inr ds \<Longrightarrow> map de_ID ds = map dr_id rows"
proof (induction rows arbitrary: ds)
  case (Cons r rows)
  then show ?case by (auto simp: scanDevice_def split: sum.splits)
qed simp

lemma Devices_List_ids:
  assumes "Devices_List d = (Inr ds, d')"
  shows "de_ID ` set ds \<subseteq> dr_id ` set (pg_devices d)"
proof -
  obtain rows where "pg_run sql_list_devices d = (Inr rows, d')" and s: "scanAll scanDevice rows = Inr ds"
    using assms by (auto simp: Devices_List_def split: prod.splits sum.splits)
  then have "set rows = set (pg_devices d)" by (auto simp: sql_list_devices_def elim!: pg_run_ok)
  moreover have "de_ID ` set ds = dr_id ` set rows" using scanAll_ids [OF s] by (metis list.set_map)
  ultimately show ?thesis by simp
qed

lemma prod_record:
  assumes "dp_RecordTarget (prodDeps kv fmt up) rid t w = (r, w')" and "target_ok t"
    and "canonical (w_pg w) rid" and "canonical (w_pg w) (ta_DeviceID t)"
  shows "shadow_config content w' = shadow_config content w \<and> canonical (w_pg w') = canonical (w_pg w) \<and>
    dr_id ` set (pg_devices (w_pg w')) = dr_id ` set (pg_devices (w_pg w)) \<and>
    (pg_targets (w_pg w') = pg_targets (w_pg w) \<and>
       (r = None \<longrightarrow> ta_DeviceID t \<in> ta_DeviceID ` set (pg_targets (w_pg w) rid)) \<or>
     pg_targets (w_pg w') = (pg_targets (w_pg w))(rid := pg_targets (w_pg w) rid @ [normT t]) \<and>
       ta_DeviceID t \<notin> ta_DeviceID ` set (pg_targets (w_pg w) rid))"
proof -
  obtain r0 d where rec: "RecordTarget rid t (w_pg w) = (r0, d)" by (cases "RecordTarget rid t (w_pg w)")
  then have r: "r = map_option SvcPg r0" "w' = w\<lparr>w_pg := d\<rparr>"
    using assms(1) by (auto simp: prodDeps_def pg_err_def on_pg_def)
  have "pg_devices (snd (RecordTarget rid t (w_pg w))) = pg_devices (w_pg w)"
    by (auto simp: RecordTarget_def sql_insert_target_def uuid_arg_Inr intro!: pg_exec_frame split: if_splits)
  moreover have "canonical d = canonical (w_pg w)" using pgstore.canon_state(2) [of rid t "w_pg w"] rec by simp
  ultimately show ?thesis
    using pgstore.record_step [OF rec assms(2-4)] rec r by (simp add: shadow_config_def fun_eq_iff)
qed

locale kv_engine = kv_bucket kv content for kv :: "'kv kvops" and content +
  fixes fmt :: reason_format and up :: bool

sublocale kv_engine \<subseteq> eng: engine_env "prodDeps kv fmt up" "shadow_config content" "shadow_revision content"
  "\<lambda>w. pg_targets (w_pg w)" "\<lambda>w. canonical (w_pg w)" "\<lambda>w. dr_id ` set (pg_devices (w_pg w))" "prod_view content"
proof (unfold_locales, goal_cases)
  case (1 d i w p w')
  then show ?case using shadow.set_ok by (simp add: prodDeps_def)
next
  case (2 d i w e w')
  then show ?case using shadow.set_err by (simp add: prodDeps_def)
next
  case (3 i d w)
  then show ?case using shadow_frame_view [OF SetDesired_frame [of kv i d w]] by (simp add: prodDeps_def)
next
  case (4 i w d rv w')
  then show ?case using shadow.get_ok by (simp add: prodDeps_def)
next
  case (5 i w)
  then show ?case using shadow.get_state by (simp add: prodDeps_def)
next
  case (6 i w)
  then show ?case using shadow.get_state by (simp add: prodDeps_def)
next
  case (7 i w)
  then show ?case using shadow_frame_view [OF GetDesired_frame [of kv i w]] by (simp add: prodDeps_def)
next
  case (8 i w)
  then show ?case using shadow.getr_state by (simp add: prodDeps_def)
next
  case (9 i w)
  then show ?case using shadow.getr_state by (simp add: prodDeps_def)
next
  case (10 i w)
  then show ?case using shadow_frame_view [OF GetReported_frame [of kv i w]] by (simp add: prodDeps_def)
next
  case (11 w)
  then show ?case by (simp add: prod_view_def pg_view_def)
next
  case (12 rid w ts w')
  then show ?case
    by (auto simp: prodDeps_def pg_res_def on_pg_def map_sum_def dest!: ListTargets_ok split: prod.splits sum.splits)
next
  case (13 w ds w')
  then show ?case
    by (auto simp: prodDeps_def pg_res_def on_pg_def map_sum_def dest!: Devices_List_ids split: prod.splits sum.splits)
next
  case (14 rid t w r w')
  then show ?case by (intro prod_record)
qed (auto simp: prodDeps_def pg_res_def pg_err_def prod_view_publish prod_view_other
    intro!: prod_view_pg prod_view_pg_now pg_view_exec pg_view_list pg_view_firing split: if_splits)

context kv_engine
begin

lemma prod_abort_restores:
  assumes "rolloutRun (prodDeps kv fmt up) (shadow_config content) c0 F r e w0 w"
    and "canonCohort (canonical (w_pg w0)) (dr_id ` set (pg_devices (w_pg w0))) r"
    and "desired_ok (ro_DesiredConfig r)" and "pg_targets (w_pg w0) (ro_ID r) = []"
    and "Engine_Abort (prodDeps kv fmt up) (ro_ID r) e w = (Inr r1, e1, w1)"
    and "i \<notin> F" "i \<notin> abortFailures (prodDeps kv fmt up) (ro_ID r) w" "c0 i \<noteq> None"
  shows "shadow_config content w1 i = c0 i"
  using assms by (rule eng.abort_restores)

lemma prod_breach_restores:
  assumes "rolloutRun (prodDeps kv fmt up) (shadow_config content) c0 F r e w0 w"
    and "canonCohort (canonical (w_pg w0)) (dr_id ` set (pg_devices (w_pg w0))) r"
    and "desired_ok (ro_DesiredConfig r)" and "pg_targets (w_pg w0) (ro_ID r) = []"
    and "tickOne (prodDeps kv fmt up) r e w = Some (r1, e1, w1)" "ro_State r1 = Aborted"
    and "i \<notin> F" "i \<notin> breachFailures (prodDeps kv fmt up) r e w" "c0 i \<noteq> None"
  shows "shadow_config content w1 i = c0 i"
  using assms by (rule eng.breach_restores)

end

interpretation memeng: kv_engine memkv_ops mem_content "\<lambda>_ _ _ _ _. ''unhealthy''" True
  by unfold_locales

section \<open>A run for the witness\<close>

lemma prodDeps_simps [simp]:
  "dp_Create (prodDeps kv fmt up) r w = pg_err (on_pg_now (\<lambda>t. Rollouts_Create t r) w)"
  "dp_ListNonTerminal (prodDeps kv fmt up) w = pg_res (on_pg ListNonTerminal w)"
  "dp_UpdateState (prodDeps kv fmt up) i s w = pg_err (on_pg_now (\<lambda>t. UpdateState t i s) w)"
  "dp_RecordTarget (prodDeps kv fmt up) i t w = pg_err (on_pg (RecordTarget i t) w)"
  "dp_ListTargets (prodDeps kv fmt up) i w = pg_res (on_pg (ListTargets i) w)"
  "dp_SetDesired (prodDeps kv fmt up) = SetDesired kv"
  "dp_GetDesired (prodDeps kv fmt up) = GetDesired kv"
  "dp_GetReported (prodDeps kv fmt up) = GetReported kv"
  "dp_PublishDesired (prodDeps kv fmt up) = (if up then Some PublishDesired else None)"
  "dp_Devices (prodDeps kv fmt up) w = pg_res (on_pg Devices_List w)"
  "dp_PublishEvent (prodDeps kv fmt up) = Some Publisher_Publish"
  "dp_Now (prodDeps kv fmt up) = time_Now"
  "dp_NewString (prodDeps kv fmt up) = uuid_NewString"
  "dp_fmt (prodDeps kv fmt up) = fmt"
  by (simp_all add: prodDeps_def)

lemma memkv_ops_simps [simp]: "kv_Put memkv_ops = memPut" "kv_Get memkv_ops = memGet"
  by (simp_all add: memkv_ops_def)

text \<open>A device with a configuration, and a rollout of another one to it.\<close>

definition rollBefore :: Desired where
  "rollBefore = zeroDesired\<lparr>d_BatchSize := Some 5\<rparr>"

definition rollWorld :: "memkv world" where
  "rollWorld = snd (SetDesired memkv_ops ''d1'' rollBefore sampleWorld)"

definition rollSample :: Rollout where
  "rollSample = \<lparr>ro_ID = [], ro_Name = ''canary'', ro_Cohort = \<lparr>co_DeviceType = [], co_DeviceIDs = Some [''d1'']\<rparr>,
     ro_DesiredConfig = zeroDesired\<lparr>d_BatchSize := Some 7\<rparr>, ro_Stages = Some [\<lparr>sg_Percent = 100, sg_BakeDuration = 0\<rparr>],
     ro_HealthCriteria = zeroHealth, ro_State = [], ro_CurrentStageIndex = 0, ro_CurrentStageStartedAt = 0,
     ro_CreatedAt = 0, ro_UpdatedAt = 0\<rparr>"

abbreviation rollDeps :: "memkv world deps" where
  "rollDeps \<equiv> prodDeps memkv_ops (\<lambda>_ _ _ _ _. ''unhealthy'') True"

lemma rollBefore_roundtrip:
  "unmarshal_Desired (Some (marshal_Desired (zeroDesired\<lparr>d_BatchSize := Some 5, d_SchemaVersion := a, d_Revision := b\<rparr>)))
     = Inr (zeroDesired\<lparr>d_BatchSize := Some 5, d_SchemaVersion := a, d_Revision := b\<rparr>)"
  using Desired_roundtrip [of "zeroDesired\<lparr>d_BatchSize := Some 5, d_SchemaVersion := a, d_Revision := b\<rparr>"]
  by (simp add: desired_ok_def int64_ok_def zeroDesired_def drop_empty_def)

lemmas roll_defs = pg_err_def pg_res_def world_defs SetDesired_def GetDesired_def memPut_def
  memGet_def mem_content_def mem_store_def audit_def sql_insert_history_def sample_defs shadow_SchemaVersion_def
  RecordTarget_def sql_insert_target_def ListTargets_def sql_list_targets_def Devices_List_def sql_list_devices_def
  Rollouts_Create_def sql_insert_rollout_def publish_def publishDesired_def PublishDesired_def Publisher_Publish_def
  scanDevice_def UpdateState_def sql_update_state_def int4_ok_def scanTarget_def rollBefore_def

lemma rollRun:
  "\<exists>r e w. Engine_Create rollDeps rollSample (NewEngine 0) rollWorld = Some (Inr r, e, w) \<and>
     (\<exists>r1 e1 w1. Engine_Abort rollDeps (ro_ID r) e w = (Inr r1, e1, w1)) \<and>
     ro_Cohort r = ro_Cohort rollSample \<and> ro_DesiredConfig r = ro_DesiredConfig rollSample \<and> ro_ID r = ''u'' \<and>
     createFailures rollDeps rollSample rollWorld = {} \<and> abortFailures rollDeps (ro_ID r) w = {}"
  by (simp add: Engine_Create_def validateRollout_def rollSample_def rollWorld_def roll_defs Let_def applyStage_def
      stageAt_def StageTargets_clamp bucket_range SelectCohort_def applyTarget_def createFailures_def stageFailures_def
      pushFailed_def Engine_Abort_def NewEngine_def rollbackLocked_def rollBefore_roundtrip abortFailures_def map_sum_def)

lemma rollWorld_facts:
  "shadow_config mem_content rollWorld ''d1'' = Some (normD rollBefore)"
  "pg_targets (w_pg rollWorld) i = []"
  "canonCohort (canonical (w_pg rollWorld)) (dr_id ` set (pg_devices (w_pg rollWorld))) r"
  by (simp_all add: rollWorld_def roll_defs shadow_config_def Let_def rollBefore_roundtrip
      pg_targets_def canonCohort_def canonical_def)

section \<open>Properties\<close>

text \<open>C1: rollback restores the fleet. Let a rollout run in the service (created, ticked through its stages,
  paused and resumed in any order, with any pattern of database, KV and publish failures), and then be
  aborted by an operator, or by the engine because a stage's health breached. Every device that had a
  configuration before the rollout and none of whose pushes or reverts failed has exactly that configuration
  again, whichever stage it was pushed in, or whether it was pushed at all.\<close>

theorem rollback_restores_fleet:
  assumes "kv_bucket kv content"
    and "rolloutRun (prodDeps kv fmt up) (shadow_config content) c0 F r e w0 w"
    and "canonCohort (canonical (w_pg w0)) (dr_id ` set (pg_devices (w_pg w0))) r"
    and "desired_ok (ro_DesiredConfig r)" and "pg_targets (w_pg w0) (ro_ID r) = []"
    and "Engine_Abort (prodDeps kv fmt up) (ro_ID r) e w = (Inr r1, e1, w1) \<and>
           i \<notin> abortFailures (prodDeps kv fmt up) (ro_ID r) w \<or>
         tickOne (prodDeps kv fmt up) r e w = Some (r1, e1, w1) \<and> ro_State r1 = Aborted \<and>
           i \<notin> breachFailures (prodDeps kv fmt up) r e w"
    and "i \<notin> F" and "c0 i \<noteq> None"
  shows "shadow_config content w1 i = c0 i"
  using assms(6) kv_engine.prod_abort_restores [OF kv_engine.intro [OF assms(1)] assms(2-5) _ assms(7)]
    kv_engine.prod_breach_restores [OF kv_engine.intro [OF assms(1)] assms(2-5) _ _ assms(7)] assms(8)
  by blast

theorem rollback_restores_fleet_witness:
  "\<exists>r e w r1 e1 w1. Engine_Create rollDeps rollSample (NewEngine 0) rollWorld = Some (Inr r, e, w) \<and>
     Engine_Abort rollDeps (ro_ID r) e w = (Inr r1, e1, w1) \<and>
     shadow_config mem_content w1 ''d1'' = Some (normD rollBefore)"
proof -
  obtain r e w r1 e1 w1 where run: "Engine_Create rollDeps rollSample (NewEngine 0) rollWorld = Some (Inr r, e, w)"
    "Engine_Abort rollDeps (ro_ID r) e w = (Inr r1, e1, w1)"
    and r: "ro_DesiredConfig r = ro_DesiredConfig rollSample" "createFailures rollDeps rollSample rollWorld = {}"
    "abortFailures rollDeps (ro_ID r) w = {}"
    using rollRun by blast
  have ok: "desired_ok (ro_DesiredConfig r)"
    by (simp add: r rollSample_def desired_ok_def zeroDesired_def int64_ok_def)
  have "shadow_config mem_content w1 ''d1'' = shadow_config mem_content rollWorld ''d1''"
    using rollback_restores_fleet [OF mem.kv_bucket_axioms run_create [OF run(1)] rollWorld_facts(3) ok rollWorld_facts(2),
        of r1 e1 w1 "''d1''"] run(2) r(2,3) rollWorld_facts(1) by simp
  with run rollWorld_facts(1) show ?thesis by auto
qed

end
