(* ===== verification/RolloutStages.thy ===== *)
theory RolloutStages
  imports RolloutSafety
begin

text \<open>
  The stage index of rollouts, in the engine and in its store. The locale \<open>stage_store\<close> says what the engine needs of its
  store: what a listing of the unfinished rollouts returns has its index within its stages, what is created is stored with
  its stages, and only \<^verbatim>\<open>Create\<close> and \<^verbatim>\<open>AdvanceStage\<close> touch stages or index. Inside it the engine, which indexes
  \<^verbatim>\<open>r.Stages\<close> without a check, is proved never to do so out of range. The stores of the running service keep the contract.
\<close>

section \<open>Calls\<close>

text \<open>The exported methods of the engine, and a tick of the loop of \<^verbatim>\<open>Run\<close>.\<close>

datatype engine_op =
    OpResumeAll
  | OpCreate Rollout
  | OpTick
  | OpPause string
  | OpResume string
  | OpAbort string
  | OpGet string
  | OpList

fun engine_step :: "'w deps \<Rightarrow> engine_op \<Rightarrow> Engine \<times> 'w \<Rightarrow> (Engine \<times> 'w) option" where
  "engine_step dp OpResumeAll (e, w) = Some (snd (ResumeAll dp e w))"
| "engine_step dp (OpCreate r) (e, w) = map_option snd (Engine_Create dp r e w)"
| "engine_step dp OpTick (e, w) = tickAll dp e w"
| "engine_step dp (OpPause i) (e, w) = Some (snd (Engine_Pause dp i e w))"
| "engine_step dp (OpResume i) (e, w) = Some (snd (Engine_Resume dp i e w))"
| "engine_step dp (OpAbort i) (e, w) = Some (snd (Engine_Abort dp i e w))"
| "engine_step dp (OpGet i) (e, w) = Some (e, snd (Engine_Get dp i e w))"
| "engine_step dp OpList (e, w) = Some (e, snd (Engine_List dp w))"

fun engine_run :: "'w deps \<Rightarrow> engine_op list \<Rightarrow> Engine \<times> 'w \<Rightarrow> (Engine \<times> 'w) option" where
  "engine_run dp [] s = Some s"
| "engine_run dp (op # ops) s =
     (case engine_step dp op s of None \<Rightarrow> None | Some s' \<Rightarrow> engine_run dp ops s')"

definition rolloutOk :: "Rollout \<Rightarrow> bool" where
  "rolloutOk r \<longleftrightarrow> (ro_State r = Running \<or> ro_State r = Paused) \<and> stageAt r \<noteq> None"

definition engine_inv :: "Engine \<Rightarrow> bool" where
  "engine_inv e \<longleftrightarrow> distinct (map fst (en_active e)) \<and>
     (\<forall>k r. map_of (en_active e) k = Some r \<longrightarrow> k = ro_ID r \<and> rolloutOk r)"

section \<open>The active set\<close>

lemma engine_inv_set:
  "engine_inv e \<Longrightarrow> rolloutOk r \<Longrightarrow> k = ro_ID r \<Longrightarrow> engine_inv (e\<lparr>en_active := AList.update k r (en_active e)\<rparr>)"
  by (simp add: engine_inv_def distinct_update update_conv')

lemma engine_inv_del: "engine_inv e \<Longrightarrow> engine_inv (del_active r e)"
  by (simp add: engine_inv_def distinct_delete delete_conv')

lemma engine_inv_lookup: "engine_inv e \<Longrightarrow> map_of (en_active e) k = Some r \<Longrightarrow> k = ro_ID r \<and> rolloutOk r"
  by (simp add: engine_inv_def)

lemma engine_inv_new: "engine_inv (NewEngine s)"
  by (simp add: engine_inv_def NewEngine_def)

lemma stageAt_upd [simp]:
  "stageAt (r\<lparr>ro_State := s\<rparr>) = stageAt r" "stageAt (r\<lparr>ro_CurrentStageStartedAt := t\<rparr>) = stageAt r"
  by (simp_all add: stageAt_def)

lemma applyStage_total: "stageAt r \<noteq> None \<Longrightarrow> \<exists>w'. applyStage dp r w = Some w'"
  by (auto simp: applyStage_def Let_def split: prod.splits sum.splits option.splits)

lemma decide_advance:
  "tickDecide dp r e w = (Advance, w1) \<Longrightarrow>
     ro_State r = Running \<and> ro_CurrentStageIndex r + 1 < int (length (stages_of r)) \<and> 0 \<le> ro_CurrentStageIndex r"
  by (auto simp: tickDecide_def stageAt_def split: if_splits prod.splits sum.splits option.splits bool.splits)

lemma decide_in_range: "stageAt r \<noteq> None \<Longrightarrow> tickDecide dp r e w \<noteq> (OutOfRange, w1)"
  by (auto simp: tickDecide_def split: if_splits prod.splits sum.splits option.splits bool.splits)

section \<open>The contract of the store\<close>

text \<open>\<open>ok\<close> is a property of the store that every call keeps, \<open>held w i n\<close> says that it has a rollout under \<open>i\<close> with \<open>n\<close> stages.\<close>

definition keeps :: "('w \<Rightarrow> bool) \<Rightarrow> ('w \<Rightarrow> string \<Rightarrow> nat \<Rightarrow> bool) \<Rightarrow> 'w \<Rightarrow> 'w \<Rightarrow> bool" where
  "keeps ok held w w' \<longleftrightarrow> (ok w \<longrightarrow> ok w') \<and> (\<forall>i n. held w i n \<longrightarrow> held w' i n)"

lemma keeps_refl [simp]: "keeps ok held w w"
  by (simp add: keeps_def)

lemma keeps_trans: "keeps ok held w w1 \<Longrightarrow> keeps ok held w1 w2 \<Longrightarrow> keeps ok held w w2"
  by (simp add: keeps_def)

locale stage_store =
  fixes dp :: "'w deps" and ok :: "'w \<Rightarrow> bool" and held :: "'w \<Rightarrow> string \<Rightarrow> nat \<Rightarrow> bool"
  assumes listed: "ok w \<Longrightarrow> dp_ListNonTerminal dp w = (Inr rs, w') \<Longrightarrow> r \<in> set rs \<Longrightarrow>
      rolloutOk r \<and> held w' (ro_ID r) (length (stages_of r))"
    and created: "dp_Create dp r w = (None, w') \<Longrightarrow> held w' (ro_ID r) (length (stages_of r))"
    and create_keeps: "stageAt r \<noteq> None \<Longrightarrow> keeps ok held w (snd (dp_Create dp r w))"
    and advance_keeps: "held w i n \<Longrightarrow> 0 \<le> k \<Longrightarrow> k < int n \<Longrightarrow> keeps ok held w (snd (dp_AdvanceStage dp i k t w))"
    and get_keeps: "keeps ok held w (snd (dp_Get dp i w))"
    and list_keeps: "keeps ok held w (snd (dp_List dp w))"
    and unfinished_keeps: "keeps ok held w (snd (dp_ListNonTerminal dp w))"
    and state_keeps: "keeps ok held w (snd (dp_UpdateState dp i s w))"
    and record_keeps: "keeps ok held w (snd (dp_RecordTarget dp i tg w))"
    and targets_keeps: "keeps ok held w (snd (dp_ListTargets dp i w))"
    and set_keeps: "keeps ok held w (snd (dp_SetDesired dp i d w))"
    and desired_keeps: "keeps ok held w (snd (dp_GetDesired dp i w))"
    and reported_keeps: "keeps ok held w (snd (dp_GetReported dp i w))"
    and push_keeps: "dp_PublishDesired dp = Some pub \<Longrightarrow> keeps ok held w (snd (pub i d w))"
    and devices_keeps: "keeps ok held w (snd (dp_Devices dp w))"
    and firing_keeps: "dp_FiringCount dp = Some fc \<Longrightarrow> keeps ok held w (snd (fc is since w))"
    and event_keeps: "dp_PublishEvent dp = Some ev \<Longrightarrow> keeps ok held w (snd (ev evt w))"
    and now_keeps: "keeps ok held w (snd (dp_Now dp w))"
    and id_keeps: "keeps ok held w (snd (dp_NewString dp w))"
begin

abbreviation kept :: "'w \<Rightarrow> 'w \<Rightarrow> bool" where "kept \<equiv> keeps ok held"

text \<open>A call that returned the state \<open>w'\<close> kept what the store before it had.\<close>

lemma call_keeps:
  "kept w (snd x) \<Longrightarrow> x = (a, w') \<Longrightarrow> kept w w'"
  by simp

lemmas ops_keep =
  get_keeps [THEN call_keeps] list_keeps [THEN call_keeps] unfinished_keeps [THEN call_keeps] state_keeps [THEN call_keeps]
  record_keeps [THEN call_keeps] targets_keeps [THEN call_keeps] set_keeps [THEN call_keeps] desired_keeps [THEN call_keeps]
  reported_keeps [THEN call_keeps] devices_keeps [THEN call_keeps] firing_keeps [THEN call_keeps] now_keeps [THEN call_keeps]
  id_keeps [THEN call_keeps]

lemma publish_kept: "kept w (publish dp r ty dt w)"
  by (auto simp: publish_def split: option.splits prod.splits intro: keeps_trans [OF _ event_keeps] dest!: ops_keep)

lemma publishDesired_kept: "kept w (publishDesired dp i d w)"
  by (auto simp: publishDesired_def push_keeps split: option.splits)

lemma healthLoop_kept: "kept w (snd (healthLoop dp ls ps st now is acc w))"
proof (induction "is" arbitrary: acc w)
  case (Cons i "is")
  obtain rj dc where acc: "acc = (rj, dc)" by (cases acc)
  obtain rep w1 where g: "dp_GetReported dp i w = (rep, w1)" by (cases "dp_GetReported dp i w")
  have "kept w w1" using ops_keep(9) [OF g] .
  with Cons.IH show ?case by (cases rep) (simp_all add: acc g Let_def keeps_trans)
qed simp

lemma health_kept: "kept w (snd (evaluateStageHealth dp e r ts w))"
proof -
  obtain ds w1 where d: "dp_Devices dp w = (ds, w1)" by (cases "dp_Devices dp w")
  obtain now w2 where n: "dp_Now dp w1 = (now, w2)" by (cases "dp_Now dp w1")
  define all where "all = (case ds of Inl _ \<Rightarrow> [] | Inr ds \<Rightarrow> ds)"
  obtain rj dc w3 where l: "healthLoop dp (lastSeenOf all) (pushedOf ts) (en_disconnectStaleAfter e) now (map ta_DeviceID ts) (0, 0) w2
      = ((rj, dc), w3)" by (metis prod.exhaust)
  have "kept w w3"
    using ops_keep(10) [OF d] ops_keep(12) [OF n] call_keeps [OF healthLoop_kept l] by (blast intro: keeps_trans)
  then show ?thesis
    using l by (auto simp: evaluateStageHealth_def d n Let_def all_def intro: keeps_trans dest!: ops_keep(11)
      split: prod.splits option.splits sum.splits)
qed

lemma applyTarget_kept: "kept w (applyTarget dp r i w)"
  by (auto simp: applyTarget_def intro: keeps_trans intro!: keeps_trans [OF _ publishDesired_kept] dest!: ops_keep
      split: prod.splits sum.splits)

lemma applyTargets_kept: "kept w (applyTargets dp r A is w)"
  by (induction "is" arbitrary: w) (auto intro: keeps_trans [OF applyTarget_kept])

lemma applyStage_kept: "applyStage dp r w = Some w' \<Longrightarrow> kept w w'"
  by (auto simp: applyStage_def Let_def intro: keeps_trans intro!: keeps_trans [OF _ applyTargets_kept] dest!: ops_keep
      split: prod.splits sum.splits option.splits)

lemma rollbackTargets_kept: "kept w (rollbackTargets dp ts w)"
proof (induction ts arbitrary: w)
  case (Cons t ts)
  have "kept w (rollbackTargets dp ts (publishDesired dp (ta_DeviceID t) p w1))"
    if "dp_SetDesired dp (ta_DeviceID t) pre w = (Inr p, w1)" for pre p w1
    using ops_keep(7) [OF that] publishDesired_kept Cons.IH by (blast intro: keeps_trans)
  moreover have "kept w (rollbackTargets dp ts w1)" if "dp_SetDesired dp (ta_DeviceID t) pre w = (Inl e, w1)" for pre e w1
    using ops_keep(7) [OF that] Cons.IH by (blast intro: keeps_trans)
  ultimately show ?case using Cons.IH by (auto split: option.splits prod.splits sum.splits)
qed simp

lemma rollback_kept:
  "rollbackLocked dp r ts rs e w = (r', e', w') \<Longrightarrow> kept w w' \<and> e' = del_active r e"
  by (auto simp: rollbackLocked_def Let_def split: prod.splits dest!: ops_keep(4)
      intro!: keeps_trans [OF _ publish_kept] intro: keeps_trans [OF rollbackTargets_kept])

lemma complete_kept:
  "completeLocked dp r e w = (r', e', w') \<Longrightarrow> kept w w' \<and> e' = del_active r e"
  by (auto simp: completeLocked_def Let_def split: prod.splits dest!: ops_keep(4) intro: keeps_trans [OF _ publish_kept])

lemma tickDecide_kept: "tickDecide dp r e w = (dc, w') \<Longrightarrow> kept w w'"
proof -
  have h: "kept w1 w2" if "evaluateStageHealth dp e r ts w1 = (x, w2)" for ts w1 x w2
    using health_kept [of w1 e r ts] that by simp
  show "tickDecide dp r e w = (dc, w') \<Longrightarrow> kept w w'"
    by (auto simp: tickDecide_def split: if_splits prod.splits sum.splits option.splits bool.splits
        dest!: h ops_keep(6,12) intro: keeps_trans)
qed

section \<open>Keeping the index in range\<close>

text \<open>A rollout the engine holds is well formed and the store has it with as many stages; so is every active one.\<close>

definition tracked :: "'w \<Rightarrow> Rollout \<Rightarrow> bool" where
  "tracked w r \<longleftrightarrow> rolloutOk r \<and> held w (ro_ID r) (length (stages_of r))"

definition env_inv :: "Engine \<times> 'w \<Rightarrow> bool" where
  "env_inv s \<longleftrightarrow> engine_inv (fst s) \<and> ok (snd s) \<and> (\<forall>k r. map_of (en_active (fst s)) k = Some r \<longrightarrow> tracked (snd s) r)"

lemma tracked_kept: "tracked w r \<Longrightarrow> kept w w' \<Longrightarrow> tracked w' r"
  by (simp add: tracked_def keeps_def)

lemma env_inv_kept: "env_inv (e, w) \<Longrightarrow> kept w w' \<Longrightarrow> env_inv (e, w')"
  by (auto simp: env_inv_def intro: tracked_kept) (simp add: keeps_def)

lemma env_inv_set: "env_inv (e, w) \<Longrightarrow> tracked w r \<Longrightarrow> env_inv (set_active r e, w)"
  by (auto simp: env_inv_def tracked_def update_conv' intro!: engine_inv_set)

lemma env_inv_del: "env_inv (e, w) \<Longrightarrow> env_inv (del_active r e, w)"
  by (auto simp: env_inv_def delete_conv' engine_inv_del)

lemma env_inv_lookup: "env_inv (e, w) \<Longrightarrow> map_of (en_active e) k = Some r \<Longrightarrow> k = ro_ID r \<and> tracked w r"
  using engine_inv_lookup by (auto simp: env_inv_def)

lemma advance_env:
  assumes "tickDecide dp r e w = (Advance, w1)" and "tracked w1 r" and "env_inv (e, w1)"
  shows "\<exists>r' e' w'. advanceLocked dp r e w1 = Some (r', e', w') \<and> kept w1 w' \<and> env_inv (e', w')"
proof -
  obtain now w2 where n: "dp_Now dp w1 = (now, w2)" by (cases "dp_Now dp w1")
  let ?r = "r\<lparr>ro_CurrentStageIndex := ro_CurrentStageIndex r + 1, ro_CurrentStageStartedAt := now\<rparr>"
  note d = decide_advance [OF assms(1)]
  have st: "stageAt ?r \<noteq> None" using d by (simp add: stageAt_def)
  have tr: "tracked w1 ?r" using assms(2) st d by (simp add: tracked_def rolloutOk_def)
  obtain a wa where ad: "dp_AdvanceStage dp (ro_ID r) (ro_CurrentStageIndex r + 1) now w2 = (a, wa)"
    by (cases "dp_AdvanceStage dp (ro_ID r) (ro_CurrentStageIndex r + 1) now w2")
  have 2: "kept w1 w2" using ops_keep(12) [OF n] .
  have "held w2 (ro_ID r) (length (stages_of r))" using tracked_kept [OF assms(2) 2] by (simp add: tracked_def)
  from advance_keeps [OF this] d ad have "kept w2 wa" by (metis add_nonneg_nonneg snd_conv zero_le_one)
  moreover obtain w3 where ap: "applyStage dp ?r wa = Some w3" using applyStage_total [OF st, of dp] by blast
  ultimately have 3: "kept w1 (publish dp ?r EventStageAdvanced dt w3)" for dt
    using 2 applyStage_kept [OF ap] publish_kept by (blast intro: keeps_trans)
  have "env_inv (set_active ?r e, publish dp ?r EventStageAdvanced dt w3)" for dt
    using env_inv_set [OF env_inv_kept [OF assms(3) 3] tracked_kept [OF tr 3]] .
  with 3 ap show ?thesis by (simp add: advanceLocked_def n ad Let_def)
qed

lemma tickOne_env:
  assumes "env_inv (e, w)" and "tracked w r"
  shows "\<exists>r' e' w'. tickOne dp r e w = Some (r', e', w') \<and> kept w w' \<and> env_inv (e', w')"
proof -
  obtain dc w1 where d: "tickDecide dp r e w = (dc, w1)" by (cases "tickDecide dp r e w")
  note k = tickDecide_kept [OF d]
  note inv = env_inv_kept [OF assms(1) k]
  show ?thesis
  proof (cases dc)
    case Keep
    then show ?thesis using d k inv by (simp add: tickOne_def)
  next
    case (Breach ts rs)
    obtain r' e' w' where rb: "rollbackLocked dp r ts rs e w1 = (r', e', w')" by (rule prod_cases3)
    note kr = rollback_kept [OF rb]
    with env_inv_del [OF env_inv_kept [OF inv conjunct1 [OF kr]], of r] keeps_trans [OF k conjunct1 [OF kr]] show ?thesis
      by (simp add: tickOne_def d Breach rb)
  next
    case Finish
    obtain r' e' w' where rb: "completeLocked dp r e w1 = (r', e', w')" by (rule prod_cases3)
    note kr = complete_kept [OF rb]
    with env_inv_del [OF env_inv_kept [OF inv conjunct1 [OF kr]], of r] keeps_trans [OF k conjunct1 [OF kr]] show ?thesis
      by (simp add: tickOne_def d Finish rb)
  next
    case Advance
    from advance_env [OF d [unfolded Advance] tracked_kept [OF assms(2) k] inv] obtain r' e' w'
      where "advanceLocked dp r e w1 = Some (r', e', w')" "kept w1 w'" "env_inv (e', w')" by (elim exE conjE)
    with keeps_trans [OF k] show ?thesis by (simp add: tickOne_def d Advance)
  next
    case OutOfRange
    with d decide_in_range [of r dp e w w1] assms(2) show ?thesis by (simp add: tracked_def rolloutOk_def)
  qed
qed

lemma tickEach_env:
  "env_inv (e, w) \<Longrightarrow> \<forall>r \<in> set rs. tracked w r \<Longrightarrow> \<exists>s'. tickEach dp rs e w = Some s' \<and> env_inv s'"
proof (induction rs arbitrary: e w)
  case (Cons r rs)
  then have "tracked w r" by simp
  from tickOne_env [OF Cons.prems(1) this] obtain r' e' w'
    where t: "tickOne dp r e w = Some (r', e', w')" "kept w w'" "env_inv (e', w')" by (elim exE conjE)
  have "\<forall>r \<in> set rs. tracked w' r" using Cons.prems(2) tracked_kept [OF _ t(2)] by simp
  from Cons.IH [OF t(3) this] t(1) show ?case by simp
qed simp

lemma tickAll_env:
  assumes "env_inv (e, w)"
  shows "\<exists>s'. tickAll dp e w = Some s' \<and> env_inv s'"
proof -
  have "distinct (map fst (en_active e))" using assms by (simp add: env_inv_def engine_inv_def)
  then have "\<forall>r \<in> set (map snd (en_active e)). tracked w r"
    using env_inv_lookup [OF assms] by fastforce
  then show ?thesis unfolding tickAll_def by (rule tickEach_env [OF assms])
qed

text \<open>The ticker loop never dies, however many ticks it does.\<close>

lemma Engine_Run_env: "env_inv (e, w) \<Longrightarrow> \<exists>s'. Engine_Run dp n e w = Some s' \<and> env_inv s'"
proof (induction n arbitrary: e w)
  case (Suc n)
  from tickAll_env [OF Suc.prems] obtain e1 w1 where t: "tickAll dp e w = Some (e1, w1)" "env_inv (e1, w1)" by auto
  from Suc.IH [OF t(2)] show ?case by (simp add: t(1))
qed simp

lemma resumeAll_env:
  assumes "env_inv (e, w)"
  shows "env_inv (snd (ResumeAll dp e w))"
proof -
  obtain x w1 where l: "dp_ListNonTerminal dp w = (x, w1)" by (cases "dp_ListNonTerminal dp w")
  have inv: "env_inv (e, w1)" using env_inv_kept [OF assms ops_keep(3) [OF l]] .
  have "ok w" using assms by (simp add: env_inv_def)
  have fold: "env_inv (fold set_active rs e, w1)" if "\<forall>r \<in> set rs. tracked w1 r" "env_inv (e, w1)" for rs e
    using that by (induction rs arbitrary: e) (simp_all add: env_inv_set)
  show ?thesis
  proof (cases x)
    case (Inr rs)
    have "\<forall>r \<in> set rs. tracked w1 r" using listed [OF \<open>ok w\<close> l [unfolded Inr]] by (simp add: tracked_def)
    from fold [OF this inv] show ?thesis by (simp add: ResumeAll_def l Inr)
  qed (use inv in \<open>simp add: ResumeAll_def l\<close>)
qed

lemma create_env:
  assumes "env_inv (e, w)"
  shows "\<exists>res s'. Engine_Create dp r e w = Some (res, s') \<and> env_inv s'"
proof (cases "validateRollout r")
  case None
  obtain u w1 where u: "dp_NewString dp w = (u, w1)" by (cases "dp_NewString dp w")
  obtain now w2 where n: "dp_Now dp w1 = (now, w2)" by (cases "dp_Now dp w1")
  let ?r = "r\<lparr>ro_ID := u, ro_State := Running, ro_CurrentStageIndex := 0, ro_CurrentStageStartedAt := now\<rparr>"
  have st: "stageAt ?r \<noteq> None" using None by (simp add: validateRollout_def stageAt_def split: if_splits)
  obtain cr w3 where c: "dp_Create dp ?r w2 = (cr, w3)" by (cases "dp_Create dp ?r w2")
  have "kept w2 w3" using create_keeps [OF st, of w2] c by simp
  then have k: "kept w w3" using ops_keep(13) [OF u] ops_keep(12) [OF n] by (blast intro: keeps_trans)
  note inv = env_inv_kept [OF assms k]
  show ?thesis
  proof (cases cr)
    case None
    have tr: "tracked w3 ?r" using created [OF c [unfolded None]] st by (simp add: tracked_def rolloutOk_def)
    obtain w4 where ap: "applyStage dp ?r w3 = Some w4" using applyStage_total [OF st, of dp] by blast
    have k4: "kept w3 (publish dp ?r EventStageStarted dt w4)" for dt
      using applyStage_kept [OF ap] publish_kept by (rule keeps_trans)
    have "env_inv (set_active ?r e, publish dp ?r EventStageStarted dt w4)" for dt
      using env_inv_set [OF env_inv_kept [OF inv k4] tracked_kept [OF tr k4]] .
    with \<open>validateRollout r = None\<close> u n c None ap show ?thesis by (simp add: Engine_Create_def Let_def)
  qed (use \<open>validateRollout r = None\<close> u n c inv in \<open>simp add: Engine_Create_def Let_def\<close>)
qed (use assms in \<open>simp add: Engine_Create_def\<close>)

lemma tracked_state: "tracked w r \<Longrightarrow> s = Running \<or> s = Paused \<Longrightarrow> tracked w (r\<lparr>ro_State := s\<rparr>)"
  by (auto simp: tracked_def rolloutOk_def)

text \<open>Pausing and resuming set the state of an active rollout, tell the store and publish.\<close>

lemma state_env:
  assumes "env_inv (e, w)" and "map_of (en_active e) i = Some r" and "s = Running \<or> s = Paused"
    and "dp_UpdateState dp i s w = (x, w1)"
  shows "env_inv (set_active (r\<lparr>ro_State := s\<rparr>) e, w1) \<and> env_inv (set_active (r\<lparr>ro_State := s\<rparr>) e, publish dp r' ty dt w1)"
proof -
  have k: "kept w w1" using ops_keep(4) [OF assms(4)] .
  have "tracked w1 (r\<lparr>ro_State := s\<rparr>)"
    using tracked_kept [OF tracked_state [OF _ assms(3)] k] env_inv_lookup [OF assms(1,2)] by simp
  from env_inv_set [OF env_inv_kept [OF assms(1) k] this] env_inv_kept [OF _ publish_kept] show ?thesis by simp
qed

lemma pause_env: "env_inv (e, w) \<Longrightarrow> env_inv (snd (Engine_Pause dp i e w))"
  by (auto simp: Engine_Pause_def Let_def dest: state_env [where s = Paused] split: option.splits prod.splits)

lemma resume_env: "env_inv (e, w) \<Longrightarrow> env_inv (snd (Engine_Resume dp i e w))"
  by (auto simp: Engine_Resume_def Let_def dest: state_env [where s = Running] split: option.splits prod.splits)

lemma abort_env: "env_inv (e, w) \<Longrightarrow> env_inv (snd (Engine_Abort dp i e w))"
  by (auto simp: Engine_Abort_def dest!: ops_keep(6) rollback_kept split: option.splits prod.splits sum.splits
      intro: env_inv_kept env_inv_del)

lemma engine_step_env: "env_inv s \<Longrightarrow> \<exists>s'. engine_step dp op s = Some s' \<and> env_inv s'"
proof (cases s)
  case (Pair e w)
  assume "env_inv s"
  then have inv: "env_inv (e, w)" by (simp add: Pair)
  show ?thesis
  proof (cases op)
    case (OpCreate r)
    with create_env [OF inv, of r] show ?thesis by (auto simp: Pair)
  next
    case OpTick
    with tickAll_env [OF inv] show ?thesis by (simp add: Pair)
  next
    case (OpGet i)
    have "kept w (snd (Engine_Get dp i e w))" using get_keeps by (simp add: Engine_Get_def split: option.split)
    with OpGet env_inv_kept [OF inv] show ?thesis by (simp add: Pair)
  qed (use inv in \<open>simp_all add: Pair resumeAll_env pause_env resume_env abort_env Engine_List_def env_inv_kept [OF _ list_keeps]\<close>)
qed

lemma engine_run_env: "env_inv s \<Longrightarrow> \<exists>s'. engine_run dp ops s = Some s' \<and> env_inv s'"
proof (induction ops arbitrary: s)
  case (Cons op ops)
  from engine_step_env [OF Cons.prems] obtain s' where "engine_step dp op s = Some s'" "env_inv s'" by blast
  with Cons.IH [of s'] show ?case by simp
qed simp

end

section \<open>The stores of the service\<close>

text \<open>The rows of the table: their ids are distinct and in the form the database gives them, and where the stages of a row
  decode its index is within them.\<close>

definition stageCount :: "RolloutRow \<Rightarrow> nat option" where
  "stageCount row = (case unmarshal_Stages (Some (rr_stages row)) of
     Inl _ \<Rightarrow> None | Inr ss \<Rightarrow> Some (length (case ss of None \<Rightarrow> [] | Some xs \<Rightarrow> xs)))"

definition index_fits :: "RolloutRow \<Rightarrow> bool" where
  "index_fits row \<longleftrightarrow> (case stageCount row of None \<Rightarrow> True
     | Some n \<Rightarrow> 0 \<le> rr_current_stage_index row \<and> rr_current_stage_index row < int n)"

definition stages_fit :: "pg \<Rightarrow> bool" where
  "stages_fit d \<longleftrightarrow> (\<forall>s u. pg_uuid d s = Some u \<longrightarrow> pg_uuid d u = Some u) \<and> distinct (map rr_id (pg_rollouts d)) \<and>
     (\<forall>row \<in> set (pg_rollouts d). canonical d (rr_id row) \<and> index_fits row)"

definition rollout_held :: "pg \<Rightarrow> string \<Rightarrow> nat \<Rightarrow> bool" where
  "rollout_held d i n \<longleftrightarrow> (\<exists>row \<in> set (pg_rollouts d). pg_uuid d i = Some (rr_id row) \<and> stageCount row \<in> {None, Some n})"

abbreviation pg_keeps :: "pg \<Rightarrow> pg \<Rightarrow> bool" where "pg_keeps \<equiv> keeps stages_fit rollout_held"

text \<open>What a row has to do with stages, and the calls that leave that alone.\<close>

definition stage_view :: "pg \<Rightarrow> (string \<Rightarrow> string option) \<times> (string \<times> json \<times> int) list" where
  "stage_view d = (pg_uuid d, map (\<lambda>row. (rr_id row, rr_stages row, rr_current_stage_index row)) (pg_rollouts d))"

lemma stage_view_same [simp]: "stage_view (d\<lparr>pg_faults := fs\<rparr>) = stage_view d" "stage_view (d\<lparr>pg_rollout_targets := ts\<rparr>) = stage_view d"
  by (simp_all add: stage_view_def)

lemma stage_view_rows:
  assumes "stage_view d' = stage_view d"
  shows "pg_uuid d' = pg_uuid d" and "map rr_id (pg_rollouts d') = map rr_id (pg_rollouts d)"
    and "row \<in> set (pg_rollouts d) \<Longrightarrow> \<exists>row' \<in> set (pg_rollouts d'). rr_id row' = rr_id row \<and> stageCount row' = stageCount row \<and> index_fits row' = index_fits row"
proof -
  have l: "map (\<lambda>row. (rr_id row, rr_stages row, rr_current_stage_index row)) (pg_rollouts d') =
      map (\<lambda>row. (rr_id row, rr_stages row, rr_current_stage_index row)) (pg_rollouts d)" (is "map ?v _ = _")
    and u: "pg_uuid d' = pg_uuid d" using assms by (simp_all add: stage_view_def)
  show "pg_uuid d' = pg_uuid d" by (rule u)
  from arg_cong [OF l, of "map fst"] show "map rr_id (pg_rollouts d') = map rr_id (pg_rollouts d)" by (simp add: comp_def)
  show "\<exists>row' \<in> set (pg_rollouts d'). rr_id row' = rr_id row \<and> stageCount row' = stageCount row \<and> index_fits row' = index_fits row"
    if "row \<in> set (pg_rollouts d)"
  proof -
    from arg_cong [OF l, of set] that have "?v row \<in> ?v ` set (pg_rollouts d')" by simp
    then obtain row' where row: "row' \<in> set (pg_rollouts d')" "?v row = ?v row'" by blast
    then have "stageCount row' = stageCount row" by (simp add: stageCount_def)
    with row show ?thesis by (intro bexI [of _ row']) (simp_all add: index_fits_def split: option.split)
  qed
qed

lemma stage_view_keeps:
  assumes "stage_view d' = stage_view d"
  shows "pg_keeps d d'"
proof -
  note v = stage_view_rows [OF assms] and v' = stage_view_rows [OF assms [symmetric]]
  have "distinct (map rr_id (pg_rollouts d')) = distinct (map rr_id (pg_rollouts d))" by (simp only: v(2))
  moreover have "\<exists>row \<in> set (pg_rollouts d). rr_id row = rr_id row' \<and> index_fits row = index_fits row'" if "row' \<in> set (pg_rollouts d')" for row'
    using v'(3) [OF that] by blast
  ultimately have "stages_fit d \<longrightarrow> stages_fit d'" by (fastforce simp: stages_fit_def canonical_def v(1))
  moreover have "rollout_held d' i n" if held: "rollout_held d i n" for i n
  proof -
    from held obtain row where "row \<in> set (pg_rollouts d)" "pg_uuid d i = Some (rr_id row)" "stageCount row \<in> {None, Some n}"
      by (auto simp: rollout_held_def)
    moreover from v(3) [OF this(1)] obtain row' where "row' \<in> set (pg_rollouts d')" "rr_id row' = rr_id row" "stageCount row' = stageCount row"
      by blast
    ultimately show ?thesis unfolding rollout_held_def by (intro bexI [of _ row']) (simp_all add: v(1))
  qed
  ultimately show ?thesis by (simp add: keeps_def)
qed

lemma pg_run_keeps:
  assumes "\<And>d a d'. stmt d = Inr (a, d') \<Longrightarrow> stage_view d' = stage_view d"
  shows "stage_view (snd (pg_run stmt d)) = stage_view d"
  by (rule pg_run_preserves [where P = "\<lambda>d'. stage_view d' = stage_view d"]) (simp_all add: assms)

lemma pg_exec_keeps:
  assumes "\<And>d a d'. stmt d = Inr (a, d') \<Longrightarrow> stage_view d' = stage_view d"
  shows "stage_view (snd (pg_exec stmt d)) = stage_view d"
  by (rule pg_exec_preserves [where P = "\<lambda>d'. stage_view d' = stage_view d"]) (simp_all add: assms)

lemma reads_view:
  "stage_view (snd (Rollouts_Get i d)) = stage_view d" "stage_view (snd (Rollouts_List d)) = stage_view d"
  "stage_view (snd (ListNonTerminal d)) = stage_view d" "stage_view (snd (ListTargets i d)) = stage_view d"
  "stage_view (snd (Devices_List d)) = stage_view d" "stage_view (snd (FiringCountForDevices ids since d)) = stage_view d"
proof -
  note run = pg_run_keeps [where d = d]
  have "stage_view (snd (pg_run (sql_get_rollout i) d)) = stage_view d" by (rule run) (auto simp: sql_get_rollout_def uuid_arg_Inr)
  then show "stage_view (snd (Rollouts_Get i d)) = stage_view d"
    by (auto simp: Rollouts_Get_def split: prod.splits sum.splits list.splits)
  have "stage_view (snd (pg_run sql_list_rollouts d)) = stage_view d" by (rule run) (auto simp: sql_list_rollouts_def)
  then show "stage_view (snd (Rollouts_List d)) = stage_view d"
    by (auto simp: Rollouts_List_def rollouts_query_def split: prod.splits sum.splits)
  have "stage_view (snd (pg_run sql_list_non_terminal d)) = stage_view d" by (rule run) (auto simp: sql_list_non_terminal_def)
  then show "stage_view (snd (ListNonTerminal d)) = stage_view d"
    by (auto simp: ListNonTerminal_def rollouts_query_def split: prod.splits sum.splits)
  have "stage_view (snd (pg_run (sql_list_targets i) d)) = stage_view d" by (rule run) (auto simp: sql_list_targets_def uuid_arg_Inr)
  then show "stage_view (snd (ListTargets i d)) = stage_view d"
    by (auto simp: ListTargets_def split: prod.splits sum.splits)
  have "stage_view (snd (pg_run sql_list_devices d)) = stage_view d" by (rule run) (auto simp: sql_list_devices_def)
  then show "stage_view (snd (Devices_List d)) = stage_view d"
    by (auto simp: Devices_List_def split: prod.splits sum.splits)
  have "stage_view (snd (pg_run (sql_firing_count ids since) d)) = stage_view d"
    by (rule run) (auto simp: sql_firing_count_def split: sum.splits)
  then show "stage_view (snd (FiringCountForDevices ids since d)) = stage_view d" by (simp add: FiringCountForDevices_def)
qed

lemma writes_view:
  "stage_view (snd (UpdateState t i s d)) = stage_view d" "stage_view (snd (RecordTarget i tg d)) = stage_view d"
proof -
  have "stage_view d' = stage_view d" if "sql_update_state t i s d = Inr (a, d')" for d a d'
    using that by (auto simp: sql_update_state_def uuid_arg_Inr stage_view_def comp_def)
  then show "stage_view (snd (UpdateState t i s d)) = stage_view d" unfolding UpdateState_def by (rule pg_exec_keeps)
  have "stage_view d' = stage_view d" if "sql_insert_target i tg d = Inr (a, d')" for d a d'
    using that by (auto simp: sql_insert_target_def uuid_arg_Inr split: if_splits)
  then show "stage_view (snd (RecordTarget i tg d)) = stage_view d" unfolding RecordTarget_def by (rule pg_exec_keeps)
qed

text \<open>Stages that decode after they were stored are as many as they were.\<close>

lemma dec_elems_length: "dec_elems dec zero js cur = Inr xs \<Longrightarrow> length xs = length js"
  by (induction js arbitrary: cur xs) (auto split: sum.splits)

lemma stageCount_stored:
  assumes "rr_stages row = marshal_Stages ss"
  shows "stageCount row \<in> {None, Some (length (case ss of None \<Rightarrow> [] | Some xs \<Rightarrow> xs))}"
  using assms
  by (cases ss) (auto simp: stageCount_def unmarshal_Stages_def Unmarshal_def marshal_Stages_def dest: dec_elems_length split: sum.splits)

lemma insert_rollout_keeps:
  assumes ins: "sql_insert_rollout t r d = Inr (a, d')"
  shows "rollout_held d' (ro_ID r) (length (stages_of r)) \<and> (stageAt r \<noteq> None \<longrightarrow> pg_keeps d d')"
proof -
  from ins obtain u where u: "pg_uuid d (ro_ID r) = Some u" and new: "u \<notin> rr_id ` set (pg_rollouts d)"
    and "d' = d\<lparr>pg_rollouts := pg_rollouts d @
       [\<lparr>rr_id = u, rr_name = ro_Name r, rr_cohort = marshal_Cohort (ro_Cohort r),
         rr_desired_config = marshal_Desired (ro_DesiredConfig r), rr_stages = marshal_Stages (ro_Stages r),
         rr_health_criteria = marshal_HealthCriteria (ro_HealthCriteria r), rr_state = ro_State r,
         rr_current_stage_index = ro_CurrentStageIndex r, rr_current_stage_started_at = pg_ts (ro_CurrentStageStartedAt r),
         rr_created_at = pg_ts t, rr_updated_at = pg_ts t\<rparr>]\<rparr>" (is "_ = d\<lparr>pg_rollouts := _ @ [?row]\<rparr>")
    by (auto simp: sql_insert_rollout_def uuid_arg_Inr split: if_splits)
  moreover obtain row where "row = ?row" by blast
  ultimately have row: "rr_id row = u" "rr_stages row = marshal_Stages (ro_Stages r)" "rr_current_stage_index row = ro_CurrentStageIndex r"
    and d': "d' = d\<lparr>pg_rollouts := pg_rollouts d @ [row]\<rparr>" by simp_all
  note count = stageCount_stored [OF row(2)]
  have "rollout_held d' (ro_ID r) (length (stages_of r))" using u row(1) d' count by (auto simp: rollout_held_def)
  moreover have "pg_keeps d d'" if "stageAt r \<noteq> None"
  proof -
    have "index_fits row" using that count row(3) by (auto simp: index_fits_def stageAt_def split: if_splits)
    then have "stages_fit d \<longrightarrow> stages_fit d'" using u new row(1) d' by (auto simp: stages_fit_def canonical_def)
    then show ?thesis using d' by (auto simp: keeps_def rollout_held_def)
  qed
  ultimately show ?thesis by blast
qed

lemma Rollouts_Create_keeps:
  "Rollouts_Create t r d = (None, d') \<Longrightarrow> rollout_held d' (ro_ID r) (length (stages_of r))"
  "stageAt r \<noteq> None \<Longrightarrow> pg_keeps d (snd (Rollouts_Create t r d))"
proof -
  show "Rollouts_Create t r d = (None, d') \<Longrightarrow> rollout_held d' (ro_ID r) (length (stages_of r))"
    unfolding Rollouts_Create_def by (erule pg_exec_ok) (drule insert_rollout_keeps, simp)
  show "pg_keeps d (snd (Rollouts_Create t r d))" if "stageAt r \<noteq> None"
    unfolding Rollouts_Create_def
  proof (rule pg_exec_preserves [where P = "pg_keeps d"])
    show "pg_keeps d d" by simp
    show "pg_keeps d (e\<lparr>pg_faults := fs\<rparr>)" if "pg_keeps d e" for e fs
      using that stage_view_keeps [of "e\<lparr>pg_faults := fs\<rparr>" e] keeps_trans by fastforce
    show "pg_keeps d e'" if "pg_keeps d e" "sql_insert_rollout t r e = Inr (a, e')" for e a e'
      using insert_rollout_keeps [OF that(2)] \<open>stageAt r \<noteq> None\<close> keeps_trans [OF that(1)] by blast
  qed
qed

lemma advance_stage_keeps:
  assumes held: "rollout_held d i n" and k: "0 \<le> k" "k < int n" and adv: "sql_advance_stage t i k at' d = Inr (a, d')"
  shows "pg_keeps d d'"
proof -
  from adv obtain u where u: "pg_uuid d i = Some u" and d': "d' = d\<lparr>pg_rollouts :=
      map (\<lambda>r. if rr_id r = u then r\<lparr>rr_current_stage_index := k, rr_current_stage_started_at := pg_ts at', rr_updated_at := pg_ts t\<rparr> else r)
        (pg_rollouts d)\<rparr>" (is "_ = d\<lparr>pg_rollouts := map ?f _\<rparr>")
    by (auto simp: sql_advance_stage_def uuid_arg_Inr split: if_splits)
  define f where "f = ?f"
  have same: "rr_id (f row) = rr_id row" "stageCount (f row) = stageCount row" for row by (simp_all add: stageCount_def f_def)
  have rows: "pg_rollouts d' = map f (pg_rollouts d)" "pg_uuid d' = pg_uuid d" by (simp_all add: d' f_def)
  have "stages_fit d'" if fit: "stages_fit d"
  proof -
    have "index_fits (f row)" if row: "row \<in> set (pg_rollouts d)" for row
    proof (cases "rr_id row = u")
      case True
      from held u obtain row' where row': "row' \<in> set (pg_rollouts d)" "rr_id row' = u" and n: "stageCount row' \<in> {None, Some n}"
        by (auto simp: rollout_held_def)
      have "inj_on rr_id (set (pg_rollouts d))" using fit by (simp add: stages_fit_def distinct_map)
      with row row' True have "row' = row" by (auto dest: inj_onD)
      moreover have "rr_current_stage_index (f row) = k" using True by (simp add: f_def)
      ultimately show ?thesis using n k same(2) [of row] by (auto simp: index_fits_def)
    next
      case False
      then have "f row = row" by (simp add: f_def)
      with fit row show ?thesis by (simp add: stages_fit_def)
    qed
    with fit show ?thesis by (auto simp: stages_fit_def rows canonical_def same comp_def)
  qed
  moreover have "rollout_held d' j m" if "rollout_held d j m" for j m
    using that by (auto simp: rollout_held_def rows same)
  ultimately show ?thesis by (simp add: keeps_def)
qed

lemma AdvanceStage_keeps:
  assumes "rollout_held d i n" and "0 \<le> k" and "k < int n"
  shows "pg_keeps d (snd (AdvanceStage t i k at' d))"
  unfolding AdvanceStage_def
proof (rule pg_exec_preserves [where P = "\<lambda>e. pg_keeps d e"])
  show "pg_keeps d d" by simp
  show "pg_keeps d (e\<lparr>pg_faults := fs\<rparr>)" if "pg_keeps d e" for e fs
    using that stage_view_keeps [of "e\<lparr>pg_faults := fs\<rparr>" e] keeps_trans by fastforce
  show "pg_keeps d e'" if "pg_keeps d e" "sql_advance_stage t i k at' e = Inr (a, e')" for e a e'
  proof -
    have "rollout_held e i n" using that(1) assms(1) by (simp add: keeps_def)
    from keeps_trans [OF that(1) advance_stage_keeps [OF this assms(2,3) that(2)]] show ?thesis .
  qed
qed

lemma scanAll_in: "scanAll scan rows = Inr xs \<Longrightarrow> x \<in> set xs \<Longrightarrow> \<exists>row \<in> set rows. scan row = Inr x"
  by (induction rows arbitrary: xs) (auto split: sum.splits)

lemma ListNonTerminal_fits:
  assumes "stages_fit d" and "ListNonTerminal d = (Inr rs, d')" and "r \<in> set rs"
  shows "rolloutOk r \<and> rollout_held d' (ro_ID r) (length (stages_of r))"
proof -
  obtain rows where run: "pg_run sql_list_non_terminal d = (Inr rows, d')" and scan: "scanAll scanRollout rows = Inr rs"
    using assms(2) by (auto simp: ListNonTerminal_def rollouts_query_def split: prod.splits sum.splits)
  from run have rows: "set rows = {row \<in> set (pg_rollouts d). rr_state row \<in> {''running'', ''paused''}}"
    and d': "pg_rollouts d' = pg_rollouts d" "pg_uuid d' = pg_uuid d"
    by (auto simp: sql_list_non_terminal_def elim!: pg_run_ok)
  obtain row where row: "row \<in> set rows" "scanRollout row = Inr r" using scanAll_in [OF scan assms(3)] by blast
  then have r: "ro_ID r = rr_id row" "ro_State r = rr_state row" "ro_CurrentStageIndex r = rr_current_stage_index row"
    and st: "unmarshal_Stages (Some (rr_stages row)) = Inr (ro_Stages r)"
    by (auto simp: scanRollout_def split: sum.splits)
  have n: "stageCount row = Some (length (stages_of r))" using st by (simp add: stageCount_def)
  have fit: "canonical d (rr_id row)" "index_fits row" using assms(1) row(1) rows by (auto simp: stages_fit_def)
  have "stageAt r \<noteq> None" using fit(2) n r(3) by (simp add: index_fits_def stageAt_def)
  then have "rolloutOk r" using row(1) rows r(2) by (auto simp: rolloutOk_def rollout_states)
  moreover have "rollout_held d' (ro_ID r) (length (stages_of r))"
    using row(1) rows r(1) n fit(1) by (auto simp: rollout_held_def d' canonical_def)
  ultimately show ?thesis ..
qed

text \<open>A world keeps what its database keeps.\<close>

abbreviation world_keeps :: "'kv world \<Rightarrow> 'kv world \<Rightarrow> bool" where
  "world_keeps \<equiv> keeps (\<lambda>w. stages_fit (w_pg w)) (\<lambda>w. rollout_held (w_pg w))"

lemma world_keeps_pg: "world_keeps w w' \<longleftrightarrow> pg_keeps (w_pg w) (w_pg w')"
  by (simp add: keeps_def)

lemma on_pg_keeps: "pg_keeps (w_pg w) (snd (f (w_pg w))) \<Longrightarrow> world_keeps w (snd (on_pg f w))"
  by (auto simp: world_keeps_pg on_pg_def split: prod.splits)

lemma on_pg_now_keeps: "(\<And>t. pg_keeps (w_pg w) (snd (f t (w_pg w)))) \<Longrightarrow> world_keeps w (snd (on_pg_now f w))"
  by (auto simp: world_keeps_pg on_pg_now_def on_pg_def time_Now_def split: prod.splits) (metis snd_conv)

lemma frame_keeps:
  assumes "shadow_frame w' = shadow_frame w"
  shows "world_keeps w w'"
proof -
  have e: "(w_pg w')\<lparr>pg_faults := [], pg_shadow_history := []\<rparr> = (w_pg w)\<lparr>pg_faults := [], pg_shadow_history := []\<rparr>"
    using arg_cong [OF assms, of w_pg] by (simp add: shadow_frame_def)
  have "pg_rollouts (w_pg w') = pg_rollouts (w_pg w)" "pg_uuid (w_pg w') = pg_uuid (w_pg w)"
    using arg_cong [OF e, of pg_rollouts] arg_cong [OF e, of pg_uuid] by simp_all
  then show ?thesis by (simp add: world_keeps_pg stage_view_keeps stage_view_def)
qed

lemma same_pg_keeps: "w_pg w' = w_pg w \<Longrightarrow> world_keeps w w'"
  by (simp add: world_keeps_pg)

lemma other_keeps:
  "world_keeps w (snd (time_Now w))" "world_keeps w (snd (uuid_NewString w))"
  "world_keeps w (snd (PublishDesired i d w))" "world_keeps w (snd (Publisher_Publish evt w))"
  by (auto simp: world_defs PublishDesired_def Publisher_Publish_def intro!: same_pg_keeps split: prod.splits option.splits)

interpretation prodstages: stage_store "prodDeps kv fmt up" "\<lambda>w. stages_fit (w_pg w)" "\<lambda>w. rollout_held (w_pg w)"
proof (unfold_locales, goal_cases)
  case (1 w rs w' r)
  then show ?case
    by (auto simp: prodDeps_def pg_res_def on_pg_def map_sum_def dest: ListNonTerminal_fits split: prod.splits sum.splits)
next
  case (2 r w w')
  then show ?case
    by (auto simp: prodDeps_def pg_err_def on_pg_now_def on_pg_def time_Now_def dest: Rollouts_Create_keeps(1) split: prod.splits)
next
  case (4 w i n k t)
  then show ?case by (auto simp: prodDeps_def pg_err_def intro!: on_pg_now_keeps AdvanceStage_keeps)
qed (auto simp: prodDeps_def pg_res_def pg_err_def other_keeps frame_keeps [OF SetDesired_frame] frame_keeps [OF GetDesired_frame]
      frame_keeps [OF GetReported_frame]
    intro!: on_pg_keeps on_pg_now_keeps Rollouts_Create_keeps(2) stage_view_keeps [OF reads_view(1)]
      stage_view_keeps [OF reads_view(2)] stage_view_keeps [OF reads_view(3)] stage_view_keeps [OF reads_view(4)]
      stage_view_keeps [OF reads_view(5)] stage_view_keeps [OF reads_view(6)] stage_view_keeps [OF writes_view(1)]
      stage_view_keeps [OF writes_view(2)] split: if_splits)

end
