(* ===== verification/RolloutLifecycle.thy ===== *)
theory RolloutLifecycle
  imports RolloutStages
begin

text \<open>
  The life of rollouts in the engine: what a tick decides and does, that no sequence of calls makes the
  engine panic, that a restart picks every unfinished rollout up where it was, and two behaviours of the
  error paths: a failed device listing counts every target as disconnected, and a pause or resume that
  cannot be persisted has happened in memory all the same.
\<close>

section \<open>Lemmas\<close>

lemma advance_ok:
  assumes "tickDecide dp r e w = (Advance, w1)"
  shows "\<exists>now w2. advanceLocked dp r e w1 = Some (r\<lparr>ro_CurrentStageIndex := ro_CurrentStageIndex r + 1,
      ro_CurrentStageStartedAt := now\<rparr>, set_active (r\<lparr>ro_CurrentStageIndex := ro_CurrentStageIndex r + 1,
      ro_CurrentStageStartedAt := now\<rparr>) e, w2) \<and>
    rolloutOk (r\<lparr>ro_CurrentStageIndex := ro_CurrentStageIndex r + 1, ro_CurrentStageStartedAt := now\<rparr>)"
proof -
  obtain now w2 where n: "dp_Now dp w1 = (now, w2)" by (cases "dp_Now dp w1")
  let ?r = "r\<lparr>ro_CurrentStageIndex := ro_CurrentStageIndex r + 1, ro_CurrentStageStartedAt := now\<rparr>"
  have st: "stageAt ?r \<noteq> None" using decide_advance [OF assms] by (simp add: stageAt_def)
  obtain a wa where ad: "dp_AdvanceStage dp (ro_ID r) (ro_CurrentStageIndex r + 1) now w2 = (a, wa)"
    by (cases "dp_AdvanceStage dp (ro_ID r) (ro_CurrentStageIndex r + 1) now w2")
  obtain w3 where "applyStage dp ?r wa = Some w3"
    using applyStage_total [OF st, of dp] by blast
  then have "\<exists>w4. advanceLocked dp r e w1 = Some (?r, set_active ?r e, w4)"
    by (simp add: advanceLocked_def n ad Let_def)
  then show ?thesis using st decide_advance [OF assms] by (auto simp: rolloutOk_def)
qed

lemma rollout_row_scan:
  assumes "Rollouts_Create n r d = (None, d')" and "desired_ok (ro_DesiredConfig r)" and "list_all stage_ok (stages_of r)"
  shows "\<exists>row u. pg_uuid d (ro_ID r) = Some u \<and> pg_rollouts d' = pg_rollouts d @ [row] \<and> rr_id row = u \<and>
    rr_state row = ro_State r \<and>
    scanRollout row = Inr (r\<lparr>ro_ID := u, ro_Cohort := (ro_Cohort r)\<lparr>co_DeviceIDs := drop_empty (co_DeviceIDs (ro_Cohort r))\<rparr>,
      ro_DesiredConfig := (ro_DesiredConfig r)\<lparr>d_EnabledSensors := drop_empty (d_EnabledSensors (ro_DesiredConfig r))\<rparr>,
      ro_CurrentStageStartedAt := pg_ts (ro_CurrentStageStartedAt r), ro_CreatedAt := pg_ts n, ro_UpdatedAt := pg_ts n\<rparr>)"
proof -
  have st: "unmarshal_Stages (Some (marshal_Stages (ro_Stages r))) = Inr (ro_Stages r)"
    using assms(3) by (intro Stages_roundtrip) auto
  from assms(1) show ?thesis unfolding Rollouts_Create_def
    by (rule pg_exec_ok) (auto simp: sql_insert_rollout_def uuid_arg_Inr scanRollout_def Cohort_roundtrip
        Desired_roundtrip [OF assms(2)] st HealthCriteria_roundtrip split: if_splits)
qed

lemma fold_set_active:
  "distinct (map ro_ID rs) \<Longrightarrow>
   map_of (en_active (fold set_active rs e)) k =
     (case find (\<lambda>r. ro_ID r = k) rs of Some r \<Rightarrow> Some r | None \<Rightarrow> map_of (en_active e) k)"
proof (induction rs arbitrary: e)
  case (Cons r rs)
  have "find (\<lambda>r. ro_ID r = k) rs = None" if "ro_ID r = k"
    using Cons.prems that by (auto simp: find_None_iff) (metis image_eqI)
  with Cons show ?case by (auto simp: update_conv' split: option.splits)
qed simp

lemma find_distinct:
  "distinct (map f xs) \<Longrightarrow> find (\<lambda>x. f x = k) xs = Some x \<longleftrightarrow> x \<in> set xs \<and> f x = k"
  by (induction xs) (auto simp: rev_image_eqI)

lemma scanAll_rollouts:
  assumes "\<And>row. row \<in> set rows \<Longrightarrow> \<exists>r. scanRollout row = Inr r"
  shows "scanAll scanRollout rows = Inr (map (projr \<circ> scanRollout) rows)"
  using assms
proof (induction rows)
  case (Cons row rows)
  then obtain r where "scanRollout row = Inr r" by auto
  with Cons show ?case by simp
qed simp

lemma scanRollout_id: "scanRollout row = Inr r \<Longrightarrow> ro_ID r = rr_id row \<and> ro_State r = rr_state row"
  by (auto simp: scanRollout_def split: sum.splits)

section \<open>Properties\<close>

text \<open>C4: the engine never panics. A new engine on the service's stores, whatever calls of its methods (its \<^verbatim>\<open>ResumeAll\<close> included) and
  ticks follow, in whatever order and whatever the stores, the brokers, the KV bucket, the clock and the sources of ids do, never
  indexes the stages of a rollout out of range; every active rollout is running or paused, has its index within its stages and is
  filed under its own id. All that is asked of the database at the start is that the ids of its rollouts are distinct and in
  the database's form and that each stored index lies within its row's stages, which holds of an empty table and, as the theorem
  says too, again after every call, so that it does when the next process starts.\<close>

theorem engine_never_panics:
  assumes "stages_fit (w_pg w)"
  shows "\<exists>e' w'. engine_run (prodDeps kv fmt up) ops (NewEngine s, w) = Some (e', w') \<and> engine_inv e' \<and> stages_fit (w_pg w')"
proof -
  have "prodstages.env_inv (NewEngine s, w)"
    using assms by (simp add: prodstages.env_inv_def engine_inv_new) (simp add: NewEngine_def)
  from prodstages.engine_run_env [OF this, of kv fmt up ops] show ?thesis by (auto simp: prodstages.env_inv_def)
qed

theorem engine_never_panics_witness:
  "\<exists>e' w'. engine_run rollDeps [OpCreate rollSample, OpTick, OpPause ''u'', OpResumeAll, OpTick, OpAbort ''u''] (NewEngine 0, rollWorld)
     = Some (e', w') \<and> engine_inv e' \<and> stages_fit (w_pg w')"
  by (rule engine_never_panics) (simp add: stages_fit_def rollWorld_def roll_defs Let_def)

text \<open>C14: a tick looks at health before it looks at the clock. For a running rollout whose targets were
  listed: if the counted rejections, disconnections and errors breach the criteria, the rollout is aborted and
  leaves the active set, however much bake time is left; otherwise it stays as it is until the stage's bake
  time has passed, and then completes if this was the last stage and moves on by exactly one stage if not.
  A paused rollout is left alone.\<close>

theorem tick_health_first:
  assumes "rolloutOk r" and "stageAt r = Some stage"
    and "dp_ListTargets dp (ro_ID r) w = (Inr ts, w1)"
    and "evaluateStageHealth dp e r ts w1 = ((rj, dc, er), w2)" and "dp_Now dp w2 = (now, w3)"
  shows "\<exists>r' e' w'. tickOne dp r e w = Some (r', e', w') \<and>
    (if ro_State r = Paused then r' = r \<and> e' = e \<and> w' = w
     else if fst (EvaluateHealth (dp_fmt dp) (ro_HealthCriteria r) (int (length ts)) rj dc er)
       then r' = r\<lparr>ro_State := Aborted\<rparr> \<and> e' = del_active r e
     else if time_sub now (ro_CurrentStageStartedAt r) < sg_BakeDuration stage then r' = r \<and> e' = e \<and> w' = w3
     else if ro_CurrentStageIndex r = int (length (stages_of r)) - 1
       then r' = r\<lparr>ro_State := Completed\<rparr> \<and> e' = del_active r e
     else ro_State r' = Running \<and> ro_CurrentStageIndex r' = ro_CurrentStageIndex r + 1 \<and> same_rollout r r' \<and>
       e' = set_active r' e)"
proof (cases "ro_State r = Paused")
  case True
  then show ?thesis by (simp add: tickOne_def tickDecide_def rollout_states)
next
  case False
  then have run: "ro_State r = Running" using assms(1) by (simp add: rolloutOk_def)
  let ?b = "EvaluateHealth (dp_fmt dp) (ro_HealthCriteria r) (int (length ts)) rj dc er"
  have dec: "tickDecide dp r e w =
      (if fst ?b then (Breach ts (snd ?b), w2)
       else if time_sub now (ro_CurrentStageStartedAt r) < sg_BakeDuration stage then (Keep, w3)
       else if ro_CurrentStageIndex r = int (length (stages_of r)) - 1 then (Finish, w3) else (Advance, w3))"
    using run assms by (cases ?b) (simp add: tickDecide_def split: bool.splits)
  show ?thesis
  proof (cases "tickDecide dp r e w = (Advance, w3)")
    case True
    with dec have c: "\<not> fst ?b" "\<not> time_sub now (ro_CurrentStageStartedAt r) < sg_BakeDuration stage"
      "ro_CurrentStageIndex r \<noteq> int (length (stages_of r)) - 1" by (auto split: if_splits)
    obtain t w4 where "tickOne dp r e w = Some (r\<lparr>ro_CurrentStageIndex := ro_CurrentStageIndex r + 1,
        ro_CurrentStageStartedAt := t\<rparr>, set_active (r\<lparr>ro_CurrentStageIndex := ro_CurrentStageIndex r + 1,
        ro_CurrentStageStartedAt := t\<rparr>) e, w4)"
      using advance_ok [OF True] True by (auto simp: tickOne_def)
    with c False run show ?thesis by (auto simp: same_rollout_def)
  next
    case adv: False
    with dec False show ?thesis
      by (auto simp: tickOne_def rollbackLocked_def completeLocked_def Let_def split: if_splits prod.splits)
  qed
qed

definition rollRunning :: Rollout where
  "rollRunning = rollSample\<lparr>ro_ID := ''u'', ro_State := Running\<rparr>"

lemma rollWorld_pg: "pg_faults (w_pg rollWorld) = []" "pg_uuid (w_pg rollWorld) = Some" "pg_rollouts (w_pg rollWorld) = []"
  "pg_rollout_targets (w_pg rollWorld) = []"
  by (simp_all add: rollWorld_def roll_defs Let_def)

theorem tick_health_first_witness:
  "\<exists>r' e' w'. tickOne rollDeps rollRunning (NewEngine 0) rollWorld = Some (r', e', w') \<and> ro_State r' = Completed"
proof -
  have l: "dp_ListTargets rollDeps (ro_ID rollRunning) rollWorld = (Inr [], rollWorld)"
    by (simp add: pg_res_def on_pg_def ListTargets_def sql_list_targets_def uuid_arg_def rollWorld_pg)
  have d: "\<exists>ds. dp_Devices rollDeps rollWorld = (ds, rollWorld)"
    by (simp add: pg_res_def on_pg_def Devices_List_def sql_list_devices_def rollWorld_pg)
  have h: "evaluateStageHealth rollDeps (NewEngine 0) rollRunning [] rollWorld = ((0, 0, 0), snd (time_Now rollWorld))"
    using d by (auto simp: evaluateStageHealth_def Let_def time_Now_def FiringCountForDevices_def prodDeps_def pg_res_def on_pg_def)
  have n: "dp_Now rollDeps (snd (time_Now rollWorld)) = (1000000, snd (time_Now (snd (time_Now rollWorld))))"
    by (simp add: time_Now_def rollWorld_def roll_defs Let_def)
  have st: "stageAt rollRunning = Some \<lparr>sg_Percent = 100, sg_BakeDuration = 0\<rparr>"
    by (simp add: stageAt_def rollRunning_def rollSample_def)
  then have "rolloutOk rollRunning" by (simp add: rolloutOk_def rollRunning_def)
  from tick_health_first [OF this st l h n] show ?thesis
    by (auto simp: rollRunning_def rollSample_def rollout_states EvaluateHealth_def time_sub_def minDuration_def maxDuration_def)
qed

lemma ResumeAll_exact:
  assumes "pg_faults (w_pg w) = []" and "distinct (map rr_id (pg_rollouts (w_pg w)))"
    and "\<forall>row \<in> set (pg_rollouts (w_pg w)). \<exists>r. scanRollout row = Inr r"
  shows "\<exists>e. ResumeAll (prodDeps kv fmt up) (NewEngine s) w = (None, e, w) \<and>
    (\<forall>k r. map_of (en_active e) k = Some r \<longleftrightarrow>
      (\<exists>row \<in> set (pg_rollouts (w_pg w)). rr_id row = k \<and> rr_state row \<in> {Running, Paused} \<and> scanRollout row = Inr r))"
proof -
  define rows where "rows = sort_key rr_created_at (filter (\<lambda>r. rr_state r \<in> {''running'', ''paused''}) (pg_rollouts (w_pg w)))"
  define rs where "rs = map (projr \<circ> scanRollout) rows"
  have rows: "set rows = {row \<in> set (pg_rollouts (w_pg w)). rr_state row \<in> {Running, Paused}}"
    by (auto simp: rows_def rollout_states)
  then have ok: "\<And>row. row \<in> set rows \<Longrightarrow> \<exists>r. scanRollout row = Inr r" using assms(3) by auto
  have scan: "scanAll scanRollout rows = Inr rs" unfolding rs_def using ok by (rule scanAll_rollouts)
  have ids: "map ro_ID rs = map rr_id rows"
    unfolding rs_def using ok scanRollout_id by fastforce
  have "distinct (map rr_id rows)"
  proof -
    have "distinct rows" using assms(2) by (simp add: rows_def distinct_map distinct_filter)
    moreover have "inj_on rr_id (set rows)" using assms(2) by (auto simp: rows distinct_map intro: inj_on_subset)
    ultimately show ?thesis by (simp only: distinct_map)
  qed
  with ids have dist: "distinct (map ro_ID rs)" by (simp only:)
  have resume: "ResumeAll (prodDeps kv fmt up) (NewEngine s) w = (None, fold set_active rs (NewEngine s), w)"
    using assms(1) scan
    by (simp add: ResumeAll_def pg_res_def on_pg_def ListNonTerminal_def rollouts_query_def sql_list_non_terminal_def
        rows_def)
  have mem: "r \<in> set rs \<longleftrightarrow> (\<exists>row \<in> set rows. scanRollout row = Inr r)" for r
    unfolding rs_def using ok by (force simp: image_iff)
  have "map_of (en_active (fold set_active rs (NewEngine s))) k = Some r \<longleftrightarrow>
      (\<exists>row \<in> set (pg_rollouts (w_pg w)). rr_id row = k \<and> rr_state row \<in> {Running, Paused} \<and> scanRollout row = Inr r)"
    (is "?l \<longleftrightarrow> ?r") for k r
  proof -
    have "?l \<longleftrightarrow> find (\<lambda>r. ro_ID r = k) rs = Some r"
      unfolding fold_set_active [OF dist] by (simp add: NewEngine_def split: option.splits)
    also have "\<dots> \<longleftrightarrow> (\<exists>row \<in> set rows. scanRollout row = Inr r) \<and> ro_ID r = k"
      unfolding find_distinct [OF dist] mem ..
    also have "\<dots> \<longleftrightarrow> ?r" unfolding rows by (fastforce dest: scanRollout_id)
    finally show ?thesis .
  qed
  with resume show ?thesis by blast
qed

text \<open>A restart resumes exactly the unfinished rollouts. If the stored rows decode, a new engine's
  \<^verbatim>\<open>ResumeAll\<close> makes active exactly the rollouts stored as running or paused, each with the stage,
  the start of its bake time and everything else as stored.\<close>

theorem resume_exact:
  assumes "pg_faults (w_pg w) = []" and "distinct (map rr_id (pg_rollouts (w_pg w)))"
    and "\<forall>row \<in> set (pg_rollouts (w_pg w)). \<exists>r. scanRollout row = Inr r"
  shows "\<exists>e. ResumeAll (prodDeps kv fmt up) (NewEngine s) w = (None, e, w) \<and>
    (\<forall>k r. map_of (en_active e) k = Some r \<longleftrightarrow>
      (\<exists>row \<in> set (pg_rollouts (w_pg w)). rr_id row = k \<and> rr_state row \<in> {Running, Paused} \<and> scanRollout row = Inr r))"
  using assms by (rule ResumeAll_exact)

definition restartWorld :: "memkv world" where
  "restartWorld = rollWorld\<lparr>w_pg := snd (Rollouts_Create 7 rollRunning (w_pg rollWorld))\<rparr>"

lemma restartWorld_row:
  obtains row r where "pg_faults (w_pg restartWorld) = []" and "pg_rollouts (w_pg restartWorld) = [row]" and "rr_id row = ''u''"
    and "rr_state row = Running" and "scanRollout row = Inr r" and "ro_State r = Running" and "ro_Stages r = ro_Stages rollSample"
proof -
  let ?d = "snd (Rollouts_Create 7 rollRunning (w_pg rollWorld))"
  have c: "Rollouts_Create 7 rollRunning (w_pg rollWorld) = (None, ?d)" and f: "pg_faults ?d = []"
    by (simp_all add: Rollouts_Create_def pg_exec_def sql_insert_rollout_def uuid_arg_def rollWorld_pg rollRunning_def
        rollSample_def int4_ok_def)
  have "desired_ok (ro_DesiredConfig rollRunning)" "list_all stage_ok (stages_of rollRunning)"
    by (simp_all add: rollRunning_def rollSample_def desired_ok_def zeroDesired_def int64_ok_def stage_ok_def)
  from rollout_row_scan [OF c this] obtain row r where "pg_rollouts ?d = [row]" "rr_id row = ''u''"
    "rr_state row = Running" "scanRollout row = Inr r" "ro_Stages r = ro_Stages rollSample" "ro_State r = Running"
    by (auto simp: rollWorld_pg rollRunning_def)
  with f show thesis by (intro that [of row r]) (simp_all add: restartWorld_def)
qed

theorem resume_exact_witness:
  "\<exists>e r. ResumeAll rollDeps (NewEngine 0) restartWorld = (None, e, restartWorld) \<and>
     map_of (en_active e) ''u'' = Some r \<and> ro_State r = Running \<and> ro_Stages r = ro_Stages rollSample"
proof -
  obtain row r where row: "pg_faults (w_pg restartWorld) = []" "pg_rollouts (w_pg restartWorld) = [row]" "rr_id row = ''u''"
    "rr_state row = Running" "scanRollout row = Inr r" "ro_State r = Running" "ro_Stages r = ro_Stages rollSample" by (rule restartWorld_row)
  then have "distinct (map rr_id (pg_rollouts (w_pg restartWorld)))"
    "\<forall>row \<in> set (pg_rollouts (w_pg restartWorld)). \<exists>r. scanRollout row = Inr r" by simp_all
  from resume_exact [OF row(1) this, of memkv_ops "\<lambda>_ _ _ _ _. ''unhealthy''" True 0] obtain e
    where e: "ResumeAll rollDeps (NewEngine 0) restartWorld = (None, e, restartWorld)"
      "\<forall>k r. map_of (en_active e) k = Some r \<longleftrightarrow>
        (\<exists>row \<in> set (pg_rollouts (w_pg restartWorld)). rr_id row = k \<and> rr_state row \<in> {Running, Paused} \<and> scanRollout row = Inr r)"
    by blast
  have "map_of (en_active e) ''u'' = Some r" using e(2) row by simp
  with e(1) row(6,7) show ?thesis by blast
qed

lemma healthLoop_unseen:
  "\<exists>rj' w'. healthLoop dp (\<lambda>_. None) ps st now is (rj, dc) w = ((rj', dc + int (length is)), w')"
proof (induction "is" arbitrary: rj dc w)
  case (Cons i "is")
  obtain rep w1 where g: "dp_GetReported dp i w = (rep, w1)" by (cases "dp_GetReported dp i w")
  have len: "dc + int (length (i # is)) = dc + 1 + int (length is)" by simp
  show ?case unfolding len using Cons.IH [of _ "dc + 1" w1] by (cases rep) (simp_all add: g Let_def)
qed simp

lemma health_listing_failed:
  assumes "dp_Devices dp w = (Inl err, w1)"
  shows "\<exists>rj er w'. evaluateStageHealth dp e r ts w = ((rj, int (length ts), er), w')"
proof -
  have none: "lastSeenOf [] = (\<lambda>_. None)" by (simp add: lastSeenOf_def fun_eq_iff)
  obtain now w2 where n: "dp_Now dp w1 = (now, w2)" by (cases "dp_Now dp w1")
  obtain rj w3 where "healthLoop dp (\<lambda>_. None) (pushedOf ts) (en_disconnectStaleAfter e) now (map ta_DeviceID ts) (0, 0) w2
      = ((rj, int (length ts)), w3)"
    using healthLoop_unseen [of dp "pushedOf ts" "en_disconnectStaleAfter e" now "map ta_DeviceID ts" 0 0 w2] by auto
  then show ?thesis
    by (auto simp: evaluateStageHealth_def assms n none Let_def split: option.splits prod.splits sum.splits)
qed

text \<open>A failed device listing looks like a fleet-wide disconnect. If the device registry cannot be read
  during a health check, every target counts as disconnected, so a running rollout with targets and a
  disconnect limit below 100\% is aborted and rolled back although nothing is known against its devices.\<close>

theorem failed_listing_rolls_back:
  assumes "ro_State r = Running" and "dp_ListTargets dp (ro_ID r) w = (Inr ts, w1)" and "ts \<noteq> []"
    and "dp_Devices dp w1 = (Inl err, w2)"
    and "0 < hc_MaxDisconnectRate (ro_HealthCriteria r)" and "hc_MaxDisconnectRate (ro_HealthCriteria r) < 1"
  shows "\<exists>w'. tickOne dp r e w = Some (r\<lparr>ro_State := Aborted\<rparr>, del_active r e, w')"
proof -
  obtain rj er w3 where h: "evaluateStageHealth dp e r ts w1 = ((rj, int (length ts), er), w3)"
    using health_listing_failed [OF assms(4)] by blast
  let ?b = "EvaluateHealth (dp_fmt dp) (ro_HealthCriteria r) (int (length ts)) rj (int (length ts)) er"
  have "fst ?b" using assms(3,5,6) by (simp add: EvaluateHealth_def health_check_def Let_def)
  then have "tickDecide dp r e w = (Breach ts (snd ?b), w3)"
    using assms(1,2) h by (cases ?b) (auto simp: tickDecide_def)
  then show ?thesis by (simp add: tickOne_def rollbackLocked_def Let_def split: prod.splits)
qed

definition flakyWorld :: "memkv world" where
  "flakyWorld = rollWorld\<lparr>w_pg := (w_pg rollWorld)\<lparr>pg_faults := [None, Some (Lost ''connection reset'')],
     pg_rollout_targets := [\<lparr>tr_rollout_id = ''u'', tr_device_id = ''d1'', tr_included_at_stage = 0,
       tr_pre_rollout_desired = None, tr_pre_rollout_revision = 0, tr_pushed_revision = 1\<rparr>]\<rparr>\<rparr>"

definition cautiousRollout :: Rollout where
  "cautiousRollout = rollRunning\<lparr>ro_HealthCriteria := zeroHealth\<lparr>hc_MaxDisconnectRate := 1/2\<rparr>\<rparr>"

theorem failed_listing_rolls_back_witness:
  "\<exists>w'. tickOne rollDeps cautiousRollout (NewEngine 0) flakyWorld
     = Some (cautiousRollout\<lparr>ro_State := Aborted\<rparr>, del_active cautiousRollout (NewEngine 0), w')"
proof -
  obtain ts w1 where l: "dp_ListTargets rollDeps (ro_ID cautiousRollout) flakyWorld = (Inr ts, w1)" "ts \<noteq> []"
    "pg_faults (w_pg w1) = [Some (Lost ''connection reset'')]"
    by (simp add: pg_res_def on_pg_def ListTargets_def sql_list_targets_def uuid_arg_def flakyWorld_def pg_run_def
        cautiousRollout_def rollRunning_def rollWorld_pg scanTarget_def)
  have d: "dp_Devices rollDeps w1 = (Inl (SvcPg (PgIO ''connection reset'')), snd (dp_Devices rollDeps w1))"
    using l(3) by (simp add: pg_res_def on_pg_def Devices_List_def pg_run_def)
  show ?thesis
    by (rule failed_listing_rolls_back [OF _ l(1,2) d])
      (simp_all add: cautiousRollout_def rollRunning_def zeroHealth_def)
qed

text \<open>A pause or resume that could not be stored has taken effect all the same: the call reports the
  store's error, but the rollout in the active set is already paused (or running), and stays so until the
  process restarts.\<close>

theorem pause_error_still_pauses:
  assumes "engine_inv e" and "Engine_Pause dp i e w = (Inl (EngineSvc err), e', w')"
  shows "\<exists>r. map_of (en_active e) i = Some r \<and> ro_State r = Running \<and>
    map_of (en_active e') i = Some (r\<lparr>ro_State := Paused\<rparr>)"
  using assms(2) engine_inv_lookup [OF assms(1), of i]
  by (auto simp: Engine_Pause_def Let_def update_conv' split: option.splits prod.splits if_splits)

theorem pause_error_still_pauses_witness:
  "\<exists>err e' w'. Engine_Pause rollDeps ''u'' \<lparr>en_active = [(''u'', rollRunning)], en_disconnectStaleAfter = 0\<rparr>
       (rollWorld\<lparr>w_pg := (w_pg rollWorld)\<lparr>pg_faults := [Some (Lost ''timeout'')]\<rparr>\<rparr>) = (Inl (EngineSvc err), e', w') \<and>
     map_of (en_active e') ''u'' = Some (rollRunning\<lparr>ro_State := Paused\<rparr>)"
proof -
  let ?e = "\<lparr>en_active = [(''u'', rollRunning)], en_disconnectStaleAfter = 0\<rparr>"
  let ?w = "rollWorld\<lparr>w_pg := (w_pg rollWorld)\<lparr>pg_faults := [Some (Lost ''timeout'')]\<rparr>\<rparr>"
  have inv: "engine_inv ?e"
    by (simp add: engine_inv_def rolloutOk_def rollRunning_def rollSample_def stageAt_def)
  have "\<exists>err e' w'. Engine_Pause rollDeps ''u'' ?e ?w = (Inl (EngineSvc err), e', w')"
    by (simp add: Engine_Pause_def rollRunning_def pg_err_def world_defs UpdateState_def pg_exec_def pg_run_def Let_def)
  then obtain err e' w' where p: "Engine_Pause rollDeps ''u'' ?e ?w = (Inl (EngineSvc err), e', w')" by blast
  from pause_error_still_pauses [OF inv p] p show ?thesis by auto
qed

end
