(* ===== verification/ControlApi.thy ===== *)
theory ControlApi
  imports Auth RolloutLifecycle Config
begin

text \<open>
  The REST endpoints of \<^verbatim>\<open>cmd/control\<close> behind a role: \<^verbatim>\<open>alerts_handlers.go\<close>,
  \<^verbatim>\<open>devices_handlers.go\<close> and \<^verbatim>\<open>rollout_handlers.go\<close>. The state of the service is the world its stores
  work on and the rollout engine. A request to them is a value of \<open>api_call\<close>, one constructor per route; path values and
  query parameters are its arguments. The two endpoints without a role, and who may change what, are in the theory \<open>ControlService\<close>. Texts of times and of errors are parameters of the environment.
\<close>

section \<open>State and environment\<close>

record 'kv control =
  cs_world :: "'kv world"
  cs_engine :: Engine

record 'kv control_env =
  ce_jwt :: jwtops
  ce_issuer :: string
  ce_signingKey :: string
  ce_kv :: "'kv kvops"
  ce_reason :: reason_format
  ce_mqttUp :: bool
  ce_driftStaleAfter :: duration
  ce_rfc3339 :: "time \<Rightarrow> string"
  ce_millis :: "time \<Rightarrow> string"
  ce_alertError :: "alert_error \<Rightarrow> string"
  ce_engineError :: "engine_error \<Rightarrow> string"

abbreviation ce_deps :: "'kv control_env \<Rightarrow> 'kv world deps" where
  "ce_deps env \<equiv> prodDeps (ce_kv env) (ce_reason env) (ce_mqttUp env)"

definition on_world :: "('kv world \<Rightarrow> 'a \<times> 'kv world) \<Rightarrow> 'kv control \<Rightarrow> 'a \<times> 'kv control" where
  "on_world f s = (case f (cs_world s) of (a, w) \<Rightarrow> (a, s\<lparr>cs_world := w\<rparr>))"

definition on_engine :: "(Engine \<Rightarrow> 'kv world \<Rightarrow> 'a \<times> Engine \<times> 'kv world) \<Rightarrow> 'kv control \<Rightarrow> 'a \<times> 'kv control" where
  "on_engine f s = (case f (cs_engine s) (cs_world s) of (a, e, w) \<Rightarrow> (a, \<lparr>cs_world = w, cs_engine = e\<rparr>))"

type_synonym 'kv handler = "'kv control \<Rightarrow> http_reply \<times> 'kv control"

definition writeJSON :: "nat \<Rightarrow> json \<Rightarrow> http_reply" where
  "writeJSON status b = \<lparr>hr_status = status, hr_body = b\<rparr>"

text \<open>A slice in a reply: a nil one is \<^verbatim>\<open>null\<close>.\<close>

definition nil_or_array :: "('a \<Rightarrow> json) \<Rightarrow> 'a list \<Rightarrow> json" where
  "nil_or_array enc xs = (if xs = [] then JNull else JArray (map enc xs))"

section \<open>Alerts\<close>

definition marshal_Alert :: "(time \<Rightarrow> string) \<Rightarrow> Alert \<Rightarrow> json" where
  "marshal_Alert fmt a = JObject
     [(''ID'', JString (a_ID a)), (''DeviceID'', JString (a_DeviceID a)), (''SensorType'', JString (a_SensorType a)),
      (''RuleName'', JString (a_RuleName a)), (''Severity'', JString (a_Severity a)), (''State'', JString (a_State a)),
      (''Detail'', marshal_map (a_Detail a)), (''FiredAt'', JString (fmt (a_FiredAt a))),
      (''AcknowledgedAt'', case a_AcknowledgedAt a of None \<Rightarrow> JNull | Some t \<Rightarrow> JString (fmt t)),
      (''ResolvedAt'', case a_ResolvedAt a of None \<Rightarrow> JNull | Some t \<Rightarrow> JString (fmt t)),
      (''UpdatedAt'', JString (fmt (a_UpdatedAt a)))]"

definition getAlerts :: "'kv control_env \<Rightarrow> (string \<Rightarrow> string) \<Rightarrow> 'kv handler" where
  "getAlerts env query s =
     (case on_world (on_pg (Alerts_List \<lparr>fi_State = query ''state'', fi_DeviceID = query ''device_id'', fi_Limit = fst (Atoi (query ''limit''))\<rparr>)) s of
        (Inl e, s1) \<Rightarrow> (writeJSONError 500 ''internal error'', s1)
      | (Inr alerts, s1) \<Rightarrow> (writeJSON 200 (JObject [(''alerts'', nil_or_array (marshal_Alert (ce_rfc3339 env)) alerts)]), s1))"

definition announceAlert :: "Alert \<Rightarrow> 'kv control \<Rightarrow> 'kv control" where
  "announceAlert a s = (case on_world time_Now s of (now, s1) \<Rightarrow> snd (on_world (on_js (Alerts_Publish a now)) s1))"

definition postAck :: "'kv control_env \<Rightarrow> string \<Rightarrow> 'kv handler" where
  "postAck env id' s =
     (case on_world (on_pg_now (\<lambda>t. Acknowledge t id')) s of
        (Inl e, s1) \<Rightarrow> (writeJSONError 400 (ce_alertError env e), s1)
      | (Inr a, s1) \<Rightarrow> (writeJSON 200 (marshal_Alert (ce_rfc3339 env) a), announceAlert a s1))"

definition postResolve :: "'kv control_env \<Rightarrow> string \<Rightarrow> 'kv handler" where
  "postResolve env id' s =
     (case on_world time_Now s of
        (now, s0) \<Rightarrow>
          (case on_world (on_pg_now (\<lambda>t. ResolveByID t id' now)) s0 of
             (Inl e, s1) \<Rightarrow> (writeJSONError 400 (ce_alertError env e), s1)
           | (Inr a, s1) \<Rightarrow> (writeJSON 200 (marshal_Alert (ce_rfc3339 env) a), announceAlert a s1)))"

section \<open>Devices\<close>

record deviceView =
  dv_ID :: string
  dv_Name :: string
  dv_Type :: string
  dv_Status :: string
  dv_RegisteredAt :: time
  dv_LastSeen :: "time option"

definition toDeviceView :: "Device \<Rightarrow> deviceView" where
  "toDeviceView d = \<lparr>dv_ID = de_ID d, dv_Name = de_Name d, dv_Type = de_Type d, dv_Status = de_Status d,
     dv_RegisteredAt = de_RegisteredAt d, dv_LastSeen = de_LastSeen d\<rparr>"

definition toDeviceViews :: "Device list \<Rightarrow> deviceView list" where
  "toDeviceViews ds = map toDeviceView ds"

definition marshal_deviceView :: "(time \<Rightarrow> string) \<Rightarrow> deviceView \<Rightarrow> json" where
  "marshal_deviceView fmt v = JObject
     ([(''id'', JString (dv_ID v)), (''name'', JString (dv_Name v)), (''type'', JString (dv_Type v)), (''status'', JString (dv_Status v)),
       (''registered_at'', JString (fmt (dv_RegisteredAt v)))] @ omit_ptr ''last_seen'' (\<lambda>t. JString (fmt t)) (dv_LastSeen v))"

record shadowView =
  sv_Desired :: Desired
  sv_DesiredRevision :: u64
  sv_Reported :: "Reported option"
  sv_Drift :: bool

definition marshal_shadowView :: "shadowView \<Rightarrow> json" where
  "marshal_shadowView v = JObject
     [(''desired'', marshal_Desired (sv_Desired v)), (''desired_revision'', enc_uint64 (sv_DesiredRevision v)),
      (''reported'', case sv_Reported v of None \<Rightarrow> JNull | Some r \<Rightarrow> marshal_Reported r), (''drift'', JBool (sv_Drift v))]"

definition devices_reply :: "'kv control_env \<Rightarrow> deviceView list \<Rightarrow> http_reply" where
  "devices_reply env vs = writeJSON 200 (JObject [(''devices'', JArray (map (marshal_deviceView (ce_rfc3339 env)) vs))])"

definition getDevices :: "'kv control_env \<Rightarrow> 'kv handler" where
  "getDevices env s =
     (case on_world (on_pg Devices_List) s of
        (Inl e, s1) \<Rightarrow> (writeJSONError 500 ''internal error'', s1)
      | (Inr ds, s1) \<Rightarrow> (devices_reply env (toDeviceViews ds), s1))"

definition getShadow :: "'kv control_env \<Rightarrow> string \<Rightarrow> 'kv handler" where
  "getShadow env id' s =
     (case on_world (GetDesired (ce_kv env) id') s of
        (Inl e, s1) \<Rightarrow> (writeJSONError 500 ''internal error'', s1)
      | (Inr (desired, rv), s1) \<Rightarrow>
          (case on_world (GetReported (ce_kv env) id') s1 of
             (Inl e, s2) \<Rightarrow> (writeJSONError 500 ''internal error'', s2)
           | (Inr reported, s2) \<Rightarrow>
               (case on_world time_Now s2 of
                  (now, s3) \<Rightarrow>
                    (writeJSON 200 (marshal_shadowView \<lparr>sv_Desired = desired, sv_DesiredRevision = rv, sv_Reported = reported,
                       sv_Drift = Drift rv reported now (ce_driftStaleAfter env)\<rparr>), s3))))"

definition putDesired :: "'kv control_env \<Rightarrow> string \<Rightarrow> body \<Rightarrow> 'kv handler" where
  "putDesired env id' b s =
     (if \<not> ce_mqttUp env then (writeJSONError 503 ''shadow publishing is temporarily unavailable'', s)
      else
        (case unmarshal_Desired b of
           Inl e \<Rightarrow> (writeJSONError 400 ''invalid request body'', s)
         | Inr desired \<Rightarrow>
             (case on_world (SetDesired (ce_kv env) id' desired) s of
                (Inl e, s1) \<Rightarrow> (writeJSONError 500 ''internal error'', s1)
              | (Inr stored, s1) \<Rightarrow>
                  (case on_world (PublishDesired id' stored) s1 of
                     (Some e, s2) \<Rightarrow> (writeJSONError 500 ''desired state saved but publish to the device failed'', s2)
                   | (None, s2) \<Rightarrow> (writeJSON 200 (marshal_Desired stored), s2)))))"

text \<open>One round of the drift scan: whether the device goes on the list. A device whose shadow cannot be read is skipped.\<close>

definition driftOne :: "'kv control_env \<Rightarrow> Device \<Rightarrow> 'kv world \<Rightarrow> bool \<times> 'kv world" where
  "driftOne env d w =
     (case GetDesired (ce_kv env) (de_ID d) w of
        (Inl e, w1) \<Rightarrow> (False, w1)
      | (Inr (_, rv), w1) \<Rightarrow>
          if rv = 0 then (False, w1)
          else
            (case GetReported (ce_kv env) (de_ID d) w1 of
               (Inl e, w2) \<Rightarrow> (False, w2)
             | (Inr reported, w2) \<Rightarrow>
                 (case time_Now w2 of (now, w3) \<Rightarrow> (Drift rv reported now (ce_driftStaleAfter env), w3))))"

fun driftScan :: "'kv control_env \<Rightarrow> Device list \<Rightarrow> 'kv world \<Rightarrow> deviceView list \<times> 'kv world" where
  "driftScan env [] w = ([], w)"
| "driftScan env (d # ds) w =
     (let (drifted, w1) = driftOne env d w; (vs, w2) = driftScan env ds w1 in
      (if drifted then toDeviceView d # vs else vs, w2))"

definition getDrift :: "'kv control_env \<Rightarrow> 'kv handler" where
  "getDrift env s =
     (case on_world (on_pg Devices_List) s of
        (Inl e, s1) \<Rightarrow> (writeJSONError 500 ''internal error'', s1)
      | (Inr ds, s1) \<Rightarrow> (case on_world (driftScan env ds) s1 of (vs, s2) \<Rightarrow> (devices_reply env vs, s2)))"

section \<open>Rollouts\<close>

record stageRequest =
  sr_Percent :: int
  sr_BakeSeconds :: int

definition zeroStageRequest :: stageRequest where
  "zeroStageRequest = \<lparr>sr_Percent = 0, sr_BakeSeconds = 0\<rparr>"

definition set_stageRequest :: "string \<Rightarrow> stageRequest decoder" where
  "set_stageRequest k =
     (if k = ''percent'' then field dec_int sr_Percent (\<lambda>v s. s\<lparr>sr_Percent := v\<rparr>)
      else if k = ''bake_seconds'' then field dec_int sr_BakeSeconds (\<lambda>v s. s\<lparr>sr_BakeSeconds := v\<rparr>)
      else (\<lambda>_ s. Inr s))"

record rolloutRequest =
  rq_Name :: string
  rq_Cohort :: Cohort
  rq_DesiredConfig :: Desired
  rq_Stages :: "stageRequest list option"
  rq_HealthCriteria :: HealthCriteria

definition set_rolloutRequest :: "string \<Rightarrow> rolloutRequest decoder" where
  "set_rolloutRequest k =
     (if k = ''name'' then field dec_string rq_Name (\<lambda>v r. r\<lparr>rq_Name := v\<rparr>)
      else if k = ''cohort'' then field (dec_struct set_Cohort) rq_Cohort (\<lambda>v r. r\<lparr>rq_Cohort := v\<rparr>)
      else if k = ''desired_config'' then field (dec_struct set_Desired) rq_DesiredConfig (\<lambda>v r. r\<lparr>rq_DesiredConfig := v\<rparr>)
      else if k = ''stages'' then field (dec_slice (dec_struct set_stageRequest) zeroStageRequest) rq_Stages (\<lambda>v r. r\<lparr>rq_Stages := v\<rparr>)
      else if k = ''health_criteria'' then field (dec_struct set_HealthCriteria) rq_HealthCriteria (\<lambda>v r. r\<lparr>rq_HealthCriteria := v\<rparr>)
      else (\<lambda>_ r. Inr r))"

definition unmarshal_rolloutRequest :: "body \<Rightarrow> json_error + rolloutRequest" where
  "unmarshal_rolloutRequest = Unmarshal (dec_struct set_rolloutRequest)
     \<lparr>rq_Name = [], rq_Cohort = zeroCohort, rq_DesiredConfig = zeroDesired, rq_Stages = None, rq_HealthCriteria = zeroHealth\<rparr>"

text \<open>A product of two 64-bit integers.\<close>

definition secondsToDuration :: "int \<Rightarrow> duration" where
  "secondsToDuration n = int64_wrap (n * second)"

text \<open>\<^verbatim>\<open>int(d.Seconds())\<close> rounds towards zero.\<close>

definition wholeSeconds :: "duration \<Rightarrow> int" where
  "wholeSeconds d = (if d < 0 then - (- d div second) else d div second)"

record stageView =
  sw_Percent :: int
  sw_BakeSeconds :: int

record rolloutView =
  rv_ID :: string
  rv_Name :: string
  rv_Cohort :: Cohort
  rv_DesiredConfig :: Desired
  rv_Stages :: "stageView list"
  rv_HealthCriteria :: HealthCriteria
  rv_State :: string
  rv_CurrentStageIndex :: int
  rv_CurrentStageStartedAt :: string

definition toRolloutView :: "(time \<Rightarrow> string) \<Rightarrow> Rollout \<Rightarrow> rolloutView" where
  "toRolloutView fmt r =
     \<lparr>rv_ID = ro_ID r, rv_Name = ro_Name r, rv_Cohort = ro_Cohort r, rv_DesiredConfig = ro_DesiredConfig r,
      rv_Stages = map (\<lambda>s. \<lparr>sw_Percent = sg_Percent s, sw_BakeSeconds = wholeSeconds (sg_BakeDuration s)\<rparr>) (stages_of r),
      rv_HealthCriteria = ro_HealthCriteria r, rv_State = ro_State r, rv_CurrentStageIndex = ro_CurrentStageIndex r,
      rv_CurrentStageStartedAt = fmt (ro_CurrentStageStartedAt r)\<rparr>"

definition marshal_rolloutView :: "rolloutView \<Rightarrow> json" where
  "marshal_rolloutView v = JObject
     [(''id'', JString (rv_ID v)), (''name'', JString (rv_Name v)), (''cohort'', marshal_Cohort (rv_Cohort v)),
      (''desired_config'', marshal_Desired (rv_DesiredConfig v)),
      (''stages'', JArray (map (\<lambda>s. JObject [(''percent'', JInt (sw_Percent s)), (''bake_seconds'', JInt (sw_BakeSeconds s))]) (rv_Stages v))),
      (''health_criteria'', marshal_HealthCriteria (rv_HealthCriteria v)), (''state'', JString (rv_State v)),
      (''current_stage_index'', JInt (rv_CurrentStageIndex v)), (''current_stage_started_at'', JString (rv_CurrentStageStartedAt v))]"

definition rollout_json :: "'kv control_env \<Rightarrow> Rollout \<Rightarrow> json" where
  "rollout_json env r = marshal_rolloutView (toRolloutView (ce_millis env) r)"

definition rollout_reply :: "'kv control_env \<Rightarrow> (engine_error + Rollout) \<times> 'kv control \<Rightarrow> http_reply \<times> 'kv control" where
  "rollout_reply env x =
     (case x of (Inl e, s) \<Rightarrow> (writeJSONError 400 (ce_engineError env e), s) | (Inr r, s) \<Rightarrow> (writeJSON 200 (rollout_json env r), s))"

definition requestedRollout :: "rolloutRequest \<Rightarrow> Rollout" where
  "requestedRollout req =
     \<lparr>ro_ID = [], ro_Name = rq_Name req, ro_Cohort = rq_Cohort req, ro_DesiredConfig = rq_DesiredConfig req,
      ro_Stages = Some (map (\<lambda>s. \<lparr>sg_Percent = sr_Percent s, sg_BakeDuration = secondsToDuration (sr_BakeSeconds s)\<rparr>)
                    (case rq_Stages req of None \<Rightarrow> [] | Some ss \<Rightarrow> ss)),
      ro_HealthCriteria = rq_HealthCriteria req, ro_State = [], ro_CurrentStageIndex = 0, ro_CurrentStageStartedAt = zeroTime,
      ro_CreatedAt = zeroTime, ro_UpdatedAt = zeroTime\<rparr>"

text \<open>A panic in a handler ends the connection without a reply, status 0 here; creating a rollout never does
  (\<open>postRollout_replies\<close>).\<close>

definition noReply :: http_reply where
  "noReply = \<lparr>hr_status = 0, hr_body = JNull\<rparr>"

definition postRollout :: "'kv control_env \<Rightarrow> body \<Rightarrow> 'kv handler" where
  "postRollout env b s =
     (case unmarshal_rolloutRequest b of
        Inl e \<Rightarrow> (writeJSONError 400 ''invalid request body'', s)
      | Inr req \<Rightarrow>
          (case Engine_Create (ce_deps env) (requestedRollout req) (cs_engine s) (cs_world s) of
             None \<Rightarrow> (noReply, s)
           | Some (r, e, w) \<Rightarrow> rollout_reply env (r, \<lparr>cs_world = w, cs_engine = e\<rparr>)))"

definition getRollouts :: "'kv control_env \<Rightarrow> 'kv handler" where
  "getRollouts env s =
     (case on_world (Engine_List (ce_deps env)) s of
        (Inl e, s1) \<Rightarrow> (writeJSONError 500 ''internal error'', s1)
      | (Inr rs, s1) \<Rightarrow> (writeJSON 200 (JObject [(''rollouts'', JArray (map (rollout_json env) rs))]), s1))"

definition getRollout :: "'kv control_env \<Rightarrow> string \<Rightarrow> 'kv handler" where
  "getRollout env id' s =
     (case on_world (Engine_Get (ce_deps env) id' (cs_engine s)) s of
        (Inl e, s1) \<Rightarrow> (writeJSONError 500 ''internal error'', s1)
      | (Inr None, s1) \<Rightarrow> (writeJSONError 404 ''rollout not found'', s1)
      | (Inr (Some r), s1) \<Rightarrow> (writeJSON 200 (rollout_json env r), s1))"

definition postPause :: "'kv control_env \<Rightarrow> string \<Rightarrow> 'kv handler" where
  "postPause env id' s = rollout_reply env (on_engine (Engine_Pause (ce_deps env) id') s)"

definition postResume :: "'kv control_env \<Rightarrow> string \<Rightarrow> 'kv handler" where
  "postResume env id' s = rollout_reply env (on_engine (Engine_Resume (ce_deps env) id') s)"

definition postAbort :: "'kv control_env \<Rightarrow> string \<Rightarrow> 'kv handler" where
  "postAbort env id' s = rollout_reply env (on_engine (Engine_Abort (ce_deps env) id') s)"

section \<open>Routes\<close>

text \<open>The calls of each group of endpoints, and the role and the handler it registers for each.\<close>

datatype alert_call = GetAlerts "string \<Rightarrow> string" | PostAck string | PostResolve string

fun alert_routes :: "'kv control_env \<Rightarrow> alert_call \<Rightarrow> string \<times> 'kv handler" where
  "alert_routes env (GetAlerts q) = (roleViewer, getAlerts env q)"
| "alert_routes env (PostAck i) = (roleOperator, postAck env i)"
| "alert_routes env (PostResolve i) = (roleOperator, postResolve env i)"

datatype device_call = GetDevices | GetShadow string | PutDesired string body | GetDrift

fun device_routes :: "'kv control_env \<Rightarrow> device_call \<Rightarrow> string \<times> 'kv handler" where
  "device_routes env GetDevices = (roleViewer, getDevices env)"
| "device_routes env (GetShadow i) = (roleViewer, getShadow env i)"
| "device_routes env (PutDesired i b) = (roleAdmin, putDesired env i b)"
| "device_routes env GetDrift = (roleViewer, getDrift env)"

datatype rollout_call = PostRollout body | GetRollouts | GetRollout string | PostPause string | PostResume string | PostAbort string

fun rollout_routes :: "'kv control_env \<Rightarrow> rollout_call \<Rightarrow> string \<times> 'kv handler" where
  "rollout_routes env (PostRollout b) = (roleAdmin, postRollout env b)"
| "rollout_routes env GetRollouts = (roleAdmin, getRollouts env)"
| "rollout_routes env (GetRollout i) = (roleAdmin, getRollout env i)"
| "rollout_routes env (PostPause i) = (roleAdmin, postPause env i)"
| "rollout_routes env (PostResume i) = (roleAdmin, postResume env i)"
| "rollout_routes env (PostAbort i) = (roleAdmin, postAbort env i)"

datatype api_call = AlertCall alert_call | DeviceCall device_call | RolloutCall rollout_call

fun route :: "'kv control_env \<Rightarrow> api_call \<Rightarrow> string \<times> 'kv handler" where
  "route env (AlertCall c) = alert_routes env c"
| "route env (DeviceCall c) = device_routes env c"
| "route env (RolloutCall c) = rollout_routes env c"

abbreviation minRole :: "'kv control_env \<Rightarrow> api_call \<Rightarrow> string" where
  "minRole env call \<equiv> fst (route env call)"

abbreviation api_handler :: "'kv control_env \<Rightarrow> api_call \<Rightarrow> 'kv handler" where
  "api_handler env call \<equiv> snd (route env call)"

lemma api_call_cases:
  obtains (alerts) q where "call = AlertCall (GetAlerts q)"
  | (ack) i where "call = AlertCall (PostAck i)"
  | (resolve) i where "call = AlertCall (PostResolve i)"
  | (devices) "call = DeviceCall GetDevices"
  | (shadow) i where "call = DeviceCall (GetShadow i)"
  | (put) i b where "call = DeviceCall (PutDesired i b)"
  | (drift) "call = DeviceCall GetDrift"
  | (rollout) c where "call = RolloutCall c"
  by (metis alert_call.exhaust api_call.exhaust device_call.exhaust)

definition serve :: "'kv control_env \<Rightarrow> api_call \<Rightarrow> time \<Rightarrow> string \<Rightarrow> 'kv handler" where
  "serve env call now header = requireRole (ce_jwt env) (minRole env call) (ce_issuer env) (ce_signingKey env)
     (\<lambda>_. api_handler env call) now header"

section \<open>What the service keeps\<close>

text \<open>The data of the service, without the scripts of faults, the clock and the counter of uuids: tables, shadow bucket,
  messages sent, and the engine. \<open>kept_but_alerts\<close> leaves out the alerts table and the events about alerts.\<close>

definition world_data :: "('kv \<Rightarrow> string \<Rightarrow> (body \<times> u64) option) \<Rightarrow> 'kv world
    \<Rightarrow> pg \<times> (string \<Rightarrow> (body \<times> u64) option) \<times> (string \<times> mqtt_msg) list \<times> (string \<times> json) list" where
  "world_data content w = ((w_pg w)\<lparr>pg_faults := []\<rparr>, content (w_kv w), bus_sent (w_mqtt w), bus_sent (w_js w))"

definition but_alerts :: "pg \<times> 'k \<times> 'm \<times> (string \<times> json) list \<Rightarrow> pg \<times> 'k \<times> 'm \<times> (string \<times> json) list" where
  "but_alerts x = (case x of (d, k, m, j) \<Rightarrow> (d\<lparr>pg_alerts := []\<rparr>, k, m, filter (\<lambda>(t, _). \<not> HasPrefix t ''alerts.'') j))"

definition kept :: "('kv \<Rightarrow> string \<Rightarrow> (body \<times> u64) option) \<Rightarrow> 'kv control
    \<Rightarrow> (pg \<times> (string \<Rightarrow> (body \<times> u64) option) \<times> (string \<times> mqtt_msg) list \<times> (string \<times> json) list) \<times> Engine" where
  "kept content s = (world_data content (cs_world s), cs_engine s)"

definition kept_but_alerts :: "('kv \<Rightarrow> string \<Rightarrow> (body \<times> u64) option) \<Rightarrow> 'kv control
    \<Rightarrow> (pg \<times> (string \<Rightarrow> (body \<times> u64) option) \<times> (string \<times> mqtt_msg) list \<times> (string \<times> json) list) \<times> Engine" where
  "kept_but_alerts content s = (but_alerts (world_data content (cs_world s)), cs_engine s)"

text \<open>\<open>drifts\<close> is what the drift list is about: the device was given a configuration, and its last report does not answer
  it or is too old at the time \<open>now\<close>. \<open>legible\<close> says that the stored documents of a device decode.\<close>

definition drifts :: "('kv \<Rightarrow> string \<Rightarrow> (body \<times> u64) option) \<Rightarrow> duration \<Rightarrow> 'kv world \<Rightarrow> time \<Rightarrow> string \<Rightarrow> bool" where
  "drifts content staleAfter w now i \<longleftrightarrow> shadow_revision content w i \<noteq> 0 \<and>
     Drift (shadow_revision content w i) (shadow_reported content w i) now staleAfter"

definition legible :: "('kv \<Rightarrow> string \<Rightarrow> (body \<times> u64) option) \<Rightarrow> 'kv world \<Rightarrow> string \<Rightarrow> bool" where
  "legible content w i \<longleftrightarrow>
     (case content (w_kv w) (desiredKey i) of None \<Rightarrow> True | Some (b, _) \<Rightarrow> \<not> isl (unmarshal_Desired b)) \<and>
     (case content (w_kv w) (reportedKey i) of None \<Rightarrow> True | Some (b, _) \<Rightarrow> \<not> isl (unmarshal_Reported b))"

section \<open>Lemmas\<close>

subsection \<open>Reads\<close>

lemma pg_run_query:
  assumes "\<And>d a d'. stmt d = Inr (a, d') \<Longrightarrow> d' = d"
  shows "(snd (pg_run stmt d))\<lparr>pg_faults := []\<rparr> = d\<lparr>pg_faults := []\<rparr>"
  using assms [of "d\<lparr>pg_faults := fs\<rparr>" for fs]
  by (fastforce simp: pg_run_def Let_def split: prod.splits option.splits sum.splits fault.splits)

lemma sql_list_alerts_query: "sql_list_alerts st dev lim' d = Inr (a, d') \<Longrightarrow> d' = d"
  by (auto simp: sql_list_alerts_def Let_def uuid_arg_Inr split: if_splits)

lemma sql_get_rollout_query: "sql_get_rollout i d = Inr (a, d') \<Longrightarrow> d' = d"
  by (auto simp: sql_get_rollout_def uuid_arg_Inr)

lemma list_queries:
  "(snd (Alerts_List flt d))\<lparr>pg_faults := []\<rparr> = d\<lparr>pg_faults := []\<rparr>"
  "(snd (Devices_List d))\<lparr>pg_faults := []\<rparr> = d\<lparr>pg_faults := []\<rparr>"
  "(snd (Rollouts_List d))\<lparr>pg_faults := []\<rparr> = d\<lparr>pg_faults := []\<rparr>"
  "(snd (Rollouts_Get i d))\<lparr>pg_faults := []\<rparr> = d\<lparr>pg_faults := []\<rparr>"
proof -
  note run = pg_run_query [of _ d]
  have run_alerts: "(snd (pg_run (sql_list_alerts st dev n) d))\<lparr>pg_faults := []\<rparr> = d\<lparr>pg_faults := []\<rparr>" for st dev n
    by (rule pg_run_query) (erule sql_list_alerts_query)
  show "(snd (Alerts_List flt d))\<lparr>pg_faults := []\<rparr> = d\<lparr>pg_faults := []\<rparr>"
    using run_alerts [of "fi_State flt" "fi_DeviceID flt" "if fi_Limit flt \<le> 0 then defaultListLimit else fi_Limit flt"]
    unfolding Alerts_List_def Let_def by (auto split: prod.splits sum.splits)
  show "(snd (Devices_List d))\<lparr>pg_faults := []\<rparr> = d\<lparr>pg_faults := []\<rparr>"
    using run [of sql_list_devices] by (auto simp: Devices_List_def sql_list_devices_def split: prod.splits sum.splits)
  show "(snd (Rollouts_List d))\<lparr>pg_faults := []\<rparr> = d\<lparr>pg_faults := []\<rparr>"
    using run [of sql_list_rollouts] by (auto simp: Rollouts_List_def rollouts_query_def sql_list_rollouts_def split: prod.splits sum.splits)
  show "(snd (Rollouts_Get i d))\<lparr>pg_faults := []\<rparr> = d\<lparr>pg_faults := []\<rparr>"
    using run [of "sql_get_rollout i"] sql_get_rollout_query [of i] by (auto simp: Rollouts_Get_def split: prod.splits sum.splits list.splits)
qed

lemma world_data_pg: "(snd (f (w_pg w)))\<lparr>pg_faults := []\<rparr> = (w_pg w)\<lparr>pg_faults := []\<rparr> \<Longrightarrow>
    world_data content (snd (on_pg f w)) = world_data content w"
  by (auto simp: world_data_def on_pg_def split: prod.splits)

lemma world_data_now [simp]: "world_data content (snd (time_Now w)) = world_data content w"
  by (simp add: world_data_def time_Now_def)

lemma kept_world: "(\<And>w. world_data content (snd (f w)) = world_data content w) \<Longrightarrow> on_world f s = (a, s') \<Longrightarrow> kept content s' = kept content s"
  by (auto simp: kept_def on_world_def split: prod.splits) (metis snd_conv)

lemma kept_query: "(\<And>d. (snd (f d))\<lparr>pg_faults := []\<rparr> = d\<lparr>pg_faults := []\<rparr>) \<Longrightarrow> on_world (on_pg f) s = (a, s') \<Longrightarrow> kept content s' = kept content s"
  by (erule kept_world [rotated]) (rule world_data_pg)

lemmas kept_lists = kept_query [OF list_queries(1)] kept_query [OF list_queries(2)]

lemma kept_but_alerts_of_kept: "kept content s' = kept content s \<Longrightarrow> kept_but_alerts content s' = kept_but_alerts content s"
  by (simp add: kept_def kept_but_alerts_def)

lemma alert_updates:
  "(snd (Acknowledge t i d))\<lparr>pg_faults := [], pg_alerts := []\<rparr> = d\<lparr>pg_faults := [], pg_alerts := []\<rparr>"
  "(snd (ResolveByID t i at' d))\<lparr>pg_faults := [], pg_alerts := []\<rparr> = d\<lparr>pg_faults := [], pg_alerts := []\<rparr>"
  by (auto simp: Acknowledge_def ResolveByID_def sql_acknowledge_def sql_resolve_by_id_def update_alerts_def uuid_arg_Inr Let_def
      elim!: pg_run_cases split: prod.splits sum.splits list.splits)

lemma kept_but_alerts_pg:
  assumes "on_world (on_pg_now f) s = (a, s')" and "\<And>t d. (snd (f t d))\<lparr>pg_faults := [], pg_alerts := []\<rparr> = d\<lparr>pg_faults := [], pg_alerts := []\<rparr>"
  shows "kept_but_alerts content s' = kept_but_alerts content s"
  using assms(1) assms(2) [of "w_clock (cs_world s) (w_ticks (cs_world s))" "w_pg (cs_world s)"]
  by (auto simp: kept_but_alerts_def but_alerts_def world_data_def on_world_def on_pg_now_def on_pg_def time_Now_def split: prod.splits)

lemma kept_but_alerts_publish: "kept_but_alerts content (announceAlert a s) = kept_but_alerts content s"
  by (auto simp: announceAlert_def kept_but_alerts_def but_alerts_def world_data_def on_world_def time_Now_def on_js_def Alerts_Publish_def
      AlertsSubject_def HasPrefix_def elim!: bus_publish_cases split: prod.splits)

lemma rollout_route_admin: "fst (rollout_routes env c) = roleAdmin"
  by (cases c) auto

lemma minRole_cases: "minRole env call \<in> {roleViewer, roleOperator, roleAdmin}"
  by (cases call rule: api_call_cases) (auto simp: rollout_route_admin)

lemma Drift_mono: "Drift rv rep t n \<Longrightarrow> t \<le> t' \<Longrightarrow> Drift rv rep t' n"
proof (cases rep)
  case (Some r)
  show "Drift rv rep t n \<Longrightarrow> t \<le> t' \<Longrightarrow> Drift rv rep t' n"
    using time_sub_mono [of t t' "time_UnixMilli (r_ReportedAtMS r)"] by (auto simp: Drift_def Some split: if_splits)
qed (simp add: Drift_def)

lemma drifts_mono: "drifts content n w t i \<Longrightarrow> t \<le> t' \<Longrightarrow> drifts content n w t' i"
  by (auto simp: drifts_def intro: Drift_mono)

lemma drifts_same: "content (w_kv w') = content (w_kv w) \<Longrightarrow> drifts content n w' = drifts content n w"
  by (simp add: fun_eq_iff drifts_def shadow_revision_def shadow_reported_def)

context kv_bucket
begin

lemma world_data_get [simp]:
  "world_data content (snd (GetDesired kv i w)) = world_data content w"
  "world_data content (snd (GetReported kv i w)) = world_data content w"
  by (auto simp: GetDesired_def GetReported_def world_data_def dest: get_state split: prod.splits sum.splits)

lemma world_data_one:
  assumes "ce_kv env = kv"
  shows "world_data content (snd (driftOne env d w)) = world_data content w"
proof -
  obtain x w1 where g: "GetDesired kv (de_ID d) w = (x, w1)" by fastforce
  obtain y w2 where r: "GetReported kv (de_ID d) w1 = (y, w2)" by fastforce
  have "world_data content w1 = world_data content w" "world_data content w2 = world_data content w1"
    using world_data_get(1) [of "de_ID d" w] world_data_get(2) [of "de_ID d" w1] g r by simp_all
  then show ?thesis using g r assms world_data_now [of content w2]
    by (auto simp: driftOne_def simp del: world_data_now split: sum.splits prod.splits)
qed

lemma world_data_scan: "ce_kv env = kv \<Longrightarrow> world_data content (snd (driftScan env ds w)) = world_data content w"
proof (induction ds arbitrary: w)
  case (Cons d ds)
  from Cons.IH [OF Cons.prems, of "snd (driftOne env d w)"] world_data_one [OF Cons.prems, of d w] show ?case
    by (simp add: case_prod_beta Let_def)
qed simp

lemma reads_keep:
  assumes "ce_kv env = kv"
  shows "kept content (snd (getAlerts env q s)) = kept content s"
    and "kept content (snd (getDevices env s)) = kept content s"
    and "kept content (snd (getShadow env i s)) = kept content s"
    and "kept content (snd (getDrift env s)) = kept content s"
proof -
  note get = kept_world [where content = content, OF world_data_get(1)] kept_world [where content = content, OF world_data_get(2)]
    kept_world [where content = content, OF world_data_now] and query = kept_lists [where content = content]
  show "kept content (snd (getAlerts env q s)) = kept content s"
    by (auto simp: getAlerts_def dest: query split: prod.splits sum.splits)
  show "kept content (snd (getDevices env s)) = kept content s"
    by (auto simp: getDevices_def dest: query split: prod.splits sum.splits)
  show "kept content (snd (getShadow env i s)) = kept content s"
    by (auto simp: getShadow_def assms dest!: get split: prod.splits sum.splits)
  show "kept content (snd (getDrift env s)) = kept content s"
    using kept_world [OF world_data_scan [OF assms]]
    by (auto simp: getDrift_def dest!: query split: prod.splits sum.splits)
qed

text \<open>Only the calls that need an administrator touch anything but alerts, and only those that need an operator touch
  alerts.\<close>

lemma viewer_call_keeps:
  assumes "ce_kv env = kv" and "minRole env call = roleViewer"
  shows "kept content (snd (api_handler env call s)) = kept content s"
  using assms(2) reads_keep [OF assms(1)] rollout_route_admin [of env] by (cases call rule: api_call_cases) (auto simp: role_defs)

lemma operator_call_keeps:
  assumes "minRole env call = roleOperator"
  shows "kept_but_alerts content (snd (api_handler env call s)) = kept_but_alerts content s"
proof -
  note upd = kept_but_alerts_pg [where content = content, OF _ alert_updates(1)] kept_but_alerts_pg [where content = content, OF _ alert_updates(2)]
    kept_but_alerts_of_kept [OF kept_world [where content = content, OF world_data_now]]
  have "kept_but_alerts content (snd (postAck env i s)) = kept_but_alerts content s" for i
    by (auto simp: postAck_def kept_but_alerts_publish dest!: upd split: prod.splits sum.splits)
  moreover have "kept_but_alerts content (snd (postResolve env i s)) = kept_but_alerts content s" for i
    by (auto simp: postResolve_def kept_but_alerts_publish dest!: upd split: prod.splits sum.splits)
  ultimately show ?thesis using assms rollout_route_admin [of env] by (cases call rule: api_call_cases) (auto simp: role_defs)
qed

lemma serve_cases:
  obtains "snd (serve env call now header s) = s"
  | role where "verifyBearer (ce_jwt env) now header (ce_issuer env) (ce_signingKey env) = Inr role" "roleAllows role (minRole env call)"
      "serve env call now header s = api_handler env call s"
proof (cases "verifyBearer (ce_jwt env) now header (ce_issuer env) (ce_signingKey env)")
  case (Inr role)
  with that show thesis by (cases "roleAllows role (minRole env call)") (auto simp: serve_def requireRole_def)
qed (use that(1) in \<open>simp add: serve_def requireRole_def\<close>)

lemma serve_confined:
  assumes "ce_kv env = kv" and "serve env call now header s = (rep, s')"
  shows "kept content s' \<noteq> kept content s \<Longrightarrow>
      \<exists>role. verifyBearer (ce_jwt env) now header (ce_issuer env) (ce_signingKey env) = Inr role \<and> roleAllows role roleOperator"
    and "kept_but_alerts content s' \<noteq> kept_but_alerts content s \<Longrightarrow>
      \<exists>role. verifyBearer (ce_jwt env) now header (ce_issuer env) (ce_signingKey env) = Inr role \<and> roleAllows role roleAdmin"
proof -
  have admin: "roleAllows role roleAdmin \<Longrightarrow> roleAllows role roleOperator" for role
    by (auto simp: roleAllows_def roleRank_def role_defs split: option.splits if_splits)
  note v = viewer_call_keeps [OF assms(1), of call s] and o = operator_call_keeps [of env call s]
  show "kept content s' \<noteq> kept content s \<Longrightarrow>
      \<exists>role. verifyBearer (ce_jwt env) now header (ce_issuer env) (ce_signingKey env) = Inr role \<and> roleAllows role roleOperator"
    using serve_cases [of env call now header s] assms(2) minRole_cases [of env call] v admin by (metis insertE empty_iff snd_conv)
  show "kept_but_alerts content s' \<noteq> kept_but_alerts content s \<Longrightarrow>
      \<exists>role. verifyBearer (ce_jwt env) now header (ce_issuer env) (ce_signingKey env) = Inr role \<and> roleAllows role roleAdmin"
    using serve_cases [of env call now header s] assms(2) minRole_cases [of env call] kept_but_alerts_of_kept [OF v] o by (metis insertE empty_iff snd_conv)
qed

subsection \<open>The drift scan\<close>

lemma clock_kept: "w_clock (snd (GetDesired kv i w)) = w_clock w" "w_clock (snd (GetReported kv i w)) = w_clock w"
  by (auto simp: GetDesired_def GetReported_def split: prod.splits sum.splits)

lemma content_kept: "content (w_kv (snd (GetDesired kv i w))) = content (w_kv w)" "content (w_kv (snd (GetReported kv i w))) = content (w_kv w)"
  using world_data_get [of i w] by (auto simp: world_data_def)

lemma one_clock: "ce_kv env = kv \<Longrightarrow> w_clock (snd (driftOne env d w)) = w_clock w"
  using clock_kept by (auto simp: driftOne_def time_Now_def split: prod.splits sum.splits) (metis snd_conv)+

lemma one_content: "ce_kv env = kv \<Longrightarrow> content (w_kv (snd (driftOne env d w))) = content (w_kv w)"
  using world_data_one [of env d w] by (auto simp: world_data_def)

lemma get_revision: "GetDesired kv i w = (Inr (d, rv), w') \<Longrightarrow> rv = shadow_revision content w i"
  using shadow.get_ok by blast

lemma one_sound:
  assumes "ce_kv env = kv" and "fst (driftOne env d w)"
  shows "\<exists>n. drifts content (ce_driftStaleAfter env) w (w_clock w n) (de_ID d)"
proof -
  obtain dd rv w1 rep w2 where g: "GetDesired kv (de_ID d) w = (Inr (dd, rv), w1)" and rv: "rv \<noteq> 0"
    and r: "GetReported kv (de_ID d) w1 = (Inr rep, w2)" and dr: "Drift rv rep (w_clock w2 (w_ticks w2)) (ce_driftStaleAfter env)"
    using assms by (auto simp: driftOne_def time_Now_def split: prod.splits sum.splits if_splits)
  have "rep = shadow_reported content w (de_ID d)"
    using get_reported [OF r] content_kept(1) [of "de_ID d" w] g by (simp add: shadow_reported_def)
  moreover have "w_clock w2 = w_clock w" using clock_kept(1) [of "de_ID d" w] clock_kept(2) [of "de_ID d" w1] g r by simp
  ultimately show ?thesis using rv dr get_revision [OF g] by (auto simp: drifts_def)
qed

lemma one_complete:
  assumes "ce_kv env = kv" and "\<forall>k st e. fst (kv_Get kv k st) \<noteq> Inl (KvIO e)" and "legible content w (de_ID d)"
    and "\<forall>n. drifts content (ce_driftStaleAfter env) w (w_clock w n) (de_ID d)"
  shows "fst (driftOne env d w)"
proof -
  have rv: "shadow_revision content w (de_ID d) \<noteq> 0" using assms(4) by (auto simp: drifts_def)
  obtain x w1 where g: "GetDesired kv (de_ID d) w = (x, w1)" by fastforce
  obtain y w2 where r: "GetReported kv (de_ID d) w1 = (y, w2)" by fastforce
  have c: "content (w_kv w1) = content (w_kv w)" using content_kept(1) [of "de_ID d" w] g by simp
  have read: "kv_Get kv k st = (z, st') \<Longrightarrow> (\<exists>en. z = Inr en \<and> content st k = Some en) \<or> z = Inl ErrKeyNotFound" for k st z st'
    using assms(2) get_ok by (metis fst_conv kv_error.exhaust sum.exhaust)
  have "\<not> isl x"
    using g assms(3) read [of "desiredKey (de_ID d)" "w_kv w"]
    by (auto simp: GetDesired_def legible_def split: prod.splits sum.splits if_splits)
  then obtain dd where x: "x = Inr (dd, shadow_revision content w (de_ID d))" using get_revision g by (cases x) auto
  have "\<not> isl y"
    using r assms(3) read [of "reportedKey (de_ID d)" "w_kv w1"]
    by (auto simp: GetReported_def legible_def c split: prod.splits sum.splits if_splits)
  then obtain rep where y: "y = Inr rep" by (cases y) auto
  have "rep = shadow_reported content w (de_ID d)" using get_reported [of "de_ID d" w1 rep w2] r y c by (simp add: shadow_reported_def)
  moreover have "w_clock w2 = w_clock w" using clock_kept(1) [of "de_ID d" w] clock_kept(2) [of "de_ID d" w1] g r by simp
  ultimately show ?thesis using assms(1,4) g r x y rv by (auto simp: driftOne_def time_Now_def drifts_def)
qed

lemma scan_between:
  assumes "ce_kv env = kv" and "\<And>n. t0 \<le> w_clock w n \<and> w_clock w n \<le> t1"
  shows "set (fst (driftScan env ds w)) \<subseteq> toDeviceView ` {d \<in> set ds. drifts content (ce_driftStaleAfter env) w t1 (de_ID d)}"
    and "(\<forall>k st e. fst (kv_Get kv k st) \<noteq> Inl (KvIO e)) \<Longrightarrow> \<forall>d \<in> set ds. legible content w (de_ID d) \<Longrightarrow>
      toDeviceView ` {d \<in> set ds. drifts content (ce_driftStaleAfter env) w t0 (de_ID d)} \<subseteq> set (fst (driftScan env ds w))"
proof -
  let ?n = "ce_driftStaleAfter env"
  have same: "drifts content ?n (snd (driftOne env d w)) = drifts content ?n w" "w_clock (snd (driftOne env d w)) = w_clock w"
    "legible content (snd (driftOne env d w)) = legible content w" for d w
    using one_content [OF assms(1), of d w] one_clock [OF assms(1)] by (auto intro: drifts_same simp: legible_def fun_eq_iff [of "legible _ _"])
  have step: "fst (driftScan env (d # ds) w) = (if fst (driftOne env d w) then [toDeviceView d] else []) @ fst (driftScan env ds (snd (driftOne env d w)))"
    for d ds w by (simp add: case_prod_beta Let_def)
  show "set (fst (driftScan env ds w)) \<subseteq> toDeviceView ` {d \<in> set ds. drifts content ?n w t1 (de_ID d)}"
    using assms(2)
  proof (induction ds arbitrary: w)
    case (Cons d ds)
    have "fst (driftOne env d w) \<Longrightarrow> drifts content ?n w t1 (de_ID d)"
      using one_sound [OF assms(1), of d w] drifts_mono Cons.prems by blast
    with Cons.IH [of "snd (driftOne env d w)"] Cons.prems show ?case unfolding step by (auto simp: same)
  qed simp
  assume reads: "\<forall>k st e. fst (kv_Get kv k st) \<noteq> Inl (KvIO e)" and "\<forall>d \<in> set ds. legible content w (de_ID d)"
  then show "toDeviceView ` {d \<in> set ds. drifts content ?n w t0 (de_ID d)} \<subseteq> set (fst (driftScan env ds w))"
    using assms(2)
  proof (induction ds arbitrary: w)
    case (Cons d ds)
    have "drifts content ?n w t0 (de_ID d) \<Longrightarrow> fst (driftOne env d w)"
      using one_complete [OF assms(1) reads, of w d] drifts_mono [of content ?n w t0 "de_ID d"] Cons.prems by auto
    with Cons.IH [of "snd (driftOne env d w)"] Cons.prems show ?case unfolding step by (auto simp: same)
  qed simp
qed

lemma putDesired_ok:
  assumes "putDesired env i b s = (rep, s')" and "hr_status rep = 200"
  shows "\<exists>d p w1 w2. unmarshal_Desired b = Inr d \<and> SetDesired (ce_kv env) i d (cs_world s) = (Inr p, w1) \<and>
    PublishDesired i p w1 = (None, w2) \<and> s' = s\<lparr>cs_world := w2\<rparr> \<and> hr_body rep = marshal_Desired p"
proof (cases "unmarshal_Desired b")
  case (Inr d)
  obtain x w1 where set: "SetDesired (ce_kv env) i d (cs_world s) = (x, w1)" by fastforce
  show ?thesis
  proof (cases x)
    case (Inr p)
    obtain y w2 where "PublishDesired i p w1 = (y, w2)" by fastforce
    with assms \<open>unmarshal_Desired b = Inr d\<close> set Inr show ?thesis
      by (cases y) (simp_all add: putDesired_def on_world_def writeJSON_def writeJSONError_def split: if_splits, auto)
  qed (use assms Inr set in \<open>simp add: putDesired_def on_world_def writeJSONError_def split: if_splits, auto\<close>)
qed (use assms in \<open>simp add: putDesired_def writeJSONError_def split: if_splits, auto\<close>)

lemma put_stored:
  assumes "ce_kv env = kv" and "putDesired env i b s = (rep, s')" and "hr_status rep = 200"
  shows "\<exists>d p. unmarshal_Desired b = Inr d \<and> hr_body rep = marshal_Desired p \<and> normD p = normD d \<and>
    shadow_config content (cs_world s') = (shadow_config content (cs_world s))(i \<mapsto> normD d) \<and>
    shadow_revision content (cs_world s') i = d_Revision p \<and> (\<forall>j. shadow_revision content (cs_world s) j < d_Revision p) \<and>
    bus_sent (w_mqtt (cs_world s')) = bus_sent (w_mqtt (cs_world s)) @ [(ConfigTopic i, \<lparr>m_qos = 1, m_retained = True, m_payload = marshal_Desired p\<rparr>)]"
proof -
  obtain d p w1 w2 where d: "unmarshal_Desired b = Inr d" and set: "SetDesired kv i d (cs_world s) = (Inr p, w1)"
    and pub: "PublishDesired i p w1 = (None, w2)" and s': "s' = s\<lparr>cs_world := w2\<rparr>" and body: "hr_body rep = marshal_Desired p"
    using putDesired_ok [OF assms(2,3)] unfolding assms(1) by metis
  note ok = shadow.set_ok [OF unmarshal_Desired_ok [OF d] set]
  have kv: "w_kv w2 = w_kv w1" and sent: "bus_sent (w_mqtt w2) = bus_sent (w_mqtt w1) @ [(ConfigTopic i, \<lparr>m_qos = 1, m_retained = True, m_payload = marshal_Desired p\<rparr>)]"
    using pub by (auto simp: PublishDesired_def on_mqtt_def dest: bus_publish_ok split: prod.splits option.splits)
  have "w_mqtt w1 = w_mqtt (cs_world s)" using arg_cong [OF SetDesired_frame [of kv i d "cs_world s"], of w_mqtt] set by (simp add: shadow_frame_def)
  moreover have "shadow_config content w2 = shadow_config content w1" "shadow_revision content w2 = shadow_revision content w1"
    by (simp_all add: fun_eq_iff shadow_config_def shadow_revision_def kv)
  ultimately show ?thesis using ok d s' body sent by auto
qed

end

subsection \<open>Rollouts\<close>

lemma secondsToDuration_exact:
  assumes "int64_ok n"
  shows "wholeSeconds (secondsToDuration n) = n \<longleftrightarrow> - 9223372036 \<le> n \<and> n \<le> 9223372036"
proof
  assume r: "- 9223372036 \<le> n \<and> n \<le> 9223372036"
  then have "secondsToDuration n = n * second" unfolding secondsToDuration_def by (intro int64_wrap_id) auto
  then show "wholeSeconds (secondsToDuration n) = n" by (simp add: wholeSeconds_def flip: mult_minus_left)
next
  assume w: "wholeSeconds (secondsToDuration n) = n"
  have b: "- (2 ^ 63) \<le> secondsToDuration n" "secondsToDuration n < 2 ^ 63"
    unfolding secondsToDuration_def by (rule int64_wrap_bounds)+
  show "- 9223372036 \<le> n \<and> n \<le> 9223372036"
  proof (cases "secondsToDuration n < 0")
    case True
    with b w show ?thesis by (auto simp: wholeSeconds_def)
  next
    case False
    with b w show ?thesis by (auto simp: wholeSeconds_def)
  qed
qed

lemma postRollout_replies: "hr_status (fst (postRollout env b s)) \<noteq> 0"
proof (cases "unmarshal_rolloutRequest b")
  case (Inr req)
  let ?r = "requestedRollout req"
  have "Engine_Create (ce_deps env) ?r (cs_engine s) (cs_world s) \<noteq> None"
  proof (cases "validateRollout ?r")
    case None
    then have "stages_of ?r \<noteq> []" by (auto simp: validateRollout_def split: if_splits)
    then have "applyStage (ce_deps env) (?r\<lparr>ro_ID := u, ro_State := Running, ro_CurrentStageIndex := 0, ro_CurrentStageStartedAt := now\<rparr>) w \<noteq> None" for u now w
      using applyStage_total [of "?r\<lparr>ro_ID := u, ro_State := Running, ro_CurrentStageIndex := 0, ro_CurrentStageStartedAt := now\<rparr>" "ce_deps env" w]
      by (simp add: stageAt_def)
    then show ?thesis by (auto simp: Engine_Create_def None Let_def split: prod.splits option.splits) (metis option.distinct(1))
  qed (simp add: Engine_Create_def)
  with Inr show ?thesis
    by (auto simp: postRollout_def rollout_reply_def writeJSON_def writeJSONError_def split: option.splits sum.splits prod.splits)
qed (simp add: postRollout_def writeJSONError_def)

abbreviation request_stages :: "rolloutRequest \<Rightarrow> stageRequest list" where
  "request_stages req \<equiv> (case rq_Stages req of None \<Rightarrow> [] | Some ss \<Rightarrow> ss)"

lemma set_stageRequest_ok: "int64_ok (sr_BakeSeconds a) \<Longrightarrow> set_stageRequest k j a = Inr b \<Longrightarrow> int64_ok (sr_BakeSeconds b)"
  by (auto simp: set_stageRequest_def field_def dec_int_range split: if_splits sum.splits)

lemma request_stages_ok: "unmarshal_rolloutRequest b = Inr req \<Longrightarrow> list_all (\<lambda>s. int64_ok (sr_BakeSeconds s)) (request_stages req)"
  unfolding unmarshal_rolloutRequest_def
proof (erule Unmarshal_struct_keeps [where P = "\<lambda>r. list_all (\<lambda>s. int64_ok (sr_BakeSeconds s)) (request_stages r)"])
  fix k j a b
  let ?P = "\<lambda>s. int64_ok (sr_BakeSeconds s)"
  assume a: "list_all ?P (request_stages a)" and f: "set_rolloutRequest k j a = Inr b"
  have slice: "list_all ?P (case v of None \<Rightarrow> [] | Some ss \<Rightarrow> ss)"
    if "dec_slice (dec_struct set_stageRequest) zeroStageRequest j cur = Inr v" and "list_all ?P (case cur of None \<Rightarrow> [] | Some ss \<Rightarrow> ss)" for v cur
  proof (cases j)
    case (JArray js)
    with that(1) obtain as where "v = Some as" "dec_elems (dec_struct set_stageRequest) zeroStageRequest js (case cur of None \<Rightarrow> [] | Some ss \<Rightarrow> ss) = Inr as"
      by (cases "dec_elems (dec_struct set_stageRequest) zeroStageRequest js (case cur of None \<Rightarrow> [] | Some ss \<Rightarrow> ss)") auto
    note this(2)
    then have "list_all ?P as"
    proof (rule dec_elems_keeps [where P = ?P])
      show "dec_struct set_stageRequest j' a' = Inr b' \<Longrightarrow> int64_ok (sr_BakeSeconds b')" if "int64_ok (sr_BakeSeconds a')" for j' a' b'
        by (rule dec_struct_keeps [where P = ?P and f = set_stageRequest]) (use that set_stageRequest_ok in blast)+
    qed (use that(2) in \<open>simp_all add: zeroStageRequest_def int64_ok_def [of 0]\<close>)
    then show ?thesis using \<open>v = Some as\<close> by simp
  qed (use that(1) in auto)
  show "list_all ?P (request_stages b)"
    using f a slice by (auto simp: set_rolloutRequest_def field_def split: if_splits sum.splits)
qed simp

lemma Engine_Create_ok:
  assumes "Engine_Create dp r e w = Some (Inr r1, e1, w1)"
  shows "stages_of r1 = stages_of r \<and> ro_State r1 = Running \<and> map_of (en_active e1) (ro_ID r1) = Some r1"
  using assms by (auto simp: Engine_Create_def Let_def update_conv split: option.splits prod.splits)

lemma postRollout_ok:
  assumes "postRollout env b s = (rep, s')" and "hr_status rep = 200"
  obtains req r where "unmarshal_rolloutRequest b = Inr req" "hr_body rep = rollout_json env r"
    "stages_of r = stages_of (requestedRollout req)" "ro_State r = Running" "map_of (en_active (cs_engine s')) (ro_ID r) = Some r"
proof -
  obtain req r e w where "unmarshal_rolloutRequest b = Inr req"
    and c: "Engine_Create (ce_deps env) (requestedRollout req) (cs_engine s) (cs_world s) = Some (Inr r, e, w)"
    and "hr_body rep = rollout_json env r" "s' = \<lparr>cs_world = w, cs_engine = e\<rparr>"
    using assms by (auto simp: postRollout_def rollout_reply_def noReply_def writeJSON_def writeJSONError_def split: sum.splits option.splits prod.splits)
  with Engine_Create_ok [OF c] that show thesis by simp
qed

section \<open>An environment for the witnesses\<close>

text \<open>A bucket whose reads never fail.\<close>

definition calmGet :: "string \<Rightarrow> memkv \<Rightarrow> (kv_error + body \<times> u64) \<times> memkv" where
  "calmGet k s = (case mem_content s k of None \<Rightarrow> Inl ErrKeyNotFound | Some en \<Rightarrow> Inr en, s)"

definition calmkv_ops :: "memkv kvops" where
  "calmkv_ops = \<lparr>kv_Put = memPut, kv_Get = calmGet\<rparr>"

interpretation calm: kv_bucket calmkv_ops mem_content
  using mem.kv_bucket_axioms
  by (auto simp: kv_bucket_def calmkv_ops_def memkv_ops_def calmGet_def split: option.splits)

lemma calm_reads: "fst (kv_Get calmkv_ops k st) \<noteq> Inl (KvIO e)"
  by (simp add: calmkv_ops_def calmGet_def split: option.splits)

definition sampleEnv :: "memkv control_env" where
  "sampleEnv = \<lparr>ce_jwt = memjwt, ce_issuer = ''sg'', ce_signingKey = ''key'', ce_kv = calmkv_ops, ce_reason = (\<lambda>_ _ _ _ _. []), ce_mqttUp = True,
     ce_driftStaleAfter = second, ce_rfc3339 = (\<lambda>_. []), ce_millis = (\<lambda>_. []), ce_alertError = (\<lambda>_. []), ce_engineError = (\<lambda>_. [])\<rparr>"

definition sampleControl :: "memkv control" where
  "sampleControl = \<lparr>cs_world = sampleWorld, cs_engine = NewEngine 0\<rparr>"

definition sampleBody :: body where
  "sampleBody = Some (marshal_Desired (sampleDesired\<lparr>d_SchemaVersion := ''1.0'', d_Revision := 0\<rparr>))"

lemma sampleBody_decodes: "unmarshal_Desired sampleBody = Inr (sampleDesired\<lparr>d_SchemaVersion := ''1.0'', d_Revision := 0\<rparr>)"
  using Desired_roundtrip [of "sampleDesired\<lparr>d_SchemaVersion := ''1.0'', d_Revision := 0\<rparr>"]
  by (simp add: sampleBody_def sampleDesired_def zeroDesired_def drop_empty_def desired_ok_def)

lemma sampleEnv_parts [simp]: "ce_kv sampleEnv = calmkv_ops" "ce_mqttUp sampleEnv" "ce_driftStaleAfter sampleEnv = second"
  "ce_jwt sampleEnv = memjwt" "ce_issuer sampleEnv = ''sg''" "ce_signingKey sampleEnv = ''key''"
  by (simp_all add: sampleEnv_def)

lemma samplePut: "\<exists>rep s'. putDesired sampleEnv ''d1'' sampleBody sampleControl = (rep, s') \<and> hr_status rep = 200"
  by (simp add: putDesired_def sampleBody_decodes on_world_def SetDesired_def calmkv_ops_def memPut_def audit_def world_defs
      sql_insert_history_def sample_defs sampleControl_def PublishDesired_def writeJSON_def Let_def)

lemma adminBearer:
  obtains tok where "\<And>call s. serve sampleEnv call 5 (''Bearer '' @ tok) s = api_handler sampleEnv call s"
    "verifyBearer memjwt 5 (''Bearer '' @ tok) ''sg'' ''key'' = Inr roleAdmin"
proof -
  obtain tok where tok: "signToken memjwt roleAdmin ''sg'' second ''key'' ''ann'' 0 = Inr tok"
    using memjwt_signs [of roleAdmin "''sg''" second "''key''" "''ann''" 0] by (auto simp: roleRank_def role_defs)
  have "5 < NewNumericDate (0 + second)" by (simp add: NewNumericDate_def)
  note valid = memjwt.signed_bearer(1) [OF tok this]
  have "roleAllows roleAdmin (minRole sampleEnv call)" for call
    using minRole_cases [of sampleEnv call] by (auto simp: roleAllows_def roleRank_def role_defs)
  then have "serve sampleEnv call 5 (''Bearer '' @ tok) s = api_handler sampleEnv call s" for call s
    unfolding serve_def requireRole_def sampleEnv_parts valid by simp
  with valid that show thesis by blast
qed

section \<open>Properties\<close>

text \<open>The drift list is right up to the time the scan takes. If every reading of the clock lies between \<open>t0\<close> and \<open>t1\<close>, each
  device on the list is registered and drifts at \<open>t1\<close>; if no read of the bucket fails and the stored documents decode,
  each registered device that drifts at \<open>t0\<close> is on the list.
\<close>

theorem drift_list_between:
  assumes "kv_bucket (ce_kv env) content" and "getDrift env s = (rep, s')" and "hr_status rep = 200"
    and "\<And>n. t0 \<le> w_clock (cs_world s) n \<and> w_clock (cs_world s) n \<le> t1"
  shows "\<exists>ds vs. fst (Devices_List (w_pg (cs_world s))) = Inr ds \<and> rep = devices_reply env vs \<and>
    set vs \<subseteq> toDeviceView ` {d \<in> set ds. drifts content (ce_driftStaleAfter env) (cs_world s) t1 (de_ID d)} \<and>
    ((\<forall>k st e. fst (kv_Get (ce_kv env) k st) \<noteq> Inl (KvIO e)) \<and> (\<forall>d \<in> set ds. legible content (cs_world s) (de_ID d)) \<longrightarrow>
      toDeviceView ` {d \<in> set ds. drifts content (ce_driftStaleAfter env) (cs_world s) t0 (de_ID d)} \<subseteq> set vs)"
proof -
  obtain x d' where l: "Devices_List (w_pg (cs_world s)) = (x, d')" by fastforce
  then obtain ds where ds: "x = Inr ds"
    using assms(2,3) by (cases x) (auto simp: getDrift_def on_world_def on_pg_def writeJSONError_def)
  let ?w = "(cs_world s)\<lparr>w_pg := d'\<rparr>"
  have rep: "rep = devices_reply env (fst (driftScan env ds ?w))"
    using assms(2) l ds by (auto simp: getDrift_def on_world_def on_pg_def split: prod.splits)
  have same: "drifts content (ce_driftStaleAfter env) ?w = drifts content (ce_driftStaleAfter env) (cs_world s)"
    "legible content ?w = legible content (cs_world s)" by (rule drifts_same, simp) (simp add: fun_eq_iff legible_def)
  have clk: "t0 \<le> w_clock ?w n \<and> w_clock ?w n \<le> t1" for n using assms(4) by simp
  note between = kv_bucket.scan_between [OF assms(1) refl clk, of ds, unfolded same]
  show ?thesis
    by (intro exI [of _ ds] exI [of _ "fst (driftScan env ds ?w)"]) (use l ds rep between in simp)
qed

text \<open>What \<^verbatim>\<open>PUT /v1/devices/{id}/shadow/desired\<close> answers 200 to is stored and sent: the body decodes to a
  configuration that is now the device's, under a revision above every other, no other device's configuration changed,
  and the last message to the broker is that configuration with its revision, retained, on the device's topic.
\<close>

theorem put_desired_stored:
  assumes "kv_bucket (ce_kv env) content" and "putDesired env i b s = (rep, s')" and "hr_status rep = 200"
  shows "\<exists>d p. unmarshal_Desired b = Inr d \<and> hr_body rep = marshal_Desired p \<and> normD p = normD d \<and>
    shadow_config content (cs_world s') = (shadow_config content (cs_world s))(i \<mapsto> normD d) \<and>
    shadow_revision content (cs_world s') i = d_Revision p \<and> (\<forall>j. shadow_revision content (cs_world s) j < d_Revision p) \<and>
    bus_sent (w_mqtt (cs_world s')) = bus_sent (w_mqtt (cs_world s)) @ [(ConfigTopic i, \<lparr>m_qos = 1, m_retained = True, m_payload = marshal_Desired p\<rparr>)]"
  by (rule kv_bucket.put_stored [OF assms(1) refl assms(2,3)])

theorem put_desired_stored_witness:
  "\<exists>rep s' d. putDesired sampleEnv ''d1'' sampleBody sampleControl = (rep, s') \<and> hr_status rep = 200 \<and>
     unmarshal_Desired sampleBody = Inr d \<and> shadow_config mem_content (cs_world s') ''d1'' = Some (normD d)"
proof -
  obtain rep s' where put: "putDesired sampleEnv ''d1'' sampleBody sampleControl = (rep, s')" "hr_status rep = 200" using samplePut by blast
  from put_desired_stored [of sampleEnv mem_content, OF _ put] calm.kv_bucket_axioms put show ?thesis by fastforce
qed

text \<open>
  The same request for an id that is not a registered device is answered 500 "internal error", and yet the configuration
  is stored: the bucket is written before the audit row, whose foreign key then fails. Nothing is sent to the device.
\<close>

theorem unknown_device_put_is_kept:
  assumes "kv_bucket (ce_kv env) content" and "ce_mqttUp env" and "unmarshal_Desired b = Inr d"
    and "kv_Put (ce_kv env) (desiredKey i) (Some (marshal_Desired (d\<lparr>d_SchemaVersion := shadow_SchemaVersion, d_Revision := 0\<rparr>))) (w_kv (cs_world s)) = (Inr rv, k)"
    and "\<And>u. pg_uuid (w_pg (cs_world s)) i = Some u \<Longrightarrow> \<not> device_exists (w_pg (cs_world s)) u"
  shows "\<exists>s'. putDesired env i b s = (writeJSONError 500 ''internal error'', s') \<and> shadow_config content (cs_world s') i = Some (normD d) \<and>
    bus_sent (w_mqtt (cs_world s')) = bus_sent (w_mqtt (cs_world s))"
proof -
  let ?b = "marshal_Desired (d\<lparr>d_SchemaVersion := shadow_SchemaVersion, d_Revision := 0\<rparr>)"
  let ?w = "(cs_world s)\<lparr>w_kv := k\<rparr>"
  obtain r w2 where a: "audit i ''desired'' rv ?b ?w = (r, w2)" by fastforce
  have "r \<noteq> None"
    using a assms(5) by (auto simp: audit_def world_defs pg_exec_def sql_insert_history_def uuid_arg_Inr
        elim!: pg_run_ok split: prod.splits option.splits sum.splits if_splits)
  then obtain e where set: "SetDesired (ce_kv env) i d (cs_world s) = (Inl e, w2)" using a assms(4) by (auto simp: SetDesired_def Let_def)
  then have "putDesired env i b s = (writeJSONError 500 ''internal error'', s\<lparr>cs_world := w2\<rparr>)"
    using assms(2,3) by (simp add: putDesired_def on_world_def)
  moreover have "w_kv w2 = k" using audit_frame [OF a] by simp
  moreover have "content k (desiredKey i) = Some (Some ?b, rv)" using kv_bucket.put_ok [OF assms(1,4)] by simp
  moreover have "unmarshal_Desired (Some ?b) = Inr (d\<lparr>d_SchemaVersion := shadow_SchemaVersion, d_Revision := 0, d_EnabledSensors := drop_empty (d_EnabledSensors d)\<rparr>)"
    using Desired_roundtrip [of "d\<lparr>d_SchemaVersion := shadow_SchemaVersion, d_Revision := 0\<rparr>"] unmarshal_Desired_ok [OF assms(3)] by simp
  moreover have "w_mqtt w2 = w_mqtt (cs_world s)" using arg_cong [OF SetDesired_frame [of "ce_kv env" i d "cs_world s"], of w_mqtt] set by (simp add: shadow_frame_def)
  ultimately show ?thesis by (simp add: shadow_config_def normD_def drop_empty_def)
qed

theorem unknown_device_put_is_kept_witness:
  "\<exists>s'. putDesired sampleEnv ''d9'' sampleBody sampleControl = (writeJSONError 500 ''internal error'', s') \<and>
     shadow_config mem_content (cs_world s') ''d9'' \<noteq> None"
proof -
  let ?d = "sampleDesired\<lparr>d_SchemaVersion := ''1.0'', d_Revision := 0\<rparr>"
  obtain k where put: "kv_Put (ce_kv sampleEnv) (desiredKey ''d9'') (Some (marshal_Desired (?d\<lparr>d_SchemaVersion := shadow_SchemaVersion, d_Revision := 0\<rparr>)))
      (w_kv (cs_world sampleControl)) = (Inr 1, k)"
    by (simp add: calmkv_ops_def memPut_def sampleControl_def sampleWorld_def)
  have unknown: "\<not> device_exists (w_pg (cs_world sampleControl)) u" if "pg_uuid (w_pg (cs_world sampleControl)) ''d9'' = Some u" for u
    using that by (auto simp: sampleControl_def sample_defs)
  have up: "ce_mqttUp sampleEnv" and kv: "kv_bucket (ce_kv sampleEnv) mem_content" using calm.kv_bucket_axioms by simp_all
  show ?thesis
    using unknown_device_put_is_kept [OF kv up sampleBody_decodes put unknown] by auto
qed

definition driftControl :: "memkv control" where
  "driftControl = sampleControl\<lparr>cs_world := sampleWorld\<lparr>w_kv := \<lparr>mk_faults = [], mk_entries = [desiredKey ''d1'' \<mapsto> (sampleBody, 1)], mk_seq = 1\<rparr>,
     w_clock := (\<lambda>_. 7)\<rparr>\<rparr>"

theorem drift_list_between_witness:
  "\<exists>rep s' d vs. getDrift sampleEnv driftControl = (rep, s') \<and> fst (Devices_List (w_pg (cs_world driftControl))) = Inr [d] \<and> de_ID d = ''d1'' \<and>
     rep = devices_reply sampleEnv vs \<and> set vs = {toDeviceView d}"
proof -
  let ?w = "cs_world driftControl"
  obtain rep s' where g: "getDrift sampleEnv driftControl = (rep, s')" by fastforce
  have dl: "\<exists>d. fst (Devices_List (w_pg ?w)) = Inr [d] \<and> de_ID d = ''d1''"
    by (simp add: driftControl_def Devices_List_def sql_list_devices_def sample_defs scanDevice_def)
  then obtain d where d: "fst (Devices_List (w_pg ?w)) = Inr [d]" "de_ID d = ''d1''" by blast
  have ok: "hr_status rep = 200"
    using g d by (auto simp: getDrift_def on_world_def on_pg_def devices_reply_def writeJSON_def split: prod.splits sum.splits)
  have clk: "7 \<le> w_clock ?w n \<and> w_clock ?w n \<le> 7" for n by (simp add: driftControl_def)
  have kv: "kv_bucket (ce_kv sampleEnv) mem_content" using calm.kv_bucket_axioms by simp
  have c: "mem_content (w_kv ?w) (desiredKey ''d1'') = Some (sampleBody, 1)" "mem_content (w_kv ?w) (reportedKey ''d1'') = None"
    by (simp_all add: driftControl_def mem_content_def)
  then have "drifts mem_content second ?w 7 ''d1''" "legible mem_content ?w ''d1''"
    by (simp_all add: drifts_def shadow_revision_def shadow_reported_def Drift_def legible_def sampleBody_decodes)
  moreover have "\<forall>k st e. fst (kv_Get (ce_kv sampleEnv) k st) \<noteq> Inl (KvIO e)" using calm_reads by simp
  ultimately show ?thesis using drift_list_between [OF kv g ok clk] g d by force
qed

text \<open>C33: a rollout that is created with status 200 is running in the engine with the stages of the request, and the reply shows
  the stages as they were asked for exactly if every bake time is at most 9223372036 seconds either way: beyond that the
  conversion to nanoseconds wraps.
\<close>

theorem created_rollout_stages:
  assumes "postRollout env b s = (rep, s')" and "hr_status rep = 200"
  shows "\<exists>req r. unmarshal_rolloutRequest b = Inr req \<and> hr_body rep = rollout_json env r \<and> ro_State r = Running \<and>
    map_of (en_active (cs_engine s')) (ro_ID r) = Some r \<and> map sg_Percent (stages_of r) = map sr_Percent (request_stages req) \<and>
    (map sw_BakeSeconds (rv_Stages (toRolloutView (ce_millis env) r)) = map sr_BakeSeconds (request_stages req) \<longleftrightarrow>
      list_all (\<lambda>st. - 9223372036 \<le> sr_BakeSeconds st \<and> sr_BakeSeconds st \<le> 9223372036) (request_stages req))"
proof (rule postRollout_ok [OF assms])
  fix req r
  assume req: "unmarshal_rolloutRequest b = Inr req" and r: "hr_body rep = rollout_json env r" "stages_of r = stages_of (requestedRollout req)"
    "ro_State r = Running" "map_of (en_active (cs_engine s')) (ro_ID r) = Some r"
  have st: "stages_of r = map (\<lambda>s. \<lparr>sg_Percent = sr_Percent s, sg_BakeDuration = secondsToDuration (sr_BakeSeconds s)\<rparr>) (request_stages req)"
    using r(2) by (simp add: requestedRollout_def)
  have "map sw_BakeSeconds (rv_Stages (toRolloutView (ce_millis env) r)) = map sr_BakeSeconds (request_stages req) \<longleftrightarrow>
      list_all (\<lambda>st. wholeSeconds (secondsToDuration (sr_BakeSeconds st)) = sr_BakeSeconds st) (request_stages req)"
    by (simp add: toRolloutView_def st comp_def list_all_iff)
  also have "\<dots> = list_all (\<lambda>st. - 9223372036 \<le> sr_BakeSeconds st \<and> sr_BakeSeconds st \<le> 9223372036) (request_stages req)"
    using request_stages_ok [OF req] secondsToDuration_exact by (auto simp: list_all_iff)
  finally have bake: "map sw_BakeSeconds (rv_Stages (toRolloutView (ce_millis env) r)) = map sr_BakeSeconds (request_stages req) \<longleftrightarrow>
      list_all (\<lambda>st. - 9223372036 \<le> sr_BakeSeconds st \<and> sr_BakeSeconds st \<le> 9223372036) (request_stages req)" .
  have "map sg_Percent (stages_of r) = map sr_Percent (request_stages req)" unfolding st by (simp add: comp_def)
  with req r(1,3,4) bake show ?thesis by blast
qed

definition sampleRequest :: "int \<Rightarrow> body" where
  "sampleRequest n = Some (JObject [(''name'', JString ''r''), (''stages'', JArray [JObject [(''percent'', JInt 10), (''bake_seconds'', JInt n)]])])"

lemma request_tags [simp]: "foldName ''stages'' = ''stages''" "foldName ''bake_seconds'' = ''bake_seconds''"
  by code_simp+

lemma sampleRequest_decodes: "int64_ok n \<Longrightarrow> unmarshal_rolloutRequest (sampleRequest n) =
    Inr \<lparr>rq_Name = ''r'', rq_Cohort = zeroCohort, rq_DesiredConfig = zeroDesired,
      rq_Stages = Some [\<lparr>sr_Percent = 10, sr_BakeSeconds = n\<rparr>], rq_HealthCriteria = zeroHealth\<rparr>"
  by (simp add: unmarshal_rolloutRequest_def Unmarshal_def sampleRequest_def set_rolloutRequest_def set_stageRequest_def field_def
      zeroStageRequest_def int64_ok_def)

lemma sampleCreate:
  assumes "int64_ok n"
  shows "\<exists>rep s'. postRollout sampleEnv (sampleRequest n) sampleControl = (rep, s') \<and> hr_status rep = 200"
proof -
  obtain req where req: "unmarshal_rolloutRequest (sampleRequest n) = Inr req" "rq_Name req = ''r''" "rq_Stages req = Some [\<lparr>sr_Percent = 10, sr_BakeSeconds = n\<rparr>]"
    using sampleRequest_decodes [OF assms] by simp
  let ?r = "requestedRollout req"
  have v: "validateRollout ?r = None" using req by (simp add: validateRollout_def requestedRollout_def)
  let ?r1 = "?r\<lparr>ro_ID := [], ro_State := Running, ro_CurrentStageIndex := 0, ro_CurrentStageStartedAt := 0\<rparr>"
  obtain w3 where c: "dp_Create (ce_deps sampleEnv) ?r1 (sampleWorld\<lparr>w_issued := 1, w_ticks := 1\<rparr>) = (None, w3)"
    by (simp add: prodDeps_def pg_err_def world_defs Rollouts_Create_def pg_exec_def sql_insert_rollout_def sample_defs int4_ok_def rollout_states)
  obtain w4 where a: "applyStage (ce_deps sampleEnv) ?r1 w3 = Some w4"
    using applyStage_total [of ?r1 "ce_deps sampleEnv" w3] req by (auto simp: stageAt_def requestedRollout_def)
  have "\<exists>e w. Engine_Create (ce_deps sampleEnv) ?r (cs_engine sampleControl) (cs_world sampleControl) = Some (Inr ?r1, e, w)"
    using c a v by (simp add: Engine_Create_def Let_def prodDeps_def uuid_NewString_def time_Now_def sampleControl_def sampleWorld_def)
  then show ?thesis using req by (auto simp: postRollout_def rollout_reply_def writeJSON_def)
qed

theorem created_rollout_stages_witness:
  "\<exists>rep s' r. postRollout sampleEnv (sampleRequest 9223372037) sampleControl = (rep, s') \<and> hr_status rep = 200 \<and>
     map_of (en_active (cs_engine s')) (ro_ID r) = Some r \<and> map sg_Percent (stages_of r) = [10] \<and>
     map sw_BakeSeconds (rv_Stages (toRolloutView (ce_millis sampleEnv) r)) \<noteq> [9223372037]"
proof -
  have n: "int64_ok 9223372037" by (simp add: int64_ok_def)
  obtain rep s' where p: "postRollout sampleEnv (sampleRequest 9223372037) sampleControl = (rep, s')" "hr_status rep = 200"
    using sampleCreate [OF n] by blast
  from created_rollout_stages [OF p] p sampleRequest_decodes [OF n] show ?thesis by fastforce
qed

end
