(* ===== verification/Migrations.thy ===== *)
theory Migrations
  imports Prelude "HOL-Library.Char_ord" "HOL-Library.List_Lexorder" "HOL-Library.Sublist"
begin

text \<open>
  \<^verbatim>\<open>internal/migrations/migrations.go\<close>: the runner that brings the schema up to date when a service
  starts. What a statement does to the schema is Postgres's business, the parameter \<open>exec\<close>: it either gives the
  new schema or an error code and no change. The tracking table \<^verbatim>\<open>schema_migrations\<close> is part of the state. Each
  call to the server takes the next entry of a script: it may fail before or after its effect, with a connection error
  or, as when another process gets there first, with an error code of Postgres.
\<close>

section \<open>Text\<close>

definition newline :: char where "newline = CHR 0x0A"

definition splitStatements :: "string \<Rightarrow> string list" where
  "splitStatements sqlText =
     (let ls = filter (\<lambda>line. \<not> HasPrefix (TrimSpace line) ''--'') (splitOn newline sqlText);
          joined = joinWith newline ls in
      filter (\<lambda>s. s \<noteq> []) (map TrimSpace (splitOn (CHR '';'') joined)))"

definition isNoTx :: "string \<Rightarrow> bool" where
  "isNoTx raw = HasPrefix (TrimSpace raw) ''-- no-transaction''"

section \<open>The database\<close>

datatype mig_error =
    SqlState string
  | MigIO io_error
  | ReadFailed io_error
  | Preparing mig_error
  | ReadingVersions mig_error
  | Applying string mig_error
  | Recording string mig_error

datatype mig_fault = Before mig_error | After mig_error

record 'sch migdb =
  mg_script :: "mig_fault option list"
  mg_schema :: 'sch
  mg_versions :: "string list option"

type_synonym 'sch exec = "string \<Rightarrow> 'sch \<Rightarrow> string + 'sch"

definition mg_next :: "'sch migdb \<Rightarrow> mig_fault option \<times> 'sch migdb" where
  "mg_next d = (case mg_script d of [] \<Rightarrow> (None, d) | f # fs \<Rightarrow> (f, d\<lparr>mg_script := fs\<rparr>))"

text \<open>A call of the pool.\<close>

definition mg_call :: "('sch migdb \<Rightarrow> mig_error + 'a \<times> 'sch migdb) \<Rightarrow> 'sch migdb \<Rightarrow> (mig_error + 'a) \<times> 'sch migdb" where
  "mg_call stmt d =
     (let (f, d0) = mg_next d in
      case f of
        Some (Before e) \<Rightarrow> (Inl e, d0)
      | _ \<Rightarrow>
          (case stmt d0 of
             Inl e \<Rightarrow> (Inl e, d0)
           | Inr (a, d1) \<Rightarrow> (case f of Some (After e) \<Rightarrow> (Inl e, d1) | _ \<Rightarrow> (Inr a, d1))))"

definition sql_exec :: "'sch exec \<Rightarrow> string \<Rightarrow> 'sch migdb \<Rightarrow> mig_error + unit \<times> 'sch migdb" where
  "sql_exec exec stmt d = (case exec stmt (mg_schema d) of Inl c \<Rightarrow> Inl (SqlState c) | Inr sch \<Rightarrow> Inr ((), d\<lparr>mg_schema := sch\<rparr>))"

definition sql_create_versions :: "'sch migdb \<Rightarrow> mig_error + unit \<times> 'sch migdb" where
  "sql_create_versions d = Inr ((), if mg_versions d = None then d\<lparr>mg_versions := Some []\<rparr> else d)"

definition sql_select_versions :: "'sch migdb \<Rightarrow> mig_error + string list \<times> 'sch migdb" where
  "sql_select_versions d = (case mg_versions d of None \<Rightarrow> Inl (SqlState ''42P01'') | Some vs \<Rightarrow> Inr (vs, d))"

definition sql_insert_version :: "string \<Rightarrow> 'sch migdb \<Rightarrow> mig_error + unit \<times> 'sch migdb" where
  "sql_insert_version v d =
     (case mg_versions d of
        None \<Rightarrow> Inl (SqlState ''42P01'')
      | Some vs \<Rightarrow> if v \<in> set vs then Inl (SqlState ''23505'') else Inr ((), d\<lparr>mg_versions := Some (vs @ [v])\<rparr>))"

section \<open>The runner\<close>

definition raceOK :: "string set" where
  "raceOK = {''42P07'', ''42710'', ''23505''}"

definition isConcurrentApplyRace :: "mig_error \<Rightarrow> bool" where
  "isConcurrentApplyRace err = (case err of SqlState code \<Rightarrow> code \<in> raceOK | _ \<Rightarrow> False)"

definition ensureMigrationsTable :: "'sch migdb \<Rightarrow> (mig_error + unit) \<times> 'sch migdb" where
  "ensureMigrationsTable = mg_call sql_create_versions"

definition appliedVersions :: "'sch migdb \<Rightarrow> (mig_error + string list) \<times> 'sch migdb" where
  "appliedVersions = mg_call sql_select_versions"

text \<open>A directory is a list of names with what reading the file gives.\<close>

type_synonym directory = "(string \<times> (io_error + string)) list"

definition migrationFiles :: "directory \<Rightarrow> directory" where
  "migrationFiles dir = sort_key fst (filter (\<lambda>(name, _). HasSuffix name ''.sql'') dir)"

fun runWithoutTx :: "'sch exec \<Rightarrow> string list \<Rightarrow> 'sch migdb \<Rightarrow> mig_error option \<times> 'sch migdb" where
  "runWithoutTx exec [] d = (None, d)"
| "runWithoutTx exec (stmt # stmts) d =
     (case mg_call (sql_exec exec stmt) d of (Inl e, d1) \<Rightarrow> (Some e, d1) | (Inr _, d1) \<Rightarrow> runWithoutTx exec stmts d1)"

text \<open>In a transaction the statements work on a copy that only a commit makes the schema; an error rolls back.\<close>

definition runInTx :: "'sch exec \<Rightarrow> string list \<Rightarrow> 'sch migdb \<Rightarrow> mig_error option \<times> 'sch migdb" where
  "runInTx exec stmts d =
     (case mg_call (\<lambda>d. Inr ((), d)) d of
        (Inl e, d1) \<Rightarrow> (Some e, d1)
      | (Inr _, d1) \<Rightarrow>
          (case runWithoutTx exec stmts d1 of
             (Some e, d2) \<Rightarrow> (Some e, d2\<lparr>mg_schema := mg_schema d1\<rparr>)
           | (None, d2) \<Rightarrow>
               (case mg_call (\<lambda>d. Inr ((), d\<lparr>mg_schema := mg_schema d2\<rparr>)) (d2\<lparr>mg_schema := mg_schema d1\<rparr>) of
                  (Inl e, d3) \<Rightarrow> (Some e, d3) | (Inr _, d3) \<Rightarrow> (None, d3))))"

definition runFile :: "'sch exec \<Rightarrow> string \<Rightarrow> 'sch migdb \<Rightarrow> mig_error option \<times> 'sch migdb" where
  "runFile exec raw d =
     (if isNoTx raw then runWithoutTx exec (splitStatements raw) d else runInTx exec (splitStatements raw) d)"

fun runFiles :: "'sch exec \<Rightarrow> string list \<Rightarrow> directory \<Rightarrow> 'sch migdb \<Rightarrow> mig_error option \<times> 'sch migdb" where
  "runFiles exec applied [] d = (None, d)"
| "runFiles exec applied ((version, content) # files) d =
     (if version \<in> set applied then runFiles exec applied files d
      else
        (case content of
           Inl e \<Rightarrow> (Some (ReadFailed e), d)
         | Inr raw \<Rightarrow>
             (case runFile exec raw d of
                (Some e, d1) \<Rightarrow> if isConcurrentApplyRace e then runFiles exec applied files d1 else (Some (Applying version e), d1)
              | (None, d1) \<Rightarrow>
                  (case mg_call (sql_insert_version version) d1 of
                     (Inl e, d2) \<Rightarrow> if isConcurrentApplyRace e then runFiles exec applied files d2 else (Some (Recording version e), d2)
                   | (Inr _, d2) \<Rightarrow> runFiles exec applied files d2))))"

definition Migrations_Run :: "'sch exec \<Rightarrow> directory \<Rightarrow> 'sch migdb \<Rightarrow> mig_error option \<times> 'sch migdb" where
  "Migrations_Run exec dir d =
     (case ensureMigrationsTable d of
        (r, d1) \<Rightarrow>
          if (case r of Inl e \<Rightarrow> \<not> isConcurrentApplyRace e | Inr _ \<Rightarrow> False) then (Some (Preparing (projl r)), d1)
          else
            (case appliedVersions d1 of
               (Inl e, d2) \<Rightarrow> (Some (ReadingVersions e), d2)
             | (Inr applied, d2) \<Rightarrow> runFiles exec applied (migrationFiles dir) d2))"

section \<open>Specification\<close>

text \<open>What a list of statements makes of a schema.\<close>

fun apply_all :: "'sch exec \<Rightarrow> string list \<Rightarrow> 'sch \<Rightarrow> string + 'sch" where
  "apply_all exec [] sch = Inr sch"
| "apply_all exec (stmt # stmts) sch = (case exec stmt sch of Inl c \<Rightarrow> Inl c | Inr sch' \<Rightarrow> apply_all exec stmts sch')"

definition statements_of :: "directory \<Rightarrow> string list" where
  "statements_of files = concat (map (\<lambda>(_, content). splitStatements (projr content)) files)"

definition pending :: "directory \<Rightarrow> string list \<Rightarrow> directory" where
  "pending dir applied = filter (\<lambda>(version, _). version \<notin> set applied) (migrationFiles dir)"

text \<open>What a file may have contributed to the schema, as a list of statements: a file that is run in a transaction all of
  its statements or none, one that is run outside a transaction some of them from the start.\<close>

definition contributes :: "io_error + string \<Rightarrow> string list \<Rightarrow> bool" where
  "contributes content ss \<longleftrightarrow>
     (case content of
        Inl _ \<Rightarrow> ss = []
      | Inr raw \<Rightarrow> if isNoTx raw then prefix ss (splitStatements raw) else ss = [] \<or> ss = splitStatements raw)"

definition mg_recorded :: "'sch migdb \<Rightarrow> string list" where
  "mg_recorded d = (case mg_versions d of None \<Rightarrow> [] | Some vs \<Rightarrow> vs)"

text \<open>A migration file as its author writes it: lines of comment, and statements that end in a semicolon.\<close>

datatype sql_item = Comment string | Statement string

fun item_text :: "sql_item \<Rightarrow> string" where
  "item_text (Comment t) = ''--'' @ t @ [newline]"
| "item_text (Statement s) = s @ [CHR '';'', newline]"

fun item_ok :: "sql_item \<Rightarrow> bool" where
  "item_ok (Comment t) = (newline \<notin> set t)"
| "item_ok (Statement s) = (s \<noteq> [] \<and> TrimSpace s = s \<and> CHR '';'' \<notin> set s \<and>
     list_all (\<lambda>line. \<not> HasPrefix (TrimSpace line) ''--'') (splitOn newline (s @ '';'')))"

definition file_text :: "sql_item list \<Rightarrow> string" where
  "file_text items = concat (map item_text items)"

definition file_statements :: "sql_item list \<Rightarrow> string list" where
  "file_statements items = concat (map (\<lambda>i. case i of Comment _ \<Rightarrow> [] | Statement s \<Rightarrow> [s]) items)"

section \<open>Lemmas\<close>

subsection \<open>Text\<close>

lemma spaceRunes_no_dash: "CHR ''-'' \<notin> \<Union> (set ` set spaceRunes)"
  by code_simp

lemma rev_split: "rev s = p @ q \<Longrightarrow> s = rev q @ rev p"
  by (metis rev_append rev_rev_ident)

lemma dash_prefix: "''--'' @ t = r @ q \<Longrightarrow> CHR ''-'' \<notin> set q \<Longrightarrow> HasPrefix r ''--''"
  by (auto simp: HasPrefix_def Cons_eq_append_conv)

lemma TrimSpace_comment: "HasPrefix (TrimSpace (''--'' @ t)) ''--''"
proof -
  have left: "trimWith spaceRunes (''--'' @ t) = ''--'' @ t"
  proof -
    have "\<not> HasPrefix (''--'' @ t) p" if "p \<in> set spaceRunes" "p \<noteq> []" for p
    proof -
      have "CHR ''-'' \<notin> set p" using that(1) spaceRunes_no_dash by blast
      with that(2) show ?thesis by (cases p) (auto simp: HasPrefix_def)
    qed
    then have "find (\<lambda>p. p \<noteq> [] \<and> HasPrefix (''--'' @ t) p) spaceRunes = None" by (auto simp: find_None_iff)
    then show ?thesis by (subst trimWith.simps) simp
  qed
  obtain pre where pre: "rev (''--'' @ t) = pre @ trimWith (map rev spaceRunes) (rev (''--'' @ t))" "set pre \<subseteq> \<Union> (set ` set (map rev spaceRunes))"
    using trimWith_drops by blast
  let ?r = "rev (trimWith (map rev spaceRunes) (rev (''--'' @ t)))"
  have r: "''--'' @ t = ?r @ rev pre" using pre(1) by (rule rev_split)
  have dash: "CHR ''-'' \<notin> set pre" using pre(2) spaceRunes_no_dash by auto
  have "TrimSpace (''--'' @ t) = ?r" unfolding TrimSpace_def left ..
  moreover have "HasPrefix ?r ''--''" by (rule dash_prefix [OF r]) (use dash in simp)
  ultimately show ?thesis by simp
qed

lemma TrimSpace_newline: "TrimSpace (newline # s) = TrimSpace s"
proof -
  have "find (\<lambda>p. p \<noteq> [] \<and> HasPrefix (newline # s) p) spaceRunes = Some [newline]"
    by (simp add: spaceRunes_def newline_def HasPrefix_def)
  then have "trimWith spaceRunes (newline # s) = trimWith spaceRunes s"
    by (subst trimWith.simps) simp
  then show ?thesis by (simp add: TrimSpace_def)
qed

lemma TrimSpace_nil [simp]: "TrimSpace [] = []"
proof -
  have "trimWith ps [] = []" for ps
    by (subst trimWith.simps) (auto simp: HasPrefix_def find_Some_iff split: option.splits)
  then show ?thesis by (simp add: TrimSpace_def)
qed

text \<open>The lines of a file that are left when the comments are gone are the lines of its statements.\<close>

lemma statement_lines:
  assumes "list_all item_ok items"
  shows "filter (\<lambda>line. \<not> HasPrefix (TrimSpace line) ''--'') (splitOn newline (file_text items)) =
    splitOn newline (concat (map (\<lambda>s. s @ [CHR '';'', newline]) (file_statements items)))"
  using assms
proof (induction items)
  case Nil
  have "\<not> HasPrefix (TrimSpace []) ''--''" by (simp add: HasPrefix_def)
  then show ?case by (simp add: file_text_def file_statements_def)
next
  case (Cons i items)
  show ?case
  proof (cases i)
    case (Comment t)
    have "splitOn newline (file_text (i # items)) = (''--'' @ t) # splitOn newline (file_text items)"
      using splitOn_append [of newline "''--'' @ t" "file_text items"] Cons.prems Comment
      by (simp add: file_text_def) (simp add: newline_def)
    moreover have "HasPrefix (TrimSpace (''--'' @ t)) ''--''" by (rule TrimSpace_comment)
    ultimately show ?thesis using Cons Comment by (simp add: file_statements_def)
  next
    case (Statement s)
    have "splitOn newline (file_text (i # items)) = splitOn newline (s @ '';'') @ splitOn newline (file_text items)"
      using splitOn_append_sep [of newline "s @ '';''" "file_text items"] Statement by (simp add: file_text_def)
    moreover have "filter (\<lambda>line. \<not> HasPrefix (TrimSpace line) ''--'') (splitOn newline (s @ '';'')) = splitOn newline (s @ '';'')"
      using Cons.prems Statement by (simp add: list_all_iff)
    ultimately show ?thesis
      using Cons Statement splitOn_append_sep [of newline "s @ '';''"] by (simp add: file_statements_def)
  qed
qed

lemma split_semicolons:
  assumes "list_all (\<lambda>s. s \<noteq> [] \<and> TrimSpace s = s \<and> CHR '';'' \<notin> set s) ss" and "pre = [] \<or> pre = [newline]"
  shows "filter (\<lambda>s. s \<noteq> []) (map TrimSpace (splitOn (CHR '';'') (pre @ concat (map (\<lambda>s. s @ [CHR '';'', newline]) ss)))) = ss"
  using assms
proof (induction ss arbitrary: pre)
  case Nil
  then show ?case using TrimSpace_newline [of "[]"] by (auto simp: newline_def)
next
  case (Cons s ss)
  have nosep: "CHR '';'' \<notin> set (pre @ s)" using Cons.prems by (auto simp: newline_def)
  have trim: "TrimSpace (pre @ s) = s" using Cons.prems TrimSpace_newline by auto
  have "splitOn (CHR '';'') (pre @ concat (map (\<lambda>s. s @ [CHR '';'', newline]) (s # ss))) =
      (pre @ s) # splitOn (CHR '';'') ([newline] @ concat (map (\<lambda>s. s @ [CHR '';'', newline]) ss))"
    using splitOn_append [OF nosep, of "[newline] @ concat (map (\<lambda>s. s @ [CHR '';'', newline]) ss)"] by simp
  moreover have "list_all (\<lambda>s. s \<noteq> [] \<and> TrimSpace s = s \<and> CHR '';'' \<notin> set s) ss" "s \<noteq> []" using Cons.prems by auto
  ultimately show ?case using Cons.IH [of "[newline]"] trim by simp
qed

subsection \<open>Runs without failures\<close>

lemma mg_call_calm: "mg_script d = [] \<Longrightarrow> mg_call stmt d = (case stmt d of Inl e \<Rightarrow> (Inl e, d) | Inr (a, d1) \<Rightarrow> (Inr a, d1))"
  by (auto simp: mg_call_def mg_next_def Let_def split: sum.splits)

lemma apply_all_append: "apply_all exec (xs @ ys) sch = (case apply_all exec xs sch of Inl c \<Rightarrow> Inl c | Inr sch' \<Rightarrow> apply_all exec ys sch')"
  by (induction xs arbitrary: sch) (auto split: sum.splits)

lemma runWithoutTx_calm:
  "mg_script d = [] \<Longrightarrow> apply_all exec stmts (mg_schema d) = Inr sch \<Longrightarrow> runWithoutTx exec stmts d = (None, d\<lparr>mg_schema := sch\<rparr>)"
  by (induction stmts arbitrary: d) (auto simp: mg_call_calm sql_exec_def split: sum.splits)

lemma runFile_calm:
  "mg_script d = [] \<Longrightarrow> apply_all exec (splitStatements raw) (mg_schema d) = Inr sch \<Longrightarrow> runFile exec raw d = (None, d\<lparr>mg_schema := sch\<rparr>)"
  using runWithoutTx_calm [of d exec "splitStatements raw" sch] by (simp add: runFile_def runInTx_def mg_call_calm)

lemma statements_of_Cons: "statements_of ((v, Inr raw) # files) = splitStatements raw @ statements_of files"
  by (simp add: statements_of_def)

lemma runFiles_calm:
  assumes "mg_script d = []" and "mg_versions d = Some vs" and "list_all (\<lambda>(_, c). \<not> isl c) files" and "distinct (map fst files)"
    and "\<forall>f \<in> set files. fst f \<in> set applied \<longleftrightarrow> fst f \<in> set vs"
    and "apply_all exec (statements_of (filter (\<lambda>(v, _). v \<notin> set applied) files)) (mg_schema d) = Inr sch"
  shows "runFiles exec applied files d = (None, d\<lparr>mg_schema := sch, mg_versions := Some (vs @ map fst (filter (\<lambda>(v, _). v \<notin> set applied) files))\<rparr>)"
  using assms
proof (induction files arbitrary: d vs)
  case (Cons f files)
  obtain v c where f: "f = (v, c)" by fastforce
  show ?case
  proof (cases "v \<in> set applied")
    case True
    have "\<forall>f \<in> set files. fst f \<in> set applied \<longleftrightarrow> fst f \<in> set vs" using Cons.prems(5) by simp
    from Cons.IH [OF Cons.prems(1,2) _ _ this] Cons.prems(3,4,6) True f show ?thesis by simp
  next
    case False
    obtain raw where c: "c = Inr raw" using Cons.prems(3) f by (cases c) auto
    obtain sch1 where s1: "apply_all exec (splitStatements raw) (mg_schema d) = Inr sch1"
      and s2: "apply_all exec (statements_of (filter (\<lambda>(v, _). v \<notin> set applied) files)) sch1 = Inr sch"
      using Cons.prems(6) f c False by (auto simp: statements_of_Cons apply_all_append split: sum.splits)
    have v: "v \<notin> set vs" using Cons.prems(5) f False by auto
    let ?d = "d\<lparr>mg_schema := sch1, mg_versions := Some (vs @ [v])\<rparr>"
    have ins: "mg_call (sql_insert_version v) (d\<lparr>mg_schema := sch1\<rparr>) = (Inr (), ?d)"
      using Cons.prems(1,2) v by (simp add: mg_call_calm sql_insert_version_def)
    have "v \<notin> fst ` set files" using Cons.prems(4) f by simp
    then have "\<forall>f \<in> set files. fst f \<in> set applied \<longleftrightarrow> fst f \<in> set (vs @ [v])" using Cons.prems(5) by auto
    from Cons.IH [of ?d "vs @ [v]", OF _ _ _ _ this] Cons.prems(1,3,4) s2 f
    have "runFiles exec applied files ?d = (None, ?d\<lparr>mg_schema := sch, mg_versions := Some ((vs @ [v]) @ map fst (filter (\<lambda>(v, _). v \<notin> set applied) files))\<rparr>)"
      by simp
    with runFile_calm [OF Cons.prems(1) s1] ins False f c show ?thesis by simp
  qed
qed (auto simp: statements_of_def)

lemma migrationFiles_pending: "pending dir [] = migrationFiles dir"
  by (simp add: pending_def)

lemma migrationFiles_set: "set (migrationFiles dir) = {f \<in> set dir. HasSuffix (fst f) ''.sql''}"
  by (auto simp: migrationFiles_def)

lemma migrationFiles_sorted: "sorted (map fst (migrationFiles dir))"
  by (simp add: migrationFiles_def)

lemma migrationFiles_distinct: "distinct (map fst dir) \<Longrightarrow> distinct (map fst (migrationFiles dir))"
proof -
  assume "distinct (map fst dir)"
  then have "distinct (map fst (filter (\<lambda>(name, _). HasSuffix name ''.sql'') dir))" by (rule distinct_map_filter)
  then show ?thesis unfolding migrationFiles_def by (simp add: distinct_map)
qed

lemma versions_same: "mg_versions d = Some vs \<Longrightarrow> d\<lparr>mg_versions := Some vs\<rparr> = d"
  by (cases d) simp

lemma Run_calm:
  assumes "mg_script d = []"
  shows "Migrations_Run exec dir d = runFiles exec (mg_recorded d) (migrationFiles dir) (d\<lparr>mg_versions := Some (mg_recorded d)\<rparr>)"
proof -
  let ?d = "d\<lparr>mg_versions := Some (mg_recorded d)\<rparr>"
  have "ensureMigrationsTable d = (Inr (), ?d)" using assms
    by (cases d) (simp add: ensureMigrationsTable_def mg_call_calm sql_create_versions_def mg_recorded_def split: option.splits)
  moreover have "appliedVersions ?d = (Inr (mg_recorded d), ?d)" using assms by (simp add: appliedVersions_def mg_call_calm sql_select_versions_def)
  ultimately show ?thesis by (simp add: Migrations_Run_def)
qed

lemma Run_calm_pending:
  assumes "mg_script d = []" and "mg_recorded d = vs" and "distinct (map fst dir)" and "list_all (\<lambda>(_, c). \<not> isl c) dir"
    and "apply_all exec (statements_of (pending dir vs)) (mg_schema d) = Inr sch"
  shows "Migrations_Run exec dir d = (None, d\<lparr>mg_schema := sch, mg_versions := Some (vs @ map fst (pending dir vs))\<rparr>)"
proof -
  have "list_all (\<lambda>(_, c). \<not> isl c) (migrationFiles dir)" using assms(4) migrationFiles_set by (auto simp: list_all_iff)
  from runFiles_calm [OF _ _ this migrationFiles_distinct [OF assms(3)], of "d\<lparr>mg_versions := Some vs\<rparr>" vs vs exec sch] assms(1,5)
  show ?thesis by (simp add: Run_calm [OF assms(1)] assms(2) pending_def)
qed

subsection \<open>Runs with failures\<close>

text \<open>A transaction applies all its statements or none.\<close>

lemma runWithoutTx_ok: "runWithoutTx exec stmts d = (None, d') \<Longrightarrow> apply_all exec stmts (mg_schema d) = Inr (mg_schema d')"
proof (induction stmts arbitrary: d)
  case (Cons stmt stmts)
  obtain d1 where c: "mg_call (sql_exec exec stmt) d = (Inr (), d1)" and r: "runWithoutTx exec stmts d1 = (None, d')"
    using Cons.prems by (auto split: prod.splits sum.splits)
  have "exec stmt (mg_schema d) = Inr (mg_schema d1)"
    using c by (auto simp: mg_call_def mg_next_def sql_exec_def Let_def split: list.splits option.splits mig_fault.splits sum.splits)
  with Cons.IH [OF r] show ?case by simp
qed simp

lemma mg_call_schema:
  assumes "mg_call stmt d = (r, d')" and "\<And>d a d1. stmt d = Inr (a, d1) \<Longrightarrow> mg_schema d1 = f (mg_schema d)"
  shows "mg_schema d' = mg_schema d \<or> mg_schema d' = f (mg_schema d)" and "\<not> isl r \<Longrightarrow> mg_schema d' = f (mg_schema d)"
  using assms by (auto simp: mg_call_def mg_next_def Let_def split: list.splits option.splits mig_fault.splits sum.splits)

lemma runInTx_atomic:
  assumes "runInTx exec stmts d = (r, d')"
  shows "mg_schema d' = mg_schema d \<or> apply_all exec stmts (mg_schema d) = Inr (mg_schema d')"
proof -
  obtain x d1 where b: "mg_call (\<lambda>d. Inr ((), d)) d = (x, d1)" by fastforce
  have s1: "mg_schema d1 = mg_schema d" using mg_call_schema(1) [OF b, of id] by auto
  show ?thesis
  proof (cases x)
    case (Inr u)
    obtain e d2 where w: "runWithoutTx exec stmts d1 = (e, d2)" by fastforce
    show ?thesis
    proof (cases e)
      case None
      obtain y d3 where c: "mg_call (\<lambda>d. Inr ((), d\<lparr>mg_schema := mg_schema d2\<rparr>)) (d2\<lparr>mg_schema := mg_schema d1\<rparr>) = (y, d3)" by fastforce
      have "mg_schema d3 = mg_schema d1 \<or> mg_schema d3 = mg_schema d2" using mg_call_schema(1) [OF c, of "\<lambda>_. mg_schema d2"] by auto
      moreover have "d' = d3" using assms b w c Inr None by (auto simp: runInTx_def split: sum.splits)
      moreover have "apply_all exec stmts (mg_schema d1) = Inr (mg_schema d2)" using runWithoutTx_ok w None by blast
      ultimately show ?thesis using s1 by auto
    qed (use assms b w Inr s1 in \<open>auto simp: runInTx_def\<close>)
  qed (use assms b s1 in \<open>auto simp: runInTx_def\<close>)
qed

lemma mg_call_insert_schema: "mg_call (sql_insert_version v) d = (r, d') \<Longrightarrow> mg_schema d' = mg_schema d"
proof -
  assume c: "mg_call (sql_insert_version v) d = (r, d')"
  have "sql_insert_version v d0 = Inr (a, d1) \<Longrightarrow> mg_schema d1 = id (mg_schema d0)" for d0 :: "'a migdb" and a d1
    by (auto simp: sql_insert_version_def split: option.splits if_splits)
  from mg_call_schema(1) [OF c, where f = id, OF this] show ?thesis by simp
qed

lemma mg_call_versions:
  "mg_call stmt d = (r, d') \<Longrightarrow> (\<And>d a d1. stmt d = Inr (a, d1) \<Longrightarrow> mg_versions d1 = mg_versions d) \<Longrightarrow> mg_versions d' = mg_versions d"
  by (auto simp: mg_call_def mg_next_def Let_def split: list.splits option.splits mig_fault.splits sum.splits)

lemma sql_exec_versions: "sql_exec exec stmt d = Inr (a, d1) \<Longrightarrow> mg_versions d1 = mg_versions d"
  by (auto simp: sql_exec_def split: sum.splits)

text \<open>Statements run one by one leave the effect of some of them from the start.\<close>

lemma runWithoutTx_prefix:
  "runWithoutTx exec stmts d = (r, d') \<Longrightarrow> mg_versions d' = mg_versions d \<and>
     (\<exists>ss. prefix ss stmts \<and> apply_all exec ss (mg_schema d) = Inr (mg_schema d') \<and> (r = None \<longrightarrow> ss = stmts))"
proof (induction stmts arbitrary: d)
  case (Cons stmt stmts)
  obtain x d1 where c: "mg_call (sql_exec exec stmt) d = (x, d1)" by fastforce
  have v: "mg_versions d1 = mg_versions d" using mg_call_versions [OF c sql_exec_versions] by simp
  have s: "mg_schema d1 = mg_schema d \<or> exec stmt (mg_schema d) = Inr (mg_schema d1)" "\<not> isl x \<Longrightarrow> exec stmt (mg_schema d) = Inr (mg_schema d1)"
    using c by (auto simp: mg_call_def mg_next_def sql_exec_def Let_def split: list.splits option.splits mig_fault.splits sum.splits)
  show ?case
  proof (cases x)
    case (Inl e)
    with Cons.prems c have "r \<noteq> None" "d' = d1" by auto
    with v s(1) show ?thesis by (auto intro: exI [of _ "[]"] exI [of _ "[stmt]"])
  next
    case (Inr u)
    with Cons.prems c have "runWithoutTx exec stmts d1 = (r, d')" by simp
    from Cons.IH [OF this] v s(2) Inr obtain ss where "mg_versions d' = mg_versions d" "prefix ss stmts"
      "apply_all exec ss (mg_schema d1) = Inr (mg_schema d')" "r = None \<longrightarrow> ss = stmts" by auto
    with s(2) Inr show ?thesis by (intro conjI exI [of _ "stmt # ss"]) auto
  qed
qed (auto intro: exI [of _ "[]"])

lemma runInTx_ok:
  assumes "runInTx exec stmts d = (r, d')"
  shows "mg_versions d' = mg_versions d \<and> (r = None \<longrightarrow> apply_all exec stmts (mg_schema d) = Inr (mg_schema d'))"
proof -
  obtain x d1 where b: "mg_call (\<lambda>d. Inr ((), d)) d = (x, d1)" by fastforce
  obtain e d2 where w: "runWithoutTx exec stmts d1 = (e, d2)" by fastforce
  obtain y d3 where c: "mg_call (\<lambda>d. Inr ((), d\<lparr>mg_schema := mg_schema d2\<rparr>)) (d2\<lparr>mg_schema := mg_schema d1\<rparr>) = (y, d3)" by fastforce
  have s1: "mg_schema d1 = mg_schema d" using mg_call_schema(1) [OF b, of id] by auto
  have v1: "mg_versions d1 = mg_versions d" using mg_call_versions [OF b] by auto
  have v2: "mg_versions d2 = mg_versions d1" using runWithoutTx_prefix [OF w] by simp
  have v3: "mg_versions d3 = mg_versions d2" using mg_call_versions [OF c] by auto
  have s3: "\<not> isl y \<Longrightarrow> mg_schema d3 = mg_schema d2" using mg_call_schema(2) [OF c, of "\<lambda>_. mg_schema d2"] by auto
  show ?thesis
    using assms b w c s1 v1 v2 v3 s3 runWithoutTx_ok [of exec stmts d1 d2]
    by (auto simp: runInTx_def split: sum.splits option.splits)
qed

lemma runFile_contributes:
  assumes "runFile exec raw d = (r, d')"
  shows "mg_versions d' = mg_versions d \<and>
    (\<exists>ss. contributes (Inr raw) ss \<and> apply_all exec ss (mg_schema d) = Inr (mg_schema d') \<and> (r = None \<longrightarrow> ss = splitStatements raw))"
proof (cases "isNoTx raw")
  case True
  with assms runWithoutTx_prefix [of exec "splitStatements raw" d r d'] show ?thesis by (auto simp: runFile_def contributes_def)
next
  case False
  with assms have tx: "runInTx exec (splitStatements raw) d = (r, d')" by (simp add: runFile_def)
  with False runInTx_ok [OF tx] runInTx_atomic [OF tx] show ?thesis
    by (cases r) (auto simp: contributes_def intro: exI [of _ "[]"])
qed

text \<open>The same for the loop over the files: what each contributed, and which it recorded. \<open>ran\<close> is that relation for
  the files not yet recorded.\<close>

definition ran :: "'sch exec \<Rightarrow> directory \<Rightarrow> string list list \<Rightarrow> string list \<Rightarrow> 'sch \<Rightarrow> 'sch \<Rightarrow> bool" where
  "ran exec files parts new sch sch' \<longleftrightarrow> list_all2 (\<lambda>(_, content) ss. contributes content ss) files parts \<and>
     apply_all exec (concat parts) sch = Inr sch' \<and>
     (\<forall>v \<in> set new. \<exists>raw. ((v, Inr raw), splitStatements raw) \<in> set (zip files parts))"

lemma contributes_nothing: "contributes content []"
  by (auto simp: contributes_def split: sum.splits)

lemma ran_nothing: "ran exec files (map (\<lambda>_. []) files) [] sch sch"
proof -
  have none: "concat (map (\<lambda>_. []) files) = []" by (induction files) simp_all
  show ?thesis unfolding ran_def none by (auto simp: list_all2_conv_all_nth contributes_nothing split: prod.splits)
qed

lemma ran_Cons:
  assumes "contributes content ss" and "apply_all exec ss sch = Inr sch1" and "ran exec files parts new sch1 sch'"
    and "set new' \<subseteq> insert v (set new)" and "v \<in> set new' \<Longrightarrow> v \<notin> set new \<Longrightarrow> \<exists>raw. content = Inr raw \<and> ss = splitStatements raw"
  shows "ran exec ((v, content) # files) (ss # parts) new' sch sch'"
  using assms unfolding ran_def by (auto simp: apply_all_append) blast+

lemma mg_call_insert:
  assumes "mg_call (sql_insert_version v) d = (r, d')" and "mg_versions d = Some vs"
  shows "mg_schema d' = mg_schema d \<and> (mg_versions d' = Some vs \<or> mg_versions d' = Some (vs @ [v]))"
  using assms
  by (auto simp: mg_call_def mg_next_def sql_insert_version_def Let_def split: list.splits option.splits mig_fault.splits sum.splits if_splits)

lemma runFiles_ran:
  assumes "runFiles exec applied files d = (r, d')" and "mg_versions d = Some vs"
  shows "\<exists>parts new. ran exec (filter (\<lambda>(v, _). v \<notin> set applied) files) parts new (mg_schema d) (mg_schema d') \<and> mg_versions d' = Some (vs @ new)"
  using assms
proof (induction files arbitrary: d vs)
  case Nil
  then show ?case using ran_nothing [of exec "[]"] by auto
next
  case (Cons f files)
  let ?rest = "filter (\<lambda>(v, _). v \<notin> set applied) files"
  obtain v content where f: "f = (v, content)" by fastforce
  show ?case
  proof (cases "v \<in> set applied")
    case True
    with Cons f show ?thesis by simp
  next
    case False
    have files: "filter (\<lambda>(v, _). v \<notin> set applied) (f # files) = (v, content) # ?rest" using False f by simp
    show ?thesis
    proof (cases content)
      case (Inl e)
      then have "d' = d" using Cons.prems(1) False f by simp
      with Cons.prems(2) ran_nothing [of exec "(v, content) # ?rest" "mg_schema d"] show ?thesis unfolding files by auto
    next
      case (Inr raw)
      obtain e d1 where rf: "runFile exec raw d = (e, d1)" by fastforce
      obtain ss where ss: "contributes content ss" "apply_all exec ss (mg_schema d) = Inr (mg_schema d1)" "e = None \<longrightarrow> ss = splitStatements raw"
        and v1: "mg_versions d1 = Some vs" using runFile_contributes [OF rf] Cons.prems(2) Inr by auto
      obtain x d2 where ins: "mg_call (sql_insert_version v) d1 = (x, d2)" by fastforce
      note i = mg_call_insert [OF ins v1]
      obtain d0 w where d0: "runFiles exec applied files d0 = (r, d') \<or> d' = d0" "mg_schema d0 = mg_schema d1" "mg_versions d0 = Some (vs @ w)"
        "w = [] \<or> w = [v] \<and> e = None"
      proof (cases e)
        case (Some err)
        then have "runFiles exec applied files d1 = (r, d') \<or> d' = d1" using Cons.prems(1) f False Inr rf by (auto split: if_splits)
        with v1 that [of d1 "[]"] show thesis by simp
      next
        case None
        then have "runFiles exec applied files d2 = (r, d') \<or> d' = d2" using Cons.prems(1) f False Inr rf ins by (cases x) (auto split: if_splits)
        with i None that [of d2 "[]"] that [of d2 "[v]"] show thesis by auto
      qed
      obtain parts new where rest: "ran exec ?rest parts new (mg_schema d1) (mg_schema d')" "mg_versions d' = Some ((vs @ w) @ new)"
        using d0 Cons.IH [of d0 "vs @ w"] ran_nothing [of exec ?rest "mg_schema d1"] by fastforce
      have "ran exec ((v, content) # ?rest) (ss # parts) (w @ new) (mg_schema d) (mg_schema d')"
        by (rule ran_Cons [OF ss(1,2) rest(1)]) (use d0(4) ss(3) Inr in auto)
      with rest(2) show ?thesis unfolding files by auto
    qed
  qed
qed

lemma Run_ran:
  assumes "Migrations_Run exec dir d = (r, d')"
  shows "\<exists>parts new. ran exec (pending dir (mg_recorded d)) parts new (mg_schema d) (mg_schema d') \<and> mg_recorded d' = mg_recorded d @ new"
proof -
  obtain x d1 where e: "ensureMigrationsTable d = (x, d1)" by fastforce
  obtain y d2 where a: "appliedVersions d1 = (y, d2)" by fastforce
  have 1: "mg_schema d1 = mg_schema d" "mg_recorded d1 = mg_recorded d"
    using e by (auto simp: ensureMigrationsTable_def mg_call_def mg_next_def sql_create_versions_def mg_recorded_def Let_def
        split: list.splits option.splits mig_fault.splits sum.splits if_splits)
  have 2: "mg_schema d2 = mg_schema d1" "mg_versions d2 = mg_versions d1" "y = Inr vs \<Longrightarrow> mg_versions d2 = Some vs" for vs
    using a by (auto simp: appliedVersions_def mg_call_def mg_next_def sql_select_versions_def Let_def
        split: list.splits option.splits mig_fault.splits sum.splits)
  have same: "mg_recorded d2 = mg_recorded d" using 1 2 by (simp add: mg_recorded_def)
  have "d' = d1 \<or> d' = d2 \<or> (\<exists>vs. y = Inr vs \<and> runFiles exec vs (migrationFiles dir) d2 = (r, d'))"
    using assms e a by (auto simp: Migrations_Run_def split: if_splits sum.splits)
  then show ?thesis
  proof (elim disjE exE conjE)
    fix vs assume y: "y = Inr vs" and run: "runFiles exec vs (migrationFiles dir) d2 = (r, d')"
    have "mg_recorded d = vs" using 2(3) [OF y] same by (simp add: mg_recorded_def)
    with runFiles_ran [OF run 2(3) [OF y]] show ?thesis using 1 2 by (auto simp: pending_def mg_recorded_def)
  qed (use 1 2 same ran_nothing [of exec "pending dir (mg_recorded d)" "mg_schema d"] in auto)
qed

section \<open>Properties\<close>

text \<open>C34: a start that meets no failure brings the schema up to date, the first one, which creates the tracking table, included: the statements of exactly the files not yet recorded are
  executed, once each and in the order of the file names, every such file is recorded, and the next start changes
  nothing.
\<close>

theorem run_brings_up_to_date:
  assumes "mg_script d = []" and "mg_recorded d = vs" and "distinct (map fst dir)" and "list_all (\<lambda>(_, c). \<not> isl c) dir"
    and "apply_all exec (statements_of (pending dir vs)) (mg_schema d) = Inr sch"
  shows "\<exists>d'. Migrations_Run exec dir d = (None, d') \<and> mg_schema d' = sch \<and> mg_versions d' = Some (vs @ map fst (pending dir vs)) \<and>
    sorted (map fst (pending dir vs)) \<and> Migrations_Run exec dir d' = (None, d')"
proof -
  let ?d = "d\<lparr>mg_schema := sch, mg_versions := Some (vs @ map fst (pending dir vs))\<rparr>"
  have run: "Migrations_Run exec dir d = (None, ?d)" by (rule Run_calm_pending [OF assms])
  have none: "pending dir (vs @ map fst (pending dir vs)) = []"
    by (auto simp: pending_def filter_empty_conv image_iff)
  have script: "mg_script ?d = []" and versions: "mg_recorded ?d = vs @ map fst (pending dir vs)" using assms(1) by (simp_all add: mg_recorded_def)
  have "apply_all exec (statements_of (pending dir (vs @ map fst (pending dir vs)))) (mg_schema ?d) = Inr sch"
    by (simp add: none statements_of_def)
  from Run_calm_pending [OF script versions assms(3,4) this] have "Migrations_Run exec dir ?d = (None, ?d)" by (simp add: none)
  moreover have "sorted (map fst (pending dir vs))"
    using migrationFiles_sorted [of dir] by (auto simp: pending_def sorted_map sorted_wrt_filter)
  ultimately show ?thesis using run by auto
qed

text \<open>A schema for witnesses: the objects created, each only once.\<close>

definition create_once :: "string list exec" where
  "create_once stmt sch = (if stmt \<in> set sch then Inl ''42P07'' else Inr (sch @ [stmt]))"

definition emptyMigdb :: "mig_fault option list \<Rightarrow> string list migdb" where
  "emptyMigdb script = \<lparr>mg_script = script, mg_schema = [], mg_versions = Some []\<rparr>"

lemma twoFiles: "splitStatements ''A;B;'' = [''A'', ''B'']" "splitStatements ''C'' = [''C'']"
  by code_simp+

theorem run_brings_up_to_date_witness:
  "\<exists>d'. Migrations_Run create_once [(''2.sql'', Inr ''C''), (''1.sql'', Inr ''A;B;'')] (emptyMigdb []) = (None, d') \<and> mg_schema d' = [''A'', ''B'', ''C''] \<and>
     mg_versions d' = Some [''1.sql'', ''2.sql'']"
proof -
  let ?dir = "[(''2.sql'', Inr ''C''), (''1.sql'', Inr ''A;B;'')] :: directory"
  have files: "pending ?dir [] = [(''1.sql'', Inr ''A;B;''), (''2.sql'', Inr ''C'')]"
    by code_simp
  have "apply_all create_once (statements_of (pending ?dir [])) (mg_schema (emptyMigdb [])) = Inr [''A'', ''B'', ''C'']"
    by (simp add: files statements_of_def twoFiles create_once_def emptyMigdb_def)
  from run_brings_up_to_date [of "emptyMigdb []" "[]" ?dir, OF _ _ _ _ this] show ?thesis
    by (auto simp: files emptyMigdb_def mg_recorded_def)
qed

text \<open>C35: whatever call fails and whatever it answers, a run changes the schema by the files that were not recorded when it began and
  by nothing else, in the order of their names: a file that is run in a transaction contributes all of its statements or none, one that
  asks to be run outside a transaction some of them from the start, one that cannot be read nothing. And the versions recorded
  are those recorded before and, after them, only ones whose file contributed all its statements.
\<close>

theorem tx_migrations_atomic:
  assumes "Migrations_Run exec dir d = (r, d')"
  shows "\<exists>parts new. list_all2 (\<lambda>(_, content) ss. case content of
          Inl _ \<Rightarrow> ss = []
        | Inr raw \<Rightarrow> if isNoTx raw then prefix ss (splitStatements raw) else ss = [] \<or> ss = splitStatements raw) (pending dir (mg_recorded d)) parts \<and>
    apply_all exec (concat parts) (mg_schema d) = Inr (mg_schema d') \<and> mg_recorded d' = mg_recorded d @ new \<and>
    (\<forall>v \<in> set new. \<exists>raw. ((v, Inr raw), splitStatements raw) \<in> set (zip (pending dir (mg_recorded d)) parts))"
  using Run_ran [OF assms] unfolding ran_def contributes_def by blast

text \<open>
  A file that runs outside a transaction and is cut off after its first statement is never finished. The next start
  executes that statement again, is told that its object exists, takes this for another process having applied the file,
  and reports success; the other statements are not executed then or at any later start, and the file is not recorded.
\<close>

theorem interrupted_no_tx_skipped:
  assumes "mg_script d = [None, None, None, Some (Before (MigIO e))]" and "mg_versions d = Some vs" and "v \<notin> set vs" and "HasSuffix v ''.sql''"
    and "isNoTx raw" and "splitStatements raw = s1 # s2 # stmts" and "exec s1 (mg_schema d) = Inr sch" and "exec s1 sch = Inl c" and "c \<in> raceOK"
  shows "\<exists>d'. Migrations_Run exec [(v, Inr raw)] d = (Some (Applying v (MigIO e)), d') \<and> mg_schema d' = sch \<and>
    Migrations_Run exec [(v, Inr raw)] d' = (None, d') \<and> mg_versions d' = Some vs"
proof -
  let ?d = "d\<lparr>mg_script := [], mg_schema := sch\<rparr>"
  have files: "migrationFiles [(v, Inr raw)] = [(v, Inr raw)]" using assms(4) by (simp add: migrationFiles_def)
  have first: "Migrations_Run exec [(v, Inr raw)] d = (Some (Applying v (MigIO e)), ?d)"
    using assms(1-3,5-7)
    by (simp add: Migrations_Run_def ensureMigrationsTable_def appliedVersions_def mg_call_def mg_next_def Let_def sql_create_versions_def
        sql_select_versions_def files runFile_def sql_exec_def isConcurrentApplyRace_def)
  have "runFile exec raw ?d = (Some (SqlState c), ?d)"
    using assms(5,6,8) by (simp add: runFile_def mg_call_calm sql_exec_def)
  then have "runFiles exec vs [(v, Inr raw)] ?d = (None, ?d)" using assms(3,9) by (simp add: isConcurrentApplyRace_def)
  moreover have "Migrations_Run exec [(v, Inr raw)] ?d = runFiles exec vs [(v, Inr raw)] ?d"
    using Run_calm [of ?d exec "[(v, Inr raw)]"] assms(2) files versions_same [of ?d vs] by (simp add: mg_recorded_def)
  ultimately show ?thesis using first assms(2) by auto
qed

definition noTxFile :: string where
  "noTxFile = ''-- no-transaction'' @ [newline] @ ''A;B;''"

lemma noTxFile_text: "isNoTx noTxFile" "splitStatements noTxFile = [''A'', ''B'']" "\<not> isNoTx ''A;B;''" "\<not> isNoTx ''C''"
  by code_simp+

theorem interrupted_no_tx_skipped_witness:
  "\<exists>d'. Migrations_Run create_once [(''3.sql'', Inr noTxFile)] (emptyMigdb [None, None, None, Some (Before (MigIO ''eof''))]) =
       (Some (Applying ''3.sql'' (MigIO ''eof'')), d') \<and> mg_schema d' = [''A''] \<and>
     Migrations_Run create_once [(''3.sql'', Inr noTxFile)] d' = (None, d') \<and> mg_versions d' = Some []"
  using interrupted_no_tx_skipped [of "emptyMigdb [None, None, None, Some (Before (MigIO ''eof''))]" "''eof''" "[]" "''3.sql''" noTxFile
      "''A''" "''B''" "[]" create_once "[''A'']" "''42P07''"]
  by (simp add: emptyMigdb_def HasSuffix_def noTxFile_text create_once_def raceOK_def)

theorem tx_migrations_atomic_witness:
  "\<exists>r d' parts. Migrations_Run create_once [(''2.sql'', Inr noTxFile), (''1.sql'', Inr ''A;B;'')] (emptyMigdb [None, None, None, None, Some (Before (MigIO ''eof''))]) = (r, d') \<and>
     length parts = 2 \<and> parts ! 0 \<in> {[], [''A'', ''B'']} \<and> apply_all create_once (concat parts) [] = Inr (mg_schema d')"
proof -
  let ?dir = "[(''2.sql'', Inr noTxFile), (''1.sql'', Inr ''A;B;'')] :: directory" and ?d = "emptyMigdb [None, None, None, None, Some (Before (MigIO ''eof''))]"
  obtain r d' where run: "Migrations_Run create_once ?dir ?d = (r, d')" by fastforce
  have files: "pending ?dir (mg_recorded ?d) = [(''1.sql'', Inr ''A;B;''), (''2.sql'', Inr noTxFile)]" by code_simp
  obtain parts where "list_all2 (\<lambda>(_, content) ss. case content of
          Inl _ \<Rightarrow> ss = []
        | Inr raw \<Rightarrow> if isNoTx raw then prefix ss (splitStatements raw) else ss = [] \<or> ss = splitStatements raw)
      ([(''1.sql'', Inr ''A;B;''), (''2.sql'', Inr noTxFile)] :: directory) parts" "apply_all create_once (concat parts) (mg_schema ?d) = Inr (mg_schema d')"
    using tx_migrations_atomic [OF run, unfolded files] by (elim exE conjE) (rule that, assumption+)
  with run show ?thesis by (auto simp: emptyMigdb_def list_all2_Cons1 noTxFile_text twoFiles intro!: exI [of _ r] exI [of _ d'] exI [of _ parts])
qed

text \<open>Splitting a file gives back the statements it was written from: comment lines disappear, and every statement that is
  trimmed, has no semicolon of its own and has no line that looks like a comment comes back as it is, in order.
\<close>

theorem split_file_text:
  assumes "list_all item_ok items"
  shows "splitStatements (file_text items) = file_statements items"
proof -
  have "list_all (\<lambda>s. s \<noteq> [] \<and> TrimSpace s = s \<and> CHR '';'' \<notin> set s) (file_statements items)"
    using assms by (auto simp: file_statements_def list_all_iff split: sql_item.splits)
  from split_semicolons [OF this, of "[]"] show ?thesis
    by (simp add: splitStatements_def Let_def statement_lines [OF assms] joinWith_splitOn)
qed

theorem split_file_text_witness:
  "splitStatements (file_text [Comment '' users; one row each'', Statement ''CREATE TABLE users (id uuid)'', Statement ''SELECT 1'']) =
     [''CREATE TABLE users (id uuid)'', ''SELECT 1'']"
proof -
  have "list_all item_ok [Comment '' users; one row each'', Statement ''CREATE TABLE users (id uuid)'', Statement ''SELECT 1'']" by code_simp
  from split_file_text [OF this] show ?thesis by (simp add: file_statements_def)
qed

text \<open>The comment says the first line has to be exactly the marker; any text that starts with it counts.\<close>

lemma marker_is_a_prefix: "isNoTx ''-- no-transactional tables are touched here''"
  by code_simp

end
