(* ===== verification/Bootstrap.thy ===== *)
theory Bootstrap
  imports Claim Telemetry
begin

text \<open>
  What \<^verbatim>\<open>cmd/control\<close> sets up at the broker when it starts: \<^verbatim>\<open>connectDynsec\<close> and
  \<^verbatim>\<open>attemptDynsecBootstrap\<close> in \<^verbatim>\<open>main.go\<close>, with the access lists of the three roles.

  How the broker matches a topic against a filter is its own affair: the parameter \<open>matches\<close> of the locale
  \<open>topic_filters\<close>, which states what MQTT says of filters without wildcards and with one level of any name.
\<close>

section \<open>Roles\<close>

definition bridgeRoleName :: string where "bridgeRoleName = ''bridge''"
definition controlRoleName :: string where "controlRoleName = ''control''"

definition device_acls :: "ACL list" where
  "device_acls =
     [\<lparr>acl_ACLType = ''publishClientSend'', acl_Topic = ''sensegrid/v1/%c/telemetry'', acl_Priority = - 1, acl_Allow = True\<rparr>,
      \<lparr>acl_ACLType = ''publishClientSend'', acl_Topic = ''sensegrid/v1/%c/state'', acl_Priority = - 1, acl_Allow = True\<rparr>,
      \<lparr>acl_ACLType = ''subscribePattern'', acl_Topic = ''sensegrid/v1/%c/config'', acl_Priority = - 1, acl_Allow = True\<rparr>,
      \<lparr>acl_ACLType = ''publishClientReceive'', acl_Topic = ''sensegrid/v1/%c/config'', acl_Priority = - 1, acl_Allow = True\<rparr>]"

definition bridge_acls :: "ACL list" where
  "bridge_acls =
     [\<lparr>acl_ACLType = ''subscribeLiteral'', acl_Topic = ''sensegrid/v1/+/telemetry'', acl_Priority = - 1, acl_Allow = True\<rparr>,
      \<lparr>acl_ACLType = ''publishClientReceive'', acl_Topic = ''sensegrid/v1/+/telemetry'', acl_Priority = - 1, acl_Allow = True\<rparr>]"

definition control_acls :: "ACL list" where
  "control_acls =
     [\<lparr>acl_ACLType = ''publishClientSend'', acl_Topic = ''sensegrid/v1/+/config'', acl_Priority = - 1, acl_Allow = True\<rparr>,
      \<lparr>acl_ACLType = ''subscribeLiteral'', acl_Topic = ''sensegrid/v1/+/state'', acl_Priority = - 1, acl_Allow = True\<rparr>,
      \<lparr>acl_ACLType = ''publishClientReceive'', acl_Topic = ''sensegrid/v1/+/state'', acl_Priority = - 1, acl_Allow = True\<rparr>]"

section \<open>Connecting\<close>

text \<open>What a token of the MQTT library comes to within the time the code waits for it, and the errors of the code that waits.\<close>

datatype token_result = TokenDone | TokenTimeout | TokenFailed io_error

datatype connect_error =
    CALoad io_error
  | ConnectTimeout
  | ConnectFailed io_error
  | SubscribeTimeout
  | SubscribeFailed io_error

definition awaited :: "connect_error \<Rightarrow> (io_error \<Rightarrow> connect_error) \<Rightarrow> token_result \<Rightarrow> connect_error option" where
  "awaited timeout failed tok = (case tok of TokenDone \<Rightarrow> None | TokenTimeout \<Rightarrow> Some timeout | TokenFailed e \<Rightarrow> Some (failed e))"

text \<open>\<^verbatim>\<open>dynsec.Connect\<close>: the client counts only once its subscription to the responses is confirmed. \<open>fromCAFile\<close> is the
  loading of the CA file, \<open>net\<close> the connection and the subscription on the other side.\<close>

definition dynsec_Connect :: "(string \<Rightarrow> io_error option) \<Rightarrow> string \<Rightarrow> ('b \<Rightarrow> token_result \<times> token_result \<times> 'b) \<Rightarrow> 'b
    \<Rightarrow> connect_error option \<times> 'b" where
  "dynsec_Connect fromCAFile caFile net b =
     (case (if caFile \<noteq> [] then fromCAFile caFile else None) of
        Some e \<Rightarrow> (Some (CALoad e), b)
      | None \<Rightarrow>
          (case net b of
             (conn, sub, b1) \<Rightarrow>
               (case awaited ConnectTimeout ConnectFailed conn of
                  Some e \<Rightarrow> (Some e, b1)
                | None \<Rightarrow> (awaited SubscribeTimeout SubscribeFailed sub, b1))))"

section \<open>Bootstrap\<close>

record dynsec_cfg =
  cf_AdminUser :: string
  cf_AdminPass :: string
  cf_BridgeUser :: string
  cf_BridgePass :: string
  cf_ControlUser :: string
  cf_ControlPass :: string

text \<open>An attempt: \<open>connect\<close> is \<^verbatim>\<open>dynsec.Connect\<close>, \<open>ids\<close> gives the correlation ids of its commands. The result is the
  client, if there is one.\<close>

definition attemptDynsecBootstrap :: "dynsec_cfg \<Rightarrow> (nat \<Rightarrow> string) \<Rightarrow> (json \<Rightarrow> 'b \<Rightarrow> exchange \<times> 'b) \<Rightarrow> ('b \<Rightarrow> 'e option \<times> 'b) \<Rightarrow> 'b
    \<Rightarrow> dynsecClient option \<times> 'b" where
  "attemptDynsecBootstrap cfg ids broker connect b =
     (case connect b of
        (Some e, b1) \<Rightarrow> (None, b1)
      | (None, b1) \<Rightarrow>
          (case EnsureRole (ids 0) deviceRoleName ''SenseGrid provisioned device'' device_acls broker \<lparr>dc_pending = (\<lambda>_. False), dc_chans = (\<lambda>_. None)\<rparr> b1 of
             (Some e, _, b2) \<Rightarrow> (None, b2)
           | (None, c, b2) \<Rightarrow>
               if cf_BridgeUser cfg = [] \<or> cf_BridgePass cfg = [] then (Some c, b2)
               else (case EnsureRole (ids 1) bridgeRoleName ''SenseGrid ingest bridge'' bridge_acls broker c b2 of
                 (Some e, c, b3) \<Rightarrow> (Some c, b3)
               | (None, c, b3) \<Rightarrow>
               (case CreateClient (ids 2) (cf_BridgeUser cfg) (cf_BridgePass cfg) ''ingest bridge service account'' bridgeRoleName broker c b3 of
                 (Some e, c, b4) \<Rightarrow> (Some c, b4)
               | (None, c, b4) \<Rightarrow>
               if cf_ControlUser cfg = [] \<or> cf_ControlPass cfg = [] then (Some c, b4)
               else (case EnsureRole (ids 3) controlRoleName ''SenseGrid control plane'' control_acls broker c b4 of
                 (Some e, c, b5) \<Rightarrow> (Some c, b5)
               | (None, c, b5) \<Rightarrow>
               (case CreateClient (ids 4) (cf_ControlUser cfg) (cf_ControlPass cfg) ''control plane service account'' controlRoleName broker c b5 of
                 (_, c, b6) \<Rightarrow> (Some c, b6)))))))"

definition maxAttempts :: nat where "maxAttempts = 3"

text \<open>The attempts that are left, counted from \<open>attempt\<close>; \<open>cancelled n\<close> says that the context ends during the wait after
  the \<open>n\<close>-th.\<close>

fun bootstrapAttempts :: "nat \<Rightarrow> nat \<Rightarrow> dynsec_cfg \<Rightarrow> (nat \<Rightarrow> nat \<Rightarrow> string) \<Rightarrow> (nat \<Rightarrow> bool) \<Rightarrow> (json \<Rightarrow> 'b \<Rightarrow> exchange \<times> 'b)
    \<Rightarrow> ('b \<Rightarrow> 'e option \<times> 'b) \<Rightarrow> 'b \<Rightarrow> dynsecClient option \<times> 'b" where
  "bootstrapAttempts 0 attempt cfg ids cancelled broker connect b = (None, b)"
| "bootstrapAttempts (Suc left) attempt cfg ids cancelled broker connect b =
     (case attemptDynsecBootstrap cfg (ids attempt) broker connect b of
        (Some c, b1) \<Rightarrow> (Some c, b1)
      | (None, b1) \<Rightarrow>
          if left = 0 \<or> cancelled attempt then (None, b1)
          else bootstrapAttempts left (Suc attempt) cfg ids cancelled broker connect b1)"

definition connectDynsec :: "dynsec_cfg \<Rightarrow> (nat \<Rightarrow> nat \<Rightarrow> string) \<Rightarrow> (nat \<Rightarrow> bool) \<Rightarrow> (json \<Rightarrow> 'b \<Rightarrow> exchange \<times> 'b)
    \<Rightarrow> ('b \<Rightarrow> 'e option \<times> 'b) \<Rightarrow> 'b \<Rightarrow> dynsecClient option \<times> 'b" where
  "connectDynsec cfg ids cancelled broker connect b =
     (if cf_AdminUser cfg = [] \<or> cf_AdminPass cfg = [] then (None, b)
      else bootstrapAttempts maxAttempts 1 cfg ids cancelled broker connect b)"

section \<open>What the access lists permit\<close>

text \<open>The broker puts the client id for \<^verbatim>\<open>%c\<close>. A role permits an action on a topic if an entry of its kind allows it;
  a literal entry is about exactly the filter it names. All entries here have the same priority and allow.\<close>

fun subst_c :: "string \<Rightarrow> string \<Rightarrow> string" where
  "subst_c cid (a # b # s) = (if a = CHR ''%'' \<and> b = CHR ''c'' then cid @ subst_c cid s else a # subst_c cid (b # s))"
| "subst_c cid s = s"

definition permits :: "(string \<Rightarrow> string \<Rightarrow> bool) \<Rightarrow> ACL list \<Rightarrow> string \<Rightarrow> string \<Rightarrow> string \<Rightarrow> bool" where
  "permits matches acls typ cid topic \<longleftrightarrow>
     (\<exists>a \<in> set acls. acl_ACLType a = typ \<and> acl_Allow a \<and>
        (if typ = ''subscribeLiteral'' then subst_c cid (acl_Topic a) = topic else matches (subst_c cid (acl_Topic a)) topic))"

definition plain_filter :: "string \<Rightarrow> bool" where
  "plain_filter f \<longleftrightarrow> CHR ''+'' \<notin> set f \<and> CHR ''#'' \<notin> set f"

locale topic_filters =
  fixes matches :: "string \<Rightarrow> string \<Rightarrow> bool"
  assumes plain: "plain_filter f \<Longrightarrow> matches f t \<longleftrightarrow> f = t"
    and level: "plain_filter p \<Longrightarrow> plain_filter s \<Longrightarrow>
      matches (p @ ''/+/'' @ s) t \<longleftrightarrow> (\<exists>x. CHR ''/'' \<notin> set x \<and> t = p @ ''/'' @ x @ ''/'' @ s)"
begin

lemma device_permits:
  assumes "plain_filter cid"
  shows "permits matches device_acls ''publishClientSend'' cid t \<longleftrightarrow> t = TelemetryTopic cid \<or> t = StateTopic cid"
    and "permits matches device_acls ''subscribePattern'' cid t \<longleftrightarrow> t = ConfigTopic cid"
    and "permits matches device_acls ''publishClientReceive'' cid t \<longleftrightarrow> t = ConfigTopic cid"
    and "\<not> permits matches device_acls ''subscribeLiteral'' cid t"
proof -
  have f: "matches (''sensegrid/v1/'' @ cid @ s) t \<longleftrightarrow> t = ''sensegrid/v1/'' @ cid @ s" if "plain_filter s" for s
  proof -
    have "plain_filter (''sensegrid/v1/'' @ cid @ s)" using assms that by (simp add: plain_filter_def)
    from plain [OF this, of t] show ?thesis by auto
  qed
  have topics: "plain_filter ''/telemetry''" "plain_filter ''/state''" "plain_filter ''/config''" by (simp_all add: plain_filter_def)
  note f = f [OF topics(1), simplified] f [OF topics(2), simplified] f [OF topics(3), simplified]
  show "permits matches device_acls ''publishClientSend'' cid t \<longleftrightarrow> t = TelemetryTopic cid \<or> t = StateTopic cid"
    by (simp add: permits_def device_acls_def f TelemetryTopic_def StateTopic_def)
  show "permits matches device_acls ''subscribePattern'' cid t \<longleftrightarrow> t = ConfigTopic cid"
    by (simp add: permits_def device_acls_def f ConfigTopic_def)
  show "permits matches device_acls ''publishClientReceive'' cid t \<longleftrightarrow> t = ConfigTopic cid"
    by (simp add: permits_def device_acls_def f ConfigTopic_def)
  show "\<not> permits matches device_acls ''subscribeLiteral'' cid t"
    by (simp add: permits_def device_acls_def)
qed

lemma service_permits:
  shows "permits matches bridge_acls ''publishClientReceive'' cid t \<longleftrightarrow> (\<exists>i. CHR ''/'' \<notin> set i \<and> t = TelemetryTopic i)"
    and "\<not> permits matches bridge_acls ''publishClientSend'' cid t"
    and "permits matches control_acls ''publishClientSend'' cid t \<longleftrightarrow> (\<exists>i. CHR ''/'' \<notin> set i \<and> t = ConfigTopic i)"
    and "permits matches control_acls ''publishClientReceive'' cid t \<longleftrightarrow> (\<exists>i. CHR ''/'' \<notin> set i \<and> t = StateTopic i)"
proof -
  have pre: "plain_filter ''sensegrid/v1''" and topics: "plain_filter ''telemetry''" "plain_filter ''state''" "plain_filter ''config''"
    by (simp_all add: plain_filter_def)
  note f = level [OF pre topics(1), of t, simplified] level [OF pre topics(2), of t, simplified] level [OF pre topics(3), of t, simplified]
  show "permits matches bridge_acls ''publishClientReceive'' cid t \<longleftrightarrow> (\<exists>i. CHR ''/'' \<notin> set i \<and> t = TelemetryTopic i)"
    by (simp add: permits_def bridge_acls_def f TelemetryTopic_def)
  show "\<not> permits matches bridge_acls ''publishClientSend'' cid t" by (simp add: permits_def bridge_acls_def)
  show "permits matches control_acls ''publishClientSend'' cid t \<longleftrightarrow> (\<exists>i. CHR ''/'' \<notin> set i \<and> t = ConfigTopic i)"
    by (simp add: permits_def control_acls_def f ConfigTopic_def)
  show "permits matches control_acls ''publishClientReceive'' cid t \<longleftrightarrow> (\<exists>i. CHR ''/'' \<notin> set i \<and> t = StateTopic i)"
    by (simp add: permits_def control_acls_def f StateTopic_def)
qed

end

text \<open>The matching of MQTT, level by level.\<close>

fun match_levels :: "string list \<Rightarrow> string list \<Rightarrow> bool" where
  "match_levels [] ts = (ts = [])"
| "match_levels (f # fs) ts =
     (if f = ''#'' then fs = []
      else (case ts of [] \<Rightarrow> False | t # ts \<Rightarrow> (f = ''+'' \<or> f = t) \<and> match_levels fs ts))"

definition mqtt_matches :: "string \<Rightarrow> string \<Rightarrow> bool" where
  "mqtt_matches f t = match_levels (splitOn (CHR ''/'') f) (splitOn (CHR ''/'') t)"

lemma splitOn_eq_iff: "splitOn c a = splitOn c b \<longleftrightarrow> a = b"
  by (metis joinWith_splitOn)

lemma joinWith_nonempty: "xs \<noteq> [] \<Longrightarrow> joinWith c (x # xs) = x @ c # joinWith c xs"
  by (cases xs) simp_all

lemma splitOn_set: "p \<in> set (splitOn c f) \<Longrightarrow> set p \<subseteq> set f"
  by (induction f arbitrary: p) (auto split: if_splits list.splits, (fastforce)+)

lemma plain_levels: "plain_filter f \<Longrightarrow> \<forall>p \<in> set (splitOn c f). p \<noteq> ''+'' \<and> p \<noteq> ''#''"
  by (fastforce simp: plain_filter_def dest: splitOn_set)

lemma match_plain: "\<forall>p \<in> set fs. p \<noteq> ''+'' \<and> p \<noteq> ''#'' \<Longrightarrow> match_levels fs ts \<longleftrightarrow> fs = ts"
  by (induction fs arbitrary: ts) (auto split: list.splits)

lemma match_append:
  "\<forall>p \<in> set fs. p \<noteq> ''+'' \<and> p \<noteq> ''#'' \<Longrightarrow> match_levels (fs @ gs) ts \<longleftrightarrow> (\<exists>us. ts = fs @ us \<and> match_levels gs us)"
  by (induction fs arbitrary: ts) (auto split: list.splits)

lemma match_plus: "match_levels (''+'' # gs) us \<longleftrightarrow> (\<exists>x vs. us = x # vs \<and> match_levels gs vs)"
  by (cases us) auto

interpretation mqtt: topic_filters mqtt_matches
proof
  fix f t
  assume "plain_filter f"
  from match_plain [OF plain_levels [OF this]] show "mqtt_matches f t \<longleftrightarrow> f = t"
    by (simp add: mqtt_matches_def splitOn_eq_iff)
next
  fix p s t
  assume p: "plain_filter p" and s: "plain_filter s"
  let ?split = "splitOn (CHR ''/'')"
  have "?split (p @ ''/+/'' @ s) = ?split p @ ''+'' # ?split s"
    using splitOn_append_sep [of "CHR ''/''" p "''+/'' @ s"] splitOn_append [of "CHR ''/''" "''+''" s] by simp
  then have "mqtt_matches (p @ ''/+/'' @ s) t \<longleftrightarrow> (\<exists>us. ?split t = ?split p @ us \<and> match_levels (''+'' # ?split s) us)"
    using match_append [OF plain_levels [OF p]] by (simp only: mqtt_matches_def)
  also have "\<dots> \<longleftrightarrow> (\<exists>x. ?split t = ?split p @ x # ?split s)"
    using match_plain [OF plain_levels [OF s]] by (auto simp only: match_plus)
  also have "\<dots> \<longleftrightarrow> (\<exists>x. CHR ''/'' \<notin> set x \<and> t = p @ ''/'' @ x @ ''/'' @ s)"
  proof
    assume "\<exists>x. ?split t = ?split p @ x # ?split s"
    then obtain x where x: "?split t = ?split p @ x # ?split s" ..
    then have "CHR ''/'' \<notin> set x" by (intro splitOn_parts [of x _ t]) simp
    moreover have "t = joinWith (CHR ''/'') (?split p @ x # ?split s)" by (metis x joinWith_splitOn)
    then have "t = p @ ''/'' @ x @ ''/'' @ s" by (simp add: joinWith_snoc joinWith_nonempty joinWith_splitOn)
    ultimately show "\<exists>x. CHR ''/'' \<notin> set x \<and> t = p @ ''/'' @ x @ ''/'' @ s" by blast
  next
    assume "\<exists>x. CHR ''/'' \<notin> set x \<and> t = p @ ''/'' @ x @ ''/'' @ s"
    then obtain x where "CHR ''/'' \<notin> set x" and t: "t = p @ ''/'' @ x @ ''/'' @ s" by blast
    then have "?split t = ?split p @ x # ?split s"
      using splitOn_append_sep [of "CHR ''/''" p "x @ ''/'' @ s"] splitOn_append [of "CHR ''/''" x s] by simp
    then show "\<exists>x. ?split t = ?split p @ x # ?split s" ..
  qed
  finally show "mqtt_matches (p @ ''/+/'' @ s) t \<longleftrightarrow> (\<exists>x. CHR ''/'' \<notin> set x \<and> t = p @ ''/'' @ x @ ''/'' @ s)" .
qed

section \<open>Properties\<close>

text \<open>C37: a device is confined to its own topics. Under the device role a client whose id has no wildcard in it may publish
  exactly to the telemetry and the state topic of that id, and subscribe to and receive exactly its config topic; the bridge
  receives exactly the telemetry of the devices and publishes nothing, and the control plane publishes exactly to config topics
  and receives exactly states.
\<close>

theorem device_role_confines:
  assumes "topic_filters matches" and "plain_filter cid"
  shows "permits matches device_acls ''publishClientSend'' cid t = (t = TelemetryTopic cid \<or> t = StateTopic cid) \<and>
    permits matches device_acls ''subscribePattern'' cid t = (t = ConfigTopic cid) \<and> \<not> permits matches device_acls ''subscribeLiteral'' cid t \<and>
    permits matches device_acls ''publishClientReceive'' cid t = (t = ConfigTopic cid) \<and>
    permits matches bridge_acls ''publishClientReceive'' cid t = (\<exists>i. CHR ''/'' \<notin> set i \<and> t = TelemetryTopic i) \<and>
    \<not> permits matches bridge_acls ''publishClientSend'' cid t \<and>
    permits matches control_acls ''publishClientSend'' cid t = (\<exists>i. CHR ''/'' \<notin> set i \<and> t = ConfigTopic i) \<and>
    permits matches control_acls ''publishClientReceive'' cid t = (\<exists>i. CHR ''/'' \<notin> set i \<and> t = StateTopic i)"
  using topic_filters.device_permits [OF assms, of t] topic_filters.service_permits [OF assms(1), of cid t] by blast

theorem device_role_confines_witness:
  "permits mqtt_matches device_acls ''publishClientSend'' ''d1'' (TelemetryTopic ''d1'') \<and>
   \<not> permits mqtt_matches device_acls ''publishClientSend'' ''d1'' (TelemetryTopic ''d2'') \<and>
   permits mqtt_matches bridge_acls ''publishClientReceive'' ''d1'' (TelemetryTopic ''d1'')"
proof -
  have plain: "plain_filter ''d1''" "CHR ''/'' \<notin> set ''d1''" by (simp_all add: plain_filter_def)
  note confined = device_role_confines [OF mqtt.topic_filters_axioms plain(1)]
  have "TelemetryTopic ''d2'' \<noteq> TelemetryTopic ''d1''" "TelemetryTopic ''d2'' \<noteq> StateTopic ''d1''"
    by (simp_all add: TelemetryTopic_def StateTopic_def)
  with confined [of "TelemetryTopic ''d2''"] confined [of "TelemetryTopic ''d1''"] plain(2) show ?thesis by blast
qed

lemma EnsureRole_result:
  assumes "\<And>p. broker p b = (x, b')"
  shows "\<exists>c'. EnsureRole k r tn acls broker c b =
    ((case ex_pubErr x of Some e \<Rightarrow> Some (DynsecPublish e)
      | None \<Rightarrow> (case response_to k (ex_msgs x) of None \<Rightarrow> Some DynsecNoResponse
          | Some resp \<Rightarrow> if re_Error resp \<noteq> [] \<and> re_Error resp \<noteq> errRoleExists then Some (DynsecRefused (re_Error resp)) else None)), c', b')"
  unfolding EnsureRole_def
  by (subst dynsec_do_result [where broker = broker and b = b, OF assms]) (auto split: option.splits)

text \<open>What an attempt costs: \<open>cost\<close> counts the connects and the commands the broker has seen.\<close>

lemma EnsureRole_cost:
  assumes "\<And>p b. cost (snd (broker p b)) \<le> cost b + 1" and "EnsureRole k r tn acls broker c b = (e, c', b')"
  shows "cost b' \<le> cost b + (1 :: nat)"
  using assms(2) assms(1) [of "command_payload k (\<lambda>k. [(''acls'', JArray (map marshal_ACL acls)), (''command'', JString ''createRole''),
            (''correlationData'', JString k), (''rolename'', JString r), (''textname'', JString tn)])" b]
  by (auto simp: EnsureRole_def dynsec_do_def Let_def split: prod.splits option.splits if_splits)

lemma CreateClient_cost:
  assumes "\<And>p b. cost (snd (broker p b)) \<le> cost b + 1" and "CreateClient k u pw tn r broker c b = (e, c', b')"
  shows "cost b' \<le> cost b + (1 :: nat)"
  using assms(2) assms(1) [of "command_payload k (createClientCommand u pw tn r)" b]
  by (auto simp: CreateClient_def dynsec_do_def Let_def split: prod.splits option.splits if_splits)

lemma attempt_cost:
  assumes broker: "\<And>p b. cost (snd (broker p b)) \<le> cost b + 1" and connect: "\<And>b. cost (snd (connect b)) \<le> cost b + (1 :: nat)"
    and "attemptDynsecBootstrap cfg ids broker connect b = (r, b')"
  shows "cost b' \<le> cost b + (if r = None then 2 else 6)"
proof -
  have c: "cost b1 \<le> cost b + 1" if "connect b = (e, b1)" for b e b1 using connect [of b] that by simp
  note cost = c EnsureRole_cost [where cost = cost and broker = broker, OF broker] CreateClient_cost [where cost = cost and broker = broker, OF broker]
  show ?thesis using assms(3) unfolding attemptDynsecBootstrap_def
    by (auto split: prod.splits option.splits if_splits dest!: cost)
qed

lemma attempts_cost:
  assumes broker: "\<And>p b. cost (snd (broker p b)) \<le> cost b + 1" and connect: "\<And>b. cost (snd (connect b)) \<le> cost b + (1 :: nat)"
    and "bootstrapAttempts left attempt cfg ids cancelled broker connect b = (r, b')"
  shows "cost b' \<le> cost b + 2 * left + (if r = None then 0 else 4)"
  using assms(3)
proof (induction left arbitrary: attempt b)
  case (Suc left)
  obtain r1 b1 where a: "attemptDynsecBootstrap cfg (ids attempt) broker connect b = (r1, b1)" by fastforce
  note c = attempt_cost [where cost = cost, OF broker connect a]
  from Suc.prems a c Suc.IH [of "Suc attempt" b1] show ?case by (auto split: option.splits if_splits)
qed simp

text \<open>
  The bootstrap is bounded. Whatever the broker answers, \<^verbatim>\<open>connectDynsec\<close> connects and sends commands at most ten times in
  all, six times if it gives up, and not at all without the admin's credentials: only an attempt that failed before the device
  role was there is made again.
\<close>

theorem bootstrap_bounded:
  assumes "\<And>p b. cost (snd (broker p b)) \<le> cost b + 1" and "\<And>b. cost (snd (connect b)) \<le> cost b + (1 :: nat)"
    and "connectDynsec cfg ids cancelled broker connect b = (r, b')"
  shows "cost b' \<le> cost b + (if r = None then 6 else 10) \<and> ((cf_AdminUser cfg = [] \<or> cf_AdminPass cfg = []) \<longrightarrow> r = None \<and> b' = b)"
proof (cases "cf_AdminUser cfg = [] \<or> cf_AdminPass cfg = []")
  case False
  with assms(3) have "bootstrapAttempts maxAttempts 1 cfg ids cancelled broker connect b = (r, b')" by (simp add: connectDynsec_def)
  from attempts_cost [where cost = cost, OF assms(1,2) this] False show ?thesis by (cases r) (simp_all add: maxAttempts_def)
qed (use assms(3) in \<open>auto simp: connectDynsec_def\<close>)

text \<open>A broker that answers from a script; its state is the script and the number of calls.\<close>

definition scripted :: "json \<Rightarrow> exchange list \<times> nat \<Rightarrow> exchange \<times> exchange list \<times> nat" where
  "scripted payload b = (case b of
     (x # xs, n) \<Rightarrow> (x, xs, Suc n)
   | ([], n) \<Rightarrow> (\<lparr>ex_pubErr = None, ex_msgs = []\<rparr>, [], Suc n))"

definition scripted_connect :: "exchange list \<times> nat \<Rightarrow> io_error option \<times> exchange list \<times> nat" where
  "scripted_connect b = (None, fst b, Suc (snd b))"

definition serviceCfg :: dynsec_cfg where
  "serviceCfg = \<lparr>cf_AdminUser = ''admin'', cf_AdminPass = ''a'', cf_BridgeUser = ''bridge'', cf_BridgePass = ''b'',
     cf_ControlUser = ''control'', cf_ControlPass = ''c''\<rparr>"

definition silent :: exchange where "silent = \<lparr>ex_pubErr = None, ex_msgs = []\<rparr>"
definition agreed :: exchange where "agreed = \<lparr>ex_pubErr = None, ex_msgs = [answer ''k'' []]\<rparr>"

theorem bootstrap_bounded_witness:
  "snd (snd (connectDynsec serviceCfg (\<lambda>_ _. ''k'') (\<lambda>_. False) scripted scripted_connect ([silent, silent, agreed], 0))) \<le> 10"
proof -
  have cost: "(\<lambda>b. snd b) (snd (scripted p b)) \<le> (\<lambda>b. snd b) b + 1" "(\<lambda>b. snd b) (snd (scripted_connect b)) \<le> (\<lambda>b. snd b) b + 1" for p b
    by (auto simp: scripted_def scripted_connect_def split: prod.splits list.splits)
  obtain r b' where run: "connectDynsec serviceCfg (\<lambda>_ _. ''k'') (\<lambda>_. False) scripted scripted_connect ([silent, silent, agreed], 0) = (r, b')"
    by (rule prod.exhaust)
  from bootstrap_bounded [where cost = snd, OF cost run] run show ?thesis by (simp split: if_splits)
qed

text \<open>
  A lost answer about the bridge is not made good. Once the device role is there the attempt returns a client, so a command for the
  bridge that gets no answer ends the bootstrap: the bridge and the control plane have no account, and nothing is tried again.
\<close>

theorem bridge_failure_not_retried:
  assumes "cf_AdminUser cfg \<noteq> []" "cf_AdminPass cfg \<noteq> []" "cf_BridgeUser cfg \<noteq> []" "cf_BridgePass cfg \<noteq> []"
    and "connect b = (None, b1)"
    and "EnsureRole (ids 1 0) deviceRoleName ''SenseGrid provisioned device'' device_acls broker \<lparr>dc_pending = (\<lambda>_. False), dc_chans = (\<lambda>_. None)\<rparr> b1 = (None, c2, b2)"
    and "EnsureRole (ids 1 1) bridgeRoleName ''SenseGrid ingest bridge'' bridge_acls broker c2 b2 = (Some e, c3, b3)"
  shows "connectDynsec cfg ids cancelled broker connect b = (Some c3, b3)"
  using assms by (simp add: connectDynsec_def maxAttempts_def numeral_3_eq_3 attemptDynsecBootstrap_def)

theorem bridge_failure_not_retried_witness:
  "snd (connectDynsec serviceCfg (\<lambda>_ _. ''k'') (\<lambda>_. False) scripted scripted_connect ([agreed], 0)) = ([], 3)"
proof -
  have role: "\<exists>e c. EnsureRole ''k'' r tn acls scripted c0 (xs, n) = (e, c, (tl xs, Suc n)) \<and> (e = None) = (xs \<noteq> [])"
    if "xs = [] \<or> xs = [agreed]" for r tn acls c0 xs n
    using that EnsureRole_result [where broker = scripted and b = "([], n)" and x = silent and b' = "([], Suc n)" and k = "''k''" and r = r and tn = tn and acls = acls and c = c0]
      EnsureRole_result [where broker = scripted and b = "([agreed], n)" and x = agreed and b' = "([], Suc n)" and k = "''k''" and r = r and tn = tn and acls = acls and c = c0]
    by (auto simp: scripted_def agreed_def silent_def response_to_answer)
  obtain c2 where d: "EnsureRole ''k'' deviceRoleName ''SenseGrid provisioned device'' device_acls scripted
      \<lparr>dc_pending = (\<lambda>_. False), dc_chans = (\<lambda>_. None)\<rparr> ([agreed], 1) = (None, c2, ([], 2))"
    using role [of "[agreed]" _ _ _ _ 1] by (force simp: numeral_2_eq_2)
  obtain e c3 where f: "EnsureRole ''k'' bridgeRoleName ''SenseGrid ingest bridge'' bridge_acls scripted c2 ([], 2) = (Some e, c3, ([], 3))"
    using role [of "[]" _ _ _ c2 2] by (force simp: numeral_3_eq_3)
  have c: "scripted_connect ([agreed], 0) = (None, ([agreed], 1))" by (simp add: scripted_connect_def)
  show ?thesis
    by (subst bridge_failure_not_retried [where ids = "\<lambda>_ _. ''k''" and connect = scripted_connect, OF _ _ _ _ c d f]) (simp_all add: serviceCfg_def)
qed

end
