(* ===== verification/Stats.thy ===== *)
theory Stats
  imports Prelude "HOL-Library.Multiset"
begin

text \<open>
  \<^verbatim>\<open>internal/window/stats.go\<close>: Welford's incremental mean and sum of squared deviations with
  removal, and the exponentially weighted moving average. \<open>naive\<close> recomputes the statistics of a
  list of values from scratch and is the specification the incremental updates are proved against.
\<close>

section \<open>Model\<close>

record Stats =
  st_count :: int
  st_mean :: real
  st_m2 :: real

definition zeroStats :: Stats where
  "zeroStats = \<lparr>st_count = 0, st_mean = 0, st_m2 = 0\<rparr>"

definition Stats_Update :: "Stats \<Rightarrow> real \<Rightarrow> Stats" where
  "Stats_Update s x =
     (let count = st_count s + 1;
          delta = x - st_mean s;
          mean = st_mean s + delta / real_of_int count;
          delta2 = x - mean
      in s\<lparr>st_count := count, st_mean := mean, st_m2 := st_m2 s + delta * delta2\<rparr>)"

definition Stats_Remove :: "Stats \<Rightarrow> real \<Rightarrow> Stats" where
  "Stats_Remove s x =
     (if st_count s \<le> 1 then s\<lparr>st_count := 0, st_mean := 0, st_m2 := 0\<rparr>
      else
        let prevCount = st_count s;
            count = st_count s - 1;
            prevMean = st_mean s;
            mean = (prevMean * real_of_int prevCount - x) / real_of_int count;
            m2 = st_m2 s - (x - mean) * (x - prevMean)
        in s\<lparr>st_count := count, st_mean := mean, st_m2 := (if m2 < 0 then 0 else m2)\<rparr>)"

definition Stats_Count :: "Stats \<Rightarrow> int" where
  "Stats_Count s = st_count s"

definition Stats_Mean :: "Stats \<Rightarrow> real" where
  "Stats_Mean s = (if st_count s = 0 then 0 else st_mean s)"

definition Stats_Variance :: "Stats \<Rightarrow> real" where
  "Stats_Variance s = (if st_count s = 0 then 0 else st_m2 s / real_of_int (st_count s))"

definition Stats_StdDev :: "Stats \<Rightarrow> real" where
  "Stats_StdDev s = sqrt (Stats_Variance s)"

record EWMA =
  ew_Alpha :: real
  ew_value :: real
  ew_primed :: bool

definition NewEWMA :: "real \<Rightarrow> EWMA" where
  "NewEWMA alpha = \<lparr>ew_Alpha = alpha, ew_value = 0, ew_primed = False\<rparr>"

definition EWMA_Update :: "EWMA \<Rightarrow> real \<Rightarrow> EWMA \<times> real" where
  "EWMA_Update e x =
     (if \<not> ew_primed e then let e' = e\<lparr>ew_value := x, ew_primed := True\<rparr> in (e', ew_value e')
      else let e' = e\<lparr>ew_value := ew_Alpha e * x + (1 - ew_Alpha e) * ew_value e\<rparr> in (e', ew_value e'))"

definition EWMA_Value :: "EWMA \<Rightarrow> real" where
  "EWMA_Value e = ew_value e"

section \<open>Specification: statistics recomputed from a list of values\<close>

definition meanOf :: "real list \<Rightarrow> real" where
  "meanOf xs = sum_list xs / real (length xs)"

definition m2Of :: "real list \<Rightarrow> real" where
  "m2Of xs = sum_list (map (\<lambda>x. (x - meanOf xs)\<^sup>2) xs)"

definition naive :: "real list \<Rightarrow> Stats" where
  "naive xs = \<lparr>st_count = int (length xs), st_mean = meanOf xs, st_m2 = m2Of xs\<rparr>"

section \<open>Lemmas\<close>

lemma sum_list_sq_diff:
  "sum_list (map (\<lambda>x. (x - c)\<^sup>2) xs) =
   sum_list (map (\<lambda>x. x\<^sup>2) xs) - 2 * c * sum_list xs + real (length xs) * c\<^sup>2"
  by (induction xs) (auto simp: power2_diff algebra_simps)

lemma m2Of_eq:
  "m2Of xs = sum_list (map (\<lambda>x. x\<^sup>2) xs) - (sum_list xs)\<^sup>2 / real (length xs)"
  unfolding m2Of_def sum_list_sq_diff
  by (cases "xs = []") (simp_all add: meanOf_def power2_eq_square)

lemma m2Of_nonneg [simp]: "0 \<le> m2Of xs"
  unfolding m2Of_def by (rule sum_list_nonneg) auto

lemma naive_Nil [simp]: "naive [] = zeroStats"
  by (simp add: naive_def zeroStats_def meanOf_def m2Of_def)

lemma naive_mset_cong:
  assumes "mset xs = mset ys"
  shows "naive xs = naive ys"
proof -
  have "sum_list (map f xs) = sum_list (map f ys)" for f :: "real \<Rightarrow> real"
    using assms by (metis mset_map sum_mset_sum_list)
  from this [of "\<lambda>x. x"] this [of "\<lambda>x. x\<^sup>2"] mset_eq_length [OF assms] show ?thesis
    by (simp add: naive_def meanOf_def m2Of_eq)
qed

lemma welford_step:
  fixes S Q x :: real
  assumes "n > 0"
  shows "Q - S\<^sup>2 / n + (x - S / n) * (x - (S + x) / (n + 1)) = (Q + x\<^sup>2) - (S + x)\<^sup>2 / (n + 1)"
proof -
  have "n \<noteq> 0" "n + 1 \<noteq> 0" using assms by auto
  then show ?thesis
    by (simp add: divide_simps power2_eq_square) (simp add: algebra_simps)
qed

lemma mean_step:
  fixes S x :: real
  assumes "n > 0"
  shows "S / n + (x - S / n) / (n + 1) = (S + x) / (n + 1)"
proof -
  have "n \<noteq> 0" "n + 1 \<noteq> 0" using assms by auto
  then show ?thesis by (simp add: divide_simps) (simp add: algebra_simps)
qed

lemma Stats_Update_naive: "Stats_Update (naive xs) x = naive (x # xs)"
proof (cases "xs = []")
  case True
  then show ?thesis
    by (simp add: Stats_Update_def naive_def zeroStats_def meanOf_def m2Of_def)
next
  case False
  then have n: "real (length xs) > 0" by simp
  show ?thesis
    using mean_step [OF n, of "sum_list xs" x]
      welford_step [OF n, of "sum_list (map (\<lambda>x. x\<^sup>2) xs)" "sum_list xs" x]
    by (simp add: Stats_Update_def naive_def meanOf_def m2Of_eq Let_def add.commute)
qed

lemma Stats_Remove_naive: "Stats_Remove (naive (x # xs)) x = naive xs"
proof (cases "xs = []")
  case True
  then show ?thesis by (simp add: Stats_Remove_def naive_def zeroStats_def meanOf_def m2Of_def)
next
  case False
  then have n: "real (length xs) > 0" by simp
  let ?S = "sum_list xs" and ?Q = "sum_list (map (\<lambda>x. x\<^sup>2) xs)" and ?n = "real (length xs)"
  have count: "\<not> st_count (naive (x # xs)) \<le> 1"
    using False by (cases xs) (simp_all add: naive_def)
  have mean: "(meanOf (x # xs) * (1 + ?n) - x) / ?n = meanOf xs"
    using n by (simp add: meanOf_def)
  have m2: "m2Of (x # xs) - (x - meanOf xs) * (x - meanOf (x # xs)) = m2Of xs"
    using welford_step [OF n, of ?Q ?S x] by (simp add: m2Of_eq meanOf_def add.commute)
  then have "(x - meanOf xs) * (x - meanOf (x # xs)) \<le> m2Of (x # xs)"
    using m2Of_nonneg [of xs] by linarith
  with count mean m2 show ?thesis
    by (simp add: Stats_Remove_def naive_def Let_def not_less)
qed

lemma Stats_Remove_member:
  assumes "x \<in># mset xs"
  shows "Stats_Remove (naive xs) x = naive (remove1 x xs)"
proof -
  have "naive xs = naive (x # remove1 x xs)"
    using assms by (intro naive_mset_cong) simp
  then show ?thesis by (simp add: Stats_Remove_naive)
qed

text \<open>No value of a sample of size \<open>n\<close> is further from the mean than \<open>sqrt (n - 1)\<close> standard deviations.\<close>

lemma deviation_bound_Cons: "real (Suc (length xs)) * (x - meanOf (x # xs))\<^sup>2 \<le> real (length xs) * m2Of (x # xs)"
proof (cases "xs = []")
  case True
  then show ?thesis by (simp add: meanOf_def)
next
  case False
  define n S where "n = real (length xs)" and "S = sum_list xs"
  have n: "n > 0" using False by (simp add: n_def)
  have mean: "meanOf (x # xs) = (S + x) / (n + 1)" by (simp add: meanOf_def n_def S_def add.commute)
  have "m2Of (x # xs) = m2Of xs + (x - S / n) * (x - (S + x) / (n + 1))"
    unfolding m2Of_eq using welford_step [OF n, of "sum_list (map (\<lambda>x. x\<^sup>2) xs)" S x]
    by (simp add: n_def S_def add.commute)
  then have "n * m2Of (x # xs) = n * m2Of xs + n * (x - S / n) * (x - (S + x) / (n + 1))"
    by (simp add: distrib_left mult.assoc)
  also have "n * (x - S / n) = n * x - S" using n by (simp add: right_diff_distrib)
  also have "n * x - S = (n + 1) * (x - (S + x) / (n + 1))" using n by (simp add: field_simps)
  finally have "n * m2Of (x # xs) = n * m2Of xs + (n + 1) * (x - meanOf (x # xs))\<^sup>2"
    by (simp add: mean power2_eq_square mult.assoc)
  moreover have "0 \<le> n * m2Of xs" using n by simp
  ultimately show ?thesis by (simp add: n_def add.commute)
qed

lemma deviation_bound:
  assumes "x \<in> set xs"
  shows "real (length xs) * (x - meanOf xs)\<^sup>2 \<le> (real (length xs) - 1) * m2Of xs"
proof -
  obtain ys zs where "xs = ys @ x # zs" using split_list [OF assms] by blast
  then have "mset xs = mset (x # ys @ zs)" by simp
  from naive_mset_cong [OF this] mset_eq_length [OF this]
  have "meanOf xs = meanOf (x # ys @ zs)" "m2Of xs = m2Of (x # ys @ zs)" "length xs = Suc (length (ys @ zs))"
    by (simp_all add: naive_def)
  with deviation_bound_Cons [of "ys @ zs" x] show ?thesis by simp
qed

section \<open>Properties\<close>

text \<open>C17: Welford's incremental update computes exactly the statistics a from-scratch recomputation
  gives: folding the values in one at a time, in any order, yields the count, the mean and the sum of
  squared deviations of the whole sample, and the reported variance is the population variance.\<close>

theorem welford_refines_naive:
  "foldl Stats_Update zeroStats xs = naive xs \<and>
   Stats_Variance (foldl Stats_Update zeroStats xs) = m2Of xs / real (length xs)"
proof -
  have "foldl Stats_Update (naive ys) xs = naive (ys @ xs)" for ys
  proof (induction xs arbitrary: ys)
    case Nil
    then show ?case by simp
  next
    case (Cons x xs)
    have "Stats_Update (naive ys) x = naive (ys @ [x])"
      by (simp add: Stats_Update_naive naive_mset_cong [of "x # ys" "ys @ [x]"])
    with Cons.IH [of "ys @ [x]"] show ?case by simp
  qed
  from this [of "[]"] have "foldl Stats_Update zeroStats xs = naive xs" by simp
  then show ?thesis
    by (simp add: Stats_Variance_def naive_def)
qed

text \<open>\<^verbatim>\<open>Remove\<close> is the exact inverse of \<^verbatim>\<open>Update\<close>: adding values to the statistics of
  a sample and then removing the same values, in any order, restores the statistics it started from.\<close>

theorem remove_inverts_update:
  assumes "mset ys = mset xs"
  shows "foldl Stats_Remove (foldl Stats_Update (naive base) xs) ys = naive base"
proof -
  have up: "foldl Stats_Update (naive base) xs = naive (xs @ base)" for base
    by (induction xs arbitrary: base)
      (auto simp: Stats_Update_naive intro: naive_mset_cong)
  have down: "foldl Stats_Remove (naive (ys @ base)) ys = naive base" for ys base
    by (induction ys) (auto simp: Stats_Remove_naive)
  have "naive (xs @ base) = naive (ys @ base)"
    using assms by (intro naive_mset_cong) simp
  with up down show ?thesis by simp
qed

theorem remove_inverts_update_witness:
  "foldl Stats_Remove (foldl Stats_Update (naive [4]) [1, 2, 6]) [6, 1, 2] = naive [4]"
  by (rule remove_inverts_update) simp

end
