(* ===== verification/Window.thy ===== *)
theory Window
  imports Stats
begin

text \<open>
  \<^verbatim>\<open>internal/window/window.go\<close>: the sliding window of one (device, sensor) pair, bounded by sample
  count and by sample age, with its ring of recently processed sequence numbers.
  \<^verbatim>\<open>sort.Search\<close> is modelled as the binary search it is.
\<close>

section \<open>Model\<close>

record sample =
  s_deviceTime :: time
  s_value :: real
  s_seq :: u64

record Window =
  w_MaxCount :: int
  w_MaxAge :: duration
  w_buf :: "sample list"
  w_stats :: Stats
  w_ewma :: EWMA
  w_prevEWMA :: real
  w_seenSeq :: "u64 list"
  w_seenHead :: nat

definition dedupeRingSize :: nat where
  "dedupeRingSize = 64"

definition NewWindow :: "int \<Rightarrow> duration \<Rightarrow> real \<Rightarrow> Window" where
  "NewWindow maxCount maxAge ewmaAlpha =
     \<lparr>w_MaxCount = maxCount, w_MaxAge = maxAge, w_buf = [], w_stats = zeroStats,
      w_ewma = NewEWMA ewmaAlpha, w_prevEWMA = 0, w_seenSeq = [], w_seenHead = 0\<rparr>"

definition alreadySeen :: "Window \<Rightarrow> u64 \<Rightarrow> bool" where
  "alreadySeen w seq = list_ex (\<lambda>s. s = seq) (w_seenSeq w)"

definition markSeen :: "Window \<Rightarrow> u64 \<Rightarrow> Window" where
  "markSeen w seq =
     (if length (w_seenSeq w) < dedupeRingSize then w\<lparr>w_seenSeq := w_seenSeq w @ [seq]\<rparr>
      else w\<lparr>w_seenSeq := (w_seenSeq w)[w_seenHead w := seq],
             w_seenHead := (w_seenHead w + 1) mod dedupeRingSize\<rparr>)"

function searchLoop :: "(nat \<Rightarrow> bool) \<Rightarrow> nat \<Rightarrow> nat \<Rightarrow> nat" where
  "searchLoop f i j =
     (if i < j then
        let h = (i + j) div 2 in
        if \<not> f h then searchLoop f (h + 1) j else searchLoop f i h
      else i)"
  by pat_completeness auto
termination
  by (relation "measure (\<lambda>(f, i, j). j - i)") auto

definition sort_Search :: "nat \<Rightarrow> (nat \<Rightarrow> bool) \<Rightarrow> nat" where
  "sort_Search n f = searchLoop f 0 n"

fun evictLoop :: "int \<Rightarrow> duration \<Rightarrow> time \<Rightarrow> sample list \<Rightarrow> Stats \<Rightarrow> sample list \<times> Stats" where
  "evictLoop maxCount maxAge newest [] st = ([], st)"
| "evictLoop maxCount maxAge newest (b # bs) st =
     (let tooOld = maxAge > 0 \<and> time_sub newest (s_deviceTime b) > maxAge;
          tooMany = maxCount > 0 \<and> int (length (b # bs)) > maxCount
      in if \<not> tooOld \<and> \<not> tooMany then (b # bs, st)
         else evictLoop maxCount maxAge newest bs (Stats_Remove st (s_value b)))"

definition evict :: "Window \<Rightarrow> Window" where
  "evict w =
     (if w_buf w = [] then w
      else let newest = s_deviceTime (last (w_buf w));
               (buf, st) = evictLoop (w_MaxCount w) (w_MaxAge w) newest (w_buf w) (w_stats w)
           in w\<lparr>w_buf := buf, w_stats := st\<rparr>)"

definition insertIndex :: "sample list \<Rightarrow> time \<Rightarrow> nat" where
  "insertIndex buf deviceTime = sort_Search (length buf) (\<lambda>i. s_deviceTime (buf ! i) > deviceTime)"

definition Insert :: "Window \<Rightarrow> time \<Rightarrow> real \<Rightarrow> u64 \<Rightarrow> Window \<times> bool" where
  "Insert w deviceTime val seq =
     (if alreadySeen w seq then (w, False)
      else
        let w1 = markSeen w seq;
            s = \<lparr>s_deviceTime = deviceTime, s_value = val, s_seq = seq\<rparr>;
            idx = insertIndex (w_buf w1) deviceTime;
            w2 = w1\<lparr>w_buf := take idx (w_buf w1) @ s # drop idx (w_buf w1)\<rparr>;
            w3 = w2\<lparr>w_stats := Stats_Update (w_stats w2) val\<rparr>;
            w4 = w3\<lparr>w_prevEWMA := EWMA_Value (w_ewma w3)\<rparr>;
            w5 = w4\<lparr>w_ewma := fst (EWMA_Update (w_ewma w4) val)\<rparr>
        in (evict w5, True))"

definition W_Count :: "Window \<Rightarrow> int" where
  "W_Count w = Stats_Count (w_stats w)"

definition W_Mean :: "Window \<Rightarrow> real" where
  "W_Mean w = Stats_Mean (w_stats w)"

definition W_StdDev :: "Window \<Rightarrow> real" where
  "W_StdDev w = Stats_StdDev (w_stats w)"

definition W_EWMA :: "Window \<Rightarrow> real" where
  "W_EWMA w = EWMA_Value (w_ewma w)"

definition W_PrevEWMA :: "Window \<Rightarrow> real" where
  "W_PrevEWMA w = w_prevEWMA w"

definition NewestTime :: "Window \<Rightarrow> time" where
  "NewestTime w = (if w_buf w = [] then zeroTime else s_deviceTime (last (w_buf w)))"

definition OldestTime :: "Window \<Rightarrow> time" where
  "OldestTime w = (if w_buf w = [] then zeroTime else s_deviceTime (hd (w_buf w)))"

section \<open>Specification\<close>

text \<open>The bounds a buffer has to meet: count, and age relative to its newest sample.\<close>

definition within_bounds :: "int \<Rightarrow> duration \<Rightarrow> time \<Rightarrow> sample list \<Rightarrow> bool" where
  "within_bounds maxCount maxAge newest buf \<longleftrightarrow>
     (maxCount > 0 \<longrightarrow> int (length buf) \<le> maxCount) \<and>
     (maxAge > 0 \<longrightarrow> list_all (\<lambda>b. time_sub newest (s_deviceTime b) \<le> maxAge) buf)"

abbreviation times :: "sample list \<Rightarrow> time list" where
  "times buf \<equiv> map s_deviceTime buf"

abbreviation vals :: "sample list \<Rightarrow> real list" where
  "vals buf \<equiv> map s_value buf"

definition ring_ok :: "Window \<Rightarrow> bool" where
  "ring_ok w \<longleftrightarrow> length (w_seenSeq w) \<le> dedupeRingSize \<and> w_seenHead w < dedupeRingSize \<and>
     (length (w_seenSeq w) < dedupeRingSize \<longrightarrow> w_seenHead w = 0)"

definition window_inv :: "Window \<Rightarrow> bool" where
  "window_inv w \<longleftrightarrow>
     sorted (times (w_buf w)) \<and> w_stats w = naive (vals (w_buf w)) \<and>
     within_bounds (w_MaxCount w) (w_MaxAge w) (NewestTime w) (w_buf w) \<and> ring_ok w"

section \<open>Binary search\<close>

declare searchLoop.simps [simp del]

lemma searchLoop_bounds: "i \<le> j \<Longrightarrow> i \<le> searchLoop f i j \<and> searchLoop f i j \<le> j"
proof (induction f i j rule: searchLoop.induct)
  case (1 f i j)
  show ?case
  proof (cases "i < j")
    case True
    let ?h = "(i + j) div 2"
    have h: "i \<le> ?h" "?h < j" using True by auto
    show ?thesis
      using "1.IH" [OF True refl] h by (auto simp: searchLoop.simps [of f i j] True Let_def)
  next
    case False
    then have "searchLoop f i j = i" by (simp add: searchLoop.simps [of f i j])
    with "1.prems" show ?thesis by simp
  qed
qed

lemma searchLoop_correct:
  assumes "i \<le> j" and "j \<le> n" and "\<And>a b. a \<le> b \<Longrightarrow> b < n \<Longrightarrow> f a \<Longrightarrow> f b"
    and "\<And>k. k < i \<Longrightarrow> \<not> f k" and "\<And>k. j \<le> k \<Longrightarrow> k < n \<Longrightarrow> f k"
  shows "(\<forall>k < searchLoop f i j. \<not> f k) \<and> (\<forall>k. searchLoop f i j \<le> k \<longrightarrow> k < n \<longrightarrow> f k)"
  using assms
proof (induction f i j rule: searchLoop.induct)
  case (1 f i j)
  let ?h = "(i + j) div 2"
  show ?case
  proof (cases "i < j")
    case True
    have h: "i \<le> ?h" "?h < j" using True by auto
    show ?thesis
    proof (cases "f ?h")
      case fh: True
      have "f k" if "?h \<le> k" "k < n" for k using that fh "1.prems"(3) by blast
      with "1.IH"(2) [OF True refl] fh h "1.prems" show ?thesis
        by (simp add: searchLoop.simps [of f i j] True Let_def)
    next
      case fh: False
      have "\<not> f k" if "k < ?h + 1" for k
        using that fh h "1.prems"(2) "1.prems"(3) [of k ?h] by (cases "f k") auto
      with "1.IH"(1) [OF True refl] fh h "1.prems" show ?thesis
        by (simp add: searchLoop.simps [of f i j] True Let_def)
    qed
  next
    case False
    then have "searchLoop f i j = i" by (simp add: searchLoop.simps [of f i j])
    with False "1.prems" show ?thesis by simp
  qed
qed

lemma sort_Search_correct:
  assumes "\<And>a b. a \<le> b \<Longrightarrow> b < n \<Longrightarrow> f a \<Longrightarrow> f b"
  shows "sort_Search n f \<le> n"
    and "k < sort_Search n f \<Longrightarrow> \<not> f k"
    and "sort_Search n f \<le> k \<Longrightarrow> k < n \<Longrightarrow> f k"
proof -
  show le: "sort_Search n f \<le> n"
    using searchLoop_bounds [of 0 n f] by (simp add: sort_Search_def)
  have "(\<forall>k < searchLoop f 0 n. \<not> f k) \<and> (\<forall>k. searchLoop f 0 n \<le> k \<longrightarrow> k < n \<longrightarrow> f k)"
    by (rule searchLoop_correct [where n = n]) (use assms in auto)
  then show "k < sort_Search n f \<Longrightarrow> \<not> f k" and "sort_Search n f \<le> k \<Longrightarrow> k < n \<Longrightarrow> f k"
    by (auto simp: sort_Search_def)
qed

section \<open>Insertion and eviction\<close>

definition insertAt :: "sample list \<Rightarrow> sample \<Rightarrow> sample list" where
  "insertAt buf s = (let idx = insertIndex buf (s_deviceTime s) in take idx buf @ s # drop idx buf)"

lemma insertIndex_correct:
  assumes "sorted (times buf)"
  shows "insertIndex buf t \<le> length buf"
    and "b \<in> set (take (insertIndex buf t) buf) \<Longrightarrow> s_deviceTime b \<le> t"
    and "b \<in> set (drop (insertIndex buf t) buf) \<Longrightarrow> t < s_deviceTime b"
proof -
  let ?f = "\<lambda>i. s_deviceTime (buf ! i) > t"
  have mono: "?f a \<Longrightarrow> ?f b" if "a \<le> b" "b < length buf" for a b
    using sorted_nth_mono [OF assms, of a b] that by simp
  note search = sort_Search_correct [of "length buf" ?f, OF mono]
  show len: "insertIndex buf t \<le> length buf"
    unfolding insertIndex_def by (rule search(1)) auto
  show "b \<in> set (take (insertIndex buf t) buf) \<Longrightarrow> s_deviceTime b \<le> t"
    using search(2) len by (auto simp: in_set_conv_nth insertIndex_def not_less)
  show "b \<in> set (drop (insertIndex buf t) buf) \<Longrightarrow> t < s_deviceTime b"
    using search(3) len by (auto simp: in_set_conv_nth insertIndex_def)
qed

lemma insertAt_mset: "mset (insertAt buf s) = add_mset s (mset buf)"
proof -
  have "mset (take i buf) + mset (drop i buf) = mset buf" for i
    by (metis append_take_drop_id mset_append)
  then show ?thesis by (simp add: insertAt_def Let_def)
qed

lemma insertAt_nonempty [simp]: "insertAt buf s \<noteq> []"
  by (simp add: insertAt_def Let_def)

lemma insertAt_sorted:
  assumes "sorted (times buf)"
  shows "sorted (times (insertAt buf s))"
  using assms insertIndex_correct(2,3) [OF assms, of _ "s_deviceTime s"]
  by (fastforce simp: insertAt_def Let_def sorted_append sorted_wrt_take sorted_wrt_drop
      sorted_wrt_map take_map drop_map)

lemma naive_insertAt: "Stats_Update (naive (vals buf)) (s_value s) = naive (vals (insertAt buf s))"
proof -
  have "mset (vals (insertAt buf s)) = mset (s_value s # vals buf)"
    by (simp add: insertAt_mset)
  then show ?thesis by (simp add: Stats_Update_naive naive_mset_cong)
qed

text \<open>What the loop of \<^verbatim>\<open>evict\<close> keeps is a suffix; its statistics follow; and the loop stops at
  the longest suffix whose head is neither too old nor one too many.\<close>

definition head_ok :: "int \<Rightarrow> duration \<Rightarrow> time \<Rightarrow> sample list \<Rightarrow> bool" where
  "head_ok maxCount maxAge newest buf \<longleftrightarrow>
     buf = [] \<or>
     \<not> (maxAge > 0 \<and> time_sub newest (s_deviceTime (hd buf)) > maxAge) \<and>
     \<not> (maxCount > 0 \<and> int (length buf) > maxCount)"

lemma evictLoop_suffix:
  "evictLoop mc ma nw buf (naive (vals buf)) = (kept, st) \<Longrightarrow>
     (\<exists>k \<le> length buf. kept = drop k buf \<and> (\<forall>i < k. \<not> head_ok mc ma nw (drop i buf))) \<and>
     head_ok mc ma nw kept \<and> st = naive (vals kept)"
proof (induction buf)
  case Nil
  then show ?case by (auto simp: head_ok_def)
next
  case (Cons b bs)
  show ?case
  proof (cases "head_ok mc ma nw (b # bs)")
    case True
    with Cons.prems show ?thesis by (auto simp: head_ok_def Let_def split: if_splits)
  next
    case False
    then have "evictLoop mc ma nw bs (naive (vals bs)) = (kept, st)"
      using Cons.prems by (auto simp: head_ok_def Let_def Stats_Remove_naive split: if_splits)
    then obtain k where k: "k \<le> length bs" "kept = drop k bs"
      "\<forall>i < k. \<not> head_ok mc ma nw (drop i bs)"
      and rest: "head_ok mc ma nw kept" "st = naive (vals kept)"
      using Cons.IH by blast
    have "\<not> head_ok mc ma nw (drop i (b # bs))" if "i < Suc k" for i
      using that False k(3) by (cases i) auto
    with k rest show ?thesis by (intro conjI exI [of _ "Suc k"]) auto
  qed
qed

lemma head_ok_within_bounds:
  assumes "sorted (times buf)" and "head_ok mc ma nw buf"
  shows "within_bounds mc ma nw buf"
proof (cases buf)
  case Nil
  then show ?thesis by (simp add: within_bounds_def)
next
  case (Cons b bs)
  have "time_sub nw (s_deviceTime x) \<le> ma" if "x \<in> set buf" "ma > 0" for x
  proof -
    have "s_deviceTime b \<le> s_deviceTime x" using assms(1) that Cons by auto
    then have "time_sub nw (s_deviceTime x) \<le> time_sub nw (s_deviceTime b)"
      by (rule time_sub_antimono)
    with assms(2) that Cons show ?thesis by (simp add: head_ok_def)
  qed
  with assms(2) Cons show ?thesis
    by (auto simp: within_bounds_def head_ok_def list_all_iff)
qed

text \<open>The newest sample is never evicted.\<close>

lemma head_ok_last: "buf \<noteq> [] \<Longrightarrow> head_ok mc ma (s_deviceTime (last buf)) [last buf]"
  by (auto simp: head_ok_def)

lemma evictLoop_keeps_last:
  assumes "evictLoop mc ma (s_deviceTime (last buf)) buf (naive (vals buf)) = (kept, st)" "buf \<noteq> []"
  shows "kept \<noteq> [] \<and> last kept = last buf"
proof -
  obtain k where k: "k \<le> length buf" "kept = drop k buf"
    "\<forall>i < k. \<not> head_ok mc ma (s_deviceTime (last buf)) (drop i buf)"
    using evictLoop_suffix [OF assms(1)] by blast
  have "drop (length buf - 1) buf = [last buf]"
    using assms(2) by (cases buf rule: rev_cases) auto
  then have "\<not> length buf - 1 < k"
    using k(3) head_ok_last [OF assms(2)] by metis
  with k assms(2) show ?thesis by (cases buf) (auto simp: last_drop)
qed

lemma not_head_ok_bounds: "\<not> head_ok mc ma nw buf \<Longrightarrow> \<not> within_bounds mc ma nw buf"
  by (cases buf) (auto simp: head_ok_def within_bounds_def)

section \<open>The ring of processed sequence numbers\<close>

text \<open>The ring read from its oldest entry on.\<close>

definition ring_view :: "Window \<Rightarrow> u64 list" where
  "ring_view w = rotate (w_seenHead w) (w_seenSeq w)"

definition lastN :: "nat \<Rightarrow> 'a list \<Rightarrow> 'a list" where
  "lastN n xs = drop (length xs - n) xs"

lemma set_ring_view [simp]: "set (ring_view w) = set (w_seenSeq w)"
  by (simp add: ring_view_def)

lemma alreadySeen_iff: "alreadySeen w seq \<longleftrightarrow> seq \<in> set (w_seenSeq w)"
  by (auto simp: alreadySeen_def list_ex_iff)

lemma rotate_overwrite:
  assumes "h < length xs"
  shows "rotate (Suc h mod length xs) (xs[h := x]) = tl (rotate h xs) @ [x]"
proof (cases "Suc h < length xs")
  case True
  have "rotate (Suc h) (xs[h := x]) = drop (Suc h) xs @ take h xs @ [x]"
    using True by (simp add: rotate_drop_take take_Suc_conv_app_nth)
  moreover have "tl (rotate h xs) = drop (Suc h) xs @ take h xs"
    using assms by (simp add: rotate_drop_take drop_Suc tl_drop [symmetric])
  ultimately show ?thesis using True by simp
next
  case False
  obtain ys y where xs: "xs = ys @ [y]" using assms by (cases xs rule: rev_cases) auto
  with assms False have h: "h = length ys" by simp
  show ?thesis unfolding xs h by (simp add: rotate_append)
qed

lemma markSeen_ring:
  assumes "ring_ok w"
  shows "ring_ok (markSeen w s)"
    and "ring_view (markSeen w s) = lastN dedupeRingSize (ring_view w @ [s])"
proof -
  show "ring_ok (markSeen w s)"
    using assms by (auto simp: ring_ok_def markSeen_def dedupeRingSize_def)
  show "ring_view (markSeen w s) = lastN dedupeRingSize (ring_view w @ [s])"
  proof (cases "length (w_seenSeq w) < dedupeRingSize")
    case True
    then show ?thesis
      using assms by (simp add: ring_view_def markSeen_def lastN_def ring_ok_def)
  next
    case False
    with assms have len: "length (w_seenSeq w) = dedupeRingSize" and
      head: "w_seenHead w < length (w_seenSeq w)" by (auto simp: ring_ok_def)
    have "lastN dedupeRingSize (ring_view w @ [s]) = tl (rotate (w_seenHead w) (w_seenSeq w)) @ [s]"
      using len by (simp add: lastN_def ring_view_def dedupeRingSize_def)
        (cases "rotate (w_seenHead w) (w_seenSeq w)", auto dest: arg_cong [where f = length])
    with rotate_overwrite [OF head, of s] False len show ?thesis
      by (simp add: ring_view_def markSeen_def)
  qed
qed

text \<open>A stream of readings offered to a window, with the sequence numbers it accepted.\<close>

fun insertAll :: "Window \<Rightarrow> (time \<times> real \<times> u64) list \<Rightarrow> Window \<times> u64 list" where
  "insertAll w [] = (w, [])"
| "insertAll w ((t, v, q) # rs) =
     (let (w', new) = Insert w t v q; (w'', acc) = insertAll w' rs
      in (w'', (if new then q # acc else acc)))"

lemma evict_frame:
  "w_seenSeq (evict w) = w_seenSeq w" "w_seenHead (evict w) = w_seenHead w"
  "w_MaxCount (evict w) = w_MaxCount w" "w_MaxAge (evict w) = w_MaxAge w"
  "w_ewma (evict w) = w_ewma w" "w_prevEWMA (evict w) = w_prevEWMA w"
  by (auto simp: evict_def Let_def split: prod.splits)

lemma markSeen_frame:
  "w_buf (markSeen w q) = w_buf w" "w_stats (markSeen w q) = w_stats w"
  "w_MaxCount (markSeen w q) = w_MaxCount w" "w_MaxAge (markSeen w q) = w_MaxAge w"
  by (auto simp: markSeen_def)

lemma Insert_ring:
  assumes "ring_ok w" and "Insert w t v q = (w', new)"
  shows "ring_ok w'"
    and "ring_view w' = (if new then lastN dedupeRingSize (ring_view w @ [q]) else ring_view w)"
    and "new \<longleftrightarrow> q \<notin> set (ring_view w)"
  using assms markSeen_ring [OF assms(1), of q]
  by (auto simp: Insert_def Let_def evict_frame ring_ok_def ring_view_def alreadySeen_iff
      split: if_splits)

lemma lastN_append_lastN: "lastN n (lastN n xs @ ys) = lastN n (xs @ ys)"
proof (cases "length xs \<le> n")
  case True
  then show ?thesis by (simp add: lastN_def)
next
  case False
  then have "length xs + length ys - n = length ys + (length xs - n)"
    and "length ys - n = length xs + length ys - n - length xs" by auto
  with False show ?thesis by (simp add: lastN_def)
qed

lemma ring_view_lastN: "ring_ok w \<Longrightarrow> lastN dedupeRingSize (ring_view w) = ring_view w"
  by (simp add: lastN_def ring_ok_def ring_view_def)

section \<open>What an accepted reading does to the buffer\<close>

lemma Insert_rejected: "q \<in> set (w_seenSeq w) \<Longrightarrow> Insert w t v q = (w, False)"
  by (simp add: Insert_def alreadySeen_iff)

lemma Insert_new:
  assumes "q \<notin> set (w_seenSeq w)"
  shows "Insert w t v q =
    (evict ((markSeen w q)\<lparr>w_buf := insertAt (w_buf w) \<lparr>s_deviceTime = t, s_value = v, s_seq = q\<rparr>,
       w_stats := Stats_Update (w_stats w) v,
       w_prevEWMA := EWMA_Value (w_ewma (markSeen w q)),
       w_ewma := fst (EWMA_Update (w_ewma (markSeen w q)) v)\<rparr>), True)"
  using assms by (simp add: Insert_def alreadySeen_iff insertAt_def Let_def markSeen_frame)

lemma Insert_accepted:
  fixes t :: time and v :: real
  assumes "window_inv w" and "q \<notin> set (w_seenSeq w)"
  defines "full \<equiv> insertAt (w_buf w) \<lparr>s_deviceTime = t, s_value = v, s_seq = q\<rparr>"
  defines "nw \<equiv> s_deviceTime (last full)"
  obtains w' k where "Insert w t v q = (w', True)" and "k < length full" and "w_buf w' = drop k full"
    and "w_stats w' = naive (vals (w_buf w'))" and "NewestTime w' = nw"
    and "within_bounds (w_MaxCount w) (w_MaxAge w) nw (w_buf w')"
    and "\<And>i. i < k \<Longrightarrow> \<not> within_bounds (w_MaxCount w) (w_MaxAge w) nw (drop i full)"
    and "w_MaxCount w' = w_MaxCount w" and "w_MaxAge w' = w_MaxAge w"
proof -
  obtain kept st where loop:
    "evictLoop (w_MaxCount w) (w_MaxAge w) nw full (naive (vals full)) = (kept, st)"
    by (cases "evictLoop (w_MaxCount w) (w_MaxAge w) nw full (naive (vals full))")
  have full: "full \<noteq> []" "sorted (times full)"
    using assms(1) by (auto simp: full_def window_inv_def insertAt_sorted)
  obtain k where k: "kept = drop k full"
    "\<forall>i < k. \<not> head_ok (w_MaxCount w) (w_MaxAge w) nw (drop i full)"
    and ok: "head_ok (w_MaxCount w) (w_MaxAge w) nw kept" and st: "st = naive (vals kept)"
    using evictLoop_suffix [OF loop] by blast
  have last: "kept \<noteq> []" "last kept = last full"
    using evictLoop_keeps_last [OF loop [unfolded nw_def] full(1)] by auto
  have "sorted (times kept)"
    unfolding k(1) drop_map [symmetric] using full(2) by (rule sorted_wrt_drop)
  then have bounds: "within_bounds (w_MaxCount w) (w_MaxAge w) nw kept"
    using ok by (rule head_ok_within_bounds)
  have stats: "Stats_Update (w_stats w) v = naive (vals full)"
    using assms(1) naive_insertAt [of "w_buf w" "\<lparr>s_deviceTime = t, s_value = v, s_seq = q\<rparr>"]
    by (simp add: window_inv_def full_def)
  have ins: "Insert w t v q =
      (fst (Insert w t v q), True) \<and> w_buf (fst (Insert w t v q)) = kept \<and>
      w_stats (fst (Insert w t v q)) = st \<and>
      w_MaxCount (fst (Insert w t v q)) = w_MaxCount w \<and> w_MaxAge (fst (Insert w t v q)) = w_MaxAge w"
    unfolding Insert_new [OF assms(2)] full_def [symmetric] stats
    using loop full(1) by (simp add: evict_def markSeen_frame nw_def)
  show thesis
  proof (rule that [of "fst (Insert w t v q)" k])
    show "k < length full" using last(1) k(1) by auto
    show "NewestTime (fst (Insert w t v q)) = nw" using ins last by (simp add: NewestTime_def nw_def)
  qed (use ins k st bounds not_head_ok_bounds in auto)
qed

lemma Insert_inv:
  assumes "window_inv w"
  shows "window_inv (fst (Insert w t v q))"
proof (cases "q \<in> set (w_seenSeq w)")
  case True
  with assms show ?thesis by (simp add: Insert_rejected)
next
  case False
  have ring: "ring_ok (fst (Insert w t v q))"
    using assms Insert_ring(1) [of w t v q] by (cases "Insert w t v q") (auto simp: window_inv_def)
  have "sorted (times (insertAt (w_buf w) s))" for s
    using assms by (simp add: window_inv_def insertAt_sorted)
  then have sorted: "sorted (times (drop k (insertAt (w_buf w) s)))" for k s
    unfolding drop_map [symmetric] by (rule sorted_wrt_drop)
  obtain w' k where "Insert w t v q = (w', True)"
    and "w_buf w' = drop k (insertAt (w_buf w) \<lparr>s_deviceTime = t, s_value = v, s_seq = q\<rparr>)"
    and "w_stats w' = naive (vals (w_buf w'))"
    and "within_bounds (w_MaxCount w) (w_MaxAge w) (NewestTime w') (w_buf w')"
    and "w_MaxCount w' = w_MaxCount w" and "w_MaxAge w' = w_MaxAge w"
    using Insert_accepted [OF assms False, of t v] by metis
  with ring sorted show ?thesis by (simp add: window_inv_def)
qed

lemma NewWindow_inv: "window_inv (NewWindow mc ma al)"
  by (simp add: window_inv_def NewWindow_def within_bounds_def ring_ok_def dedupeRingSize_def)

lemma insertAll_inv: "window_inv w \<Longrightarrow> window_inv (fst (insertAll w rs))"
proof (induction w rs rule: insertAll.induct)
  case (1 w)
  then show ?case by simp
next
  case (2 w t v q rs)
  have "window_inv (fst (Insert w t v q))" using 2(2) by (rule Insert_inv)
  with 2(1) show ?case
    by (auto simp: Let_def split: prod.splits)
qed

lemma insertAll_ring:
  "ring_ok w \<Longrightarrow> insertAll w rs = (w', acc) \<Longrightarrow>
   ring_ok w' \<and> ring_view w' = lastN dedupeRingSize (ring_view w @ acc)"
proof (induction w rs arbitrary: acc rule: insertAll.induct)
  case (1 w)
  then show ?case by (simp add: ring_view_lastN)
next
  case (2 w t v q rs)
  obtain w1 new acc1 where step: "Insert w t v q = (w1, new)" "insertAll w1 rs = (w', acc1)"
    and acc: "acc = (if new then q # acc1 else acc1)"
    using "2.prems"(2) by (auto split: prod.splits)
  note ring = Insert_ring [OF "2.prems"(1) step(1)]
  have "ring_ok w' \<and> ring_view w' = lastN dedupeRingSize (ring_view w1 @ acc1)"
    using "2.IH" [OF _ _ ring(1) step(2)] step(1) by simp
  then show ?case using ring(2) acc by (simp add: lastN_append_lastN)
qed

section \<open>Properties\<close>

text \<open>C3: whatever readings are offered to a window, in whatever order they arrive, its buffer stays
  sorted by device time, its count and age bounds hold, its statistics are exactly those of the samples
  it holds, and its ring of sequence numbers stays well formed.\<close>

theorem window_invariant:
  "window_inv (fst (insertAll (NewWindow maxCount maxAge alpha) rs))"
  by (rule insertAll_inv) (rule NewWindow_inv)

text \<open>C12: a reading the window has not seen is put at its place in time order, and the window then
  holds the longest suffix of the resulting buffer that meets both bounds, never the empty one.\<close>

theorem window_insert_longest_suffix:
  fixes t :: time and v :: real
  assumes "window_inv w" and "q \<notin> set (w_seenSeq w)"
  defines "full \<equiv> insertAt (w_buf w) \<lparr>s_deviceTime = t, s_value = v, s_seq = q\<rparr>"
  defines "ok \<equiv> within_bounds (w_MaxCount w) (w_MaxAge w) (s_deviceTime (last full))"
  shows "snd (Insert w t v q) \<and> sorted (times full) \<and>
         mset full = add_mset \<lparr>s_deviceTime = t, s_value = v, s_seq = q\<rparr> (mset (w_buf w)) \<and>
         (\<exists>k < length full. w_buf (fst (Insert w t v q)) = drop k full \<and> ok (drop k full) \<and>
           (\<forall>i < k. \<not> ok (drop i full)))"
  using Insert_accepted [OF assms(1,2), of t v] assms(1)
  by (metis (no_types, lifting) full_def ok_def insertAt_mset insertAt_sorted prod.collapse
      prod.inject window_inv_def)

theorem window_insert_longest_suffix_witness:
  "snd (Insert (NewWindow 2 0 1) 5 1 9) \<and> sorted (times (insertAt [] \<lparr>s_deviceTime = 5, s_value = 1, s_seq = 9\<rparr>))"
  using window_insert_longest_suffix [OF NewWindow_inv [of 2 0 1], of 9 5 1]
  by (simp add: NewWindow_def)

text \<open>The duplicate filter looks back over exactly the last 64 readings the window accepted: a
  redelivered reading with one of their sequence numbers is refused and leaves the window as it was, and a
  reading with any other sequence number is accepted.\<close>

theorem window_dedupe_lookback:
  assumes "insertAll (NewWindow maxCount maxAge alpha) rs = (w, accepted)"
  shows "Insert w t v q = (if q \<in> set (lastN 64 accepted) then (w, False)
                           else (fst (Insert w t v q), True))"
proof -
  have "ring_ok (NewWindow maxCount maxAge alpha)"
    by (simp add: ring_ok_def NewWindow_def dedupeRingSize_def)
  from insertAll_ring [OF this assms]
  have "set (w_seenSeq w) = set (lastN 64 accepted)"
    by (metis append_Nil dedupeRingSize_def NewWindow_def Window.select_convs(7) ring_view_def
        rotate_is_Nil_conv set_ring_view)
  then show ?thesis
    by (simp add: Insert_def alreadySeen_iff Let_def)
qed

theorem window_dedupe_lookback_witness:
  "Insert (fst (insertAll (NewWindow 10 0 1) [(1, 2, 7)])) 3 4 7 =
     (fst (insertAll (NewWindow 10 0 1) [(1, 2, 7)]), False)"
proof -
  have "insertAll (NewWindow 10 0 1) [(1, 2, 7)] =
      (fst (insertAll (NewWindow 10 0 1) [(1, 2, 7)]), [7])"
    by (simp add: Insert_def Let_def alreadySeen_def NewWindow_def)
  from window_dedupe_lookback [OF this, of 3 4 7] show ?thesis by (simp add: lastN_def)
qed

end
