(* ===== verification/Registry.thy ===== *)
theory Registry
  imports Window
begin

text \<open>
  \<^verbatim>\<open>internal/window/registry.go\<close>: one window per (device, sensor) pair, created on first use and
  dropped once it has not been touched for a time to live. The map of entries is an association list
  with distinct keys. \<^verbatim>\<open>Get\<close> hands out a pointer to the window; a caller that changes the window
  through it writes the entry back with \<open>setWindow\<close>.
\<close>

section \<open>Model\<close>

record WKey =
  wk_DeviceID :: string
  wk_SensorType :: string

record entry =
  e_window :: Window
  e_lastSeen :: time

record Registry =
  rg_maxCount :: int
  rg_maxAge :: duration
  rg_ewmaAlpha :: real
  rg_entries :: "(WKey \<times> entry) list"

definition NewRegistry :: "int \<Rightarrow> duration \<Rightarrow> real \<Rightarrow> Registry" where
  "NewRegistry maxCount maxAge ewmaAlpha =
     \<lparr>rg_maxCount = maxCount, rg_maxAge = maxAge, rg_ewmaAlpha = ewmaAlpha, rg_entries = []\<rparr>"

definition Registry_Get :: "Registry \<Rightarrow> WKey \<Rightarrow> time \<Rightarrow> Window \<times> Registry" where
  "Registry_Get r key now =
     (let e = (case map_of (rg_entries r) key of
                 None \<Rightarrow> \<lparr>e_window = NewWindow (rg_maxCount r) (rg_maxAge r) (rg_ewmaAlpha r), e_lastSeen = zeroTime\<rparr>
               | Some e \<Rightarrow> e);
          e' = e\<lparr>e_lastSeen := now\<rparr>
      in (e_window e', r\<lparr>rg_entries := AList.update key e' (rg_entries r)\<rparr>))"

definition setWindow :: "Registry \<Rightarrow> WKey \<Rightarrow> Window \<Rightarrow> Registry" where
  "setWindow r key w =
     (case map_of (rg_entries r) key of
        None \<Rightarrow> r
      | Some e \<Rightarrow> r\<lparr>rg_entries := AList.update key (e\<lparr>e_window := w\<rparr>) (rg_entries r)\<rparr>)"

definition Registry_LastSeen :: "Registry \<Rightarrow> WKey \<Rightarrow> time \<times> bool" where
  "Registry_LastSeen r key =
     (case map_of (rg_entries r) key of None \<Rightarrow> (zeroTime, False) | Some e \<Rightarrow> (e_lastSeen e, True))"

definition Registry_Sweep :: "Registry \<Rightarrow> time \<Rightarrow> duration \<Rightarrow> nat \<times> Registry" where
  "Registry_Sweep r now ttl =
     (let stale = (\<lambda>(k, e). time_sub now (e_lastSeen e) > ttl)
      in (length (filter stale (rg_entries r)),
          r\<lparr>rg_entries := filter (\<lambda>x. \<not> stale x) (rg_entries r)\<rparr>))"

definition Registry_Size :: "Registry \<Rightarrow> nat" where
  "Registry_Size r = length (rg_entries r)"

definition Registry_Keys :: "Registry \<Rightarrow> WKey list" where
  "Registry_Keys r = map fst (rg_entries r)"

section \<open>Invariant\<close>

definition registry_inv :: "Registry \<Rightarrow> bool" where
  "registry_inv r \<longleftrightarrow> distinct (Registry_Keys r) \<and>
     (\<forall>e \<in> snd ` set (rg_entries r). window_inv (e_window e))"

lemma NewRegistry_inv: "registry_inv (NewRegistry mc ma al)"
  by (simp add: registry_inv_def NewRegistry_def Registry_Keys_def)

lemma update_snd_subset: "snd ` set (AList.update k v al) \<subseteq> insert v (snd ` set al)"
  by (induction al) auto

lemma Registry_Get_window_inv:
  "registry_inv r \<Longrightarrow> window_inv (fst (Registry_Get r key now))"
  by (auto simp: registry_inv_def Registry_Get_def Let_def NewWindow_inv
      split: option.splits dest!: map_of_SomeD)

lemma Registry_Get_inv:
  assumes "registry_inv r"
  shows "registry_inv (snd (Registry_Get r key now))"
proof -
  have "window_inv (fst (Registry_Get r key now))"
    using assms by (rule Registry_Get_window_inv)
  with assms update_snd_subset [of key _ "rg_entries r"] show ?thesis
    by (fastforce simp: registry_inv_def Registry_Get_def Let_def Registry_Keys_def
        distinct_update)
qed

lemma setWindow_inv:
  assumes "registry_inv r" and "window_inv w"
  shows "registry_inv (setWindow r key w)"
  using assms update_snd_subset [of key _ "rg_entries r"]
  by (fastforce simp: registry_inv_def setWindow_def Registry_Keys_def distinct_update
      split: option.splits)

lemma Registry_Sweep_inv: "registry_inv r \<Longrightarrow> registry_inv (snd (Registry_Sweep r now ttl))"
  by (auto simp: registry_inv_def Registry_Sweep_def Registry_Keys_def Let_def
      distinct_map inj_on_def)

lemma map_of_filter_distinct:
  "distinct (map fst al) \<Longrightarrow>
   map_of (filter P al) k = (case map_of al k of None \<Rightarrow> None | Some v \<Rightarrow> if P (k, v) then Some v else None)"
proof (induction al)
  case Nil
  then show ?case by simp
next
  case (Cons x al)
  then show ?case
    by (cases x) (auto split: option.splits simp: map_of_eq_None_iff image_iff)
qed

lemma Registry_Sweep_LastSeen:
  assumes "registry_inv r"
  shows "Registry_LastSeen (snd (Registry_Sweep r now ttl)) key =
           (if time_sub now (fst (Registry_LastSeen r key)) > ttl then (zeroTime, False)
            else Registry_LastSeen r key)"
  using assms
  by (auto simp: registry_inv_def Registry_Keys_def Registry_LastSeen_def Registry_Sweep_def Let_def
      map_of_filter_distinct split: option.splits)

section \<open>Properties\<close>

text \<open>A sweep forgets exactly the windows not touched within the time to live, reports how many
  it removed, and leaves every other window as it was.\<close>

theorem registry_sweep_exact:
  assumes "registry_inv r"
  shows "Registry_Size (snd (Registry_Sweep r now ttl)) + fst (Registry_Sweep r now ttl) = Registry_Size r \<and>
         map_of (rg_entries (snd (Registry_Sweep r now ttl))) key =
           (case map_of (rg_entries r) key of None \<Rightarrow> None
            | Some e \<Rightarrow> if time_sub now (e_lastSeen e) > ttl then None else Some e)"
proof -
  have "Registry_Size (snd (Registry_Sweep r now ttl)) + fst (Registry_Sweep r now ttl) = Registry_Size r"
    using sum_length_filter_compl [of "\<lambda>(k, e). time_sub now (e_lastSeen e) > ttl" "rg_entries r"]
    by (simp add: Registry_Size_def Registry_Sweep_def Let_def case_prod_unfold)
  moreover have "distinct (map fst (rg_entries r))"
    using assms by (simp add: registry_inv_def Registry_Keys_def)
  ultimately show ?thesis
    by (auto simp: Registry_Sweep_def Let_def map_of_filter_distinct split: option.splits)
qed

theorem registry_sweep_exact_witness:
  "Registry_Size (snd (Registry_Sweep (snd (Registry_Get (NewRegistry 5 0 1)
      \<lparr>wk_DeviceID = ''d'', wk_SensorType = ''t''\<rparr> 10)) 100 20)) = 0"
proof -
  let ?r = "snd (Registry_Get (NewRegistry 5 0 1) \<lparr>wk_DeviceID = ''d'', wk_SensorType = ''t''\<rparr> 10)"
  have "registry_inv ?r" by (intro Registry_Get_inv NewRegistry_inv)
  from registry_sweep_exact [OF this, of 100 20] show ?thesis
    by (simp add: Registry_Sweep_def Registry_Get_def NewRegistry_def Registry_Size_def time_sub_def
        minDuration_def maxDuration_def)
qed

end
