(* ===== verification/Rules.thy ===== *)
theory Rules
  imports Prelude
begin

text \<open>
  \<^verbatim>\<open>internal/rules/rules.go\<close> and \<^verbatim>\<open>watch.go\<close>: the detector rules, which sensors a rule
  matches, the checks on loading a rules file, and the watcher that swaps in a new configuration when
  the file changes. Reading the file and \<^verbatim>\<open>yaml.Unmarshal\<close> are parameters: the result of the
  read, and a function from the file's bytes to the rules it holds.
\<close>

section \<open>Model\<close>

definition ZScore :: string where "ZScore = ''zscore''"
definition RateOfChange :: string where "RateOfChange = ''rate_of_change''"
definition Silence :: string where "Silence = ''silence''"

record Rule =
  ru_Name :: string
  ru_SensorType :: string
  ru_Type :: string
  ru_Severity :: string
  ru_Threshold :: real
  ru_SilenceTimeout :: duration
  ru_Consecutive :: int

definition Rule_Matches :: "Rule \<Rightarrow> string \<Rightarrow> bool" where
  "Rule_Matches r sensorType =
     (if ru_SensorType r = ''*'' then True
      else if HasSuffix (ru_SensorType r) ''.*''
        then HasPrefix sensorType (TrimSuffix (ru_SensorType r) ''*'')
      else ru_SensorType r = sensorType)"

definition ConsecutiveOrDefault :: "Rule \<Rightarrow> int" where
  "ConsecutiveOrDefault r = (if ru_Consecutive r \<le> 0 then 1 else ru_Consecutive r)"

record RulesConfig =
  cfg_Rules :: "Rule list"

definition ForSensor :: "RulesConfig option \<Rightarrow> string \<Rightarrow> Rule list" where
  "ForSensor c sensorType =
     (case c of None \<Rightarrow> [] | Some cfg \<Rightarrow> filter (\<lambda>r. Rule_Matches r sensorType) (cfg_Rules cfg))"

datatype rules_error = RulesRead io_error | RulesParse string | RuleNoName nat | RuleNoSensorType string

fun checkRules :: "nat \<Rightarrow> Rule list \<Rightarrow> rules_error option" where
  "checkRules i [] = None"
| "checkRules i (r # rs) =
     (if ru_Name r = [] then Some (RuleNoName i)
      else if ru_SensorType r = [] then Some (RuleNoSensorType (ru_Name r))
      else checkRules (i + 1) rs)"

definition Rules_Load :: "('b \<Rightarrow> string + Rule list) \<Rightarrow> io_error + 'b \<Rightarrow> rules_error + RulesConfig" where
  "Rules_Load yamlUnmarshal file =
     (case file of
        Inl e \<Rightarrow> Inl (RulesRead e)
      | Inr raw \<Rightarrow>
          (case yamlUnmarshal raw of
             Inl e \<Rightarrow> Inl (RulesParse e)
           | Inr rs \<Rightarrow>
               (case checkRules 0 rs of
                  Some e \<Rightarrow> Inl e
                | None \<Rightarrow> Inr \<lparr>cfg_Rules = rs\<rparr>)))"

record Watcher =
  wa_current :: RulesConfig

definition NewWatcher :: "('b \<Rightarrow> string + Rule list) \<Rightarrow> io_error + 'b \<Rightarrow> rules_error + Watcher" where
  "NewWatcher yamlUnmarshal file =
     (case Rules_Load yamlUnmarshal file of
        Inl e \<Rightarrow> Inl e | Inr cfg \<Rightarrow> Inr \<lparr>wa_current = cfg\<rparr>)"

definition Watcher_Current :: "Watcher \<Rightarrow> RulesConfig option" where
  "Watcher_Current w = Some (wa_current w)"

definition modTime :: "io_error + time \<Rightarrow> time" where
  "modTime stat = (case stat of Inl _ \<Rightarrow> zeroTime | Inr t \<Rightarrow> t)"

text \<open>One tick of the loop in \<^verbatim>\<open>Run\<close>: the watcher and the loop's \<^verbatim>\<open>lastMod\<close>.\<close>

definition Watcher_tick :: "('b \<Rightarrow> string + Rule list) \<Rightarrow> io_error + time \<Rightarrow> io_error + 'b
    \<Rightarrow> Watcher \<times> time \<Rightarrow> Watcher \<times> time" where
  "Watcher_tick yamlUnmarshal stat file s =
     (let (w, lastMod) = s; mt = modTime stat in
      if IsZero mt \<or> \<not> mt > lastMod then (w, lastMod)
      else (case Rules_Load yamlUnmarshal file of
              Inl e \<Rightarrow> (w, mt)
            | Inr cfg \<Rightarrow> (w\<lparr>wa_current := cfg\<rparr>, mt)))"

fun Watcher_Run :: "('b \<Rightarrow> string + Rule list) \<Rightarrow> (io_error + time \<times> (io_error + 'b)) list
    \<Rightarrow> Watcher \<times> time \<Rightarrow> Watcher \<times> time" where
  "Watcher_Run y [] s = s"
| "Watcher_Run y (obs # rest) s =
     (case obs of
        Inl e \<Rightarrow> Watcher_Run y rest (Watcher_tick y (Inl e) (Inl e) s)
      | Inr (t, file) \<Rightarrow> Watcher_Run y rest (Watcher_tick y (Inr t) file s))"

section \<open>Lemmas\<close>

definition rules_ok :: "RulesConfig \<Rightarrow> bool" where
  "rules_ok cfg \<longleftrightarrow> list_all (\<lambda>r. ru_Name r \<noteq> [] \<and> ru_SensorType r \<noteq> []) (cfg_Rules cfg)"

lemma checkRules_None: "checkRules i rs = None \<longleftrightarrow> rules_ok \<lparr>cfg_Rules = rs\<rparr>"
  by (induction rs arbitrary: i) (auto simp: rules_ok_def)

lemma Rules_Load_ok: "Rules_Load y file = Inr cfg \<Longrightarrow> rules_ok cfg"
  by (auto simp: Rules_Load_def checkRules_None split: sum.splits option.splits)

lemma Watcher_tick_ok:
  "rules_ok (wa_current (fst s)) \<Longrightarrow> rules_ok (wa_current (fst (Watcher_tick y stat file s)))"
  by (auto simp: Watcher_tick_def Let_def Rules_Load_ok split: sum.splits prod.splits)

lemma Watcher_Run_ok:
  "rules_ok (wa_current (fst s)) \<Longrightarrow> rules_ok (wa_current (fst (Watcher_Run y obs s)))"
proof (induction obs arbitrary: s)
  case Nil
  then show ?case by simp
next
  case (Cons ob obs)
  show ?case
    by (cases ob) (auto intro!: Cons.IH Watcher_tick_ok Cons.prems)
qed

lemma Watcher_Run_append: "Watcher_Run y (a @ b) s = Watcher_Run y b (Watcher_Run y a s)"
  by (induction a arbitrary: s) (auto split: sum.splits)

lemma Rule_Matches_cases:
  "Rule_Matches r s \<longleftrightarrow>
     ru_SensorType r = ''*'' \<or> (\<exists>p t. ru_SensorType r = p @ ''.*'' \<and> s = p @ CHR ''.'' # t) \<or>
     ru_SensorType r = s \<and> \<not> HasSuffix s ''.*''"
proof -
  have "TrimSuffix (p @ ''.*'') ''*'' = p @ ''.''" for p
    using TrimSuffix_append [of "p @ ''.''" "''*''"] by simp
  then show ?thesis
    by (auto simp: Rule_Matches_def HasSuffix_iff HasPrefix_iff)
qed

section \<open>Properties\<close>

text \<open>Detection always runs on the last known good rules: whatever happens to the rules file while
  the watcher polls it (missing, unreadable, half written, invalid), the configuration in use is one that
  \<^verbatim>\<open>Load\<close> accepted (every rule in it has a name and a sensor type), and a file with a later
  modification time that loads is the one in use after the tick.\<close>

theorem watcher_keeps_good_rules:
  assumes "NewWatcher y file = Inr w"
  shows "rules_ok (wa_current (fst (Watcher_Run y obs (w, lastMod)))) \<and>
    (\<forall>t f cfg. \<not> IsZero t \<longrightarrow> t > snd (Watcher_Run y obs (w, lastMod)) \<longrightarrow> Rules_Load y f = Inr cfg \<longrightarrow>
       Watcher_Current (fst (Watcher_Run y (obs @ [Inr (t, f)]) (w, lastMod))) = Some cfg)"
proof -
  have "rules_ok (wa_current w)"
    using assms by (auto simp: NewWatcher_def Rules_Load_ok split: sum.splits)
  then show ?thesis
    by (auto simp: Watcher_Run_ok Watcher_Run_append Watcher_tick_def Watcher_Current_def modTime_def Let_def
        split: prod.splits)
qed

definition sampleRule :: Rule where
  "sampleRule = \<lparr>ru_Name = ''accel-z'', ru_SensorType = ''accel.*'', ru_Type = ''zscore'',
     ru_Severity = ''warning'', ru_Threshold = 3, ru_SilenceTimeout = 0, ru_Consecutive = 3\<rparr>"

theorem watcher_keeps_good_rules_witness:
  "rules_ok (wa_current (fst (Watcher_Run (\<lambda>b. if b then Inr [sampleRule] else Inl ''bad yaml'')
     [Inr (5, Inr False)] (\<lparr>wa_current = \<lparr>cfg_Rules = [sampleRule]\<rparr>\<rparr>, 1))))"
proof -
  have "NewWatcher (\<lambda>b. if b then Inr [sampleRule] else Inl ''bad yaml'') (Inr True)
      = Inr \<lparr>wa_current = \<lparr>cfg_Rules = [sampleRule]\<rparr>\<rparr>"
    by (simp add: NewWatcher_def Rules_Load_def sampleRule_def)
  from watcher_keeps_good_rules [OF this] show ?thesis by blast
qed

text \<open>A sensor is checked against exactly the rules whose pattern covers it, in file order: the
  wildcard, a prefix pattern \<open>p.*\<close> for the components of \<open>p\<close>, or its own name.\<close>

theorem for_sensor_exact:
  "ForSensor (Some cfg) s =
     filter (\<lambda>r. ru_SensorType r = ''*'' \<or>
        (\<exists>p t. ru_SensorType r = p @ ''.*'' \<and> s = p @ CHR ''.'' # t) \<or>
        ru_SensorType r = s \<and> \<not> HasSuffix s ''.*'') (cfg_Rules cfg) \<and>
   ForSensor None s = []"
  by (auto simp: ForSensor_def Rule_Matches_cases intro: filter_cong)

end
