(* ===== verification/Anomaly.thy ===== *)
theory Anomaly
  imports Window Rules
begin

text \<open>
  \<^verbatim>\<open>internal/anomaly\<close>: the three detectors and the evaluator that turns a stream of violating or
  clean observations into fire and clear transitions with hysteresis.
\<close>

section \<open>Model\<close>

definition EvaluateZScore :: "real \<Rightarrow> Window \<Rightarrow> Rule \<Rightarrow> bool \<times> real" where
  "EvaluateZScore val w rule =
     (if W_Count w < 2 then (False, 0)
      else let stddev = W_StdDev w in
        if stddev = 0 then (False, 0)
        else let z = \<bar>val - W_Mean w\<bar> / stddev in (z > ru_Threshold rule, z))"

definition EvaluateRateOfChange :: "Window \<Rightarrow> Rule \<Rightarrow> bool \<times> real" where
  "EvaluateRateOfChange w rule =
     (if W_Count w < 2 then (False, 0)
      else let d = \<bar>W_EWMA w - W_PrevEWMA w\<bar> in (d > ru_Threshold rule, d))"

definition EvaluateSilence :: "time \<Rightarrow> time \<Rightarrow> Rule \<Rightarrow> bool \<times> duration" where
  "EvaluateSilence lastSeen now rule =
     (if IsZero lastSeen then (False, 0)
      else let gap = time_sub now lastSeen in (gap > ru_SilenceTimeout rule, gap))"

record EKey =
  ek_DeviceID :: string
  ek_SensorType :: string
  ek_RuleName :: string

datatype EvalEvent = NoChange | Fired | Cleared

record counters =
  c_violations :: int
  c_clears :: int
  c_open :: bool

record Evaluator =
  ev_state :: "EKey \<rightharpoonup> counters"

definition NewEvaluator :: Evaluator where
  "NewEvaluator = \<lparr>ev_state = Map.empty\<rparr>"

definition zeroCounters :: counters where
  "zeroCounters = \<lparr>c_violations = 0, c_clears = 0, c_open = False\<rparr>"

definition Evaluator_Update :: "Evaluator \<Rightarrow> EKey \<Rightarrow> bool \<Rightarrow> int \<Rightarrow> EvalEvent \<times> Evaluator" where
  "Evaluator_Update e key violating consecutive0 =
     (let consecutive = (if consecutive0 \<le> 0 then 1 else consecutive0);
          c = (case ev_state e key of None \<Rightarrow> zeroCounters | Some c \<Rightarrow> c)
      in if violating then
           let c1 = c\<lparr>c_violations := c_violations c + 1, c_clears := 0\<rparr> in
           if \<not> c_open c1 \<and> c_violations c1 \<ge> consecutive
           then (Fired, e\<lparr>ev_state := (ev_state e)(key \<mapsto> c1\<lparr>c_open := True\<rparr>)\<rparr>)
           else (NoChange, e\<lparr>ev_state := (ev_state e)(key \<mapsto> c1)\<rparr>)
         else
           let c1 = c\<lparr>c_clears := c_clears c + 1, c_violations := 0\<rparr> in
           if c_open c1 \<and> c_clears c1 \<ge> consecutive
           then (Cleared, e\<lparr>ev_state := (ev_state e)(key \<mapsto> c1\<lparr>c_open := False\<rparr>)\<rparr>)
           else (NoChange, e\<lparr>ev_state := (ev_state e)(key \<mapsto> c1)\<rparr>))"

definition Evaluator_Forget :: "Evaluator \<Rightarrow> EKey \<Rightarrow> Evaluator" where
  "Evaluator_Forget e key = e\<lparr>ev_state := (ev_state e)(key := None)\<rparr>"

section \<open>Specification: runs of equal observations\<close>

definition isOpen :: "Evaluator \<Rightarrow> EKey \<Rightarrow> bool" where
  "isOpen e key = (case ev_state e key of None \<Rightarrow> False | Some c \<Rightarrow> c_open c)"

text \<open>A stream of observations for one key under one rule.\<close>

fun feed :: "EKey \<Rightarrow> int \<Rightarrow> Evaluator \<Rightarrow> bool list \<Rightarrow> Evaluator" where
  "feed key m e [] = e"
| "feed key m e (b # bs) = feed key m (snd (Evaluator_Update e key b m)) bs"

definition hasRun :: "bool \<Rightarrow> nat \<Rightarrow> bool list \<Rightarrow> bool" where
  "hasRun b m xs \<longleftrightarrow> (\<exists>p s. xs = p @ replicate m b @ s)"

definition endsRun :: "bool \<Rightarrow> nat \<Rightarrow> bool list \<Rightarrow> bool" where
  "endsRun b m xs \<longleftrightarrow> (\<exists>p. xs = p @ replicate m b)"

text \<open>The alert is open when some \<open>m\<close> violations in a row were not followed by \<open>m\<close> clean
  observations in a row.\<close>

definition open_spec :: "nat \<Rightarrow> bool list \<Rightarrow> bool" where
  "open_spec m xs \<longleftrightarrow> (\<exists>p s. xs = p @ replicate m True @ s \<and> \<not> hasRun False m s)"

definition trailing :: "bool \<Rightarrow> bool list \<Rightarrow> nat" where
  "trailing b xs = length (takeWhile (\<lambda>x. x = b) (rev xs))"

section \<open>Lemmas\<close>

lemma feed_append: "feed key m e (xs @ ys) = feed key m (feed key m e xs) ys"
  by (induction xs arbitrary: e) auto

lemma trailing_snoc [simp]: "trailing b (xs @ [x]) = (if x = b then Suc (trailing b xs) else 0)"
  by (simp add: trailing_def)

lemma endsRun_trailing: "endsRun b m xs \<longleftrightarrow> m \<le> trailing b xs"
proof (induction xs arbitrary: m rule: rev_induct)
  case Nil
  then show ?case by (auto simp: endsRun_def trailing_def)
next
  case (snoc x xs)
  show ?case
  proof (cases m)
    case 0
    then show ?thesis by (auto simp: endsRun_def)
  next
    case (Suc k)
    have r: "replicate (Suc k) b = replicate k b @ [b]" by (simp add: replicate_append_same)
    have "endsRun b m (xs @ [x]) \<longleftrightarrow> x = b \<and> endsRun b k xs"
      unfolding endsRun_def Suc r append_assoc [symmetric] append1_eq_conv by blast
    with snoc.IH Suc show ?thesis by auto
  qed
qed

lemma hasRun_snoc:
  "hasRun b m (xs @ [x]) \<longleftrightarrow> hasRun b m xs \<or> endsRun b m (xs @ [x])"
proof
  assume "hasRun b m (xs @ [x])"
  then obtain p s where ps: "xs @ [x] = p @ replicate m b @ s" by (auto simp: hasRun_def)
  show "hasRun b m xs \<or> endsRun b m (xs @ [x])"
  proof (cases s rule: rev_cases)
    case Nil
    with ps show ?thesis by (auto simp: endsRun_def)
  next
    case (snoc s' y)
    with ps have "xs = p @ replicate m b @ s'" by simp
    then show ?thesis by (auto simp: hasRun_def)
  qed
next
  assume "hasRun b m xs \<or> endsRun b m (xs @ [x])"
  then show "hasRun b m (xs @ [x])"
    by (fastforce simp: hasRun_def endsRun_def)
qed

lemma trailing_after_True: "trailing False (p @ True # s) = trailing False s"
proof (induction s rule: rev_induct)
  case Nil
  then show ?case using trailing_snoc [of False p True] by (simp add: trailing_def)
next
  case (snoc x s)
  then show ?case using trailing_snoc [of False "p @ True # s" x] by simp
qed

lemma endsRun_False_after:
  assumes "m > 0"
  shows "endsRun False n (p @ replicate m True @ s) \<longleftrightarrow> endsRun False n s"
proof -
  obtain k where "m = Suc k" using assms by (cases m) auto
  then have "p @ replicate m True @ s = (p @ replicate k True) @ True # s"
    by (simp add: replicate_app_Cons_same)
  then show ?thesis
    unfolding endsRun_trailing by (simp only: trailing_after_True)
qed

lemma hasRun_Nil [simp]: "hasRun b m [] \<longleftrightarrow> m = 0"
  by (auto simp: hasRun_def)

lemma open_spec_Nil [simp]: "m > 0 \<Longrightarrow> \<not> open_spec m []"
  by (auto simp: open_spec_def)

lemma endsRun_other [simp]: "m > 0 \<Longrightarrow> x \<noteq> b \<Longrightarrow> \<not> endsRun b m (xs @ [x])"
  by (simp add: endsRun_trailing)

lemma open_spec_True:
  assumes "m > 0"
  shows "open_spec m (xs @ [True]) \<longleftrightarrow> open_spec m xs \<or> endsRun True m (xs @ [True])" (is "?l \<longleftrightarrow> ?r")
proof
  assume ?l
  then obtain p s where ps: "xs @ [True] = p @ replicate m True @ s" "\<not> hasRun False m s"
    by (auto simp: open_spec_def)
  show ?r
  proof (cases s rule: rev_cases)
    case Nil
    with ps show ?thesis by (auto simp: endsRun_def)
  next
    case (snoc s' y)
    with ps have "xs = p @ replicate m True @ s'" "\<not> hasRun False m s'" by (auto simp: hasRun_snoc)
    then show ?thesis by (auto simp: open_spec_def)
  qed
next
  assume ?r
  then show ?l
  proof
    assume "open_spec m xs"
    then obtain p s where ps: "xs = p @ replicate m True @ s" "\<not> hasRun False m s"
      by (auto simp: open_spec_def)
    with assms have "xs @ [True] = p @ replicate m True @ (s @ [True])" "\<not> hasRun False m (s @ [True])"
      by (auto simp: hasRun_snoc)
    then show ?l unfolding open_spec_def by blast
  next
    assume "endsRun True m (xs @ [True])"
    then obtain p where "xs @ [True] = p @ replicate m True @ []" by (auto simp: endsRun_def)
    with assms show ?l unfolding open_spec_def by (metis hasRun_Nil not_gr_zero)
  qed
qed

lemma open_spec_False:
  assumes "m > 0"
  shows "open_spec m (xs @ [False]) \<longleftrightarrow> open_spec m xs \<and> \<not> endsRun False m (xs @ [False])" (is "?l \<longleftrightarrow> ?r")
proof
  assume ?l
  then obtain p s where ps: "xs @ [False] = p @ replicate m True @ s" "\<not> hasRun False m s"
    by (auto simp: open_spec_def)
  from ps(1) assms have "s \<noteq> []"
    by (metis append_Nil2 endsRun_def endsRun_other)
  then obtain s' y where s: "s = s' @ [y]" by (cases s rule: rev_cases) auto
  with ps have "xs = p @ replicate m True @ s'" "y = False" "\<not> hasRun False m s'"
    by (auto simp: hasRun_snoc)
  moreover have "\<not> endsRun False m (xs @ [False])"
    using ps s unfolding ps(1) endsRun_False_after [OF assms] by (auto simp: hasRun_snoc)
  ultimately show ?r unfolding open_spec_def by blast
next
  assume ?r
  then obtain p s where ps: "xs = p @ replicate m True @ s" "\<not> hasRun False m s"
    and e: "\<not> endsRun False m (xs @ [False])"
    by (auto simp: open_spec_def)
  have x: "xs @ [False] = p @ replicate m True @ (s @ [False])" using ps by simp
  have "\<not> hasRun False m (s @ [False])"
    using ps(2) e unfolding x endsRun_False_after [OF assms] by (simp add: hasRun_snoc)
  with x show ?l unfolding open_spec_def by blast
qed

text \<open>The counters of a key after a stream of observations.\<close>

definition counters_of :: "nat \<Rightarrow> bool list \<Rightarrow> counters" where
  "counters_of m obs = \<lparr>c_violations = int (trailing True obs), c_clears = int (trailing False obs),
     c_open = open_spec m obs\<rparr>"

definition runLength :: "int \<Rightarrow> nat" where
  "runLength consecutive = (if consecutive \<le> 0 then 1 else nat consecutive)"

definition key_state :: "Evaluator \<Rightarrow> EKey \<Rightarrow> counters" where
  "key_state e key = (case ev_state e key of None \<Rightarrow> zeroCounters | Some c \<Rightarrow> c)"

lemma runLength_pos [simp]: "runLength m > 0"
  by (simp add: runLength_def)

lemma key_state_upd: "key_state (e\<lparr>ev_state := (ev_state e)(key \<mapsto> c)\<rparr>) key = c"
  by (simp add: key_state_def)

lemmas Update_key_state = Evaluator_Update_def [folded key_state_def]

lemma Update_counters:
  assumes "key_state e key = counters_of (runLength m) obs"
  shows "key_state (snd (Evaluator_Update e key b m)) key = counters_of (runLength m) (obs @ [b])"
    and "fst (Evaluator_Update e key b m) =
      (if open_spec (runLength m) (obs @ [b]) = open_spec (runLength m) obs then NoChange
       else if open_spec (runLength m) (obs @ [b]) then Fired else Cleared)"
proof -
  have i: "(if m \<le> 0 then 1 else m) = int (runLength m)" by (simp add: runLength_def)
  have T: "open_spec (runLength m) (obs @ [True]) \<longleftrightarrow>
      open_spec (runLength m) obs \<or> runLength m \<le> Suc (trailing True obs)"
    by (simp add: open_spec_True endsRun_trailing)
  have F: "open_spec (runLength m) (obs @ [False]) \<longleftrightarrow>
      open_spec (runLength m) obs \<and> \<not> runLength m \<le> Suc (trailing False obs)"
    by (simp add: open_spec_False endsRun_trailing)
  show "key_state (snd (Evaluator_Update e key b m)) key = counters_of (runLength m) (obs @ [b])"
    unfolding Update_key_state assms i
    by (cases b) (auto simp: Let_def counters_of_def key_state_upd T F)
  show "fst (Evaluator_Update e key b m) =
      (if open_spec (runLength m) (obs @ [b]) = open_spec (runLength m) obs then NoChange
       else if open_spec (runLength m) (obs @ [b]) then Fired else Cleared)"
    unfolding Update_key_state assms i
    by (cases b) (auto simp: Let_def counters_of_def T F)
qed

lemma feed_counters: "key_state (feed key m NewEvaluator obs) key = counters_of (runLength m) obs"
proof (induction obs rule: rev_induct)
  case Nil
  then show ?case
    by (simp add: key_state_def NewEvaluator_def counters_of_def zeroCounters_def trailing_def)
next
  case (snoc b obs)
  then show ?case by (simp add: feed_append Update_counters(1))
qed

lemma isOpen_key_state: "isOpen e key = c_open (key_state e key)"
  by (auto simp: isOpen_def key_state_def zeroCounters_def split: option.splits)

lemma Update_other: "key' \<noteq> key \<Longrightarrow> ev_state (snd (Evaluator_Update e key b m)) key' = ev_state e key'"
  by (auto simp: Evaluator_Update_def Let_def)

section \<open>Properties\<close>

text \<open>C11: hysteresis. After any stream of observations of a key, its alert is open exactly when some
  \<open>m\<close> violations in a row were not followed by \<open>m\<close> clean observations in a row (\<open>m\<close> is the rule's
  \<open>consecutive\<close>, 1 when that is not positive), and the next observation reports \<^verbatim>\<open>Fired\<close> or
  \<^verbatim>\<open>Cleared\<close> exactly when it changes that, so fire and clear alternate.\<close>

theorem hysteresis_exact:
  "isOpen (feed key m NewEvaluator obs) key = open_spec (runLength m) obs \<and>
   fst (Evaluator_Update (feed key m NewEvaluator obs) key b m) =
     (if open_spec (runLength m) (obs @ [b]) = open_spec (runLength m) obs then NoChange
      else if open_spec (runLength m) (obs @ [b]) then Fired else Cleared)"
  using feed_counters [of key m obs] Update_counters(2) [OF feed_counters]
  by (simp add: isOpen_key_state counters_of_def)

text \<open>The z-score detector needs more than \<open>threshold\<^sup>2 + 1\<close> samples. The value it judges is part of the
  window it is judged against, so its score is at most the root of the number of samples less one: while the
  window holds no more than \<open>threshold\<^sup>2 + 1\<close> samples (ten, for the usual threshold of 3), no outlier is large
  enough to fire.\<close>

theorem zscore_needs_samples:
  assumes "window_inv w" and "v \<in> set (vals (w_buf w))" and "0 \<le> ru_Threshold rule" and "fst (EvaluateZScore v w rule)"
  shows "(ru_Threshold rule)\<^sup>2 + 1 < real_of_int (W_Count w)"
proof -
  define n where "n = real (length (w_buf w))"
  have st: "w_stats w = naive (vals (w_buf w))" using assms(1) by (simp add: window_inv_def)
  have count: "real_of_int (W_Count w) = n" "W_Mean w = meanOf (vals (w_buf w))" "(W_StdDev w)\<^sup>2 = m2Of (vals (w_buf w)) / n"
    using assms(2) by (auto simp: W_Count_def W_Mean_def W_StdDev_def st naive_def Stats_Count_def Stats_Mean_def
        Stats_StdDev_def Stats_Variance_def n_def)
  have fired: "n \<ge> 2" "W_StdDev w \<noteq> 0" "ru_Threshold rule < \<bar>v - W_Mean w\<bar> / W_StdDev w"
    using assms(4) count(1) by (auto simp: EvaluateZScore_def Let_def split: if_splits)
  then have "(ru_Threshold rule)\<^sup>2 < (\<bar>v - W_Mean w\<bar> / W_StdDev w)\<^sup>2"
    using assms(3) by (simp add: power_strict_mono)
  also have "\<dots> = n * (v - W_Mean w)\<^sup>2 / m2Of (vals (w_buf w))"
    using count(3) fired(1) by (simp add: power_divide)
  also have "\<dots> \<le> n - 1"
  proof -
    have "m2Of (vals (w_buf w)) > 0" using count(3) fired(1,2) m2Of_nonneg [of "vals (w_buf w)"] less_eq_real_def by fastforce
    then show ?thesis using deviation_bound [OF assms(2)] count(2) by (simp add: n_def divide_le_eq)
  qed
  finally show ?thesis using count(1) by simp
qed

definition spikeRule :: Rule where
  "spikeRule = \<lparr>ru_Name = ''spike'', ru_SensorType = ''*'', ru_Type = ''zscore'', ru_Severity = ''warning'', ru_Threshold = 1,
     ru_SilenceTimeout = 0, ru_Consecutive = 1\<rparr>"

definition spikeWindow :: Window where
  "spikeWindow = \<lparr>w_MaxCount = 10, w_MaxAge = 0, w_buf = [\<lparr>s_deviceTime = 1, s_value = 0, s_seq = 1\<rparr>,
     \<lparr>s_deviceTime = 2, s_value = 0, s_seq = 2\<rparr>, \<lparr>s_deviceTime = 3, s_value = 3, s_seq = 3\<rparr>],
     w_stats = naive [0, 0, 3], w_ewma = NewEWMA 0.3, w_prevEWMA = 0, w_seenSeq = [1, 2, 3], w_seenHead = 0\<rparr>"

lemma spikeWindow_stats: "W_Count spikeWindow = 3" "W_Mean spikeWindow = 1" "W_StdDev spikeWindow = sqrt 2"
  by (simp_all add: spikeWindow_def W_Count_def W_Mean_def W_StdDev_def naive_def Stats_Count_def Stats_Mean_def
      Stats_StdDev_def Stats_Variance_def meanOf_def m2Of_def)

theorem zscore_needs_samples_witness:
  "fst (EvaluateZScore 3 spikeWindow spikeRule) \<and> (1 :: real)\<^sup>2 + 1 < real_of_int (W_Count spikeWindow)"
proof -
  have "sqrt 2 < (2 :: real)" by (rule real_less_lsqrt) simp_all
  then have "fst (EvaluateZScore 3 spikeWindow spikeRule)"
    by (simp add: EvaluateZScore_def spikeWindow_stats spikeRule_def)
  moreover have "window_inv spikeWindow"
    by (simp add: window_inv_def spikeWindow_def within_bounds_def ring_ok_def dedupeRingSize_def)
  moreover have "3 \<in> set (vals (w_buf spikeWindow))" by (simp add: spikeWindow_def)
  ultimately show ?thesis
    using zscore_needs_samples [of spikeWindow 3 spikeRule] by (simp add: spikeRule_def)
qed

end
