(* ===== verification/Persistence.thy ===== *)
theory Persistence
  imports Database Telemetry
begin

text \<open>
  The persistence consumer of the processor, \<^verbatim>\<open>cmd/processor/consumer.go\<close>: it collects the
  readings JetStream delivers, writes them to the readings table in batches, and acknowledges a message
  once its rows are committed. A call returns what it told JetStream about which messages, in order
  (\<open>Ack\<close>, \<open>Nak\<close> with a delay, \<open>Term\<close>). The consumer's mutex makes the exchange of the batch
  atomic and each flush works on the batch it took, so calls are modelled one after another. The metrics
  and the lag poll are in the theory \<open>Metrics\<close>, the spans in \<open>Tracing\<close>; the bounds of Postgres's timestamps are not
  modelled.
\<close>

section \<open>State\<close>

definition batchSize :: nat where "batchSize = 100"
definition nakDelay :: duration where "nakDelay = 2 * second"

record flatRow =
  fr_time :: time
  fr_deviceID :: string
  fr_sensorType :: string
  fr_value :: real
  fr_deviceTime :: time
  fr_ingestTime :: time
  fr_seq :: int

record jsmsg =
  jm_delivery :: nat
  jm_data :: body

datatype ack = Ack | Nak duration | Term

record pendingItem =
  pi_msg :: jsmsg
  pi_deviceTime :: time
  pi_ingestTime :: time
  pi_traceID :: string

record consumer =
  c_rows :: "flatRow list"
  c_items :: "pendingItem list"

definition newConsumer :: consumer where
  "newConsumer = \<lparr>c_rows = [], c_items = []\<rparr>"

section \<open>Operations\<close>

text \<open>\<^verbatim>\<open>int64(sr.Seq)\<close> keeps the bits: a sequence number from 2^63 on becomes negative.\<close>

definition flatten :: "StampedReading \<Rightarrow> time \<Rightarrow> flatRow list" where
  "flatten sr t =
     (let r = srReading sr; deviceTime = time_UnixMilli (rDeviceTimeMS r); seq = sint (rSeq r);
          row = (\<lambda>st v. \<lparr>fr_time = t, fr_deviceID = rDeviceID r, fr_sensorType = st, fr_value = v,
                   fr_deviceTime = deviceTime, fr_ingestTime = t, fr_seq = seq\<rparr>) in
      case rValue r of
        Some v \<Rightarrow> [row (rSensorType r) v]
      | None \<Rightarrow> map (\<lambda>(axis, v). row (rSensorType r @ ''.'' @ axis) v)
                 (case rValues r of None \<Rightarrow> [] | Some m \<Rightarrow> m))"

definition rowOf :: "string \<Rightarrow> flatRow \<Rightarrow> ReadingRow" where
  "rowOf u r = \<lparr>rd_time = pg_ts (fr_time r), rd_device_id = u, rd_sensor_type = fr_sensorType r,
     rd_value = fr_value r, rd_device_time = pg_ts (fr_deviceTime r), rd_ingest_time = pg_ts (fr_ingestTime r),
     rd_seq = fr_seq r\<rparr>"

definition readingKey :: "ReadingRow \<Rightarrow> string \<times> string \<times> int \<times> time" where
  "readingKey r = (rd_device_id r, rd_sensor_type r, rd_seq r, rd_time r)"

text \<open>One \<^verbatim>\<open>INSERT\<close> of all rows with \<^verbatim>\<open>ON CONFLICT DO NOTHING\<close>: a row whose key is
  there is skipped, a row of a device that is not registered violates the foreign key, and an error undoes
  the whole statement. The protocol carries at most 65535 parameters.\<close>

fun insert_rows :: "flatRow list \<Rightarrow> pg \<Rightarrow> pg_error + pg" where
  "insert_rows [] d = Inr d"
| "insert_rows (r # rs) d =
     uuid_arg d (fr_deviceID r) (\<lambda>u.
       if readingKey (rowOf u r) \<in> readingKey ` set (pg_readings d) then insert_rows rs d
       else if \<not> device_exists d u then Inl foreign_key_violation
       else insert_rows rs (d\<lparr>pg_readings := pg_readings d @ [rowOf u r]\<rparr>))"

definition sql_insert_readings :: "flatRow list \<Rightarrow> unit statement" where
  "sql_insert_readings rows d =
     (if length rows * 7 > 65535 then Inl (PgArg ''extended protocol limited to 65535 parameters'')
      else case insert_rows rows d of Inl e \<Rightarrow> Inl e | Inr d' \<Rightarrow> Inr ((), d'))"

definition insertBatch :: "flatRow list \<Rightarrow> pg \<Rightarrow> pg_error option \<times> pg" where
  "insertBatch rows = pg_exec (sql_insert_readings rows)"

definition flush :: "consumer \<Rightarrow> pg \<Rightarrow> (jsmsg \<times> ack) list \<times> consumer \<times> pg" where
  "flush c d =
     (let rows = c_rows c; items = c_items c; c' = \<lparr>c_rows = [], c_items = []\<rparr> in
      if rows = [] then ([], c', d)
      else case insertBatch rows d of
             (Some err, d') \<Rightarrow> (map (\<lambda>i. (pi_msg i, Nak nakDelay)) items, c', d')
           | (None, d') \<Rightarrow> (map (\<lambda>i. (pi_msg i, Ack)) items, c', d'))"

definition consumer_onMessage :: "jsmsg \<Rightarrow> consumer \<Rightarrow> pg \<Rightarrow> (jsmsg \<times> ack) list \<times> consumer \<times> pg" where
  "consumer_onMessage msg c d =
     (case unmarshal_StampedReading (jm_data msg) of
        Inl err \<Rightarrow> ([(msg, Term)], c, d)
      | Inr sr \<Rightarrow>
          (let deviceTime = time_UnixMilli (rDeviceTimeMS (srReading sr)); ingestTime = time_UnixMilli (srIngestTimeMS sr);
               c1 = \<lparr>c_rows = c_rows c @ flatten sr ingestTime,
                     c_items = c_items c @ [\<lparr>pi_msg = msg, pi_deviceTime = deviceTime, pi_ingestTime = ingestTime,
                                             pi_traceID = rTraceID (srReading sr)\<rparr>]\<rparr> in
           if batchSize \<le> length (c_rows c1) then flush c1 d else ([], c1, d)))"

text \<open>\<^verbatim>\<open>run\<close>: what reaches its loop, and the drain when the context ends. A poll of the lag only sets a gauge.\<close>

datatype consumer_event = Deliver jsmsg | FlushTick | LagTick

fun consumer_step :: "consumer_event \<Rightarrow> consumer \<Rightarrow> pg \<Rightarrow> (jsmsg \<times> ack) list \<times> consumer \<times> pg" where
  "consumer_step (Deliver m) c d = consumer_onMessage m c d"
| "consumer_step FlushTick c d = flush c d"
| "consumer_step LagTick c d = ([], c, d)"

fun consumer_run :: "consumer_event list \<Rightarrow> consumer \<Rightarrow> pg \<Rightarrow> (jsmsg \<times> ack) list \<times> consumer \<times> pg" where
  "consumer_run [] c d = flush c d"
| "consumer_run (ev # evs) c d =
     (case consumer_step ev c d of (acks, c1, d1) \<Rightarrow>
        (case consumer_run evs c1 d1 of (acks', c2, d2) \<Rightarrow> (acks @ acks', c2, d2)))"

section \<open>Runs\<close>

text \<open>The consumer at work on a database others write to as well (they register devices and do not touch the readings;
  the retention policy of migration 0004, which drops readings when they are old, is not modelled): the messages
  delivered so far and what JetStream was told.\<close>

inductive persisting :: "pg \<Rightarrow> jsmsg list \<Rightarrow> (jsmsg \<times> ack) list \<Rightarrow> consumer \<Rightarrow> pg \<Rightarrow> bool" for d0 where
  start: "persisting d0 [] [] newConsumer d0"
| deliver: "persisting d0 ms out c d \<Longrightarrow> consumer_onMessage m c d = (acks, c', d') \<Longrightarrow>
    persisting d0 (ms @ [m]) (out @ acks) c' d'"
| tick: "persisting d0 ms out c d \<Longrightarrow> flush c d = (acks, c', d') \<Longrightarrow> persisting d0 ms (out @ acks) c' d'"
| others: "persisting d0 ms out c d \<Longrightarrow> pg_readings d' = pg_readings d \<Longrightarrow> pg_uuid d' = pg_uuid d \<Longrightarrow>
    persisting d0 ms out c d'"

text \<open>The rows of a message, and whether the table has a row under the key of a row.\<close>

definition msgRows :: "jsmsg \<Rightarrow> flatRow list" where
  "msgRows m = (case unmarshal_StampedReading (jm_data m) of
     Inl _ \<Rightarrow> [] | Inr sr \<Rightarrow> flatten sr (time_UnixMilli (srIngestTimeMS sr)))"

definition stored :: "pg \<Rightarrow> flatRow \<Rightarrow> bool" where
  "stored d r \<longleftrightarrow> (\<exists>u. pg_uuid d (fr_deviceID r) = Some u \<and> readingKey (rowOf u r) \<in> readingKey ` set (pg_readings d))"

section \<open>Lemmas\<close>

lemma insert_rows_stores:
  assumes "insert_rows rows d = Inr d'"
  shows "pg_uuid d' = pg_uuid d \<and> set (pg_readings d) \<subseteq> set (pg_readings d') \<and> (\<forall>r \<in> set rows. stored d' r) \<and>
     (distinct (map readingKey (pg_readings d)) \<longrightarrow> distinct (map readingKey (pg_readings d')))"
  using assms
proof (induction rows arbitrary: d)
  case (Cons r rs)
  from Cons.prems obtain u where u: "pg_uuid d (fr_deviceID r) = Some u" by (auto simp: uuid_arg_Inr)
  define d1 where "d1 = (if readingKey (rowOf u r) \<in> readingKey ` set (pg_readings d) then d
    else d\<lparr>pg_readings := pg_readings d @ [rowOf u r]\<rparr>)"
  have run: "insert_rows rs d1 = Inr d'" using Cons.prems u by (auto simp: d1_def uuid_arg_def split: if_splits)
  have d1: "pg_uuid d1 = pg_uuid d" "set (pg_readings d) \<subseteq> set (pg_readings d1)"
    "readingKey (rowOf u r) \<in> readingKey ` set (pg_readings d1)"
    "distinct (map readingKey (pg_readings d)) \<Longrightarrow> distinct (map readingKey (pg_readings d1))"
    by (auto simp: d1_def)
  have IH: "pg_uuid d' = pg_uuid d1" "set (pg_readings d1) \<subseteq> set (pg_readings d')" "\<forall>r \<in> set rs. stored d' r"
    "distinct (map readingKey (pg_readings d1)) \<Longrightarrow> distinct (map readingKey (pg_readings d'))"
    using Cons.IH [OF run] by simp_all
  have "stored d' r" unfolding stored_def using u d1(1,3) IH(1,2) by (metis image_mono subsetD)
  with d1 IH show ?case by auto
qed simp

lemma insert_rows_idle:
  "\<forall>r \<in> set rows. stored d r \<Longrightarrow> insert_rows rows d = Inr d"
  by (induction rows) (auto simp: stored_def uuid_arg_def)

text \<open>Whatever a batch insert answers, the table only grows and its keys stay distinct; if it answers success,
  the rows are stored.\<close>

lemma stored_mono:
  "stored d r \<Longrightarrow> pg_uuid d' = pg_uuid d \<Longrightarrow> set (pg_readings d) \<subseteq> set (pg_readings d') \<Longrightarrow> stored d' r"
  unfolding stored_def by (metis image_mono subsetD)

lemma insertBatch_grows:
  assumes "insertBatch rows d = (e, d')"
  shows "pg_uuid d' = pg_uuid d \<and> set (pg_readings d) \<subseteq> set (pg_readings d') \<and>
     (distinct (map readingKey (pg_readings d)) \<longrightarrow> distinct (map readingKey (pg_readings d'))) \<and>
     (e = None \<longrightarrow> (\<forall>r \<in> set rows. stored d' r))"
proof -
  obtain res where run: "pg_run (sql_insert_readings rows) d = (res, d')" and e: "e = None \<Longrightarrow> \<exists>a. res = Inr a"
    using assms by (auto simp: insertBatch_def pg_exec_def split: prod.splits sum.splits)
  from run show ?thesis
  proof (cases rule: pg_run_cases)
    case (unchanged fs err)
    with e show ?thesis by auto
  next
    case (ok fs a)
    then have "insert_rows rows (d\<lparr>pg_faults := fs\<rparr>) = Inr d'"
      by (auto simp: sql_insert_readings_def split: if_splits sum.splits)
    from insert_rows_stores [OF this] show ?thesis by simp
  next
    case (lost_reply fs a err)
    then have "insert_rows rows (d\<lparr>pg_faults := fs\<rparr>) = Inr d'"
      by (auto simp: sql_insert_readings_def split: if_splits sum.splits)
    from insert_rows_stores [OF this] show ?thesis by simp
  qed
qed

definition batch_ok :: "consumer \<Rightarrow> bool" where
  "batch_ok c \<longleftrightarrow> c_rows c = concat (map (msgRows \<circ> pi_msg) (c_items c))"

text \<open>What one step does: it disposes of messages that were pending or just delivered, loses none that has rows,
  and acknowledges only what is stored.\<close>

definition step_ok :: "jsmsg set \<Rightarrow> (jsmsg \<times> ack) list \<Rightarrow> consumer \<Rightarrow> pg \<Rightarrow> pg \<Rightarrow> bool" where
  "step_ok pend acks c' d d' \<longleftrightarrow> batch_ok c' \<and> pg_uuid d' = pg_uuid d \<and>
     set (pg_readings d) \<subseteq> set (pg_readings d') \<and>
     (distinct (map readingKey (pg_readings d)) \<longrightarrow> distinct (map readingKey (pg_readings d'))) \<and>
     (\<forall>m. (m, Ack) \<in> set acks \<longrightarrow> (\<forall>r \<in> set (msgRows m). stored d' r)) \<and>
     (\<forall>m \<in> pend. m \<in> pi_msg ` set (c_items c') \<or> m \<in> fst ` set acks \<or> msgRows m = [])"

lemma flush_step:
  assumes "flush c d = (acks, c', d')" and "batch_ok c"
  shows "step_ok (pi_msg ` set (c_items c)) acks c' d d'"
proof (cases "c_rows c = []")
  case True
  with assms show ?thesis by (auto simp: flush_def step_ok_def batch_ok_def)
next
  case False
  obtain e where ins: "insertBatch (c_rows c) d = (e, d')"
    using assms(1) False by (auto simp: flush_def Let_def split: prod.splits option.splits)
  have rows: "set (c_rows c) = (\<Union>i \<in> set (c_items c). set (msgRows (pi_msg i)))"
    using assms(2) by (simp add: batch_ok_def)
  show ?thesis
    using assms(1) False ins insertBatch_grows [OF ins] rows
    by (cases e) (auto simp: flush_def step_ok_def batch_ok_def image_image)
qed

lemma onMessage_step:
  assumes "consumer_onMessage m c d = (acks, c', d')" and "batch_ok c"
  shows "step_ok (insert m (pi_msg ` set (c_items c))) acks c' d d'"
proof (cases "unmarshal_StampedReading (jm_data m)")
  case (Inl err)
  with assms show ?thesis by (auto simp: consumer_onMessage_def step_ok_def)
next
  case (Inr sr)
  define c1 where "c1 = \<lparr>c_rows = c_rows c @ msgRows m, c_items = c_items c @
     [\<lparr>pi_msg = m, pi_deviceTime = time_UnixMilli (rDeviceTimeMS (srReading sr)),
       pi_ingestTime = time_UnixMilli (srIngestTimeMS sr), pi_traceID = rTraceID (srReading sr)\<rparr>]\<rparr>"
  have run: "(if batchSize \<le> length (c_rows c1) then flush c1 d else ([], c1, d)) = (acks, c', d')"
    using assms(1) Inr by (auto simp: consumer_onMessage_def c1_def msgRows_def Let_def split: if_splits)
  have ok: "batch_ok c1" using assms(2) by (simp add: c1_def batch_ok_def)
  have pend: "pi_msg ` set (c_items c1) = insert m (pi_msg ` set (c_items c))" by (simp add: c1_def)
  show ?thesis
  proof (cases "batchSize \<le> length (c_rows c1)")
    case True
    with run have "flush c1 d = (acks, c', d')" by simp
    from flush_step [OF this ok] show ?thesis unfolding pend .
  next
    case False
    with run ok pend show ?thesis by (auto simp: step_ok_def)
  qed
qed

definition persist_inv :: "jsmsg list \<Rightarrow> (jsmsg \<times> ack) list \<Rightarrow> consumer \<Rightarrow> pg \<Rightarrow> bool" where
  "persist_inv ms out c d \<longleftrightarrow> batch_ok c \<and> distinct (map readingKey (pg_readings d)) \<and>
     (\<forall>m. (m, Ack) \<in> set out \<longrightarrow> (\<forall>r \<in> set (msgRows m). stored d r)) \<and>
     (\<forall>m \<in> set ms. m \<in> pi_msg ` set (c_items c) \<or> m \<in> fst ` set out \<or> msgRows m = [])"

lemma persist_inv_step:
  assumes inv: "persist_inv ms out c d" and st: "step_ok (set new \<union> pi_msg ` set (c_items c)) acks c' d d'"
  shows "persist_inv (ms @ new) (out @ acks) c' d'"
  unfolding persist_inv_def
proof (intro conjI ballI allI impI)
  show "batch_ok c'" "distinct (map readingKey (pg_readings d'))"
    using inv st by (simp_all add: persist_inv_def step_ok_def)
  fix m r
  assume "(m, Ack) \<in> set (out @ acks)" and "r \<in> set (msgRows m)"
  then show "stored d' r"
    using inv st stored_mono [of d r d'] by (auto simp: persist_inv_def step_ok_def)
next
  fix m
  assume "m \<in> set (ms @ new)"
  then have "m \<in> set new \<union> pi_msg ` set (c_items c) \<or> m \<in> fst ` set out \<or> msgRows m = []"
    using inv by (auto simp: persist_inv_def)
  then show "m \<in> pi_msg ` set (c_items c') \<or> m \<in> fst ` set (out @ acks) \<or> msgRows m = []"
    using st unfolding step_ok_def by (metis UnCI image_Un set_append)
qed

lemma persisting_inv:
  assumes "persisting d0 ms out c d" and "distinct (map readingKey (pg_readings d0))"
  shows "persist_inv ms out c d"
  using assms
proof (induction rule: persisting.induct)
  case start
  then show ?case by (simp add: persist_inv_def batch_ok_def newConsumer_def)
next
  case (deliver ms out c d m acks c' d')
  then show ?case
    using onMessage_step [OF deliver.hyps(2)] persist_inv_step [of ms out c d "[m]"] by (simp add: persist_inv_def)
next
  case (tick ms out c d acks c' d')
  then show ?case
    using flush_step [OF tick.hyps(2)] persist_inv_step [of ms out c d "[]"] by (simp add: persist_inv_def)
next
  case (others ms out c d d')
  then show ?case by (simp add: persist_inv_def stored_def)
qed

subsection \<open>Where the rows of the table come from\<close>

definition rowsOf :: "(string \<Rightarrow> string option) \<Rightarrow> flatRow list \<Rightarrow> ReadingRow set" where
  "rowsOf uuid rows = {rowOf u r |u r. r \<in> set rows \<and> uuid (fr_deviceID r) = Some u}"

lemma rowsOf_append: "rowsOf uuid (xs @ ys) = rowsOf uuid xs \<union> rowsOf uuid ys"
  by (auto simp: rowsOf_def)

lemma insert_rows_source:
  "insert_rows rows d = Inr d' \<Longrightarrow> set (pg_readings d') \<subseteq> set (pg_readings d) \<union> rowsOf (pg_uuid d) rows"
proof (induction rows arbitrary: d)
  case (Cons r rs)
  then obtain u where u: "pg_uuid d (fr_deviceID r) = Some u" by (auto simp: uuid_arg_Inr)
  then have mem: "rowOf u r \<in> rowsOf (pg_uuid d) (r # rs)" by (auto simp: rowsOf_def)
  have mono: "rowsOf (pg_uuid d) rs \<subseteq> rowsOf (pg_uuid d) (r # rs)" by (auto simp: rowsOf_def)
  from Cons.prems u have "insert_rows rs d = Inr d' \<or> insert_rows rs (d\<lparr>pg_readings := pg_readings d @ [rowOf u r]\<rparr>) = Inr d'"
    by (auto simp: uuid_arg_def split: if_splits)
  then show ?case using Cons.IH mem mono by fastforce
qed simp

lemma insertBatch_source:
  assumes "insertBatch rows d = (e, d')"
  shows "set (pg_readings d') \<subseteq> set (pg_readings d) \<union> rowsOf (pg_uuid d) rows"
proof -
  obtain res where "pg_run (sql_insert_readings rows) d = (res, d')"
    using assms by (auto simp: insertBatch_def pg_exec_def split: prod.splits sum.splits)
  then have "pg_readings d' = pg_readings d \<or> (\<exists>fs. insert_rows rows (d\<lparr>pg_faults := fs\<rparr>) = Inr d')"
    by (cases rule: pg_run_cases) (auto simp: sql_insert_readings_def split: if_splits sum.splits)
  then show ?thesis using insert_rows_source [of rows "d\<lparr>pg_faults := fs\<rparr>" d' for fs] by fastforce
qed

lemma flush_source:
  assumes "flush c d = (acks, c', d')"
  shows "c' = newConsumer \<and> set (pg_readings d') \<subseteq> set (pg_readings d) \<union> rowsOf (pg_uuid d) (c_rows c)"
proof -
  obtain e d1 where ins: "insertBatch (c_rows c) d = (e, d1)" by fastforce
  have "c' = newConsumer \<and> (d' = d \<or> d' = d1)"
    using assms ins by (auto simp: flush_def newConsumer_def Let_def split: if_splits option.splits)
  with insertBatch_source [OF ins] show ?thesis by auto
qed

lemma onMessage_source:
  assumes "consumer_onMessage m c d = (acks, c', d')"
  shows "pi_msg ` set (c_items c') \<subseteq> insert m (pi_msg ` set (c_items c)) \<and>
    set (pg_readings d') \<subseteq> set (pg_readings d) \<union> rowsOf (pg_uuid d) (c_rows c @ msgRows m)"
proof (cases "unmarshal_StampedReading (jm_data m)")
  case (Inr sr)
  define c1 where "c1 = \<lparr>c_rows = c_rows c @ msgRows m, c_items = c_items c @
     [\<lparr>pi_msg = m, pi_deviceTime = time_UnixMilli (rDeviceTimeMS (srReading sr)),
       pi_ingestTime = time_UnixMilli (srIngestTimeMS sr), pi_traceID = rTraceID (srReading sr)\<rparr>]\<rparr>"
  have "(if batchSize \<le> length (c_rows c1) then flush c1 d else ([], c1, d)) = (acks, c', d')"
    using assms Inr by (auto simp: consumer_onMessage_def c1_def msgRows_def Let_def split: if_splits)
  then have "flush c1 d = (acks, c', d') \<or> c' = c1 \<and> d' = d" by (auto split: if_splits)
  moreover have "c_rows c1 = c_rows c @ msgRows m" "pi_msg ` set (c_items c1) = insert m (pi_msg ` set (c_items c))"
    by (simp_all add: c1_def)
  ultimately show ?thesis using flush_source [of c1 d acks c' d'] by (auto simp: newConsumer_def)
qed (use assms in \<open>auto simp: consumer_onMessage_def\<close>)

text \<open>Every row was there at the start or was made from a delivered message.\<close>

definition sourced :: "pg \<Rightarrow> jsmsg list \<Rightarrow> pg \<Rightarrow> bool" where
  "sourced d0 ms d \<longleftrightarrow> set (pg_readings d) \<subseteq> set (pg_readings d0) \<union> (\<Union>m \<in> set ms. rowsOf (pg_uuid d) (msgRows m))"

lemma batch_rowsOf: "batch_ok c \<Longrightarrow> rowsOf uuid (c_rows c) = (\<Union>m \<in> pi_msg ` set (c_items c). rowsOf uuid (msgRows m))"
  by (fastforce simp: batch_ok_def rowsOf_def)

lemma persisting_sourced:
  assumes "persisting d0 ms out c d" and "distinct (map readingKey (pg_readings d0))"
  shows "pi_msg ` set (c_items c) \<subseteq> set ms \<and> sourced d0 ms d"
  using assms
proof (induction rule: persisting.induct)
  case start
  then show ?case by (simp add: newConsumer_def sourced_def)
next
  case (deliver ms out c d m acks c' d')
  have ok: "batch_ok c" using persisting_inv [OF deliver.hyps(1) deliver.prems] by (simp add: persist_inv_def)
  have "pg_uuid d' = pg_uuid d" using onMessage_step [OF deliver.hyps(2) ok] by (simp add: step_ok_def)
  with onMessage_source [OF deliver.hyps(2)] deliver show ?case
    unfolding sourced_def rowsOf_append batch_rowsOf [OF ok] by fastforce
next
  case (tick ms out c d acks c' d')
  have ok: "batch_ok c" using persisting_inv [OF tick.hyps(1) tick.prems] by (simp add: persist_inv_def)
  have "pg_uuid d' = pg_uuid d" using flush_step [OF tick.hyps(2) ok] by (simp add: step_ok_def)
  with flush_source [OF tick.hyps(2)] tick show ?case
    unfolding sourced_def batch_rowsOf [OF ok] by (fastforce simp: newConsumer_def)
next
  case (others ms out c d d')
  then show ?case by (simp add: sourced_def)
qed

text \<open>A run of the loop is such a run.\<close>

definition deliveries :: "consumer_event list \<Rightarrow> jsmsg list" where
  "deliveries evs = concat (map (\<lambda>ev. case ev of Deliver m \<Rightarrow> [m] | _ \<Rightarrow> []) evs)"

lemma consumer_run_persisting:
  assumes "persisting d0 ms out c d" and "consumer_run evs c d = (acks, c', d')"
  shows "persisting d0 (ms @ deliveries evs) (out @ acks) c' d'"
  using assms
proof (induction evs arbitrary: ms out c d acks)
  case Nil
  then show ?case using persisting.tick by (simp add: deliveries_def)
next
  case (Cons ev evs)
  obtain a1 c1 d1 where s: "consumer_step ev c d = (a1, c1, d1)" by (rule prod_cases3)
  obtain a2 where r: "consumer_run evs c1 d1 = (a2, c', d')" and acks: "acks = a1 @ a2"
    using Cons.prems(2) s by (auto split: prod.splits)
  have "persisting d0 (ms @ deliveries [ev]) (out @ a1) c1 d1"
    using Cons.prems(1) s by (cases ev) (auto simp: deliveries_def intro: persisting.intros)
  from Cons.IH [OF this r] show ?case by (simp add: acks deliveries_def)
qed

lemma run_ends_empty: "consumer_run evs c d = (acks, c', d') \<Longrightarrow> c' = newConsumer"
proof (induction evs arbitrary: c d acks)
  case Nil
  then show ?case by (auto simp: flush_def newConsumer_def Let_def split: if_splits option.splits prod.splits)
qed (auto split: prod.splits)

section \<open>Properties\<close>

text \<open>Samples: a registered device, a message of its, and the consumer after that message.\<close>

definition persistPg :: pg where
  "persistPg = \<lparr>pg_faults = [], pg_uuid = Some, pg_devices = [\<lparr>dr_id = ''d1'', dr_name = ''n'', dr_type = ''t'',
     dr_registered_at = 0, dr_last_seen = None, dr_status = ''active'', dr_metadata = JObject []\<rparr>], pg_readings = [],
     pg_alerts = [], pg_shadow_history = [], pg_rollouts = [], pg_rollout_targets = [], pg_users = []\<rparr>"

definition persistMsg :: jsmsg where
  "persistMsg = \<lparr>jm_delivery = 1, jm_data = Some (marshal_StampedReading sampleStamped)\<rparr>"

definition persistPending :: consumer where
  "persistPending = \<lparr>c_rows = flatten sampleStamped (time_UnixMilli 1700000000123), c_items = [\<lparr>pi_msg = persistMsg,
     pi_deviceTime = time_UnixMilli 1700000000000, pi_ingestTime = time_UnixMilli 1700000000123,
     pi_traceID = ''0123456789abcdef0123456789abcdef''\<rparr>]\<rparr>"

definition persistDone :: pg where
  "persistDone = persistPg\<lparr>pg_readings := map (rowOf ''d1'') (c_rows persistPending)\<rparr>"

lemma persistMsg_decodes: "unmarshal_StampedReading (jm_data persistMsg) = Inr sampleStamped"
  using unmarshal_marshal_Stamped [of sampleStamped] by (simp add: persistMsg_def sampleStamped_def drop_empty_def)

lemma persist_deliver: "consumer_onMessage persistMsg newConsumer persistPg = ([], persistPending, persistPg)"
  unfolding consumer_onMessage_def persistMsg_decodes
  by (simp add: newConsumer_def persistPending_def batchSize_def sampleStamped_def flatten_def Let_def)

lemma persistPending_rows:
  "map (rowOf ''d1'') (c_rows persistPending) =
     [\<lparr>rd_time = 1700000000123000000, rd_device_id = ''d1'', rd_sensor_type = ''accel.x'', rd_value = 1,
        rd_device_time = 1700000000000000000, rd_ingest_time = 1700000000123000000, rd_seq = 7\<rparr>,
      \<lparr>rd_time = 1700000000123000000, rd_device_id = ''d1'', rd_sensor_type = ''accel.y'', rd_value = 2.5,
        rd_device_time = 1700000000000000000, rd_ingest_time = 1700000000123000000, rd_seq = 7\<rparr>]"
  by (simp add: persistPending_def flatten_def Let_def sampleStamped_def time_UnixMilli_def rowOf_def pg_ts_def)

lemma persist_flush: "flush persistPending persistPg = ([(persistMsg, Ack)], newConsumer, persistDone)"
proof -
  have "length (c_rows persistPending) = 2" using arg_cong [OF persistPending_rows, of length] by simp
  then obtain r1 r2 where rows: "c_rows persistPending = [r1, r2]"
    by (auto simp: numeral_2_eq_2 length_Suc_conv)
  then have r: "rowOf ''d1'' r1 = \<lparr>rd_time = 1700000000123000000, rd_device_id = ''d1'', rd_sensor_type = ''accel.x'', rd_value = 1,
        rd_device_time = 1700000000000000000, rd_ingest_time = 1700000000123000000, rd_seq = 7\<rparr>"
    "rowOf ''d1'' r2 = \<lparr>rd_time = 1700000000123000000, rd_device_id = ''d1'', rd_sensor_type = ''accel.y'', rd_value = 2.5,
        rd_device_time = 1700000000000000000, rd_ingest_time = 1700000000123000000, rd_seq = 7\<rparr>"
    using persistPending_rows by simp_all
  have "fr_deviceID r1 = ''d1''" "fr_deviceID r2 = ''d1''"
    using rows by (auto simp: persistPending_def flatten_def Let_def sampleStamped_def)
  then have "insert_rows [r1, r2] persistPg = Inr (persistPg\<lparr>pg_readings := [rowOf ''d1'' r1, rowOf ''d1'' r2]\<rparr>)"
    by (simp add: uuid_arg_def persistPg_def device_exists_def readingKey_def r)
  then show ?thesis
    using rows by (simp add: flush_def insertBatch_def pg_exec_def sql_insert_readings_def persistPg_def
        persistDone_def newConsumer_def) (simp add: persistPending_def)
qed

lemma persist_run: "persisting persistPg [persistMsg] [(persistMsg, Ack)] newConsumer persistDone"
  using persisting.tick [OF persisting.deliver [OF persisting.start persist_deliver] persist_flush] by simp

text \<open>C23: no reading is acknowledged before it is stored, and none is lost. However deliveries, flushes and
  failures of the database interleave, every message acknowledged to JetStream has all its rows in the
  readings table, a delivered message with rows is pending or was answered, and no two rows of the table share the
  idempotency key.\<close>

theorem persist_ack_safety:
  assumes "persisting d0 ms out c d" and "distinct (map readingKey (pg_readings d0))"
  shows "(\<forall>m r. (m, Ack) \<in> set out \<longrightarrow> r \<in> set (msgRows m) \<longrightarrow> stored d r) \<and>
     (\<forall>m \<in> set ms. msgRows m \<noteq> [] \<longrightarrow> m \<in> pi_msg ` set (c_items c) \<or> m \<in> fst ` set out) \<and>
     distinct (map readingKey (pg_readings d))"
  using persisting_inv [OF assms] unfolding persist_inv_def by blast

theorem persist_ack_safety_witness:
  "msgRows persistMsg \<noteq> [] \<and> stored persistDone (hd (msgRows persistMsg))"
proof -
  have "msgRows persistMsg \<noteq> []" by (simp add: msgRows_def persistMsg_decodes flatten_def Let_def sampleStamped_def)
  moreover have "distinct (map readingKey (pg_readings persistPg))" by (simp add: persistPg_def)
  ultimately show ?thesis
    using persist_ack_safety [OF persist_run, THEN conjunct1, rule_format, of persistMsg "hd (msgRows persistMsg)"] by simp
qed

text \<open>
  A shutdown leaves nothing behind. When the context of the processor ends, whatever messages, ticks and failures came before, its
  buffer is empty, every message delivered that has rows was answered, and those acknowledged are in the table.
\<close>

theorem shutdown_answers_all:
  assumes "consumer_run evs newConsumer d0 = (out, c, d)" and "distinct (map readingKey (pg_readings d0))"
  shows "c = newConsumer \<and> (\<forall>m \<in> set (deliveries evs). msgRows m \<noteq> [] \<longrightarrow>
    m \<in> fst ` set out \<and> ((m, Ack) \<in> set out \<longrightarrow> (\<forall>r \<in> set (msgRows m). stored d r)))"
  using persisting_inv [OF consumer_run_persisting [OF persisting.start assms(1)] assms(2)] run_ends_empty [OF assms(1)]
  by (auto simp: persist_inv_def newConsumer_def)

theorem shutdown_answers_all_witness:
  "\<exists>out d. consumer_run [Deliver persistMsg, LagTick] newConsumer persistPg = (out, newConsumer, d) \<and> persistMsg \<in> fst ` set out"
proof -
  have run: "consumer_run [Deliver persistMsg, LagTick] newConsumer persistPg = ([(persistMsg, Ack)], newConsumer, persistDone)"
    using persist_deliver persist_flush by simp
  have "distinct (map readingKey (pg_readings persistPg))" by (simp add: persistPg_def)
  moreover have "msgRows persistMsg \<noteq> []" by (simp add: msgRows_def persistMsg_decodes flatten_def Let_def sampleStamped_def)
  ultimately show ?thesis using shutdown_answers_all [OF run] run by (auto simp: deliveries_def)
qed

text \<open>Redelivery is idempotent. A message whose rows are stored, delivered again and flushed with the
  database reachable, leaves the readings table as it is and is acknowledged, whatever else the batch held that was
  stored too.\<close>

theorem redelivery_idempotent:
  assumes "c_rows c \<noteq> []" and "\<forall>r \<in> set (c_rows c). stored d r" and "length (c_rows c) \<le> 9362" and "pg_faults d = []"
  shows "flush c d = (map (\<lambda>i. (pi_msg i, Ack)) (c_items c), newConsumer, d)"
  using insert_rows_idle [OF assms(2)] assms
  by (simp add: flush_def insertBatch_def pg_exec_def sql_insert_readings_def newConsumer_def)

theorem redelivery_idempotent_witness:
  "flush persistPending persistDone = ([(persistMsg, Ack)], newConsumer, persistDone)"
proof -
  have "\<forall>r \<in> set (c_rows persistPending). stored persistDone r"
    by (simp add: stored_def persistDone_def persistPg_def) (auto simp: persistPending_def flatten_def Let_def sampleStamped_def)
  then show ?thesis
    using redelivery_idempotent [of persistPending persistDone]
    by (simp add: persistDone_def persistPg_def) (simp add: persistPending_def flatten_def Let_def sampleStamped_def)
qed

text \<open>Every stored reading belongs to a registered device (the foreign key).\<close>

definition readings_fk :: "pg \<Rightarrow> bool" where
  "readings_fk d \<longleftrightarrow> (\<forall>row \<in> set (pg_readings d). device_exists d (rd_device_id row))"

lemma insert_rows_poison:
  assumes "r \<in> set rows" and "pg_uuid d (fr_deviceID r) = Some u" and "\<not> device_exists d u" and "readings_fk d"
  shows "\<exists>e. insert_rows rows d = Inl e"
  using assms
proof (induction rows arbitrary: d)
  case (Cons r' rs)
  show ?case
  proof (cases "pg_uuid d (fr_deviceID r')")
    case (Some u')
    show ?thesis
    proof (cases "device_exists d u'")
      case True
      define d1 where "d1 = d\<lparr>pg_readings := pg_readings d @ [rowOf u' r']\<rparr>"
      have "r \<in> set rs" using Cons.prems Some True by auto
      moreover have "readings_fk d1" using Cons.prems(4) True
        by (auto simp: d1_def readings_fk_def device_exists_def rowOf_def)
      moreover have "pg_uuid d1 = pg_uuid d" "\<not> device_exists d1 u" using Cons.prems(3) by (simp_all add: d1_def device_exists_def)
      ultimately show ?thesis
        using Cons.IH [of d] Cons.IH [of d1] Cons.prems Some True by (auto simp: uuid_arg_def d1_def)
    next
      case False
      then have "readingKey (rowOf u' r') \<notin> readingKey ` set (pg_readings d)"
        using Cons.prems(4) by (auto simp: readings_fk_def readingKey_def rowOf_def)
      with Some False show ?thesis by (simp add: uuid_arg_def)
    qed
  qed (simp add: uuid_arg_def)
qed simp

text \<open>One reading of an unregistered device blocks its whole batch: nothing of the batch is stored and every
  message in it is refused for redelivery, however valid the others are.\<close>

theorem unknown_device_blocks_batch:
  assumes "r \<in> set (c_rows c)" and "pg_uuid d (fr_deviceID r) = Some u" and "\<not> device_exists d u" and "readings_fk d"
  shows "\<exists>d'. flush c d = (map (\<lambda>i. (pi_msg i, Nak nakDelay)) (c_items c), newConsumer, d') \<and> pg_readings d' = pg_readings d"
proof -
  obtain res d' where run: "pg_run (sql_insert_readings (c_rows c)) d = (res, d')"
    by (cases "pg_run (sql_insert_readings (c_rows c)) d")
  have bad: "sql_insert_readings (c_rows c) (d\<lparr>pg_faults := fs\<rparr>) \<noteq> Inr x" for fs x
    using insert_rows_poison [OF assms(1), of "d\<lparr>pg_faults := fs\<rparr>" u] assms
    by (auto simp: sql_insert_readings_def readings_fk_def)
  have "(\<exists>e. res = Inl e) \<and> pg_readings d' = pg_readings d"
    using run by (cases rule: pg_run_cases) (use bad in auto)
  moreover have "c_rows c \<noteq> []" using assms(1) by auto
  ultimately show ?thesis using run by (auto simp: flush_def insertBatch_def pg_exec_def newConsumer_def)
qed

theorem unknown_device_blocks_batch_witness:
  "\<exists>d'. flush persistPending (persistPg\<lparr>pg_devices := []\<rparr>) = ([(persistMsg, Nak 2000000000)], newConsumer, d') \<and> pg_readings d' = []"
  using unknown_device_blocks_batch [of "hd (c_rows persistPending)" persistPending "persistPg\<lparr>pg_devices := []\<rparr>" "''d1''"]
  by (simp add: persistPending_def flatten_def Let_def sampleStamped_def persistPg_def device_exists_def readings_fk_def nakDelay_def)

text \<open>A reading with an empty \<^verbatim>\<open>values\<close> object passes validation and is published by ingest, but it has no
  rows: a batch of such messages is dropped without an answer to JetStream, which redelivers them for ever.\<close>

theorem empty_values_never_answered:
  assumes "rValue (srReading sr) = None" and "rValues (srReading sr) = Some []"
    and "- (2 ^ 63) \<le> rDeviceTimeMS (srReading sr)" and "rDeviceTimeMS (srReading sr) < 2 ^ 63"
    and "- (2 ^ 63) \<le> srIngestTimeMS sr" and "srIngestTimeMS sr < 2 ^ 63"
    and "jm_data m = Some (marshal_StampedReading sr)"
  shows "\<exists>c. consumer_onMessage m newConsumer d = ([], c, d) \<and> m \<in> pi_msg ` set (c_items c) \<and> flush c d = ([], newConsumer, d)"
proof -
  have "unmarshal_StampedReading (jm_data m) = Inr (sr\<lparr>srReading := (srReading sr)\<lparr>rValues := None\<rparr>\<rparr>)"
    using assms unmarshal_marshal_Stamped [of sr] by (simp add: drop_empty_def)
  then show ?thesis
    using assms(1) by (simp add: consumer_onMessage_def flatten_def Let_def newConsumer_def flush_def batchSize_def)
qed

theorem empty_values_never_answered_witness:
  "\<exists>c. consumer_onMessage \<lparr>jm_delivery = 1, jm_data = Some (marshal_StampedReading (sampleStamped\<lparr>srReading :=
      (srReading sampleStamped)\<lparr>rValues := Some []\<rparr>\<rparr>))\<rparr> newConsumer persistPg = ([], c, persistPg) \<and>
     flush c persistPg = ([], newConsumer, persistPg)"
  using empty_values_never_answered [of "sampleStamped\<lparr>srReading := (srReading sampleStamped)\<lparr>rValues := Some []\<rparr>\<rparr>"
    "\<lparr>jm_delivery = 1, jm_data = Some (marshal_StampedReading (sampleStamped\<lparr>srReading :=
      (srReading sampleStamped)\<lparr>rValues := Some []\<rparr>\<rparr>))\<rparr>" persistPg]
  by (auto simp: sampleStamped_def)

end
