(* ===== verification/Windowed.thy ===== *)
theory Windowed
  imports World Registry Anomaly Alerts Persistence
begin

text \<open>
  The windowed consumer of the processor, \<^verbatim>\<open>cmd/processor/windowed.go\<close>: every reading is put into
  the window of its sensor, the window's statistics are published, the rules' detectors are evaluated on it,
  and the evaluator's fire and clear events open and resolve alerts; a periodic sweep runs the silence
  detector and evicts idle windows. Every message is acknowledged whatever happens. The counters of
  messages, alerts and publishes and the logs are not modelled; the order in which a Go map of components is visited is that of the association list.
\<close>

section \<open>State\<close>

definition MetricEventSchemaVersion :: string where "MetricEventSchemaVersion = ''1.0''"

record MetricEvent =
  me_SchemaVersion :: string
  me_DeviceID :: string
  me_SensorType :: string
  me_Mean :: real
  me_StdDev :: real
  me_Count :: int
  me_EWMA :: real
  me_WindowStartMS :: int
  me_WindowEndMS :: int
  me_TraceID :: string

definition marshal_MetricEvent :: "MetricEvent \<Rightarrow> json" where
  "marshal_MetricEvent e = JObject (
     [(''schema_version'', JString (me_SchemaVersion e)), (''device_id'', JString (me_DeviceID e)),
      (''sensor_type'', JString (me_SensorType e)), (''mean'', enc_float (me_Mean e)),
      (''stddev'', enc_float (me_StdDev e)), (''count'', JInt (me_Count e)), (''ewma'', enc_float (me_EWMA e)),
      (''window_start_ms'', JInt (me_WindowStartMS e)), (''window_end_ms'', JInt (me_WindowEndMS e))]
     @ omit_if (me_TraceID e = []) ''trace_id'' (JString (me_TraceID e)))"

record windowedConsumer =
  wc_registry :: Registry
  wc_rulesW :: Watcher
  wc_evaluator :: Evaluator
  wc_registryTTL :: duration
  wc_sweepInterval :: duration

definition newWindowedConsumer :: "Registry \<Rightarrow> Watcher \<Rightarrow> duration \<Rightarrow> duration \<Rightarrow> windowedConsumer" where
  "newWindowedConsumer registry rulesW registryTTL sweepInterval =
     \<lparr>wc_registry = registry, wc_rulesW = rulesW, wc_evaluator = NewEvaluator, wc_registryTTL = registryTTL,
      wc_sweepInterval = sweepInterval\<rparr>"

section \<open>Operations\<close>

definition publishMetric :: "string \<Rightarrow> string \<Rightarrow> Window \<Rightarrow> string \<Rightarrow> 'kv world \<Rightarrow> 'kv world" where
  "publishMetric deviceID sensorType wi traceID w =
     snd (on_js (bus_publish (MetricsSubject deviceID)
       (marshal_MetricEvent \<lparr>me_SchemaVersion = MetricEventSchemaVersion, me_DeviceID = deviceID,
          me_SensorType = sensorType, me_Mean = W_Mean wi, me_StdDev = W_StdDev wi, me_Count = W_Count wi,
          me_EWMA = W_EWMA wi, me_WindowStartMS = UnixMilli (OldestTime wi), me_WindowEndMS = UnixMilli (NewestTime wi),
          me_TraceID = traceID\<rparr>)) w)"

definition publishAlert :: "Alert \<Rightarrow> 'kv world \<Rightarrow> 'kv world" where
  "publishAlert a w = (let (t, w1) = time_Now w in snd (on_js (Alerts_Publish a t) w1))"

definition fireDetail :: "Rule \<Rightarrow> real \<Rightarrow> (string \<times> json) list option" where
  "fireDetail rule score =
     Some [(''detector'', JString (ru_Type rule)), (''score'', enc_float score), (''threshold'', enc_float (ru_Threshold rule))]"

definition fire :: "string \<Rightarrow> string \<Rightarrow> Rule \<Rightarrow> real \<Rightarrow> 'kv world \<Rightarrow> 'kv world" where
  "fire deviceID sensorType rule score w =
     (let (i, w1) = uuid_NewString w; (t, w2) = time_Now w1 in
      case on_pg_now (\<lambda>n. Alerts_Open n i deviceID sensorType (ru_Name rule) (ru_Severity rule) (fireDetail rule score) t) w2 of
        (Inl err, w3) \<Rightarrow> w3
      | (Inr (a, opened), w3) \<Rightarrow> publishAlert a w3)"

definition resolve :: "string \<Rightarrow> string \<Rightarrow> Rule \<Rightarrow> 'kv world \<Rightarrow> 'kv world" where
  "resolve deviceID sensorType rule w =
     (let (t, w1) = time_Now w in
      case on_pg_now (\<lambda>n. Alerts_Resolve n deviceID sensorType (ru_Name rule) t) w1 of
        (Inl err, w2) \<Rightarrow> w2
      | (Inr None, w2) \<Rightarrow> w2
      | (Inr (Some a), w2) \<Rightarrow> publishAlert a w2)"

definition applyEvaluation :: "string \<Rightarrow> string \<Rightarrow> Rule \<Rightarrow> bool \<Rightarrow> real \<Rightarrow> Evaluator \<times> 'kv world \<Rightarrow> Evaluator \<times> 'kv world" where
  "applyEvaluation deviceID sensorType rule violating score s =
     (let (e, w) = s;
          (ev, e') = Evaluator_Update e \<lparr>ek_DeviceID = deviceID, ek_SensorType = sensorType, ek_RuleName = ru_Name rule\<rparr>
                       violating (ConsecutiveOrDefault rule) in
      case ev of
        Fired \<Rightarrow> (e', fire deviceID sensorType rule score w)
      | Cleared \<Rightarrow> (e', resolve deviceID sensorType rule w)
      | NoChange \<Rightarrow> (e', w))"

text \<open>The body of the rule loop of \<^verbatim>\<open>processSample\<close>.\<close>

definition evalRule :: "string \<Rightarrow> string \<Rightarrow> real \<Rightarrow> Window \<Rightarrow> Rule \<Rightarrow> Evaluator \<times> 'kv world \<Rightarrow> Evaluator \<times> 'kv world" where
  "evalRule deviceID sensorType val wi rule s =
     (if ru_Type rule = Silence then s
      else if ru_Type rule = ZScore
        then (let (violating, score) = EvaluateZScore val wi rule in applyEvaluation deviceID sensorType rule violating score s)
      else if ru_Type rule = RateOfChange
        then (let (violating, score) = EvaluateRateOfChange wi rule in applyEvaluation deviceID sensorType rule violating score s)
      else s)"

definition processSample :: "string \<Rightarrow> string \<Rightarrow> real \<Rightarrow> time \<Rightarrow> u64 \<Rightarrow> string
    \<Rightarrow> windowedConsumer \<times> 'kv world \<Rightarrow> windowedConsumer \<times> 'kv world" where
  "processSample deviceID sensorType val deviceTime seq traceID s =
     (let (c, w) = s; key = \<lparr>wk_DeviceID = deviceID, wk_SensorType = sensorType\<rparr>;
          (now, w1) = time_Now w; (wi, reg) = Registry_Get (wc_registry c) key now in
      case Insert wi deviceTime val seq of
        (_, False) \<Rightarrow> (c\<lparr>wc_registry := reg\<rparr>, w1)
      | (wi', True) \<Rightarrow>
          (let c1 = c\<lparr>wc_registry := setWindow reg key wi'\<rparr>;
               w2 = publishMetric deviceID sensorType wi' traceID w1;
               (e, w3) = fold (evalRule deviceID sensorType val wi') (ForSensor (Watcher_Current (wc_rulesW c)) sensorType)
                           (wc_evaluator c1, w2)
           in (c1\<lparr>wc_evaluator := e\<rparr>, w3)))"

definition flattenValues :: "StampedReading \<Rightarrow> (string \<times> real) list" where
  "flattenValues sr =
     (let r = srReading sr in
      case rValue r of
        Some v \<Rightarrow> [(rSensorType r, v)]
      | None \<Rightarrow> map (\<lambda>(axis, v). (rSensorType r @ ''.'' @ axis, v)) (case rValues r of None \<Rightarrow> [] | Some m \<Rightarrow> m))"

definition windowed_onMessage :: "jsmsg \<Rightarrow> windowedConsumer \<times> 'kv world \<Rightarrow> (jsmsg \<times> ack) list \<times> windowedConsumer \<times> 'kv world" where
  "windowed_onMessage msg s =
     (case unmarshal_StampedReading (jm_data msg) of
        Inl err \<Rightarrow> ([(msg, Ack)], s)
      | Inr sr \<Rightarrow>
          (let r = srReading sr; deviceTime = time_UnixMilli (rDeviceTimeMS r) in
           ([(msg, Ack)],
            fold (\<lambda>(sensorType, val). processSample (rDeviceID r) sensorType val deviceTime (rSeq r) (rTraceID r))
              (flattenValues sr) s)))"

text \<open>\<^verbatim>\<open>gap.Seconds()\<close>.\<close>

definition Seconds :: "duration \<Rightarrow> real" where
  "Seconds d = real_of_int d / real_of_int second"

definition sweepKey :: "RulesConfig option \<Rightarrow> Registry \<Rightarrow> time \<Rightarrow> WKey \<Rightarrow> Evaluator \<times> 'kv world \<Rightarrow> Evaluator \<times> 'kv world" where
  "sweepKey cfg reg now key s =
     (case Registry_LastSeen reg key of
        (_, False) \<Rightarrow> s
      | (lastSeen, True) \<Rightarrow>
          fold (\<lambda>rule s. if ru_Type rule \<noteq> Silence then s
              else (let (violating, gap) = EvaluateSilence lastSeen now rule in
                    applyEvaluation (wk_DeviceID key) (wk_SensorType key) rule violating (Seconds gap) s))
            (ForSensor cfg (wk_SensorType key)) s)"

definition sweepSilence :: "windowedConsumer \<times> 'kv world \<Rightarrow> windowedConsumer \<times> 'kv world" where
  "sweepSilence s =
     (let (c, w) = s; cfg = Watcher_Current (wc_rulesW c); (now, w1) = time_Now w;
          (e, w2) = fold (sweepKey cfg (wc_registry c) now) (Registry_Keys (wc_registry c)) (wc_evaluator c, w1)
      in (c\<lparr>wc_evaluator := e\<rparr>, w2))"

text \<open>One tick of the sweep ticker in \<^verbatim>\<open>run\<close>.\<close>

definition windowed_sweep :: "windowedConsumer \<times> 'kv world \<Rightarrow> windowedConsumer \<times> 'kv world" where
  "windowed_sweep s =
     (let (c, w) = sweepSilence s; (now, w1) = time_Now w; (evicted, reg) = Registry_Sweep (wc_registry c) now (wc_registryTTL c)
      in (c\<lparr>wc_registry := reg\<rparr>, w1))"

section \<open>Runs\<close>

datatype wevent = WMsg jsmsg | WSweep

fun windowed_step :: "wevent \<Rightarrow> windowedConsumer \<times> 'kv world \<Rightarrow> windowedConsumer \<times> 'kv world" where
  "windowed_step (WMsg m) s = snd (windowed_onMessage m s)"
| "windowed_step WSweep s = windowed_sweep s"

section \<open>Lemmas\<close>

lemma publishAlert_frame [simp]:
  "w_pg (publishAlert a w) = w_pg w" "w_uuids (publishAlert a w) = w_uuids w" "w_issued (publishAlert a w) = w_issued w"
  by (simp_all add: publishAlert_def world_defs split: prod.splits)

lemma publishMetric_frame [simp]:
  "w_pg (publishMetric dv st wi tr w) = w_pg w" "w_uuids (publishMetric dv st wi tr w) = w_uuids w"
  "w_issued (publishMetric dv st wi tr w) = w_issued w"
  by (simp_all add: publishMetric_def world_defs split: prod.splits)

lemma time_Now_frame [simp]:
  "w_pg (snd (time_Now w)) = w_pg w" "w_uuids (snd (time_Now w)) = w_uuids w" "w_issued (snd (time_Now w)) = w_issued w"
  by (simp_all add: time_Now_def)

text \<open>The database answers and the uuids still to be drawn are fresh.\<close>

definition quiet :: "'kv world \<Rightarrow> bool" where
  "quiet w \<longleftrightarrow> pg_faults (w_pg w) = [] \<and> inj (w_uuids w) \<and>
     (\<forall>n \<ge> w_issued w. pg_uuid (w_pg w) (w_uuids w n) = Some (w_uuids w n) \<and> w_uuids w n \<notin> al_id ` set (pg_alerts (w_pg w)))"

definition registered :: "pg \<Rightarrow> string \<Rightarrow> bool" where
  "registered d i \<longleftrightarrow> pg_uuid d i = Some i \<and> device_exists d i"

lemma fire_opens:
  assumes "quiet w" and "registered (w_pg w) dv" and "\<not> list_ex (open_for dv st (ru_Name rule)) (pg_alerts (w_pg w))"
  shows "\<exists>row. w_pg (fire dv st rule score w) = (w_pg w)\<lparr>pg_alerts := pg_alerts (w_pg w) @ [row]\<rparr> \<and>
     al_id row = w_uuids w (w_issued w) \<and> alert_key row = (dv, st, ru_Name rule) \<and> isOpenRow row \<and>
     w_uuids (fire dv st rule score w) = w_uuids w \<and> w_issued (fire dv st rule score w) = Suc (w_issued w)"
proof -
  let ?u = "w_uuids w (w_issued w)"
  have u: "pg_uuid (w_pg w) ?u = Some ?u" "?u \<notin> al_id ` set (pg_alerts (w_pg w))" "pg_faults (w_pg w) = []"
    using assms(1) by (auto simp: quiet_def)
  define t n where "t = w_clock w (w_ticks w)" and "n = w_clock w (Suc (w_ticks w))"
  define row where "row = \<lparr>al_id = ?u, al_device_id = dv, al_sensor_type = st, al_rule_name = ru_Name rule,
     al_severity = ru_Severity rule, al_state = Firing, al_detail = marshal_map (fireDetail rule score), al_fired_at = pg_ts t,
     al_acknowledged_at = None, al_resolved_at = None, al_updated_at = pg_ts n\<rparr>"
  have "sql_insert_alert n ?u dv st (ru_Name rule) (ru_Severity rule) (marshal_map (fireDetail rule score)) t (w_pg w) =
      Inr ([row], (w_pg w)\<lparr>pg_alerts := pg_alerts (w_pg w) @ [row]\<rparr>)"
    using assms(2,3) u(1,2) by (simp add: sql_insert_alert_def uuid_arg_def registered_def row_def Let_def)
  then have "snd (Alerts_Open n ?u dv st (ru_Name rule) (ru_Severity rule) (fireDetail rule score) t (w_pg w)) =
      (w_pg w)\<lparr>pg_alerts := pg_alerts (w_pg w) @ [row]\<rparr>"
    using u(3) by (simp add: Alerts_Open_def split: sum.splits)
  then have "w_pg (fire dv st rule score w) = (w_pg w)\<lparr>pg_alerts := pg_alerts (w_pg w) @ [row]\<rparr> \<and>
      w_uuids (fire dv st rule score w) = w_uuids w \<and> w_issued (fire dv st rule score w) = Suc (w_issued w)"
    by (auto simp: fire_def world_defs t_def n_def Let_def split: prod.splits sum.splits)
  then show ?thesis by (intro exI [of _ row]) (simp add: row_def alert_key_def isOpenRow_def state_consts)
qed

lemma resolve_closes:
  assumes "quiet w" and "registered (w_pg w) dv"
  shows "\<exists>n t. w_pg (resolve dv st rule w) = (w_pg w)\<lparr>pg_alerts :=
      map (\<lambda>r. if open_for dv st (ru_Name rule) r then resolveRow n t r else r) (pg_alerts (w_pg w))\<rparr> \<and>
     w_uuids (resolve dv st rule w) = w_uuids w \<and> w_issued (resolve dv st rule w) = w_issued w"
proof -
  define t n where "t = w_clock w (w_ticks w)" and "n = w_clock w (Suc (w_ticks w))"
  have "snd (Alerts_Resolve n dv st (ru_Name rule) t (w_pg w)) = (w_pg w)\<lparr>pg_alerts :=
      map (\<lambda>r. if open_for dv st (ru_Name rule) r then resolveRow n t r else r) (pg_alerts (w_pg w))\<rparr>"
    using assms by (auto simp: Alerts_Resolve_def sql_resolve_def uuid_arg_def registered_def quiet_def update_alerts_def
        split: list.splits sum.splits prod.splits)
  then show ?thesis
    by (intro exI [of _ n] exI [of _ t])
      (auto simp: resolve_def world_defs t_def n_def Let_def split: prod.splits sum.splits option.splits)
qed

lemma Update_isOpen:
  assumes "Evaluator_Update e k b m = (ev, e')"
  shows "isOpen e' k' = (if k' = k then (case ev of Fired \<Rightarrow> True | Cleared \<Rightarrow> False | NoChange \<Rightarrow> isOpen e k) else isOpen e k')"
    and "ev = Fired \<Longrightarrow> \<not> isOpen e k" and "ev = Cleared \<Longrightarrow> isOpen e k"
  using assms
  by (auto simp: Update_key_state isOpen_key_state key_state_def Let_def split: if_splits)

text \<open>The alert table mirrors the evaluator: for every device id in the database's own spelling, the evaluator
  holds a key open exactly when the table has an open alert for it.\<close>

definition mirrors :: "Evaluator \<Rightarrow> pg \<Rightarrow> bool" where
  "mirrors e d \<longleftrightarrow> (\<forall>dv st rn. pg_uuid d dv = Some dv \<longrightarrow>
     isOpen e \<lparr>ek_DeviceID = dv, ek_SensorType = st, ek_RuleName = rn\<rparr> = list_ex (open_for dv st rn) (pg_alerts d))"

definition mirror_ok :: "pg \<Rightarrow> Evaluator \<times> 'kv world \<Rightarrow> bool" where
  "mirror_ok d0 s \<longleftrightarrow> mirrors (fst s) (w_pg (snd s)) \<and> quiet (snd s) \<and>
     pg_uuid (w_pg (snd s)) = pg_uuid d0 \<and> pg_devices (w_pg (snd s)) = pg_devices d0"

lemma quiet_issued:
  assumes "quiet w" and "w_pg w' = (w_pg w)\<lparr>pg_alerts := pg_alerts (w_pg w) @ [row]\<rparr>" and "al_id row = w_uuids w (w_issued w)"
    and "w_uuids w' = w_uuids w" and "w_issued w' = Suc (w_issued w)"
  shows "quiet w'"
proof -
  have "w_uuids w n \<noteq> al_id row" if "Suc (w_issued w) \<le> n" for n
    using assms(1,3) that by (auto simp: quiet_def dest: injD)
  with assms show ?thesis by (auto simp: quiet_def)
qed

lemma open_for_resolved:
  "open_for a b c (if open_for dv st rn r then resolveRow n t r else r) \<longleftrightarrow> open_for a b c r \<and> (a, b, c) \<noteq> (dv, st, rn)"
  by (auto simp: open_for_def resolveRow_def)

lemma list_ex_resolved:
  "list_ex (open_for a b c) (map (\<lambda>r. if open_for dv st rn r then resolveRow n t r else r) rs) \<longleftrightarrow>
   list_ex (open_for a b c) rs \<and> (a, b, c) \<noteq> (dv, st, rn)"
  by (induction rs) (simp_all only: list.map list_ex_Nil_iff list_ex_Cons_iff open_for_resolved, blast+)

lemma applyEvaluation_mirror:
  assumes ok: "mirror_ok d0 s" and reg: "registered d0 dv"
  shows "mirror_ok d0 (applyEvaluation dv st rule b score s)"
proof -
  obtain e w where s: "s = (e, w)" by (cases s)
  let ?k = "\<lparr>ek_DeviceID = dv, ek_SensorType = st, ek_RuleName = ru_Name rule\<rparr>"
  obtain ev e' where up: "Evaluator_Update e ?k b (ConsecutiveOrDefault rule) = (ev, e')"
    by (cases "Evaluator_Update e ?k b (ConsecutiveOrDefault rule)")
  note upd = Update_isOpen [OF up]
  have w: "mirrors e (w_pg w)" "quiet w" "registered (w_pg w) dv" "pg_uuid (w_pg w) = pg_uuid d0" "pg_devices (w_pg w) = pg_devices d0"
    using ok reg by (simp_all add: mirror_ok_def s registered_def device_exists_def)
  have key: "isOpen e ?k = list_ex (open_for dv st (ru_Name rule)) (pg_alerts (w_pg w))"
    using w(1,3) by (auto simp: mirrors_def registered_def)
  show ?thesis
  proof (cases ev)
    case NoChange
    then have "isOpen e' = isOpen e" using upd(1) by (auto simp: fun_eq_iff)
    then show ?thesis using ok NoChange up by (simp add: applyEvaluation_def s mirror_ok_def mirrors_def)
  next
    case Fired
    let ?w' = "fire dv st rule score w"
    obtain row where row: "w_pg ?w' = (w_pg w)\<lparr>pg_alerts := pg_alerts (w_pg w) @ [row]\<rparr>" "al_id row = w_uuids w (w_issued w)"
      "alert_key row = (dv, st, ru_Name rule)" "isOpenRow row" "w_uuids ?w' = w_uuids w" "w_issued ?w' = Suc (w_issued w)"
      using fire_opens [OF w(2,3), of st rule score] key upd(2) [OF Fired] by blast
    have "quiet ?w'" by (rule quiet_issued [OF w(2) row(1,2,5,6)])
    moreover have "mirrors e' (w_pg ?w')"
      unfolding mirrors_def
    proof (intro allI impI)
      fix a b c
      assume "pg_uuid (w_pg ?w') a = Some a"
      then have "isOpen e \<lparr>ek_DeviceID = a, ek_SensorType = b, ek_RuleName = c\<rparr> = list_ex (open_for a b c) (pg_alerts (w_pg w))"
        using w(1) row(1) by (simp add: mirrors_def)
      then show "isOpen e' \<lparr>ek_DeviceID = a, ek_SensorType = b, ek_RuleName = c\<rparr> = list_ex (open_for a b c) (pg_alerts (w_pg ?w'))"
        using row(1,3,4) upd(1) Fired by (auto simp: open_for_alert_key)
    qed
    ultimately show ?thesis using w(4,5) row(1) up Fired by (simp add: applyEvaluation_def s mirror_ok_def)
  next
    case Cleared
    let ?w' = "resolve dv st rule w"
    obtain n t where res: "w_pg ?w' = (w_pg w)\<lparr>pg_alerts :=
        map (\<lambda>r. if open_for dv st (ru_Name rule) r then resolveRow n t r else r) (pg_alerts (w_pg w))\<rparr>"
      "w_uuids ?w' = w_uuids w" "w_issued ?w' = w_issued w"
      using resolve_closes [OF w(2,3), of st rule] by blast
    have "map al_id (pg_alerts (w_pg ?w')) = map al_id (pg_alerts (w_pg w))"
      using res(1) by (simp add: resolveRow_keeps)
    then have "al_id ` set (pg_alerts (w_pg ?w')) = al_id ` set (pg_alerts (w_pg w))" by (metis list.set_map)
    then have "quiet ?w'" using w(2) by (simp add: quiet_def res)
    moreover have "mirrors e' (w_pg ?w')"
      unfolding mirrors_def
    proof (intro allI impI)
      fix a b c
      assume "pg_uuid (w_pg ?w') a = Some a"
      then have "isOpen e \<lparr>ek_DeviceID = a, ek_SensorType = b, ek_RuleName = c\<rparr> = list_ex (open_for a b c) (pg_alerts (w_pg w))"
        using w(1) res(1) by (simp add: mirrors_def)
      then show "isOpen e' \<lparr>ek_DeviceID = a, ek_SensorType = b, ek_RuleName = c\<rparr> = list_ex (open_for a b c) (pg_alerts (w_pg ?w'))"
        using upd(1) Cleared by (simp add: res(1) list_ex_resolved)
    qed
    ultimately show ?thesis using w(4,5) res(1) up Cleared by (simp add: applyEvaluation_def s mirror_ok_def)
  qed
qed

text \<open>The consumer's invariant: a mirror in good order, a well-formed registry, and windows of registered devices
  only.\<close>

definition windowed_ok :: "pg \<Rightarrow> windowedConsumer \<times> 'kv world \<Rightarrow> bool" where
  "windowed_ok d0 s \<longleftrightarrow> mirror_ok d0 (wc_evaluator (fst s), snd s) \<and> registry_inv (wc_registry (fst s)) \<and>
     (\<forall>k \<in> set (Registry_Keys (wc_registry (fst s))). registered d0 (wk_DeviceID k))"

lemma mirror_ok_frame:
  "w_pg w' = w_pg w \<Longrightarrow> w_uuids w' = w_uuids w \<Longrightarrow> w_issued w' = w_issued w \<Longrightarrow> mirror_ok d0 (e, w) \<Longrightarrow> mirror_ok d0 (e, w')"
  by (auto simp: mirror_ok_def quiet_def)

lemma evalRule_mirror: "mirror_ok d0 s \<Longrightarrow> registered d0 dv \<Longrightarrow> mirror_ok d0 (evalRule dv st v wi rule s)"
  by (simp add: evalRule_def applyEvaluation_mirror split: prod.splits)

lemma fold_keeps:
  assumes "P s" and "\<And>x s. x \<in> set xs \<Longrightarrow> P s \<Longrightarrow> P (f x s)"
  shows "P (fold f xs s)"
  using fold_invariant [of xs "\<lambda>x. x \<in> set xs" P s f] assms by blast

lemma Registry_Get_keys: "set (Registry_Keys (snd (Registry_Get r k now))) = insert k (set (Registry_Keys r))"
  by (simp add: Registry_Get_def Registry_Keys_def Let_def update_keys split: option.splits) auto

lemma setWindow_keys: "k \<in> set (Registry_Keys r) \<Longrightarrow> Registry_Keys (setWindow r k wi) = Registry_Keys r"
  by (simp add: setWindow_def Registry_Keys_def update_keys split: option.splits)

lemma Registry_Sweep_keys: "set (Registry_Keys (snd (Registry_Sweep r now ttl))) \<subseteq> set (Registry_Keys r)"
  by (auto simp: Registry_Sweep_def Registry_Keys_def Let_def)

lemma processSample_ok:
  assumes ok: "windowed_ok d0 s" and reg: "registered d0 dv"
  shows "windowed_ok d0 (processSample dv st v t q tr s)"
proof -
  obtain c w where s: "s = (c, w)" by (cases s)
  let ?k = "\<lparr>wk_DeviceID = dv, wk_SensorType = st\<rparr>"
  obtain now w1 where n: "time_Now w = (now, w1)" by (cases "time_Now w")
  obtain wi r1 where g: "Registry_Get (wc_registry c) ?k now = (wi, r1)" by (cases "Registry_Get (wc_registry c) ?k now")
  obtain wi' b where ins: "Insert wi t v q = (wi', b)" by (cases "Insert wi t v q")
  have r: "registry_inv (wc_registry c)" "\<forall>k \<in> set (Registry_Keys (wc_registry c)). registered d0 (wk_DeviceID k)"
    and m: "mirror_ok d0 (wc_evaluator c, w)" using ok by (simp_all add: windowed_ok_def s)
  have r1: "registry_inv r1" "window_inv wi" using Registry_Get_inv [OF r(1)] Registry_Get_window_inv [OF r(1), of ?k now] g
    by (metis snd_conv, simp)
  have k1: "set (Registry_Keys r1) = insert ?k (set (Registry_Keys (wc_registry c)))" using Registry_Get_keys [of "wc_registry c" ?k now] g by simp
  have m1: "mirror_ok d0 (wc_evaluator c, w1)" using mirror_ok_frame [OF _ _ _ m, of w1] time_Now_frame [of w] n by simp
  show ?thesis
  proof (cases b)
    case False
    then show ?thesis using n g ins r1 k1 m1 r(2) reg by (simp add: processSample_def s windowed_ok_def)
  next
    case True
    define w2 where "w2 = publishMetric dv st wi' tr w1"
    have "mirror_ok d0 (wc_evaluator c, w2)" by (rule mirror_ok_frame [OF _ _ _ m1]) (simp_all add: w2_def)
    then have m3: "mirror_ok d0 (fold (evalRule dv st v wi') rs (wc_evaluator c, w2))" for rs
      by (rule fold_keeps) (rule evalRule_mirror [OF _ reg])
    obtain e3 w3 where f3: "fold (evalRule dv st v wi') (ForSensor (Watcher_Current (wc_rulesW c)) st) (wc_evaluator c, w2) = (e3, w3)"
      by (cases "fold (evalRule dv st v wi') (ForSensor (Watcher_Current (wc_rulesW c)) st) (wc_evaluator c, w2)")
    with m3 have "mirror_ok d0 (e3, w3)" by metis
    moreover have "window_inv wi'" using Insert_inv [OF r1(2), of t v q] ins by simp
    then have "registry_inv (setWindow r1 ?k wi')" using r1(1) by (intro setWindow_inv)
    moreover have "Registry_Keys (setWindow r1 ?k wi') = Registry_Keys r1" using k1 by (intro setWindow_keys) simp
    ultimately show ?thesis using n g ins True k1 r(2) reg
      by (simp add: processSample_def s windowed_ok_def f3 w2_def [symmetric])
  qed
qed

lemma onMessage_ok:
  assumes "windowed_ok d0 s" and "\<And>sr. unmarshal_StampedReading (jm_data m) = Inr sr \<Longrightarrow> registered d0 (rDeviceID (srReading sr))"
  shows "windowed_ok d0 (snd (windowed_onMessage m s))"
proof (cases "unmarshal_StampedReading (jm_data m)")
  case (Inr sr)
  have "windowed_ok d0 (fold (\<lambda>(st, v). processSample (rDeviceID (srReading sr)) st v t q tr) vs s)" for t q tr vs
    by (rule fold_keeps [where P = "windowed_ok d0", OF assms(1)]) (auto intro: processSample_ok assms(2) [OF Inr])
  with Inr show ?thesis by (simp add: windowed_onMessage_def Let_def)
qed (simp add: windowed_onMessage_def assms(1))

lemma sweepKey_mirror:
  assumes "mirror_ok d0 s" and "registered d0 (wk_DeviceID key)"
  shows "mirror_ok d0 (sweepKey cfg reg now key s)"
proof -
  obtain ls b where "Registry_LastSeen reg key = (ls, b)" by (cases "Registry_LastSeen reg key")
  then show ?thesis
    using assms by (cases b) (auto simp: sweepKey_def intro!: fold_keeps [where P = "mirror_ok d0"] applyEvaluation_mirror split: prod.splits)
qed

lemma sweep_ok:
  assumes "windowed_ok d0 s"
  shows "windowed_ok d0 (windowed_sweep s)"
proof -
  obtain c w where s: "s = (c, w)" by (cases s)
  obtain now w1 where n: "time_Now w = (now, w1)" by (cases "time_Now w")
  have "mirror_ok d0 (wc_evaluator c, w1)"
    using mirror_ok_frame [of w1 w d0 "wc_evaluator c"] time_Now_frame [of w] n assms by (simp add: windowed_ok_def s)
  then have f: "mirror_ok d0 (fold (sweepKey cfg (wc_registry c) now) (Registry_Keys (wc_registry c)) (wc_evaluator c, w1))" for cfg
    by (rule fold_keeps) (use assms in \<open>auto simp: windowed_ok_def s intro: sweepKey_mirror\<close>)
  obtain e2 w2 where f2: "fold (sweepKey (Watcher_Current (wc_rulesW c)) (wc_registry c) now) (Registry_Keys (wc_registry c))
      (wc_evaluator c, w1) = (e2, w2)"
    by (cases "fold (sweepKey (Watcher_Current (wc_rulesW c)) (wc_registry c) now) (Registry_Keys (wc_registry c)) (wc_evaluator c, w1)")
  have sw: "sweepSilence s = (c\<lparr>wc_evaluator := e2\<rparr>, w2)" using f2 by (simp add: sweepSilence_def s n)
  obtain now' w3 where n': "time_Now w2 = (now', w3)" by (cases "time_Now w2")
  have m3: "mirror_ok d0 (e2, w3)"
    using mirror_ok_frame [of w3 w2 d0 e2] time_Now_frame [of w2] n' f [of "Watcher_Current (wc_rulesW c)"] f2 by simp
  obtain ev reg where rs: "Registry_Sweep (wc_registry c) now' (wc_registryTTL c) = (ev, reg)"
    by (cases "Registry_Sweep (wc_registry c) now' (wc_registryTTL c)")
  have "registry_inv reg" "set (Registry_Keys reg) \<subseteq> set (Registry_Keys (wc_registry c))"
    using Registry_Sweep_inv [of "wc_registry c" now' "wc_registryTTL c"] Registry_Sweep_keys [of "wc_registry c" now' "wc_registryTTL c"]
      rs assms by (simp_all add: windowed_ok_def s)
  with m3 rs assms show ?thesis by (auto simp: windowed_sweep_def sw [unfolded s] n' windowed_ok_def s)
qed

lemma windowed_run_ok:
  assumes "windowed_ok d0 s"
    and "\<And>m sr. WMsg m \<in> set evs \<Longrightarrow> unmarshal_StampedReading (jm_data m) = Inr sr \<Longrightarrow> registered d0 (rDeviceID (srReading sr))"
  shows "windowed_ok d0 (fold windowed_step evs s)"
proof (rule fold_keeps [where P = "windowed_ok d0", OF assms(1)])
  fix ev s
  assume ev: "ev \<in> set evs" and ok: "windowed_ok d0 s"
  show "windowed_ok d0 (windowed_step ev s)"
  proof (cases ev)
    case (WMsg m)
    with ev onMessage_ok [OF ok, of m] assms(2) show ?thesis by auto
  qed (simp add: sweep_ok ok)
qed

section \<open>Properties\<close>

text \<open>C24: the alert table mirrors the detectors. Start the consumer on a table with no open alert and let it
  process any messages of registered devices and any sweeps, with the database reachable (publishes may fail): for
  every device, sensor and rule an alert is open exactly when the evaluator holds the condition open, and every
  window in the registry is well formed.\<close>

theorem alerts_mirror_hysteresis:
  fixes w :: "'kv world"
  assumes "quiet w" and "\<forall>r \<in> set (pg_alerts (w_pg w)). al_state r = Resolved"
    and "\<And>m sr. WMsg m \<in> set evs \<Longrightarrow> unmarshal_StampedReading (jm_data m) = Inr sr \<Longrightarrow>
       registered (w_pg w) (rDeviceID (srReading sr))"
    and run: "fold windowed_step evs (newWindowedConsumer (NewRegistry mc ma al) rulesW ttl si, w) = (c', w')"
    and "pg_uuid (w_pg w) dv = Some dv"
  shows "isOpen (wc_evaluator c') \<lparr>ek_DeviceID = dv, ek_SensorType = st, ek_RuleName = rn\<rparr> =
       list_ex (open_for dv st rn) (pg_alerts (w_pg w')) \<and> registry_inv (wc_registry c')"
proof -
  have "windowed_ok (w_pg w) (newWindowedConsumer (NewRegistry mc ma al) rulesW ttl si, w)"
    using assms(1,2) NewRegistry_inv [of mc ma al]
    by (auto simp: windowed_ok_def mirror_ok_def mirrors_def newWindowedConsumer_def isOpen_def NewEvaluator_def
        Registry_Keys_def NewRegistry_def list_ex_iff open_for_def)
  from windowed_run_ok [OF this, of evs] assms(3) run have "windowed_ok (w_pg w) (c', w')" by simp
  then show ?thesis using assms(5) by (auto simp: windowed_ok_def mirror_ok_def mirrors_def)
qed

definition windowedWorld :: "unit world" where
  "windowedWorld = \<lparr>w_pg = persistPg, w_kv = (), w_mqtt = \<lparr>bus_faults = [], bus_sent = []\<rparr>,
     w_js = \<lparr>bus_faults = [Some (Lost ''down'')], bus_sent = []\<rparr>, w_clock = (\<lambda>n. 1700000000123000000 + int n),
     w_ticks = 0, w_uuids = (\<lambda>n. replicate n (CHR ''a'')), w_issued = 0\<rparr>"

lemma windowedWorld_quiet: "quiet windowedWorld"
  by (auto simp: quiet_def windowedWorld_def persistPg_def inj_def dest: arg_cong [where f = length])

theorem alerts_mirror_hysteresis_witness:
  "\<exists>c' w'. fold windowed_step [WMsg persistMsg, WSweep]
       (newWindowedConsumer (NewRegistry 60 0 0.3) \<lparr>wa_current = \<lparr>cfg_Rules = [spikeRule]\<rparr>\<rparr> 3600 60, windowedWorld) = (c', w') \<and>
     isOpen (wc_evaluator c') \<lparr>ek_DeviceID = ''d1'', ek_SensorType = ''accel.x'', ek_RuleName = ''spike''\<rparr> =
       list_ex (open_for ''d1'' ''accel.x'' ''spike'') (pg_alerts (w_pg w'))"
proof -
  let ?s = "(newWindowedConsumer (NewRegistry 60 0 0.3) \<lparr>wa_current = \<lparr>cfg_Rules = [spikeRule]\<rparr>\<rparr> 3600 60, windowedWorld)"
  obtain c' w' where run: "fold windowed_step [WMsg persistMsg, WSweep] ?s = (c', w')"
    by (cases "fold windowed_step [WMsg persistMsg, WSweep] ?s")
  have "registered (w_pg windowedWorld) (rDeviceID (srReading sampleStamped))"
    by (simp add: registered_def windowedWorld_def persistPg_def device_exists_def sampleStamped_def)
  then show ?thesis
    using alerts_mirror_hysteresis [OF windowedWorld_quiet _ _ run, of "''d1''" "''accel.x''" "''spike''"] run
    by (auto simp: windowedWorld_def persistPg_def persistMsg_decodes)
qed

lemma Update_open_violating: "isOpen e k \<Longrightarrow> fst (Evaluator_Update e k True m) = NoChange"
  by (auto simp: Evaluator_Update_def isOpen_def Let_def split: option.splits)

lemma Update_closed_clean: "\<not> isOpen e k \<Longrightarrow> fst (Evaluator_Update e k False m) = NoChange"
  by (auto simp: Evaluator_Update_def isOpen_def zeroCounters_def Let_def split: option.splits)

text \<open>Observations that the evaluator's open state already accounts for change nothing outside it.\<close>

lemma evaluations_idle:
  "isOpen e \<lparr>ek_DeviceID = dv, ek_SensorType = st, ek_RuleName = ru_Name rule\<rparr> = b \<Longrightarrow>
   snd (fold (applyEvaluation dv st rule b) scores (e, w)) = w"
proof (induction scores arbitrary: e)
  case (Cons sc scs)
  let ?k = "\<lparr>ek_DeviceID = dv, ek_SensorType = st, ek_RuleName = ru_Name rule\<rparr>"
  obtain ev e' where up: "Evaluator_Update e ?k b (ConsecutiveOrDefault rule) = (ev, e')"
    by (cases "Evaluator_Update e ?k b (ConsecutiveOrDefault rule)")
  have ev: "ev = NoChange"
    using Cons.prems Update_open_violating [of e ?k] Update_closed_clean [of e ?k] up by (cases b) (metis fst_conv)+
  moreover have "isOpen e' ?k = b" using Update_isOpen(1) [OF up, of ?k] ev Cons.prems by simp
  ultimately show ?case using Cons.IH [of e'] up by (simp add: applyEvaluation_def)
qed simp

text \<open>A failed open is never retried. If the database is unreachable at the moment a condition fires, the
  evaluator counts the alert as open but the table does not have it, and however long the condition lasts no
  further violation tries again: the whole episode goes without an alert.\<close>

theorem failed_open_not_retried:
  assumes "Evaluator_Update e \<lparr>ek_DeviceID = dv, ek_SensorType = st, ek_RuleName = ru_Name rule\<rparr> True (ConsecutiveOrDefault rule) = (Fired, e1)"
    and "pg_faults (w_pg w) = Some (Lost err) # fs"
  shows "pg_alerts (w_pg (snd (fold (applyEvaluation dv st rule True) (score # scores) (e, w)))) = pg_alerts (w_pg w)"
proof -
  have "pg_alerts (w_pg (fire dv st rule score w)) = pg_alerts (w_pg w)"
    using assms(2) by (simp add: fire_def world_defs Alerts_Open_def pg_run_def Let_def)
  moreover have "isOpen e1 \<lparr>ek_DeviceID = dv, ek_SensorType = st, ek_RuleName = ru_Name rule\<rparr>"
    using Update_isOpen(1) [OF assms(1)] by simp
  ultimately show ?thesis using evaluations_idle [of e1 dv st rule True scores "fire dv st rule score w"] assms(1) by (simp add: applyEvaluation_def)
qed

theorem failed_open_not_retried_witness:
  "pg_alerts (w_pg (snd (fold (applyEvaluation ''d1'' ''temp'' spikeRule True) [5, 6, 7]
     (NewEvaluator, windowedWorld\<lparr>w_pg := persistPg\<lparr>pg_faults := [Some (Lost ''down'')]\<rparr>\<rparr>)))) = []"
proof -
  obtain e1 where "Evaluator_Update NewEvaluator \<lparr>ek_DeviceID = ''d1'', ek_SensorType = ''temp'', ek_RuleName = ru_Name spikeRule\<rparr>
      True (ConsecutiveOrDefault spikeRule) = (Fired, e1)"
    by (auto simp: Evaluator_Update_def NewEvaluator_def zeroCounters_def spikeRule_def ConsecutiveOrDefault_def)
  then show ?thesis
    using failed_open_not_retried [of NewEvaluator "''d1''" "''temp''" spikeRule e1
        "windowedWorld\<lparr>w_pg := persistPg\<lparr>pg_faults := [Some (Lost ''down'')]\<rparr>\<rparr>" "''down''" "[]" 5 "[6, 7]"]
    by (simp add: windowedWorld_def persistPg_def)
qed

text \<open>An alert that was open when the processor restarted is not resolved by clean readings: the new evaluator
  starts with nothing open, so however many observations find the condition gone, none of them touches the table
  or publishes anything.\<close>

theorem restart_forgets_open_alerts:
  "snd (fold (applyEvaluation dv st rule False) scores (wc_evaluator (newWindowedConsumer reg rulesW ttl si), w)) = w"
  by (rule evaluations_idle) (simp add: newWindowedConsumer_def isOpen_def NewEvaluator_def)

end
