(* ===== verification/LiveFeed.thy ===== *)
theory LiveFeed
  imports Auth "HOL-Library.Sublist"
begin

text \<open>
  \<^verbatim>\<open>cmd/control/ws_handler.go\<close>: the live feed of the console. A viewer's connection has a channel of 64 frames
  between the NATS callbacks, which drop a frame when the channel is full, and one writer. Everything that can happen
  to the connection is an event; the order of the events is the order in which the goroutines got to run, and a
  statement about every list of events is one about every interleaving.
\<close>

section \<open>The handshake\<close>

definition ws_handshake :: "jwtops \<Rightarrow> time \<Rightarrow> string \<Rightarrow> string \<Rightarrow> string \<Rightarrow> http_reply option" where
  "ws_handshake jwt now token issuer signingKey =
     (case verifyToken jwt now token issuer signingKey of
        Inl _ \<Rightarrow> Some (writeJSONError 401 ''invalid or missing token'')
      | Inr (role, _) \<Rightarrow> if roleAllows role roleViewer then None else Some (writeJSONError 401 ''invalid or missing token''))"

section \<open>The connection\<close>

definition wsSendBuffer :: nat where "wsSendBuffer = 64"

definition wsRelaySubjects :: "(string \<times> string) list" where
  "wsRelaySubjects = [(''metric'', ''metrics.>''), (''alert'', ''alerts.>''), (''rollout'', ''rollout.>'')]"

text \<open>A frame carries the message's payload as it is; a payload that is not JSON makes \<^verbatim>\<open>json.Marshal\<close> fail.\<close>

record wsFrame =
  wf_Type :: string
  wf_Subject :: string
  wf_Payload :: json
  wf_TS :: int

definition marshal_wsFrame :: "wsFrame \<Rightarrow> json" where
  "marshal_wsFrame f = JObject [(''type'', JString (wf_Type f)), (''subject'', JString (wf_Subject f)), (''payload'', wf_Payload f), (''ts'', JInt (wf_TS f))]"

text \<open>\<open>wc_subs\<close> holds the kinds whose subscription succeeded, \<open>wc_open\<close> whether the writer's loop still runs,
  \<open>wc_closed\<close> whether the reader has closed the channel \<^verbatim>\<open>closed\<close>, \<open>wc_written\<close> the frames handed to the peer.\<close>

record ws_conn =
  wc_subs :: "string list"
  wc_send :: "json list"
  wc_closed :: bool
  wc_open :: bool
  wc_written :: "json list"
  wc_clients :: int

text \<open>Subscribing in order; a subject that fails is left out. \<open>errs\<close> says for each whether it fails.\<close>

fun subscribeAll :: "(string \<times> string) list \<Rightarrow> bool list \<Rightarrow> string list" where
  "subscribeAll [] errs = []"
| "subscribeAll ((kind, subject) # ss) errs =
     (if errs \<noteq> [] \<and> hd errs then subscribeAll ss (tl errs) else kind # subscribeAll ss (tl errs))"

definition serveWSConn :: "bool list \<Rightarrow> int \<Rightarrow> ws_conn" where
  "serveWSConn errs clients =
     \<lparr>wc_subs = subscribeAll wsRelaySubjects errs, wc_send = [], wc_closed = False, wc_open = True, wc_written = [], wc_clients = clients + 1\<rparr>"

text \<open>Leaving the loop runs the deferred calls: unsubscribe, one client less, close.\<close>

definition leave :: "ws_conn \<Rightarrow> ws_conn" where
  "leave c = c\<lparr>wc_open := False, wc_subs := [], wc_clients := wc_clients c - 1\<rparr>"

definition relay :: "string \<Rightarrow> string \<Rightarrow> body \<Rightarrow> time \<Rightarrow> ws_conn \<Rightarrow> ws_conn" where
  "relay kind subject data now c =
     (case data of
        None \<Rightarrow> c
      | Some payload \<Rightarrow>
          if length (wc_send c) < wsSendBuffer
          then c\<lparr>wc_send := wc_send c @ [marshal_wsFrame \<lparr>wf_Type = kind, wf_Subject = subject, wf_Payload = payload, wf_TS = UnixMilli now\<rparr>]\<rparr>
          else c)"

text \<open>The events: a message of a subscription, the reader seeing the peer go, and the three cases of the writer's select,
  each with the outcome of its write. A case that is not ready cannot be taken.\<close>

datatype ws_event =
    Message string string body time
  | PeerGone
  | TakeClosed
  | WriteFrame bool
  | WritePing bool

fun ws_step :: "ws_event \<Rightarrow> ws_conn \<Rightarrow> ws_conn" where
  "ws_step (Message kind subject data now) c = (if kind \<in> set (wc_subs c) then relay kind subject data now c else c)"
| "ws_step PeerGone c = c\<lparr>wc_closed := True\<rparr>"
| "ws_step TakeClosed c = (if wc_open c \<and> wc_closed c then leave c else c)"
| "ws_step (WriteFrame ok) c =
     (if wc_open c then
        (case wc_send c of
           [] \<Rightarrow> c
         | frame # rest \<Rightarrow>
             (let c1 = c\<lparr>wc_send := rest\<rparr> in
              if ok then c1\<lparr>wc_written := wc_written c1 @ [frame]\<rparr> else leave c1))
      else c)"
| "ws_step (WritePing ok) c = (if wc_open c \<and> \<not> ok then leave c else c)"

definition ws_run :: "ws_event list \<Rightarrow> ws_conn \<Rightarrow> ws_conn" where
  "ws_run evs c = fold ws_step evs c"

section \<open>Lemmas\<close>

text \<open>The frames of the messages of a run that a subscription delivers while the connection is open, in order.\<close>

fun event_frame :: "string list \<Rightarrow> ws_event \<Rightarrow> json list" where
  "event_frame subs (Message kind subject (Some payload) now) =
     (if kind \<in> set subs then [marshal_wsFrame \<lparr>wf_Type = kind, wf_Subject = subject, wf_Payload = payload, wf_TS = UnixMilli now\<rparr>] else [])"
| "event_frame subs _ = []"

definition ws_inv :: "ws_conn \<Rightarrow> bool" where
  "ws_inv c \<longleftrightarrow> length (wc_send c) \<le> wsSendBuffer \<and> (\<not> wc_open c \<longrightarrow> wc_subs c = [])"

lemma ws_inv_step: "ws_inv c \<Longrightarrow> ws_inv (ws_step e c)"
  by (cases e) (auto simp: ws_inv_def relay_def leave_def Let_def split: option.splits list.splits)

lemma ws_inv_run: "ws_inv c \<Longrightarrow> ws_inv (ws_run evs c)"
  unfolding ws_run_def by (induction evs arbitrary: c) (simp_all add: ws_inv_step)

lemma subs_shrink: "set (wc_subs (ws_step e c)) \<subseteq> set (wc_subs c)"
  by (cases e) (auto simp: relay_def leave_def Let_def split: option.splits list.splits)

text \<open>What has been written and what waits is a subsequence of the frames that arrived.\<close>

lemma event_frame_mono: "set subs \<subseteq> set subs' \<Longrightarrow> subseq (event_frame subs e) (event_frame subs' e)"
  by (induction subs e rule: event_frame.induct) auto

lemma step_subseq: "subseq (wc_written (ws_step e c) @ wc_send (ws_step e c)) (wc_written c @ wc_send c @ event_frame (wc_subs c) e)"
proof (cases e)
  case (Message kind subject data now)
  then show ?thesis by (cases data) (auto simp: relay_def)
next
  case (WriteFrame ok)
  have "subseq (xs @ ys) (xs @ y # ys)" for xs ys :: "json list" and y by (rule list_emb_append_mono) auto
  with WriteFrame show ?thesis by (cases "wc_send c") (auto simp: Let_def leave_def)
qed (auto simp: leave_def)

lemma run_subseq:
  "subseq (wc_written (ws_run evs c) @ wc_send (ws_run evs c)) (wc_written c @ wc_send c @ concat (map (event_frame (wc_subs c)) evs))"
proof (induction evs arbitrary: c)
  case (Cons e evs)
  let ?c = "ws_step e c" and ?rest = "\<lambda>subs. concat (map (event_frame subs) evs)"
  have "subseq (?rest (wc_subs ?c)) (?rest (wc_subs c))"
    using event_frame_mono [OF subs_shrink] by (induction evs) (auto intro: list_emb_append_mono)
  then have "subseq ((wc_written ?c @ wc_send ?c) @ ?rest (wc_subs ?c)) ((wc_written c @ wc_send c @ event_frame (wc_subs c) e) @ ?rest (wc_subs c))"
    by (rule list_emb_append_mono [OF step_subseq])
  with subseq_order.order_trans [OF Cons.IH [of ?c]] show ?case by (simp add: ws_run_def)
qed (simp add: ws_run_def)

lemma step_clients: "wc_clients (ws_step e c) - of_bool (wc_open (ws_step e c)) = wc_clients c - of_bool (wc_open c)"
  by (cases e) (auto simp: relay_def leave_def Let_def split: option.splits list.splits)

lemma run_clients: "wc_clients (ws_run evs c) - of_bool (wc_open (ws_run evs c)) = wc_clients c - of_bool (wc_open c)"
  unfolding ws_run_def by (induction evs arbitrary: c) (simp_all add: step_clients)

text \<open>A peer that stays, with writes that succeed, and a channel that never fills.\<close>

fun smooth :: "ws_event \<Rightarrow> bool" where
  "smooth PeerGone = False"
| "smooth (WriteFrame ok) = ok"
| "smooth (WritePing ok) = ok"
| "smooth _ = True"

lemma smooth_step:
  assumes "smooth e" and "wc_open c" "\<not> wc_closed c" and "length (wc_send c) < wsSendBuffer"
  shows "wc_written (ws_step e c) @ wc_send (ws_step e c) = wc_written c @ wc_send c @ event_frame (wc_subs c) e \<and>
    wc_open (ws_step e c) \<and> \<not> wc_closed (ws_step e c) \<and> wc_subs (ws_step e c) = wc_subs c"
proof (cases e)
  case (Message kind subject data now)
  then show ?thesis using assms by (cases data) (auto simp: relay_def)
qed (use assms in \<open>auto simp: Let_def split: list.splits\<close>)

lemma smooth_run:
  assumes "list_all smooth evs" and "wc_open c" "\<not> wc_closed c" and "\<And>k. k < length evs \<Longrightarrow> length (wc_send (ws_run (take k evs) c)) < wsSendBuffer"
  shows "wc_written (ws_run evs c) @ wc_send (ws_run evs c) = wc_written c @ wc_send c @ concat (map (event_frame (wc_subs c)) evs)"
  using assms
proof (induction evs arbitrary: c)
  case (Cons e evs)
  have "length (wc_send c) < wsSendBuffer" using Cons.prems(4) [of 0] by (simp add: ws_run_def)
  note step = smooth_step [OF _ Cons.prems(2,3) this, of e]
  have "length (wc_send (ws_run (take k evs) (ws_step e c))) < wsSendBuffer" if "k < length evs" for k
    using Cons.prems(4) [of "Suc k"] that by (simp add: ws_run_def)
  from Cons.IH [OF _ _ _ this] Cons.prems(1) step show ?case by (simp add: ws_run_def)
qed (simp add: ws_run_def)

section \<open>Properties\<close>

text \<open>C36: the feed of a viewer, whatever happens and in whatever order: the frames written to the socket are a subsequence of the
  frames of the messages that arrived on the subscriptions, so none is invented, repeated or overtaken; never more than
  64 wait; the number of connected clients is right; and once the loop has ended no frame is written any more.
\<close>

theorem live_feed_in_order:
  "subseq (wc_written (ws_run evs (serveWSConn errs n))) (concat (map (event_frame (subscribeAll wsRelaySubjects errs)) evs)) \<and>
   length (wc_send (ws_run evs (serveWSConn errs n))) \<le> 64 \<and>
   wc_clients (ws_run evs (serveWSConn errs n)) = n + of_bool (wc_open (ws_run evs (serveWSConn errs n))) \<and>
   (wc_open (ws_run evs (serveWSConn errs n)) \<or> wc_written (ws_run (evs @ later) (serveWSConn errs n)) = wc_written (ws_run evs (serveWSConn errs n)))"
proof -
  let ?c = "serveWSConn errs n" and ?r = "ws_run evs (serveWSConn errs n)"
  have "subseq (wc_written ?r @ wc_send ?r) (concat (map (event_frame (subscribeAll wsRelaySubjects errs)) evs))"
    using run_subseq [of evs ?c] by (simp add: serveWSConn_def)
  then have 1: "subseq (wc_written ?r) (concat (map (event_frame (subscribeAll wsRelaySubjects errs)) evs))"
    using subseq_order.order_trans [OF subseq_rev_drop_many [OF subseq_order.order_refl]] by blast
  have 2: "length (wc_send ?r) \<le> 64"
    using ws_inv_run [of ?c evs] by (simp add: ws_inv_def serveWSConn_def wsSendBuffer_def)
  have 3: "wc_clients ?r = n + of_bool (wc_open ?r)" using run_clients [of evs ?c] by (simp add: serveWSConn_def)
  have ended: "\<not> wc_open c \<Longrightarrow> wc_written (ws_run later c) = wc_written c \<and> \<not> wc_open (ws_run later c)" for c
    unfolding ws_run_def
  proof (induction later arbitrary: c)
    case (Cons e later)
    have "wc_written (ws_step e c) = wc_written c \<and> \<not> wc_open (ws_step e c)"
      using Cons.prems by (cases e) (auto simp: relay_def split: option.splits)
    with Cons.IH [of "ws_step e c"] show ?case by simp
  qed simp
  have 4: "wc_open ?r \<or> wc_written (ws_run (evs @ later) ?c) = wc_written ?r"
    using ended [of ?r] by (cases "wc_open ?r") (simp_all add: ws_run_def)
  from 1 2 3 4 show ?thesis by blast
qed

text \<open>Nothing is lost to a viewer who keeps up: while the peer stays, writes succeed and fewer than 64 frames wait at every
  step, the frames written and those waiting are exactly the frames of all messages of its subscriptions, in order.
\<close>

theorem live_feed_complete:
  assumes "list_all smooth evs" and "\<And>k. k < length evs \<Longrightarrow> length (wc_send (ws_run (take k evs) (serveWSConn errs n))) < wsSendBuffer"
  shows "wc_written (ws_run evs (serveWSConn errs n)) @ wc_send (ws_run evs (serveWSConn errs n)) =
    concat (map (event_frame (subscribeAll wsRelaySubjects errs)) evs)"
  using smooth_run [OF assms(1) _ _ assms(2)] by (simp add: serveWSConn_def)

theorem live_feed_complete_witness:
  "wc_written (ws_run [Message ''alert'' ''alerts.d1'' (Some JNull) 0, Message ''rollout'' ''rollout.r1'' (Some JNull) 0, WriteFrame True] (serveWSConn [] 0)) @
   wc_send (ws_run [Message ''alert'' ''alerts.d1'' (Some JNull) 0, Message ''rollout'' ''rollout.r1'' (Some JNull) 0, WriteFrame True] (serveWSConn [] 0)) =
   [marshal_wsFrame \<lparr>wf_Type = ''alert'', wf_Subject = ''alerts.d1'', wf_Payload = JNull, wf_TS = 0\<rparr>,
    marshal_wsFrame \<lparr>wf_Type = ''rollout'', wf_Subject = ''rollout.r1'', wf_Payload = JNull, wf_TS = 0\<rparr>]"
proof -
  let ?evs = "[Message ''alert'' ''alerts.d1'' (Some JNull) 0, Message ''rollout'' ''rollout.r1'' (Some JNull) 0, WriteFrame True]"
  have "length (wc_send (ws_run (take k ?evs) (serveWSConn [] 0))) < wsSendBuffer" if "k < length ?evs" for k
    using that by (auto simp: less_Suc_eq numeral_eq_Suc ws_run_def serveWSConn_def wsRelaySubjects_def relay_def wsSendBuffer_def)
  from live_feed_complete [OF _ this] show ?thesis by (simp add: wsRelaySubjects_def UnixMilli_def)
qed

end
