(* ===== verification/Streams.thy ===== *)
theory Streams
  imports Ingest LiveFeed
begin

text \<open>
  The JetStream streams and consumers the services declare when they start, \<^verbatim>\<open>cmd/ingest/jetstream.go\<close>,
  \<^verbatim>\<open>cmd/processor/jetstream.go\<close>, \<^verbatim>\<open>EnsureStream\<close> of \<^verbatim>\<open>internal/rollout/publisher.go\<close> and the first half of the two
  consumers' \<^verbatim>\<open>run\<close>, and what the declarations are for: which stream takes a message that a service publishes and which
  subscription sees it. A declaration is a call to the server that may fail; the matching of subjects is
  NATS's and a parameter, with the law of the locale \<open>nats_subjects\<close>.
\<close>

section \<open>Declarations\<close>

datatype storage = FileStorage | MemoryStorage

record StreamConfig =
  sc_Name :: string
  sc_Subjects :: "string list"
  sc_Storage :: storage
  sc_MaxAge :: duration
  sc_MaxBytes :: int

record ConsumerConfig =
  cc_Durable :: string
  cc_FilterSubject :: string

definition TelemetryStreamName :: string where "TelemetryStreamName = ''TELEMETRY''"
definition DLQStreamName :: string where "DLQStreamName = ''DLQ''"
definition MetricsStreamName :: string where "MetricsStreamName = ''METRICS''"
definition AlertsStreamName :: string where "AlertsStreamName = ''ALERTS''"
definition RolloutsStreamName :: string where "RolloutsStreamName = ''ROLLOUTS''"

lemmas stream_names = TelemetryStreamName_def DLQStreamName_def MetricsStreamName_def AlertsStreamName_def RolloutsStreamName_def

abbreviation hour :: duration where "hour \<equiv> 3600 * second"
abbreviation MiB :: int where "MiB \<equiv> 1048576"

text \<open>What JetStream was told: a script of faults, the streams by name and the durable consumers of a stream.\<close>

record jetstream =
  js_faults :: faults
  js_streams :: "StreamConfig list"
  js_consumers :: "(string \<times> ConsumerConfig) list"

definition js_call :: "(jetstream \<Rightarrow> jetstream) \<Rightarrow> jetstream \<Rightarrow> io_error option \<times> jetstream" where
  "js_call f j =
     (let (ft, fs) = next_fault (js_faults j); j0 = j\<lparr>js_faults := fs\<rparr> in
      case ft of None \<Rightarrow> (None, f j0) | Some (Lost e) \<Rightarrow> (Some e, j0) | Some (LostReply e) \<Rightarrow> (Some e, f j0))"

definition CreateOrUpdateStream :: "StreamConfig \<Rightarrow> jetstream \<Rightarrow> io_error option \<times> jetstream" where
  "CreateOrUpdateStream c = js_call (\<lambda>j. j\<lparr>js_streams := c # filter (\<lambda>x. sc_Name x \<noteq> sc_Name c) (js_streams j)\<rparr>)"

definition ingestStreams :: "StreamConfig list" where
  "ingestStreams =
     [\<lparr>sc_Name = TelemetryStreamName, sc_Subjects = [''telemetry.>''], sc_Storage = FileStorage, sc_MaxAge = 24 * hour,
       sc_MaxBytes = 1024 * MiB\<rparr>,
      \<lparr>sc_Name = DLQStreamName, sc_Subjects = [''dlq.>''], sc_Storage = FileStorage, sc_MaxAge = 6 * hour, sc_MaxBytes = 100 * MiB\<rparr>]"

definition processorStreams :: "StreamConfig list" where
  "processorStreams =
     [\<lparr>sc_Name = MetricsStreamName, sc_Subjects = [''metrics.>''], sc_Storage = MemoryStorage, sc_MaxAge = 600 * second,
       sc_MaxBytes = 100 * MiB\<rparr>,
      \<lparr>sc_Name = AlertsStreamName, sc_Subjects = [''alerts.>''], sc_Storage = FileStorage, sc_MaxAge = 7 * 24 * hour,
       sc_MaxBytes = 100 * MiB\<rparr>]"

definition rolloutStreams :: "StreamConfig list" where
  "rolloutStreams =
     [\<lparr>sc_Name = RolloutsStreamName, sc_Subjects = [''rollout.>''], sc_Storage = FileStorage, sc_MaxAge = 7 * 24 * hour,
       sc_MaxBytes = 100 * MiB\<rparr>]"

text \<open>The declarations in order; the first failure ends them, with the name of its stream.\<close>

fun declareStreams :: "StreamConfig list \<Rightarrow> jetstream \<Rightarrow> (string \<times> io_error) option \<times> jetstream" where
  "declareStreams [] j = (None, j)"
| "declareStreams (c # cs) j =
     (case CreateOrUpdateStream c j of (Some e, j1) \<Rightarrow> (Some (sc_Name c, e), j1) | (None, j1) \<Rightarrow> declareStreams cs j1)"

definition ingest_ensureStreams :: "jetstream \<Rightarrow> (string \<times> io_error) option \<times> jetstream" where
  "ingest_ensureStreams = declareStreams ingestStreams"

definition processor_ensureStreams :: "jetstream \<Rightarrow> (string \<times> io_error) option \<times> jetstream" where
  "processor_ensureStreams = declareStreams processorStreams"

definition rollout_EnsureStream :: "jetstream \<Rightarrow> (string \<times> io_error) option \<times> jetstream" where
  "rollout_EnsureStream = declareStreams rolloutStreams"

text \<open>How a consumer attaches to the telemetry: the lookup of the stream, the durable consumer, the start of the deliveries.\<close>

datatype attach_error = StreamLookup io_error | StreamNotFound | ConsumerCreate io_error | ConsumeStart io_error

definition telemetryFilterSubject :: string where "telemetryFilterSubject = ''telemetry.>''"

definition attachConsumer :: "string \<Rightarrow> jetstream \<Rightarrow> attach_error option \<times> jetstream" where
  "attachConsumer durable j =
     (case js_call id j of
        (Some e, j1) \<Rightarrow> (Some (StreamLookup e), j1)
      | (None, j1) \<Rightarrow>
          if TelemetryStreamName \<notin> sc_Name ` set (js_streams j1) then (Some StreamNotFound, j1)
          else
            (case js_call (\<lambda>j. j\<lparr>js_consumers := (TelemetryStreamName, \<lparr>cc_Durable = durable, cc_FilterSubject = telemetryFilterSubject\<rparr>)
                     # filter (\<lambda>(s, c). \<not> (s = TelemetryStreamName \<and> cc_Durable c = durable)) (js_consumers j)\<rparr>) j1 of
               (Some e, j2) \<Rightarrow> (Some (ConsumerCreate e), j2)
             | (None, j2) \<Rightarrow>
                 (case js_call id j2 of (Some e, j3) \<Rightarrow> (Some (ConsumeStart e), j3) | (None, j3) \<Rightarrow> (None, j3))))"

definition persistence_attach :: "jetstream \<Rightarrow> attach_error option \<times> jetstream" where
  "persistence_attach = attachConsumer ''persistence''"

definition windowing_attach :: "jetstream \<Rightarrow> attach_error option \<times> jetstream" where
  "windowing_attach = attachConsumer ''windowing''"

section \<open>Subjects\<close>

definition plain_token :: "string \<Rightarrow> bool" where
  "plain_token t \<longleftrightarrow> t \<noteq> [] \<and> set t \<inter> {CHR ''.'', CHR ''*'', CHR ''>'', CHR '' ''} = {}"

definition valid_subject :: "string \<Rightarrow> bool" where
  "valid_subject s \<longleftrightarrow> (\<forall>t \<in> set (splitOn (CHR ''.'') s). plain_token t)"

lemma plain_token_valid: "plain_token t \<Longrightarrow> valid_subject t"
  by (auto simp: plain_token_def valid_subject_def splitOn_no_sep)

lemma valid_subject_append: "valid_subject (a @ ''.'' @ b) \<longleftrightarrow> valid_subject a \<and> valid_subject b"
  using splitOn_append_sep [of "CHR ''.''" a b] by (auto simp: valid_subject_def)

text \<open>The streams that take a message and the live feed's subscriptions that see it.\<close>

definition captures :: "(string \<Rightarrow> string \<Rightarrow> bool) \<Rightarrow> string \<Rightarrow> StreamConfig \<Rightarrow> bool" where
  "captures matches subj c \<longleftrightarrow> (\<exists>f \<in> set (sc_Subjects c). matches f subj)"

definition streamsOf :: "(string \<Rightarrow> string \<Rightarrow> bool) \<Rightarrow> StreamConfig list \<Rightarrow> string \<Rightarrow> string list" where
  "streamsOf matches cs subj = map sc_Name (filter (captures matches subj) cs)"

definition feedKinds :: "(string \<Rightarrow> string \<Rightarrow> bool) \<Rightarrow> string \<Rightarrow> string list" where
  "feedKinds matches subj = map fst (filter (\<lambda>(kind, f). matches f subj) wsRelaySubjects)"

definition allStreams :: "StreamConfig list" where
  "allStreams = ingestStreams @ processorStreams @ rolloutStreams"

lemmas stream_decls = allStreams_def ingestStreams_def processorStreams_def rolloutStreams_def

lemma services_tokens:
  "plain_token ''telemetry''" "plain_token ''dlq''" "plain_token ''metrics''" "plain_token ''alerts''" "plain_token ''rollout''" "plain_token ''events''"
  by (simp_all add: plain_token_def)

locale nats_subjects =
  fixes matches :: "string \<Rightarrow> string \<Rightarrow> bool"
  assumes tail: "plain_token p \<Longrightarrow> valid_subject s \<Longrightarrow> matches (p @ ''.>'') s \<longleftrightarrow> (\<exists>x. s = p @ ''.'' @ x)"
begin

text \<open>A filter on a first token takes exactly the subjects that begin with it.\<close>

lemma tail_first:
  assumes "plain_token p" and "plain_token q" and "valid_subject x"
  shows "matches (p @ ''.>'') (q @ ''.'' @ x) \<longleftrightarrow> q = p"
proof -
  have "valid_subject (q @ ''.'' @ x)" using assms(2,3) plain_token_valid valid_subject_append by blast
  then have "matches (p @ ''.>'') (q @ ''.'' @ x) \<longleftrightarrow> (\<exists>y. q @ ''.'' @ x = p @ ''.'' @ y)" using tail [OF assms(1)] by blast
  also have "\<dots> \<longleftrightarrow> q = p"
  proof
    assume "\<exists>y. q @ ''.'' @ x = p @ ''.'' @ y"
    then obtain y where "splitOn (CHR ''.'') (q @ ''.'' @ x) = splitOn (CHR ''.'') (p @ ''.'' @ y)" by metis
    moreover have "CHR ''.'' \<notin> set q" "CHR ''.'' \<notin> set p" using assms(1,2) by (auto simp: plain_token_def)
    ultimately show "q = p" using splitOn_append [of "CHR ''.''"] by simp
  qed auto
  finally show ?thesis .
qed

lemmas first_token = tail_first [OF services_tokens(1), simplified] tail_first [OF services_tokens(2), simplified]
  tail_first [OF services_tokens(3), simplified] tail_first [OF services_tokens(4), simplified] tail_first [OF services_tokens(5), simplified]

lemma routes:
  assumes "plain_token q" and "valid_subject x"
  shows "streamsOf matches allStreams (q @ CHR ''.'' # x) =
      (if q = ''telemetry'' then [TelemetryStreamName] else if q = ''dlq'' then [DLQStreamName] else if q = ''metrics'' then [MetricsStreamName]
       else if q = ''alerts'' then [AlertsStreamName] else if q = ''rollout'' then [RolloutsStreamName] else [])"
    and "feedKinds matches (q @ CHR ''.'' # x) =
      (if q = ''metrics'' then [''metric''] else if q = ''alerts'' then [''alert''] else if q = ''rollout'' then [''rollout''] else [])"
    and "matches telemetryFilterSubject (q @ CHR ''.'' # x) \<longleftrightarrow> q = ''telemetry''"
proof -
  define s where "s = q @ CHR ''.'' # x"
  have "matches ''telemetry.>'' s \<longleftrightarrow> q = ''telemetry''" "matches ''dlq.>'' s \<longleftrightarrow> q = ''dlq''" "matches ''metrics.>'' s \<longleftrightarrow> q = ''metrics''"
    "matches ''alerts.>'' s \<longleftrightarrow> q = ''alerts''" "matches ''rollout.>'' s \<longleftrightarrow> q = ''rollout''"
    unfolding s_def by (fact first_token [OF assms])+
  note defs = streamsOf_def captures_def stream_decls feedKinds_def wsRelaySubjects_def telemetryFilterSubject_def this
  show "streamsOf matches allStreams (q @ CHR ''.'' # x) =
      (if q = ''telemetry'' then [TelemetryStreamName] else if q = ''dlq'' then [DLQStreamName] else if q = ''metrics'' then [MetricsStreamName]
       else if q = ''alerts'' then [AlertsStreamName] else if q = ''rollout'' then [RolloutsStreamName] else [])"
    unfolding s_def [symmetric] by (simp add: defs)
  show "feedKinds matches (q @ CHR ''.'' # x) =
      (if q = ''metrics'' then [''metric''] else if q = ''alerts'' then [''alert''] else if q = ''rollout'' then [''rollout''] else [])"
    unfolding s_def [symmetric] by (simp add: defs)
  show "matches telemetryFilterSubject (q @ CHR ''.'' # x) \<longleftrightarrow> q = ''telemetry''"
    unfolding s_def [symmetric] by (simp add: defs)
qed

end

text \<open>The matching of NATS, token by token.\<close>

fun match_tokens :: "string list \<Rightarrow> string list \<Rightarrow> bool" where
  "match_tokens [] ts = (ts = [])"
| "match_tokens (f # fs) ts =
     (if f = ''>'' then fs = [] \<and> ts \<noteq> []
      else (case ts of [] \<Rightarrow> False | t # ts \<Rightarrow> (f = ''*'' \<or> f = t) \<and> match_tokens fs ts))"

definition nats_matches :: "string \<Rightarrow> string \<Rightarrow> bool" where
  "nats_matches f s = match_tokens (splitOn (CHR ''.'') f) (splitOn (CHR ''.'') s)"

interpretation nats: nats_subjects nats_matches
proof
  fix p s
  assume p: "plain_token p" and "valid_subject s"
  have dot: "CHR ''.'' \<notin> set p" and lit: "p \<noteq> ''>''" "p \<noteq> ''*''" using p by (auto simp: plain_token_def)
  have "splitOn (CHR ''.'') (p @ ''.>'') = [p, ''>'']" using splitOn_append [OF dot, of "''>''"] by simp
  then have "nats_matches (p @ ''.>'') s \<longleftrightarrow> (\<exists>t ts. splitOn (CHR ''.'') s = p # t # ts)"
    using lit by (auto simp: nats_matches_def neq_Nil_conv split: list.splits)
  also have "\<dots> \<longleftrightarrow> (\<exists>x. s = p @ ''.'' @ x)"
  proof
    assume "\<exists>t ts. splitOn (CHR ''.'') s = p # t # ts"
    then obtain t ts where "splitOn (CHR ''.'') s = p # t # ts" by blast
    then have "s = joinWith (CHR ''.'') (p # t # ts)" by (metis joinWith_splitOn)
    then show "\<exists>x. s = p @ ''.'' @ x" by simp
  next
    assume "\<exists>x. s = p @ ''.'' @ x"
    then obtain x where "splitOn (CHR ''.'') s = p # splitOn (CHR ''.'') x" using splitOn_append [OF dot] by auto
    then show "\<exists>t ts. splitOn (CHR ''.'') s = p # t # ts" by (cases "splitOn (CHR ''.'') x") auto
  qed
  finally show "nats_matches (p @ ''.>'') s \<longleftrightarrow> (\<exists>x. s = p @ ''.'' @ x)" .
qed

section \<open>Lemmas\<close>

lemma js_call_None: "js_call f j = (None, j') \<Longrightarrow> \<exists>fs. j' = f (j\<lparr>js_faults := fs\<rparr>)"
  by (auto simp: js_call_def Let_def split: prod.splits option.splits fault.splits)

lemma js_call_streams:
  "(\<And>j. js_streams (f j) = js_streams j) \<Longrightarrow> js_call f j = (r, j') \<Longrightarrow> js_streams j' = js_streams j"
  by (auto simp: js_call_def Let_def split: prod.splits option.splits fault.splits)

text \<open>Declarations that all succeed leave those streams as declared, and the others as they were.\<close>

lemma declareStreams_ok:
  "declareStreams cs j = (None, j') \<Longrightarrow> distinct (map sc_Name cs) \<Longrightarrow>
   set (js_streams j') = set cs \<union> {c \<in> set (js_streams j). sc_Name c \<notin> sc_Name ` set cs}"
proof (induction cs arbitrary: j)
  case (Cons c cs)
  from Cons.prems(1) obtain j1 where c: "CreateOrUpdateStream c j = (None, j1)" and r: "declareStreams cs j1 = (None, j')"
    by (auto split: prod.splits option.splits)
  have "js_streams j1 = c # filter (\<lambda>x. sc_Name x \<noteq> sc_Name c) (js_streams j)"
    using js_call_None c by (fastforce simp: CreateOrUpdateStream_def)
  moreover have "sc_Name c \<notin> sc_Name ` set cs" using Cons.prems(2) by simp
  ultimately show ?case using Cons.IH [OF r] Cons.prems(2) by auto
qed simp

lemma stream_names_distinct:
  "distinct (map sc_Name ingestStreams)" "distinct (map sc_Name processorStreams)" "distinct (map sc_Name rolloutStreams)"
  by (simp_all add: stream_decls stream_names)

lemma attachConsumer_streams: "attachConsumer durable j = (r, j') \<Longrightarrow> js_streams j' = js_streams j"
  by (auto simp: attachConsumer_def dest!: js_call_streams [rotated] split: prod.splits option.splits if_splits)

text \<open>A consumer attaches only to a stream that exists.\<close>

lemma attachConsumer_None:
  "attachConsumer durable j = (None, j') \<Longrightarrow> TelemetryStreamName \<in> sc_Name ` set (js_streams j)"
  by (auto simp: attachConsumer_def dest!: js_call_streams [rotated] split: prod.splits option.splits if_splits)

lemma streamsOf_single:
  assumes "streamsOf matches cs subj = [n]"
  shows "\<exists>!c. c \<in> set cs \<and> captures matches subj c"
proof -
  obtain c where "filter (captures matches subj) cs = [c]" using assms by (auto simp: streamsOf_def)
  then have "set (filter (captures matches subj) cs) = {c}" by simp
  then have "x \<in> set cs \<and> captures matches subj x \<longleftrightarrow> x = c" for x by auto
  then show ?thesis by simp
qed

text \<open>Without faults every call succeeds.\<close>

definition js_calm :: "jetstream \<Rightarrow> bool" where
  "js_calm j \<longleftrightarrow> js_faults j = []"

lemma js_call_calm: "js_calm j \<Longrightarrow> js_call f j = (None, f j)"
  by (cases j) (simp add: js_calm_def js_call_def)

lemma declareStreams_calm: "js_calm j \<Longrightarrow> \<exists>j'. declareStreams cs j = (None, j') \<and> js_calm j'"
  by (induction cs arbitrary: j) (auto simp: CreateOrUpdateStream_def js_call_calm js_calm_def)

lemma attachConsumer_calm:
  "js_calm j \<Longrightarrow> TelemetryStreamName \<in> sc_Name ` set (js_streams j) \<Longrightarrow> \<exists>j'. attachConsumer durable j = (None, j') \<and> js_calm j'"
  by (auto simp: attachConsumer_def js_call_calm js_calm_def)

section \<open>Properties\<close>

text \<open>
  Every message finds its stream and its readers. A subject the services publish to is taken by exactly one of the declared streams,
  the one meant for it; the processor's consumers see the readings and nothing else, not even the dead letters; and a
  viewer of the console sees metrics, alerts and rollout events, each under its own kind, and no raw reading.
\<close>

theorem subjects_routed:
  assumes "nats_subjects matches" and "plain_token i"
  shows "streamsOf matches allStreams (JetStreamSubject i) = [TelemetryStreamName] \<and> streamsOf matches allStreams DLQSubject = [DLQStreamName] \<and>
     streamsOf matches allStreams (MetricsSubject i) = [MetricsStreamName] \<and> streamsOf matches allStreams (AlertsSubject i) = [AlertsStreamName] \<and>
     streamsOf matches allStreams (RolloutEventsSubject i) = [RolloutsStreamName] \<and>
     (\<forall>s \<in> {JetStreamSubject i, DLQSubject, MetricsSubject i, AlertsSubject i, RolloutEventsSubject i}.
        matches telemetryFilterSubject s \<longleftrightarrow> s = JetStreamSubject i) \<and>
     feedKinds matches (JetStreamSubject i) = [] \<and> feedKinds matches DLQSubject = [] \<and> feedKinds matches (MetricsSubject i) = [''metric''] \<and>
     feedKinds matches (AlertsSubject i) = [''alert''] \<and> feedKinds matches (RolloutEventsSubject i) = [''rollout'']"
proof -
  note r = nats_subjects.routes [OF assms(1)]
  have v: "valid_subject i" "valid_subject ''telemetry''" "valid_subject (i @ ''.events'')"
    using assms(2) plain_token_valid services_tokens valid_subject_append [of i "''events''"] by auto
  have telemetry: "streamsOf matches allStreams (JetStreamSubject i) = [TelemetryStreamName]" "feedKinds matches (JetStreamSubject i) = []"
      "matches telemetryFilterSubject (JetStreamSubject i)"
    using r [OF services_tokens(1) v(1)] by (simp_all add: JetStreamSubject_def)
  have dlq: "streamsOf matches allStreams DLQSubject = [DLQStreamName]" "feedKinds matches DLQSubject = []"
      "\<not> matches telemetryFilterSubject DLQSubject"
    using r [OF services_tokens(2) v(2)] by (simp_all add: DLQSubject_def)
  have metrics: "streamsOf matches allStreams (MetricsSubject i) = [MetricsStreamName]" "feedKinds matches (MetricsSubject i) = [''metric'']"
      "\<not> matches telemetryFilterSubject (MetricsSubject i)"
    using r [OF services_tokens(3) v(1)] by (simp_all add: MetricsSubject_def)
  have alerts: "streamsOf matches allStreams (AlertsSubject i) = [AlertsStreamName]" "feedKinds matches (AlertsSubject i) = [''alert'']"
      "\<not> matches telemetryFilterSubject (AlertsSubject i)"
    using r [OF services_tokens(4) v(1)] by (simp_all add: AlertsSubject_def)
  have rollout: "streamsOf matches allStreams (RolloutEventsSubject i) = [RolloutsStreamName]"
      "feedKinds matches (RolloutEventsSubject i) = [''rollout'']" "\<not> matches telemetryFilterSubject (RolloutEventsSubject i)"
    using r [OF services_tokens(5) v(3)] by (simp_all add: RolloutEventsSubject_def)
  have "DLQSubject \<noteq> JetStreamSubject i" "MetricsSubject i \<noteq> JetStreamSubject i" "AlertsSubject i \<noteq> JetStreamSubject i"
      "RolloutEventsSubject i \<noteq> JetStreamSubject i"
    by (simp_all add: DLQSubject_def JetStreamSubject_def MetricsSubject_def AlertsSubject_def RolloutEventsSubject_def)
  with telemetry dlq metrics alerts rollout show ?thesis by blast
qed

theorem subjects_routed_witness:
  "streamsOf nats_matches allStreams (JetStreamSubject ''d1'') = [''TELEMETRY''] \<and> feedKinds nats_matches (JetStreamSubject ''d1'') = [] \<and>
   feedKinds nats_matches (AlertsSubject ''d1'') = [''alert'']"
proof -
  have "plain_token ''d1''" by (simp add: plain_token_def)
  from subjects_routed [OF nats.nats_subjects_axioms this] show ?thesis by (simp add: TelemetryStreamName_def)
qed

end
