(* ===== verification/Pipeline.thy ===== *)
theory Pipeline
  imports HostAgent Persistence
begin

text \<open>
  The way of a reading through three services: the host agent publishes it to the broker, ingest checks it, stamps
  it and puts it into JetStream, and the processor writes its rows. What the broker and JetStream do in between is to deliver: the payload
  ingest sees is one the agent published, the data the processor sees is one ingest published.
\<close>

section \<open>Lemmas\<close>

definition delivered :: "string \<Rightarrow> string \<Rightarrow> mqtt_msg \<Rightarrow> mqtt_in" where
  "delivered dev bytes m = \<lparr>mi_topic = TelemetryTopic dev, mi_bytes = bytes, mi_json = Some (m_payload m)\<rparr>"

lemma session_message:
  assumes "agent_session etext dev cfg t0 evs t1 = Some a" and "uuid_ok dev" and "CHR ''/'' \<notin> set dev"
    and "\<forall>e. Tick e \<in> set evs \<longrightarrow> tick_ok e" and "(TelemetryTopic dev, m) \<in> set (ag_out a)"
  obtains r where "(TelemetryTopic dev, m) = telemetry_msg dev r" and "sound_reading uuid_ok dev r"
    and "accepted uuid_ok (delivered dev bytes m) = Some r"
proof -
  obtain rs where inv: "agent_inv uuid_ok dev a rs" using agent_session_inv [where uuid_ok = uuid_ok, OF assms(1,2,4)] by blast
  have "(TelemetryTopic dev, m) \<in> set (telemetry_of dev a)" using assms(5) by (simp add: telemetry_of_def)
  then have "(TelemetryTopic dev, m) \<in> telemetry_msg dev ` set rs" using inv by (simp add: agent_inv_def)
  then obtain r where r: "r \<in> set rs" "(TelemetryTopic dev, m) = telemetry_msg dev r" by (auto simp only: image_iff)
  then have sound: "sound_reading uuid_ok dev r" using inv by (simp add: agent_inv_def)
  have "m_payload m = marshal_Reading r" using r(2) by (simp add: telemetry_msg_def)
  with sound_accepted [OF sound assms(3), of bytes] have "accepted uuid_ok (delivered dev bytes m) = Some r" by (simp add: delivered_def)
  with r(2) sound show thesis by (rule that)
qed

lemma sound_rows: "sound_reading uuid_ok dev r \<Longrightarrow> flatten \<lparr>srReading = r, srIngestTimeMS = ms\<rparr> t \<noteq> []"
  by (auto simp: sound_reading_def Validate_None_iff flatten_def Let_def split: option.splits)

lemma flatten_device: "row \<in> set (flatten sr t) \<Longrightarrow> fr_deviceID row = rDeviceID (srReading sr)"
  by (auto simp: flatten_def Let_def split: option.splits)

text \<open>What ingest makes of a sound reading, as the processor reads it.\<close>

lemma stamped_rows:
  assumes "sound_reading uuid_ok dev r" and "accepted uuid_ok msg = Some r" and "0 \<le> t" and "t < 2 ^ 63"
    and "jm_data jm = Some (marshal_StampedReading \<lparr>srReading = r, srIngestTimeMS = UnixMilli t\<rparr>)"
  shows "unmarshal_StampedReading (jm_data jm) = Inr \<lparr>srReading = r, srIngestTimeMS = UnixMilli t\<rparr>"
    and "msgRows jm = flatten \<lparr>srReading = r, srIngestTimeMS = UnixMilli t\<rparr> (time_UnixMilli (UnixMilli t))"
proof -
  have "drop_empty (rValues r) = rValues r" using assms(1) by (simp add: sound_reading_def drop_empty_def)
  then have "r\<lparr>rValues := drop_empty (rValues r)\<rparr> = r" by (cases r) simp
  with published_decodes [OF assms(2-4)]
  show "unmarshal_StampedReading (jm_data jm) = Inr \<lparr>srReading = r, srIngestTimeMS = UnixMilli t\<rparr>" by (simp add: assms(5))
  then show "msgRows jm = flatten \<lparr>srReading = r, srIngestTimeMS = UnixMilli t\<rparr> (time_UnixMilli (UnixMilli t))"
    by (simp add: msgRows_def)
qed

lemma handle_publishes:
  assumes "accepted uuid_ok msg = Some r" and "handle tx uuid_ok ops msg l w = (acked, l', w')"
    and "bus_sent (w_js w') = bus_sent (w_js w) @ [(subj, body)]"
  shows "subj = JetStreamSubject (rDeviceID r) \<and> body = marshal_StampedReading \<lparr>srReading = r, srIngestTimeMS = UnixMilli (fst (time_Now w))\<rparr>"
  using assms(2,3) unfolding handle_accepted [OF assms(1)]
  by (auto simp: world_defs Let_def split: prod.splits option.splits if_splits elim!: bus_publish_cases)

lemma handle_delivers:
  assumes "accepted uuid_ok msg = Some r" and "rDeviceID r = dev" and "\<And>now. fst (Limiter_Allow ops dev now l)" and "bus_faults (w_js w) = []"
  obtains l' w' where "handle tx uuid_ok ops msg l w = (True, l', w')"
    and "bus_sent (w_js w') = bus_sent (w_js w) @ [(JetStreamSubject dev, marshal_StampedReading \<lparr>srReading = r, srIngestTimeMS = UnixMilli (fst (time_Now w))\<rparr>)]"
proof -
  let ?body = "marshal_StampedReading \<lparr>srReading = r, srIngestTimeMS = UnixMilli (fst (time_Now w))\<rparr>"
  define now where "now = fst (time_Now (snd (time_Now w)))"
  obtain l1 where lim: "Limiter_Allow ops dev now l = (True, l1)" using assms(3) [of now] by (cases "Limiter_Allow ops dev now l") auto
  let ?w1 = "snd (time_Now (snd (time_Now w)))"
  let ?w' = "?w1\<lparr>w_js := (w_js w)\<lparr>bus_sent := bus_sent (w_js w) @ [(JetStreamSubject dev, ?body)]\<rparr>\<rparr>"
  have "handle tx uuid_ok ops msg l w = (True, l1, ?w')"
    using lim assms(2,4) by (simp add: handle_accepted [OF assms(1)] world_defs Let_def now_def)
  moreover have "bus_sent (w_js ?w') = bus_sent (w_js w) @ [(JetStreamSubject dev, ?body)]" by simp
  ultimately show thesis by (rule that)
qed

text \<open>The rows the database is to hold for a reading: one for each of its values, under the name of the sensor or of its axis,
  with the value, the sequence number, the time of the device and the time of ingest as they were sent.\<close>

definition readingValues :: "Reading \<Rightarrow> (string \<times> real) list" where
  "readingValues r =
     (case rValue r of
        Some v \<Rightarrow> [(rSensorType r, v)]
      | None \<Rightarrow> map (\<lambda>(axis, v). (rSensorType r @ ''.'' @ axis, v)) (case rValues r of None \<Rightarrow> [] | Some m \<Rightarrow> m))"

definition recordOf :: "string \<Rightarrow> Reading \<Rightarrow> int \<Rightarrow> string \<times> real \<Rightarrow> ReadingRow" where
  "recordOf u r ms sv =
     \<lparr>rd_time = ms * 1000000, rd_device_id = u, rd_sensor_type = fst sv, rd_value = snd sv,
      rd_device_time = rDeviceTimeMS r * 1000000, rd_ingest_time = ms * 1000000, rd_seq = sint (rSeq r)\<rparr>"

text \<open>The table holds that row; unless the insert found its key taken, by a row \<open>before\<close> or by a row of another message among
  \<open>others\<close>, which \<^verbatim>\<open>ON CONFLICT DO NOTHING\<close> leaves as it is.\<close>

definition recorded :: "ReadingRow set \<Rightarrow> jsmsg set \<Rightarrow> pg \<Rightarrow> ReadingRow \<Rightarrow> bool" where
  "recorded before others d x \<longleftrightarrow> x \<in> set (pg_readings d) \<or>
     (\<exists>y \<in> set (pg_readings d). readingKey y = readingKey x \<and>
        (y \<in> before \<or> (\<exists>m \<in> others. y \<in> rowsOf (pg_uuid d) (msgRows m))))"

lemma rowOf_recordOf:
  "rowOf u ` set (flatten \<lparr>srReading = r, srIngestTimeMS = ms\<rparr> (time_UnixMilli ms)) = recordOf u r ms ` set (readingValues r)"
  by (cases "rValue r"; cases "rValues r")
    (simp_all add: flatten_def readingValues_def rowOf_def recordOf_def pg_ts_def time_UnixMilli_def Let_def image_image case_prod_beta mult.commute)

lemma sound_values_distinct: "sound_reading uuid_ok dev r \<Longrightarrow> distinct (map fst (readingValues r))"
proof -
  assume "sound_reading uuid_ok dev r"
  then have "\<forall>m. rValues r = Some m \<longrightarrow> distinct (map fst m)" by (auto simp: sound_reading_def reading_ok_def)
  moreover have "distinct (map fst (map (\<lambda>(axis, v). (p @ ''.'' @ axis, v)) m))" if "distinct (map fst m)" for p :: string and m :: "(string \<times> real) list"
    using that by (induction m) (auto simp: image_iff)
  ultimately show ?thesis by (auto simp: readingValues_def simp del: map_map split: option.splits)
qed

text \<open>What is stored under the key of a value of the reading is its row, if it came from a message with this reading.\<close>

lemma stored_recorded:
  assumes "sound_reading uuid_ok dev r" and "sv \<in> set (readingValues r)" and "pg_uuid d dev = Some u"
    and "\<forall>row \<in> set (flatten \<lparr>srReading = r, srIngestTimeMS = ms\<rparr> (time_UnixMilli ms)). stored d row"
    and "set (pg_readings d) \<subseteq> before \<union> (\<Union>m \<in> msgs. rowsOf (pg_uuid d) (msgRows m))"
    and "\<And>m. m \<in> msgs \<Longrightarrow> m \<notin> others \<Longrightarrow> msgRows m = flatten \<lparr>srReading = r, srIngestTimeMS = ms\<rparr> (time_UnixMilli ms)"
  shows "recorded before others d (recordOf u r ms sv)"
proof -
  let ?rows = "flatten \<lparr>srReading = r, srIngestTimeMS = ms\<rparr> (time_UnixMilli ms)"
  have dev: "\<forall>row \<in> set ?rows. fr_deviceID row = dev" using flatten_device assms(1) by (fastforce simp: sound_reading_def)
  obtain row where row: "row \<in> set ?rows" "rowOf u row = recordOf u r ms sv"
    using assms(2) rowOf_recordOf [of u r ms] by (metis (no_types, lifting) imageE image_eqI)
  have "stored d row" using assms(4) row(1) by blast
  then obtain y where y: "y \<in> set (pg_readings d)" "readingKey y = readingKey (recordOf u r ms sv)"
    using row dev assms(3) by (auto simp: stored_def)
  consider "y \<in> before" | m where "m \<in> msgs" "y \<in> rowsOf (pg_uuid d) (msgRows m)" using assms(5) y(1) by blast
  then show ?thesis
  proof cases
    case 1
    with y show ?thesis by (auto simp: recorded_def)
  next
    case (2 m)
    show ?thesis
    proof (cases "m \<in> others")
      case True
      with 2 y show ?thesis by (auto simp: recorded_def)
    next
      case False
      with 2 assms(6) have "y \<in> rowsOf (pg_uuid d) ?rows" by simp
      then obtain row' where "row' \<in> set ?rows" "y = rowOf u row'" using dev assms(3) by (auto simp: rowsOf_def)
      then obtain sv' where sv': "sv' \<in> set (readingValues r)" "y = recordOf u r ms sv'" using rowOf_recordOf [of u r ms] by blast
      then have "fst sv' = fst sv" using y(2) by (simp add: readingKey_def recordOf_def)
      then have "sv' = sv" using sound_values_distinct [OF assms(1)] sv'(1) assms(2) by (metis eq_key_imp_eq_value prod.collapse)
      with y sv' show ?thesis by (auto simp: recorded_def)
    qed
  qed
qed

text \<open>Rows of registered devices can be inserted.\<close>

definition insertable :: "pg \<Rightarrow> flatRow \<Rightarrow> bool" where
  "insertable d row \<longleftrightarrow> (\<exists>u. pg_uuid d (fr_deviceID row) = Some u \<and> device_exists d u)"

lemma insert_rows_registered:
  assumes "\<forall>row \<in> set rows. insertable d row"
  shows "\<exists>d'. insert_rows rows d = Inr d'"
  using assms
proof (induction rows arbitrary: d)
  case (Cons row rows)
  then have "\<forall>r \<in> set rows. insertable (d\<lparr>pg_readings := rs\<rparr>) r" for rs by (simp add: insertable_def device_exists_def)
  with Cons show ?case by (auto simp: insertable_def uuid_arg_def)
qed simp

lemma deliver_and_flush:
  assumes "unmarshal_StampedReading (jm_data jm) = Inr sr" and "msgRows jm \<noteq> []" and "length (c_rows c @ msgRows jm) \<le> 9362"
    and "pg_faults d = []" and "\<forall>row \<in> set (c_rows c @ msgRows jm). insertable d row"
    and "consumer_onMessage jm c d = (acks1, c1, d1)" and "flush c1 d1 = (acks2, c2, d2)"
  shows "acks1 @ acks2 = map (\<lambda>i. (pi_msg i, Ack)) (c_items c) @ [(jm, Ack)] \<and> c2 = newConsumer \<and> pg_uuid d2 = pg_uuid d \<and>
    (\<forall>row \<in> set (msgRows jm). stored d2 row) \<and> set (pg_readings d2) \<subseteq> set (pg_readings d) \<union> rowsOf (pg_uuid d) (c_rows c @ msgRows jm)"
proof -
  obtain d' where ins: "insert_rows (c_rows c @ msgRows jm) d = Inr d'" using insert_rows_registered [OF assms(5)] by blast
  then have batch: "insertBatch (c_rows c @ msgRows jm) d = (None, d')"
    using assms(3,4) by (simp add: insertBatch_def pg_exec_def sql_insert_readings_def)
  have rows: "flatten sr (time_UnixMilli (srIngestTimeMS sr)) = msgRows jm" using assms(1) by (simp add: msgRows_def)
  let ?c = "\<lparr>c_rows = c_rows c @ msgRows jm, c_items = c_items c @ [\<lparr>pi_msg = jm, pi_deviceTime = time_UnixMilli (rDeviceTimeMS (srReading sr)),
    pi_ingestTime = time_UnixMilli (srIngestTimeMS sr), pi_traceID = rTraceID (srReading sr)\<rparr>]\<rparr>"
  have fl: "flush ?c d = (map (\<lambda>i. (pi_msg i, Ack)) (c_items c) @ [(jm, Ack)], newConsumer, d')"
    using assms(2) batch by (simp add: flush_def newConsumer_def)
  have "(acks1, c1, d1) = (if batchSize \<le> length (c_rows ?c) then flush ?c d else ([], ?c, d))"
    unfolding assms(6) [symmetric] using assms(1) rows by (simp add: consumer_onMessage_def Let_def)
  then have "acks1 @ acks2 = map (\<lambda>i. (pi_msg i, Ack)) (c_items c) @ [(jm, Ack)] \<and> c2 = newConsumer \<and> d2 = d'"
    using assms(7) fl by (auto simp: flush_def newConsumer_def split: if_splits)
  with insert_rows_stores [OF ins] insert_rows_source [OF ins] show ?thesis by auto
qed

section \<open>Properties\<close>

text \<open>C5: an acknowledged reading of the agent is in the database. Take any message a session of the agent handed to the broker, any time
  ingest published something for it, and any run of the processor, with failures and other messages, in which a delivery of
  that was acknowledged: then for every value of exactly the reading the agent numbered, the readings table has a row with that value, the
  sequence number, the time of the device and the time of ingest. The one exception is a row whose key, made of device, sensor, sequence
  number and time of ingest, was taken before, by a row the table had at the start or by one of a message with another content.
\<close>

theorem acked_reading_is_stored:
  assumes "agent_session etext dev cfg t0 evs t1 = Some a" and "uuid_ok dev" and "CHR ''/'' \<notin> set dev"
    and "\<forall>e. Tick e \<in> set evs \<longrightarrow> tick_ok e" and "(TelemetryTopic dev, m) \<in> set (ag_out a)"
    and "handle tx uuid_ok ops (delivered dev bytes m) l w = (acked, l', w')" and "0 \<le> fst (time_Now w)" "fst (time_Now w) < 2 ^ 63"
    and "bus_sent (w_js w') = bus_sent (w_js w) @ [(subj, body)]"
    and "persisting d0 ms out c d" and "distinct (map readingKey (pg_readings d0))" and "(jm, Ack) \<in> set out" and "jm_data jm = Some body"
  shows "\<exists>r u. (TelemetryTopic dev, m) = telemetry_msg dev r \<and> subj = JetStreamSubject dev \<and> pg_uuid d dev = Some u \<and>
    readingValues r \<noteq> [] \<and> (\<forall>sv \<in> set (readingValues r).
      recorded (set (pg_readings d0)) {m' \<in> set ms. jm_data m' \<noteq> Some body} d (recordOf u r (UnixMilli (fst (time_Now w))) sv))"
proof -
  obtain r where r: "(TelemetryTopic dev, m) = telemetry_msg dev r" and sound: "sound_reading uuid_ok dev r"
    and acc: "accepted uuid_ok (delivered dev bytes m) = Some r"
    using session_message [where uuid_ok = uuid_ok and bytes = bytes, OF assms(1-5)] by blast
  let ?ms = "UnixMilli (fst (time_Now w))" and ?rows = "flatten \<lparr>srReading = r, srIngestTimeMS = UnixMilli (fst (time_Now w))\<rparr> (time_UnixMilli (UnixMilli (fst (time_Now w))))"
  have pub: "subj = JetStreamSubject dev" "body = marshal_StampedReading \<lparr>srReading = r, srIngestTimeMS = ?ms\<rparr>"
    using handle_publishes [OF acc assms(6,9)] sound by (simp_all add: sound_reading_def)
  have rows: "msgRows m' = ?rows" if "jm_data m' = Some body" for m'
    using stamped_rows(2) [OF sound acc assms(7,8)] that pub(2) by simp
  have stored: "\<forall>row \<in> set ?rows. stored d row"
    using persisting_inv [OF assms(10,11)] assms(12) rows [OF assms(13)] by (simp add: persist_inv_def)
  have dev: "\<forall>row \<in> set ?rows. fr_deviceID row = dev" using flatten_device sound by (fastforce simp: sound_reading_def)
  have ne: "?rows \<noteq> []" by (rule sound_rows [OF sound])
  then obtain u where u: "pg_uuid d dev = Some u" using stored dev by (auto simp: stored_def neq_Nil_conv)
  have "set (pg_readings d) \<subseteq> set (pg_readings d0) \<union> (\<Union>m \<in> set ms. rowsOf (pg_uuid d) (msgRows m))"
    using persisting_sourced [OF assms(10,11)] by (simp add: sourced_def)
  note rec = stored_recorded [OF sound _ u stored this, of _ "{m' \<in> set ms. jm_data m' \<noteq> Some body}"]
  have "readingValues r \<noteq> []" using rowOf_recordOf [of u r ?ms] ne by auto
  with r pub(1) u rec rows show ?thesis by blast
qed

text \<open>C6: and it gets there. Take a batch the processor has begun, of less than \<^verbatim>\<open>batchSize\<close> rows. If the device is within its rate,
  JetStream takes the message, the database answers, and the device and those of the other readings in the batch are registered (an
  unregistered one would block the batch), then delivering what the agent published to ingest, what ingest published to the processor,
  and one tick of its flush timer, records every value of the reading, and acknowledges it and the rest of the batch to JetStream, as
  ingest did to the broker.
\<close>

theorem reading_reaches_table:
  assumes "agent_session etext dev cfg t0 evs t1 = Some a" and "uuid_ok dev" and "CHR ''/'' \<notin> set dev"
    and "\<forall>e. Tick e \<in> set evs \<longrightarrow> tick_ok e" and "(TelemetryTopic dev, m) \<in> set (ag_out a)"
    and "0 \<le> fst (time_Now w)" "fst (time_Now w) < 2 ^ 63" and "\<And>now. fst (Limiter_Allow ops dev now l)" and "bus_faults (w_js w) = []"
    and "pg_faults d = []" and "pg_uuid d dev = Some u" and "device_exists d u"
    and "batch_ok c" and "length (c_rows c) < batchSize" and "\<forall>row \<in> set (c_rows c). insertable d row"
  shows "\<exists>l' w' body r acks1 c1 d1 acks2 d2. handle tx uuid_ok ops (delivered dev bytes m) l w = (True, l', w') \<and>
    bus_sent (w_js w') = bus_sent (w_js w) @ [(JetStreamSubject dev, body)] \<and> (TelemetryTopic dev, m) = telemetry_msg dev r \<and>
    consumer_onMessage \<lparr>jm_delivery = n, jm_data = Some body\<rparr> c d = (acks1, c1, d1) \<and> flush c1 d1 = (acks2, newConsumer, d2) \<and>
    acks1 @ acks2 = map (\<lambda>i. (pi_msg i, Ack)) (c_items c) @ [(\<lparr>jm_delivery = n, jm_data = Some body\<rparr>, Ack)] \<and>
    readingValues r \<noteq> [] \<and> (\<forall>sv \<in> set (readingValues r). recorded (set (pg_readings d))
      {m' \<in> pi_msg ` set (c_items c). jm_data m' \<noteq> Some body} d2 (recordOf u r (UnixMilli (fst (time_Now w))) sv))"
proof -
  obtain r where r: "(TelemetryTopic dev, m) = telemetry_msg dev r" and sound: "sound_reading uuid_ok dev r"
    and acc: "accepted uuid_ok (delivered dev bytes m) = Some r"
    using session_message [where uuid_ok = uuid_ok and bytes = bytes, OF assms(1-5)] by blast
  let ?ms = "UnixMilli (fst (time_Now w))" and ?body = "marshal_StampedReading \<lparr>srReading = r, srIngestTimeMS = UnixMilli (fst (time_Now w))\<rparr>"
  let ?jm = "\<lparr>jm_delivery = n, jm_data = Some ?body\<rparr>"
  have dev: "rDeviceID r = dev" using sound by (simp add: sound_reading_def)
  obtain l' w' where h: "handle tx uuid_ok ops (delivered dev bytes m) l w = (True, l', w')"
    and b: "bus_sent (w_js w') = bus_sent (w_js w) @ [(JetStreamSubject dev, ?body)]"
    by (rule handle_delivers [OF acc dev assms(8,9)])
  note dec = stamped_rows [OF sound acc assms(6,7)]
  have jm: "jm_data ?jm = Some ?body" by simp
  have small: "length (msgRows ?jm) \<le> 2" using sound unfolding dec(2) [OF jm] sound_reading_def by (fastforce simp: flatten_def Let_def split: option.splits)
  have ne: "msgRows ?jm \<noteq> []" unfolding dec(2) [OF jm] by (rule sound_rows [OF sound])
  have devs: "\<forall>row \<in> set (msgRows ?jm). fr_deviceID row = dev" unfolding dec(2) [OF jm] using flatten_device dev by fastforce
  obtain acks1 c1 d1 where c: "consumer_onMessage ?jm c d = (acks1, c1, d1)" by (rule prod_cases3)
  obtain acks2 c2 d2 where f: "flush c1 d1 = (acks2, c2, d2)" by (rule prod_cases3)
  have fits: "length (c_rows c @ msgRows ?jm) \<le> 9362" using small assms(14) by (simp add: batchSize_def)
  have ins: "\<forall>row \<in> set (c_rows c @ msgRows ?jm). insertable d row" using assms(11,12,15) devs by (auto simp: insertable_def)
  note done' = deliver_and_flush [OF dec(1) [OF jm] ne fits assms(10) ins c f]
  have src: "set (pg_readings d2) \<subseteq> set (pg_readings d) \<union> (\<Union>m \<in> insert ?jm (pi_msg ` set (c_items c)). rowsOf (pg_uuid d2) (msgRows m))"
    using done' unfolding rowsOf_append batch_rowsOf [OF assms(13)] by auto
  have "\<forall>sv \<in> set (readingValues r). recorded (set (pg_readings d)) {m' \<in> pi_msg ` set (c_items c). jm_data m' \<noteq> Some ?body} d2 (recordOf u r ?ms sv)"
  proof
    fix sv assume "sv \<in> set (readingValues r)"
    then show "recorded (set (pg_readings d)) {m' \<in> pi_msg ` set (c_items c). jm_data m' \<noteq> Some ?body} d2 (recordOf u r ?ms sv)"
      using done' dec(2) jm assms(11) by (intro stored_recorded [OF sound _ _ _ src]) auto
  qed
  moreover have "readingValues r \<noteq> []" using rowOf_recordOf [of u r ?ms] ne dec(2) [OF jm] by auto
  ultimately show ?thesis using h b r c f done' by blast
qed

text \<open>A session of one tick and the first message of it.\<close>

lemma sampleSession:
  obtains a m where "agent_session (\<lambda>_. []) ''d1'' (defaultAppliedConfig 5000) 0 [Tick sampleTick] 1 = Some a"
    and "(TelemetryTopic ''d1'', m) \<in> set (ag_out a)"
proof -
  have mode: "ac_mode (defaultAppliedConfig 5000) \<noteq> ReportingBatched" "ac_enabledSensors (defaultAppliedConfig 5000) = []"
    by (simp_all add: defaultAppliedConfig_def ReportingContinuous_def ReportingBatched_def)
  have "ticker_every (ac_sampleIntervalMS (defaultAppliedConfig 5000)) = Some (5 * second)"
    by (simp add: ticker_every_def scaled_def int64_wrap_def defaultAppliedConfig_def)
  then obtain a where a: "agent_session (\<lambda>_. []) ''d1'' (defaultAppliedConfig 5000) 0 [Tick sampleTick] 1 = Some a"
    and n: "length (ag_out a) = 3" "\<forall>m \<in> set (ag_out a). fst m = TelemetryTopic ''d1''"
    using mode
    by (auto simp: agent_session_def startLoop_def agent_tick_def Let_def agent_flush_def sampleTick_def sensorEnabled_def
        telemetry_msg_def sampleCollect)
  then have "ag_out a = (TelemetryTopic ''d1'', snd (hd (ag_out a))) # tl (ag_out a)" by (cases "ag_out a") auto
  then have "(TelemetryTopic ''d1'', snd (hd (ag_out a))) \<in> set (ag_out a)" by (metis list.set_intros(1))
  with a show thesis by (rule that)
qed

lemma sampleTicks: "\<forall>e. Tick e \<in> set [Tick sampleTick] \<longrightarrow> tick_ok e" "CHR ''/'' \<notin> set ''d1''"
  using sampleTick_ok by simp_all

lemma sampleClock: "0 \<le> fst (time_Now (ingestWorld fs))" "fst (time_Now (ingestWorld fs)) < 2 ^ 63"
  by (simp_all add: time_Now_def ingestWorld_def)

lemma samplePermit: "fst (Limiter_Allow tokenLimiter ''d1'' now (newPerDeviceLimiter 10 1))"
  by (simp add: Limiter_Allow_def newPerDeviceLimiter_def tokenLimiter_def)

lemma persistPg_device: "pg_faults persistPg = []" "pg_uuid persistPg ''d1'' = Some ''d1''" "device_exists persistPg ''d1''"
  "distinct (map readingKey (pg_readings persistPg))"
  by (simp_all add: persistPg_def device_exists_def)

lemma sampleBatch: "batch_ok newConsumer" "length (c_rows newConsumer) < batchSize" "\<forall>row \<in> set (c_rows newConsumer). insertable d row"
  by (simp_all add: batch_ok_def newConsumer_def batchSize_def)

theorem reading_reaches_table_witness:
  "\<exists>m r l' w' body acks1 c1 d1 acks2 d2.
     handle plainTexts (\<lambda>_. True) tokenLimiter (delivered ''d1'' [] m) (newPerDeviceLimiter 10 1) (ingestWorld []) = (True, l', w') \<and>
     bus_sent (w_js w') = [(JetStreamSubject ''d1'', body)] \<and> (TelemetryTopic ''d1'', m) = telemetry_msg ''d1'' r \<and>
     consumer_onMessage \<lparr>jm_delivery = 0, jm_data = Some body\<rparr> newConsumer persistPg = (acks1, c1, d1) \<and> flush c1 d1 = (acks2, newConsumer, d2) \<and>
     acks1 @ acks2 = [(\<lparr>jm_delivery = 0, jm_data = Some body\<rparr>, Ack)] \<and>
     recordOf ''d1'' r 1700000000123 (hd (readingValues r)) \<in> set (pg_readings d2)"
proof -
  obtain a m where a: "agent_session (\<lambda>_. []) ''d1'' (defaultAppliedConfig 5000) 0 [Tick sampleTick] 1 = Some a"
    and m: "(TelemetryTopic ''d1'', m) \<in> set (ag_out a)" by (rule sampleSession)
  have w: "bus_faults (w_js (ingestWorld [])) = []" "bus_sent (w_js (ingestWorld [])) = []" "UnixMilli (fst (time_Now (ingestWorld []))) = 1700000000123"
    "pg_readings persistPg = []" "c_items newConsumer = []"
    by (simp_all add: ingestWorld_def time_Now_def UnixMilli_def persistPg_def newConsumer_def)
  from reading_reaches_table [where uuid_ok = "\<lambda>_. True" and tx = plainTexts and bytes = "[]" and n = 0, OF a TrueI sampleTicks(2,1) m sampleClock
      samplePermit w(1) persistPg_device(1-3) sampleBatch] w
  obtain l' w' body r acks1 c1 d1 acks2 d2 where
    "handle plainTexts (\<lambda>_. True) tokenLimiter (delivered ''d1'' [] m) (newPerDeviceLimiter 10 1) (ingestWorld []) = (True, l', w')"
    "bus_sent (w_js w') = [(JetStreamSubject ''d1'', body)]" "(TelemetryTopic ''d1'', m) = telemetry_msg ''d1'' r"
    "consumer_onMessage \<lparr>jm_delivery = 0, jm_data = Some body\<rparr> newConsumer persistPg = (acks1, c1, d1)" "flush c1 d1 = (acks2, newConsumer, d2)"
    "acks1 @ acks2 = [(\<lparr>jm_delivery = 0, jm_data = Some body\<rparr>, Ack)]" and r: "readingValues r \<noteq> []"
    "\<forall>sv \<in> set (readingValues r). recorded {} {} d2 (recordOf ''d1'' r 1700000000123 sv)"
    by simp blast
  moreover have "recordOf ''d1'' r 1700000000123 (hd (readingValues r)) \<in> set (pg_readings d2)"
    using r hd_in_set by (fastforce simp: recorded_def)
  ultimately show ?thesis by blast
qed

theorem acked_reading_is_stored_witness:
  "\<exists>m r jm out c d. (TelemetryTopic ''d1'', m) = telemetry_msg ''d1'' r \<and> persisting persistPg [jm] out c d \<and>
     recordOf ''d1'' r 1700000000123 (hd (readingValues r)) \<in> set (pg_readings d)"
proof -
  obtain a m where a: "agent_session (\<lambda>_. []) ''d1'' (defaultAppliedConfig 5000) 0 [Tick sampleTick] 1 = Some a"
    and m: "(TelemetryTopic ''d1'', m) \<in> set (ag_out a)" by (rule sampleSession)
  obtain r where sound: "sound_reading (\<lambda>_. True) ''d1'' r" and acc: "accepted (\<lambda>_. True) (delivered ''d1'' [] m) = Some r"
    using session_message [where uuid_ok = "\<lambda>_. True" and bytes = "[]", OF a TrueI sampleTicks(2,1) m] by blast
  let ?w = "ingestWorld []" let ?body = "marshal_StampedReading \<lparr>srReading = r, srIngestTimeMS = UnixMilli (fst (time_Now ?w))\<rparr>"
  let ?jm = "\<lparr>jm_delivery = 0, jm_data = Some ?body\<rparr>"
  have t: "UnixMilli (fst (time_Now ?w)) = 1700000000123" by (simp add: time_Now_def ingestWorld_def UnixMilli_def)
  have dev: "rDeviceID r = ''d1''" using sound by (simp add: sound_reading_def)
  have "bus_faults (w_js ?w) = []" by (simp add: ingestWorld_def)
  then obtain l' w' where h: "handle plainTexts (\<lambda>_. True) tokenLimiter (delivered ''d1'' [] m) (newPerDeviceLimiter 10 1) ?w = (True, l', w')"
    and b: "bus_sent (w_js w') = bus_sent (w_js ?w) @ [(JetStreamSubject ''d1'', ?body)]"
    by (rule handle_delivers [OF acc dev samplePermit])
  have jm: "jm_data ?jm = Some ?body" by simp
  note dec = stamped_rows [OF sound acc sampleClock jm]
  have size: "length (c_rows newConsumer @ msgRows ?jm) \<le> 9362"
    using sound unfolding dec(2) sound_reading_def by (fastforce simp: newConsumer_def flatten_def Let_def split: option.splits)
  have ne: "msgRows ?jm \<noteq> []" unfolding dec(2) by (rule sound_rows [OF sound])
  have ins: "\<forall>row \<in> set (c_rows newConsumer @ msgRows ?jm). insertable persistPg row"
    unfolding dec(2) using flatten_device dev persistPg_device(2,3) by (fastforce simp: insertable_def newConsumer_def)
  obtain acks1 c1 d1 where c: "consumer_onMessage ?jm newConsumer persistPg = (acks1, c1, d1)" by (rule prod_cases3)
  obtain acks2 c2 d2 where f: "flush c1 d1 = (acks2, c2, d2)" by (rule prod_cases3)
  have run: "persisting persistPg [?jm] (acks1 @ acks2) c2 d2"
    using persisting.tick [OF persisting.deliver [OF persisting.start c] f] by simp
  note done' = deliver_and_flush [OF dec(1) ne size persistPg_device(1) ins c f]
  then have "(?jm, Ack) \<in> set (acks1 @ acks2)" by simp
  from acked_reading_is_stored [where uuid_ok = "\<lambda>_. True", OF a TrueI sampleTicks(2,1) m h sampleClock b run persistPg_device(4) this jm]
  obtain r' u where r': "(TelemetryTopic ''d1'', m) = telemetry_msg ''d1'' r'" "pg_uuid d2 ''d1'' = Some u" "readingValues r' \<noteq> []"
    "\<forall>sv \<in> set (readingValues r'). recorded (set (pg_readings persistPg)) {m' \<in> set [?jm]. jm_data m' \<noteq> Some ?body} d2 (recordOf u r' 1700000000123 sv)"
    unfolding t by blast
  have "u = ''d1''" using r'(2) done' persistPg_device(2) by simp
  then have "recordOf ''d1'' r' 1700000000123 (hd (readingValues r')) \<in> set (pg_readings d2)"
    using r'(3,4) hd_in_set by (fastforce simp: recorded_def persistPg_def)
  with r'(1) run show ?thesis by blast
qed

end
