(* ===== verification/Tracing.thy ===== *)
theory Tracing
  imports Pipeline Windowed LiveFeed
begin

text \<open>
  \<^verbatim>\<open>internal/tracing/tracing.go\<close> and the four places that open a span for a reading: ingest's publish, the processor's two
  consumers and the live feed's relay. A span has no effect on what the services do; what is modelled is the trace it joins, that is the
  parent context it is started with (\<open>None\<close> for the background context, under which a span starts a trace of its own).
  The parsing of trace and span ids is OpenTelemetry's and a parameter, with the laws of the locale \<open>w3c_ids\<close>.
\<close>

section \<open>Set-up\<close>

datatype tracer = NoopTracer | OtlpTracer

text \<open>The answers of the exporter and of the resource detection are arguments.\<close>

definition tracing_Init :: "string \<Rightarrow> io_error option \<Rightarrow> io_error option \<Rightarrow> tracer \<times> io_error option" where
  "tracing_Init endpoint exporter resrc =
     (if endpoint = [] then (NoopTracer, None)
      else case exporter of Some e \<Rightarrow> (NoopTracer, Some e)
      | None \<Rightarrow> (case resrc of Some e \<Rightarrow> (NoopTracer, Some e) | None \<Rightarrow> (OtlpTracer, None)))"

section \<open>Contexts\<close>

record spanContext =
  sx_TraceID :: "8 word list"
  sx_SpanID :: "8 word list"

definition ContextWithReadingTrace :: "(string \<Rightarrow> 8 word list option) \<Rightarrow> (string \<Rightarrow> 8 word list option) \<Rightarrow> spanContext option \<Rightarrow> string
    \<Rightarrow> spanContext option" where
  "ContextWithReadingTrace tid sid ctx traceIDHex =
     (if length traceIDHex \<noteq> 32 then ctx
      else case tid traceIDHex of None \<Rightarrow> ctx
      | Some t \<Rightarrow> (case sid (drop 16 traceIDHex) of None \<Rightarrow> ctx | Some s \<Rightarrow> Some \<lparr>sx_TraceID = t, sx_SpanID = s\<rparr>))"

text \<open>The spans of a reading: \<^verbatim>\<open>ingest.publish\<close>, \<^verbatim>\<open>processor.persist\<close> (one for each message of a batch that was
  inserted), \<^verbatim>\<open>processor.window\<close>, \<^verbatim>\<open>control.ws_relay\<close>.\<close>

definition ingestParent :: "(string \<Rightarrow> 8 word list option) \<Rightarrow> (string \<Rightarrow> 8 word list option) \<Rightarrow> Reading \<Rightarrow> spanContext option" where
  "ingestParent tid sid reading = ContextWithReadingTrace tid sid None (rTraceID reading)"

definition persistParents :: "(string \<Rightarrow> 8 word list option) \<Rightarrow> (string \<Rightarrow> 8 word list option) \<Rightarrow> consumer \<Rightarrow> pg \<Rightarrow> (jsmsg \<times> spanContext option) list" where
  "persistParents tid sid c d =
     (if c_rows c = [] then []
      else case insertBatch (c_rows c) d of
        (Some err, _) \<Rightarrow> []
      | (None, _) \<Rightarrow> map (\<lambda>i. (pi_msg i, ContextWithReadingTrace tid sid None (pi_traceID i))) (c_items c))"

definition windowParent :: "(string \<Rightarrow> 8 word list option) \<Rightarrow> (string \<Rightarrow> 8 word list option) \<Rightarrow> jsmsg \<Rightarrow> spanContext option option" where
  "windowParent tid sid msg =
     (case unmarshal_StampedReading (jm_data msg) of
        Inl _ \<Rightarrow> None | Inr sr \<Rightarrow> Some (ContextWithReadingTrace tid sid None (rTraceID (srReading sr))))"

definition set_traceEvent :: "string \<Rightarrow> string decoder" where
  "set_traceEvent k = (if k = ''trace_id'' then field dec_string id (\<lambda>v _. v) else (\<lambda>_ r. Inr r))"

definition unmarshal_traceEvent :: "body \<Rightarrow> json_error + string" where
  "unmarshal_traceEvent = Unmarshal (dec_struct set_traceEvent) []"

definition traceMetricRelay :: "(string \<Rightarrow> 8 word list option) \<Rightarrow> (string \<Rightarrow> 8 word list option) \<Rightarrow> body \<Rightarrow> spanContext option option" where
  "traceMetricRelay tid sid payload =
     (case unmarshal_traceEvent payload of
        Inl _ \<Rightarrow> None
      | Inr traceID \<Rightarrow> if traceID = [] then None else Some (ContextWithReadingTrace tid sid None traceID))"

section \<open>Identifiers\<close>

unbundle bit_operations_syntax

text \<open>The bytes of \<^verbatim>\<open>uuid.New\<close>: version 4, RFC 4122 variant.\<close>

definition uuid4 :: "8 word list \<Rightarrow> bool" where
  "uuid4 bs \<longleftrightarrow> length bs = 16 \<and> bs ! 6 AND 0xF0 = 0x40 \<and> bs ! 8 AND 0xC0 = 0x80"

locale w3c_ids =
  fixes TraceIDFromHex SpanIDFromHex :: "string \<Rightarrow> 8 word list option"
  assumes trace: "length bs = 16 \<Longrightarrow> b \<in> set bs \<Longrightarrow> b \<noteq> 0 \<Longrightarrow> TraceIDFromHex (EncodeToString bs) = Some bs"
    and span: "length bs = 8 \<Longrightarrow> b \<in> set bs \<Longrightarrow> b \<noteq> 0 \<Longrightarrow> SpanIDFromHex (EncodeToString bs) = Some bs"

lemma drop_EncodeToString: "drop (2 * n) (EncodeToString bs) = EncodeToString (drop n bs)"
proof (induction bs arbitrary: n)
  case (Cons b bs)
  then show ?case by (cases n) (simp_all add: EncodeToString_def)
qed (simp add: EncodeToString_def)

text \<open>The variant bits are in the half that becomes the span id: a minted id is never an invalid one.\<close>

lemma uuid4_nonzero:
  assumes "uuid4 bs"
  shows "bs ! 8 \<in> set bs" and "bs ! 8 \<in> set (drop 8 bs)" and "bs ! 8 \<noteq> 0" and "length bs = 16"
proof -
  have len: "length bs = 16" and variant: "bs ! 8 AND 0xC0 = 0x80" using assms by (simp_all add: uuid4_def)
  show "length bs = 16" by (rule len)
  show "bs ! 8 \<in> set bs" using len by simp
  show "bs ! 8 \<in> set (drop 8 bs)" using len by (simp add: in_set_conv_nth) (rule exI [of _ 0], simp)
  show "bs ! 8 \<noteq> 0" using variant by auto
qed

context w3c_ids begin

lemma minted_context:
  assumes "uuid4 bs"
  shows "ContextWithReadingTrace TraceIDFromHex SpanIDFromHex ctx (NewTraceID bs) = Some \<lparr>sx_TraceID = bs, sx_SpanID = drop 8 bs\<rparr>"
proof -
  note nz = uuid4_nonzero [OF assms]
  have "TraceIDFromHex (EncodeToString bs) = Some bs" using trace [OF nz(4,1,3)] .
  moreover have "SpanIDFromHex (EncodeToString (drop 8 bs)) = Some (drop 8 bs)" using span [OF _ nz(2,3)] nz(4) by simp
  moreover have "drop 16 (EncodeToString bs) = EncodeToString (drop 8 bs)" using drop_EncodeToString [of 8 bs] by simp
  ultimately show ?thesis using nz(4) by (simp add: ContextWithReadingTrace_def NewTraceID_def)
qed

end

text \<open>Ids as hexadecimal texts: exactly the given number of bytes in lower case, not all of them zero.\<close>

definition hexVal :: "char \<Rightarrow> nat option" where
  "hexVal = map_of (zip ''0123456789abcdef'' [0..<16])"

fun DecodeString :: "string \<Rightarrow> 8 word list option" where
  "DecodeString [] = Some []"
| "DecodeString [c] = None"
| "DecodeString (a # b # cs) =
     (case (hexVal a, hexVal b, DecodeString cs) of
        (Some h, Some l, Some bs) \<Rightarrow> Some (word_of_nat (16 * h + l) # bs)
      | _ \<Rightarrow> None)"

definition idFromHex :: "nat \<Rightarrow> string \<Rightarrow> 8 word list option" where
  "idFromHex n s =
     (case DecodeString s of
        None \<Rightarrow> None | Some bs \<Rightarrow> if length bs = n \<and> list_ex (\<lambda>b. b \<noteq> 0) bs then Some bs else None)"

lemma hexVal_hexDigit: "hexVal (hexDigit n) = Some (n mod 16)"
proof -
  have "list_all (\<lambda>k. hexVal (''0123456789abcdef'' ! k) = Some k) [0..<16]" by code_simp
  then show ?thesis by (simp add: hexDigit_def list_all_iff)
qed

lemma DecodeString_EncodeToString: "DecodeString (EncodeToString bs) = Some bs"
proof (induction bs)
  case (Cons b bs)
  have "unat b < 256" using unsigned_less [of b, where 'a = nat] by simp
  then have "16 * (unat b div 16 mod 16) + unat b mod 16 = unat b" by simp
  then have "word_of_nat (16 * (unat b div 16 mod 16) + unat b mod 16) = b" by simp
  with Cons show ?case by (simp add: EncodeToString_def hexVal_hexDigit)
qed (simp add: EncodeToString_def)

interpretation hex: w3c_ids "idFromHex 16" "idFromHex 8"
  by unfold_locales (auto simp: idFromHex_def DecodeString_EncodeToString list_ex_iff)

section \<open>Where the trace id travels\<close>

lemma trace_tag [simp]: "foldName ''trace_id'' = ''trace_id''"
  by code_simp

lemma metric_tags:
  "foldName ''schema_version'' \<noteq> ''trace_id''" "foldName ''device_id'' \<noteq> ''trace_id''" "foldName ''sensor_type'' \<noteq> ''trace_id''"
  "foldName ''mean'' \<noteq> ''trace_id''" "foldName ''stddev'' \<noteq> ''trace_id''" "foldName ''count'' \<noteq> ''trace_id''" "foldName ''ewma'' \<noteq> ''trace_id''"
  "foldName ''window_start_ms'' \<noteq> ''trace_id''" "foldName ''window_end_ms'' \<noteq> ''trace_id''"
  by code_simp+

text \<open>The trace id of a metric event, as the relay reads it.\<close>

lemma traceEvent_marshal: "unmarshal_traceEvent (Some (marshal_MetricEvent e)) = Inr (me_TraceID e)"
  using metric_tags by (auto simp: unmarshal_traceEvent_def Unmarshal_def marshal_MetricEvent_def set_traceEvent_def omit_if_def field_def)

text \<open>Every message the windowed consumer publishes while it handles a reading, if it is a metric, carries its trace id.\<close>

definition carries :: "string \<Rightarrow> string \<times> json \<Rightarrow> bool" where
  "carries tr m \<longleftrightarrow> (\<forall>dev. fst m = MetricsSubject dev \<longrightarrow> unmarshal_traceEvent (Some (snd m)) = Inr tr)"

definition publishes :: "(string \<times> json \<Rightarrow> bool) \<Rightarrow> 'kv world \<Rightarrow> 'kv world \<Rightarrow> bool" where
  "publishes P w w' \<longleftrightarrow> (\<exists>ms. bus_sent (w_js w') = bus_sent (w_js w) @ ms \<and> list_all P ms)"

lemma publishes_refl [intro]: "w_js w' = w_js w \<Longrightarrow> publishes P w w'"
  by (auto simp: publishes_def)

lemma publishes_trans [trans]: "publishes P w1 w2 \<Longrightarrow> publishes P w2 w3 \<Longrightarrow> publishes P w1 w3"
  by (fastforce simp: publishes_def)

lemma publishes_bus: "P (subj, m) \<Longrightarrow> publishes P w (snd (on_js (bus_publish subj m) w))"
  by (cases "bus_publish subj m (w_js w)") (auto simp: publishes_def on_js_def elim!: bus_publish_cases)

lemma publishes_fold:
  assumes "\<And>x s. publishes P (snd s) (snd (f x s))"
  shows "publishes P (snd s) (snd (fold f xs s))"
proof (induction xs arbitrary: s)
  case (Cons x xs)
  have "publishes P (snd s) (snd (f x s))" by (rule assms)
  also have "publishes P \<dots> (snd (fold f xs (f x s)))" by (rule Cons.IH)
  finally show ?case by simp
qed auto

lemma publishes_from: "publishes P w1 w2 \<Longrightarrow> w_js w1 = w_js w \<Longrightarrow> publishes P w w2"
  by (simp add: publishes_def)

lemma js_frame:
  "time_Now w = (t, w1) \<Longrightarrow> w_js w1 = w_js w" "uuid_NewString w = (i, w1) \<Longrightarrow> w_js w1 = w_js w" "on_pg_now f w = (a, w1) \<Longrightarrow> w_js w1 = w_js w"
  by (auto simp: world_defs split: prod.splits)

lemma publishAlert_carries: "publishes (carries tr) w (publishAlert a w)"
proof -
  obtain t w1 where t: "time_Now w = (t, w1)" by (cases "time_Now w")
  have "carries tr (AlertsSubject d, m)" for d m by (simp add: carries_def AlertsSubject_def MetricsSubject_def)
  then have "publishes (carries tr) w1 (publishAlert a w)"
    unfolding publishAlert_def Alerts_Publish_def t by (simp add: publishes_bus)
  then show ?thesis using js_frame(1) [OF t] by (rule publishes_from)
qed

lemma fire_carries: "publishes (carries tr) w (fire dv st rule score w)"
proof -
  obtain i w1 t w2 where u: "uuid_NewString w = (i, w1)" "time_Now w1 = (t, w2)" by (metis surj_pair)
  obtain res w3 where r: "on_pg_now (\<lambda>n. Alerts_Open n i dv st (ru_Name rule) (ru_Severity rule) (fireDetail rule score) t) w2 = (res, w3)"
    by (metis surj_pair)
  have "w_js w3 = w_js w" using js_frame(2) [OF u(1)] js_frame(1) [OF u(2)] js_frame(3) [OF r] by simp
  then have "publishes (carries tr) w w3" "publishes (carries tr) w (publishAlert a w3)" for a
    by (rule publishes_refl, rule publishes_from [OF publishAlert_carries])
  then show ?thesis by (cases res) (simp_all add: fire_def u r Let_def split: prod.splits)
qed

lemma resolve_carries: "publishes (carries tr) w (resolve dv st rule w)"
proof -
  obtain t w1 where t: "time_Now w = (t, w1)" by (metis surj_pair)
  obtain res w2 where r: "on_pg_now (\<lambda>n. Alerts_Resolve n dv st (ru_Name rule) t) w1 = (res, w2)" by (metis surj_pair)
  have "w_js w2 = w_js w" using js_frame(1) [OF t] js_frame(3) [OF r] by simp
  then have "publishes (carries tr) w w2" "publishes (carries tr) w (publishAlert a w2)" for a
    by (rule publishes_refl, rule publishes_from [OF publishAlert_carries])
  then show ?thesis by (cases res) (simp_all add: resolve_def t r Let_def split: option.splits)
qed

lemma applyEvaluation_carries: "publishes (carries tr) (snd s) (snd (applyEvaluation dv st rule v score s))"
  by (cases s) (auto simp: applyEvaluation_def fire_carries resolve_carries split: prod.splits EvalEvent.splits)

lemma evalRule_carries: "publishes (carries tr) (snd s) (snd (evalRule dv st val wi rule s))"
  by (auto simp: evalRule_def applyEvaluation_carries split: prod.splits)

lemma processSample_carries: "publishes (carries tr) (snd s) (snd (processSample dv st val t seq tr s))"
proof -
  obtain c w where s: "s = (c, w)" by (metis surj_pair)
  obtain now w1 where t: "time_Now w = (now, w1)" by (metis surj_pair)
  obtain wi reg where g: "Registry_Get (wc_registry c) \<lparr>wk_DeviceID = dv, wk_SensorType = st\<rparr> now = (wi, reg)" by (metis surj_pair)
  obtain wi' new where i: "Insert wi t val seq = (wi', new)" by (metis surj_pair)
  have same: "publishes (carries tr) w w1" using js_frame(1) [OF t] by (rule publishes_refl)
  show ?thesis
  proof (cases new)
    case False
    then show ?thesis using same by (simp add: processSample_def s t g i)
  next
    case True
    let ?w2 = "publishMetric dv st wi' tr w1"
    have "carries tr (MetricsSubject dv, marshal_MetricEvent e)" if "me_TraceID e = tr" for e
      using that traceEvent_marshal [of e] by (simp add: carries_def)
    then have "publishes (carries tr) w1 ?w2" unfolding publishMetric_def by (intro publishes_bus) simp
    also have "publishes (carries tr) ?w2
        (snd (fold (evalRule dv st val wi') (ForSensor (Watcher_Current (wc_rulesW c)) st) (wc_evaluator c, ?w2)))"
      using publishes_fold [OF evalRule_carries, of tr "(wc_evaluator c, ?w2)"] by simp
    finally show ?thesis using True same publishes_trans by (auto simp: processSample_def s t g i Let_def split: prod.splits)
  qed
qed

lemma windowed_carries:
  assumes "unmarshal_StampedReading (jm_data m) = Inr sr"
  shows "publishes (carries (rTraceID (srReading sr))) (snd s) (snd (snd (windowed_onMessage m s)))"
proof -
  let ?r = "srReading sr"
  have "publishes (carries (rTraceID ?r)) (snd s)
      (snd ((case x of (st, val) \<Rightarrow> processSample (rDeviceID ?r) st val (time_UnixMilli (rDeviceTimeMS ?r)) (rSeq ?r) (rTraceID ?r)) s))"
    for x and s :: "windowedConsumer \<times> 'b world"
    by (cases x) (simp add: processSample_carries)
  from publishes_fold [OF this] show ?thesis by (simp add: windowed_onMessage_def assms Let_def)
qed

text \<open>Every item of a batch carries the trace id of its message.\<close>

definition items_traced :: "consumer \<Rightarrow> bool" where
  "items_traced c \<longleftrightarrow> (\<forall>i \<in> set (c_items c). \<exists>sr. unmarshal_StampedReading (jm_data (pi_msg i)) = Inr sr \<and> pi_traceID i = rTraceID (srReading sr))"

lemma flush_traced: "flush c d = (acks, c', d') \<Longrightarrow> items_traced c'"
  by (auto simp: flush_def items_traced_def Let_def split: if_splits option.splits prod.splits)

lemma onMessage_traced:
  assumes "items_traced c" and "consumer_onMessage m c d = (acks, c', d')"
  shows "items_traced c'"
proof (cases "unmarshal_StampedReading (jm_data m)")
  case (Inr sr)
  show ?thesis
    using assms flush_traced unfolding consumer_onMessage_def Inr Let_def
    by (auto simp: items_traced_def Inr split: if_splits)
qed (use assms in \<open>auto simp: consumer_onMessage_def\<close>)

lemma persisting_traced: "persisting d0 ms out c d \<Longrightarrow> items_traced c"
proof (induction rule: persisting.induct)
  case start
  show ?case by (simp add: newConsumer_def items_traced_def)
qed (auto intro: flush_traced onMessage_traced)

section \<open>Properties\<close>

text \<open>C39: one reading, one trace, from ingest to the console. Take a reading with a minted trace id that ingest accepts, and the message it
  publishes for it. The span of ingest, the span of the persistence consumer whichever run it is in whenever the batch with the message is
  written, the span of the windowed consumer, and the relay of every metric the windowed consumer publishes for it have the
  same parent: the trace is the one of the reading and its id is always valid.
\<close>

theorem reading_is_one_trace:
  assumes ids: "w3c_ids tid sid" and "uuid4 bs" and tr: "rTraceID r = NewTraceID bs" and acc: "accepted uuid_ok msg = Some r"
    and "handle tx uuid_ok ops msg l w = (acked, l', w')" and "0 \<le> fst (time_Now w)" and "fst (time_Now w) < 2 ^ 63"
    and "bus_sent (w_js w') = bus_sent (w_js w) @ [(subj, body)]" and jm: "jm_data jm = Some body"
    and ctx: "ctx = \<lparr>sx_TraceID = bs, sx_SpanID = drop 8 bs\<rparr>"
  shows "ingestParent tid sid r = Some ctx \<and>
    (\<forall>d0 ms out c d sp. persisting d0 ms out c d \<longrightarrow> (jm, sp) \<in> set (persistParents tid sid c d) \<longrightarrow> sp = Some ctx) \<and>
    windowParent tid sid jm = Some (Some ctx) \<and>
    (\<exists>ms. bus_sent (w_js (snd (snd (windowed_onMessage jm s)))) = bus_sent (w_js (snd s)) @ ms \<and>
      (\<forall>dev p. (MetricsSubject dev, p) \<in> set ms \<longrightarrow> traceMetricRelay tid sid (Some p) = Some (Some ctx)))"
proof -
  have minted: "ContextWithReadingTrace tid sid None (rTraceID r) = Some ctx"
    unfolding tr ctx by (rule w3c_ids.minted_context [OF ids assms(2)])
  have nonempty: "rTraceID r \<noteq> []" using uuid4_nonzero(4) [OF assms(2)] by (auto simp: tr NewTraceID_def dest: arg_cong [of _ _ length])
  have "body = marshal_StampedReading \<lparr>srReading = r, srIngestTimeMS = UnixMilli (fst (time_Now w))\<rparr>"
    using handle_publishes [OF acc assms(5,8)] by simp
  then obtain sr where dec: "unmarshal_StampedReading (jm_data jm) = Inr sr" and same: "rTraceID (srReading sr) = rTraceID r"
    using published_decodes [OF acc assms(6,7)] jm by auto
  have "sp = Some ctx" if run: "persisting d0 ms out c d" and span: "(jm, sp) \<in> set (persistParents tid sid c d)" for d0 ms out c d sp
  proof -
    obtain i where "i \<in> set (c_items c)" "pi_msg i = jm" and sp: "sp = ContextWithReadingTrace tid sid None (pi_traceID i)"
      using span by (auto simp: persistParents_def split: if_splits option.splits prod.splits)
    then have "pi_traceID i = rTraceID r" using persisting_traced [OF run] dec same by (fastforce simp: items_traced_def)
    then show ?thesis using minted sp by simp
  qed
  moreover obtain ms where "bus_sent (w_js (snd (snd (windowed_onMessage jm s)))) = bus_sent (w_js (snd s)) @ ms"
    and "list_all (carries (rTraceID r)) ms"
    using windowed_carries [OF dec, of s] same by (auto simp: publishes_def)
  moreover have "traceMetricRelay tid sid (Some p) = Some (Some ctx)" if "(MetricsSubject dev, p) \<in> set ms" for dev p
  proof -
    have "carries (rTraceID r) (MetricsSubject dev, p)" using that \<open>list_all (carries (rTraceID r)) ms\<close> by (simp add: list_all_iff)
    then have "unmarshal_traceEvent (Some p) = Inr (rTraceID r)" by (auto simp: carries_def)
    then show ?thesis using minted nonempty by (simp add: traceMetricRelay_def)
  qed
  ultimately show ?thesis using minted dec same by (auto simp: ingestParent_def windowParent_def)
qed

definition mintedBytes :: "8 word list" where
  "mintedBytes = [1, 2, 3, 4, 5, 6, 0x47, 8, 0x89, 10, 11, 12, 13, 14, 15, 16]"

definition mintedReading :: Reading where
  "mintedReading = (srReading sampleStamped)\<lparr>rTraceID := NewTraceID mintedBytes\<rparr>"

definition mintedMsg :: mqtt_in where
  "mintedMsg = delivered ''d1'' [] (snd (telemetry_msg ''d1'' mintedReading))"

theorem reading_is_one_trace_witness:
  "\<exists>body. windowParent (idFromHex 16) (idFromHex 8) \<lparr>jm_delivery = 0, jm_data = Some body\<rparr> = Some (ingestParent (idFromHex 16) (idFromHex 8) mintedReading) \<and>
     ingestParent (idFromHex 16) (idFromHex 8) mintedReading = Some \<lparr>sx_TraceID = mintedBytes, sx_SpanID = [0x89, 10, 11, 12, 13, 14, 15, 16]\<rparr>"
proof -
  have u: "uuid4 mintedBytes" by (simp add: uuid4_def mintedBytes_def)
  have "sound_reading (\<lambda>_. True) ''d1'' mintedReading"
    by (simp add: sound_reading_def mintedReading_def sampleStamped_def Validate_None_iff reading_ok_def NewTraceID_def mintedBytes_def SchemaVersion_def)
  then have acc: "accepted (\<lambda>_. True) mintedMsg = Some mintedReading"
    using sound_accepted [of _ "''d1''" mintedReading "[]"] by (simp add: delivered_def mintedMsg_def telemetry_msg_def)
  have dev: "rDeviceID mintedReading = ''d1''" by (simp add: mintedReading_def sampleStamped_def)
  obtain l' w' body where h: "handle plainTexts (\<lambda>_. True) tokenLimiter mintedMsg (newPerDeviceLimiter 10 1) (ingestWorld []) = (True, l', w')"
    and b: "bus_sent (w_js w') = bus_sent (w_js (ingestWorld [])) @ [(JetStreamSubject ''d1'', body)]"
    using dev by (simp add: handle_accepted [OF acc] world_defs Let_def Limiter_Allow_def newPerDeviceLimiter_def tokenLimiter_def ingestWorld_def)
  have tr: "rTraceID mintedReading = NewTraceID mintedBytes" by (simp add: mintedReading_def)
  have "ingestParent (idFromHex 16) (idFromHex 8) mintedReading = Some \<lparr>sx_TraceID = mintedBytes, sx_SpanID = drop 8 mintedBytes\<rparr>"
    "windowParent (idFromHex 16) (idFromHex 8) \<lparr>jm_delivery = 0, jm_data = Some body\<rparr> = Some (Some \<lparr>sx_TraceID = mintedBytes, sx_SpanID = drop 8 mintedBytes\<rparr>)"
    using reading_is_one_trace [OF hex.w3c_ids_axioms u tr acc h sampleClock b _ refl, of "\<lparr>jm_delivery = 0, jm_data = Some body\<rparr>"
        "(newWindowedConsumer (NewRegistry 1 1 1) \<lparr>wa_current = \<lparr>cfg_Rules = []\<rparr>\<rparr> 1 1, ingestWorld [])"] by simp_all
  then show ?thesis by (intro exI [of _ body]) (simp add: mintedBytes_def)
qed

end
