(* ===== verification/Lifecycle.thy ===== *)
theory Lifecycle
  imports Json
begin

text \<open>
  What every service shares around its own logic: the HTTP server and its shutdown (\<^verbatim>\<open>internal/httpserver\<close>), the log
  level (\<^verbatim>\<open>internal/logging\<close>) and the trust in the CA (\<^verbatim>\<open>internal/tlsutil\<close>).

  \<^verbatim>\<open>Run\<close> is two goroutines and a channel that holds one value: a step relation whose steps are those of either
  goroutine, the signal and the answers of \<^verbatim>\<open>net/http\<close>. Of that library it uses that \<^verbatim>\<open>ListenAndServe\<close> returns
  \<^verbatim>\<open>ErrServerClosed\<close> exactly when \<^verbatim>\<open>Shutdown\<close> was called, be it before or while it serves, and another error when it cannot serve.
\<close>

section \<open>The HTTP server\<close>

text \<open>The answer of \<^verbatim>\<open>/healthz\<close>, and the choice of the protocol.\<close>

definition healthz :: "nat \<times> string" where
  "healthz = (200, ''ok'')"

definition servesTLS :: "string \<Rightarrow> string \<Rightarrow> bool" where
  "servesTLS certFile keyFile \<longleftrightarrow> certFile \<noteq> [] \<and> keyFile \<noteq> []"

text \<open>Where \<^verbatim>\<open>Run\<close> is, and what it returned.\<close>

datatype run_pc = Selecting | ShuttingDown | AwaitingServe | Returned "io_error option"

record http_run =
  hr_pc :: run_pc
  hr_serving :: bool
  hr_errCh :: "io_error option option"
  hr_ctxDone :: bool
  hr_shutdown :: bool

definition http_Run :: http_run where
  "http_Run = \<lparr>hr_pc = Selecting, hr_serving = True, hr_errCh = None, hr_ctxDone = False, hr_shutdown = False\<rparr>"

inductive run_step :: "http_run \<Rightarrow> http_run \<Rightarrow> bool" where
  signal: "\<not> hr_ctxDone s \<Longrightarrow> run_step s (s\<lparr>hr_ctxDone := True\<rparr>)"
| serve_fails: "hr_serving s \<Longrightarrow> hr_errCh s = None \<Longrightarrow> run_step s (s\<lparr>hr_serving := False, hr_errCh := Some (Some e)\<rparr>)"
| serve_closed: "hr_serving s \<Longrightarrow> hr_shutdown s \<Longrightarrow> hr_errCh s = None \<Longrightarrow>
    run_step s (s\<lparr>hr_serving := False, hr_errCh := Some None\<rparr>)"
| select_done: "hr_pc s = Selecting \<Longrightarrow> hr_ctxDone s \<Longrightarrow> run_step s (s\<lparr>hr_pc := ShuttingDown, hr_shutdown := True\<rparr>)"
| select_err: "hr_pc s = Selecting \<Longrightarrow> hr_errCh s = Some r \<Longrightarrow> run_step s (s\<lparr>hr_pc := Returned r, hr_errCh := None\<rparr>)"
| shutdown_ok: "hr_pc s = ShuttingDown \<Longrightarrow> run_step s (s\<lparr>hr_pc := AwaitingServe\<rparr>)"
| shutdown_fails: "hr_pc s = ShuttingDown \<Longrightarrow> run_step s (s\<lparr>hr_pc := Returned (Some e)\<rparr>)"
| await: "hr_pc s = AwaitingServe \<Longrightarrow> hr_errCh s = Some r \<Longrightarrow> run_step s (s\<lparr>hr_pc := Returned r, hr_errCh := None\<rparr>)"

inductive_cases run_stepE: "run_step s s'"

inductive run_steps :: "nat \<Rightarrow> http_run \<Rightarrow> bool" where
  init: "run_steps 0 http_Run"
| more: "run_steps n s \<Longrightarrow> run_step s s' \<Longrightarrow> run_steps (Suc n) s'"

section \<open>The CA and the log level\<close>

record tls_lib =
  tl_ReadFile :: "string \<Rightarrow> io_error + string"
  tl_AppendCerts :: "string \<Rightarrow> bool"

definition FromCAFile :: "tls_lib \<Rightarrow> string \<Rightarrow> io_error option" where
  "FromCAFile lib caFile =
     (case tl_ReadFile lib caFile of
        Inl e \<Rightarrow> Some e
      | Inr pem \<Rightarrow> if tl_AppendCerts lib pem then None else Some (''tlsutil: no certificates found in '' @ caFile))"

datatype level = LevelDebug | LevelInfo | LevelWarn | LevelError

text \<open>\<^verbatim>\<open>strings.ToLower\<close>, as far as its result is ASCII: of the letters beyond ASCII only the dotted capital I and the Kelvin sign
  have a lower case in ASCII.\<close>

fun ToLower :: "string \<Rightarrow> string" where
  "ToLower [] = []"
| "ToLower (a # cs) =
     (if a = CHR 0xC4 \<and> take 1 cs = [CHR 0xB0] then CHR ''i'' # ToLower (drop 1 cs)
      else if a = CHR 0xE2 \<and> take 2 cs = [CHR 0x84, CHR 0xAA] then CHR ''k'' # ToLower (drop 2 cs)
      else lowerChar a # ToLower cs)"

definition parseLevel :: "string \<Rightarrow> level" where
  "parseLevel lvl =
     (let l = ToLower lvl in
      if l = ''debug'' then LevelDebug else if l = ''warn'' \<or> l = ''warning'' then LevelWarn
      else if l = ''error'' then LevelError else LevelInfo)"

section \<open>Invariant\<close>

text \<open>The serving goroutine sends once, and its value is received at most once; an error-free result means that \<^verbatim>\<open>Shutdown\<close> was
  called, which happens only after the signal.\<close>

definition run_inv :: "http_run \<Rightarrow> bool" where
  "run_inv s \<longleftrightarrow> (hr_serving s \<longrightarrow> hr_errCh s = None) \<and> (hr_shutdown s \<longrightarrow> hr_ctxDone s) \<and>
     (hr_errCh s = Some None \<longrightarrow> hr_shutdown s) \<and>
     (case hr_pc s of
        Selecting \<Rightarrow> \<not> hr_shutdown s \<and> (\<not> hr_serving s \<longrightarrow> hr_errCh s \<noteq> None)
      | ShuttingDown \<Rightarrow> hr_shutdown s \<and> (\<not> hr_serving s \<longrightarrow> hr_errCh s \<noteq> None)
      | AwaitingServe \<Rightarrow> hr_shutdown s \<and> (\<not> hr_serving s \<longrightarrow> hr_errCh s \<noteq> None)
      | Returned r \<Rightarrow> (hr_serving s \<longrightarrow> hr_shutdown s) \<and> (r = None \<longrightarrow> hr_ctxDone s))"

lemma run_inv_step: "run_inv s \<Longrightarrow> run_step s s' \<Longrightarrow> run_inv s'"
  by (erule run_stepE) (auto simp: run_inv_def split: run_pc.splits)

lemma run_steps_inv: "run_steps n s \<Longrightarrow> run_inv s"
proof (induction rule: run_steps.induct)
  case init
  show ?case by (simp add: run_inv_def http_Run_def)
qed (rule run_inv_step)

text \<open>What is left to do: the signal, the send, and the phases of \<^verbatim>\<open>Run\<close>.\<close>

definition run_left :: "http_run \<Rightarrow> nat" where
  "run_left s = (if hr_ctxDone s then 0 else 1) + (if hr_serving s then 1 else 0) +
     (case hr_pc s of Selecting \<Rightarrow> 3 | ShuttingDown \<Rightarrow> 2 | AwaitingServe \<Rightarrow> 1 | Returned _ \<Rightarrow> 0)"

lemma run_left_step: "run_step s s' \<Longrightarrow> run_left s' < run_left s"
  by (erule run_stepE) (simp_all add: run_left_def split: run_pc.splits)

section \<open>Properties\<close>

text \<open>C40: the HTTP server's shutdown neither hangs nor leaks. In whatever order the signal, the serving goroutine and the library's
  answers come, after at most five steps nothing is left to do, and whenever nothing is left to do \<^verbatim>\<open>Run\<close> has returned and
  the serving goroutine has ended. It returns without an error only after the signal.
\<close>

theorem http_run_returns:
  assumes "run_steps n s"
  shows "n \<le> 5 \<and> ((\<nexists>s'. run_step s s') \<longrightarrow> (\<exists>r. hr_pc s = Returned r) \<and> \<not> hr_serving s) \<and>
     (hr_pc s = Returned None \<longrightarrow> hr_ctxDone s)"
proof -
  have "n + run_left s \<le> 5"
    using assms
  proof (induction rule: run_steps.induct)
    case (more n s s')
    with run_left_step [OF more.hyps(2)] show ?case by simp
  qed (simp add: run_left_def http_Run_def)
  moreover have inv: "run_inv s" using assms by (rule run_steps_inv)
  moreover have "\<exists>s'. run_step s s'" if stuck: "(\<nexists>r. hr_pc s = Returned r) \<or> hr_serving s"
  proof (cases "hr_ctxDone s")
    case True
    show ?thesis
    proof (cases "hr_pc s")
      case Selecting
      with True show ?thesis by (blast intro: run_step.intros)
    next
      case ShuttingDown
      then show ?thesis by (blast intro: run_step.intros)
    next
      case AwaitingServe
      with inv show ?thesis by (cases "hr_serving s") (auto simp: run_inv_def intro: run_step.intros)
    next
      case (Returned r)
      with inv stuck show ?thesis by (auto simp: run_inv_def intro: run_step.intros)
    qed
  qed (blast intro: run_step.intros)
  ultimately show ?thesis by (auto simp: run_inv_def)
qed

text \<open>A signal while the server serves, and a clean end.\<close>

theorem http_run_returns_witness:
  "\<exists>s. run_steps 5 s \<and> hr_pc s = Returned None \<and> hr_ctxDone s"
proof -
  let ?s = "http_Run\<lparr>hr_ctxDone := True, hr_shutdown := True, hr_serving := False\<rparr>"
  have "run_step http_Run (http_Run\<lparr>hr_ctxDone := True\<rparr>)" by (rule signal) (simp add: http_Run_def)
  moreover have "run_step (http_Run\<lparr>hr_ctxDone := True\<rparr>) (http_Run\<lparr>hr_ctxDone := True, hr_pc := ShuttingDown, hr_shutdown := True\<rparr>)"
    using select_done [of "http_Run\<lparr>hr_ctxDone := True\<rparr>"] by (simp add: http_Run_def)
  moreover have "run_step (http_Run\<lparr>hr_ctxDone := True, hr_pc := ShuttingDown, hr_shutdown := True\<rparr>) (?s\<lparr>hr_pc := ShuttingDown, hr_errCh := Some None\<rparr>)"
    using serve_closed [of "http_Run\<lparr>hr_ctxDone := True, hr_pc := ShuttingDown, hr_shutdown := True\<rparr>"] by (simp add: http_Run_def)
  moreover have "run_step (?s\<lparr>hr_pc := ShuttingDown, hr_errCh := Some None\<rparr>) (?s\<lparr>hr_pc := AwaitingServe, hr_errCh := Some None\<rparr>)"
    using shutdown_ok [of "?s\<lparr>hr_pc := ShuttingDown, hr_errCh := Some None\<rparr>"] by (simp add: http_Run_def)
  moreover have "run_step (?s\<lparr>hr_pc := AwaitingServe, hr_errCh := Some None\<rparr>) (?s\<lparr>hr_pc := Returned None, hr_errCh := None\<rparr>)"
    using await [of "?s\<lparr>hr_pc := AwaitingServe, hr_errCh := Some None\<rparr>" None] by (simp add: http_Run_def)
  ultimately have run: "run_steps (Suc (Suc (Suc (Suc (Suc 0))))) (?s\<lparr>hr_pc := Returned None, hr_errCh := None\<rparr>)"
    by (blast intro: run_steps.intros)
  from http_run_returns [OF this] run show ?thesis
    by (intro exI [of _ "?s\<lparr>hr_pc := Returned None, hr_errCh := None\<rparr>"]) (simp add: numeral_eq_Suc)
qed

text \<open>A level that is not known, in whatever case, logs as \<^verbatim>\<open>info\<close>; a known one is found in any case.\<close>

lemma parseLevel_cases:
  "parseLevel l = LevelInfo \<longleftrightarrow> ToLower l \<notin> {''debug'', ''warn'', ''warning'', ''error''}" "parseLevel ''WARNING'' = LevelWarn"
  by (simp add: parseLevel_def Let_def) code_simp

end
