(* ===== verification/Startup.thy ===== *)
theory Startup
  imports ControlApi Migrations Bootstrap Windowed HostAgent FleetManager Streams Tracing Lifecycle
begin

text \<open>
  How the services come up: \<^verbatim>\<open>runServer\<close> and \<^verbatim>\<open>connectControlMQTT\<close> of \<^verbatim>\<open>cmd/control/main.go\<close>, the \<^verbatim>\<open>main\<close> of
  \<^verbatim>\<open>cmd/processor\<close>, \<^verbatim>\<open>cmd/ingest\<close>, \<^verbatim>\<open>cmd/hostagent\<close> and \<^verbatim>\<open>cmd/fleet\<close>. Each is the sequence of its fallible steps over the
  settings of the environment and the components the other theories model; what the client libraries answer (a connection
  refused, a stream that cannot be declared) is part of the arguments. A service exits at a step that fails, crashes where a
  goroutine panics, or is up with the parts it built. A service that is up waits for a signal in \<^verbatim>\<open>httpserver.Run\<close>
  (theory \<open>Lifecycle\<close>); a goroutine that fails is taken to fail at the point where it is started.
\<close>

section \<open>Outcomes\<close>

datatype start_failure =
    PostgresConnect io_error
  | MigrationsFailed mig_error
  | TracingInit io_error
  | NoSigningKey
  | NatsConnect io_error
  | JetStreamInit io_error
  | BucketFailed io_error
  | StreamsFailed "string \<times> io_error"
  | ConsumerFailed attach_error
  | RulesFailed rules_error
  | MqttConnect connect_error
  | ProvisioningFailed prov_error
  | CAUnusable io_error
  | TokensUnreadable

datatype 'a outcome = Exited start_failure | Crashed | Up 'a

definition migrationsDir :: "environ \<Rightarrow> string" where
  "migrationsDir env = (let dir = Getenv env ''MIGRATIONS_DIR'' in if dir = [] then ''deploy/migrations'' else dir)"

definition caFileOrDefault :: "Config \<Rightarrow> string" where
  "caFileOrDefault cfg = (if cfg_TLSCAFile cfg = [] then ''deploy/certs/ca.pem'' else cfg_TLSCAFile cfg)"

text \<open>Loading the CA and waiting for the connection, as every client of the broker does.\<close>

definition dial :: "(string \<Rightarrow> io_error option) \<Rightarrow> string \<Rightarrow> token_result \<Rightarrow> connect_error option" where
  "dial fromCAFile caFile tok =
     (case fromCAFile caFile of Some e \<Rightarrow> Some (CALoad e) | None \<Rightarrow> awaited ConnectTimeout ConnectFailed tok)"

section \<open>Control\<close>

record ('sch, 'kv, 'b) control_lib =
  cl_exporter :: "io_error option"
  cl_resource :: "io_error option"
  cl_pool :: "io_error option"
  cl_exec :: "'sch exec"
  cl_dirs :: "string \<Rightarrow> directory"
  cl_ids :: "nat \<Rightarrow> nat \<Rightarrow> string"
  cl_cancelled :: "nat \<Rightarrow> bool"
  cl_broker :: "json \<Rightarrow> 'b \<Rightarrow> exchange \<times> 'b"
  cl_net :: "'b \<Rightarrow> token_result \<times> token_result \<times> 'b"
  cl_nats :: "io_error option"
  cl_jetstream :: "io_error option"
  cl_bucket :: "io_error option"
  cl_tls :: tls_lib
  cl_mqtt :: token_result
  cl_env :: "'kv control_env"

record ('sch, 'kv, 'b) control_store =
  st_mig :: "'sch migdb"
  st_broker :: 'b
  st_js :: jetstream
  st_world :: "'kv world"

record 'kv control_service =
  cv_env :: "'kv control_env"
  cv_state :: "'kv control"
  cv_dynsec :: "dynsecClient option"

definition dynsecSettings :: "Config \<Rightarrow> dynsec_cfg" where
  "dynsecSettings cfg =
     \<lparr>cf_AdminUser = cfg_MQTTAdminUser cfg, cf_AdminPass = cfg_MQTTAdminPass cfg, cf_BridgeUser = cfg_MQTTBridgeUser cfg,
      cf_BridgePass = cfg_MQTTBridgePass cfg, cf_ControlUser = cfg_MQTTControlUser cfg, cf_ControlPass = cfg_MQTTControlPass cfg\<rparr>"

text \<open>\<^verbatim>\<open>connectControlMQTT\<close>: \<open>None\<close> when the control plane's own identity is connected.\<close>

datatype control_mqtt_error = CredentialsNotSet | ControlConnect connect_error

definition connectControlMQTT :: "Config \<Rightarrow> (string \<Rightarrow> io_error option) \<Rightarrow> token_result \<Rightarrow> control_mqtt_error option" where
  "connectControlMQTT cfg fromCAFile tok =
     (if cfg_MQTTControlUser cfg = [] \<or> cfg_MQTTControlPass cfg = [] then Some CredentialsNotSet
      else map_option ControlConnect (dial fromCAFile (caFileOrDefault cfg) tok))"

definition serviceEnv :: "Config \<Rightarrow> bool \<Rightarrow> 'kv control_env \<Rightarrow> 'kv control_env" where
  "serviceEnv cfg up env = env\<lparr>ce_issuer := cfg_JWTIssuer cfg, ce_signingKey := cfg_JWTSigningKey cfg, ce_mqttUp := up,
     ce_driftStaleAfter := cfg_DriftStaleAfter cfg\<rparr>"

definition runServer :: "(string \<Rightarrow> real option) \<Rightarrow> environ \<Rightarrow> ('sch, 'kv, 'b) control_lib \<Rightarrow> ('sch, 'kv, 'b) control_store
    \<Rightarrow> 'kv control_service outcome \<times> ('sch, 'kv, 'b) control_store" where
  "runServer parseFloat env lib s =
     (let cfg = Config_Load parseFloat env ''control'' '':8080'' in
      case snd (tracing_Init (cfg_OTLPEndpoint cfg) (cl_exporter lib) (cl_resource lib)) of Some e \<Rightarrow> (Exited (TracingInit e), s) | None \<Rightarrow>
      (case cl_pool lib of Some e \<Rightarrow> (Exited (PostgresConnect e), s) | None \<Rightarrow>
      (case Migrations_Run (cl_exec lib) (cl_dirs lib (migrationsDir env)) (st_mig s) of
         (Some e, d) \<Rightarrow> (Exited (MigrationsFailed e), s\<lparr>st_mig := d\<rparr>)
       | (None, d) \<Rightarrow>
      (let s1 = s\<lparr>st_mig := d\<rparr> in
      if cfg_JWTSigningKey cfg = [] then (Exited NoSigningKey, s1)
      else
      (case connectDynsec (dynsecSettings cfg) (cl_ids lib) (cl_cancelled lib) (cl_broker lib)
              (dynsec_Connect (FromCAFile (cl_tls lib)) (cfg_TLSCAFile cfg) (cl_net lib)) (st_broker s1) of
         (client, b) \<Rightarrow>
      (let s2 = s1\<lparr>st_broker := b\<rparr> in
      case cl_nats lib of Some e \<Rightarrow> (Exited (NatsConnect e), s2) | None \<Rightarrow>
      (case cl_jetstream lib of Some e \<Rightarrow> (Exited (JetStreamInit e), s2) | None \<Rightarrow>
      (case cl_bucket lib of Some e \<Rightarrow> (Exited (BucketFailed e), s2) | None \<Rightarrow>
      (case rollout_EnsureStream (st_js s2) of (Some e, j) \<Rightarrow> (Exited (StreamsFailed e), s2\<lparr>st_js := j\<rparr>) | (None, j) \<Rightarrow>
      (let up = (connectControlMQTT cfg (FromCAFile (cl_tls lib)) (cl_mqtt lib) = None); cenv = serviceEnv cfg up (cl_env lib) in
      case ResumeAll (ce_deps cenv) (NewEngine (cfg_RolloutDisconnectStaleAfter cfg)) (st_world s2) of
        (_, e, w) \<Rightarrow>
          (let s3 = s2\<lparr>st_js := j, st_world := w\<rparr> in
           if cfg_RolloutTickInterval cfg \<le> 0 then (Crashed, s3)
           else (Up \<lparr>cv_env = cenv, cv_state = \<lparr>cs_world = w, cs_engine = e\<rparr>, cv_dynsec = client\<rparr>, s3))))))))))))"

section \<open>Processor\<close>

record ('sch, 'y) processor_lib =
  pl_pool :: "io_error option"
  pl_exec :: "'sch exec"
  pl_dirs :: "string \<Rightarrow> directory"
  pl_nats :: "io_error option"
  pl_jetstream :: "io_error option"
  pl_yaml :: "'y \<Rightarrow> string + Rule list"
  pl_files :: "string \<Rightarrow> io_error + 'y"

record processor_service =
  pv_consumer :: consumer
  pv_windowed :: windowedConsumer

definition startProcessor :: "(string \<Rightarrow> real option) \<Rightarrow> environ \<Rightarrow> ('sch, 'y) processor_lib \<Rightarrow> 'sch migdb \<times> jetstream
    \<Rightarrow> processor_service outcome \<times> 'sch migdb \<times> jetstream" where
  "startProcessor parseFloat env lib s =
     (let cfg = Config_Load parseFloat env ''processor'' '':8082''; (d, j) = s in
      case pl_pool lib of Some e \<Rightarrow> (Exited (PostgresConnect e), s) | None \<Rightarrow>
      (case Migrations_Run (pl_exec lib) (pl_dirs lib (migrationsDir env)) d of
         (Some e, d1) \<Rightarrow> (Exited (MigrationsFailed e), d1, j)
       | (None, d1) \<Rightarrow>
      (case pl_nats lib of Some e \<Rightarrow> (Exited (NatsConnect e), d1, j) | None \<Rightarrow>
      (case pl_jetstream lib of Some e \<Rightarrow> (Exited (JetStreamInit e), d1, j) | None \<Rightarrow>
      (case persistence_attach j of (Some e, j1) \<Rightarrow> (Exited (ConsumerFailed e), d1, j1) | (None, j1) \<Rightarrow>
      (case processor_ensureStreams j1 of (Some e, j2) \<Rightarrow> (Exited (StreamsFailed e), d1, j2) | (None, j2) \<Rightarrow>
      (case NewWatcher (pl_yaml lib) (pl_files lib (cfg_RulesFile cfg)) of Inl e \<Rightarrow> (Exited (RulesFailed e), d1, j2) | Inr rulesW \<Rightarrow>
       if cfg_RulesReloadInterval cfg \<le> 0 then (Crashed, d1, j2)
       else
      (let registry = NewRegistry (cfg_WindowMaxCount cfg) (cfg_WindowMaxAge cfg) (cfg_WindowEWMAAlpha cfg);
           wc = newWindowedConsumer registry rulesW (cfg_RegistryTTL cfg) (cfg_RegistrySweep cfg) in
       case windowing_attach j2 of (Some e, j3) \<Rightarrow> (Exited (ConsumerFailed e), d1, j3) | (None, j3) \<Rightarrow>
       if wc_sweepInterval wc \<le> 0 then (Crashed, d1, j3)
       else (Up \<lparr>pv_consumer = newConsumer, pv_windowed = wc\<rparr>, d1, j3)))))))))"

section \<open>Ingest\<close>

record ingest_lib =
  il_nats :: "io_error option"
  il_jetstream :: "io_error option"
  il_tls :: tls_lib
  il_mqtt :: token_result

definition rateLimitPerSecond :: real where "rateLimitPerSecond = 100"
definition rateLimitBurst :: int where "rateLimitBurst = 200"

definition ingest_connectMQTT :: "Config \<Rightarrow> (string \<Rightarrow> io_error option) \<Rightarrow> token_result \<Rightarrow> connect_error option" where
  "ingest_connectMQTT cfg fromCAFile tok = dial fromCAFile (cfg_TLSCAFile cfg) tok"

definition startIngest :: "(string \<Rightarrow> real option) \<Rightarrow> environ \<Rightarrow> ingest_lib \<Rightarrow> jetstream \<Rightarrow> 'l perDeviceLimiter outcome \<times> jetstream" where
  "startIngest parseFloat env lib j =
     (let cfg = Config_Load parseFloat env ''ingest'' '':8081'' in
      case il_nats lib of Some e \<Rightarrow> (Exited (NatsConnect e), j) | None \<Rightarrow>
      (case il_jetstream lib of Some e \<Rightarrow> (Exited (JetStreamInit e), j) | None \<Rightarrow>
      (case ingest_ensureStreams j of (Some e, j1) \<Rightarrow> (Exited (StreamsFailed e), j1) | (None, j1) \<Rightarrow>
      (case ingest_connectMQTT cfg (FromCAFile (il_tls lib)) (il_mqtt lib) of Some e \<Rightarrow> (Exited (MqttConnect e), j1) | None \<Rightarrow>
       (Up (newPerDeviceLimiter rateLimitPerSecond rateLimitBurst), j1)))))"

section \<open>Host agent\<close>

record 'srv agent_lib =
  al_home :: "string option"
  al_rpc :: "string \<Rightarrow> string \<Rightarrow> 'srv claim_rpc"
  al_tls :: tls_lib
  al_mqtt :: token_result

definition defaultStateFile :: "string option \<Rightarrow> string" where
  "defaultStateFile home = (case home of Some h \<Rightarrow> h | None \<Rightarrow> ''.'') @ ''/.sensegrid/hostagent-device.json''"

definition runAgent :: "(string \<Rightarrow> real option) \<Rightarrow> environ \<Rightarrow> 'srv agent_lib \<Rightarrow> (config_error \<Rightarrow> string) \<Rightarrow> time \<Rightarrow> 'e agent_event list \<Rightarrow> time \<Rightarrow> 'srv pworld
    \<Rightarrow> (Credentials \<times> agent) outcome \<times> 'srv pworld" where
  "runAgent parseFloat env lib etext t0 evs t1 w =
     (let caFile = caFileOrDefault (Config_Load parseFloat env ''hostagent'' '':8084'');
          stateFile = getEnvStr env ''HOSTAGENT_STATE_FILE'' (defaultStateFile (al_home lib));
          controlURL = getEnvStr env ''CONTROL_URL'' ''https://localhost:8090'';
          claimToken = Getenv env ''HOSTAGENT_CLAIM_TOKEN'' in
      case LoadOrClaim (al_rpc lib controlURL caFile) stateFile claimToken w of
        (Inl e, w1) \<Rightarrow> (Exited (ProvisioningFailed e), w1)
      | (Inr creds, w1) \<Rightarrow>
          (let sampleInterval = getEnvDuration env ''HOSTAGENT_SAMPLE_INTERVAL'' (5 * second);
               cfg = defaultAppliedConfig (Milliseconds sampleInterval) in
           case dial (FromCAFile (al_tls lib)) caFile (al_mqtt lib) of
             Some e \<Rightarrow> (Exited (MqttConnect e), w1)
           | None \<Rightarrow>
               (case agent_session etext (cd_DeviceID creds) cfg t0 evs t1 of
                  None \<Rightarrow> (Crashed, w1)
                | Some a \<Rightarrow> (Up (creds, a), w1))))"

section \<open>Fleet\<close>

record 'srv fleet_lib =
  fl_tls :: tls_lib
  fl_files :: "string \<Rightarrow> file_content"
  fl_env :: "Config \<Rightarrow> fleetConfig \<Rightarrow> 'srv fleetEnv"
  fl_sched :: "nat list \<Rightarrow> nat list"

definition runtimeConfigFromFleetConfig :: "fleetConfig \<Rightarrow> runtimeConfig" where
  "runtimeConfigFromFleetConfig cfg =
     \<lparr>rt_MalformedRate = flc_MalformedRate cfg, rt_LatencyJitterMS = flc_LatencyJitterMS cfg,
      rt_ClockSkewJitterMS = flc_ClockSkewJitterMS cfg, rt_DisconnectRate = flc_DisconnectRate cfg,
      rt_StepRate = flc_StepRate cfg, rt_AnomalyRate = flc_AnomalyRate cfg\<rparr>"

definition startFleet :: "(string \<Rightarrow> real option) \<Rightarrow> environ \<Rightarrow> 'srv fleet_lib \<Rightarrow> 'srv pworld \<Rightarrow> 'srv FleetManager outcome" where
  "startFleet parseFloat env lib host =
     (let cfg = Config_Load parseFloat env ''fleet'' '':8083''; fleetCfg = loadFleetConfig parseFloat env in
      case FromCAFile (fl_tls lib) (caFileOrDefault cfg) of
        Some e \<Rightarrow> Exited (CAUnusable e)
      | None \<Rightarrow>
          (case loadTokenPool (flc_TokensFile fleetCfg) (fl_files lib (flc_TokensFile fleetCfg)) of
             None \<Rightarrow> Exited TokensUnreadable
           | Some tokens \<Rightarrow>
               (let manager = NewFleetManager tokens (runtimeConfigFromFleetConfig fleetCfg) host in
                Up (if flc_InitialTarget fleetCfg > 0 then Scale (fl_sched lib) (fl_env lib cfg fleetCfg) (flc_InitialTarget fleetCfg) manager
                    else manager))))"

section \<open>The process\<close>

text \<open>What \<^verbatim>\<open>main\<close> does with the result of \<^verbatim>\<open>httpserver.Run\<close> once a service is up; a panic ends a Go process with code 2.\<close>

definition service_exit :: "'a outcome \<Rightarrow> io_error option \<Rightarrow> nat" where
  "service_exit out r = (case out of Exited _ \<Rightarrow> 1 | Crashed \<Rightarrow> 2 | Up _ \<Rightarrow> (case r of None \<Rightarrow> 0 | Some _ \<Rightarrow> 1))"

text \<open>The \<^verbatim>\<open>main\<close> of control: its command lines, given as whether they succeed, or the server.\<close>

datatype control_exit = ExitCode nat | RunServer

definition control_main :: "(string list \<Rightarrow> bool) \<Rightarrow> (string list \<Rightarrow> bool) \<Rightarrow> (string list \<Rightarrow> bool) \<Rightarrow> string list \<Rightarrow> control_exit" where
  "control_main tokenCLI jwtCLI userCLI args =
     (if length args > 1 \<and> args ! 1 = ''token'' then ExitCode (if tokenCLI (drop 2 args) then 0 else 1)
      else if length args > 1 \<and> args ! 1 = ''jwt'' then ExitCode (if jwtCLI (drop 2 args) then 0 else 1)
      else if length args > 1 \<and> args ! 1 = ''user'' then ExitCode (if userCLI (drop 2 args) then 0 else 1)
      else RunServer)"

definition webroot :: "environ \<Rightarrow> string" where
  "webroot env = (let root = Getenv env ''WEBROOT'' in if root = [] then ''web/sensor-client'' else root)"

section \<open>Lemmas\<close>

lemma control_cfg:
  "cfg_JWTSigningKey (Config_Load parseFloat env nm addr) = getEnv env ''JWT_SIGNING_KEY'' []"
  "cfg_RolloutTickInterval (Config_Load parseFloat env nm addr) = getDuration env ''ROLLOUT_TICK_INTERVAL'' (10 * second)"
  "cfg_TLSCAFile (Config_Load parseFloat env nm addr) = getEnv env ''TLS_CA_FILE'' []"
  by (simp_all add: Config_Load_def)

text \<open>What control has been through when it is up.\<close>

lemma runServer_Up:
  assumes "runServer parseFloat env lib s = (Up sv, s')"
  shows "let cfg = Config_Load parseFloat env ''control'' '':8080''; up = (connectControlMQTT cfg (FromCAFile (cl_tls lib)) (cl_mqtt lib) = None);
      cenv = serviceEnv cfg up (cl_env lib) in
    cfg_JWTSigningKey cfg \<noteq> [] \<and> 0 < cfg_RolloutTickInterval cfg \<and>
    Migrations_Run (cl_exec lib) (cl_dirs lib (migrationsDir env)) (st_mig s) = (None, st_mig s') \<and> cv_env sv = cenv \<and>
    connectDynsec (dynsecSettings cfg) (cl_ids lib) (cl_cancelled lib) (cl_broker lib)
      (dynsec_Connect (FromCAFile (cl_tls lib)) (cfg_TLSCAFile cfg) (cl_net lib)) (st_broker s) = (cv_dynsec sv, st_broker s') \<and>
    rollout_EnsureStream (st_js s) = (None, st_js s') \<and>
    (\<exists>err. ResumeAll (ce_deps cenv) (NewEngine (cfg_RolloutDisconnectStaleAfter cfg)) (st_world s) =
      (err, cs_engine (cv_state sv), cs_world (cv_state sv))) \<and> cs_world (cv_state sv) = st_world s'"
  using assms unfolding runServer_def Let_def
  by (auto split: option.splits prod.splits if_splits)

lemma startProcessor_Up:
  assumes "startProcessor parseFloat env lib (d, j) = (Up pv, d', j')"
  shows "let cfg = Config_Load parseFloat env ''processor'' '':8082'' in
    \<exists>rulesW. Migrations_Run (pl_exec lib) (pl_dirs lib (migrationsDir env)) d = (None, d') \<and>
      NewWatcher (pl_yaml lib) (pl_files lib (cfg_RulesFile cfg)) = Inr rulesW \<and> 0 < cfg_RulesReloadInterval cfg \<and> 0 < cfg_RegistrySweep cfg \<and>
      (\<exists>j1 j2. persistence_attach j = (None, j1) \<and> processor_ensureStreams j1 = (None, j2) \<and> windowing_attach j2 = (None, j')) \<and>
      pv = \<lparr>pv_consumer = newConsumer, pv_windowed = newWindowedConsumer
        (NewRegistry (cfg_WindowMaxCount cfg) (cfg_WindowMaxAge cfg) (cfg_WindowEWMAAlpha cfg)) rulesW (cfg_RegistryTTL cfg) (cfg_RegistrySweep cfg)\<rparr>"
  using assms unfolding startProcessor_def Let_def
  by (auto simp: newWindowedConsumer_def split: option.splits prod.splits if_splits sum.splits)

lemma startIngest_Up:
  "startIngest parseFloat env lib j = (Up l, j') \<Longrightarrow> ingest_ensureStreams j = (None, j') \<and>
     ingest_connectMQTT (Config_Load parseFloat env ''ingest'' '':8081'') (FromCAFile (il_tls lib)) (il_mqtt lib) = None"
  unfolding startIngest_def Let_def by (auto split: option.splits prod.splits)

section \<open>Properties\<close>

text \<open>A control plane that comes up: only the signing key is set and every library answers.\<close>

definition keyOnly :: environ where
  "keyOnly = [''JWT_SIGNING_KEY'' \<mapsto> ''key'']"

definition anyCA :: tls_lib where
  "anyCA = \<lparr>tl_ReadFile = (\<lambda>_. Inr []), tl_AppendCerts = (\<lambda>_. True)\<rparr>"

lemma anyCA [simp]: "FromCAFile anyCA f = None"
  by (simp add: FromCAFile_def anyCA_def)

definition calmLib :: "(string list, memkv, unit) control_lib" where
  "calmLib = \<lparr>cl_exporter = None, cl_resource = None, cl_pool = None, cl_exec = (\<lambda>_ s. Inr s), cl_dirs = (\<lambda>_. []), cl_ids = (\<lambda>_ _. []), cl_cancelled = (\<lambda>_. False),
     cl_broker = (\<lambda>_ b. (silent, b)), cl_net = (\<lambda>b. (TokenDone, TokenDone, b)), cl_nats = None, cl_jetstream = None, cl_bucket = None,
     cl_tls = anyCA, cl_mqtt = TokenDone, cl_env = sampleEnv\<rparr>"

definition emptyJs :: jetstream where
  "emptyJs = \<lparr>js_faults = [], js_streams = [], js_consumers = []\<rparr>"

definition storeOf :: "memkv world \<Rightarrow> (string list, memkv, unit) control_store" where
  "storeOf w = \<lparr>st_mig = emptyMigdb [], st_broker = (), st_js = emptyJs, st_world = w\<rparr>"

lemma calm_migrations: "Migrations_Run (\<lambda>_ s. Inr s) [] (emptyMigdb []) = (None, emptyMigdb [])"
  by (simp add: Migrations_Run_def ensureMigrationsTable_def appliedVersions_def mg_call_def mg_next_def emptyMigdb_def migrationFiles_def
      sql_create_versions_def sql_select_versions_def)

lemma calm_up_on:
  assumes "js_calm j"
  shows "\<exists>sv s'. runServer (\<lambda>_. None) keyOnly calmLib ((storeOf w)\<lparr>st_js := j\<rparr>) = (Up sv, s')"
proof -
  have key: "getEnv keyOnly ''JWT_SIGNING_KEY'' [] = ''key''" and unset: "k \<noteq> ''JWT_SIGNING_KEY'' \<Longrightarrow> getEnv keyOnly k f = f" for k f
    by (simp_all add: keyOnly_def getEnv_def)
  have tick: "getDuration keyOnly ''ROLLOUT_TICK_INTERVAL'' d = d" for d by (simp add: keyOnly_def getDuration_def)
  have dyn: "connectDynsec (dynsecSettings (Config_Load (\<lambda>_. None) keyOnly ''control'' '':8080'')) ids cancelled broker connect b = (None, b)" for ids cancelled broker connect b
    by (simp add: connectDynsec_def dynsecSettings_def Config_Load_def unset)
  obtain j' where "rollout_EnsureStream j = (None, j')" using declareStreams_calm [OF assms] unfolding rollout_EnsureStream_def by blast
  then show ?thesis
    by (simp add: runServer_def Let_def calmLib_def storeOf_def calm_migrations dyn control_cfg key tick tracing_Init_def split: prod.splits)
qed

lemma calm_up: "\<exists>sv s'. runServer (\<lambda>_. None) keyOnly calmLib (storeOf w) = (Up sv, s')"
  using calm_up_on [of emptyJs w] by (simp add: js_calm_def emptyJs_def storeOf_def)

text \<open>C7: control serves only when it is safe to. Whatever the environment holds and the libraries answer, when it is up the key that signs
  its tokens is not empty and is the one of the settings, the migrations ran without an error, the rollout engine has a positive
  interval, a claim can be granted only if the broker's administrator is configured, and configurations are sent to devices only
  under an identity of its own.
\<close>

theorem control_serves_safely:
  assumes "runServer parseFloat env lib s = (Up sv, s')"
  shows "getEnv env ''JWT_SIGNING_KEY'' [] \<noteq> [] \<and> ce_signingKey (cv_env sv) = getEnv env ''JWT_SIGNING_KEY'' [] \<and>
    Migrations_Run (cl_exec lib) (cl_dirs lib (migrationsDir env)) (st_mig s) = (None, st_mig s') \<and>
    0 < getDuration env ''ROLLOUT_TICK_INTERVAL'' (10 * second) \<and>
    (cv_dynsec sv \<noteq> None \<longrightarrow> getEnv env ''MQTT_ADMIN_USERNAME'' [] \<noteq> [] \<and> getEnv env ''MQTT_ADMIN_PASSWORD'' [] \<noteq> []) \<and>
    (ce_mqttUp (cv_env sv) \<longrightarrow> getEnv env ''MQTT_CONTROL_PASSWORD'' [] \<noteq> []) \<and> cs_world (cv_state sv) = st_world s'"
  using runServer_Up [OF assms]
  by (auto simp: Let_def control_cfg serviceEnv_def connectControlMQTT_def connectDynsec_def dynsecSettings_def Config_Load_def split: if_splits)

theorem control_serves_safely_witness:
  "\<exists>sv s'. runServer (\<lambda>_. None) keyOnly calmLib (storeOf sampleWorld) = (Up sv, s') \<and> ce_signingKey (cv_env sv) = ''key'' \<and> cv_dynsec sv = None"
proof -
  obtain sv s' where up: "runServer (\<lambda>_. None) keyOnly calmLib (storeOf sampleWorld) = (Up sv, s')" using calm_up by blast
  from control_serves_safely [OF up] up show ?thesis by (auto simp: keyOnly_def getEnv_def)
qed

text \<open>C8: what was rolling out goes on after a restart. If the database answers and its rows decode, control comes up with exactly the
  rollouts active that are stored as running or paused, as they are stored.
\<close>

theorem restart_resumes_rollouts:
  assumes "runServer parseFloat env lib s = (Up sv, s')" and "pg_faults (w_pg (st_world s)) = []"
    and "distinct (map rr_id (pg_rollouts (w_pg (st_world s))))" and "\<forall>row \<in> set (pg_rollouts (w_pg (st_world s))). \<exists>r. scanRollout row = Inr r"
  shows "cs_world (cv_state sv) = st_world s \<and> (\<forall>k r. map_of (en_active (cs_engine (cv_state sv))) k = Some r \<longleftrightarrow>
    (\<exists>row \<in> set (pg_rollouts (w_pg (st_world s))). rr_id row = k \<and> rr_state row \<in> {Running, Paused} \<and> scanRollout row = Inr r))"
proof -
  obtain err stale where "ResumeAll (ce_deps (cv_env sv)) (NewEngine stale) (st_world s) = (err, cs_engine (cv_state sv), cs_world (cv_state sv))"
    using runServer_Up [OF assms(1)] by (auto simp: Let_def)
  with ResumeAll_exact [OF assms(2-4), of "ce_kv (cv_env sv)" "ce_reason (cv_env sv)" "ce_mqttUp (cv_env sv)" stale] show ?thesis by auto
qed

theorem restart_resumes_rollouts_witness:
  "\<exists>sv s' row r. runServer (\<lambda>_. None) keyOnly calmLib (storeOf restartWorld) = (Up sv, s') \<and> pg_rollouts (w_pg restartWorld) = [row] \<and>
     map_of (en_active (cs_engine (cv_state sv))) ''u'' = Some r \<and> ro_State r = Running"
proof -
  obtain sv s' where up: "runServer (\<lambda>_. None) keyOnly calmLib (storeOf restartWorld) = (Up sv, s')" using calm_up by blast
  obtain row r where row: "pg_faults (w_pg restartWorld) = []" "pg_rollouts (w_pg restartWorld) = [row]" "rr_id row = ''u''"
    "rr_state row = Running" "scanRollout row = Inr r" "ro_State r = Running" by (rule restartWorld_row)
  have "w_pg (st_world (storeOf restartWorld)) = w_pg restartWorld" by (simp add: storeOf_def)
  with restart_resumes_rollouts [OF up] row have "map_of (en_active (cs_engine (cv_state sv))) ''u'' = Some r" by simp
  with up row show ?thesis by blast
qed

text \<open>A failed listing at the start strands them. If the unfinished rollouts cannot be read when control starts, it logs the error and
  comes up all the same: no rollout is active, no tick does anything, and an operator who wants to abort or pause one is told that
  it is not running, until control is restarted.
\<close>

theorem failed_resume_strands_rollouts:
  assumes "runServer parseFloat env lib s = (Up sv, s')" and "fst (on_pg ListNonTerminal (st_world s)) = Inl e"
  shows "en_active (cs_engine (cv_state sv)) = [] \<and> tickAll (ce_deps (cv_env sv)) (cs_engine (cv_state sv)) w = Some (cs_engine (cv_state sv), w) \<and>
    fst (Engine_Abort (ce_deps (cv_env sv)) i (cs_engine (cv_state sv)) w) = Inl (NotActive i) \<and>
    fst (Engine_Pause (ce_deps (cv_env sv)) i (cs_engine (cv_state sv)) w) = Inl (NotRunning i)"
proof -
  obtain err stale where r: "ResumeAll (ce_deps (cv_env sv)) (NewEngine stale) (st_world s) = (err, cs_engine (cv_state sv), cs_world (cv_state sv))"
    using runServer_Up [OF assms(1)] by (auto simp: Let_def)
  have "cs_engine (cv_state sv) = NewEngine stale"
    using r assms(2) by (auto simp: ResumeAll_def prodDeps_def pg_res_def split: prod.splits sum.splits)
  then show ?thesis by (simp add: NewEngine_def tickAll_def Engine_Abort_def Engine_Pause_def)
qed

theorem failed_resume_strands_rollouts_witness:
  "\<exists>sv s'. runServer (\<lambda>_. None) keyOnly calmLib (storeOf (restartWorld\<lparr>w_pg := (w_pg restartWorld)\<lparr>pg_faults := [Some (Lost ''down'')]\<rparr>\<rparr>)) = (Up sv, s') \<and>
     pg_rollouts (w_pg restartWorld) \<noteq> [] \<and> fst (Engine_Abort (ce_deps (cv_env sv)) ''u'' (cs_engine (cv_state sv)) (cs_world (cv_state sv))) = Inl (NotActive ''u'')"
proof -
  let ?w = "restartWorld\<lparr>w_pg := (w_pg restartWorld)\<lparr>pg_faults := [Some (Lost ''down'')]\<rparr>\<rparr>"
  obtain sv s' where up: "runServer (\<lambda>_. None) keyOnly calmLib (storeOf ?w) = (Up sv, s')" using calm_up by blast
  have "\<exists>e. fst (on_pg ListNonTerminal (st_world (storeOf ?w))) = Inl e"
    by (simp add: storeOf_def on_pg_def ListNonTerminal_def rollouts_query_def pg_run_def Let_def)
  then obtain e where l: "fst (on_pg ListNonTerminal (st_world (storeOf ?w))) = Inl e" ..
  obtain row where "pg_rollouts (w_pg restartWorld) = [row]" by (rule restartWorld_row)
  with failed_resume_strands_rollouts [OF up l] up show ?thesis by auto
qed

text \<open>
  An interval of 0 brings a service down. \<^verbatim>\<open>internal/config\<close> takes \<^verbatim>\<open>0\<close> for a duration as it is, and the tickers of control
  and of the processor panic on it: with such a setting neither ever comes up.
\<close>

theorem zero_interval_never_up:
  "(env ''ROLLOUT_TICK_INTERVAL'' = Some ''0'' \<longrightarrow> (\<nexists>sv s'. runServer parseFloat env lib s = (Up sv, s'))) \<and>
   (env ''RULES_RELOAD_INTERVAL'' = Some ''0'' \<or> env ''WINDOW_REGISTRY_SWEEP_INTERVAL'' = Some ''0'' \<longrightarrow>
     (\<nexists>pv d' j'. startProcessor parseFloat env plib (d, j) = (Up pv, d', j')))"
proof -
  have zero: "getDuration env key fallback = 0" if "env key = Some ''0''" for key fallback
  proof -
    have "Atoi ''0'' = (0, None)" using Atoi_decimal [of 0] decimal_zero [of 0] by simp
    then show ?thesis using that by (simp add: getDuration_def scaled_def int64_wrap_def)
  qed
  show ?thesis
  proof (intro conjI impI notI; elim exE)
    fix sv s'
    assume e: "env ''ROLLOUT_TICK_INTERVAL'' = Some ''0''" and "runServer parseFloat env lib s = (Up sv, s')"
    from runServer_Up [OF this(2)] show False by (simp add: Let_def control_cfg zero [OF e])
  next
    fix pv d' j'
    assume e: "env ''RULES_RELOAD_INTERVAL'' = Some ''0'' \<or> env ''WINDOW_REGISTRY_SWEEP_INTERVAL'' = Some ''0''"
      and "startProcessor parseFloat env plib (d, j) = (Up pv, d', j')"
    from startProcessor_Up [OF this(2)] e show False by (auto simp: Let_def Config_Load_def zero)
  qed
qed

text \<open>
  The processor starts with sound parts. When it is up its schema is migrated, its rules are ones that \<^verbatim>\<open>Load\<close> accepts, both
  consumers are empty, its windows have the bounds of the settings and its sweep a positive interval.
\<close>

theorem processor_starts_sound:
  assumes "startProcessor parseFloat env lib (d, j) = (Up pv, d', j')"
  shows "Migrations_Run (pl_exec lib) (pl_dirs lib (migrationsDir env)) d = (None, d') \<and> pv_consumer pv = newConsumer \<and>
    list_all (\<lambda>r. ru_Name r \<noteq> [] \<and> ru_SensorType r \<noteq> []) (cfg_Rules (wa_current (wc_rulesW (pv_windowed pv)))) \<and>
    rg_entries (wc_registry (pv_windowed pv)) = [] \<and> rg_maxCount (wc_registry (pv_windowed pv)) = getInt env ''WINDOW_MAX_COUNT'' 100 \<and>
    rg_maxAge (wc_registry (pv_windowed pv)) = getDuration env ''WINDOW_MAX_AGE'' (30 * second) \<and> 0 < wc_sweepInterval (pv_windowed pv)"
  using startProcessor_Up [OF assms] Rules_Load_ok
  by (auto simp: Let_def newWindowedConsumer_def NewRegistry_def NewWatcher_def rules_ok_def Config_Load_def split: sum.splits)

text \<open>
  A host agent with an interval under a millisecond panics. \<^verbatim>\<open>HOSTAGENT_SAMPLE_INTERVAL=500us\<close> becomes an interval of 0
  milliseconds, which nothing refuses: once it is provisioned and connected the agent crashes, whatever happens.
\<close>

theorem submillisecond_agent_crashes:
  assumes "env ''HOSTAGENT_SAMPLE_INTERVAL'' = Some ''500us''"
  shows "fst (runAgent parseFloat env lib etext t0 evs t1 w) \<noteq> Up x"
proof -
  have "durationTerm ''500us'' = Some (500000, [])" by (simp add: durationTerm_def unitChar_def digitVal_def unitMap_def)
  then have "ParseDuration ''500us'' = Some 500000" by (simp add: ParseDuration_def takeSign_def durationTerms.simps)
  then have "getEnvDuration env ''HOSTAGENT_SAMPLE_INTERVAL'' fallback = 500000" for fallback
    using assms by (simp add: getEnvDuration_def Getenv_def)
  moreover have "agent_session etext dev (defaultAppliedConfig (Milliseconds 500000)) t0 evs t1 = None" for dev
    by (simp add: agent_session_def startLoop_def ticker_every_def scaled_def int64_wrap_def defaultAppliedConfig_def Milliseconds_def)
  ultimately show ?thesis by (auto simp: runAgent_def Let_def split: prod.splits sum.splits option.splits)
qed

text \<open>
  Ingest does not run out of the box. Without \<^verbatim>\<open>TLS_CA_FILE\<close> it opens the empty path, where control and the host agent fall back
  to the repository's CA, and exits.
\<close>

theorem ingest_needs_ca:
  assumes "env ''TLS_CA_FILE'' = None" and "tl_ReadFile (il_tls lib) [] = Inl e"
  shows "startIngest parseFloat env lib j \<noteq> (Up l, j')"
proof
  assume "startIngest parseFloat env lib j = (Up l, j')"
  from startIngest_Up [OF this] have "dial (FromCAFile (il_tls lib)) (getEnv env ''TLS_CA_FILE'' []) (il_mqtt lib) = None"
    by (simp add: ingest_connectMQTT_def control_cfg)
  with assms show False by (simp add: dial_def FromCAFile_def getEnv_def)
qed

lemma all_stream_names:
  "sc_Name ` set ingestStreams = {''TELEMETRY'', ''DLQ''}" "sc_Name ` set processorStreams = {''METRICS'', ''ALERTS''}"
  "sc_Name ` set rolloutStreams = {''ROLLOUTS''}"
  by (simp_all add: stream_decls stream_names)

lemma redeclared:
  assumes "nm ` I = A" and "nm ` P = B" and "nm ` R = C" and "A \<inter> B = {}" and "A \<inter> C = {}" and "B \<inter> C = {}" and "nm ` S \<subseteq> A \<union> B \<union> C"
  shows "R \<union> {x \<in> P \<union> {x \<in> I \<union> {x \<in> S. nm x \<notin> A}. nm x \<notin> B}. nm x \<notin> C} = I \<union> P \<union> R"
  using assms by (auto simp: image_subset_iff)

text \<open>C9: the services together route every message. When ingest, the processor and control have come up one after the other, on a
  JetStream that holds at most streams of earlier starts, the streams are those the program declares, and a
  message that any of them publishes, whatever device or rollout it is about, is taken by exactly one of them.
\<close>

theorem services_route_messages:
  assumes "nats_subjects matches" and "sc_Name ` set (js_streams j0) \<subseteq> sc_Name ` set allStreams"
    and ingest: "startIngest pf env1 il j0 = (Up l, j1)" and processor: "startProcessor pf env2 pl (d, j1) = (Up pv, d', j2)"
    and control: "runServer pf env3 cl s = (Up sv, s')" "st_js s = j2" and "plain_token i"
    and subj: "subj \<in> {JetStreamSubject i, DLQSubject, MetricsSubject i, AlertsSubject i, RolloutEventsSubject i}"
  shows "set (js_streams (st_js s')) = set allStreams \<and> (\<exists>!c. c \<in> set (js_streams (st_js s')) \<and> captures matches subj c)"
proof -
  obtain j3 j4 where p: "persistence_attach j1 = (None, j3)" "processor_ensureStreams j3 = (None, j4)" "windowing_attach j4 = (None, j2)"
    using startProcessor_Up [OF processor] by (auto simp: Let_def)
  have r: "rollout_EnsureStream j2 = (None, st_js s')" using runServer_Up [OF control(1)] control(2) by (simp add: Let_def)
  have same: "js_streams j2 = js_streams j4" "js_streams j3 = js_streams j1"
    using p attachConsumer_streams by (auto simp: windowing_attach_def persistence_attach_def)
  note i = startIngest_Up [OF ingest, THEN conjunct1]
  note declared = declareStreams_ok [OF i [unfolded ingest_ensureStreams_def] stream_names_distinct(1)]
    declareStreams_ok [OF p(2) [unfolded processor_ensureStreams_def] stream_names_distinct(2)]
    declareStreams_ok [OF r [unfolded rollout_EnsureStream_def] stream_names_distinct(3)]
  have "sc_Name ` set (js_streams j0) \<subseteq> {''TELEMETRY'', ''DLQ''} \<union> {''METRICS'', ''ALERTS''} \<union> {''ROLLOUTS''}"
    using assms(2) by (simp add: allStreams_def image_Un all_stream_names)
  then have all: "set (js_streams (st_js s')) = set allStreams"
    using redeclared [OF all_stream_names] unfolding declared same by (simp add: all_stream_names allStreams_def Un_assoc)
  have "\<exists>n. streamsOf matches allStreams subj = [n]" using subjects_routed [OF assms(1,7)] subj by auto
  with all streamsOf_single [of matches allStreams subj] show ?thesis by auto
qed

text \<open>Libraries that answer.\<close>

definition calmIngest :: ingest_lib where
  "calmIngest = \<lparr>il_nats = None, il_jetstream = None, il_tls = anyCA, il_mqtt = TokenDone\<rparr>"

definition calmProcessor :: "(string list, unit) processor_lib" where
  "calmProcessor = \<lparr>pl_pool = None, pl_exec = (\<lambda>_ s. Inr s), pl_dirs = (\<lambda>_. []), pl_nats = None, pl_jetstream = None,
     pl_yaml = (\<lambda>_. Inr []), pl_files = (\<lambda>_. Inr ())\<rparr>"

theorem services_route_messages_witness:
  "\<exists>(l :: unit perDeviceLimiter) j1 pv d' j2 sv s'. startIngest (\<lambda>_. None) Map.empty calmIngest emptyJs = (Up l, j1) \<and>
     startProcessor (\<lambda>_. None) Map.empty calmProcessor (emptyMigdb [], j1) = (Up pv, d', j2) \<and>
     runServer (\<lambda>_. None) keyOnly calmLib ((storeOf sampleWorld)\<lparr>st_js := j2\<rparr>) = (Up sv, s') \<and> set (js_streams (st_js s')) = set allStreams"
proof -
  have "js_calm emptyJs" by (simp add: js_calm_def emptyJs_def)
  then obtain j1 where e1: "ingest_ensureStreams emptyJs = (None, j1)" and c1: "js_calm j1"
    using declareStreams_calm unfolding ingest_ensureStreams_def by blast
  have t1: "TelemetryStreamName \<in> sc_Name ` set (js_streams j1)"
    using declareStreams_ok [OF e1 [unfolded ingest_ensureStreams_def] stream_names_distinct(1)] by (auto simp: ingestStreams_def)
  obtain j2 where e2: "persistence_attach j1 = (None, j2)" and c2: "js_calm j2"
    using attachConsumer_calm [OF c1 t1] unfolding persistence_attach_def by blast
  obtain j3 where e3: "processor_ensureStreams j2 = (None, j3)" and c3: "js_calm j3"
    using declareStreams_calm [OF c2] unfolding processor_ensureStreams_def by blast
  have "js_streams j2 = js_streams j1" using e2 attachConsumer_streams by (simp add: persistence_attach_def)
  then have t3: "TelemetryStreamName \<in> sc_Name ` set (js_streams j3)"
    using declareStreams_ok [OF e3 [unfolded processor_ensureStreams_def] stream_names_distinct(2)] t1
    by (auto simp: processorStreams_def stream_names)
  obtain j4 where e4: "windowing_attach j3 = (None, j4)" and c4: "js_calm j4"
    using attachConsumer_calm [OF c3 t3] unfolding windowing_attach_def by blast
  obtain l :: "unit perDeviceLimiter" where i: "startIngest (\<lambda>_. None) Map.empty calmIngest emptyJs = (Up l, j1)"
    by (simp add: startIngest_def calmIngest_def e1 ingest_connectMQTT_def dial_def awaited_def)
  obtain pv where p: "startProcessor (\<lambda>_. None) Map.empty calmProcessor (emptyMigdb [], j1) = (Up pv, emptyMigdb [], j4)"
    by (simp add: startProcessor_def calmProcessor_def calm_migrations e2 e3 e4 NewWatcher_def Rules_Load_def newWindowedConsumer_def Config_Load_def getDuration_def)
  obtain sv s' where c: "runServer (\<lambda>_. None) keyOnly calmLib ((storeOf sampleWorld)\<lparr>st_js := j4\<rparr>) = (Up sv, s')"
    using calm_up_on [OF c4] by blast
  have "plain_token ''d1''" by (simp add: plain_token_def)
  moreover have "sc_Name ` set (js_streams emptyJs) \<subseteq> sc_Name ` set allStreams" "st_js ((storeOf sampleWorld)\<lparr>st_js := j4\<rparr>) = j4"
    by (simp_all add: emptyJs_def)
  ultimately have "set (js_streams (st_js s')) = set allStreams"
    using services_route_messages [OF nats.nats_subjects_axioms _ i p c, of "''d1''" DLQSubject] by blast
  with i p c show ?thesis by blast
qed

text \<open>
  The processor needs ingest to have come up before it: without the telemetry stream its consumers find nothing to attach to and it
  exits, whatever else is in order.
\<close>

theorem processor_needs_ingest:
  assumes "TelemetryStreamName \<notin> sc_Name ` set (js_streams j)"
  shows "fst (startProcessor pf env lib (d, j)) \<noteq> Up pv"
proof
  assume "fst (startProcessor pf env lib (d, j)) = Up pv"
  then obtain d' j' where "startProcessor pf env lib (d, j) = (Up pv, d', j')" by (metis prod.collapse)
  from startProcessor_Up [OF this] show False
    using attachConsumer_None assms by (auto simp: Let_def persistence_attach_def)
qed

text \<open>
  A service that ends with code 0 was up and was asked to stop. Whatever happened to its parts and to its HTTP server, any other end has
  another code.
\<close>

theorem exit_zero_after_signal:
  assumes "run_steps n h" and "hr_pc h = Returned r" and "service_exit out r = 0"
  shows "(\<exists>x. out = Up x) \<and> hr_ctxDone h"
  using run_steps_inv [OF assms(1)] assms(2,3)
  by (auto simp: run_inv_def service_exit_def split: outcome.splits option.splits)

end
