(* ===== verification/MqttClient.thy ===== *)
theory MqttClient
  imports Bootstrap Config Ingest Shadow AgentConfig "HOL-Library.Multiset"
begin

text \<open>
  The MQTT clients of the services: the options they are built with (\<^verbatim>\<open>connectMQTT\<close> of \<^verbatim>\<open>cmd/ingest\<close> and
  \<^verbatim>\<open>cmd/hostagent\<close>, \<^verbatim>\<open>connectControlMQTT\<close> of \<^verbatim>\<open>cmd/control\<close>, \<^verbatim>\<open>Connect\<close> of \<^verbatim>\<open>internal/dynsec\<close>,
  \<^verbatim>\<open>connect\<close> of \<^verbatim>\<open>cmd/fleet\<close>), and what a client does over the life of its connection: subscribe whenever it comes up,
  handle what it is sent, acknowledge.

  \<^verbatim>\<open>mqtt.NewClientOptions\<close> is the parameter \<open>new\<close>, of which \<open>paho_defaults\<close> states what its documentation says. The
  broker's session of a client is the parameter \<open>ops\<close>; its laws, those of MQTT 3.1.1 for clean and for persistent sessions,
  are the locale \<open>mqtt_session\<close>. The CA, and waiting for the first connection, are in the theory \<open>Startup\<close>.
\<close>

section \<open>Options\<close>

record clientOptions =
  co_Broker :: string
  co_ClientID :: string
  co_Username :: string
  co_Password :: string
  co_CleanSession :: bool
  co_AutoAckDisabled :: bool
  co_Order :: bool
  co_AutoReconnect :: bool
  co_ConnectRetry :: bool
  co_ConnectTimeout :: duration
  co_ConnectRetryInterval :: duration
  co_MaxReconnectInterval :: duration

definition paho_defaults :: "clientOptions \<Rightarrow> bool" where
  "paho_defaults new \<longleftrightarrow> co_CleanSession new \<and> \<not> co_AutoAckDisabled new \<and> co_Order new \<and> co_AutoReconnect new \<and> \<not> co_ConnectRetry new"

definition ingest_options :: "clientOptions \<Rightarrow> Config \<Rightarrow> clientOptions" where
  "ingest_options new cfg = new\<lparr>
     co_Broker := cfg_MQTTBrokerURL cfg, co_ClientID := cfg_MQTTBridgeUser cfg, co_Username := cfg_MQTTBridgeUser cfg,
     co_Password := cfg_MQTTBridgePass cfg, co_AutoAckDisabled := True, co_Order := False, co_ConnectTimeout := 10 * second,
     co_ConnectRetry := True, co_ConnectRetryInterval := 2 * second, co_AutoReconnect := True,
     co_MaxReconnectInterval := 30 * second\<rparr>"

definition control_options :: "clientOptions \<Rightarrow> Config \<Rightarrow> clientOptions" where
  "control_options new cfg = new\<lparr>
     co_Broker := cfg_MQTTBrokerURL cfg, co_ClientID := ''control-plane'', co_Username := cfg_MQTTControlUser cfg,
     co_Password := cfg_MQTTControlPass cfg, co_ConnectTimeout := 10 * second, co_AutoReconnect := True,
     co_ConnectRetryInterval := 2 * second, co_MaxReconnectInterval := 30 * second\<rparr>"

text \<open>\<^verbatim>\<open>timeout\<close> is ten seconds where the configuration leaves it at zero, as \<^verbatim>\<open>cmd/control\<close> does.\<close>

definition dynsec_options :: "clientOptions \<Rightarrow> string \<Rightarrow> string \<Rightarrow> string \<Rightarrow> duration \<Rightarrow> clientOptions" where
  "dynsec_options new brokerURL user pass timeout = new\<lparr>
     co_Broker := brokerURL, co_ClientID := ''sensegrid-control-dynsec-admin'', co_Username := user, co_Password := pass,
     co_ConnectTimeout := (if timeout = 0 then 10 * second else timeout), co_AutoReconnect := True\<rparr>"

definition agent_options :: "clientOptions \<Rightarrow> Config \<Rightarrow> Credentials \<Rightarrow> clientOptions" where
  "agent_options new cfg creds = new\<lparr>
     co_Broker := cfg_MQTTBrokerURL cfg, co_ClientID := cd_DeviceID creds, co_Username := cd_MQTTUsername creds,
     co_Password := cd_MQTTPassword creds, co_ConnectTimeout := 10 * second, co_AutoReconnect := True,
     co_ConnectRetryInterval := 2 * second, co_MaxReconnectInterval := 30 * second\<rparr>"

definition fleet_options :: "clientOptions \<Rightarrow> string \<Rightarrow> Credentials \<Rightarrow> clientOptions" where
  "fleet_options new brokerURL creds = new\<lparr>
     co_Broker := brokerURL, co_ClientID := cd_DeviceID creds, co_Username := cd_MQTTUsername creds,
     co_Password := cd_MQTTPassword creds, co_ConnectTimeout := 10 * second, co_AutoReconnect := False\<rparr>"

text \<open>The filters the clients subscribe to.\<close>

definition telemetryFilter :: string where "telemetryFilter = ''sensegrid/v1/+/telemetry''"
definition stateFilter :: string where "stateFilter = ''sensegrid/v1/+/state''"

section \<open>Sessions\<close>

text \<open>The broker's side of one client: connecting with a clean session or not answers with the messages sent again, a
  message published by anyone says whether this client is sent it.\<close>

record 'b mqttops =
  mo_connect :: "bool \<Rightarrow> 'b \<Rightarrow> mqtt_in list \<times> 'b"
  mo_disconnect :: "'b \<Rightarrow> 'b"
  mo_subscribe :: "string \<Rightarrow> 'b \<Rightarrow> 'b"
  mo_publish :: "mqtt_in \<Rightarrow> 'b \<Rightarrow> bool \<times> 'b"
  mo_ack :: "mqtt_in \<Rightarrow> 'b \<Rightarrow> 'b"

section \<open>The life of a connection\<close>

text \<open>The events: the connection is up (the argument says whether the subscription that follows fails), it is lost, someone
  publishes a message, or a call of the handler that was started and is waiting to run does so. \<open>h\<close> is the handler of
  the messages, which says whether it acknowledged; \<open>hello\<close> is what the client does after it has subscribed.

  With \<open>co_Order\<close> the library calls the handler itself, message by message; without it every message gets a goroutine, and
  the scheduler says which of those runs when (\<open>Runs n\<close>: the \<open>n\<close>-th of the waiting ones), also after the connection the
  message came on is lost. A call is one step: calls that overlap are taken in some order. Of the link we keep the broker's
  session, the client's state, the messages whose calls wait, and the calls made, each with the handler's answer.\<close>

datatype link_event = LinkUp bool | LinkDown | Published mqtt_in | Runs nat

type_synonym ('b, 's) link = "'b \<times> 's \<times> mqtt_in list \<times> (mqtt_in \<times> bool) list"

definition call :: "'b mqttops \<Rightarrow> clientOptions \<Rightarrow> (mqtt_in \<Rightarrow> 's \<Rightarrow> bool \<times> 's) \<Rightarrow> mqtt_in \<Rightarrow> ('b, 's) link \<Rightarrow> ('b, 's) link" where
  "call ops opts h m l =
     (let (b, s, waiting, calls) = l; (acked, s') = h m s in
      (if acked \<or> \<not> co_AutoAckDisabled opts then mo_ack ops m b else b, s', waiting, calls @ [(m, acked)]))"

definition receive :: "'b mqttops \<Rightarrow> clientOptions \<Rightarrow> (mqtt_in \<Rightarrow> 's \<Rightarrow> bool \<times> 's) \<Rightarrow> mqtt_in \<Rightarrow> ('b, 's) link \<Rightarrow> ('b, 's) link" where
  "receive ops opts h m l =
     (if co_Order opts then call ops opts h m l else (let (b, s, waiting, calls) = l in (b, s, waiting @ [m], calls)))"

fun link_step :: "'b mqttops \<Rightarrow> clientOptions \<Rightarrow> string \<Rightarrow> ('s \<Rightarrow> 's) \<Rightarrow> (mqtt_in \<Rightarrow> 's \<Rightarrow> bool \<times> 's) \<Rightarrow> link_event \<Rightarrow> ('b, 's) link \<Rightarrow> ('b, 's) link" where
  "link_step ops opts f hello h (LinkUp failed) (b, s, waiting, calls) =
     (let (ms, b1) = mo_connect ops (co_CleanSession opts) b;
          (b2, s2, waiting2, calls2) = fold (receive ops opts h) ms (b1, s, waiting, calls) in
      if failed then (b2, s2, waiting2, calls2) else (mo_subscribe ops f b2, hello s2, waiting2, calls2))"
| "link_step ops opts f hello h LinkDown (b, s, waiting, calls) = (mo_disconnect ops b, s, waiting, calls)"
| "link_step ops opts f hello h (Published m) (b, s, waiting, calls) =
     (let (sent, b1) = mo_publish ops m b in
      if sent then receive ops opts h m (b1, s, waiting, calls) else (b1, s, waiting, calls))"
| "link_step ops opts f hello h (Runs n) (b, s, waiting, calls) =
     (if n < length waiting then call ops opts h (waiting ! n) (b, s, take n waiting @ drop (Suc n) waiting, calls)
      else (b, s, waiting, calls))"

definition link_run :: "'b mqttops \<Rightarrow> clientOptions \<Rightarrow> string \<Rightarrow> ('s \<Rightarrow> 's) \<Rightarrow> (mqtt_in \<Rightarrow> 's \<Rightarrow> bool \<times> 's) \<Rightarrow> link_event list \<Rightarrow> ('b, 's) link \<Rightarrow> ('b, 's) link" where
  "link_run ops opts f hello h evs l = fold (link_step ops opts f hello h) evs l"

text \<open>The clients: their filters, greetings and handlers. Control's reconciler and the agents leave acknowledging to the library.\<close>

definition ingest_link :: "'b mqttops \<Rightarrow> clientOptions \<Rightarrow> Config \<Rightarrow> texts \<Rightarrow> (string \<Rightarrow> bool) \<Rightarrow> 'l limops \<Rightarrow> link_event list
    \<Rightarrow> ('b, 'l perDeviceLimiter \<times> 'kv world) link \<Rightarrow> ('b, 'l perDeviceLimiter \<times> 'kv world) link" where
  "ingest_link ops new cfg tx uuid_ok rl =
     link_run ops (ingest_options new cfg) telemetryFilter id (\<lambda>m (l, w). handle tx uuid_ok rl m l w)"

definition control_link :: "'b mqttops \<Rightarrow> clientOptions \<Rightarrow> Config \<Rightarrow> 'kv kvops \<Rightarrow> link_event list \<Rightarrow> ('b, 'kv world) link \<Rightarrow> ('b, 'kv world) link" where
  "control_link ops new cfg kv =
     link_run ops (control_options new cfg) stateFilter id (\<lambda>m w. (True, Reconciler_onMessage kv (mi_topic m) (mi_json m) w))"

text \<open>An agent's state here is its applied configuration with what it offers its loop, the reports it has published, and the
  clock with the number of times it was read.\<close>

record agentIO =
  ai_cfg :: "appliedConfig \<times> int option"
  ai_reports :: "(string \<times> mqtt_msg) list"
  ai_clock :: "nat \<Rightarrow> time"
  ai_ticks :: nat

definition agent_hello :: "string \<Rightarrow> agentIO \<Rightarrow> agentIO" where
  "agent_hello deviceID s =
     s\<lparr>ai_reports := ai_reports s @ [publishReportedValue deviceID (ai_clock s (ai_ticks s)) (toReported (fst (ai_cfg s)))],
       ai_ticks := Suc (ai_ticks s)\<rparr>"

definition agent_receive :: "(config_error \<Rightarrow> string) \<Rightarrow> string \<Rightarrow> mqtt_in \<Rightarrow> agentIO \<Rightarrow> bool \<times> agentIO" where
  "agent_receive etext deviceID m s =
     (let (cfg, sent) = hostagent_configHandler etext deviceID (ai_clock s (ai_ticks s)) (mi_json m) (ai_cfg s) in
      (True, s\<lparr>ai_cfg := cfg, ai_reports := ai_reports s @ sent, ai_ticks := Suc (ai_ticks s)\<rparr>))"

definition agent_link :: "'b mqttops \<Rightarrow> clientOptions \<Rightarrow> Config \<Rightarrow> Credentials \<Rightarrow> (config_error \<Rightarrow> string) \<Rightarrow> link_event list
    \<Rightarrow> ('b, agentIO) link \<Rightarrow> ('b, agentIO) link" where
  "agent_link ops new cfg creds etext =
     link_run ops (agent_options new cfg creds) (ConfigTopic (cd_DeviceID creds)) (agent_hello (cd_DeviceID creds))
       (agent_receive etext (cd_DeviceID creds))"

section \<open>Lemmas\<close>

text \<open>What a client of one subscription hears: the messages its filter matches that are published while it is subscribed, that
  is from a connection whose subscription succeeded until that connection is lost.\<close>

fun heard :: "(mqtt_in \<Rightarrow> bool) \<Rightarrow> bool \<Rightarrow> link_event list \<Rightarrow> mqtt_in list" where
  "heard P on [] = []"
| "heard P on (LinkUp failed # evs) = heard P (\<not> failed) evs"
| "heard P on (LinkDown # evs) = heard P False evs"
| "heard P on (Runs n # evs) = heard P on evs"
| "heard P on (Published m # evs) = (if on \<and> P m then m # heard P on evs else heard P on evs)"

text \<open>The laws of a session: a clean one starts with nothing, another continues with its subscriptions and sends what was not
  acknowledged again; a message is sent to a client that is connected and has a filter that matches, and is in flight until
  it is acknowledged, which it can be while the client is connected.\<close>

locale mqtt_session =
  fixes ops :: "'b mqttops" and matches :: "string \<Rightarrow> string \<Rightarrow> bool"
    and up :: "'b \<Rightarrow> bool" and subs :: "'b \<Rightarrow> string set" and inflight :: "'b \<Rightarrow> mqtt_in list"
  assumes connect_clean: "mo_connect ops True b = (ms, b') \<Longrightarrow> ms = [] \<and> up b' \<and> subs b' = {} \<and> inflight b' = []"
    and connect_resume: "mo_connect ops False b = (ms, b') \<Longrightarrow> ms = inflight b \<and> up b' \<and> subs b' = subs b \<and> inflight b' = inflight b"
    and disconnect: "\<not> up (mo_disconnect ops b) \<and> subs (mo_disconnect ops b) = subs b \<and> inflight (mo_disconnect ops b) = inflight b"
    and subscribe: "up (mo_subscribe ops f b) = up b \<and> subs (mo_subscribe ops f b) = insert f (subs b) \<and> inflight (mo_subscribe ops f b) = inflight b"
    and publish: "mo_publish ops m b = (sent, b') \<Longrightarrow> up b' = up b \<and> subs b' = subs b \<and>
      (sent \<longleftrightarrow> up b \<and> (\<exists>f \<in> subs b. matches f (mi_topic m))) \<and> (up b \<longrightarrow> inflight b' = inflight b @ (if sent then [m] else []))"
    and ack: "up (mo_ack ops m b) = up b \<and> subs (mo_ack ops m b) = subs b \<and> (up b \<longrightarrow> inflight (mo_ack ops m b) = remove1 m (inflight b))"
begin

text \<open>The client is subscribed, or not.\<close>

definition subscribed :: "string \<Rightarrow> bool \<Rightarrow> 'b \<Rightarrow> bool" where
  "subscribed f on b \<longleftrightarrow> subs b \<subseteq> {f} \<and> on = (up b \<and> f \<in> subs b)"

lemma call_result:
  assumes "call ops opts h m (b, s, waiting, calls) = (b', s', waiting', calls')"
  shows "waiting' = waiting \<and> (\<exists>acked. calls' = calls @ [(m, acked)] \<and> (acked, s') = h m s) \<and> (subscribed f on b \<longrightarrow> subscribed f on b')"
  using assms by (auto simp: call_def Let_def subscribed_def ack split: prod.splits if_splits)

text \<open>A message received becomes a call, made or waiting; a call that runs is one that waited.\<close>

definition delivered :: "mqtt_in list \<Rightarrow> (mqtt_in \<times> bool) list \<Rightarrow> mqtt_in multiset" where
  "delivered waiting calls = mset (map fst calls) + mset waiting"

lemma receive_result:
  assumes "receive ops opts h m (b, s, waiting, calls) = (b', s', waiting', calls')"
  shows "delivered waiting' calls' = delivered waiting calls + {#m#}" and "subscribed f on b \<Longrightarrow> subscribed f on b'"
proof -
  have "delivered waiting' calls' = delivered waiting calls + {#m#} \<and> (subscribed f on b \<longrightarrow> subscribed f on b')"
  proof (cases "co_Order opts")
    case True
    with assms have "call ops opts h m (b, s, waiting, calls) = (b', s', waiting', calls')" by (simp add: receive_def)
    from call_result [OF this, of f on] show ?thesis by (auto simp: delivered_def)
  next
    case False
    with assms show ?thesis by (auto simp: receive_def delivered_def)
  qed
  then show "delivered waiting' calls' = delivered waiting calls + {#m#}" and "subscribed f on b \<Longrightarrow> subscribed f on b'" by simp_all
qed

lemma runs_result:
  assumes "link_step ops opts f hello h (Runs n) (b, s, waiting, calls) = (b', s', waiting', calls')"
  shows "delivered waiting' calls' = delivered waiting calls \<and> (subscribed f on b \<longrightarrow> subscribed f on b')"
proof (cases "n < length waiting")
  case True
  with assms have "call ops opts h (waiting ! n) (b, s, take n waiting @ drop (Suc n) waiting, calls) = (b', s', waiting', calls')" by simp
  note c = call_result [OF this, of f on]
  have "mset waiting = mset (take n waiting @ waiting ! n # drop (Suc n) waiting)" using True by (simp only: id_take_nth_drop [symmetric])
  with c show ?thesis by (auto simp: delivered_def)
qed (use assms in simp)

lemma subscribed_publish:
  assumes "mo_publish ops m b = (sent, b1)" and "subscribed f on b"
  shows "subscribed f on b1 \<and> (sent \<longleftrightarrow> on \<and> matches f (mi_topic m))"
  using publish [OF assms(1)] assms(2) by (auto simp: subscribed_def)

text \<open>With a clean session the calls, made and waiting, are exactly of what the client hears, one for each message.\<close>

lemma link_hears:
  assumes "co_CleanSession opts"
  shows "link_run ops opts f hello h evs (b, s, waiting, calls) = (b', s', waiting', calls') \<Longrightarrow> subscribed f on b \<Longrightarrow>
    delivered waiting' calls' = delivered waiting calls + mset (heard (\<lambda>m. matches f (mi_topic m)) on evs)"
proof (induction evs arbitrary: b s waiting calls on)
  case Nil
  then show ?case by (simp add: link_run_def)
next
  case (Cons ev evs)
  obtain b1 s1 waiting1 calls1 where st: "link_step ops opts f hello h ev (b, s, waiting, calls) = (b1, s1, waiting1, calls1)"
    by (rule prod_cases4)
  with Cons.prems(1) have rest: "link_run ops opts f hello h evs (b1, s1, waiting1, calls1) = (b', s', waiting', calls')"
    by (simp add: link_run_def)
  show ?case
  proof (cases ev)
    case (LinkUp failed)
    obtain ms b2 where c: "mo_connect ops True b = (ms, b2)" by (cases "mo_connect ops True b")
    note clean = connect_clean [OF c]
    have eq: "b1 = (if failed then b2 else mo_subscribe ops f b2) \<and> waiting1 = waiting \<and> calls1 = calls"
      using st c clean assms by (auto simp: LinkUp split: if_splits)
    then have "subscribed f (\<not> failed) b1" using clean by (simp add: subscribed_def subscribe)
    from Cons.IH [OF rest this] eq show ?thesis by (simp add: LinkUp)
  next
    case LinkDown
    have "subscribed f False b1" using st Cons.prems(2) disconnect by (auto simp: subscribed_def LinkDown)
    from Cons.IH [OF rest this] st show ?thesis by (auto simp: LinkDown)
  next
    case (Published m)
    obtain sent b2 where p: "mo_publish ops m b = (sent, b2)" by (cases "mo_publish ops m b")
    note sp = subscribed_publish [OF p Cons.prems(2)]
    show ?thesis
    proof (cases sent)
      case True
      with st p have r: "receive ops opts h m (b2, s, waiting, calls) = (b1, s1, waiting1, calls1)" by (simp add: Published)
      from Cons.IH [OF rest receive_result(2) [OF r conjunct1 [OF sp]]] receive_result(1) [OF r] sp True show ?thesis
        by (simp add: Published)
    next
      case False
      with st p have "b1 = b2 \<and> waiting1 = waiting \<and> calls1 = calls" by (simp add: Published)
      with Cons.IH [OF rest] sp False show ?thesis by (auto simp: Published)
    qed
  next
    case (Runs n)
    from runs_result [OF st [unfolded Runs], of on] Cons.prems(2) Cons.IH [OF rest] show ?thesis by (simp add: Runs)
  qed
qed

text \<open>With a clean session, no message published and no call waiting nothing is handled; one call that waits is made at most once.\<close>

lemma connect_idle:
  assumes "co_CleanSession opts"
  shows "\<exists>b'. link_step ops opts f id h (LinkUp failed) (b, s, waiting, calls) = (b', s, waiting, calls)"
proof -
  obtain ms b1 where c: "mo_connect ops True b = (ms, b1)" by (cases "mo_connect ops True b")
  with connect_clean [OF c] assms show ?thesis by simp
qed

lemma link_quiet:
  assumes "co_CleanSession opts"
  shows "\<forall>m. Published m \<notin> set evs \<Longrightarrow> link_run ops opts f id h evs (b, s, [], calls) = (b', s', waiting', calls') \<Longrightarrow>
    s' = s \<and> waiting' = [] \<and> calls' = calls"
proof (induction evs arbitrary: b)
  case (Cons ev evs)
  from Cons.prems(1) connect_idle [OF assms, of f h _ b s "[]" calls]
  have "\<exists>b1. link_step ops opts f id h ev (b, s, [], calls) = (b1, s, [], calls)" by (cases ev) auto
  then obtain b1 where "link_step ops opts f id h ev (b, s, [], calls) = (b1, s, [], calls)" ..
  with Cons show ?case by (simp add: link_run_def id_def)
qed (simp add: link_run_def)

lemma link_one_waits:
  assumes "co_CleanSession opts" and "h m s = (acked, s1)"
  shows "\<forall>m. Published m \<notin> set evs \<Longrightarrow> link_run ops opts f id h evs (b, s, [m], calls) = (b', s', waiting', calls') \<Longrightarrow>
    (if Runs 0 \<in> set evs then s' = s1 \<and> waiting' = [] \<and> calls' = calls @ [(m, acked)] else s' = s \<and> waiting' = [m] \<and> calls' = calls)"
proof (induction evs arbitrary: b)
  case (Cons ev evs)
  show ?case
  proof (cases "ev = Runs 0")
    case True
    obtain b1 where "call ops opts h m (b, s, [], calls) = (b1, s1, [], calls @ [(m, acked)])" using assms(2) by (simp add: call_def)
    with Cons.prems(2) True have "link_run ops opts f id h evs (b1, s1, [], calls @ [(m, acked)]) = (b', s', waiting', calls')"
      by (simp add: link_run_def id_def)
    from link_quiet [OF assms(1) _ this] Cons.prems(1) True show ?thesis by simp
  next
    case False
    from Cons.prems(1) False connect_idle [OF assms(1), of f h _ b s "[m]" calls]
    have "\<exists>b1. link_step ops opts f id h ev (b, s, [m], calls) = (b1, s, [m], calls)" by (cases ev) auto
    then obtain b1 where "link_step ops opts f id h ev (b, s, [m], calls) = (b1, s, [m], calls)" ..
    with Cons False show ?thesis by (simp add: link_run_def id_def)
  qed
qed (simp add: link_run_def)

text \<open>A persistent session would send again what the handler did not acknowledge.\<close>

lemma persistent_redelivers:
  assumes "\<not> co_CleanSession opts" and "co_AutoAckDisabled opts" and "co_Order opts"
    and "up b" and "f \<in> subs b" and "inflight b = []" and "matches f (mi_topic m)" and "h m s = (False, s1)"
  shows "\<exists>b' s' acked. link_run ops opts f hello h [Published m, LinkDown, LinkUp True] (b, s, [], calls) = (b', s', [], calls @ [(m, False), (m, acked)])"
proof -
  obtain sent b1 where p: "mo_publish ops m b = (sent, b1)" by (cases "mo_publish ops m b")
  with publish [OF p] assms have sent: "sent" "inflight b1 = [m]" by auto
  obtain ms b2 where c: "mo_connect ops False (mo_disconnect ops b1) = (ms, b2)" by (cases "mo_connect ops False (mo_disconnect ops b1)")
  with connect_resume [OF c] disconnect [of b1] sent have "ms = [m]" by simp
  with p c sent assms show ?thesis
    by (auto simp: link_run_def receive_def call_def Let_def split: prod.split)
qed

end

lemma call_inv:
  assumes "P (fst (snd l))" and "\<And>m s. P s \<Longrightarrow> P (snd (h m s))"
  shows "P (fst (snd (call ops opts h m l)))"
  using assms(1) assms(2) [of "fst (snd l)" m] by (cases l) (auto simp: call_def Let_def split: prod.split)

lemma receive_inv:
  assumes "P (fst (snd l))" and "\<And>m s. P s \<Longrightarrow> P (snd (h m s))"
  shows "P (fst (snd (receive ops opts h m l)))"
  using call_inv [where P = P, OF assms] assms(1) by (cases l) (simp add: receive_def)

lemma link_run_inv:
  assumes "P (fst (snd l))" and h: "\<And>m s. P s \<Longrightarrow> P (snd (h m s))" and "\<And>s. P s \<Longrightarrow> P (hello s)"
  shows "P (fst (snd (link_run ops opts f hello h evs l)))"
proof -
  have received: "P (fst (snd (fold (receive ops opts h) ms l)))" if "P (fst (snd l))" for ms l
    using that by (induction ms arbitrary: l) (simp_all add: receive_inv [where P = P, OF _ h])
  have step: "P (fst (snd (link_step ops opts f hello h ev l)))" if "P (fst (snd l))" for ev l
  proof -
    obtain b s waiting calls where l: "l = (b, s, waiting, calls)" by (rule prod_cases4)
    show ?thesis
    proof (cases ev)
      case (LinkUp failed)
      obtain ms b1 where c: "mo_connect ops (co_CleanSession opts) b = (ms, b1)" by fastforce
      obtain b2 s2 waiting2 calls2 where r: "fold (receive ops opts h) ms (b1, s, waiting, calls) = (b2, s2, waiting2, calls2)"
        by (rule prod_cases4)
      have "P s2" using received [of "(b1, s, waiting, calls)" ms] that l r by simp
      with assms(3) show ?thesis by (simp add: LinkUp c r l)
    next
      case (Published m)
      obtain sent b1 where "mo_publish ops m b = (sent, b1)" by fastforce
      with that l receive_inv [where P = P, OF _ h, of "(b1, s, waiting, calls)"] show ?thesis by (simp add: Published)
    next
      case (Runs n)
      with that l call_inv [where P = P, OF _ h, of "(b, s, take n waiting @ drop (Suc n) waiting, calls)"] show ?thesis by simp
    qed (use that l in simp)
  qed
  show ?thesis
    unfolding link_run_def using assms(1) step by (induction evs arbitrary: l) simp_all
qed

text \<open>A session in memory.\<close>

record memSession =
  ms_up :: bool
  ms_subs :: "string list"
  ms_inflight :: "mqtt_in list"

definition memSessionOps :: "memSession mqttops" where
  "memSessionOps = \<lparr>
     mo_connect = (\<lambda>clean b. if clean then ([], \<lparr>ms_up = True, ms_subs = [], ms_inflight = []\<rparr>) else (ms_inflight b, b\<lparr>ms_up := True\<rparr>)),
     mo_disconnect = (\<lambda>b. b\<lparr>ms_up := False\<rparr>),
     mo_subscribe = (\<lambda>f b. b\<lparr>ms_subs := f # ms_subs b\<rparr>),
     mo_publish = (\<lambda>m b. if ms_up b \<and> list_ex (\<lambda>f. mqtt_matches f (mi_topic m)) (ms_subs b)
        then (True, b\<lparr>ms_inflight := ms_inflight b @ [m]\<rparr>) else (False, b)),
     mo_ack = (\<lambda>m b. if ms_up b then b\<lparr>ms_inflight := remove1 m (ms_inflight b)\<rparr> else b)\<rparr>"

interpretation memsession: mqtt_session memSessionOps mqtt_matches ms_up "\<lambda>b. set (ms_subs b)" ms_inflight
  by unfold_locales (auto simp: memSessionOps_def list_ex_iff split: if_splits)

lemma telemetryFilter_matches:
  assumes "topic_filters matches"
  shows "matches telemetryFilter t \<longleftrightarrow> (\<exists>i. CHR ''/'' \<notin> set i \<and> t = TelemetryTopic i)"
    and "matches stateFilter t \<longleftrightarrow> (\<exists>i. CHR ''/'' \<notin> set i \<and> t = StateTopic i)"
proof -
  have pre: "plain_filter ''sensegrid/v1''" and topics: "plain_filter ''telemetry''" "plain_filter ''state''"
    by (simp_all add: plain_filter_def)
  show "matches telemetryFilter t \<longleftrightarrow> (\<exists>i. CHR ''/'' \<notin> set i \<and> t = TelemetryTopic i)"
    "matches stateFilter t \<longleftrightarrow> (\<exists>i. CHR ''/'' \<notin> set i \<and> t = StateTopic i)"
    using topic_filters.level [OF assms pre topics(1), of t] topic_filters.level [OF assms pre topics(2), of t]
    by (simp_all add: telemetryFilter_def stateFilter_def TelemetryTopic_def StateTopic_def)
qed

section \<open>Properties\<close>

text \<open>A client connects as an account: the command that created it names the client's id, user name and password.\<close>

definition connects_as :: "clientOptions \<Rightarrow> (string \<times> json) list \<Rightarrow> bool" where
  "connects_as opts cmd \<longleftrightarrow> map_of cmd ''clientid'' = Some (JString (co_ClientID opts)) \<and>
     map_of cmd ''username'' = Some (JString (co_Username opts)) \<and> map_of cmd ''password'' = Some (JString (co_Password opts))"

text \<open>A device that was given credentials connects as the account its claim created.\<close>

lemma claimed_account:
  assumes "handleClaim uuid_ok rops broker a s = (rep, s')" and "hr_status rep = 200"
    and "unmarshal_Credentials (Some (hr_body rep)) = Inr creds"
  shows "\<exists>tn. CreateClient (ca_correlationID a) (cd_DeviceID creds) (cd_MQTTPassword creds) tn deviceRoleName broker (ct_dynsec s) (ct_broker s) =
      (None, ct_dynsec s', ct_broker s') \<and> cd_MQTTUsername creds = cd_DeviceID creds"
  using assms(3) by (rule_tac handleClaim_ok [OF assms(1,2)]) (auto simp: claimResponse_decodes)



text \<open>C21: ingest hears a message at most once. Over any sequence of connections, losses, messages and turns of the goroutines, the calls
  of its handler, those made and those still waiting for their turn, are exactly of the telemetry published while it is subscribed,
  one for each message, in whatever order they ran: a connection on which the subscription failed hears nothing, and, as its sessions
  are clean, a message it left unacknowledged does not come again.\<close>

theorem ingest_hears_once:
  assumes "mqtt_session ops matches up subs inflight" and "topic_filters matches" and "paho_defaults new"
    and "\<not> up b" and "subs b \<subseteq> {telemetryFilter}"
    and "ingest_link ops new cfg tx uuid_ok rl evs (b, s, [], []) = (b', s', waiting, calls)"
  shows "mset (map fst calls) + mset waiting = mset (heard (\<lambda>m. \<exists>i. CHR ''/'' \<notin> set i \<and> mi_topic m = TelemetryTopic i) False evs)"
proof -
  have clean: "co_CleanSession (ingest_options new cfg)" using assms(3) by (simp add: paho_defaults_def ingest_options_def)
  have "mqtt_session.subscribed up subs telemetryFilter False b"
    using assms(4,5) mqtt_session.subscribed_def [OF assms(1)] by auto
  from mqtt_session.link_hears [OF assms(1) clean assms(6) [unfolded ingest_link_def] this]
  show ?thesis by (simp add: telemetryFilter_matches [OF assms(2)] mqtt_session.delivered_def [OF assms(1)])
qed

definition pahoNew :: clientOptions where
  "pahoNew = \<lparr>co_Broker = [], co_ClientID = [], co_Username = [], co_Password = [], co_CleanSession = True,
     co_AutoAckDisabled = False, co_Order = True, co_AutoReconnect = True, co_ConnectRetry = False,
     co_ConnectTimeout = 30 * second, co_ConnectRetryInterval = 30 * second, co_MaxReconnectInterval = 600 * second\<rparr>"

definition offSession :: memSession where
  "offSession = \<lparr>ms_up = False, ms_subs = [], ms_inflight = []\<rparr>"

lemma sampleMsg_topic: "mi_topic sampleMsg = TelemetryTopic ''d1''"
  by (simp add: sampleMsg_def TelemetryTopic_def)

lemma pahoNew_defaults: "paho_defaults pahoNew"
  by (simp add: paho_defaults_def pahoNew_def)

text \<open>Two messages are heard; their goroutines run the second one first.\<close>

definition otherMsg :: mqtt_in where
  "otherMsg = sampleMsg\<lparr>mi_topic := TelemetryTopic ''d2''\<rparr>"

theorem ingest_hears_once_witness:
  "mset (map fst (snd (snd (snd (ingest_link memSessionOps pahoNew undefined plainTexts (\<lambda>_. True) tokenLimiter
      [Published sampleMsg, LinkUp False, Published sampleMsg, Published otherMsg, LinkDown, Runs 1, LinkUp True, Published sampleMsg, Runs 0]
      (offSession, (newPerDeviceLimiter 10 1, ingestWorld []), [], [])))))) = {#sampleMsg, otherMsg#}"
proof -
  let ?evs = "[Published sampleMsg, LinkUp False, Published sampleMsg, Published otherMsg, LinkDown, Runs 1, LinkUp True, Published sampleMsg, Runs 0]"
  let ?run = "ingest_link memSessionOps pahoNew undefined plainTexts (\<lambda>_. True) tokenLimiter ?evs
    (offSession, (newPerDeviceLimiter 10 1, ingestWorld []), [], [])"
  have "CHR ''/'' \<notin> set ''d1''" "CHR ''/'' \<notin> set ''d2''" by simp_all
  moreover have "mi_topic otherMsg = TelemetryTopic ''d2''" by (simp add: otherMsg_def)
  ultimately have topic: "\<exists>i. CHR ''/'' \<notin> set i \<and> mi_topic sampleMsg = TelemetryTopic i" "\<exists>i. CHR ''/'' \<notin> set i \<and> mi_topic otherMsg = TelemetryTopic i"
    using sampleMsg_topic by blast+
  have matched: "mqtt_matches telemetryFilter (mi_topic sampleMsg)" "mqtt_matches telemetryFilter (mi_topic otherMsg)"
    using topic telemetryFilter_matches(1) [OF mqtt.topic_filters_axioms] by blast+
  obtain b' s' waiting calls where run: "?run = (b', s', waiting, calls)" by (rule prod_cases4)
  then have "waiting = []"
    using matched
    by (auto simp: ingest_link_def link_run_def receive_def call_def memSessionOps_def offSession_def ingest_options_def pahoNew_def Let_def
        split: prod.splits)
  moreover have "\<not> ms_up offSession" "set (ms_subs offSession) \<subseteq> {telemetryFilter}" by (simp_all add: offSession_def)
  from ingest_hears_once [OF memsession.mqtt_session_axioms mqtt.topic_filters_axioms pahoNew_defaults this run] topic
  have "mset (map fst calls) + mset waiting = {#sampleMsg, otherMsg#}" by simp
  ultimately show ?thesis using run by simp
qed

text \<open>C20: a publish that fails loses the reading. If JetStream does not take an accepted message, the handler, whenever its turn
  comes, leaves it unacknowledged (unless it sheds it); but however the connection is lost and restored after that, the handler is
  not called with it again and the stream never gets it.\<close>

theorem failed_publish_loses_reading:
  assumes session: "mqtt_session ops matches up subs inflight" and "topic_filters matches" and new: "paho_defaults new"
    and msg: "accepted uuid_ok msg = Some r" and fault: "bus_faults (w_js w) = Some (Lost e) # fs"
    and later: "\<forall>m. Published m \<notin> set later"
    and run: "ingest_link ops new cfg tx uuid_ok rl (LinkUp False # Published msg # later) (b, (l, w), [], []) = (b', (l', w'), waiting, calls)"
  shows "(if Runs 0 \<in> set later
      then waiting = [] \<and> calls = [(msg, \<not> fst (Limiter_Allow rl (rDeviceID r) (fst (time_Now (snd (time_Now w)))) l))]
      else waiting = [msg] \<and> calls = []) \<and>
    bus_sent (w_js w') = bus_sent (w_js w)"
proof -
  let ?opts = "ingest_options new cfg" and ?h = "\<lambda>m (l, w). handle tx uuid_ok rl m l w"
  have clean: "co_CleanSession ?opts" and order: "\<not> co_Order ?opts" using new by (simp_all add: paho_defaults_def ingest_options_def)
  obtain ms b1 where c: "mo_connect ops True b = (ms, b1)" by (cases "mo_connect ops True b")
  note con = mqtt_session.connect_clean [OF session c]
  obtain sent b2 where p: "mo_publish ops msg (mo_subscribe ops telemetryFilter b1) = (sent, b2)" by fastforce
  have "matches telemetryFilter (mi_topic msg)"
    using msg telemetryFilter_matches(1) [OF assms(2)] by (auto simp: accepted_Some)
  with mqtt_session.publish [OF session p] con mqtt_session.subscribe [OF session, of telemetryFilter b1] have sent: "sent" by auto
  obtain acked l1 w1 where h: "handle tx uuid_ok rl msg l w = (acked, l1, w1)" by (rule prod_cases3)
  have kept: "acked = (\<not> fst (Limiter_Allow rl (rDeviceID r) (fst (time_Now (snd (time_Now w)))) l)) \<and> bus_sent (w_js w1) = bus_sent (w_js w)"
    using h fault unfolding handle_accepted [OF msg]
    by (auto simp: world_defs bus_publish_def Let_def split: prod.splits if_splits)
  have "link_run ops ?opts telemetryFilter id ?h later (b2, (l, w), [msg], []) = (b', (l', w'), waiting, calls)"
    using run c con p sent clean order by (simp add: ingest_link_def link_run_def receive_def)
  from mqtt_session.link_one_waits [OF session clean _ later this, of acked "(l1, w1)"] h kept show ?thesis
    by (simp split: if_splits)
qed

theorem failed_publish_loses_reading_witness:
  "\<exists>b l w waiting calls. ingest_link memSessionOps pahoNew undefined plainTexts (\<lambda>_. True) tokenLimiter
      [LinkUp False, Published sampleMsg, Runs 0, LinkDown, LinkUp False]
      (offSession, (newPerDeviceLimiter 10 1, ingestWorld [Some (Lost ''down'')]), [], []) = (b, (l, w), waiting, calls) \<and>
    calls = [(sampleMsg, False)] \<and> bus_sent (w_js w) = []"
proof -
  let ?run = "ingest_link memSessionOps pahoNew undefined plainTexts (\<lambda>_. True) tokenLimiter
      [LinkUp False, Published sampleMsg, Runs 0, LinkDown, LinkUp False]
      (offSession, (newPerDeviceLimiter 10 1, ingestWorld [Some (Lost ''down'')]), [], [])"
  obtain b l w waiting calls where run: "?run = (b, (l, w), waiting, calls)" by (metis prod.exhaust)
  have "bus_faults (w_js (ingestWorld [Some (Lost ''down'')])) = [Some (Lost ''down'')]" by (simp add: ingestWorld_def)
  from failed_publish_loses_reading [OF memsession.mqtt_session_axioms mqtt.topic_filters_axioms pahoNew_defaults sampleMsg_accepted this _ run]
  have "calls = [(sampleMsg, False)] \<and> bus_sent (w_js w) = []"
    by (simp add: Limiter_Allow_def newPerDeviceLimiter_def tokenLimiter_def ingestWorld_def)
  with run show ?thesis by blast
qed

text \<open>What an agent reported last is what it applied. However its connections come and go and whatever messages it is sent, its
  last report, if it made one, is of the configuration in force, or says that it kept that one and rejected another.\<close>

definition reports_current :: "string \<Rightarrow> agentIO \<Rightarrow> bool" where
  "reports_current deviceID s \<longleftrightarrow> ai_reports s = [] \<or>
     (\<exists>t rep. last (ai_reports s) = publishReportedValue deviceID t rep \<and>
        (rep = toReported (fst (ai_cfg s)) \<or> (\<exists>rev reason. rep = toRejectedReported (fst (ai_cfg s)) rev reason)))"

theorem agent_reports_current:
  assumes "ai_reports s = []" and "agent_link ops new cfg creds etext evs (b, s, [], []) = (b', s', waiting, calls)"
  shows "reports_current (cd_DeviceID creds) s'"
proof -
  have "reports_current (cd_DeviceID creds) (fst (snd (agent_link ops new cfg creds etext evs (b, s, [], []))))"
    unfolding agent_link_def
  proof (rule link_run_inv)
    show "reports_current (cd_DeviceID creds) (fst (snd (b, s, [], [])))" using assms(1) by (simp add: reports_current_def)
  next
    fix m s assume "reports_current (cd_DeviceID creds) s"
    then show "reports_current (cd_DeviceID creds) (snd (agent_receive etext (cd_DeviceID creds) m s))"
      by (fastforce simp: agent_receive_def hostagent_configHandler_def configHandlerWith_def reports_current_def Let_def
          split: prod.splits sum.splits option.splits)
  next
    fix s show "reports_current (cd_DeviceID creds) (agent_hello (cd_DeviceID creds) s)"
      by (auto simp: agent_hello_def reports_current_def)
  qed
  with assms(2) show ?thesis by simp
qed

end
