(* ===== verification/ControlService.thy ===== *)
theory ControlService
  imports ControlApi
begin

text \<open>
  The HTTP API of \<^verbatim>\<open>cmd/control\<close> as a whole (\<^verbatim>\<open>runServer\<close> in \<^verbatim>\<open>main.go\<close> registers it): the endpoints behind a role
  (theory \<open>ControlApi\<close>) and the two that are open on purpose, \<^verbatim>\<open>POST /v1/devices/claim\<close> (theory \<open>Claim\<close>) and
  \<^verbatim>\<open>POST /v1/auth/login\<close> (theory \<open>Auth\<close>), on one state: the world of the stores with the engine, the token store, and the
  connection to the broker's security plugin. The other routes touch none of these: \<^verbatim>\<open>/healthz\<close> and the static files keep
  nothing, and \<^verbatim>\<open>/v1/ws\<close> reads the event stream (theory \<open>LiveFeed\<close>).
\<close>

section \<open>Requests\<close>

record ('kv, 'r, 'b) service_state =
  ss_control :: "'kv control"
  ss_redis :: 'r
  ss_dynsec :: dynsecClient
  ss_broker :: 'b

record ('kv, 'r, 'b) service_env =
  sn_api :: "'kv control_env"
  sn_redis :: "'r redisops"
  sn_broker :: "json \<Rightarrow> 'b \<Rightarrow> exchange \<times> 'b"
  sn_uuid_ok :: "string \<Rightarrow> bool"
  sn_bcrypt_ok :: "string \<Rightarrow> string \<Rightarrow> bool"
  sn_consoleTTL :: duration

text \<open>A request to a guarded endpoint comes with the time it is looked at and its \<^verbatim>\<open>Authorization\<close> header.\<close>

datatype http_request =
    Guarded api_call time string
  | ClaimRequest claim_call
  | LoginRequest body time time

fun serve_http :: "('kv, 'r, 'b) service_env \<Rightarrow> http_request \<Rightarrow> ('kv, 'r, 'b) service_state \<Rightarrow> http_reply \<times> ('kv, 'r, 'b) service_state" where
  "serve_http env (Guarded call now header) s =
     (case serve (sn_api env) call now header (ss_control s) of (rep, c) \<Rightarrow> (rep, s\<lparr>ss_control := c\<rparr>))"
| "serve_http env (ClaimRequest a) s =
     (case handleClaim (sn_uuid_ok env) (sn_redis env) (sn_broker env) a
         \<lparr>ct_redis = ss_redis s, ct_pg = w_pg (cs_world (ss_control s)), ct_dynsec = ss_dynsec s, ct_broker = ss_broker s\<rparr> of
        (rep, t) \<Rightarrow> (rep, \<lparr>ss_control = (ss_control s)\<lparr>cs_world := (cs_world (ss_control s))\<lparr>w_pg := ct_pg t\<rparr>\<rparr>,
          ss_redis = ct_redis t, ss_dynsec = ct_dynsec t, ss_broker = ct_broker t\<rparr>))"
| "serve_http env (LoginRequest b t1 t2) s =
     (case on_world (on_pg (login (ce_jwt (sn_api env)) (sn_bcrypt_ok env) (ce_rfc3339 (sn_api env)) (ce_issuer (sn_api env))
         (ce_signingKey (sn_api env)) (sn_consoleTTL env) b t1 t2)) (ss_control s) of
        (rep, c) \<Rightarrow> (rep, s\<lparr>ss_control := c\<rparr>))"

section \<open>Lemmas\<close>

text \<open>What a claim does: nothing, or it asks the store for its token; and only if it gets it does it go on, to register the
  device under the name and type of the token.\<close>

lemma claim_steps:
  assumes "handleClaim uuid_ok ops broker a s = (rep, s')"
  shows "s' = s \<or> (\<exists>req r. unmarshal_claimRequest (ca_body a) = Inr req \<and>
    ConsumeToken ops (cq_Token req) (ca_now a) (ct_redis s) = (r, ct_redis s') \<and>
    (s' = s\<lparr>ct_redis := ct_redis s'\<rparr> \<or>
     (\<exists>rec. r = Inr rec \<and> ct_pg s' = snd (Devices_Create (ca_dbNow a) (cq_DeviceID req) (tk_Name rec) (tk_Type rec) (ct_pg s)))))"
  using assms
  by (auto simp: handleClaim_def split: if_splits sum.splits prod.splits option.splits token_error.splits)

lemma Devices_Create_adds:
  "(snd (Devices_Create t i name typ d))\<lparr>pg_faults := []\<rparr> = d\<lparr>pg_faults := []\<rparr> \<or>
   (\<exists>row. pg_uuid d i = Some (dr_id row) \<and> \<not> device_exists d (dr_id row) \<and> dr_name row = name \<and> dr_type row = typ \<and>
      (snd (Devices_Create t i name typ d))\<lparr>pg_faults := []\<rparr> = d\<lparr>pg_faults := [], pg_devices := pg_devices d @ [row]\<rparr>)"
proof -
  obtain r d' where run: "pg_run (sql_insert_device t i name typ) d = (r, d')" by fastforce
  have "snd (Devices_Create t i name typ d) = d'" using run by (simp add: Devices_Create_def pg_exec_def split: sum.split)
  moreover have "d'\<lparr>pg_faults := []\<rparr> = d\<lparr>pg_faults := []\<rparr> \<or> (\<exists>row. pg_uuid d i = Some (dr_id row) \<and> \<not> device_exists d (dr_id row) \<and>
      dr_name row = name \<and> dr_type row = typ \<and> d'\<lparr>pg_faults := []\<rparr> = d\<lparr>pg_faults := [], pg_devices := pg_devices d @ [row]\<rparr>)"
    using run
  proof (cases rule: pg_run_cases)
    case (ok fs a)
    then show ?thesis
      by (intro disjI2 exI [of _ "last (pg_devices d')"]) (auto simp: sql_insert_device_def uuid_arg_Inr split: if_splits)
  next
    case (lost_reply fs a e)
    then show ?thesis
      by (intro disjI2 exI [of _ "last (pg_devices d')"]) (auto simp: sql_insert_device_def uuid_arg_Inr split: if_splits)
  qed simp
  ultimately show ?thesis by simp
qed

lemma login_reads: "(snd (login jwt bc fmt iss key ttl b t1 t2 d))\<lparr>pg_faults := []\<rparr> = d\<lparr>pg_faults := []\<rparr>"
proof -
  have "(snd (GetByUsername u d))\<lparr>pg_faults := []\<rparr> = d\<lparr>pg_faults := []\<rparr>" for u
    using pg_run_query [of "sql_select_user u" d]
    by (auto simp: GetByUsername_def sql_select_user_def split: prod.splits sum.splits list.splits)
  then have "GetByUsername u d = (x, d') \<Longrightarrow> d'\<lparr>pg_faults := []\<rparr> = d\<lparr>pg_faults := []\<rparr>" for u x d' by (metis snd_conv)
  then show ?thesis by (auto simp: login_def Let_def split: prod.splits sum.splits)
qed

text \<open>The claim's token is in the store, for the device described by \<open>rec\<close>.\<close>

definition token_valid :: "('r \<Rightarrow> time \<Rightarrow> string \<Rightarrow> body option) \<Rightarrow> claim_call \<Rightarrow> 'r \<Rightarrow> TokenRecord \<Rightarrow> bool" where
  "token_valid view a rd rec \<longleftrightarrow>
     (case claim_token a of None \<Rightarrow> False
      | Some tok \<Rightarrow> (case view rd (ca_now a) (tokenKey tok) of None \<Rightarrow> False | Some raw \<Rightarrow> unmarshal_TokenRecord raw = Inr rec))"

definition add_device :: "DeviceRow \<Rightarrow> 'kv control \<Rightarrow> 'kv control" where
  "add_device row c = c\<lparr>cs_world := (cs_world c)\<lparr>w_pg := (w_pg (cs_world c))\<lparr>pg_devices := pg_devices (w_pg (cs_world c)) @ [row]\<rparr>\<rparr>\<rparr>"

lemma kept_set_pg:
  "d\<lparr>pg_faults := []\<rparr> = (w_pg (cs_world c))\<lparr>pg_faults := []\<rparr> \<Longrightarrow> kept content (c\<lparr>cs_world := (cs_world c)\<lparr>w_pg := d\<rparr>\<rparr>) = kept content c"
  by (simp add: kept_def world_data_def)

context redis_store
begin

text \<open>Consuming a token takes at most that token from the store.\<close>

lemma consume_view:
  assumes "ConsumeToken ops token t s = (r, s')" and "t \<le> t'"
  shows "view s' t' = view s t' \<or> view s' t' = (view s t')(tokenKey token := None)"
proof -
  obtain x s1 where g: "rd_GetDel ops (tokenKey token) t s = (x, s1)" by fastforce
  have "s' = s1" using assms(1) g by (auto simp: ConsumeToken_def split: sum.splits redis_error.splits)
  then show ?thesis
    using g getdel_ok [of "tokenKey token" t s _ s1] getdel_nil [of "tokenKey token" t s s1] getdel_err [of "tokenKey token" t s _ s1 t'] assms(2)
    by (cases x; cases "\<exists>e. x = Inl (RedisIO e)") (auto, metis redis_error.exhaust)
qed

lemma consume_valid:
  assumes "unmarshal_claimRequest (ca_body a) = Inr req" and "ConsumeToken ops (cq_Token req) (ca_now a) rd = (Inr rec, rd')"
  shows "token_valid view a rd rec"
proof -
  obtain raw where raw: "rd_GetDel ops (tokenKey (cq_Token req)) (ca_now a) rd = (Inr raw, rd')" "unmarshal_TokenRecord raw = Inr rec"
    using assms(2) by (auto simp: ConsumeToken_def split: prod.splits sum.splits redis_error.splits)
  then show ?thesis using getdel_ok [OF raw(1)] assms(1) by (simp add: token_valid_def claim_token_def)
qed

text \<open>A claim changes the token store, the registry and the plugin's side only so far.\<close>

lemma claim_confined:
  assumes "handleClaim uuid_ok ops broker a s = (rep, s')"
  shows "(ct_redis s' = ct_redis s \<or> (\<exists>tok. claim_token a = Some tok \<and> (\<forall>t \<ge> ca_now a.
        view (ct_redis s') t = view (ct_redis s) t \<or> view (ct_redis s') t = (view (ct_redis s) t)(tokenKey tok := None)))) \<and>
    (s' = s\<lparr>ct_redis := ct_redis s'\<rparr> \<or>
     (\<exists>req rec. unmarshal_claimRequest (ca_body a) = Inr req \<and> token_valid view a (ct_redis s) rec \<and>
       ct_pg s' = snd (Devices_Create (ca_dbNow a) (cq_DeviceID req) (tk_Name rec) (tk_Type rec) (ct_pg s))))"
  using claim_steps [OF assms]
proof
  assume "\<exists>req r. unmarshal_claimRequest (ca_body a) = Inr req \<and>
    ConsumeToken ops (cq_Token req) (ca_now a) (ct_redis s) = (r, ct_redis s') \<and>
    (s' = s\<lparr>ct_redis := ct_redis s'\<rparr> \<or>
     (\<exists>rec. r = Inr rec \<and> ct_pg s' = snd (Devices_Create (ca_dbNow a) (cq_DeviceID req) (tk_Name rec) (tk_Type rec) (ct_pg s))))"
  then obtain req r where req: "unmarshal_claimRequest (ca_body a) = Inr req"
    and c: "ConsumeToken ops (cq_Token req) (ca_now a) (ct_redis s) = (r, ct_redis s')"
    and eff: "s' = s\<lparr>ct_redis := ct_redis s'\<rparr> \<or>
      (\<exists>rec. r = Inr rec \<and> ct_pg s' = snd (Devices_Create (ca_dbNow a) (cq_DeviceID req) (tk_Name rec) (tk_Type rec) (ct_pg s)))" by blast
  have "claim_token a = Some (cq_Token req)" using req by (simp add: claim_token_def)
  with consume_view [OF c] consume_valid [OF req] c eff req show ?thesis by blast
qed simp

end

lemma claim_kept:
  assumes "d = snd (Devices_Create t i name typ (w_pg (cs_world c)))"
  shows "kept content (c\<lparr>cs_world := (cs_world c)\<lparr>w_pg := d\<rparr>\<rparr>) = kept content c \<or>
    (\<exists>row. pg_uuid (w_pg (cs_world c)) i = Some (dr_id row) \<and> \<not> device_exists (w_pg (cs_world c)) (dr_id row) \<and> dr_name row = name \<and>
       dr_type row = typ \<and> kept content (c\<lparr>cs_world := (cs_world c)\<lparr>w_pg := d\<rparr>\<rparr>) = kept content (add_device row c))"
  using Devices_Create_adds [of t i name "typ" "w_pg (cs_world c)"] kept_set_pg [of d c content]
  by (auto simp: assms kept_def world_data_def add_device_def)

section \<open>Properties\<close>

text \<open>C31: who may change what. Whatever request arrives with whatever header, the tables, the shadow bucket, the messages sent
  and the rollout engine stay as they are unless the request carries a valid token of at least an operator, and unless
  it carries an administrator's, nothing changes but the alerts table and events about alerts; with one exception: a claim, which
  needs no login, may add one row to the devices, under an id that was not registered and with the name and type that a
  registration token was issued for, and only if it presents that token and the token is in the store. Without such a token a
  claim does not touch the accounts at the broker either; it removes at most its own token from the token store. A login
  changes nothing.\<close>

theorem role_confines_writes:
  fixes s :: "('kv, 'r, 'b) service_state"
  assumes kv: "kv_bucket (ce_kv (sn_api env)) content" and redis: "redis_store (sn_redis env) view"
    and run: "serve_http env req s = (rep, s')"
  shows "case req of
      Guarded call now header \<Rightarrow>
        (kept content (ss_control s') \<noteq> kept content (ss_control s) \<longrightarrow>
          (\<exists>role. verifyBearer (ce_jwt (sn_api env)) now header (ce_issuer (sn_api env)) (ce_signingKey (sn_api env)) = Inr role \<and>
            roleAllows role roleOperator)) \<and>
        (kept_but_alerts content (ss_control s') \<noteq> kept_but_alerts content (ss_control s) \<longrightarrow>
          (\<exists>role. verifyBearer (ce_jwt (sn_api env)) now header (ce_issuer (sn_api env)) (ce_signingKey (sn_api env)) = Inr role \<and>
            roleAllows role roleAdmin)) \<and>
        ss_redis s' = ss_redis s \<and> ss_dynsec s' = ss_dynsec s \<and> ss_broker s' = ss_broker s
    | LoginRequest b t1 t2 \<Rightarrow>
        kept content (ss_control s') = kept content (ss_control s) \<and>
        ss_redis s' = ss_redis s \<and> ss_dynsec s' = ss_dynsec s \<and> ss_broker s' = ss_broker s
    | ClaimRequest a \<Rightarrow>
        (ss_redis s' = ss_redis s \<or> (\<exists>tok. claim_token a = Some tok \<and> (\<forall>t \<ge> ca_now a.
          view (ss_redis s') t = view (ss_redis s) t \<or> view (ss_redis s') t = (view (ss_redis s) t)(tokenKey tok := None)))) \<and>
        (kept content (ss_control s') = kept content (ss_control s) \<and> ss_dynsec s' = ss_dynsec s \<and> ss_broker s' = ss_broker s \<or>
         (\<exists>req rec. unmarshal_claimRequest (ca_body a) = Inr req \<and> token_valid view a (ss_redis s) rec \<and>
           (kept content (ss_control s') = kept content (ss_control s) \<or>
            (\<exists>row. pg_uuid (w_pg (cs_world (ss_control s))) (cq_DeviceID req) = Some (dr_id row) \<and>
              \<not> device_exists (w_pg (cs_world (ss_control s))) (dr_id row) \<and> dr_name row = tk_Name rec \<and> dr_type row = tk_Type rec \<and>
              kept content (ss_control s') = kept content (add_device row (ss_control s))))))"
proof (cases req)
  case (Guarded call now header)
  obtain rp c where h: "serve (sn_api env) call now header (ss_control s) = (rp, c)" by fastforce
  with run have "s' = s\<lparr>ss_control := c\<rparr>" by (simp add: Guarded)
  with kv_bucket.serve_confined [OF kv refl h] show ?thesis by (simp add: Guarded)
next
  case (LoginRequest b t1 t2)
  obtain rp c where l: "on_world (on_pg (login (ce_jwt (sn_api env)) (sn_bcrypt_ok env) (ce_rfc3339 (sn_api env)) (ce_issuer (sn_api env))
      (ce_signingKey (sn_api env)) (sn_consoleTTL env) b t1 t2)) (ss_control s) = (rp, c)" by fastforce
  with run have "s' = s\<lparr>ss_control := c\<rparr>" by (simp add: LoginRequest)
  with kept_query [OF login_reads l] show ?thesis by (simp add: LoginRequest)
next
  case (ClaimRequest a)
  let ?t = "\<lparr>ct_redis = ss_redis s, ct_pg = w_pg (cs_world (ss_control s)), ct_dynsec = ss_dynsec s, ct_broker = ss_broker s\<rparr>"
  obtain rp t' where h: "handleClaim (sn_uuid_ok env) (sn_redis env) (sn_broker env) a ?t = (rp, t')" by fastforce
  with run have s': "s' = \<lparr>ss_control = (ss_control s)\<lparr>cs_world := (cs_world (ss_control s))\<lparr>w_pg := ct_pg t'\<rparr>\<rparr>,
      ss_redis = ct_redis t', ss_dynsec = ct_dynsec t', ss_broker = ct_broker t'\<rparr>" by (simp add: ClaimRequest)
  have r: "ss_redis s' = ss_redis s \<or> (\<exists>tok. claim_token a = Some tok \<and> (\<forall>t \<ge> ca_now a.
      view (ss_redis s') t = view (ss_redis s) t \<or> view (ss_redis s') t = (view (ss_redis s) t)(tokenKey tok := None)))"
    and e: "t' = ?t\<lparr>ct_redis := ct_redis t'\<rparr> \<or> (\<exists>req rec. unmarshal_claimRequest (ca_body a) = Inr req \<and> token_valid view a (ss_redis s) rec \<and>
      ct_pg t' = snd (Devices_Create (ca_dbNow a) (cq_DeviceID req) (tk_Name rec) (tk_Type rec) (w_pg (cs_world (ss_control s)))))"
    using redis_store.claim_confined [OF redis h] by (simp_all add: s')
  from e show ?thesis
  proof
    assume "t' = ?t\<lparr>ct_redis := ct_redis t'\<rparr>"
    then have "ct_pg t' = w_pg (cs_world (ss_control s))" "ct_dynsec t' = ss_dynsec s" "ct_broker t' = ss_broker s" by (metis claim_stores.simps)+
    with r kept_set_pg [of "ct_pg t'" "ss_control s" content] show ?thesis by (simp add: ClaimRequest s')
  next
    assume "\<exists>req rec. unmarshal_claimRequest (ca_body a) = Inr req \<and> token_valid view a (ss_redis s) rec \<and>
      ct_pg t' = snd (Devices_Create (ca_dbNow a) (cq_DeviceID req) (tk_Name rec) (tk_Type rec) (w_pg (cs_world (ss_control s))))"
    with r claim_kept [where c = "ss_control s" and d = "ct_pg t'"] show ?thesis by (fastforce simp: ClaimRequest s')
  qed
qed

text \<open>A service with an empty registry and one token in its store: an administrator sets a configuration, a device claims.\<close>

definition sampleService :: "(memkv, memredis, memplugin) service_env" where
  "sampleService = \<lparr>sn_api = sampleEnv, sn_redis = memredis_ops, sn_broker = memBroker, sn_uuid_ok = (\<lambda>_. True),
     sn_bcrypt_ok = (\<lambda>_ _. False), sn_consoleTTL = second\<rparr>"

definition serviceOn :: "memkv control \<Rightarrow> (memkv, memredis, memplugin) service_state" where
  "serviceOn c = \<lparr>ss_control = c, ss_redis = ct_redis (claimStores []), ss_dynsec = ct_dynsec (claimStores []),
     ss_broker = ct_broker (claimStores [])\<rparr>"

definition emptyControl :: "memkv control" where
  "emptyControl = sampleControl\<lparr>cs_world := sampleWorld\<lparr>w_pg := emptyPg\<rparr>\<rparr>"

lemma sampleService_parts [simp]: "sn_api sampleService = sampleEnv" "sn_redis sampleService = memredis_ops"
  "sn_broker sampleService = memBroker" "sn_uuid_ok sampleService = (\<lambda>_. True)" "ss_control (serviceOn c) = c"
  by (simp_all add: sampleService_def serviceOn_def)

lemma sampleClaim:
  obtains rep s' where "serve_http sampleService (ClaimRequest (claimAt 1)) (serviceOn emptyControl) = (rep, s')"
    and "pg_devices (w_pg (cs_world (ss_control s'))) \<noteq> []"
proof -
  obtain rep t where h: "handleClaim (\<lambda>_. True) memredis_ops memBroker (claimAt 1) (claimStores []) = (rep, t)" "hr_status rep = 200"
    using claimStores_granted by blast
  have "claimStores [] = \<lparr>ct_redis = ss_redis (serviceOn emptyControl), ct_pg = w_pg (cs_world emptyControl),
      ct_dynsec = ss_dynsec (serviceOn emptyControl), ct_broker = ss_broker (serviceOn emptyControl)\<rparr>"
    by (simp add: claimStores_def serviceOn_def emptyControl_def emptyPg_def)
  moreover have "pg_devices (ct_pg t) \<noteq> []"
  proof (rule handleClaim_ok [OF h])
    fix req rec rd d c b
    assume "Devices_Create (ca_dbNow (claimAt 1)) (cq_DeviceID req) (tk_Name rec) (tk_Type rec) (ct_pg (claimStores [])) = (None, d)"
      and "t = \<lparr>ct_redis = rd, ct_pg = d, ct_dynsec = c, ct_broker = b\<rparr>"
    then show "pg_devices (ct_pg t) \<noteq> []"
      unfolding Devices_Create_def by (auto simp: sql_insert_device_def uuid_arg_Inr elim!: pg_exec_ok split: if_splits)
  qed
  ultimately show thesis using that h(1) by simp
qed

theorem role_confines_writes_witness:
  "(\<exists>tok rep s'. serve_http sampleService (Guarded (DeviceCall (PutDesired ''d1'' sampleBody)) 5 (''Bearer '' @ tok)) (serviceOn sampleControl) = (rep, s') \<and>
     kept_but_alerts mem_content (ss_control s') \<noteq> kept_but_alerts mem_content sampleControl \<and>
     (\<exists>role. verifyBearer memjwt 5 (''Bearer '' @ tok) ''sg'' ''key'' = Inr role \<and> roleAllows role roleAdmin)) \<and>
   (\<exists>rep s' rec row. serve_http sampleService (ClaimRequest (claimAt 1)) (serviceOn emptyControl) = (rep, s') \<and>
     token_valid mr_view (claimAt 1) (ss_redis (serviceOn emptyControl)) rec \<and> dr_name row = tk_Name rec \<and>
     kept mem_content (ss_control s') = kept mem_content (add_device row emptyControl))"
proof
  have kv: "kv_bucket (ce_kv (sn_api sampleService)) mem_content" using calm.kv_bucket_axioms by simp
  have redis: "redis_store (sn_redis sampleService) mr_view" using memredis.redis_store_axioms by simp
  obtain tok where adm: "\<And>call s. serve sampleEnv call 5 (''Bearer '' @ tok) s = api_handler sampleEnv call s" using adminBearer by metis
  obtain rep c where put: "putDesired sampleEnv ''d1'' sampleBody sampleControl = (rep, c)" "hr_status rep = 200" using samplePut by blast
  let ?s' = "(serviceOn sampleControl)\<lparr>ss_control := c\<rparr>"
  have s: "serve_http sampleService (Guarded (DeviceCall (PutDesired ''d1'' sampleBody)) 5 (''Bearer '' @ tok)) (serviceOn sampleControl) = (rep, ?s')"
    using adm put(1) by simp
  obtain d where "shadow_config mem_content (cs_world c) ''d1'' = Some (normD d)" using calm.put_stored [OF _ put] by auto
  moreover have "shadow_config mem_content (cs_world sampleControl) ''d1'' = None"
    by (simp add: shadow_config_def sampleControl_def sampleWorld_def mem_content_def)
  ultimately have "mem_content (w_kv (cs_world c)) \<noteq> mem_content (w_kv (cs_world sampleControl))" by (auto simp: shadow_config_def)
  then have changed: "kept_but_alerts mem_content c \<noteq> kept_but_alerts mem_content sampleControl"
    by (auto simp: kept_but_alerts_def but_alerts_def world_data_def)
  from role_confines_writes [OF kv redis s] changed s
  show "\<exists>tok rep s'. serve_http sampleService (Guarded (DeviceCall (PutDesired ''d1'' sampleBody)) 5 (''Bearer '' @ tok)) (serviceOn sampleControl) = (rep, s') \<and>
     kept_but_alerts mem_content (ss_control s') \<noteq> kept_but_alerts mem_content sampleControl \<and>
     (\<exists>role. verifyBearer memjwt 5 (''Bearer '' @ tok) ''sg'' ''key'' = Inr role \<and> roleAllows role roleAdmin)"
    by (intro exI [of _ tok] exI [of _ rep] exI [of _ ?s']) (simp del: serve_http.simps)
  obtain rep s' where claim: "serve_http sampleService (ClaimRequest (claimAt 1)) (serviceOn emptyControl) = (rep, s')"
    and rows: "pg_devices (w_pg (cs_world (ss_control s'))) \<noteq> []" by (rule sampleClaim)
  have "kept mem_content (ss_control s') \<noteq> kept mem_content emptyControl"
  proof
    assume "kept mem_content (ss_control s') = kept mem_content emptyControl"
    then have "(w_pg (cs_world (ss_control s')))\<lparr>pg_faults := []\<rparr> = emptyPg\<lparr>pg_faults := []\<rparr>" by (simp add: kept_def world_data_def emptyControl_def)
    from arg_cong [OF this, of pg_devices] rows show False by (simp add: emptyPg_def)
  qed
  with role_confines_writes [OF kv redis claim] claim
  show "\<exists>rep s' rec row. serve_http sampleService (ClaimRequest (claimAt 1)) (serviceOn emptyControl) = (rep, s') \<and>
     token_valid mr_view (claimAt 1) (ss_redis (serviceOn emptyControl)) rec \<and> dr_name row = tk_Name rec \<and>
     kept mem_content (ss_control s') = kept mem_content (add_device row emptyControl)"
    by (simp del: serve_http.simps) blast
qed

end
