(* ===== verification/Metrics.thy ===== *)
theory Metrics
  imports Ingest Persistence Windowed FleetManager
begin

text \<open>
  The Prometheus metrics of the services: the collectors each \<^verbatim>\<open>metrics.go\<close> creates and
  registers, the counters and histograms the ingest handler and the telemetry consumer keep (their code once
  more, with the metrics as part of the state), and the gauges of the fleet and of control. Those of the windowed consumer are in
  the theory \<open>WindowedMetrics\<close>.

  \<^verbatim>\<open>prometheus.Registerer\<close> is the parameter \<open>register\<close>; its law is the locale \<open>prom_registry\<close>.
  A counter is a \<^typ>\<open>nat\<close>, a histogram the list of its observations, a gauge the value last set. The help texts
  are left out; the arguments of \<^verbatim>\<open>ExponentialBuckets\<close> stand for the buckets.
\<close>

section \<open>Collectors\<close>

datatype collector =
    Counter string string string
  | Gauge string string string
  | Histogram string string string "real \<times> real \<times> nat"

fun metricName :: "collector \<Rightarrow> string" where
  "metricName (Counter ns sub n) = ns @ ''_'' @ sub @ ''_'' @ n"
| "metricName (Gauge ns sub n) = ns @ ''_'' @ sub @ ''_'' @ n"
| "metricName (Histogram ns sub n b) = ns @ ''_'' @ sub @ ''_'' @ n"

text \<open>\<^verbatim>\<open>MustRegister\<close> panics at the first collector that is refused.\<close>

fun MustRegister :: "(collector \<Rightarrow> 'r \<Rightarrow> 'r option) \<Rightarrow> collector list \<Rightarrow> 'r \<Rightarrow> 'r option" where
  "MustRegister register [] r = Some r"
| "MustRegister register (c # cs) r = (case register c r of None \<Rightarrow> None | Some r' \<Rightarrow> MustRegister register cs r')"

definition ingestCollectors :: "collector list" where
  "ingestCollectors =
     [Counter ''sensegrid'' ''ingest'' ''messages_received_total'',
      Counter ''sensegrid'' ''ingest'' ''messages_published_total'',
      Counter ''sensegrid'' ''ingest'' ''validation_failures_total'',
      Counter ''sensegrid'' ''ingest'' ''publish_errors_total'',
      Counter ''sensegrid'' ''ingest'' ''rate_limited_total'',
      Histogram ''sensegrid'' ''ingest'' ''lag_seconds'' (0.01, 2, 14)]"

definition persistenceCollectors :: "collector list" where
  "persistenceCollectors =
     [Counter ''sensegrid'' ''processor'' ''messages_consumed_total'',
      Counter ''sensegrid'' ''processor'' ''batch_failures_total'',
      Histogram ''sensegrid'' ''processor'' ''batch_size'' (1, 2, 10),
      Histogram ''sensegrid'' ''processor'' ''db_write_duration_seconds'' (0.001, 2, 14),
      Histogram ''sensegrid'' ''processor'' ''db_stage_latency_seconds'' (0.001, 2, 16),
      Histogram ''sensegrid'' ''processor'' ''end_to_end_latency_seconds'' (0.01, 2, 16),
      Gauge ''sensegrid'' ''processor'' ''consumer_lag'']"

definition windowedCollectors :: "collector list" where
  "windowedCollectors =
     [Counter ''sensegrid'' ''processor'' ''windowed_messages_consumed_total'',
      Counter ''sensegrid'' ''processor'' ''metrics_published_total'',
      Counter ''sensegrid'' ''processor'' ''windowed_publish_errors_total'',
      Counter ''sensegrid'' ''processor'' ''detector_evaluations_total'',
      Counter ''sensegrid'' ''processor'' ''alerts_fired_total'',
      Counter ''sensegrid'' ''processor'' ''alerts_resolved_total'',
      Gauge ''sensegrid'' ''processor'' ''window_registry_size'',
      Counter ''sensegrid'' ''processor'' ''window_registry_evictions_total'',
      Gauge ''sensegrid'' ''processor'' ''windowed_consumer_lag'']"

definition controlCollectors :: "collector list" where
  "controlCollectors =
     [Gauge ''sensegrid'' ''control'' ''ws_clients_connected'', Gauge ''sensegrid'' ''control'' ''active_devices'']"

definition fleetCollectors :: "collector list" where
  "fleetCollectors =
     [Gauge ''sensegrid'' ''fleet'' ''devices_target'',
      Gauge ''sensegrid'' ''fleet'' ''devices_running'',
      Gauge ''sensegrid'' ''fleet'' ''devices_connected'',
      Gauge ''sensegrid'' ''fleet'' ''devices_partitioned'',
      Gauge ''sensegrid'' ''fleet'' ''tokens_remaining'',
      Counter ''sensegrid'' ''fleet'' ''readings_published_total'',
      Counter ''sensegrid'' ''fleet'' ''publish_errors_total'',
      Counter ''sensegrid'' ''fleet'' ''malformed_sent_total'',
      Counter ''sensegrid'' ''fleet'' ''anomalies_sent_total'',
      Counter ''sensegrid'' ''fleet'' ''reconnects_total'']"

text \<open>What each process registers, in order.\<close>

definition processCollectors :: "string \<Rightarrow> collector list" where
  "processCollectors svc =
     (if svc = ''ingest'' then ingestCollectors
      else if svc = ''processor'' then persistenceCollectors @ windowedCollectors
      else if svc = ''control'' then controlCollectors
      else if svc = ''fleet'' then fleetCollectors
      else [])"

text \<open>The registry: a collector whose name is new is added, any other is refused.\<close>

locale prom_registry =
  fixes register :: "collector \<Rightarrow> 'r \<Rightarrow> 'r option" and names :: "'r \<Rightarrow> string set"
  assumes register_new: "metricName c \<notin> names r \<Longrightarrow> \<exists>r'. register c r = Some r' \<and> names r' = insert (metricName c) (names r)"
    and register_taken: "metricName c \<in> names r \<Longrightarrow> register c r = None"
begin

lemma MustRegister_ok:
  "distinct (map metricName cs) \<Longrightarrow> set (map metricName cs) \<inter> names r = {} \<Longrightarrow>
   \<exists>r'. MustRegister register cs r = Some r' \<and> names r' = set (map metricName cs) \<union> names r"
proof (induction cs arbitrary: r)
  case (Cons c cs)
  then have "metricName c \<notin> names r" by simp
  from register_new [OF this] obtain r1 where r1: "register c r = Some r1" "names r1 = insert (metricName c) (names r)"
    by blast
  with Cons.prems have "set (map metricName cs) \<inter> names r1 = {}" by auto
  with Cons.IH [of r1] Cons.prems(1) obtain r' where
    "MustRegister register cs r1 = Some r'" "names r' = set (map metricName cs) \<union> names r1" by auto
  with r1 show ?case by simp
qed simp

lemma MustRegister_Some:
  "MustRegister register cs r = Some r' \<Longrightarrow>
     distinct (map metricName cs) \<and> set (map metricName cs) \<inter> names r = {} \<and> names r' = set (map metricName cs) \<union> names r"
proof (induction cs arbitrary: r)
  case (Cons c cs)
  then obtain r1 where r1: "register c r = Some r1" "MustRegister register cs r1 = Some r'" by (auto split: option.splits)
  have new: "metricName c \<notin> names r"
    using r1(1) register_taken [of c r] by auto
  from register_new [OF this] r1(1) have "names r1 = insert (metricName c) (names r)" by auto
  with Cons.IH [OF r1(2)] new show ?case by auto
qed simp

text \<open>A second call with the same collectors panics.\<close>

lemma MustRegister_twice:
  assumes "cs \<noteq> []" and "MustRegister register cs r = Some r'"
  shows "MustRegister register cs r' = None"
proof (cases cs)
  case (Cons c cs')
  with MustRegister_Some [OF assms(2)] have "metricName c \<in> names r'" by simp
  with Cons show ?thesis by (simp add: register_taken)
qed (use assms in simp)

end

text \<open>A registry in memory that keeps the names.\<close>

definition memRegister :: "collector \<Rightarrow> string list \<Rightarrow> string list option" where
  "memRegister c ns = (if metricName c \<in> set ns then None else Some (metricName c # ns))"

interpretation memreg: prom_registry memRegister set
  by unfold_locales (auto simp: memRegister_def)

lemma processCollectors_distinct: "distinct (map metricName (processCollectors svc))"
  by (simp add: processCollectors_def ingestCollectors_def persistenceCollectors_def windowedCollectors_def
      controlCollectors_def fleetCollectors_def)

lemma processCollectors_named: "c \<in> set (processCollectors svc) \<Longrightarrow> \<exists>n. metricName c = ''sensegrid_'' @ n"
  by (auto simp: processCollectors_def ingestCollectors_def persistenceCollectors_def windowedCollectors_def
      controlCollectors_def fleetCollectors_def split: if_splits)

section \<open>The ingest handler's counters\<close>

record ingestMetrics =
  im_messagesReceived :: nat
  im_messagesPublished :: nat
  im_validationFailures :: nat
  im_publishErrors :: nat
  im_rateLimited :: nat
  im_ingestLag :: "real list"

definition newIngestMetrics :: ingestMetrics where
  "newIngestMetrics = \<lparr>im_messagesReceived = 0, im_messagesPublished = 0, im_validationFailures = 0, im_publishErrors = 0,
     im_rateLimited = 0, im_ingestLag = []\<rparr>"

text \<open>\<open>handle\<close> with the metrics: whether the message was acknowledged, the metrics, the limiter and the world.\<close>

definition handle_metered :: "texts \<Rightarrow> (string \<Rightarrow> bool) \<Rightarrow> 'l limops \<Rightarrow> mqtt_in \<Rightarrow> ingestMetrics \<Rightarrow> 'l perDeviceLimiter \<Rightarrow> 'kv world
    \<Rightarrow> bool \<times> ingestMetrics \<times> 'l perDeviceLimiter \<times> 'kv world" where
  "handle_metered tx uuid_ok ops msg m0 l w =
     (let m = m0\<lparr>im_messagesReceived := Suc (im_messagesReceived m0)\<rparr>;
          invalid = m\<lparr>im_validationFailures := Suc (im_validationFailures m)\<rparr>;
          (ingestTime, w1) = time_Now w; dlq = publishDLQ tx (mi_topic msg) (mi_bytes msg) in
      case deviceIDFromTopic (mi_topic msg) of
        (deviceID, False) \<Rightarrow> (True, m, l, dlq ''unrecognized topic'' w1)
      | (deviceID, True) \<Rightarrow>
      (case unmarshal_Reading (mi_json msg) of
         Inl err \<Rightarrow> (True, invalid, l, dlq (''invalid json: '' @ tx_json tx err) w1)
       | Inr reading \<Rightarrow>
      (case Validate uuid_ok reading of
         Some err \<Rightarrow> (True, invalid, l, dlq (''schema validation: '' @ tx_validate tx err) w1)
       | None \<Rightarrow>
      if rDeviceID reading \<noteq> deviceID then (True, invalid, l, dlq ''payload device_id does not match topic'' w1)
      else
        (let (now, w2) = time_Now w1; (allowed, l') = Limiter_Allow ops deviceID now l in
         if \<not> allowed then (True, m\<lparr>im_rateLimited := Suc (im_rateLimited m)\<rparr>, l', w2)
         else
           (let lag = time_sub ingestTime (time_UnixMilli (rDeviceTimeMS reading));
                m1 = m\<lparr>im_ingestLag := im_ingestLag m @ [Seconds lag]\<rparr> in
            case on_js (bus_publish (JetStreamSubject deviceID)
                  (marshal_StampedReading \<lparr>srReading = reading, srIngestTimeMS = UnixMilli ingestTime\<rparr>)) w2 of
              (Some err, w3) \<Rightarrow> (False, m1\<lparr>im_publishErrors := Suc (im_publishErrors m1)\<rparr>, l', w3)
            | (None, w3) \<Rightarrow> (True, m1\<lparr>im_messagesPublished := Suc (im_messagesPublished m1)\<rparr>, l', w3))))))"

text \<open>The messages the client hands to the handler, one after the other, and which of them were acknowledged.\<close>

fun handle_all :: "texts \<Rightarrow> (string \<Rightarrow> bool) \<Rightarrow> 'l limops \<Rightarrow> mqtt_in list \<Rightarrow> ingestMetrics \<Rightarrow> 'l perDeviceLimiter \<Rightarrow> 'kv world
    \<Rightarrow> bool list \<times> ingestMetrics \<times> 'l perDeviceLimiter \<times> 'kv world" where
  "handle_all tx uuid_ok ops [] m l w = ([], m, l, w)"
| "handle_all tx uuid_ok ops (msg # msgs) m l w =
     (case handle_metered tx uuid_ok ops msg m l w of (acked, m1, l1, w1) \<Rightarrow>
        (case handle_all tx uuid_ok ops msgs m1 l1 w1 of (acks, r) \<Rightarrow> (acked # acks, r)))"

text \<open>Counting changes nothing the handler does.\<close>

lemma handle_metered_handle:
  "handle tx uuid_ok ops msg l w = (case handle_metered tx uuid_ok ops msg m l w of (acked, m', r) \<Rightarrow> (acked, r))"
proof -
  obtain t w1 where t: "time_Now w = (t, w1)" by (cases "time_Now w")
  obtain d b where d: "deviceIDFromTopic (mi_topic msg) = (d, b)" by (cases "deviceIDFromTopic (mi_topic msg)")
  obtain n w2 where n: "time_Now w1 = (n, w2)" by (cases "time_Now w1")
  obtain ok l1 where lim: "Limiter_Allow ops d n l = (ok, l1)" by (cases "Limiter_Allow ops d n l")
  note simps = handle_def handle_metered_def Let_def t d n lim
  consider "\<not> b" | err where "b" "unmarshal_Reading (mi_json msg) = Inl err"
    | r err where "b" "unmarshal_Reading (mi_json msg) = Inr r" "Validate uuid_ok r = Some err"
    | r where "b" "unmarshal_Reading (mi_json msg) = Inr r" "Validate uuid_ok r = None" "rDeviceID r \<noteq> d"
    | r where "b" "unmarshal_Reading (mi_json msg) = Inr r" "Validate uuid_ok r = None" "rDeviceID r = d"
    by (metis not_None_eq sum.exhaust)
  then show ?thesis
  proof cases
    case (5 r)
    obtain e w3 where "on_js (bus_publish (JetStreamSubject d)
        (marshal_StampedReading \<lparr>srReading = r, srIngestTimeMS = UnixMilli t\<rparr>)) w2 = (e, w3)" by fastforce
    with 5 show ?thesis by (cases ok; cases e; simp add: simps)
  qed (simp_all add: simps)
qed

text \<open>The readings on the bus, dead letters aside.\<close>

definition readingsSent :: "'kv world \<Rightarrow> nat" where
  "readingsSent w = length (filter (\<lambda>(s, _). s \<noteq> DLQSubject) (bus_sent (w_js w)))"

lemma JetStreamSubject_not_DLQ [simp]: "JetStreamSubject d \<noteq> DLQSubject"
  by (simp add: JetStreamSubject_def DLQSubject_def)

lemma readingsSent_now [simp]: "readingsSent (snd (time_Now w)) = readingsSent w"
  by (simp add: readingsSent_def time_Now_def)

lemma readingsSent_dlq [simp]: "readingsSent (publishDLQ tx t p reason w) = readingsSent w"
  by (auto simp: readingsSent_def publishDLQ_def world_defs Let_def split: prod.splits elim: bus_publish_cases)

lemma readingsSent_publish:
  assumes "on_js (bus_publish (JetStreamSubject d) body) w = (e, w')"
  shows "readingsSent w' \<le> Suc (readingsSent w)" "readingsSent w \<le> readingsSent w'"
    "e = None \<Longrightarrow> readingsSent w' = Suc (readingsSent w)"
proof -
  obtain b where b: "bus_publish (JetStreamSubject d) body (w_js w) = (e, b)" "w' = w\<lparr>w_js := b\<rparr>"
    using assms by (auto simp: on_js_def split: prod.splits)
  from b(1) have "bus_sent b = bus_sent (w_js w) @ [(JetStreamSubject d, body)] \<or> bus_sent b = bus_sent (w_js w)"
    by (elim bus_publish_cases) auto
  then show "readingsSent w' \<le> Suc (readingsSent w)" "readingsSent w \<le> readingsSent w'"
    by (auto simp: readingsSent_def b(2))
  show "e = None \<Longrightarrow> readingsSent w' = Suc (readingsSent w)"
    using b(1) by (auto simp: readingsSent_def b(2) dest!: bus_publish_ok)
qed

text \<open>The books of the handler since \<open>w0\<close>, for the messages seen so far and what was answered.\<close>

definition books :: "'kv world \<Rightarrow> mqtt_in list \<Rightarrow> bool list \<Rightarrow> ingestMetrics \<Rightarrow> 'kv world \<Rightarrow> bool" where
  "books w0 msgs acks m w \<longleftrightarrow>
     im_messagesReceived m = length msgs \<and>
     length msgs = im_messagesPublished m + im_validationFailures m + im_rateLimited m + im_publishErrors m
       + length (filter (\<lambda>msg. \<not> snd (deviceIDFromTopic (mi_topic msg))) msgs) \<and>
     im_publishErrors m = length (filter Not acks) \<and>
     length (im_ingestLag m) = im_messagesPublished m + im_publishErrors m \<and>
     readingsSent w0 + im_messagesPublished m \<le> readingsSent w \<and>
     readingsSent w \<le> readingsSent w0 + im_messagesPublished m + im_publishErrors m"

lemma books_start: "books w [] [] newIngestMetrics w"
  by (simp add: books_def newIngestMetrics_def)

lemma books_step:
  assumes b: "books w0 msgs acks m w" and h: "handle_metered tx uuid_ok ops msg m l w = (acked, m', l', w')"
  shows "books w0 (msgs @ [msg]) (acks @ [acked]) m' w'"
proof -
  obtain t w1 where t: "time_Now w = (t, w1)" by (cases "time_Now w")
  obtain n w2 where n: "time_Now w1 = (n, w2)" by (cases "time_Now w1")
  have same: "readingsSent w1 = readingsSent w" "readingsSent w2 = readingsSent w"
    using readingsSent_now [of w] readingsSent_now [of w1] by (simp_all add: t n)
  show ?thesis
    using b h same
    by (auto simp: handle_metered_def t n Let_def books_def split: prod.splits bool.splits sum.splits option.splits if_splits
        dest: readingsSent_publish)
qed

lemma books_all:
  "books w0 seen acks m w \<Longrightarrow> handle_all tx uuid_ok ops msgs m l w = (rest, m', l', w') \<Longrightarrow>
   books w0 (seen @ msgs) (acks @ rest) m' w'"
proof (induction msgs arbitrary: seen acks m l w rest)
  case (Cons msg msgs)
  obtain acked m1 l1 w1 where h: "handle_metered tx uuid_ok ops msg m l w = (acked, m1, l1, w1)" by (rule prod_cases4)
  obtain rest' where r: "handle_all tx uuid_ok ops msgs m1 l1 w1 = (rest', m', l', w')" "rest = acked # rest'"
    using Cons.prems(2) by (auto simp: h split: prod.splits)
  show ?case
    using Cons.IH [OF books_step [OF Cons.prems(1) h] r(1)] r(2) by simp
qed simp

section \<open>The telemetry consumer's metrics\<close>

record processorMetrics =
  pm_messagesConsumed :: nat
  pm_batchFailures :: nat
  pm_batchSize :: "nat list"
  pm_dbWriteDuration :: "real list"
  pm_dbStageLatency :: "real list"
  pm_endToEndLatency :: "real list"
  pm_consumerLag :: nat

definition newProcessorMetrics :: processorMetrics where
  "newProcessorMetrics = \<lparr>pm_messagesConsumed = 0, pm_batchFailures = 0, pm_batchSize = [], pm_dbWriteDuration = [],
     pm_dbStageLatency = [], pm_endToEndLatency = [], pm_consumerLag = 0\<rparr>"

text \<open>What a step reads: the clock before the insert, after it and at the commit, and the answer of \<^verbatim>\<open>cons.Info\<close>.\<close>

record flush_env =
  fe_start :: time
  fe_since :: time
  fe_commit :: time
  fe_NumPending :: "nat option"

definition flush_metered :: "flush_env \<Rightarrow> consumer \<Rightarrow> processorMetrics \<Rightarrow> pg
    \<Rightarrow> (jsmsg \<times> ack) list \<times> consumer \<times> processorMetrics \<times> pg" where
  "flush_metered env c m d =
     (let rows = c_rows c; items = c_items c; c' = \<lparr>c_rows = [], c_items = []\<rparr> in
      if rows = [] then ([], c', m, d)
      else
        (let (r, d') = insertBatch rows d;
             m1 = m\<lparr>pm_batchSize := pm_batchSize m @ [length rows],
                    pm_dbWriteDuration := pm_dbWriteDuration m @ [Seconds (time_sub (fe_since env) (fe_start env))]\<rparr> in
         case r of
           Some err \<Rightarrow>
             (map (\<lambda>i. (pi_msg i, Nak nakDelay)) items, c', m1\<lparr>pm_batchFailures := Suc (pm_batchFailures m1)\<rparr>, d')
         | None \<Rightarrow>
             (map (\<lambda>i. (pi_msg i, Ack)) items, c',
              m1\<lparr>pm_endToEndLatency := pm_endToEndLatency m1 @ map (\<lambda>i. Seconds (time_sub (fe_commit env) (pi_deviceTime i))) items,
                 pm_dbStageLatency := pm_dbStageLatency m1 @ map (\<lambda>i. Seconds (time_sub (fe_commit env) (pi_ingestTime i))) items\<rparr>,
              d')))"

definition onMessage_metered :: "flush_env \<Rightarrow> jsmsg \<Rightarrow> consumer \<Rightarrow> processorMetrics \<Rightarrow> pg
    \<Rightarrow> (jsmsg \<times> ack) list \<times> consumer \<times> processorMetrics \<times> pg" where
  "onMessage_metered env msg c m0 d =
     (let m = m0\<lparr>pm_messagesConsumed := Suc (pm_messagesConsumed m0)\<rparr> in
      case unmarshal_StampedReading (jm_data msg) of
        Inl err \<Rightarrow> ([(msg, Term)], c, m, d)
      | Inr sr \<Rightarrow>
          (let deviceTime = time_UnixMilli (rDeviceTimeMS (srReading sr)); ingestTime = time_UnixMilli (srIngestTimeMS sr);
               c1 = \<lparr>c_rows = c_rows c @ flatten sr ingestTime,
                     c_items = c_items c @ [\<lparr>pi_msg = msg, pi_deviceTime = deviceTime, pi_ingestTime = ingestTime,
                                             pi_traceID = rTraceID (srReading sr)\<rparr>]\<rparr> in
           if batchSize \<le> length (c_rows c1) then flush_metered env c1 m d else ([], c1, m, d)))"

definition pollLag :: "flush_env \<Rightarrow> processorMetrics \<Rightarrow> processorMetrics" where
  "pollLag env m = (case fe_NumPending env of None \<Rightarrow> m | Some n \<Rightarrow> m\<lparr>pm_consumerLag := n\<rparr>)"

fun step_metered :: "consumer_event \<times> flush_env \<Rightarrow> consumer \<Rightarrow> processorMetrics \<Rightarrow> pg
    \<Rightarrow> (jsmsg \<times> ack) list \<times> consumer \<times> processorMetrics \<times> pg" where
  "step_metered (Deliver msg, env) c m d = onMessage_metered env msg c m d"
| "step_metered (FlushTick, env) c m d = flush_metered env c m d"
| "step_metered (LagTick, env) c m d = ([], c, pollLag env m, d)"

text \<open>\<open>drain\<close> is what the drain at the end reads.\<close>

fun run_metered :: "flush_env \<Rightarrow> (consumer_event \<times> flush_env) list \<Rightarrow> consumer \<Rightarrow> processorMetrics \<Rightarrow> pg
    \<Rightarrow> (jsmsg \<times> ack) list \<times> consumer \<times> processorMetrics \<times> pg" where
  "run_metered drain [] c m d = flush_metered drain c m d"
| "run_metered drain (ev # evs) c m d =
     (case step_metered ev c m d of (acks, c1, m1, d1) \<Rightarrow>
        (case run_metered drain evs c1 m1 d1 of (acks', r) \<Rightarrow> (acks @ acks', r)))"

text \<open>The metrics change nothing the consumer does.\<close>

abbreviation unmetered :: "'a \<times> 'c \<times> processorMetrics \<times> 'd \<Rightarrow> 'a \<times> 'c \<times> 'd" where
  "unmetered r \<equiv> (case r of (acks, c, m, d) \<Rightarrow> (acks, c, d))"

lemma flush_metered_flush: "flush c d = unmetered (flush_metered env c m d)"
  by (simp add: flush_def flush_metered_def Let_def split: prod.split option.split)

lemma step_metered_step: "consumer_step ev c d = unmetered (step_metered (ev, env) c m d)"
  by (cases ev) (auto simp: consumer_onMessage_def onMessage_metered_def Let_def flush_metered_flush split: sum.splits)

lemma run_metered_run: "consumer_run (map fst evs) c d = unmetered (run_metered drain evs c m d)"
proof (induction evs arbitrary: c m d)
  case (Cons ev evs)
  obtain e env where ev: "ev = (e, env)" by (cases ev)
  obtain acks c1 m1 d1 where s: "step_metered (e, env) c m d = (acks, c1, m1, d1)" by (rule prod_cases4)
  with step_metered_step [of e c d env m] Cons.IH [of c1 d1 m1] show ?case
    by (simp add: ev split: prod.split)
qed (simp add: flush_metered_flush)

text \<open>The consumer's books: how the metrics relate to the answers given so far.\<close>

abbreviation answered :: "ack \<Rightarrow> (jsmsg \<times> ack) list \<Rightarrow> nat" where
  "answered a acks \<equiv> length (filter (\<lambda>x. snd x = a) acks)"

definition consumer_books :: "nat \<Rightarrow> (jsmsg \<times> ack) list \<Rightarrow> consumer \<Rightarrow> processorMetrics \<Rightarrow> bool" where
  "consumer_books delivered acks c m \<longleftrightarrow>
     pm_messagesConsumed m = delivered \<and>
     length (pm_endToEndLatency m) = answered Ack acks \<and> length (pm_dbStageLatency m) = answered Ack acks \<and>
     pm_batchFailures m \<le> answered (Nak nakDelay) acks \<and> (pm_batchFailures m = 0 \<longrightarrow> answered (Nak nakDelay) acks = 0) \<and>
     length (pm_dbWriteDuration m) = length (pm_batchSize m) \<and> pm_batchFailures m \<le> length (pm_batchSize m) \<and>
     0 \<notin> set (pm_batchSize m) \<and> (c_rows c \<noteq> [] \<longrightarrow> c_items c \<noteq> []) \<and>
     length acks + length (c_items c) \<le> delivered"

lemma consumer_books_start: "consumer_books 0 [] newConsumer newProcessorMetrics"
  by (simp add: consumer_books_def newConsumer_def newProcessorMetrics_def)

lemma answered_map [simp]: "answered a (map (\<lambda>i. (g i, b)) is) = (if a = b then length is else 0)"
  by (induction "is") auto

lemma consumer_books_flush:
  assumes "consumer_books n acks c m" and "flush_metered env c m d = (new, c', m', d')"
  shows "consumer_books n (acks @ new) c' m'"
proof (cases "c_rows c = []")
  case False
  with assms show ?thesis
    by (cases "c_items c"; cases "fst (insertBatch (c_rows c) d)")
      (auto simp: flush_metered_def Let_def consumer_books_def split: prod.splits)
qed (use assms in \<open>auto simp: flush_metered_def Let_def consumer_books_def\<close>)

lemma consumer_books_step:
  assumes b: "consumer_books n acks c m" and s: "step_metered (ev, env) c m d = (new, c', m', d')"
  shows "consumer_books (n + length (deliveries [ev])) (acks @ new) c' m'"
proof (cases ev)
  case (Deliver msg)
  let ?m = "m\<lparr>pm_messagesConsumed := Suc (pm_messagesConsumed m)\<rparr>"
  show ?thesis
  proof (cases "unmarshal_StampedReading (jm_data msg)")
    case (Inl err)
    with b s Deliver show ?thesis by (auto simp: onMessage_metered_def consumer_books_def deliveries_def)
  next
    case (Inr sr)
    define c1 where "c1 = \<lparr>c_rows = c_rows c @ flatten sr (time_UnixMilli (srIngestTimeMS sr)),
      c_items = c_items c @ [\<lparr>pi_msg = msg, pi_deviceTime = time_UnixMilli (rDeviceTimeMS (srReading sr)),
        pi_ingestTime = time_UnixMilli (srIngestTimeMS sr), pi_traceID = rTraceID (srReading sr)\<rparr>]\<rparr>"
    have b1: "consumer_books (Suc n) acks c1 ?m" using b by (auto simp: consumer_books_def c1_def)
    have "(if batchSize \<le> length (c_rows c1) then flush_metered env c1 ?m d else ([], c1, ?m, d)) = (new, c', m', d')"
      using s Deliver Inr unfolding c1_def by (simp add: onMessage_metered_def Let_def split del: if_split)
    with b1 consumer_books_flush [OF b1] Deliver show ?thesis
      by (auto simp: deliveries_def split: if_splits)
  qed
next
  case FlushTick
  with b s consumer_books_flush show ?thesis by (auto simp: deliveries_def)
next
  case LagTick
  with b s show ?thesis by (auto simp: deliveries_def pollLag_def consumer_books_def split: option.splits)
qed

lemma consumer_books_run:
  "consumer_books n acks c m \<Longrightarrow> run_metered drain evs c m d = (new, c', m', d') \<Longrightarrow>
   consumer_books (n + length (deliveries (map fst evs))) (acks @ new) c' m'"
proof (induction evs arbitrary: n acks c m d new)
  case Nil
  with consumer_books_flush show ?case by (auto simp: deliveries_def)
next
  case (Cons ev evs)
  obtain e env where ev: "ev = (e, env)" by (cases ev)
  obtain acks1 c1 m1 d1 where s: "step_metered (e, env) c m d = (acks1, c1, m1, d1)" by (rule prod_cases4)
  obtain acks2 where r: "run_metered drain evs c1 m1 d1 = (acks2, c', m', d')" "new = acks1 @ acks2"
    using Cons.prems(2) by (auto simp: ev s split: prod.splits)
  have "deliveries (map fst (ev # evs)) = deliveries [e] @ deliveries (map fst evs)" by (simp add: ev deliveries_def)
  with Cons.IH [OF consumer_books_step [OF Cons.prems(1) s] r(1)] r(2) show ?case by (simp add: ac_simps)
qed

section \<open>Gauges\<close>

record fleetGauges =
  fg_devicesTarget :: int
  fg_devicesRunning :: nat
  fg_devicesConnected :: nat
  fg_devicesPartitioned :: nat
  fg_tokensRemaining :: int

definition updateMetrics :: "'srv FleetManager \<Rightarrow> fleetGauges" where
  "updateMetrics m =
     (let st = Status m in
      \<lparr>fg_devicesTarget = fs_Target st, fg_devicesRunning = fs_Running st, fg_devicesConnected = fs_Connected st,
       fg_devicesPartitioned = fs_Partitioned st, fg_tokensRemaining = fs_TokensRemaining st\<rparr>)"

text \<open>One tick of control's gauge: a listing that fails leaves it as it was.\<close>

definition activeCount :: "duration \<Rightarrow> time \<Rightarrow> Device list \<Rightarrow> nat" where
  "activeCount staleAfter now ds =
     foldl (\<lambda>active d. case de_LastSeen d of
              None \<Rightarrow> active
            | Some t \<Rightarrow> if time_sub now t \<le> staleAfter then Suc active else active) 0 ds"

definition activeDevicesTick :: "duration \<Rightarrow> nat \<times> 'kv world \<Rightarrow> nat \<times> 'kv world" where
  "activeDevicesTick staleAfter s =
     (let (g, w) = s in
      case on_pg Devices_List w of
        (Inl err, w1) \<Rightarrow> (g, w1)
      | (Inr ds, w1) \<Rightarrow> (let (now, w2) = time_Now w1 in (activeCount staleAfter now ds, w2)))"

definition recent :: "duration \<Rightarrow> time \<Rightarrow> time option \<Rightarrow> bool" where
  "recent staleAfter now x \<longleftrightarrow> (case x of None \<Rightarrow> False | Some t \<Rightarrow> time_sub now t \<le> staleAfter)"

lemma activeCount_filter:
  "activeCount staleAfter now ds = length (filter (recent staleAfter now) (map de_LastSeen ds))"
proof -
  have "foldl (\<lambda>active d. case de_LastSeen d of
              None \<Rightarrow> active
            | Some t \<Rightarrow> if time_sub now t \<le> staleAfter then Suc active else active) n ds =
      n + length (filter (recent staleAfter now) (map de_LastSeen ds))" for n
    by (induction ds arbitrary: n) (auto simp: recent_def split: option.splits)
  then show ?thesis by (simp add: activeCount_def)
qed

lemma scanAll_last_seen:
  "scanAll scanDevice rows = Inr ds \<Longrightarrow> map de_LastSeen ds = map dr_last_seen rows"
  by (induction rows arbitrary: ds) (auto simp: scanDevice_def split: sum.splits)

lemma activeCount_rows:
  assumes "scanAll scanDevice rows = Inr ds"
  shows "activeCount staleAfter now ds = length (filter (\<lambda>r. recent staleAfter now (dr_last_seen r)) rows)"
  by (simp add: activeCount_filter scanAll_last_seen [OF assms] filter_map o_def)

text \<open>Counting the rows that satisfy a condition does not depend on their order, and ids tell rows apart.\<close>

lemma length_filter_sorted_ids:
  assumes "devices_inv d"
  shows "length (filter P (sort_key f (pg_devices d))) = card {dr_id r |r. r \<in> set (pg_devices d) \<and> P r}"
proof -
  have "length (filter P (sort_key f (pg_devices d))) = length (filter P (pg_devices d))"
    by (metis filter_sort length_sort)
  moreover have "distinct (map dr_id (filter P (pg_devices d)))"
    using assms by (simp add: devices_inv_def distinct_map_filter)
  moreover have "set (map dr_id (filter P (pg_devices d))) = {dr_id r |r. r \<in> set (pg_devices d) \<and> P r}" by auto
  ultimately show ?thesis by (metis distinct_card length_map)
qed

section \<open>Properties\<close>

text \<open>No service panics while it registers its metrics: the names of its collectors differ from each other and, as they all
  begin with \<^verbatim>\<open>sensegrid_\<close>, from those a registry holds already. Registering them again does panic.\<close>

theorem services_register_metrics:
  assumes "prom_registry register names" and "\<And>n. ''sensegrid_'' @ n \<notin> names r"
  shows "\<exists>r'. MustRegister register (processCollectors svc) r = Some r' \<and>
    names r' = metricName ` set (processCollectors svc) \<union> names r \<and>
    (processCollectors svc \<noteq> [] \<longrightarrow> MustRegister register (processCollectors svc) r' = None)"
proof -
  have "metricName c \<notin> names r" if "c \<in> set (processCollectors svc)" for c
    using processCollectors_named [OF that] assms(2) by auto
  then have "set (map metricName (processCollectors svc)) \<inter> names r = {}" by auto
  from prom_registry.MustRegister_ok [OF assms(1) processCollectors_distinct this]
  show ?thesis using prom_registry.MustRegister_twice [OF assms(1)] by auto
qed

theorem services_register_metrics_witness:
  "\<exists>r'. MustRegister memRegister (processCollectors ''control'') [''go_goroutines''] = Some r' \<and>
    set r' = {''sensegrid_control_ws_clients_connected'', ''sensegrid_control_active_devices'', ''go_goroutines''}"
  using services_register_metrics [OF memreg.prom_registry_axioms, of "[''go_goroutines'']" "''control''"]
  by (auto simp: processCollectors_def controlCollectors_def insert_commute)

text \<open>C22: ingest's counters add up. Whatever messages arrive and whatever fails: every message is counted as received and is
  exactly one of published, invalid, shed, failed to publish or, counted by no counter, on a foreign topic; the failed ones are
  exactly the unacknowledged ones; the lag is observed once for each attempt to publish; and what is in the stream lies
  between the published count and that plus the failed publishes (a publish may reach the broker and its answer be lost).\<close>

theorem ingest_counts_add_up:
  assumes "handle_all tx uuid_ok ops msgs newIngestMetrics l w = (acks, m, l', w')"
  shows "im_messagesReceived m = length msgs \<and>
     length msgs = im_messagesPublished m + im_validationFailures m + im_rateLimited m + im_publishErrors m
       + length (filter (\<lambda>msg. \<not> snd (deviceIDFromTopic (mi_topic msg))) msgs) \<and>
     im_publishErrors m = length (filter Not acks) \<and>
     length (im_ingestLag m) = im_messagesPublished m + im_publishErrors m \<and>
     readingsSent w + im_messagesPublished m \<le> readingsSent w' \<and>
     readingsSent w' \<le> readingsSent w + im_messagesPublished m + im_publishErrors m"
  using books_all [OF books_start assms] by (simp add: books_def)

theorem ingest_counts_add_up_witness:
  "\<exists>acks m l w. handle_all plainTexts (\<lambda>_. True) tokenLimiter [sampleMsg, sampleMsg\<lparr>mi_json := None\<rparr>] newIngestMetrics
      (newPerDeviceLimiter 10 1) (ingestWorld []) = (acks, m, l, w) \<and>
    im_messagesReceived m = 2 \<and> im_messagesPublished m + im_validationFailures m + im_rateLimited m + im_publishErrors m = 2"
proof -
  obtain acks m l w where run: "handle_all plainTexts (\<lambda>_. True) tokenLimiter [sampleMsg, sampleMsg\<lparr>mi_json := None\<rparr>] newIngestMetrics
      (newPerDeviceLimiter 10 1) (ingestWorld []) = (acks, m, l, w)" by (rule prod_cases4)
  have "deviceIDFromTopic (mi_topic sampleMsg) = (''d1'', True)"
    by (simp add: sampleMsg_def deviceIDFromTopic_iff TelemetryTopic_def)
  with ingest_counts_add_up [OF run] run show ?thesis by simp
qed

text \<open>The processor's metrics tell how its messages fared. However deliveries, flushes, lag polls and failures of the database
  interleave, up to and including the drain at the end: every delivery is counted once; both latencies are observed exactly
  once for each acknowledged message; a failed batch is counted exactly when messages were handed back; each insert has a size
  and a duration, and no insert is empty; and no more messages are answered than were delivered.\<close>

theorem consumer_metrics_match_answers:
  assumes "run_metered drain evs newConsumer newProcessorMetrics d = (out, c, m, d')"
  shows "consumer_run (map fst evs) newConsumer d = (out, c, d') \<and>
    pm_messagesConsumed m = length (deliveries (map fst evs)) \<and>
    length (pm_endToEndLatency m) = answered Ack out \<and> length (pm_dbStageLatency m) = answered Ack out \<and>
    (pm_batchFailures m = 0 \<longleftrightarrow> answered (Nak nakDelay) out = 0) \<and> pm_batchFailures m \<le> length (pm_batchSize m) \<and>
    length (pm_dbWriteDuration m) = length (pm_batchSize m) \<and> 0 \<notin> set (pm_batchSize m) \<and>
    length out \<le> pm_messagesConsumed m"
  using consumer_books_run [OF consumer_books_start assms] run_metered_run [of evs newConsumer d drain newProcessorMetrics] assms
  by (auto simp: consumer_books_def)

theorem consumer_metrics_match_answers_witness:
  "\<exists>c m d'. run_metered \<lparr>fe_start = 1, fe_since = 2, fe_commit = 3, fe_NumPending = None\<rparr>
      [(Deliver persistMsg, \<lparr>fe_start = 0, fe_since = 0, fe_commit = 0, fe_NumPending = None\<rparr>)] newConsumer newProcessorMetrics persistPg =
      ([(persistMsg, Ack)], c, m, d') \<and> pm_messagesConsumed m = 1 \<and> length (pm_endToEndLatency m) = 1"
proof -
  let ?drain = "\<lparr>fe_start = 1, fe_since = 2, fe_commit = 3, fe_NumPending = None\<rparr> :: flush_env"
  let ?evs = "[(Deliver persistMsg, \<lparr>fe_start = 0, fe_since = 0, fe_commit = 0, fe_NumPending = None\<rparr> :: flush_env)]"
  obtain out c m d' where run: "run_metered ?drain ?evs newConsumer newProcessorMetrics persistPg = (out, c, m, d')"
    by (rule prod_cases4)
  have "consumer_run [Deliver persistMsg] newConsumer persistPg = ([(persistMsg, Ack)], newConsumer, persistDone)"
    using persist_deliver persist_flush by simp
  with consumer_metrics_match_answers [OF run] run show ?thesis by (auto simp: deliveries_def)
qed

text \<open>Control's gauge of active devices is the number of registered devices heard from within the staleness threshold, and a
  listing that fails leaves it as it was.\<close>

theorem active_devices_gauge:
  assumes "devices_inv (w_pg w)"
  shows "fst (activeDevicesTick staleAfter (g, w)) =
    (case fst (Devices_List (w_pg w)) of
       Inl err \<Rightarrow> g
     | Inr ds \<Rightarrow> card {dr_id r |r. r \<in> set (pg_devices (w_pg w)) \<and> recent staleAfter (fst (time_Now w)) (dr_last_seen r)})"
proof (cases "Devices_List (w_pg w)")
  case (Pair x d')
  show ?thesis
  proof (cases x)
    case (Inl err)
    with Pair show ?thesis by (simp add: activeDevicesTick_def on_pg_def)
  next
    case (Inr ds)
    then obtain fs where "scanAll scanDevice (sort_key (\<lambda>r. - dr_registered_at r) (pg_devices (w_pg w))) = Inr ds"
      using Pair by (auto simp: Devices_List_def sql_list_devices_def elim!: pg_run_ok split: prod.splits sum.splits)
    from activeCount_rows [OF this] Inr Pair show ?thesis
      by (simp add: activeDevicesTick_def on_pg_def time_Now_def length_filter_sorted_ids [OF assms])
  qed
qed

definition gaugeWorld :: "unit world" where
  "gaugeWorld = (ingestWorld [])\<lparr>w_pg := persistPg\<lparr>pg_devices :=
     [\<lparr>dr_id = ''d1'', dr_name = ''n'', dr_type = ''t'', dr_registered_at = 0, dr_last_seen = Some 1700000000000000000,
       dr_status = ''active'', dr_metadata = JObject []\<rparr>,
      \<lparr>dr_id = ''d2'', dr_name = ''n'', dr_type = ''t'', dr_registered_at = 0, dr_last_seen = None,
       dr_status = ''active'', dr_metadata = JObject []\<rparr>]\<rparr>\<rparr>"

theorem active_devices_gauge_witness:
  "fst (activeDevicesTick second (7, gaugeWorld)) = 1"
proof -
  have inv: "devices_inv (w_pg gaugeWorld)" by (simp add: gaugeWorld_def devices_inv_def)
  obtain ds where ds: "fst (Devices_List (w_pg gaugeWorld)) = Inr ds"
    by (simp add: gaugeWorld_def persistPg_def Devices_List_def sql_list_devices_def scanDevice_def)
  let ?P = "\<lambda>r. recent second (fst (time_Now gaugeWorld)) (dr_last_seen r)"
  have "fst (activeDevicesTick second (7, gaugeWorld)) = card {dr_id r |r. r \<in> set (pg_devices (w_pg gaugeWorld)) \<and> ?P r}"
    using active_devices_gauge [OF inv, of second 7] unfolding ds by simp
  also have "{dr_id r |r. r \<in> set (pg_devices (w_pg gaugeWorld)) \<and> ?P r} = dr_id ` set (filter ?P (pg_devices (w_pg gaugeWorld)))"
    by auto
  also have "\<dots> = {''d1''}"
    by (simp add: gaugeWorld_def ingestWorld_def time_Now_def recent_def time_sub_def minDuration_def maxDuration_def)
  finally show ?thesis by simp
qed

end
