(* ===== verification/WindowedMetrics.thy ===== *)
theory WindowedMetrics
  imports Metrics
begin

text \<open>
  The metrics of the windowed consumer, \<^verbatim>\<open>windowed_metrics.go\<close>: the operations of \<^verbatim>\<open>windowed.go\<close> (theory \<open>Windowed\<close>) once
  more, with the counters and gauges as part of what they change. Each is shown to do what it does there, whatever the
  metrics are.
\<close>

section \<open>Operations\<close>

record windowedMetrics =
  wm_messagesConsumed :: nat
  wm_metricsPublished :: nat
  wm_publishErrors :: nat
  wm_detectorEvals :: nat
  wm_alertsFired :: nat
  wm_alertsResolved :: nat
  wm_registrySize :: nat
  wm_registryEvictions :: nat
  wm_consumerLag :: nat

definition newWindowedMetrics :: windowedMetrics where
  "newWindowedMetrics = \<lparr>wm_messagesConsumed = 0, wm_metricsPublished = 0, wm_publishErrors = 0, wm_detectorEvals = 0,
     wm_alertsFired = 0, wm_alertsResolved = 0, wm_registrySize = 0, wm_registryEvictions = 0, wm_consumerLag = 0\<rparr>"

type_synonym 'kv mworld = "windowedMetrics \<times> 'kv world"

definition publishMetric_metered :: "string \<Rightarrow> string \<Rightarrow> Window \<Rightarrow> string \<Rightarrow> 'kv mworld \<Rightarrow> 'kv mworld" where
  "publishMetric_metered deviceID sensorType wi traceID s =
     (let (m, w) = s;
          (err, w1) = on_js (bus_publish (MetricsSubject deviceID)
            (marshal_MetricEvent \<lparr>me_SchemaVersion = MetricEventSchemaVersion, me_DeviceID = deviceID,
               me_SensorType = sensorType, me_Mean = W_Mean wi, me_StdDev = W_StdDev wi, me_Count = W_Count wi,
               me_EWMA = W_EWMA wi, me_WindowStartMS = UnixMilli (OldestTime wi), me_WindowEndMS = UnixMilli (NewestTime wi),
               me_TraceID = traceID\<rparr>)) w in
      case err of
        Some e \<Rightarrow> (m\<lparr>wm_publishErrors := Suc (wm_publishErrors m)\<rparr>, w1)
      | None \<Rightarrow> (m\<lparr>wm_metricsPublished := Suc (wm_metricsPublished m)\<rparr>, w1))"

definition publishAlert_metered :: "Alert \<Rightarrow> 'kv mworld \<Rightarrow> 'kv mworld" where
  "publishAlert_metered a s =
     (let (m, w) = s; (t, w1) = time_Now w; (err, w2) = on_js (Alerts_Publish a t) w1 in
      case err of Some e \<Rightarrow> (m\<lparr>wm_publishErrors := Suc (wm_publishErrors m)\<rparr>, w2) | None \<Rightarrow> (m, w2))"

definition fire_metered :: "string \<Rightarrow> string \<Rightarrow> Rule \<Rightarrow> real \<Rightarrow> 'kv mworld \<Rightarrow> 'kv mworld" where
  "fire_metered deviceID sensorType rule score s =
     (let (m, w) = s; (i, w1) = uuid_NewString w; (t, w2) = time_Now w1 in
      case on_pg_now (\<lambda>n. Alerts_Open n i deviceID sensorType (ru_Name rule) (ru_Severity rule) (fireDetail rule score) t) w2 of
        (Inl err, w3) \<Rightarrow> (m, w3)
      | (Inr (a, opened), w3) \<Rightarrow>
          publishAlert_metered a (if opened then m\<lparr>wm_alertsFired := Suc (wm_alertsFired m)\<rparr> else m, w3))"

definition resolve_metered :: "string \<Rightarrow> string \<Rightarrow> Rule \<Rightarrow> 'kv mworld \<Rightarrow> 'kv mworld" where
  "resolve_metered deviceID sensorType rule s =
     (let (m, w) = s; (t, w1) = time_Now w in
      case on_pg_now (\<lambda>n. Alerts_Resolve n deviceID sensorType (ru_Name rule) t) w1 of
        (Inl err, w2) \<Rightarrow> (m, w2)
      | (Inr None, w2) \<Rightarrow> (m, w2)
      | (Inr (Some a), w2) \<Rightarrow> publishAlert_metered a (m\<lparr>wm_alertsResolved := Suc (wm_alertsResolved m)\<rparr>, w2))"

definition apply_metered :: "string \<Rightarrow> string \<Rightarrow> Rule \<Rightarrow> bool \<Rightarrow> real \<Rightarrow> Evaluator \<times> 'kv mworld \<Rightarrow> Evaluator \<times> 'kv mworld" where
  "apply_metered deviceID sensorType rule violating score s =
     (let (e, w) = s;
          (ev, e') = Evaluator_Update e \<lparr>ek_DeviceID = deviceID, ek_SensorType = sensorType, ek_RuleName = ru_Name rule\<rparr>
                       violating (ConsecutiveOrDefault rule) in
      case ev of
        Fired \<Rightarrow> (e', fire_metered deviceID sensorType rule score w)
      | Cleared \<Rightarrow> (e', resolve_metered deviceID sensorType rule w)
      | NoChange \<Rightarrow> (e', w))"

definition evaluated :: "'kv mworld \<Rightarrow> 'kv mworld" where
  "evaluated s = (case s of (m, w) \<Rightarrow> (m\<lparr>wm_detectorEvals := Suc (wm_detectorEvals m)\<rparr>, w))"

definition evalRule_metered :: "string \<Rightarrow> string \<Rightarrow> real \<Rightarrow> Window \<Rightarrow> Rule \<Rightarrow> Evaluator \<times> 'kv mworld \<Rightarrow> Evaluator \<times> 'kv mworld" where
  "evalRule_metered deviceID sensorType val wi rule s =
     (if ru_Type rule = Silence then s
      else
        (let s1 = (fst s, evaluated (snd s)) in
         if ru_Type rule = ZScore
           then (let (violating, score) = EvaluateZScore val wi rule in apply_metered deviceID sensorType rule violating score s1)
         else if ru_Type rule = RateOfChange
           then (let (violating, score) = EvaluateRateOfChange wi rule in apply_metered deviceID sensorType rule violating score s1)
         else s1))"

definition processSample_metered :: "string \<Rightarrow> string \<Rightarrow> real \<Rightarrow> time \<Rightarrow> u64 \<Rightarrow> string
    \<Rightarrow> windowedConsumer \<times> 'kv mworld \<Rightarrow> windowedConsumer \<times> 'kv mworld" where
  "processSample_metered deviceID sensorType val deviceTime seq traceID s =
     (let (c, m, w) = s; key = \<lparr>wk_DeviceID = deviceID, wk_SensorType = sensorType\<rparr>;
          (now, w1) = time_Now w; (wi, reg) = Registry_Get (wc_registry c) key now in
      case Insert wi deviceTime val seq of
        (_, False) \<Rightarrow> (c\<lparr>wc_registry := reg\<rparr>, m, w1)
      | (wi', True) \<Rightarrow>
          (let c1 = c\<lparr>wc_registry := setWindow reg key wi'\<rparr>;
               s2 = publishMetric_metered deviceID sensorType wi' traceID (m, w1);
               (e, s3) = fold (evalRule_metered deviceID sensorType val wi') (ForSensor (Watcher_Current (wc_rulesW c)) sensorType)
                           (wc_evaluator c1, s2)
           in (c1\<lparr>wc_evaluator := e\<rparr>, s3)))"

definition windowed_onMessage_metered :: "jsmsg \<Rightarrow> windowedConsumer \<times> 'kv mworld \<Rightarrow> (jsmsg \<times> ack) list \<times> windowedConsumer \<times> 'kv mworld" where
  "windowed_onMessage_metered msg s =
     (let (c, m, w) = s; s1 = (c, m\<lparr>wm_messagesConsumed := Suc (wm_messagesConsumed m)\<rparr>, w) in
      case unmarshal_StampedReading (jm_data msg) of
        Inl err \<Rightarrow> ([(msg, Ack)], s1)
      | Inr sr \<Rightarrow>
          (let r = srReading sr; deviceTime = time_UnixMilli (rDeviceTimeMS r) in
           ([(msg, Ack)],
            fold (\<lambda>(sensorType, val). processSample_metered (rDeviceID r) sensorType val deviceTime (rSeq r) (rTraceID r))
              (flattenValues sr) s1)))"

definition sweepKey_metered :: "RulesConfig option \<Rightarrow> Registry \<Rightarrow> time \<Rightarrow> WKey \<Rightarrow> Evaluator \<times> 'kv mworld \<Rightarrow> Evaluator \<times> 'kv mworld" where
  "sweepKey_metered cfg reg now key s =
     (case Registry_LastSeen reg key of
        (_, False) \<Rightarrow> s
      | (lastSeen, True) \<Rightarrow>
          fold (\<lambda>rule s. if ru_Type rule \<noteq> Silence then s
              else (let (violating, gap) = EvaluateSilence lastSeen now rule in
                    apply_metered (wk_DeviceID key) (wk_SensorType key) rule violating (Seconds gap) (fst s, evaluated (snd s))))
            (ForSensor cfg (wk_SensorType key)) s)"

definition sweep_metered :: "windowedConsumer \<times> 'kv mworld \<Rightarrow> windowedConsumer \<times> 'kv mworld" where
  "sweep_metered s =
     (let (c, m, w) = s; cfg = Watcher_Current (wc_rulesW c); (start, w1) = time_Now w;
          (e, m1, w2) = fold (sweepKey_metered cfg (wc_registry c) start) (Registry_Keys (wc_registry c)) (wc_evaluator c, m, w1);
          c1 = c\<lparr>wc_evaluator := e\<rparr>; (now, w3) = time_Now w2;
          (evicted, reg) = Registry_Sweep (wc_registry c1) now (wc_registryTTL c1)
      in (c1\<lparr>wc_registry := reg\<rparr>,
          m1\<lparr>wm_registryEvictions := wm_registryEvictions m1 + evicted, wm_registrySize := Registry_Size reg\<rparr>, w3))"

text \<open>What reaches the loop: a message, the sweep ticker, and the lag ticker with the answer of \<^verbatim>\<open>cons.Info\<close>.\<close>

datatype wm_event = WmMsg jsmsg | WmSweep | WmLag "nat option"

fun windowed_step_metered :: "wm_event \<Rightarrow> windowedConsumer \<times> 'kv mworld \<Rightarrow> windowedConsumer \<times> 'kv mworld" where
  "windowed_step_metered (WmMsg msg) s = snd (windowed_onMessage_metered msg s)"
| "windowed_step_metered WmSweep s = sweep_metered s"
| "windowed_step_metered (WmLag info) (c, m, w) =
     (c, (case info of None \<Rightarrow> m | Some n \<Rightarrow> m\<lparr>wm_consumerLag := n\<rparr>), w)"

section \<open>The metrics change nothing else\<close>

abbreviation unmet :: "'a \<times> 'kv mworld \<Rightarrow> 'a \<times> 'kv world" where
  "unmet s \<equiv> (fst s, snd (snd s))"

lemma fold_commutes: "(\<And>x s. p (f x s) = g x (p s)) \<Longrightarrow> p (fold f xs s) = fold g xs (p s)"
  by (induction xs arbitrary: s) simp_all

lemma publishMetric_unmet: "snd (publishMetric_metered dv st wi tr s) = publishMetric dv st wi tr (snd s)"
  by (cases s) (simp add: publishMetric_metered_def publishMetric_def Let_def split: prod.split option.split)

lemma publishAlert_unmet: "snd (publishAlert_metered a s) = publishAlert a (snd s)"
  by (cases s) (simp add: publishAlert_metered_def publishAlert_def Let_def split: prod.split option.split)

lemma fire_unmet: "snd (fire_metered dv st rule score s) = fire dv st rule score (snd s)"
  by (cases s) (simp add: fire_metered_def fire_def Let_def publishAlert_unmet split: prod.split sum.split)

lemma resolve_unmet: "snd (resolve_metered dv st rule s) = resolve dv st rule (snd s)"
  by (cases s) (simp add: resolve_metered_def resolve_def Let_def publishAlert_unmet split: prod.split sum.split option.split)

lemma apply_unmet: "unmet (apply_metered dv st rule v score s) = applyEvaluation dv st rule v score (unmet s)"
  by (cases s) (simp add: apply_metered_def applyEvaluation_def Let_def fire_unmet resolve_unmet split: prod.split EvalEvent.split)

lemma evaluated_unmet [simp]: "snd (evaluated s) = snd s"
  by (cases s) (simp add: evaluated_def)

lemma evalRule_unmet: "unmet (evalRule_metered dv st val wi rule s) = evalRule dv st val wi rule (unmet s)"
  using apply_unmet [of dv st rule _ _ "(fst s, evaluated (snd s))"]
  by (simp add: evalRule_metered_def evalRule_def Let_def split: prod.split)

lemma processSample_unmet:
  "unmet (processSample_metered dv st val t seq tr s) = processSample dv st val t seq tr (unmet s)"
proof -
  obtain c m w where s: "s = (c, m, w)" by (rule prod_cases3)
  obtain now w1 where t: "time_Now w = (now, w1)" by (cases "time_Now w")
  obtain wi reg where g: "Registry_Get (wc_registry c) \<lparr>wk_DeviceID = dv, wk_SensorType = st\<rparr> now = (wi, reg)" by fastforce
  obtain wi' new where i: "Insert wi t val seq = (wi', new)" by (cases "Insert wi t val seq")
  let ?s2 = "publishMetric_metered dv st wi' tr (m, w1)"
  let ?rules = "ForSensor (Watcher_Current (wc_rulesW c)) st"
  have "unmet (fold (evalRule_metered dv st val wi') ?rules (wc_evaluator c, ?s2)) =
      fold (evalRule dv st val wi') ?rules (wc_evaluator c, publishMetric dv st wi' tr w1)"
    using fold_commutes [of unmet "evalRule_metered dv st val wi'" "evalRule dv st val wi'" ?rules "(wc_evaluator c, ?s2)"]
    by (simp add: evalRule_unmet publishMetric_unmet)
  then show ?thesis
    by (cases new) (auto simp: processSample_metered_def processSample_def s t g i Let_def split: prod.splits)
qed

lemma onMessage_unmet:
  "fst (windowed_onMessage_metered msg s) = fst (windowed_onMessage msg (unmet s))"
  "unmet (snd (windowed_onMessage_metered msg s)) = snd (windowed_onMessage msg (unmet s))"
proof -
  obtain c m w where s: "s = (c, m, w)" by (rule prod_cases3)
  show "fst (windowed_onMessage_metered msg s) = fst (windowed_onMessage msg (unmet s))"
    by (simp add: windowed_onMessage_metered_def windowed_onMessage_def s Let_def split: sum.split)
  show "unmet (snd (windowed_onMessage_metered msg s)) = snd (windowed_onMessage msg (unmet s))"
  proof (cases "unmarshal_StampedReading (jm_data msg)")
    case (Inr sr)
    let ?r = "srReading sr"
    let ?f = "\<lambda>(st, val). processSample_metered (rDeviceID ?r) st val (time_UnixMilli (rDeviceTimeMS ?r)) (rSeq ?r) (rTraceID ?r)"
      and ?g = "\<lambda>(st, val). processSample (rDeviceID ?r) st val (time_UnixMilli (rDeviceTimeMS ?r)) (rSeq ?r) (rTraceID ?r)"
    have "unmet (?f x t) = ?g x (unmet t)" for x and t :: "windowedConsumer \<times> 'a mworld"
      by (cases x) (simp add: processSample_unmet)
    from fold_commutes [of unmet ?f ?g, OF this] Inr show ?thesis
      by (simp add: windowed_onMessage_metered_def windowed_onMessage_def s Let_def)
  qed (simp add: windowed_onMessage_metered_def windowed_onMessage_def s)
qed

lemma sweepKey_unmet: "unmet (sweepKey_metered cfg reg now key s) = sweepKey cfg reg now key (unmet s)"
proof (cases "Registry_LastSeen reg key")
  case (Pair lastSeen ok)
  let ?f = "\<lambda>rule s. if ru_Type rule \<noteq> Silence then s
      else (let (violating, gap) = EvaluateSilence lastSeen now rule in
            apply_metered (wk_DeviceID key) (wk_SensorType key) rule violating (Seconds gap) (fst s, evaluated (snd s)))"
    and ?g = "\<lambda>rule s. if ru_Type rule \<noteq> Silence then s
      else (let (violating, gap) = EvaluateSilence lastSeen now rule in
            applyEvaluation (wk_DeviceID key) (wk_SensorType key) rule violating (Seconds gap) s)"
  have "unmet (?f rule t) = ?g rule (unmet t)" for rule and t :: "Evaluator \<times> 'a mworld"
    using apply_unmet [of _ _ rule _ _ "(fst t, evaluated (snd t))"] by (simp split: prod.split)
  from fold_commutes [of unmet ?f ?g, OF this] Pair show ?thesis
    by (cases ok) (simp_all add: sweepKey_metered_def sweepKey_def)
qed

lemma sweep_unmet: "unmet (sweep_metered s) = windowed_sweep (unmet s)"
proof -
  obtain c m w where s: "s = (c, m, w)" by (rule prod_cases3)
  obtain start w1 where t: "time_Now w = (start, w1)" by (cases "time_Now w")
  let ?cfg = "Watcher_Current (wc_rulesW c)" and ?keys = "Registry_Keys (wc_registry c)"
  have "unmet (fold (sweepKey_metered ?cfg (wc_registry c) start) ?keys (wc_evaluator c, m, w1)) =
      fold (sweepKey ?cfg (wc_registry c) start) ?keys (wc_evaluator c, w1)"
    using fold_commutes [of unmet "sweepKey_metered ?cfg (wc_registry c) start" "sweepKey ?cfg (wc_registry c) start"
        ?keys "(wc_evaluator c, m, w1)"] by (simp add: sweepKey_unmet)
  then show ?thesis
    by (auto simp: sweep_metered_def windowed_sweep_def sweepSilence_def s t Let_def split: prod.splits)
qed

text \<open>An event as the consumer without metrics sees it; a poll of the lag is none.\<close>

definition plain_event :: "wm_event \<Rightarrow> wevent option" where
  "plain_event ev = (case ev of WmMsg msg \<Rightarrow> Some (WMsg msg) | WmSweep \<Rightarrow> Some WSweep | WmLag _ \<Rightarrow> None)"

lemma step_unmet:
  "unmet (windowed_step_metered ev s) = (case plain_event ev of None \<Rightarrow> unmet s | Some e \<Rightarrow> windowed_step e (unmet s))"
  by (cases ev; cases s) (simp_all add: plain_event_def onMessage_unmet sweep_unmet)

lemma run_unmet:
  "unmet (fold windowed_step_metered evs s) = fold windowed_step (List.map_filter plain_event evs) (unmet s)"
proof (induction evs arbitrary: s)
  case (Cons ev evs)
  show ?case using step_unmet [of ev s] Cons.IH [of "windowed_step_metered ev s"]
    by (cases "plain_event ev") (simp_all add: map_filter_simps)
qed (simp add: map_filter_simps)

section \<open>The books\<close>

definition isMetric :: "string \<Rightarrow> bool" where
  "isMetric subj \<longleftrightarrow> take 8 subj = ''metrics.''"

definition metricsSent :: "'kv world \<Rightarrow> nat" where
  "metricsSent w = length (filter (\<lambda>(subj, _). isMetric subj) (bus_sent (w_js w)))"

definition alertRows :: "pg \<Rightarrow> nat" where
  "alertRows d = length (pg_alerts d)"

definition resolvedRows :: "pg \<Rightarrow> nat" where
  "resolvedRows d = length (filter (\<lambda>r. al_state r = Resolved) (pg_alerts d))"

lemma isMetric_subjects [simp]: "isMetric (MetricsSubject d)" "\<not> isMetric (AlertsSubject d)"
  by (simp_all add: isMetric_def MetricsSubject_def AlertsSubject_def)

text \<open>What a call on the alert store does to the table, and what its result says of that.\<close>

lemma getOpen_table: "getOpen dv st rn d = (r, d') \<Longrightarrow> pg_alerts d' = pg_alerts d"
  by (auto simp: getOpen_def sql_get_open_def uuid_arg_Inr elim!: pg_run_cases split: prod.splits sum.splits)

lemma insert_alert_table:
  "pg_run (sql_insert_alert n i dv st rn sev det t) d = (r, d') \<Longrightarrow>
   alertRows d + of_bool (\<exists>x. r = Inr x) \<le> alertRows d' \<and> resolvedRows d' = resolvedRows d"
  by (elim pg_run_cases) (auto simp: sql_insert_alert_def uuid_arg_Inr alertRows_def resolvedRows_def state_consts Let_def split: if_splits)

lemma Alerts_Open_table:
  assumes "Alerts_Open n i dv st rn sev det t d = (r, d')"
  shows "alertRows d + of_bool (\<exists>a. r = Inr (a, True)) \<le> alertRows d' \<and> resolvedRows d' = resolvedRows d"
proof -
  obtain x d1 where x: "pg_run (sql_insert_alert n i dv st rn sev (marshal_map det) t) d = (x, d1)" by fastforce
  note ins = insert_alert_table [OF x]
  have get: "alertRows d2 = alertRows d1 \<and> resolvedRows d2 = resolvedRows d1" if "getOpen dv st rn d1 = (y, d2)" for y d2
    using getOpen_table [OF that] by (simp add: alertRows_def resolvedRows_def)
  show ?thesis
    using assms ins unfolding Alerts_Open_def x
    by (auto split: sum.splits if_splits prod.splits dest!: get)
qed

lemma update_table:
  assumes "\<And>r. P r \<Longrightarrow> al_state r \<noteq> Resolved" and "\<And>r. al_state (f r) = Resolved"
  shows "length (filter (\<lambda>r. al_state r = Resolved) (map (\<lambda>r. if P r then f r else r) rs)) =
    length (filter (\<lambda>r. al_state r = Resolved) rs) + length (filter P rs)"
  using assms by (induction rs) auto

lemma resolve_table:
  assumes "pg_run (sql_resolve n dv st rn t) d = (r, d')"
  shows "alertRows d' = alertRows d \<and> resolvedRows d + of_bool (\<exists>x xs. r = Inr (x # xs)) \<le> resolvedRows d'"
proof -
  have upd: "alertRows d2 = alertRows d1 \<and> resolvedRows d2 = resolvedRows d1 + length rows"
    if sql: "sql_resolve n dv st rn t d1 = Inr (rows, d2)" for d1 rows d2
  proof -
    obtain u where "update_alerts (open_for u st rn) (resolveRow n t) d1 = Inr (rows, d2)"
      using sql by (auto simp: sql_resolve_def uuid_arg_Inr)
    then have "rows = map (resolveRow n t) (filter (open_for u st rn) (pg_alerts d1))"
      "pg_alerts d2 = map (\<lambda>r. if open_for u st rn r then resolveRow n t r else r) (pg_alerts d1)"
      by (auto simp: update_alerts_def)
    then show ?thesis
      using update_table [of "open_for u st rn" "resolveRow n t" "pg_alerts d1"]
      by (simp add: alertRows_def resolvedRows_def open_for_def resolveRow_def)
  qed
  have faults: "alertRows (d\<lparr>pg_faults := fs\<rparr>) = alertRows d" "resolvedRows (d\<lparr>pg_faults := fs\<rparr>) = resolvedRows d" for fs
    by (simp_all add: alertRows_def resolvedRows_def)
  show ?thesis
    using assms by (elim pg_run_cases) (auto simp: faults dest!: upd)
qed

lemma Alerts_Resolve_table:
  assumes "Alerts_Resolve n dv st rn t d = (r, d')"
  shows "alertRows d' = alertRows d \<and> resolvedRows d + of_bool (\<exists>a. r = Inr (Some a)) \<le> resolvedRows d'"
proof -
  obtain x d1 where x: "pg_run (sql_resolve n dv st rn t) d = (x, d1)" by fastforce
  with resolve_table [OF x] assms show ?thesis
    by (auto simp: Alerts_Resolve_def split: sum.splits list.splits)
qed

text \<open>What one alert call adds to the metrics and to the outside.\<close>

definition alert_delta :: "'kv mworld \<Rightarrow> 'kv mworld \<Rightarrow> bool" where
  "alert_delta s s' \<longleftrightarrow> (let (m, w) = s; (m', w') = s' in
     wm_messagesConsumed m' = wm_messagesConsumed m \<and> wm_detectorEvals m' = wm_detectorEvals m \<and>
     wm_metricsPublished m' = wm_metricsPublished m \<and> wm_publishErrors m \<le> wm_publishErrors m' \<and>
     metricsSent w' = metricsSent w \<and>
     wm_alertsFired m' + wm_alertsResolved m' \<le> Suc (wm_alertsFired m + wm_alertsResolved m) \<and>
     alertRows (w_pg w) + wm_alertsFired m' \<le> alertRows (w_pg w') + wm_alertsFired m \<and>
     resolvedRows (w_pg w) + wm_alertsResolved m' \<le> resolvedRows (w_pg w') + wm_alertsResolved m)"

lemma metricsSent_frame: "w_js w' = w_js w \<Longrightarrow> metricsSent w' = metricsSent w"
  by (simp add: metricsSent_def)

lemma publishAlert_parts:
  assumes "publishAlert_metered a (m, w) = (m', w')"
  shows "wm_messagesConsumed m' = wm_messagesConsumed m" "wm_detectorEvals m' = wm_detectorEvals m"
    "wm_metricsPublished m' = wm_metricsPublished m" "wm_alertsFired m' = wm_alertsFired m" "wm_alertsResolved m' = wm_alertsResolved m"
    "wm_publishErrors m \<le> wm_publishErrors m'" and "w_pg w' = w_pg w" and "metricsSent w' = metricsSent w"
proof -
  obtain t w1 where t: "time_Now w = (t, w1)" by (cases "time_Now w")
  obtain e b where p: "Alerts_Publish a t (w_js w1) = (e, b)" by fastforce
  have same: "w_pg w1 = w_pg w" "w_js w1 = w_js w" using t by (auto simp: time_Now_def)
  have r: "w' = w1\<lparr>w_js := b\<rparr>" "m' = m \<or> m' = m\<lparr>wm_publishErrors := Suc (wm_publishErrors m)\<rparr>"
    using assms by (auto simp: publishAlert_metered_def t on_js_def p split: option.splits)
  show "wm_messagesConsumed m' = wm_messagesConsumed m" "wm_detectorEvals m' = wm_detectorEvals m"
    "wm_metricsPublished m' = wm_metricsPublished m" "wm_alertsFired m' = wm_alertsFired m" "wm_alertsResolved m' = wm_alertsResolved m"
    "wm_publishErrors m \<le> wm_publishErrors m'"
    using r(2) by auto
  show "w_pg w' = w_pg w" using r(1) same by simp
  show "metricsSent w' = metricsSent w"
    using p same unfolding Alerts_Publish_def by (elim bus_publish_cases) (auto simp: metricsSent_def r(1))
qed

lemma on_pg_now_parts:
  assumes "on_pg_now f w = (r, w')"
  shows "\<exists>n. f n (w_pg w) = (r, w_pg w')" and "w_js w' = w_js w"
  using assms by (auto simp: on_pg_now_def on_pg_def time_Now_def split: prod.splits)

lemma fire_delta: "alert_delta s (fire_metered dv st rule score s)"
proof -
  obtain m w where s: "s = (m, w)" by (cases s)
  obtain i w1 t w2 where u: "uuid_NewString w = (i, w1)" "time_Now w1 = (t, w2)" by (metis surj_pair)
  have same: "w_pg w2 = w_pg w" "w_js w2 = w_js w" using u by (auto simp: uuid_NewString_def time_Now_def)
  obtain r w3 where r: "on_pg_now (\<lambda>n. Alerts_Open n i dv st (ru_Name rule) (ru_Severity rule) (fireDetail rule score) t) w2 = (r, w3)"
    by (metis surj_pair)
  obtain n where n: "Alerts_Open n i dv st (ru_Name rule) (ru_Severity rule) (fireDetail rule score) t (w_pg w) = (r, w_pg w3)"
    using on_pg_now_parts(1) [OF r] same by auto
  note tab = Alerts_Open_table [OF n]
  have sent: "metricsSent w3 = metricsSent w" by (rule metricsSent_frame) (simp add: on_pg_now_parts(2) [OF r] same)
  show ?thesis
  proof (cases r)
    case (Inl err)
    then show ?thesis using tab sent by (simp add: alert_delta_def fire_metered_def s u r)
  next
    case (Inr x)
    obtain a opened where x: "x = (a, opened)" by (cases x)
    let ?m = "if opened then m\<lparr>wm_alertsFired := Suc (wm_alertsFired m)\<rparr> else m"
    obtain m' w' where p: "publishAlert_metered a (?m, w3) = (m', w')" by (metis surj_pair)
    have "fire_metered dv st rule score s = (m', w')" using p by (simp add: fire_metered_def s u r Inr x)
    with tab Inr x publishAlert_parts(6) [OF p] show ?thesis
      by (cases opened) (simp_all add: alert_delta_def s publishAlert_parts [OF p] sent)
  qed
qed

lemma resolve_delta: "alert_delta s (resolve_metered dv st rule s)"
proof -
  obtain m w where s: "s = (m, w)" by (cases s)
  obtain t w1 where u: "time_Now w = (t, w1)" by (metis surj_pair)
  have same: "w_pg w1 = w_pg w" "w_js w1 = w_js w" using u by (auto simp: time_Now_def)
  obtain r w2 where r: "on_pg_now (\<lambda>n. Alerts_Resolve n dv st (ru_Name rule) t) w1 = (r, w2)" by (metis surj_pair)
  obtain n where n: "Alerts_Resolve n dv st (ru_Name rule) t (w_pg w) = (r, w_pg w2)"
    using on_pg_now_parts(1) [OF r] same by auto
  note tab = Alerts_Resolve_table [OF n]
  have sent: "metricsSent w2 = metricsSent w" by (rule metricsSent_frame) (simp add: on_pg_now_parts(2) [OF r] same)
  show ?thesis
  proof (cases "\<exists>a. r = Inr (Some a)")
    case True
    then obtain a where a: "r = Inr (Some a)" by blast
    let ?m = "m\<lparr>wm_alertsResolved := Suc (wm_alertsResolved m)\<rparr>"
    obtain m' w' where p: "publishAlert_metered a (?m, w2) = (m', w')" by (metis surj_pair)
    have "resolve_metered dv st rule s = (m', w')" using p by (simp add: resolve_metered_def s u r a)
    with tab a publishAlert_parts(6) [OF p] show ?thesis by (simp add: alert_delta_def s publishAlert_parts [OF p] sent)
  next
    case False
    then have "resolve_metered dv st rule s = (m, w2)"
      by (auto simp: resolve_metered_def s u r split: sum.split option.split)
    with tab sent show ?thesis by (simp add: alert_delta_def s)
  qed
qed

text \<open>The consumer's books since it started on the world \<open>w0\<close>.\<close>

definition wbooks :: "'kv world \<Rightarrow> 'kv mworld \<Rightarrow> bool" where
  "wbooks w0 s \<longleftrightarrow> (let (m, w) = s in
     metricsSent w0 + wm_metricsPublished m \<le> metricsSent w \<and>
     metricsSent w \<le> metricsSent w0 + wm_metricsPublished m + wm_publishErrors m \<and>
     wm_alertsFired m + wm_alertsResolved m \<le> wm_detectorEvals m \<and>
     alertRows (w_pg w0) + wm_alertsFired m \<le> alertRows (w_pg w) \<and>
     resolvedRows (w_pg w0) + wm_alertsResolved m \<le> resolvedRows (w_pg w))"

lemma wbooks_start: "wbooks w (newWindowedMetrics, w)"
  by (simp add: wbooks_def newWindowedMetrics_def)

lemma wbooks_alert:
  assumes "wbooks w0 s" and "alert_delta (evaluated s) s'"
  shows "wbooks w0 s'"
  using assms by (cases s; cases s') (simp add: wbooks_def alert_delta_def evaluated_def)

lemma wbooks_evaluated: "wbooks w0 s \<Longrightarrow> wbooks w0 (evaluated s)"
  by (cases s) (simp add: wbooks_def evaluated_def)

lemma wbooks_apply:
  assumes "wbooks w0 s"
  shows "wbooks w0 (snd (apply_metered dv st rule v score (e, evaluated s)))"
  using wbooks_alert [OF assms fire_delta] wbooks_alert [OF assms resolve_delta] wbooks_evaluated [OF assms]
  by (simp add: apply_metered_def split: prod.split EvalEvent.split)

lemma wbooks_evalRule: "wbooks w0 (snd s) \<Longrightarrow> wbooks w0 (snd (evalRule_metered dv st val wi rule s))"
  by (simp add: evalRule_metered_def Let_def wbooks_apply wbooks_evaluated split: prod.split)

lemma wbooks_frame:
  "wbooks w0 (m, w) \<Longrightarrow> w_pg w' = w_pg w \<Longrightarrow> w_js w' = w_js w \<Longrightarrow> wbooks w0 (m, w')"
  by (simp add: wbooks_def metricsSent_def)

lemma wbooks_publishMetric: 
  assumes "wbooks w0 s"
  shows "wbooks w0 (publishMetric_metered dv st wi tr s)"
proof -
  obtain m w where s: "s = (m, w)" by (cases s)
  let ?e = "marshal_MetricEvent \<lparr>me_SchemaVersion = MetricEventSchemaVersion, me_DeviceID = dv,
               me_SensorType = st, me_Mean = W_Mean wi, me_StdDev = W_StdDev wi, me_Count = W_Count wi,
               me_EWMA = W_EWMA wi, me_WindowStartMS = UnixMilli (OldestTime wi), me_WindowEndMS = UnixMilli (NewestTime wi),
               me_TraceID = tr\<rparr>"
  obtain r b where p: "bus_publish (MetricsSubject dv) ?e (w_js w) = (r, b)" by fastforce
  have run: "publishMetric_metered dv st wi tr s = (case r of Some e \<Rightarrow> (m\<lparr>wm_publishErrors := Suc (wm_publishErrors m)\<rparr>, w\<lparr>w_js := b\<rparr>)
      | None \<Rightarrow> (m\<lparr>wm_metricsPublished := Suc (wm_metricsPublished m)\<rparr>, w\<lparr>w_js := b\<rparr>))"
    by (simp add: publishMetric_metered_def s on_js_def p)
  have sent: "metricsSent (w\<lparr>w_js := b\<rparr>) = Suc (metricsSent w) \<or> r \<noteq> None \<and> metricsSent (w\<lparr>w_js := b\<rparr>) = metricsSent w"
    using p by (elim bus_publish_cases) (auto simp: metricsSent_def)
  show ?thesis
    using assms sent by (cases r) (auto simp: run [unfolded s] s wbooks_def)
qed

lemma wbooks_processSample:
  assumes "wbooks w0 (snd s)"
  shows "wbooks w0 (snd (processSample_metered dv st val t seq tr s))"
proof -
  obtain c m w where s: "s = (c, m, w)" by (rule prod_cases3)
  obtain now w1 where t: "time_Now w = (now, w1)" by (cases "time_Now w")
  obtain wi reg where g: "Registry_Get (wc_registry c) \<lparr>wk_DeviceID = dv, wk_SensorType = st\<rparr> now = (wi, reg)" by fastforce
  obtain wi' new where i: "Insert wi t val seq = (wi', new)" by (cases "Insert wi t val seq")
  have b: "wbooks w0 (m, w1)" using assms t by (auto simp: s time_Now_def intro: wbooks_frame)
  let ?s2 = "publishMetric_metered dv st wi' tr (m, w1)"
  have "wbooks w0 (snd (fold (evalRule_metered dv st val wi') rules (e, ?s2)))" for rules e
    by (rule fold_keeps [where P = "\<lambda>s. wbooks w0 (snd s)"]) (simp_all add: wbooks_publishMetric [OF b] wbooks_evalRule)
  note kept = this
  obtain e s3 where "fold (evalRule_metered dv st val wi') (ForSensor (Watcher_Current (wc_rulesW c)) st) (wc_evaluator c, ?s2) = (e, s3)"
    by (metis surj_pair)
  with b kept [of "ForSensor (Watcher_Current (wc_rulesW c)) st" "wc_evaluator c"] show ?thesis
    by (cases new) (simp_all add: processSample_metered_def s t g i Let_def)
qed

lemma wbooks_step: "wbooks w0 (snd s) \<Longrightarrow> wbooks w0 (snd (windowed_step_metered ev s))"
proof -
  assume b: "wbooks w0 (snd s)"
  obtain c m w where s: "s = (c, m, w)" by (rule prod_cases3)
  show ?thesis
  proof (cases ev)
    case (WmMsg msg)
    have b1: "wbooks w0 (m\<lparr>wm_messagesConsumed := Suc (wm_messagesConsumed m)\<rparr>, w)" using b by (simp add: s wbooks_def)
    have "wbooks w0 (snd (fold (\<lambda>(st, val). processSample_metered dv st val t seq tr) vs (c, m\<lparr>wm_messagesConsumed := Suc (wm_messagesConsumed m)\<rparr>, w)))"
      for dv t seq tr vs
      by (rule fold_keeps [where P = "\<lambda>s. wbooks w0 (snd s)"]) (auto simp: b1 wbooks_processSample)
    with b1 show ?thesis by (simp add: WmMsg windowed_onMessage_metered_def s Let_def split: sum.split)
  next
    case WmSweep
    obtain start w1 where t: "time_Now w = (start, w1)" by (cases "time_Now w")
    have b1: "wbooks w0 (m, w1)" using b t by (auto simp: s time_Now_def intro: wbooks_frame)
    have key: "wbooks w0 (snd (sweepKey_metered cfg reg start key x))" if "wbooks w0 (snd x)" for cfg reg key x
      unfolding sweepKey_metered_def using that
      by (auto split: prod.split bool.split intro!: fold_keeps [where P = "\<lambda>s. wbooks w0 (snd s)"] simp: wbooks_apply)
    obtain e m2 w2 where f: "fold (sweepKey_metered (Watcher_Current (wc_rulesW c)) (wc_registry c) start)
        (Registry_Keys (wc_registry c)) (wc_evaluator c, m, w1) = (e, m2, w2)" by (rule prod_cases3)
    have "wbooks w0 (snd (e, m2, w2))"
      unfolding f [symmetric] by (rule fold_keeps [where P = "\<lambda>s. wbooks w0 (snd s)"]) (simp_all add: b1 key)
    then have "wbooks w0 (m2\<lparr>wm_registryEvictions := x, wm_registrySize := y\<rparr>, snd (time_Now w2))" for x y
      by (simp add: wbooks_def time_Now_def metricsSent_def)
    with t f show ?thesis by (simp add: WmSweep sweep_metered_def s Let_def time_Now_def split: prod.split)
  next
    case (WmLag info)
    with b show ?thesis by (cases info) (simp_all add: s wbooks_def)
  qed
qed

lemma run_books: "wbooks w0 (snd s) \<Longrightarrow> wbooks w0 (snd (fold windowed_step_metered evs s))"
  by (rule fold_keeps [where P = "\<lambda>s. wbooks w0 (snd s)"]) (simp_all add: wbooks_step)

section \<open>Properties\<close>

text \<open>The windowed consumer's counters do not claim more than there is. Started with fresh metrics on any world and led through
  any messages, sweeps and lag polls, with any pattern of failures, the consumer does exactly what it does without metrics, and:
  the metric events in the stream lie between the published count and that plus the publish errors; at least as many alerts were added to the
  table as are counted as fired, and at least as many of its rows became resolved as are counted so; and every alert that fired
  or resolved comes from an evaluation that was counted.\<close>

theorem windowed_counts_covered:
  assumes "fold windowed_step_metered evs (c, newWindowedMetrics, w) = (c', m, w')"
  shows "fold windowed_step (List.map_filter plain_event evs) (c, w) = (c', w') \<and>
    metricsSent w + wm_metricsPublished m \<le> metricsSent w' \<and>
    metricsSent w' \<le> metricsSent w + wm_metricsPublished m + wm_publishErrors m \<and>
    alertRows (w_pg w) + wm_alertsFired m \<le> alertRows (w_pg w') \<and>
    resolvedRows (w_pg w) + wm_alertsResolved m \<le> resolvedRows (w_pg w') \<and>
    wm_alertsFired m + wm_alertsResolved m \<le> wm_detectorEvals m"
  using run_unmet [of evs "(c, newWindowedMetrics, w)"] run_books [of w "(c, newWindowedMetrics, w)" evs] wbooks_start [of w] assms
  by (simp add: wbooks_def)

theorem windowed_counts_covered_witness:
  "\<exists>c m w. fold windowed_step_metered [WmLag (Some 3), WmMsg \<lparr>jm_delivery = 1, jm_data = None\<rparr>]
      (newWindowedConsumer (NewRegistry 5 0 1) \<lparr>wa_current = \<lparr>cfg_Rules = []\<rparr>\<rparr> 10 10, newWindowedMetrics, ingestWorld []) = (c, m, w) \<and>
    wm_messagesConsumed m = 1 \<and> wm_consumerLag m = 3 \<and> metricsSent w = 0"
proof -
  let ?c = "newWindowedConsumer (NewRegistry 5 0 1) \<lparr>wa_current = \<lparr>cfg_Rules = []\<rparr>\<rparr> 10 10"
  obtain c m w where run: "fold windowed_step_metered [WmLag (Some 3), WmMsg \<lparr>jm_delivery = 1, jm_data = None\<rparr>]
      (?c, newWindowedMetrics, ingestWorld []) = (c, m, w)" by (rule prod_cases3)
  then have m: "m = newWindowedMetrics\<lparr>wm_consumerLag := 3, wm_messagesConsumed := 1\<rparr>"
    by (simp add: windowed_onMessage_metered_def unmarshal_StampedReading_def Unmarshal_def newWindowedMetrics_def)
  have "metricsSent (ingestWorld []) = 0" by (simp add: metricsSent_def ingestWorld_def)
  with windowed_counts_covered [OF run] m have "metricsSent w = 0" by (simp add: newWindowedMetrics_def)
  with run m show ?thesis by (intro exI [of _ c] exI [of _ m] exI [of _ w]) (simp add: newWindowedMetrics_def)
qed

end
