(* ===== verification/Spec2Isabelle.thy ===== *)
theory Spec2Isabelle
  imports TokenCli Startup MqttClient ControlService WindowedMetrics
begin

text \<open>
  SenseGrid: a verification development of its Go services.

  \<^bold>\<open>The program.\<close> Devices publish sensor readings over MQTT. \<^verbatim>\<open>cmd/ingest\<close> checks them and puts them
  into a JetStream stream; \<^verbatim>\<open>cmd/processor\<close> writes them to TimescaleDB in batches and, beside that, keeps a sliding window per
  device and sensor, evaluates anomaly rules and opens and resolves alerts. \<^verbatim>\<open>cmd/control\<close> registers devices (one-time tokens, broker
  credentials), keeps the desired and the reported configuration of each device, rolls configurations out in stages, and serves the HTTP API and
  the live feed of the console. \<^verbatim>\<open>cmd/hostagent\<close> is a real device, \<^verbatim>\<open>cmd/fleet\<close> simulates many.

  \<^bold>\<open>How it is modelled.\<close> Each operation is a HOL function that takes the state and returns the result and the state after it; an
  error is a value, a panic is \<open>None\<close> or an outcome of its own. What a service meets outside (Postgres, the KV bucket,
  the brokers, the clock, fresh ids) is the record \<open>world\<close> of the theory \<open>World\<close>; every external call consumes an entry of a
  fault script that says whether it fails before or after it had its effect, so a statement about every script is one about every
  pattern of failures. Third-party code is a parameter, and the laws a statement uses of it are the assumptions of a locale that
  a model in memory interprets: \<open>kv_bucket\<close> (JetStream KV), \<open>redis_store\<close>, \<open>dynsec_plugin\<close>, \<open>jwt_hs256\<close>, \<open>topic_filters\<close> and
  \<open>mqtt_session\<close> (MQTT), \<open>nats_subjects\<close>, \<open>w3c_ids\<close> (OpenTelemetry), \<open>prom_registry\<close> (Prometheus).
  The interfaces between the program's own parts (such as \<open>shadow_setter\<close>, \<open>engine_env\<close>, \<open>rollout_store\<close> and \<open>stage_store\<close>, on which the rollout
  engine rests) are locales too, interpreted on the definitions that provide them.
  Interleavings are lists of events or inductive runs, and statements hold for all of them.

  \<^bold>\<open>Theories and sources.\<close>
  \<^item> \<open>Prelude\<close>, \<open>Json\<close>, \<open>Database\<close>, \<open>Messaging\<close>, \<open>World\<close>: Go's types and the parts of its library that are used, \<^verbatim>\<open>encoding/json\<close> on
    JSON values, the tables of \<^verbatim>\<open>deploy/migrations\<close>, brokers, the world.
  \<^item> \<open>Telemetry\<close> (\<^verbatim>\<open>internal/telemetry\<close>), \<open>Stats\<close>, \<open>Window\<close>, \<open>Registry\<close> (\<^verbatim>\<open>internal/window\<close>), \<open>Rules\<close> (\<^verbatim>\<open>internal/rules\<close>),
    \<open>Anomaly\<close> (\<^verbatim>\<open>internal/anomaly\<close>), \<open>Devices\<close> (\<^verbatim>\<open>internal/devices\<close>), \<open>Alerts\<close> (\<^verbatim>\<open>internal/alerts\<close>), \<open>Shadow\<close> (\<^verbatim>\<open>internal/shadow\<close>).
  \<^item> \<open>Rollout\<close>, \<open>RolloutStore\<close>, \<open>RolloutEngine\<close> (\<^verbatim>\<open>internal/rollout\<close>), with the proofs of \<open>RolloutSafety\<close> (abort restores the fleet),
    \<open>RolloutStages\<close> (every call keeps the stage index in range) and \<open>RolloutLifecycle\<close> (ticks, restart, no panic).
  \<^item> \<open>Ingest\<close> (\<^verbatim>\<open>cmd/ingest\<close>), \<open>Persistence\<close> and \<open>Windowed\<close> (\<^verbatim>\<open>cmd/processor\<close>), \<open>AgentConfig\<close> and \<open>HostAgent\<close> (\<^verbatim>\<open>cmd/hostagent\<close>), \<open>Fleet\<close> and
    \<open>FleetManager\<close> (\<^verbatim>\<open>cmd/fleet\<close>), \<open>Provisioning\<close> (\<^verbatim>\<open>internal/provisioning\<close>).
  \<^item> \<open>Tokens\<close> (\<^verbatim>\<open>internal/devicestore\<close>), \<open>Dynsec\<close> (\<^verbatim>\<open>internal/dynsec\<close>), \<open>Claim\<close>, \<open>Auth\<close>, \<open>ControlApi\<close>, \<open>LiveFeed\<close>, \<open>TokenCli\<close>, \<open>Bootstrap\<close>
    (\<^verbatim>\<open>cmd/control\<close>, \<^verbatim>\<open>internal/users\<close>), \<open>Migrations\<close> (\<^verbatim>\<open>internal/migrations\<close>), \<open>Config\<close> (\<^verbatim>\<open>internal/config\<close>, \<^verbatim>\<open>cmd/fleet/config.go\<close>).
  \<^item> \<open>ControlService\<close> serves the HTTP API of \<^verbatim>\<open>cmd/control\<close> as a whole: login, claim and the calls behind a role, in any order.
  \<^item> \<open>MqttClient\<close>: how the MQTT clients of the \<^verbatim>\<open>cmd\<close>s are set up, and the link between a broker and ingest. \<open>Streams\<close>: the JetStream
    streams and consumers. \<open>Tracing\<close> (\<^verbatim>\<open>internal/tracing\<close>), \<open>Metrics\<close> and \<open>WindowedMetrics\<close> (the counters of ingest and of the
    processor), \<open>Lifecycle\<close> (\<^verbatim>\<open>internal/httpserver\<close>).
  \<^item> \<open>Startup\<close> composes the parts as the \<^verbatim>\<open>main\<close>s do; \<open>Pipeline\<close> follows a reading from the agent to the table.

  A function keeps its Go name, with its type or package before it where names clash (\<open>Engine_Create\<close>, \<open>Alerts_Open\<close>,
  \<open>Registry_Sweep\<close>); a SQL statement is \<open>sql_...\<close>, the decoder of a struct \<open>set_...\<close> with \<open>unmarshal_...\<close>, its encoder \<open>marshal_...\<close>.

  \<^bold>\<open>What is shown.\<close>
  \<^item> Data: round trips of readings, configurations, credentials, topics, token files and migration files; windows stay sorted, bounded and
    equal to the longest suffix; Welford's update equals the recomputed statistics; alert hysteresis is characterised exactly.
  \<^item> Stores: at most one open alert per condition, and the store moves rows only along the transition table; claims grant one
    identity per token; a run of the migrations, in any directory, applies each transactional file wholly or not at all.
  \<^item> Services: ingest acknowledges what it handled and isolates devices; the processor acknowledges what it stored; alerts mirror the evaluator; the
    agent numbers readings without gaps; the fleet accounts for each of its readings; the API changes nothing without the role, except
    that a claim with a valid token registers its device; broker roles confine a device to
    its own topics; a viewer's feed is a subsequence of the events.
  \<^item> Rollouts: an aborted rollout leaves every device whose pushes and reverts succeeded as it was; ticks put health before bake time;
    the engine never indexes out of range; a restart resumes exactly the unfinished rollouts.
  \<^item> Across services: of a reading the processor acknowledged every value is in the table, with the times and the number the agent gave it,
    and with everything reachable and every device of the batch registered the next flush puts it there; every setting is the one its variable names, or the default; a configuration that was set ends as in sync or rejected; control serves only when it is safe to.
  \<^item> Where the code does not do what it should, a theorem states what it does (an empty \<^verbatim>\<open>values\<close> map is never acknowledged, a failed listing at
    the start strands the rollouts, a reading whose publish fails is lost although it is left unacknowledged, an interrupted migration outside a
    transaction is skipped, and others).

  \<^bold>\<open>Loops and bounds.\<close> Loops over slices, maps and event lists are structural recursions; the loops that are not (\<^verbatim>\<open>trimWith\<close>, the
  binary search of a window, the terms of a duration, decimal digits) have a termination proof, so no fuel is used. \<^verbatim>\<open>uint64\<close> and \<^verbatim>\<open>uint32\<close> are words, \<^verbatim>\<open>int\<close> and
  \<^verbatim>\<open>time.Duration\<close> are integers whose wrap-around is written out where the code multiplies (\<open>int64_wrap\<close>, \<open>scaled\<close>) and where
  it subtracts times (\<open>time_sub\<close>). A select loop that runs until the context ends is a fold over the events that reach it; the two goroutines of
  \<^verbatim>\<open>httpserver.Run\<close> are a step relation, whose runs have at most five steps.

  \<^bold>\<open>Not modelled.\<close> \<^verbatim>\<open>float64\<close> is \<^typ>\<open>real\<close>: rounding, NaN and the infinities are outside. JSON texts are
  JSON values: the lexer, duplicate handling of invalid UTF-8 and NUL bytes in Postgres texts are outside. Timeouts of contexts appear as failed
  calls. Log lines have no effect on the behaviour and are left out, but for what a log line may show of the settings. Of the libraries only
  what the code uses of their documented behaviour is there: how \<^verbatim>\<open>net/http\<close> drains, how the MQTT library backs off, how spans and metrics are
  exported and files are served is not. That the process may end before a goroutine that is not waited for is finished is not
  modelled either. The retention policy of migration 0004 runs in the database: readings are never deleted in the
  model. Calls of ingest's message handler that overlap are taken one after another, in every order.
  Two migration runners at work at the same time appear only as the error codes one of them meets. The console, the sensor client and the firmware are in other languages.
\<close>

end
